(* ===== verification/Go_Prelude.thy ===== *)
theory Go_Prelude
  imports Main "HOL-Library.Word" "HOL-Library.List_Lexorder"
begin

text \<open>
  Shared vocabulary of the development: the machine types of the Go sources, the outcome of
  a Go call (a value or a panic), and generic lemmas on lists, options and sums that the
  component theories use.
\<close>

named_theorems go_simps
named_theorems inv_intros

section \<open>Types\<close>

type_synonym u8 = "8 word"
type_synonym u64 = "64 word"
type_synonym bytes = "8 word list"

text \<open>
  A Go call either returns or panics. \<open>Panic\<close> carries the name of the place that panics:
  an explicit \<open>panic\<close>/\<open>PanicSanity\<close>, an index out of range, or a nil dereference.
\<close>

datatype 'a go = Ret 'a | Panic string

fun bindGo :: "'a go \<Rightarrow> ('a \<Rightarrow> 'b go) \<Rightarrow> 'b go" where
  "bindGo (Ret x) f = f x"
| "bindGo (Panic e) f = Panic e"

fun returns :: "'a go \<Rightarrow> bool" where
  "returns (Ret x) = True"
| "returns (Panic e) = False"

lemma bindGo_Ret_iff [go_simps]: "bindGo m f = Ret y \<longleftrightarrow> (\<exists>x. m = Ret x \<and> f x = Ret y)"
  by (cases m) auto

lemma bindGo_cong [fundef_cong]:
  "m = m' \<Longrightarrow> (\<And>x. m' = Ret x \<Longrightarrow> f x = g x) \<Longrightarrow> bindGo m f = bindGo m' g"
  by (cases m') auto

lemma bindGo_assoc: "bindGo (bindGo m f) g = bindGo m (\<lambda>x. bindGo (f x) g)"
  by (cases m) auto

lemma returns_iff [go_simps]: "returns m \<longleftrightarrow> (\<exists>x. m = Ret x)"
  by (cases m) auto

section \<open>Lists\<close>

text \<open>The first position whose element satisfies a test, as a Go search loop finds it.\<close>

fun find_index :: "('a \<Rightarrow> bool) \<Rightarrow> 'a list \<Rightarrow> nat option" where
  "find_index P [] = None"
| "find_index P (x # xs) = (if P x then Some 0 else map_option Suc (find_index P xs))"

lemma find_index_None [simp]: "find_index P xs = None \<longleftrightarrow> (\<forall>x\<in>set xs. \<not> P x)"
  by (induction xs) auto

lemma find_index_Some:
  "find_index P xs = Some i \<Longrightarrow> i < length xs \<and> P (xs ! i) \<and> (\<forall>j<i. \<not> P (xs ! j))"
proof (induction xs arbitrary: i)
  case Nil
  then show ?case by simp
next
  case (Cons x xs)
  show ?case
  proof (cases "P x")
    case True
    with Cons.prems show ?thesis by auto
  next
    case False
    with Cons.prems obtain k where "find_index P xs = Some k" "i = Suc k"
      by auto
    with Cons.IH [of k] False show ?thesis
      by (auto simp: nth_Cons split: nat.splits)
  qed
qed

lemma find_index_distinct:
  assumes "distinct (map f xs)" "i < length xs"
  shows "find_index (\<lambda>x. f x = f (xs ! i)) xs = Some i"
  using assms
proof (induction xs arbitrary: i)
  case Nil
  then show ?case by simp
next
  case (Cons x xs)
  then show ?case by (cases i) (auto simp: nth_Cons)
qed

lemma fold_sum_upt:
  fixes g :: "nat \<Rightarrow> int"
  shows "fold (\<lambda>i s. s + g i) [0..<n] s0 = s0 + (\<Sum>i<n. g i)"
  by (induction n) (auto simp: algebra_simps)

lemma sum_list_update_option:
  fixes w :: "nat \<Rightarrow> int"
  assumes "i < length xs" "xs ! i = None"
  shows "(\<Sum>j<length xs. if xs[i := Some v] ! j \<noteq> None then w j else 0)
       = (\<Sum>j<length xs. if xs ! j \<noteq> None then w j else 0) + w i"
proof -
  have "(\<Sum>j<length xs. if xs[i := Some v] ! j \<noteq> None then w j else 0)
      = (\<Sum>j<length xs. (if xs ! j \<noteq> None then w j else 0) + (if j = i then w i else 0))"
    by (rule sum.cong) (use assms in \<open>auto simp: nth_list_update\<close>)
  also have "\<dots> = (\<Sum>j<length xs. if xs ! j \<noteq> None then w j else 0) + w i"
    using assms(1) by (simp add: sum.distrib)
  finally show ?thesis .
qed

lemma sum_if_mono:
  fixes w :: "nat \<Rightarrow> int"
  assumes "\<And>i. i < n \<Longrightarrow> P i \<Longrightarrow> Q i" "\<And>i. i < n \<Longrightarrow> 0 \<le> w i"
  shows "(\<Sum>i<n. if P i then w i else 0) \<le> (\<Sum>i<n. if Q i then w i else 0)"
  by (rule sum_mono) (use assms in auto)

section \<open>Machine integers\<close>

lemma sint_nonneg_unat:
  assumes "0 \<le> sint (w :: u64)"
  shows "sint w = int (unat w)"
proof -
  have "sint w < 2 ^ 63" using sint_lt [of w] by simp
  then have "take_bit 64 (sint w) = sint w" using assms by (simp add: take_bit_int_eq_self)
  moreover have "uint w = take_bit 64 (sint w)" using uint_sint [of w] by simp
  ultimately show ?thesis by simp
qed

lemma sint_of_int_small: "0 \<le> i \<Longrightarrow> i < 2 ^ 63 \<Longrightarrow> sint (word_of_int i :: u64) = i"
  by (simp add: signed_of_int signed_take_bit_int_eq_self)

lemma unat_of_int_small: "0 \<le> i \<Longrightarrow> i < 2 ^ 64 \<Longrightarrow> unat (word_of_int i :: u64) = nat i"
  by (simp add: unat_eq_nat_uint uint_word_of_int)

end
