(* ===== verification/External.thy ===== *)
theory External
  imports Go_Prelude
begin

text \<open>
  The interface of the third-party packages the consensus code calls: \<open>common-go\<close>
  (BitArray), \<open>crypto-go\<close> (keys and signatures), \<open>wire-go\<close> (serialisation) and
  \<open>merkle-go\<close>. Their code is not part of the repository, so they enter the model as one
  record \<open>ext\<close> of operations, an argument of every definition that calls them. Keys and
  signatures are their byte strings; a value of type \<open>'b\<close> is a \<open>*BitArray\<close> (nil included).

  The data types that these operations take as arguments (part-set headers, block IDs and the
  canonical JSON structs of \<open>types/canonical_json.go\<close>) are declared here as well.
\<close>

section \<open>Block identifiers\<close>

record partSetHeader =
  psh_Total :: u64
  psh_Hash :: bytes

record blockID =
  bid_Hash :: bytes
  bid_PartsHeader :: partSetHeader

definition PartSetHeader_IsZero :: "partSetHeader \<Rightarrow> bool" where
  "PartSetHeader_IsZero psh \<longleftrightarrow> psh_Total psh = 0"

definition PartSetHeader_Equals :: "partSetHeader \<Rightarrow> partSetHeader \<Rightarrow> bool" where
  "PartSetHeader_Equals psh other \<longleftrightarrow>
     psh_Total psh = psh_Total other \<and> psh_Hash psh = psh_Hash other"

definition BlockID_IsZero :: "blockID \<Rightarrow> bool" where
  "BlockID_IsZero blockID \<longleftrightarrow>
     length (bid_Hash blockID) = 0 \<and> PartSetHeader_IsZero (bid_PartsHeader blockID)"

definition BlockID_Equals :: "blockID \<Rightarrow> blockID \<Rightarrow> bool" where
  "BlockID_Equals blockID other \<longleftrightarrow>
     bid_Hash blockID = bid_Hash other \<and>
     PartSetHeader_Equals (bid_PartsHeader blockID) (bid_PartsHeader other)"

text \<open>The zero values \<open>PartSetHeader{}\<close> and \<open>BlockID{}\<close>.\<close>

definition zeroPartSetHeader :: partSetHeader where
  "zeroPartSetHeader = \<lparr>psh_Total = 0, psh_Hash = []\<rparr>"

definition zeroBlockID :: blockID where
  "zeroBlockID = \<lparr>bid_Hash = [], bid_PartsHeader = zeroPartSetHeader\<rparr>"

lemma PartSetHeader_Equals_iff [simp]: "PartSetHeader_Equals p q \<longleftrightarrow> p = q"
  by (cases p; cases q) (auto simp: PartSetHeader_Equals_def)

lemma BlockID_Equals_iff [simp]: "BlockID_Equals a b \<longleftrightarrow> a = b"
  by (cases a; cases b) (auto simp: BlockID_Equals_def)

lemma zeroBlockID_IsZero [simp]: "BlockID_IsZero zeroBlockID"
  by (simp add: BlockID_IsZero_def PartSetHeader_IsZero_def zeroBlockID_def zeroPartSetHeader_def)

section \<open>Canonical JSON structs\<close>

record canonicalPartSetHeader =
  cpsh_Hash :: bytes
  cpsh_Total :: u64

record canonicalBlockID =
  cbid_Hash :: bytes
  cbid_PartsHeader :: canonicalPartSetHeader

record canonicalVote =
  cv_BlockID :: canonicalBlockID
  cv_Height :: u64
  cv_Round :: u64
  cv_Type :: u8

record canonicalProposal =
  cp_BlockPartsHeader :: canonicalPartSetHeader
  cp_Height :: u64
  cp_POLBlockID :: canonicalBlockID
  cp_POLRound :: int
  cp_Round :: int
  cp_Hash :: bytes

record canonicalSignAggr =
  csa_Height :: u64
  csa_Round :: int
  csa_Type :: u8
  csa_NumValidators :: int
  csa_BlockID :: canonicalBlockID
  csa_Maj23 :: canonicalBlockID
  csa_Sum :: int

definition CanonicalPartSetHeader :: "partSetHeader \<Rightarrow> canonicalPartSetHeader" where
  "CanonicalPartSetHeader psh = \<lparr>cpsh_Hash = psh_Hash psh, cpsh_Total = psh_Total psh\<rparr>"

definition CanonicalBlockID :: "blockID \<Rightarrow> canonicalBlockID" where
  "CanonicalBlockID blockID =
     \<lparr>cbid_Hash = bid_Hash blockID,
      cbid_PartsHeader = CanonicalPartSetHeader (bid_PartsHeader blockID)\<rparr>"

lemma CanonicalBlockID_inj [simp]: "CanonicalBlockID a = CanonicalBlockID b \<longleftrightarrow> a = b"
proof
  assume "CanonicalBlockID a = CanonicalBlockID b"
  then show "a = b"
    by (intro blockID.equality partSetHeader.equality)
       (auto simp: CanonicalBlockID_def CanonicalPartSetHeader_def)
qed simp

section \<open>The operations of the third-party packages\<close>

text \<open>\<open>merkle.SimpleProof\<close>: the hashes of the siblings on the path to the root.\<close>

type_synonym simpleProof = "bytes list"

record 'b ext =
  BA_isNil :: "'b \<Rightarrow> bool"
  BA_New :: "nat \<Rightarrow> 'b"
  BA_Size :: "'b \<Rightarrow> nat"
  BA_GetIndex :: "'b \<Rightarrow> nat \<Rightarrow> bool"
  BA_SetIndex :: "'b \<Rightarrow> nat \<Rightarrow> bool \<Rightarrow> 'b"
  BA_Copy :: "'b \<Rightarrow> 'b"
  VerifyBytes :: "bytes \<Rightarrow> bytes \<Rightarrow> bytes \<Rightarrow> bool"
  Sig_Equals :: "bytes \<Rightarrow> bytes \<Rightarrow> bool"
  BLSPubKeyAggregate :: "bytes list \<Rightarrow> bytes option"
  BLSSignatureAggregate :: "bytes list \<Rightarrow> bytes option"
  wire_BinaryBytes_psh :: "partSetHeader \<Rightarrow> bytes"
  wire_JSON_vote :: "string \<Rightarrow> canonicalVote \<Rightarrow> bytes"
  wire_JSON_proposal :: "string \<Rightarrow> canonicalProposal \<Rightarrow> bytes"
  wire_JSON_signAggr :: "string \<Rightarrow> canonicalSignAggr \<Rightarrow> bytes"
  ripemd160 :: "bytes \<Rightarrow> bytes"
  merkle_SimpleProofs :: "bytes list \<Rightarrow> bytes \<times> simpleProof list"
  merkle_Verify :: "simpleProof \<Rightarrow> int \<Rightarrow> int \<Rightarrow> bytes \<Rightarrow> bytes \<Rightarrow> bool"

text \<open>
  What the consensus code relies on of \<open>BitArray\<close>: a fresh array has the requested size and no
  bit set, and setting a bit inside the array changes that bit only.
\<close>

definition bitArray_laws :: "('b, 'z) ext_scheme \<Rightarrow> bool" where
  "bitArray_laws ext \<longleftrightarrow>
     (\<forall>n. \<not> BA_isNil ext (BA_New ext n)) \<and>
     (\<forall>n. BA_Size ext (BA_New ext n) = n) \<and>
     (\<forall>n i. \<not> BA_GetIndex ext (BA_New ext n) i) \<and>
     (\<forall>b i v. \<not> BA_isNil ext b \<longrightarrow> \<not> BA_isNil ext (BA_SetIndex ext b i v)) \<and>
     (\<forall>b i v. BA_Size ext (BA_SetIndex ext b i v) = BA_Size ext b) \<and>
     (\<forall>b i j v. i < BA_Size ext b \<longrightarrow>
        BA_GetIndex ext (BA_SetIndex ext b i v) j = (if j = i then v else BA_GetIndex ext b j)) \<and>
     (\<forall>b. BA_Copy ext b = b)"

lemma bitArray_lawsD:
  assumes "bitArray_laws ext"
  shows BA_New_not_nil: "\<not> BA_isNil ext (BA_New ext n)"
    and BA_Size_New: "BA_Size ext (BA_New ext n) = n"
    and BA_Get_New: "\<not> BA_GetIndex ext (BA_New ext n) i"
    and BA_Set_not_nil: "\<not> BA_isNil ext b \<Longrightarrow> \<not> BA_isNil ext (BA_SetIndex ext b i v)"
    and BA_Size_Set: "BA_Size ext (BA_SetIndex ext b i v) = BA_Size ext b"
    and BA_Get_Set: "i < BA_Size ext b \<Longrightarrow>
          BA_GetIndex ext (BA_SetIndex ext b i v) j = (if j = i then v else BA_GetIndex ext b j)"
    and BA_Copy_id: "BA_Copy ext b = b"
  using assms by (auto simp: bitArray_laws_def)

definition BlockID_Key :: "('b, 'z) ext_scheme \<Rightarrow> blockID \<Rightarrow> bytes" where
  "BlockID_Key ext blockID = bid_Hash blockID @ wire_BinaryBytes_psh ext (bid_PartsHeader blockID)"

section \<open>A concrete instance for the witnesses\<close>

text \<open>
  Bit arrays as \<open>bool list option\<close> (nil is \<open>None\<close>); a signature verifies when it is the message
  prefixed with the key; an aggregate is the concatenation.
\<close>

definition demo_ext :: "bool list option ext" where
  "demo_ext =
     \<lparr>BA_isNil = (\<lambda>b. b = None),
      BA_New = (\<lambda>n. Some (replicate n False)),
      BA_Size = (\<lambda>b. case b of None \<Rightarrow> 0 | Some xs \<Rightarrow> length xs),
      BA_GetIndex = (\<lambda>b i. case b of None \<Rightarrow> False | Some xs \<Rightarrow> i < length xs \<and> xs ! i),
      BA_SetIndex = (\<lambda>b i v. case b of None \<Rightarrow> None | Some xs \<Rightarrow> Some (xs[i := v])),
      BA_Copy = (\<lambda>b. b),
      VerifyBytes = (\<lambda>pk msg sig. sig = pk @ msg),
      Sig_Equals = (\<lambda>a b. a = b),
      BLSPubKeyAggregate = (\<lambda>pks. if pks = [] then None else Some (concat pks)),
      BLSSignatureAggregate = (\<lambda>sigs. if sigs = [] then None else Some (concat sigs)),
      wire_BinaryBytes_psh = (\<lambda>p. ucast (psh_Total p) # psh_Hash p),
      wire_JSON_vote = (\<lambda>chain v. [ucast (cv_Height v), ucast (cv_Round v), cv_Type v]
                           @ cbid_Hash (cv_BlockID v)),
      wire_JSON_proposal = (\<lambda>chain p. [ucast (cp_Height p), word_of_int (cp_Round p)]
                               @ cpsh_Hash (cp_BlockPartsHeader p)),
      wire_JSON_signAggr = (\<lambda>chain s. []),
      ripemd160 = (\<lambda>bs. bs),
      merkle_SimpleProofs = (\<lambda>hs. (concat hs, map (\<lambda>i. hs) [0..<length hs])),
      merkle_Verify = (\<lambda>proof i total leaf root.
         length proof = nat total \<and> 0 \<le> i \<and> i < total \<and> proof ! nat i = leaf \<and>
         concat proof = root)\<rparr>"

lemma demo_ext_laws: "bitArray_laws demo_ext"
  by (auto simp: bitArray_laws_def demo_ext_def split: option.splits)

end
