(* ===== verification/Validators.thy ===== *)
theory Validators
  imports External
begin

text \<open>
  \<open>chain/consensus/tendermint/types/validator.go\<close> and \<open>validator_set.go\<close>: validators, the
  operations of \<open>ValidatorSet\<close>, the tally of a bit array, and the quorum threshold
  \<open>Loose23MajorThreshold\<close> of \<open>vote_set.go\<close>. Copies of structs are the structs themselves (the
  model has values, no pointers), a Go slice is a list, and a nil slice is the empty list: every
  constructor of a validator set makes a non-nil slice.
\<close>

section \<open>Validators\<close>

record validator =
  val_Address :: bytes
  val_PubKey :: bytes
  val_VotingPower :: int
  val_RemainingEpoch :: u64

definition NewValidator :: "bytes \<Rightarrow> bytes \<Rightarrow> int \<Rightarrow> validator" where
  "NewValidator address pubKey votingPower =
     \<lparr>val_Address = address, val_PubKey = pubKey, val_VotingPower = votingPower,
      val_RemainingEpoch = 0\<rparr>"

definition Validator_Equals :: "validator \<Rightarrow> validator \<Rightarrow> bool" where
  "Validator_Equals v other \<longleftrightarrow>
     val_Address v = val_Address other \<and> val_PubKey v = val_PubKey other \<and>
     val_VotingPower v = val_VotingPower other"

section \<open>Validator sets\<close>

record validatorSet =
  vs_Validators :: "validator list"
  vs_totalVotingPower :: "int option"

text \<open>\<open>sort.Sort(ValidatorsByAddress(..))\<close> with \<open>bytes.Compare\<close>, the lexicographic order.\<close>

definition NewValidatorSet :: "validator list \<Rightarrow> validatorSet" where
  "NewValidatorSet vals =
     \<lparr>vs_Validators = sort_key val_Address vals, vs_totalVotingPower = None\<rparr>"

definition ValidatorSet_Size :: "validatorSet \<Rightarrow> nat" where
  "ValidatorSet_Size valSet = length (vs_Validators valSet)"

definition ValidatorSet_TotalVotingPower :: "validatorSet \<Rightarrow> int" where
  "ValidatorSet_TotalVotingPower valSet = int (ValidatorSet_Size valSet)"

definition ValidatorSet_index :: "validatorSet \<Rightarrow> bytes \<Rightarrow> nat option" where
  "ValidatorSet_index valSet address =
     find_index (\<lambda>v. val_Address v = address) (vs_Validators valSet)"

definition ValidatorSet_HasAddress :: "validatorSet \<Rightarrow> bytes \<Rightarrow> bool" where
  "ValidatorSet_HasAddress valSet address \<longleftrightarrow>
     (\<exists>v\<in>set (vs_Validators valSet). address = val_Address v)"

definition ValidatorSet_GetByAddress :: "validatorSet \<Rightarrow> bytes \<Rightarrow> nat \<times> validator option" where
  "ValidatorSet_GetByAddress valSet address =
     (case ValidatorSet_index valSet address of
        Some idx \<Rightarrow> (idx, Some (vs_Validators valSet ! idx))
      | None \<Rightarrow> (0, None))"

text \<open>\<open>valSet.Validators[index]\<close> panics out of range; no nil validator is ever returned.\<close>

definition ValidatorSet_GetByIndex :: "validatorSet \<Rightarrow> u64 \<Rightarrow> (bytes \<times> validator) go" where
  "ValidatorSet_GetByIndex valSet index =
     (if unat index < length (vs_Validators valSet)
      then (let val = vs_Validators valSet ! unat index in Ret (val_Address val, val))
      else Panic ''index out of range'')"

definition ValidatorSet_Equals :: "validatorSet \<Rightarrow> validatorSet \<Rightarrow> bool" where
  "ValidatorSet_Equals valSet other \<longleftrightarrow>
     length (vs_Validators valSet) = length (vs_Validators other) \<and>
     (\<forall>v\<in>set (vs_Validators other).
        case snd (ValidatorSet_GetByAddress valSet (val_Address v)) of
          None \<Rightarrow> False
        | Some val \<Rightarrow> Validator_Equals val v)"

definition ValidatorSet_Add :: "validatorSet \<Rightarrow> validator \<Rightarrow> validatorSet \<times> bool" where
  "ValidatorSet_Add valSet val =
     (case ValidatorSet_index valSet (val_Address val) of
        None \<Rightarrow> (valSet\<lparr>vs_Validators := vs_Validators valSet @ [val],
                        vs_totalVotingPower := None\<rparr>, True)
      | Some _ \<Rightarrow> (valSet, False))"

definition ValidatorSet_Update :: "validatorSet \<Rightarrow> validator \<Rightarrow> validatorSet \<times> bool" where
  "ValidatorSet_Update valSet val =
     (case ValidatorSet_GetByAddress valSet (val_Address val) of
        (index, None) \<Rightarrow> (valSet, False)
      | (index, Some sameVal) \<Rightarrow>
          (valSet\<lparr>vs_Validators := (vs_Validators valSet)[index := val],
                  vs_totalVotingPower := None\<rparr>, True))"

definition ValidatorSet_Remove ::
    "validatorSet \<Rightarrow> bytes \<Rightarrow> validatorSet \<times> validator option \<times> bool" where
  "ValidatorSet_Remove valSet address =
     (case ValidatorSet_index valSet address of
        None \<Rightarrow> (valSet, None, False)
      | Some idx \<Rightarrow>
          (valSet\<lparr>vs_Validators := take idx (vs_Validators valSet)
                                    @ drop (idx + 1) (vs_Validators valSet),
                  vs_totalVotingPower := None\<rparr>,
           Some (vs_Validators valSet ! idx), True))"

definition ValidatorSet_AggrPubKey ::
    "('b, 'z) ext_scheme \<Rightarrow> validatorSet \<Rightarrow> 'b \<Rightarrow> bytes option" where
  "ValidatorSet_AggrPubKey ext valSet bitMap =
     (if BA_isNil ext bitMap then None
      else if BA_Size ext bitMap \<noteq> length (vs_Validators valSet) then None
      else BLSPubKeyAggregate ext
             (map (\<lambda>i. val_PubKey (vs_Validators valSet ! i))
                  (filter (BA_GetIndex ext bitMap) [0..<BA_Size ext bitMap])))"

datatype tallyErr = TallyNilBitmap | TallySizeMismatch

text \<open>One iteration of the tally loop over (powerSum, votesSum, totalVotes).\<close>

definition tally_step ::
    "('b, 'z) ext_scheme \<Rightarrow> validator list \<Rightarrow> 'b \<Rightarrow> nat \<Rightarrow> int \<times> int \<times> int \<Rightarrow> int \<times> int \<times> int" where
  "tally_step ext validators bitMap i acc =
     (case acc of (powerSum, votesSum, totalVotes) \<Rightarrow>
        if BA_GetIndex ext bitMap i
        then (powerSum + 1, votesSum + val_VotingPower (validators ! i),
              totalVotes + val_VotingPower (validators ! i))
        else (powerSum, votesSum, totalVotes + val_VotingPower (validators ! i)))"

definition ValidatorSet_TalliedVotingPower ::
    "('b, 'z) ext_scheme \<Rightarrow> validatorSet \<Rightarrow> 'b \<Rightarrow> int \<times> int \<times> int \<times> tallyErr option" where
  "ValidatorSet_TalliedVotingPower ext valSet bitMap =
     (if BA_isNil ext bitMap then (0, 0, 0, Some TallyNilBitmap)
      else if ValidatorSet_Size valSet \<noteq> BA_Size ext bitMap then (0, 0, 0, Some TallySizeMismatch)
      else (case fold (tally_step ext (vs_Validators valSet) bitMap)
                      [0..<BA_Size ext bitMap] (0, 0, 0) of
              (powerSum, votesSum, totalVotes) \<Rightarrow> (powerSum, votesSum, totalVotes, None)))"

section \<open>The quorum threshold\<close>

definition LooseRound :: int where "LooseRound = 30"

definition HalfLooseRound :: int where "HalfLooseRound = 15"

definition Loose23MajorThreshold :: "int \<Rightarrow> int \<Rightarrow> int" where
  "Loose23MajorThreshold totalVotingPower round =
     (let round = (if round \<ge> HalfLooseRound then HalfLooseRound else round);
          quorum1 = totalVotingPower * (2 * LooseRound - round);
          quorum1 = quorum1 + 3 * LooseRound
      in quorum1 div (3 * LooseRound))"

section \<open>What the tally computes\<close>

text \<open>The voting power of a set of positions, and of the whole set.\<close>

definition powerOf :: "validator list \<Rightarrow> nat set \<Rightarrow> int" where
  "powerOf vals S = (\<Sum>i\<in>S. val_VotingPower (vals ! i))"

definition totalPower :: "validator list \<Rightarrow> int" where
  "totalPower vals = powerOf vals {..<length vals}"

definition bitsOf :: "('b, 'z) ext_scheme \<Rightarrow> 'b \<Rightarrow> nat set" where
  "bitsOf ext b = {i. i < BA_Size ext b \<and> BA_GetIndex ext b i}"

definition powers_nonneg :: "validatorSet \<Rightarrow> bool" where
  "powers_nonneg valSet \<longleftrightarrow> (\<forall>v\<in>set (vs_Validators valSet). 0 \<le> val_VotingPower v)"

lemma powerOf_alt:
  "powerOf vals {i. i < n \<and> P i} = (\<Sum>i<n. if P i then val_VotingPower (vals ! i) else 0)"
proof -
  have eq: "{..<n} \<inter> {i. P i} = {i. i < n \<and> P i}" by auto
  have "(\<Sum>i<n. if P i then val_VotingPower (vals ! i) else 0)
      = sum (\<lambda>i. val_VotingPower (vals ! i)) ({..<n} \<inter> {i. P i})"
    by (simp add: sum.If_cases)
  then show ?thesis by (simp add: powerOf_def eq)
qed

lemma fold_tally:
  "fold (tally_step ext vals b) [0..<n] (p0, v0, t0)
   = (p0 + int (card {i. i < n \<and> BA_GetIndex ext b i}),
      v0 + powerOf vals {i. i < n \<and> BA_GetIndex ext b i},
      t0 + powerOf vals {..<n})"
proof (induction n)
  case 0
  show ?case by (simp add: powerOf_def)
next
  case (Suc n)
  have split: "{i. i < Suc n \<and> BA_GetIndex ext b i} =
      (if BA_GetIndex ext b n then insert n {i. i < n \<and> BA_GetIndex ext b i}
       else {i. i < n \<and> BA_GetIndex ext b i})"
    by (auto simp: less_Suc_eq)
  show ?case
    unfolding upt_Suc using Suc.IH
    by (auto simp: split tally_step_def powerOf_def lessThan_Suc)
qed

lemma TalliedVotingPower_ok:
  assumes "\<not> BA_isNil ext b" "BA_Size ext b = ValidatorSet_Size vs"
  shows "ValidatorSet_TalliedVotingPower ext vs b =
     (int (card (bitsOf ext b)), powerOf (vs_Validators vs) (bitsOf ext b),
      totalPower (vs_Validators vs), None)"
  using assms
  by (simp add: ValidatorSet_TalliedVotingPower_def fold_tally bitsOf_def totalPower_def
      ValidatorSet_Size_def)

lemma TalliedVotingPower_err:
  "ValidatorSet_TalliedVotingPower ext vs b = (p, v, t, Some e) \<Longrightarrow>
   BA_isNil ext b \<or> ValidatorSet_Size vs \<noteq> BA_Size ext b"
  by (auto simp: ValidatorSet_TalliedVotingPower_def split: if_splits prod.splits)

lemma powers_nonneg_nth:
  "powers_nonneg vs \<Longrightarrow> i < length (vs_Validators vs) \<Longrightarrow> 0 \<le> val_VotingPower (vs_Validators vs ! i)"
  by (auto simp: powers_nonneg_def)

section \<open>Quorums\<close>

text \<open>
  A weighted quorum system: configurations with member weights and one threshold per round, such
  that the thresholds of any two rounds add up to more than the total weight. The client's
  lemma: two quorums overlap in the surplus weight.
\<close>

locale weighted_quorum =
  fixes valid :: "'c \<Rightarrow> bool"
    and members :: "'c \<Rightarrow> 'n set"
    and weight :: "'c \<Rightarrow> 'n \<Rightarrow> int"
    and threshold :: "'c \<Rightarrow> int \<Rightarrow> int"
  assumes finite_members: "valid c \<Longrightarrow> finite (members c)"
    and weight_nonneg: "valid c \<Longrightarrow> i \<in> members c \<Longrightarrow> 0 \<le> weight c i"
    and thresholds_overlap:
      "valid c \<Longrightarrow> (\<Sum>i\<in>members c. weight c i) < threshold c r + threshold c r'"
begin

lemma quorum_overlap:
  assumes v: "valid c" and S: "S \<subseteq> members c" and T: "T \<subseteq> members c"
    and qS: "threshold c r \<le> (\<Sum>i\<in>S. weight c i)"
    and qT: "threshold c r' \<le> (\<Sum>i\<in>T. weight c i)"
  shows "threshold c r + threshold c r' - (\<Sum>i\<in>members c. weight c i) \<le> (\<Sum>i\<in>S \<inter> T. weight c i)"
proof -
  have fin: "finite S" "finite T"
    using S T finite_members [OF v] by (auto intro: finite_subset)
  have "(\<Sum>i\<in>S. weight c i) + (\<Sum>i\<in>T. weight c i)
      = (\<Sum>i\<in>S \<union> T. weight c i) + (\<Sum>i\<in>S \<inter> T. weight c i)"
    by (simp add: sum.union_inter [OF fin])
  moreover have "(\<Sum>i\<in>S \<union> T. weight c i) \<le> (\<Sum>i\<in>members c. weight c i)"
    by (rule sum_mono2) (use S T weight_nonneg [OF v] finite_members [OF v] in auto)
  ultimately show ?thesis using qS qT by linarith
qed

lemma quorum_intersect:
  assumes "valid c" "S \<subseteq> members c" "T \<subseteq> members c"
    and "threshold c r \<le> (\<Sum>i\<in>S. weight c i)"
    and "threshold c r' \<le> (\<Sum>i\<in>T. weight c i)"
  shows "0 < (\<Sum>i\<in>S \<inter> T. weight c i)" and "S \<inter> T \<noteq> {}"
proof -
  from quorum_overlap [OF assms] thresholds_overlap [OF assms(1), of r r']
  show pos: "0 < (\<Sum>i\<in>S \<inter> T. weight c i)" by linarith
  then show "S \<inter> T \<noteq> {}" by auto
qed

end

lemma Loose23_unfold:
  "Loose23MajorThreshold t r = (t * (60 - min r 15) + 90) div 90"
  by (auto simp: Loose23MajorThreshold_def LooseRound_def HalfLooseRound_def Let_def min_def)

lemma Loose23_half: "0 \<le> t \<Longrightarrow> t < 2 * Loose23MajorThreshold t r"
proof -
  assume t: "0 \<le> t"
  have "t * 45 \<le> t * (60 - min r 15)"
    by (rule mult_left_mono) (use t in auto)
  then show ?thesis
    unfolding Loose23_unfold by linarith
qed

lemma Loose23_two_thirds: "0 \<le> t \<Longrightarrow> r \<le> 0 \<Longrightarrow> 2 * t < 3 * Loose23MajorThreshold t r"
proof -
  assume t: "0 \<le> t" and r: "r \<le> 0"
  have "t * 60 \<le> t * (60 - min r 15)"
    by (rule mult_left_mono) (use t r in auto)
  then show ?thesis
    unfolding Loose23_unfold by linarith
qed

lemma Loose23_le_total: "0 < t \<Longrightarrow> 0 \<le> r \<Longrightarrow> Loose23MajorThreshold t r \<le> t"
proof -
  assume t: "0 < t" and r: "0 \<le> r"
  have "t * (60 - min r 15) \<le> t * 60"
    by (rule mult_left_mono) (use t r in auto)
  then show ?thesis
    unfolding Loose23_unfold using t by linarith
qed

lemma Loose23_antimono:
  "0 \<le> t \<Longrightarrow> r \<le> r' \<Longrightarrow> Loose23MajorThreshold t r' \<le> Loose23MajorThreshold t r"
  unfolding Loose23_unfold
  by (intro zdiv_mono1 add_right_mono mult_left_mono) auto

interpretation valq: weighted_quorum
  "powers_nonneg"
  "\<lambda>vs. {..<length (vs_Validators vs)}"
  "\<lambda>vs i. val_VotingPower (vs_Validators vs ! i)"
  "\<lambda>vs r. Loose23MajorThreshold (totalPower (vs_Validators vs)) r"
proof
  fix c r r'
  assume v: "powers_nonneg c"
  have t: "0 \<le> totalPower (vs_Validators c)"
    unfolding totalPower_def powerOf_def by (rule sum_nonneg) (use powers_nonneg_nth [OF v] in auto)
  have "totalPower (vs_Validators c) < Loose23MajorThreshold (totalPower (vs_Validators c)) r
     + Loose23MajorThreshold (totalPower (vs_Validators c)) r'"
    using Loose23_half [OF t, of r] Loose23_half [OF t, of r'] by linarith
  then show "(\<Sum>i<length (vs_Validators c). val_VotingPower (vs_Validators c ! i))
     < Loose23MajorThreshold (totalPower (vs_Validators c)) r
     + Loose23MajorThreshold (totalPower (vs_Validators c)) r'"
    by (simp add: totalPower_def powerOf_def)
qed (auto simp: powers_nonneg_nth)

lemma totalPower_nonneg: "powers_nonneg vs \<Longrightarrow> 0 \<le> totalPower (vs_Validators vs)"
  unfolding totalPower_def powerOf_def by (rule sum_nonneg) (auto simp: powers_nonneg_nth)

text \<open>The overlap of two quorums of validators, in the terms of the model.\<close>

lemma quorums_overlap:
  assumes nn: "powers_nonneg vs"
    and S: "S \<subseteq> {..<length (vs_Validators vs)}" and T: "T \<subseteq> {..<length (vs_Validators vs)}"
    and q: "Loose23MajorThreshold (totalPower (vs_Validators vs)) r \<le> powerOf (vs_Validators vs) S"
    and q': "Loose23MajorThreshold (totalPower (vs_Validators vs)) r' \<le> powerOf (vs_Validators vs) T"
  shows "0 < powerOf (vs_Validators vs) (S \<inter> T)"
    and "r = 0 \<and> r' = 0 \<Longrightarrow> totalPower (vs_Validators vs) < 3 * powerOf (vs_Validators vs) (S \<inter> T)"
proof -
  show "0 < powerOf (vs_Validators vs) (S \<inter> T)"
    using valq.quorum_intersect(1) [OF nn S T q [unfolded powerOf_def] q' [unfolded powerOf_def]]
    by (simp add: powerOf_def)
  have "Loose23MajorThreshold (totalPower (vs_Validators vs)) r
      + Loose23MajorThreshold (totalPower (vs_Validators vs)) r' - totalPower (vs_Validators vs)
      \<le> powerOf (vs_Validators vs) (S \<inter> T)"
    using valq.quorum_overlap [OF nn S T q [unfolded powerOf_def] q' [unfolded powerOf_def]]
    by (simp add: powerOf_def totalPower_def)
  then show "totalPower (vs_Validators vs) < 3 * powerOf (vs_Validators vs) (S \<inter> T)"
    if "r = 0 \<and> r' = 0"
    using Loose23_two_thirds [OF totalPower_nonneg [OF nn] order_refl] that by simp
qed

end
