(* ===== verification/Votes.thy ===== *)
theory Votes
  imports Validators
begin

text \<open>
  \<open>chain/consensus/tendermint/types/vote.go\<close> and \<open>vote_set.go\<close>: votes, their sign bytes, and the
  \<open>VoteSet\<close> that collects the votes of one height, round and type. A \<open>*Vote\<close> slot is an option;
  the mutex is not modelled (every exported method holds it for its whole body). The maps
  \<open>votesByBlock\<close> and \<open>peerMaj23s\<close> are HOL maps, the block key is the byte string of
  \<open>BlockID.Key()\<close>.
\<close>

section \<open>Votes\<close>

definition VoteTypePrevote :: u8 where "VoteTypePrevote = 1"

definition VoteTypePrecommit :: u8 where "VoteTypePrecommit = 2"

definition IsVoteTypeValid :: "u8 \<Rightarrow> bool" where
  "IsVoteTypeValid type = (if type = VoteTypePrevote then True
                           else if type = VoteTypePrecommit then True else False)"

record vote =
  vote_ValidatorAddress :: bytes
  vote_ValidatorIndex :: u64
  vote_Height :: u64
  vote_Round :: u64
  vote_Type :: u8
  vote_BlockID :: blockID
  vote_Signature :: bytes
  vote_SignBytes :: bytes

definition CanonicalVote :: "vote \<Rightarrow> canonicalVote" where
  "CanonicalVote vote =
     \<lparr>cv_BlockID = CanonicalBlockID (vote_BlockID vote), cv_Height = vote_Height vote,
      cv_Round = vote_Round vote, cv_Type = vote_Type vote\<rparr>"

text \<open>\<open>SignBytes(chainID, vote)\<close>: the JSON of the chain ID and the canonical vote.\<close>

definition Vote_SignBytes :: "('b, 'z) ext_scheme \<Rightarrow> string \<Rightarrow> vote \<Rightarrow> bytes" where
  "Vote_SignBytes ext chainID vote = wire_JSON_vote ext chainID (CanonicalVote vote)"

datatype voteErr =
    ErrVoteUnexpectedStep
  | ErrVoteInvalidValidatorIndex
  | ErrVoteInvalidValidatorAddress
  | ErrVoteInvalidSignature
  | ErrVoteConflictingVotes vote vote
  | ErrUnwantedRound

section \<open>Votes for one block\<close>

record 'b blockVotes =
  bv_peerMaj23 :: bool
  bv_bitArray :: 'b
  bv_votes :: "vote option list"
  bv_sum :: int

definition newBlockVotes :: "('b, 'z) ext_scheme \<Rightarrow> bool \<Rightarrow> nat \<Rightarrow> 'b blockVotes" where
  "newBlockVotes ext peerMaj23 numValidators =
     \<lparr>bv_peerMaj23 = peerMaj23, bv_bitArray = BA_New ext numValidators,
      bv_votes = replicate numValidators None, bv_sum = 0\<rparr>"

definition blockVotes_addVerifiedVote ::
    "('b, 'z) ext_scheme \<Rightarrow> 'b blockVotes \<Rightarrow> vote \<Rightarrow> int \<Rightarrow> 'b blockVotes go" where
  "blockVotes_addVerifiedVote ext vs vote votingPower =
     (let valIndex = unat (vote_ValidatorIndex vote) in
      if \<not> valIndex < length (bv_votes vs) then Panic ''index out of range''
      else if bv_votes vs ! valIndex = None
      then Ret (vs\<lparr>bv_bitArray := BA_SetIndex ext (bv_bitArray vs) valIndex True,
                   bv_votes := (bv_votes vs)[valIndex := Some vote],
                   bv_sum := bv_sum vs + votingPower\<rparr>)
      else Ret vs)"

text \<open>\<open>getByIndex\<close> accepts a nil receiver, which a missing map entry yields.\<close>

definition blockVotes_getByIndex :: "'b blockVotes option \<Rightarrow> nat \<Rightarrow> vote option go" where
  "blockVotes_getByIndex vs index =
     (case vs of None \<Rightarrow> Ret None
      | Some bv \<Rightarrow> if index < length (bv_votes bv) then Ret (bv_votes bv ! index)
                  else Panic ''index out of range'')"

section \<open>The vote set\<close>

record 'b voteSet =
  vset_chainID :: string
  vset_height :: u64
  vset_round :: int
  vset_type :: u8
  vset_valSet :: validatorSet
  vset_votesBitArray :: 'b
  vset_votes :: "vote option list"
  vset_sum :: int
  vset_maj23 :: "blockID option"
  vset_votesByBlock :: "bytes \<rightharpoonup> 'b blockVotes"
  vset_peerMaj23s :: "string \<rightharpoonup> blockID"

definition NewVoteSet ::
    "('b, 'z) ext_scheme \<Rightarrow> string \<Rightarrow> u64 \<Rightarrow> int \<Rightarrow> u8 \<Rightarrow> validatorSet \<Rightarrow> 'b voteSet go" where
  "NewVoteSet ext chainID height round type valSet =
     (if height = 0 then Panic ''Cannot make VoteSet for height == 0''
      else Ret \<lparr>vset_chainID = chainID, vset_height = height, vset_round = round, vset_type = type,
                vset_valSet = valSet,
                vset_votesBitArray = BA_New ext (ValidatorSet_Size valSet),
                vset_votes = replicate (ValidatorSet_Size valSet) None,
                vset_sum = 0, vset_maj23 = None,
                vset_votesByBlock = Map.empty, vset_peerMaj23s = Map.empty\<rparr>)"

definition VoteSet_getVote ::
    "('b, 'z) ext_scheme \<Rightarrow> 'b voteSet \<Rightarrow> nat \<Rightarrow> bytes \<Rightarrow> vote option go" where
  "VoteSet_getVote ext voteSet valIndex blockKey =
     (if \<not> valIndex < length (vset_votes voteSet) then Panic ''index out of range''
      else case vset_votes voteSet ! valIndex of
        Some existing \<Rightarrow>
          if BlockID_Key ext (vote_BlockID existing) = blockKey then Ret (Some existing)
          else blockVotes_getByIndex (vset_votesByBlock voteSet blockKey) valIndex
      | None \<Rightarrow> blockVotes_getByIndex (vset_votesByBlock voteSet blockKey) valIndex)"

text \<open>
  The loop that copies the votes of the majority block over \<open>voteSet.votes\<close>; both slices have
  one slot per validator.
\<close>

definition copyVotes :: "vote option list \<Rightarrow> vote option list \<Rightarrow> vote option list" where
  "copyVotes src dst =
     map (\<lambda>(new, old). case new of Some v \<Rightarrow> Some v | None \<Rightarrow> old) (zip src dst)"

text \<open>
  The second half of \<open>addVerifiedVote\<close>: the vote goes into the block's votes, and the first block
  whose tally crosses the threshold becomes \<open>maj23\<close>.
\<close>

definition addVerifiedVote_tally ::
    "('b, 'z) ext_scheme \<Rightarrow> 'b voteSet \<Rightarrow> vote \<Rightarrow> bytes \<Rightarrow> int \<Rightarrow> vote option \<Rightarrow> 'b blockVotes
     \<Rightarrow> ('b voteSet \<times> bool \<times> vote option) go" where
  "addVerifiedVote_tally ext voteSet vote blockKey votingPower conflicting votesByBlock =
     (let origSum = bv_sum votesByBlock in
      case ValidatorSet_TalliedVotingPower ext (vset_valSet voteSet) (bv_bitArray votesByBlock) of
        (_, _, totalVotes, Some err) \<Rightarrow> Ret (voteSet, False, conflicting)
      | (_, _, totalVotes, None) \<Rightarrow>
          (let quorum = Loose23MajorThreshold totalVotes (sint (vote_Round vote)) in
           bindGo (blockVotes_addVerifiedVote ext votesByBlock vote votingPower) (\<lambda>votesByBlock.
             let voteSet = voteSet\<lparr>vset_votesByBlock :=
                                     (vset_votesByBlock voteSet)(blockKey \<mapsto> votesByBlock)\<rparr>
             in if origSum < quorum \<and> quorum \<le> bv_sum votesByBlock \<and> vset_maj23 voteSet = None
                then Ret (voteSet\<lparr>vset_maj23 := Some (vote_BlockID vote),
                                  vset_votes := copyVotes (bv_votes votesByBlock) (vset_votes voteSet)\<rparr>,
                          True, conflicting)
                else Ret (voteSet, True, conflicting))))"

text \<open>The first half: the canonical slot of the validator.\<close>

definition addVerifiedVote_slot ::
    "('b, 'z) ext_scheme \<Rightarrow> 'b voteSet \<Rightarrow> vote \<Rightarrow> bytes \<Rightarrow> int \<Rightarrow> 'b voteSet" where
  "addVerifiedVote_slot ext voteSet vote blockKey votingPower =
     (let valIndex = unat (vote_ValidatorIndex vote);
          setSlot = voteSet\<lparr>vset_votes := (vset_votes voteSet)[valIndex := Some vote],
                            vset_votesBitArray :=
                              BA_SetIndex ext (vset_votesBitArray voteSet) valIndex True\<rparr>
      in case vset_votes voteSet ! valIndex of
           Some existing \<Rightarrow>
             (case vset_maj23 voteSet of
                Some maj23 \<Rightarrow> if BlockID_Key ext maj23 = blockKey then setSlot else voteSet
              | None \<Rightarrow> voteSet)
         | None \<Rightarrow> setSlot\<lparr>vset_sum := vset_sum voteSet + votingPower\<rparr>)"

definition VoteSet_addVerifiedVote ::
    "('b, 'z) ext_scheme \<Rightarrow> 'b voteSet \<Rightarrow> vote \<Rightarrow> bytes \<Rightarrow> int
     \<Rightarrow> ('b voteSet \<times> bool \<times> vote option) go" where
  "VoteSet_addVerifiedVote ext voteSet vote blockKey votingPower =
     (let valIndex = unat (vote_ValidatorIndex vote) in
      if \<not> valIndex < length (vset_votes voteSet) then Panic ''index out of range''
      else
        (let conflicting = vset_votes voteSet ! valIndex in
         if (case conflicting of
               Some existing \<Rightarrow> BlockID_Equals (vote_BlockID existing) (vote_BlockID vote)
             | None \<Rightarrow> False)
         then Panic ''addVerifiedVote does not expect duplicate votes''
         else
           (let voteSet = addVerifiedVote_slot ext voteSet vote blockKey votingPower in
            case vset_votesByBlock voteSet blockKey of
              Some votesByBlock \<Rightarrow>
                if conflicting \<noteq> None \<and> \<not> bv_peerMaj23 votesByBlock
                then Ret (voteSet, False, conflicting)
                else addVerifiedVote_tally ext voteSet vote blockKey votingPower conflicting
                       votesByBlock
            | None \<Rightarrow>
                if conflicting \<noteq> None then Ret (voteSet, False, conflicting)
                else
                  (let votesByBlock =
                         newBlockVotes ext False (ValidatorSet_Size (vset_valSet voteSet));
                       voteSet = voteSet\<lparr>vset_votesByBlock :=
                                           (vset_votesByBlock voteSet)(blockKey \<mapsto> votesByBlock)\<rparr>
                   in addVerifiedVote_tally ext voteSet vote blockKey votingPower conflicting
                        votesByBlock))))"

text \<open>
  \<open>AddVote\<close>/\<open>addVote\<close>. A Go \<open>int(vote.Round)\<close> of a \<open>uint64\<close> is the signed reading of the word. The
  \<open>val == nil\<close> test that returns \<open>ErrVoteInvalidValidatorIndex\<close> has no branch here: \<open>GetByIndex\<close>
  panics out of range and never returns a nil validator.
\<close>

definition VoteSet_AddVote ::
    "('b, 'z) ext_scheme \<Rightarrow> 'b voteSet \<Rightarrow> vote \<Rightarrow> ('b voteSet \<times> bool \<times> voteErr option) go" where
  "VoteSet_AddVote ext voteSet vote =
     (let valIndex = vote_ValidatorIndex vote;
          valAddr = vote_ValidatorAddress vote;
          blockKey = BlockID_Key ext (vote_BlockID vote)
      in if length valAddr = 0 then Panic ''Validator index or address was not set in vote''
         else if vote_Height vote \<noteq> vset_height voteSet \<or>
                 sint (vote_Round vote) \<noteq> vset_round voteSet \<or>
                 vote_Type vote \<noteq> vset_type voteSet
         then Ret (voteSet, False, Some ErrVoteUnexpectedStep)
         else
           bindGo (ValidatorSet_GetByIndex (vset_valSet voteSet) valIndex) (\<lambda>(lookupAddr, val).
             if valAddr \<noteq> lookupAddr then Ret (voteSet, False, Some ErrVoteInvalidValidatorAddress)
             else
               bindGo (VoteSet_getVote ext voteSet (unat valIndex) blockKey) (\<lambda>existing.
                 case existing of
                   Some e \<Rightarrow>
                     if Sig_Equals ext (vote_Signature e) (vote_Signature vote)
                     then Ret (voteSet, False, None)
                     else Ret (voteSet, False, Some ErrVoteInvalidSignature)
                 | None \<Rightarrow>
                     if \<not> VerifyBytes ext (val_PubKey val)
                            (Vote_SignBytes ext (vset_chainID voteSet) vote) (vote_Signature vote)
                     then Ret (voteSet, False, Some ErrVoteInvalidSignature)
                     else
                       bindGo (VoteSet_addVerifiedVote ext voteSet vote blockKey
                                 (val_VotingPower val)) (\<lambda>(voteSet, added, conflicting).
                         case conflicting of
                           Some c \<Rightarrow> Ret (voteSet, added, Some (ErrVoteConflictingVotes c vote))
                         | None \<Rightarrow> if \<not> added then Panic ''Expected to add non-conflicting vote''
                                   else Ret (voteSet, added, None)))))"

definition VoteSet_SetPeerMaj23 ::
    "('b, 'z) ext_scheme \<Rightarrow> 'b voteSet \<Rightarrow> string \<Rightarrow> blockID \<Rightarrow> 'b voteSet" where
  "VoteSet_SetPeerMaj23 ext voteSet peerID blockID =
     (let blockKey = BlockID_Key ext blockID in
      case vset_peerMaj23s voteSet peerID of
        Some existing \<Rightarrow> voteSet
      | None \<Rightarrow>
          (let voteSet = voteSet\<lparr>vset_peerMaj23s := (vset_peerMaj23s voteSet)(peerID \<mapsto> blockID)\<rparr> in
           case vset_votesByBlock voteSet blockKey of
             Some votesByBlock \<Rightarrow>
               if bv_peerMaj23 votesByBlock then voteSet
               else voteSet\<lparr>vset_votesByBlock := (vset_votesByBlock voteSet)
                              (blockKey \<mapsto> votesByBlock\<lparr>bv_peerMaj23 := True\<rparr>)\<rparr>
           | None \<Rightarrow>
               voteSet\<lparr>vset_votesByBlock := (vset_votesByBlock voteSet)
                         (blockKey \<mapsto> newBlockVotes ext True
                                        (ValidatorSet_Size (vset_valSet voteSet)))\<rparr>))"

text \<open>Readers. A nil \<open>*VoteSet\<close> is \<open>None\<close>.\<close>

definition VoteSet_HasTwoThirdsMajority :: "'b voteSet option \<Rightarrow> bool" where
  "VoteSet_HasTwoThirdsMajority voteSet =
     (case voteSet of None \<Rightarrow> False | Some vs \<Rightarrow> vset_maj23 vs \<noteq> None)"

definition VoteSet_IsCommit :: "'b voteSet option \<Rightarrow> bool" where
  "VoteSet_IsCommit voteSet =
     (case voteSet of None \<Rightarrow> False
      | Some vs \<Rightarrow> if vset_type vs \<noteq> VoteTypePrecommit then False else vset_maj23 vs \<noteq> None)"

definition VoteSet_TwoThirdsMajority :: "'b voteSet option \<Rightarrow> blockID \<times> bool" where
  "VoteSet_TwoThirdsMajority voteSet =
     (case voteSet of
        None \<Rightarrow> (zeroBlockID, False)
      | Some vs \<Rightarrow> (case vset_maj23 vs of Some m \<Rightarrow> (m, True) | None \<Rightarrow> (zeroBlockID, False)))"

definition VoteSet_BitArrayByBlockID ::
    "('b, 'z) ext_scheme \<Rightarrow> 'b voteSet option \<Rightarrow> blockID \<Rightarrow> 'b option" where
  "VoteSet_BitArrayByBlockID ext voteSet blockID =
     (case voteSet of None \<Rightarrow> None
      | Some vs \<Rightarrow> (case vset_votesByBlock vs (BlockID_Key ext blockID) of
                     Some bv \<Rightarrow> Some (BA_Copy ext (bv_bitArray bv)) | None \<Rightarrow> None))"

definition VoteSet_GetByIndex :: "'b voteSet option \<Rightarrow> nat \<Rightarrow> vote option go" where
  "VoteSet_GetByIndex voteSet valIndex =
     (case voteSet of None \<Rightarrow> Ret None
      | Some vs \<Rightarrow> if valIndex < length (vset_votes vs) then Ret (vset_votes vs ! valIndex)
                  else Panic ''index out of range'')"

definition VoteSet_GetByAddress :: "'b voteSet option \<Rightarrow> bytes \<Rightarrow> vote option go" where
  "VoteSet_GetByAddress voteSet address =
     (case voteSet of None \<Rightarrow> Ret None
      | Some vs \<Rightarrow>
          (case ValidatorSet_GetByAddress (vset_valSet vs) address of
             (valIndex, None) \<Rightarrow> Panic ''GetByAddress(address) returned nil''
           | (valIndex, Some val) \<Rightarrow>
               if valIndex < length (vset_votes vs) then Ret (vset_votes vs ! valIndex)
               else Panic ''index out of range''))"

end
