(* ===== verification/Vote_Invariant.thy ===== *)
theory Vote_Invariant
  imports Votes
begin

text \<open>
  The invariant of \<open>VoteSet\<close> (\<open>vote_set.go\<close>) and that every operation keeps it: the cached sums and
  bit arrays agree with the stored votes, every stored vote was checked, and \<open>maj23\<close> is set exactly
  when the votes of a block have reached the threshold.
\<close>

section \<open>The invariant\<close>

definition voters :: "vote option list \<Rightarrow> nat set" where
  "voters votes = {i. i < length votes \<and> votes ! i \<noteq> None}"

definition vset_vals :: "'b voteSet \<Rightarrow> validator list" where
  "vset_vals vs = vs_Validators (vset_valSet vs)"

definition vset_quorum :: "'b voteSet \<Rightarrow> int" where
  "vset_quorum vs = Loose23MajorThreshold (totalPower (vset_vals vs)) (vset_round vs)"

text \<open>The checks a vote has passed when it is stored for validator \<open>i\<close>.\<close>

definition vote_matches :: "('b, 'z) ext_scheme \<Rightarrow> 'b voteSet \<Rightarrow> nat \<Rightarrow> vote \<Rightarrow> bool" where
  "vote_matches ext vs i v \<longleftrightarrow>
     unat (vote_ValidatorIndex v) = i \<and> vote_Height v = vset_height vs \<and>
     sint (vote_Round v) = vset_round vs \<and> vote_Type v = vset_type vs \<and>
     vote_ValidatorAddress v = val_Address (vset_vals vs ! i) \<and>
     VerifyBytes ext (val_PubKey (vset_vals vs ! i))
       (Vote_SignBytes ext (vset_chainID vs) v) (vote_Signature v)"

definition blockVotes_inv ::
    "('b, 'z) ext_scheme \<Rightarrow> 'b voteSet \<Rightarrow> bytes \<Rightarrow> 'b blockVotes \<Rightarrow> bool" where
  "blockVotes_inv ext vs key bv \<longleftrightarrow>
     length (bv_votes bv) = length (vset_vals vs) \<and>
     \<not> BA_isNil ext (bv_bitArray bv) \<and>
     BA_Size ext (bv_bitArray bv) = length (vset_vals vs) \<and>
     bitsOf ext (bv_bitArray bv) = voters (bv_votes bv) \<and>
     bv_sum bv = powerOf (vset_vals vs) (voters (bv_votes bv)) \<and>
     voters (bv_votes bv) \<subseteq> voters (vset_votes vs) \<and>
     (\<forall>i v. i < length (vset_vals vs) \<longrightarrow> bv_votes bv ! i = Some v \<longrightarrow>
        vote_matches ext vs i v \<and> BlockID_Key ext (vote_BlockID v) = key)"

definition maj23_inv :: "('b, 'z) ext_scheme \<Rightarrow> 'b voteSet \<Rightarrow> bool" where
  "maj23_inv ext vs \<longleftrightarrow>
     (case vset_maj23 vs of
        None \<Rightarrow> (\<forall>key bv. vset_votesByBlock vs key = Some bv \<longrightarrow> bv_sum bv < vset_quorum vs)
      | Some b \<Rightarrow>
          (\<exists>bv. vset_votesByBlock vs (BlockID_Key ext b) = Some bv \<and> vset_quorum vs \<le> bv_sum bv \<and>
                (\<forall>i\<in>voters (bv_votes bv). \<exists>v. vset_votes vs ! i = Some v \<and>
                   BlockID_Key ext (vote_BlockID v) = BlockID_Key ext b)))"

definition voteSet_inv :: "('b, 'z) ext_scheme \<Rightarrow> 'b voteSet \<Rightarrow> bool" where
  "voteSet_inv ext vs \<longleftrightarrow>
     powers_nonneg (vset_valSet vs) \<and>
     length (vset_votes vs) = length (vset_vals vs) \<and>
     \<not> BA_isNil ext (vset_votesBitArray vs) \<and>
     BA_Size ext (vset_votesBitArray vs) = length (vset_vals vs) \<and>
     bitsOf ext (vset_votesBitArray vs) = voters (vset_votes vs) \<and>
     vset_sum vs = powerOf (vset_vals vs) (voters (vset_votes vs)) \<and>
     (\<forall>i v. i < length (vset_vals vs) \<longrightarrow> vset_votes vs ! i = Some v \<longrightarrow>
        vote_matches ext vs i v \<and>
        vset_votesByBlock vs (BlockID_Key ext (vote_BlockID v)) \<noteq> None) \<and>
     (\<forall>key bv. vset_votesByBlock vs key = Some bv \<longrightarrow> blockVotes_inv ext vs key bv) \<and>
     maj23_inv ext vs"

section \<open>Basic facts\<close>

lemma voters_replicate [simp]: "voters (replicate n None) = {}"
  by (auto simp: voters_def)

lemma voters_update:
  "i < length xs \<Longrightarrow> voters (xs[i := Some v]) = insert i (voters xs)"
  by (auto simp: voters_def nth_list_update)

lemma finite_voters [simp]: "finite (voters xs)"
  by (simp add: voters_def)

lemma powerOf_insert:
  "finite S \<Longrightarrow> i \<notin> S \<Longrightarrow> powerOf vals (insert i S) = powerOf vals S + val_VotingPower (vals ! i)"
  by (simp add: powerOf_def)

lemma powerOf_empty [simp]: "powerOf vals {} = 0"
  by (simp add: powerOf_def)

lemma bitsOf_New: "bitArray_laws ext \<Longrightarrow> bitsOf ext (BA_New ext n) = {}"
  by (simp add: bitsOf_def BA_Get_New)

lemma bitsOf_Set:
  "bitArray_laws ext \<Longrightarrow> i < BA_Size ext b \<Longrightarrow>
   bitsOf ext (BA_SetIndex ext b i True) = insert i (bitsOf ext b)"
  by (auto simp: bitsOf_def BA_Size_Set BA_Get_Set)

lemma vset_quorum_pos: "powers_nonneg (vset_valSet vs) \<Longrightarrow> 0 < vset_quorum vs"
  using Loose23_half [OF totalPower_nonneg, of "vset_valSet vs" "vset_round vs"]
    totalPower_nonneg [of "vset_valSet vs"]
  by (simp add: vset_quorum_def vset_vals_def)

lemma copyVotes_length [simp]: "length (copyVotes src dst) = min (length src) (length dst)"
  by (simp add: copyVotes_def)

lemma copyVotes_nth:
  "i < length src \<Longrightarrow> i < length dst \<Longrightarrow>
   copyVotes src dst ! i = (case src ! i of Some v \<Rightarrow> Some v | None \<Rightarrow> dst ! i)"
  by (simp add: copyVotes_def)

lemma voters_copyVotes:
  "length src = length dst \<Longrightarrow> voters (copyVotes src dst) = voters src \<union> voters dst"
  by (auto simp: voters_def copyVotes_nth split: option.splits)

text \<open>The invariant of a block's votes depends on the voters of the set only through inclusion.\<close>

lemma blockVotes_inv_mono:
  assumes "blockVotes_inv ext vs key bv"
    and "vset_chainID vs' = vset_chainID vs" "vset_height vs' = vset_height vs"
    and "vset_round vs' = vset_round vs" "vset_type vs' = vset_type vs"
    and "vset_valSet vs' = vset_valSet vs"
    and "voters (vset_votes vs) \<subseteq> voters (vset_votes vs')"
  shows "blockVotes_inv ext vs' key bv"
  using assms unfolding blockVotes_inv_def vote_matches_def vset_vals_def by auto

lemma newBlockVotes_inv:
  assumes "bitArray_laws ext"
  shows "blockVotes_inv ext vs key (newBlockVotes ext p (length (vset_vals vs)))"
  using assms
  by (auto simp: blockVotes_inv_def newBlockVotes_def BA_New_not_nil BA_Size_New bitsOf_New)

lemma NewVoteSet_inv:
  assumes "bitArray_laws ext" "powers_nonneg valSet"
    and "NewVoteSet ext chainID height round type valSet = Ret vs"
  shows "voteSet_inv ext vs"
  using assms
  by (auto simp: NewVoteSet_def voteSet_inv_def maj23_inv_def vset_vals_def BA_New_not_nil
      BA_Size_New bitsOf_New ValidatorSet_Size_def split: if_splits)

section \<open>Adding a vote to a block's votes\<close>

lemma blockVotes_add_inv:
  assumes laws: "bitArray_laws ext"
    and bv: "blockVotes_inv ext vs key bv"
    and i: "i = unat (vote_ValidatorIndex v)" "i < length (vset_vals vs)"
    and free: "bv_votes bv ! i = None"
    and slot: "i \<in> voters (vset_votes vs)"
    and m: "vote_matches ext vs i v" "BlockID_Key ext (vote_BlockID v) = key"
  shows "\<exists>bv'. blockVotes_addVerifiedVote ext bv v (val_VotingPower (vset_vals vs ! i)) = Ret bv' \<and>
     blockVotes_inv ext vs key bv' \<and> bv_votes bv' = (bv_votes bv)[i := Some v] \<and>
     voters (bv_votes bv') = insert i (voters (bv_votes bv))"
proof -
  have len: "length (bv_votes bv) = length (vset_vals vs)"
    and size: "BA_Size ext (bv_bitArray bv) = length (vset_vals vs)"
    using bv by (auto simp: blockVotes_inv_def)
  have new: "i \<notin> voters (bv_votes bv)"
    using free by (simp add: voters_def)
  let ?bv' = "bv\<lparr>bv_bitArray := BA_SetIndex ext (bv_bitArray bv) i True,
                 bv_votes := (bv_votes bv)[i := Some v],
                 bv_sum := bv_sum bv + val_VotingPower (vset_vals vs ! i)\<rparr>"
  have eq: "blockVotes_addVerifiedVote ext bv v (val_VotingPower (vset_vals vs ! i)) = Ret ?bv'"
    using i free len by (simp add: blockVotes_addVerifiedVote_def Let_def)
  have "blockVotes_inv ext vs key ?bv'"
    using bv i size slot new m laws
    by (auto simp: blockVotes_inv_def voters_update bitsOf_Set BA_Size_Set powerOf_insert
        nth_list_update BA_Set_not_nil split: if_splits)
  with eq show ?thesis
    using i len by (auto simp: voters_update)
qed

section \<open>The tally step\<close>

text \<open>A vote set in which validator \<open>i\<close> has a slot and the block of key \<open>key\<close> is tracked.\<close>

definition ready_to_tally ::
    "('b, 'z) ext_scheme \<Rightarrow> 'b voteSet \<Rightarrow> nat \<Rightarrow> vote \<Rightarrow> bytes \<Rightarrow> 'b blockVotes \<Rightarrow> bool" where
  "ready_to_tally ext vs i v key bv \<longleftrightarrow>
     voteSet_inv ext vs \<and> i = unat (vote_ValidatorIndex v) \<and> i < length (vset_vals vs) \<and>
     key = BlockID_Key ext (vote_BlockID v) \<and> vote_matches ext vs i v \<and>
     i \<in> voters (vset_votes vs) \<and>
     vset_votesByBlock vs key = Some bv \<and> bv_votes bv ! i = None \<and>
     (\<forall>b. vset_maj23 vs = Some b \<longrightarrow> BlockID_Key ext b = key \<longrightarrow> vset_votes vs ! i = Some v)"

lemma ready_to_tally_inv: "ready_to_tally ext vs i v key bv \<Longrightarrow> voteSet_inv ext vs"
  by (simp add: ready_to_tally_def)

lemma tally_track_inv:
  assumes inv: "voteSet_inv ext vs" and bv: "vset_votesByBlock vs key = Some bv"
    and bv': "blockVotes_inv ext vs key bv'"
    and vt: "voters (bv_votes bv') = insert i (voters (bv_votes bv))"
    and sum: "bv_sum bv' = bv_sum bv + p" "0 \<le> p"
    and low: "vset_maj23 vs = None \<Longrightarrow> bv_sum bv' < vset_quorum vs"
    and maj: "\<And>b. vset_maj23 vs = Some b \<Longrightarrow> BlockID_Key ext b = key \<Longrightarrow>
                \<exists>w. vset_votes vs ! i = Some w \<and> BlockID_Key ext (vote_BlockID w) = key"
  shows "voteSet_inv ext (vs\<lparr>vset_votesByBlock := (vset_votesByBlock vs)(key \<mapsto> bv')\<rparr>)"
    (is "voteSet_inv ext ?vs'")
proof -
  have fr: "blockVotes_inv ext ?vs' k b \<longleftrightarrow> blockVotes_inv ext vs k b" for k b
    by (simp add: blockVotes_inv_def vote_matches_def vset_vals_def)
  have "maj23_inv ext ?vs'"
  proof (cases "vset_maj23 vs")
    case None
    with inv low show ?thesis
      by (auto simp: maj23_inv_def voteSet_inv_def vset_quorum_def vset_vals_def)
  next
    case (Some b)
    with inv obtain bvb where b: "vset_votesByBlock vs (BlockID_Key ext b) = Some bvb"
        "vset_quorum vs \<le> bv_sum bvb"
        "\<forall>i\<in>voters (bv_votes bvb). \<exists>w. vset_votes vs ! i = Some w \<and>
           BlockID_Key ext (vote_BlockID w) = BlockID_Key ext b"
      by (auto simp: maj23_inv_def voteSet_inv_def)
    show ?thesis
    proof (cases "BlockID_Key ext b = key")
      case True
      with b bv have "bvb = bv" by simp
      with b True Some maj [OF Some True] vt sum show ?thesis
        by (auto simp: maj23_inv_def vset_quorum_def vset_vals_def)
    next
      case False
      with b Some show ?thesis
        by (auto simp: maj23_inv_def vset_quorum_def vset_vals_def)
    qed
  qed
  with inv bv' show ?thesis
    by (auto simp: voteSet_inv_def fr vset_vals_def vote_matches_def)
qed

lemma tally_majority_inv:
  assumes inv: "voteSet_inv ext vs" and bv': "blockVotes_inv ext vs key bv'"
    and q: "vset_quorum vs \<le> bv_sum bv'"
    and key: "key = BlockID_Key ext b"
  shows "voteSet_inv ext (vs\<lparr>vset_votesByBlock := (vset_votesByBlock vs)(key \<mapsto> bv'),
           vset_maj23 := Some b, vset_votes := copyVotes (bv_votes bv') (vset_votes vs)\<rparr>)"
    (is "voteSet_inv ext ?vs'")
proof -
  have len: "length (bv_votes bv') = length (vset_vals vs)"
      "length (vset_votes vs) = length (vset_vals vs)"
    and sub: "voters (bv_votes bv') \<subseteq> voters (vset_votes vs)"
    using inv bv' by (auto simp: voteSet_inv_def blockVotes_inv_def)
  have vt: "voters (copyVotes (bv_votes bv') (vset_votes vs)) = voters (vset_votes vs)"
    using sub len by (auto simp: voters_copyVotes)
  have fr: "blockVotes_inv ext ?vs' k c \<longleftrightarrow> blockVotes_inv ext vs k c" for k c
    by (simp add: blockVotes_inv_def vote_matches_def vset_vals_def vt)
  have "maj23_inv ext ?vs'"
    using q key bv' len
    by (auto simp: maj23_inv_def vset_quorum_def vset_vals_def copyVotes_nth voters_def
        blockVotes_inv_def split: option.splits)
  moreover have "\<forall>i v. i < length (vset_vals ?vs') \<longrightarrow> vset_votes ?vs' ! i = Some v \<longrightarrow>
      vote_matches ext ?vs' i v \<and>
      vset_votesByBlock ?vs' (BlockID_Key ext (vote_BlockID v)) \<noteq> None"
    using inv bv' len
    by (auto simp: voteSet_inv_def blockVotes_inv_def vset_vals_def vote_matches_def copyVotes_nth
        split: option.splits)
  ultimately show ?thesis
    using inv bv' len vt by (simp add: voteSet_inv_def fr) (auto simp: vset_vals_def)
qed

lemma tally_inv:
  assumes laws: "bitArray_laws ext" and r: "ready_to_tally ext vs i v key bv"
  shows "\<exists>vs'. addVerifiedVote_tally ext vs v key (val_VotingPower (vset_vals vs ! i)) c bv
           = Ret (vs', True, c) \<and> voteSet_inv ext vs' \<and>
       (\<forall>b. vset_maj23 vs = Some b \<longrightarrow> vset_maj23 vs' = Some b) \<and>
       (\<forall>k. map_option (voters \<circ> bv_votes) (vset_votesByBlock vs' k) =
            (if k = key then Some (insert i (voters (bv_votes bv)))
             else map_option (voters \<circ> bv_votes) (vset_votesByBlock vs k)))"
proof -
  let ?p = "val_VotingPower (vset_vals vs ! i)"
  from r have inv: "voteSet_inv ext vs" and i: "i = unat (vote_ValidatorIndex v)"
      "i < length (vset_vals vs)" and key: "key = BlockID_Key ext (vote_BlockID v)"
    and m: "vote_matches ext vs i v" and slot: "i \<in> voters (vset_votes vs)"
    and bv: "vset_votesByBlock vs key = Some bv" and free: "bv_votes bv ! i = None"
    and maj: "\<And>b. vset_maj23 vs = Some b \<Longrightarrow> BlockID_Key ext b = key \<Longrightarrow> vset_votes vs ! i = Some v"
    by (auto simp: ready_to_tally_def)
  have bvi: "blockVotes_inv ext vs key bv"
    using inv bv by (auto simp: voteSet_inv_def)
  from blockVotes_add_inv [OF laws bvi i free slot m key [symmetric]]
  obtain bv' where bv': "blockVotes_addVerifiedVote ext bv v ?p = Ret bv'"
      "blockVotes_inv ext vs key bv'" "voters (bv_votes bv') = insert i (voters (bv_votes bv))"
    by auto
  have p: "0 \<le> ?p"
    using inv i by (auto simp: voteSet_inv_def vset_vals_def intro: powers_nonneg_nth)
  have "i \<notin> voters (bv_votes bv)"
    using free by (simp add: voters_def)
  then have sum: "bv_sum bv' = bv_sum bv + ?p"
    using bv'(2,3) bvi by (simp add: blockVotes_inv_def powerOf_insert)
  have tally: "ValidatorSet_TalliedVotingPower ext (vset_valSet vs) (bv_bitArray bv) =
     (int (card (bitsOf ext (bv_bitArray bv))), powerOf (vset_vals vs) (bitsOf ext (bv_bitArray bv)),
      totalPower (vset_vals vs), None)"
    unfolding vset_vals_def
    by (rule TalliedVotingPower_ok)
       (use bvi in \<open>auto simp: blockVotes_inv_def vset_vals_def ValidatorSet_Size_def\<close>)
  have q: "Loose23MajorThreshold (totalPower (vset_vals vs)) (sint (vote_Round v)) = vset_quorum vs"
    using m by (simp add: vote_matches_def vset_quorum_def)
  let ?vs1 = "vs\<lparr>vset_votesByBlock := (vset_votesByBlock vs)(key \<mapsto> bv')\<rparr>"
  have step: "addVerifiedVote_tally ext vs v key ?p c bv =
     (if bv_sum bv < vset_quorum vs \<and> vset_quorum vs \<le> bv_sum bv' \<and> vset_maj23 vs = None
      then Ret (?vs1\<lparr>vset_maj23 := Some (vote_BlockID v),
                     vset_votes := copyVotes (bv_votes bv') (vset_votes vs)\<rparr>, True, c)
      else Ret (?vs1, True, c))"
    by (simp add: addVerifiedVote_tally_def Let_def tally q bv'(1))
  show ?thesis
  proof (cases "bv_sum bv < vset_quorum vs \<and> vset_quorum vs \<le> bv_sum bv' \<and> vset_maj23 vs = None")
    case True
    have "voteSet_inv ext (?vs1\<lparr>vset_maj23 := Some (vote_BlockID v),
                     vset_votes := copyVotes (bv_votes bv') (vset_votes vs)\<rparr>)"
      using tally_majority_inv [OF inv bv'(2) _ key] True by simp
    with True step bv'(3) show ?thesis by simp
  next
    case False
    have "voteSet_inv ext ?vs1"
    proof (rule tally_track_inv [OF inv bv bv'(2,3) sum p])
      assume "vset_maj23 vs = None"
      moreover from this inv bv have "bv_sum bv < vset_quorum vs"
        by (auto simp: voteSet_inv_def maj23_inv_def)
      ultimately show "bv_sum bv' < vset_quorum vs" using False by auto
    next
      fix b
      assume "vset_maj23 vs = Some b" "BlockID_Key ext b = key"
      with maj key show "\<exists>w. vset_votes vs ! i = Some w \<and> BlockID_Key ext (vote_BlockID w) = key"
        by auto
    qed
    with step [unfolded if_not_P [OF False]] bv'(3) show ?thesis by simp
  qed
qed

section \<open>The slot step\<close>

text \<open>
  \<open>track\<close> creates the entry of a block key when it is missing, as both callers of
  \<open>newBlockVotes\<close> do.
\<close>

definition track :: "('b, 'z) ext_scheme \<Rightarrow> 'b voteSet \<Rightarrow> bytes \<Rightarrow> bool \<Rightarrow> 'b voteSet" where
  "track ext vs key p =
     (case vset_votesByBlock vs key of
        Some bv \<Rightarrow> vs
      | None \<Rightarrow> vs\<lparr>vset_votesByBlock := (vset_votesByBlock vs)
                  (key \<mapsto> newBlockVotes ext p (ValidatorSet_Size (vset_valSet vs)))\<rparr>)"

lemma newBlockVotes_fields [simp]:
  "bv_sum (newBlockVotes ext p n) = 0" "bv_votes (newBlockVotes ext p n) = replicate n None"
  "bv_peerMaj23 (newBlockVotes ext p n) = p"
  by (simp_all add: newBlockVotes_def)

lemma track_inv:
  assumes laws: "bitArray_laws ext" and inv: "voteSet_inv ext vs"
  shows "voteSet_inv ext (track ext vs key p)"
proof (cases "vset_votesByBlock vs key")
  case (Some bv)
  with inv show ?thesis by (simp add: track_def)
next
  case None
  let ?bv = "newBlockVotes ext p (ValidatorSet_Size (vset_valSet vs))"
  let ?vs' = "vs\<lparr>vset_votesByBlock := (vset_votesByBlock vs)(key \<mapsto> ?bv)\<rparr>"
  have fr: "blockVotes_inv ext ?vs' k b \<longleftrightarrow> blockVotes_inv ext vs k b" for k b
    by (simp add: blockVotes_inv_def vote_matches_def vset_vals_def)
  have new: "blockVotes_inv ext vs key ?bv"
    using newBlockVotes_inv [OF laws, of vs key p]
    by (simp add: vset_vals_def ValidatorSet_Size_def)
  have pos: "0 < vset_quorum vs"
    using inv by (intro vset_quorum_pos) (simp add: voteSet_inv_def)
  have "maj23_inv ext ?vs'"
    using inv None pos
    by (auto simp: voteSet_inv_def maj23_inv_def vset_quorum_def vset_vals_def
        split: option.splits if_splits)
  with inv new show ?thesis
    by (auto simp: track_def None voteSet_inv_def fr vset_vals_def vote_matches_def)
qed

lemma slot_new_inv:
  assumes laws: "bitArray_laws ext" and inv: "voteSet_inv ext vs"
    and i: "i = unat (vote_ValidatorIndex v)" "i < length (vset_vals vs)"
    and m: "vote_matches ext vs i v" and free: "vset_votes vs ! i = None"
    and tr: "vset_votesByBlock vs (BlockID_Key ext (vote_BlockID v)) \<noteq> None"
  shows "voteSet_inv ext (vs\<lparr>vset_votes := (vset_votes vs)[i := Some v],
           vset_votesBitArray := BA_SetIndex ext (vset_votesBitArray vs) i True,
           vset_sum := vset_sum vs + val_VotingPower (vset_vals vs ! i)\<rparr>)"
    (is "voteSet_inv ext ?vs'")
proof -
  have len: "length (vset_votes vs) = length (vset_vals vs)"
    using inv by (simp add: voteSet_inv_def)
  have vt: "voters (vset_votes ?vs') = insert i (voters (vset_votes vs))"
    using i len by (simp add: voters_update)
  have new: "i \<notin> voters (vset_votes vs)"
    using free by (simp add: voters_def)
  have blocks: "blockVotes_inv ext ?vs' k b" if "vset_votesByBlock ?vs' k = Some b" for k b
    by (rule blockVotes_inv_mono [of ext vs k b]) (use that inv vt in \<open>auto simp: voteSet_inv_def\<close>)
  have sub: "voters (bv_votes b) \<subseteq> voters (vset_votes vs)" if "vset_votesByBlock vs k = Some b" for k b
    using that inv by (auto simp: voteSet_inv_def blockVotes_inv_def)
  have maj: "maj23_inv ext vs"
    using inv by (simp add: voteSet_inv_def)
  have "maj23_inv ext ?vs'"
  proof (cases "vset_maj23 vs")
    case None
    with maj show ?thesis by (simp add: maj23_inv_def vset_quorum_def vset_vals_def)
  next
    case (Some b)
    with maj obtain bv where bv: "vset_votesByBlock vs (BlockID_Key ext b) = Some bv"
        "vset_quorum vs \<le> bv_sum bv"
        "\<forall>j\<in>voters (bv_votes bv). \<exists>w. vset_votes vs ! j = Some w \<and>
           BlockID_Key ext (vote_BlockID w) = BlockID_Key ext b"
      by (auto simp: maj23_inv_def)
    have "\<forall>j\<in>voters (bv_votes bv). j \<noteq> i"
      using sub [OF bv(1)] new by blast
    with bv Some show ?thesis
      by (auto simp: maj23_inv_def vset_quorum_def vset_vals_def)
  qed
  moreover have "\<forall>j w. j < length (vset_vals ?vs') \<longrightarrow> vset_votes ?vs' ! j = Some w \<longrightarrow>
      vote_matches ext ?vs' j w \<and>
      vset_votesByBlock ?vs' (BlockID_Key ext (vote_BlockID w)) \<noteq> None"
    using inv i len m tr
    by (auto simp: voteSet_inv_def vset_vals_def vote_matches_def nth_list_update split: if_splits)
  moreover have "length (vset_votes ?vs') = length (vset_vals ?vs')"
      "\<not> BA_isNil ext (vset_votesBitArray ?vs')"
      "BA_Size ext (vset_votesBitArray ?vs') = length (vset_vals ?vs')"
      "bitsOf ext (vset_votesBitArray ?vs') = voters (vset_votes ?vs')"
      "vset_sum ?vs' = powerOf (vset_vals ?vs') (voters (vset_votes ?vs'))"
      "powers_nonneg (vset_valSet ?vs')"
    using inv i len laws new vt
    by (simp_all add: voteSet_inv_def vset_vals_def bitsOf_Set BA_Size_Set BA_Set_not_nil
        powerOf_insert)
  ultimately show ?thesis
    using blocks unfolding voteSet_inv_def by blast
qed

lemma slot_replace_inv:
  assumes laws: "bitArray_laws ext" and inv: "voteSet_inv ext vs"
    and i: "i = unat (vote_ValidatorIndex v)" "i < length (vset_vals vs)"
    and m: "vote_matches ext vs i v" and old: "vset_votes vs ! i = Some e"
    and maj: "vset_maj23 vs = Some b" "BlockID_Key ext b = BlockID_Key ext (vote_BlockID v)"
  shows "voteSet_inv ext (vs\<lparr>vset_votes := (vset_votes vs)[i := Some v],
           vset_votesBitArray := BA_SetIndex ext (vset_votesBitArray vs) i True\<rparr>)"
    (is "voteSet_inv ext ?vs'")
proof -
  have len: "length (vset_votes vs) = length (vset_vals vs)"
    using inv by (simp add: voteSet_inv_def)
  have old': "i \<in> voters (vset_votes vs)"
    using old i len by (simp add: voters_def)
  have vt: "voters (vset_votes ?vs') = voters (vset_votes vs)"
    using i len old' by (auto simp: voters_update)
  have blocks: "blockVotes_inv ext ?vs' k c" if "vset_votesByBlock ?vs' k = Some c" for k c
    by (rule blockVotes_inv_mono [of ext vs k c]) (use that inv vt in \<open>auto simp: voteSet_inv_def\<close>)
  have "maj23_inv ext vs"
    using inv by (simp add: voteSet_inv_def)
  with maj(1) obtain bv where bv: "vset_votesByBlock vs (BlockID_Key ext b) = Some bv"
      "vset_quorum vs \<le> bv_sum bv"
      "\<forall>j\<in>voters (bv_votes bv). \<exists>w. vset_votes vs ! j = Some w \<and>
         BlockID_Key ext (vote_BlockID w) = BlockID_Key ext b"
    by (auto simp: maj23_inv_def)
  have "\<forall>j\<in>voters (bv_votes bv). \<exists>w. (vset_votes vs)[i := Some v] ! j = Some w \<and>
         BlockID_Key ext (vote_BlockID w) = BlockID_Key ext b"
    using bv(3) maj(2) i len by (auto simp: nth_list_update)
  with bv maj(1) have "maj23_inv ext ?vs'"
    by (simp add: maj23_inv_def vset_quorum_def vset_vals_def)
  moreover have "\<forall>j w. j < length (vset_vals ?vs') \<longrightarrow> vset_votes ?vs' ! j = Some w \<longrightarrow>
      vote_matches ext ?vs' j w \<and>
      vset_votesByBlock ?vs' (BlockID_Key ext (vote_BlockID w)) \<noteq> None"
    using inv i len m maj(2) bv(1)
    by (auto simp: voteSet_inv_def vset_vals_def vote_matches_def nth_list_update
        split: if_splits)
  moreover have "length (vset_votes ?vs') = length (vset_vals ?vs')"
      "\<not> BA_isNil ext (vset_votesBitArray ?vs')"
      "BA_Size ext (vset_votesBitArray ?vs') = length (vset_vals ?vs')"
      "bitsOf ext (vset_votesBitArray ?vs') = voters (vset_votes ?vs')"
      "vset_sum ?vs' = powerOf (vset_vals ?vs') (voters (vset_votes ?vs'))"
      "powers_nonneg (vset_valSet ?vs')"
    using inv i len laws old' vt
    by (simp_all add: voteSet_inv_def vset_vals_def bitsOf_Set BA_Size_Set BA_Set_not_nil
        insert_absorb)
  ultimately show ?thesis
    using blocks unfolding voteSet_inv_def by blast
qed

section \<open>AddVote\<close>

text \<open>The validators counted for a block key.\<close>

definition counted :: "'b voteSet \<Rightarrow> bytes \<Rightarrow> nat set" where
  "counted vs key = (case vset_votesByBlock vs key of None \<Rightarrow> {} | Some bv \<Rightarrow> voters (bv_votes bv))"

definition same_step :: "'b voteSet \<Rightarrow> 'b voteSet \<Rightarrow> bool" where
  "same_step vs vs' \<longleftrightarrow> vset_chainID vs' = vset_chainID vs \<and> vset_height vs' = vset_height vs \<and>
     vset_round vs' = vset_round vs \<and> vset_type vs' = vset_type vs \<and>
     vset_valSet vs' = vset_valSet vs"

lemma addVerifiedVote_slot_frame [simp]:
  "vset_votesByBlock (addVerifiedVote_slot ext vs v key p) = vset_votesByBlock vs"
  "vset_maj23 (addVerifiedVote_slot ext vs v key p) = vset_maj23 vs"
  "vset_valSet (addVerifiedVote_slot ext vs v key p) = vset_valSet vs"
  "vset_round (addVerifiedVote_slot ext vs v key p) = vset_round vs"
  "vset_height (addVerifiedVote_slot ext vs v key p) = vset_height vs"
  "vset_type (addVerifiedVote_slot ext vs v key p) = vset_type vs"
  "vset_chainID (addVerifiedVote_slot ext vs v key p) = vset_chainID vs"
  by (auto simp: addVerifiedVote_slot_def Let_def split: option.splits)

lemma vote_matches_cong:
  "same_step vs vs' \<Longrightarrow> vote_matches ext vs' i v = vote_matches ext vs i v"
  by (simp add: vote_matches_def vset_vals_def same_step_def)

text \<open>After the slot step of a vote that is not stored yet, on a tracked block.\<close>

lemma slot_ready:
  assumes laws: "bitArray_laws ext" and inv: "voteSet_inv ext vs"
    and i: "i = unat (vote_ValidatorIndex v)" "i < length (vset_vals vs)"
    and m: "vote_matches ext vs i v"
    and key: "key = BlockID_Key ext (vote_BlockID v)"
    and bv: "vset_votesByBlock vs key = Some bv" "bv_votes bv ! i = None"
  shows "ready_to_tally ext (addVerifiedVote_slot ext vs v key (val_VotingPower (vset_vals vs ! i)))
           i v key bv"
proof -
  let ?vs' = "addVerifiedVote_slot ext vs v key (val_VotingPower (vset_vals vs ! i))"
  have len: "length (vset_votes vs) = length (vset_vals vs)"
    using inv by (simp add: voteSet_inv_def)
  have vals: "vset_vals ?vs' = vset_vals vs" by (simp add: vset_vals_def)
  have m': "vote_matches ext ?vs' i v"
    using m by (simp add: vote_matches_def vset_vals_def)
  have core: "voteSet_inv ext ?vs' \<and> i \<in> voters (vset_votes ?vs') \<and>
      (\<forall>b. vset_maj23 vs = Some b \<longrightarrow> BlockID_Key ext b = key \<longrightarrow> vset_votes ?vs' ! i = Some v)"
  proof (cases "vset_votes vs ! i")
    case None
    then show ?thesis
      using slot_new_inv [OF laws inv i m None] bv key i len
      by (simp add: addVerifiedVote_slot_def Let_def voters_update)
  next
    case (Some e)
    then have in_v: "i \<in> voters (vset_votes vs)"
      using i len by (simp add: voters_def)
    show ?thesis
    proof (cases "\<exists>b. vset_maj23 vs = Some b \<and> BlockID_Key ext b = key")
      case True
      then obtain b where b: "vset_maj23 vs = Some b" "BlockID_Key ext b = key" by blast
      then show ?thesis
        using slot_replace_inv [OF laws inv i m Some b(1)] key Some i len
        by (simp add: addVerifiedVote_slot_def Let_def voters_update)
    next
      case False
      then have "?vs' = vs"
        using Some i by (auto simp: addVerifiedVote_slot_def Let_def split: option.splits)
      with False inv in_v show ?thesis by auto
    qed
  qed
  then show ?thesis
    using i bv key m' vals by (simp add: ready_to_tally_def)
qed

lemma track_fields [simp]:
  "vset_votes (track ext vs key p) = vset_votes vs" "vset_maj23 (track ext vs key p) = vset_maj23 vs"
  "vset_valSet (track ext vs key p) = vset_valSet vs" "vset_round (track ext vs key p) = vset_round vs"
  "vset_height (track ext vs key p) = vset_height vs" "vset_type (track ext vs key p) = vset_type vs"
  "vset_chainID (track ext vs key p) = vset_chainID vs"
  by (auto simp: track_def split: option.splits)

lemma counted_track [simp]: "counted (track ext vs key p) k = counted vs k"
  by (auto simp: counted_def track_def split: option.splits)

lemma slot_track_commute:
  "addVerifiedVote_slot ext (track ext vs key p) v key q = track ext (addVerifiedVote_slot ext vs v key q) key p"
  by (cases "vset_votesByBlock vs key"; cases "vset_votes vs ! unat (vote_ValidatorIndex v)";
      cases "vset_maj23 vs") (simp_all add: addVerifiedVote_slot_def track_def Let_def)

text \<open>What one accepted vote does to the set: the relation between the states.\<close>

definition vote_step ::
    "('b, 'z) ext_scheme \<Rightarrow> 'b voteSet \<Rightarrow> nat \<Rightarrow> bytes \<Rightarrow> bool \<Rightarrow> 'b voteSet \<Rightarrow> bool" where
  "vote_step ext vs i key added vs' \<longleftrightarrow>
     voteSet_inv ext vs' \<and> same_step vs vs' \<and>
     (\<forall>b. vset_maj23 vs = Some b \<longrightarrow> vset_maj23 vs' = Some b) \<and>
     (\<forall>k. counted vs' k = (if added \<and> k = key then insert i (counted vs k) else counted vs k))"

lemma tally_frame:
  assumes t: "addVerifiedVote_tally ext vs v key p c bv = Ret (vs', a, c')"
  shows "same_step vs vs' \<and> vset_votesBitArray vs' = vset_votesBitArray vs"
proof -
  obtain x y total e where
    e: "ValidatorSet_TalliedVotingPower ext (vset_valSet vs) (bv_bitArray bv) = (x, y, total, e)"
    by (cases "ValidatorSet_TalliedVotingPower ext (vset_valSet vs) (bv_bitArray bv)") blast
  show ?thesis
  proof (cases e)
    case (Some err)
    with t e show ?thesis
      by (simp add: addVerifiedVote_tally_def same_step_def Let_def)
  next
    case None
    show ?thesis
    proof (cases "blockVotes_addVerifiedVote ext bv v p")
      case (Ret bv')
      with t e None show ?thesis
        by (simp add: addVerifiedVote_tally_def Let_def split: if_splits)
          (auto simp add: same_step_def simp del: fun_upd_apply)
    next
      case (Panic msg)
      with t e None show ?thesis by (simp add: addVerifiedVote_tally_def Let_def)
    qed
  qed
qed

lemma slot_bits:
  "vset_votesBitArray (addVerifiedVote_slot ext vs v key p) = vset_votesBitArray vs \<or>
   vset_votesBitArray (addVerifiedVote_slot ext vs v key p) =
     BA_SetIndex ext (vset_votesBitArray vs) (unat (vote_ValidatorIndex v)) True"
  by (auto simp: addVerifiedVote_slot_def Let_def split: option.splits)

lemma addVerifiedVote_bits:
  assumes "VoteSet_addVerifiedVote ext vs v key p = Ret (vs', a, c)"
  shows "vset_votesBitArray vs' = vset_votesBitArray vs \<or>
   vset_votesBitArray vs' = BA_SetIndex ext (vset_votesBitArray vs) (unat (vote_ValidatorIndex v)) True"
proof -
  let ?s = "addVerifiedVote_slot ext vs v key p"
  have "vset_votesBitArray vs' = vset_votesBitArray ?s"
    using assms
    by (auto simp: VoteSet_addVerifiedVote_def Let_def dest: tally_frame
        split: if_splits option.splits)
  with slot_bits show ?thesis by metis
qed

lemma ready_tally_step:
  assumes laws: "bitArray_laws ext" and r: "ready_to_tally ext vs1 i v key bv"
    and s: "same_step vs vs1" "vset_maj23 vs1 = vset_maj23 vs" "\<And>k. counted vs1 k = counted vs k"
  shows "\<exists>vs'. addVerifiedVote_tally ext vs1 v key (val_VotingPower (vset_vals vs ! i)) c bv
           = Ret (vs', True, c) \<and> vote_step ext vs i key True vs'"
proof -
  have vals: "vset_vals vs1 = vset_vals vs"
    using s(1) by (simp add: same_step_def vset_vals_def)
  from tally_inv [OF laws r, of c] obtain vs' where
    t: "addVerifiedVote_tally ext vs1 v key (val_VotingPower (vset_vals vs ! i)) c bv
          = Ret (vs', True, c)"
    and inv: "voteSet_inv ext vs'"
    and maj: "\<forall>b. vset_maj23 vs1 = Some b \<longrightarrow> vset_maj23 vs' = Some b"
    and cnt: "\<forall>k. map_option (voters \<circ> bv_votes) (vset_votesByBlock vs' k) =
            (if k = key then Some (insert i (voters (bv_votes bv)))
             else map_option (voters \<circ> bv_votes) (vset_votesByBlock vs1 k))"
    by (auto simp: vals)
  have bv: "vset_votesByBlock vs1 key = Some bv"
    using r by (auto simp: ready_to_tally_def)
  have "counted vs' k = (if k = key then insert i (counted vs k) else counted vs k)" for k
    using cnt [rule_format, of k] bv s(3) [of k]
    by (auto simp: counted_def split: option.splits if_splits)
  moreover have "same_step vs vs'"
    using tally_frame [OF t] s(1) by (auto simp: same_step_def)
  ultimately have "vote_step ext vs i key True vs'"
    using inv maj s(2) by (simp add: vote_step_def)
  with t show ?thesis by blast
qed

lemma same_step_slot: "same_step vs (addVerifiedVote_slot ext vs v key p)"
  by (simp add: same_step_def)

lemma addVerifiedVote_ok:
  assumes laws: "bitArray_laws ext" and inv: "voteSet_inv ext vs"
    and i: "i = unat (vote_ValidatorIndex v)" "i < length (vset_vals vs)"
    and m: "vote_matches ext vs i v"
    and key: "key = BlockID_Key ext (vote_BlockID v)"
    and new: "\<And>e. vset_votes vs ! i = Some e \<Longrightarrow> BlockID_Key ext (vote_BlockID e) \<noteq> key"
    and free: "\<And>bv. vset_votesByBlock vs key = Some bv \<Longrightarrow> bv_votes bv ! i = None"
  shows "\<exists>vs' added. VoteSet_addVerifiedVote ext vs v key (val_VotingPower (vset_vals vs ! i))
           = Ret (vs', added, vset_votes vs ! i) \<and> vote_step ext vs i key added vs' \<and>
       (vset_votes vs ! i = None \<longrightarrow> added)"
proof -
  let ?p = "val_VotingPower (vset_vals vs ! i)"
  let ?s = "addVerifiedVote_slot ext vs v key ?p"
  let ?c = "vset_votes vs ! i"
  have len: "length (vset_votes vs) = length (vset_vals vs)"
    using inv by (simp add: voteSet_inv_def)
  have nodup: "(case ?c of Some e \<Rightarrow> BlockID_Equals (vote_BlockID e) (vote_BlockID v)
                 | None \<Rightarrow> False) = False"
    using new key by (auto split: option.splits)
  have cnt_s: "counted ?s k = counted vs k" for k
    by (simp add: counted_def)
  show ?thesis
  proof (cases "vset_votesByBlock vs key")
    case (Some bv)
    have r: "ready_to_tally ext ?s i v key bv"
      by (rule slot_ready [OF laws inv i m key Some free [OF Some]])
    have eq: "VoteSet_addVerifiedVote ext vs v key ?p =
        (if ?c \<noteq> None \<and> \<not> bv_peerMaj23 bv then Ret (?s, False, ?c)
         else addVerifiedVote_tally ext ?s v key ?p ?c bv)"
      using i len Some by (simp add: VoteSet_addVerifiedVote_def Let_def nodup [unfolded i(1)])
    show ?thesis
    proof (cases "?c \<noteq> None \<and> \<not> bv_peerMaj23 bv")
      case True
      have "vote_step ext vs i key False ?s"
        using ready_to_tally_inv [OF r] same_step_slot cnt_s unfolding vote_step_def by simp
      moreover have "VoteSet_addVerifiedVote ext vs v key ?p = Ret (?s, False, ?c)"
        unfolding eq by (rule if_P [OF True])
      ultimately show ?thesis using True by (intro exI [of _ ?s] exI [of _ False]) simp
    next
      case False
      have maj: "vset_maj23 ?s = vset_maj23 vs" by simp
      from ready_tally_step [OF laws r same_step_slot maj cnt_s, of ?c] obtain vs' where
        "addVerifiedVote_tally ext ?s v key ?p ?c bv = Ret (vs', True, ?c)"
        "vote_step ext vs i key True vs'"
        by blast
      moreover have "VoteSet_addVerifiedVote ext vs v key ?p =
          addVerifiedVote_tally ext ?s v key ?p ?c bv"
        unfolding eq by (rule if_not_P [OF False])
      ultimately show ?thesis by (intro exI [of _ vs'] exI [of _ True]) simp
    qed
  next
    case None
    show ?thesis
    proof (cases ?c)
      case (Some e)
      have "\<not> (\<exists>b. vset_maj23 vs = Some b \<and> BlockID_Key ext b = key)"
        using inv None by (auto simp: voteSet_inv_def maj23_inv_def)
      then have "?s = vs"
        using Some i by (auto simp: addVerifiedVote_slot_def Let_def split: option.splits)
      moreover have "VoteSet_addVerifiedVote ext vs v key ?p = Ret (?s, False, ?c)"
        using i len nodup None Some by (simp add: VoteSet_addVerifiedVote_def Let_def)
      ultimately show ?thesis
        using inv Some by (auto simp: vote_step_def same_step_def)
    next
      case c: None
      let ?bv = "newBlockVotes ext False (ValidatorSet_Size (vset_valSet vs))"
      let ?t = "track ext vs key False"
      have entry: "vset_votesByBlock ?t key = Some ?bv"
        using None by (simp add: track_def)
      have free': "bv_votes ?bv ! i = None"
        using i by (simp add: ValidatorSet_Size_def vset_vals_def)
      have mt: "vote_matches ext ?t i v" and it: "i < length (vset_vals ?t)"
        and vt: "vset_vals ?t = vset_vals vs"
        using m i by (simp_all add: vote_matches_def vset_vals_def)
      have r: "ready_to_tally ext (addVerifiedVote_slot ext ?t v key ?p) i v key ?bv"
        using slot_ready [OF laws track_inv [OF laws inv] i(1) it mt key entry free'] vt by simp
      have ss: "same_step vs (addVerifiedVote_slot ext ?t v key ?p)"
        "vset_maj23 (addVerifiedVote_slot ext ?t v key ?p) = vset_maj23 vs"
        "counted (addVerifiedVote_slot ext ?t v key ?p) k = counted vs k" for k
        by (simp_all add: same_step_def) (metis counted_def counted_track addVerifiedVote_slot_frame(1))
      have eq: "VoteSet_addVerifiedVote ext vs v key ?p =
          addVerifiedVote_tally ext (track ext ?s key False) v key ?p ?c ?bv"
        using i len c None by (simp add: VoteSet_addVerifiedVote_def Let_def track_def)
      from ready_tally_step [OF laws r ss, of ?c] show ?thesis
        unfolding eq slot_track_commute by auto
    qed
  qed
qed

lemma getVote_None:
  assumes "voteSet_inv ext vs" "VoteSet_getVote ext vs i key = Ret None"
  shows "vset_votes vs ! i = Some e \<Longrightarrow> BlockID_Key ext (vote_BlockID e) \<noteq> key"
    and "vset_votesByBlock vs key = Some bv \<Longrightarrow> bv_votes bv ! i = None"
  using assms
  by (auto simp: VoteSet_getVote_def blockVotes_getByIndex_def split: if_splits option.splits)

lemma getVote_returns:
  assumes "voteSet_inv ext vs" "i < length (vset_vals vs)"
  shows "\<exists>r. VoteSet_getVote ext vs i key = Ret r"
  using assms
  by (auto simp: VoteSet_getVote_def blockVotes_getByIndex_def voteSet_inv_def blockVotes_inv_def
      split: option.splits)

text \<open>The guards of \<open>addVote\<close> before the signature check.\<close>

definition step_matches :: "'b voteSet \<Rightarrow> vote \<Rightarrow> bool" where
  "step_matches vs v \<longleftrightarrow> vote_Height v = vset_height vs \<and> sint (vote_Round v) = vset_round vs \<and>
     vote_Type v = vset_type vs"

text \<open>\<open>AddVote\<close> in one formula, for a set that satisfies the invariant.\<close>

lemma AddVote_unfold:
  assumes inv: "voteSet_inv ext vs" and laws: "bitArray_laws ext"
    and addr: "vote_ValidatorAddress v \<noteq> []" and st: "step_matches vs v"
    and i: "i = unat (vote_ValidatorIndex v)" "i < length (vset_vals vs)"
    and a: "vote_ValidatorAddress v = val_Address (vset_vals vs ! i)"
    and g: "VoteSet_getVote ext vs i (BlockID_Key ext (vote_BlockID v)) = Ret None"
    and sig: "VerifyBytes ext (val_PubKey (vset_vals vs ! i))
                (Vote_SignBytes ext (vset_chainID vs) v) (vote_Signature v)"
  shows "\<exists>vs' added. VoteSet_AddVote ext vs v =
      Ret (vs', added, map_option (\<lambda>c. ErrVoteConflictingVotes c v) (vset_votes vs ! i)) \<and>
      vote_step ext vs i (BlockID_Key ext (vote_BlockID v)) added vs' \<and>
      (vset_votes vs ! i = None \<longrightarrow> added)"
proof -
  have m: "vote_matches ext vs i v"
    using st i a sig by (simp add: vote_matches_def step_matches_def)
  from addVerifiedVote_ok [OF laws inv i m refl getVote_None [OF inv g]]
  obtain vs' added where add: "VoteSet_addVerifiedVote ext vs v (BlockID_Key ext (vote_BlockID v))
       (val_VotingPower (vset_vals vs ! i)) = Ret (vs', added, vset_votes vs ! i)"
      "vote_step ext vs i (BlockID_Key ext (vote_BlockID v)) added vs'"
      "vset_votes vs ! i = None \<longrightarrow> added"
    by auto
  have "VoteSet_AddVote ext vs v =
      Ret (vs', added, map_option (\<lambda>c. ErrVoteConflictingVotes c v) (vset_votes vs ! i))"
    using addr st i a g sig add(1,3)
    by (auto simp: VoteSet_AddVote_def Let_def step_matches_def ValidatorSet_GetByIndex_def
        vset_vals_def split: option.splits)
  with add(2,3) show ?thesis by (intro exI conjI)
qed

text \<open>Every outcome of \<open>AddVote\<close> on a set that satisfies the invariant.\<close>

lemma AddVote_outcome:
  assumes inv: "voteSet_inv ext vs" and laws: "bitArray_laws ext"
    and i: "i = unat (vote_ValidatorIndex v)"
    and r: "VoteSet_AddVote ext vs v = Ret (vs', added, err)"
  shows "vote_step ext vs i (BlockID_Key ext (vote_BlockID v)) added vs' \<and>
     (added \<longrightarrow> i < length (vset_vals vs) \<and> vote_matches ext vs i v \<and>
        i \<notin> counted vs (BlockID_Key ext (vote_BlockID v)))"
proof (cases "vote_ValidatorAddress v \<noteq> [] \<and> step_matches vs v \<and> i < length (vset_vals vs) \<and>
    vote_ValidatorAddress v = val_Address (vset_vals vs ! i) \<and>
    VoteSet_getVote ext vs i (BlockID_Key ext (vote_BlockID v)) = Ret None \<and>
    VerifyBytes ext (val_PubKey (vset_vals vs ! i))
      (Vote_SignBytes ext (vset_chainID vs) v) (vote_Signature v)")
  case True
  then have "vote_matches ext vs i v"
    using i by (simp add: vote_matches_def step_matches_def)
  moreover have "i \<notin> counted vs (BlockID_Key ext (vote_BlockID v))"
    using getVote_None(2) [OF inv] True by (auto simp: counted_def voters_def split: option.splits)
  moreover have "vote_step ext vs i (BlockID_Key ext (vote_BlockID v)) added vs'"
    using AddVote_unfold [OF inv laws _ _ i] True r by auto
  ultimately show ?thesis using True by blast
next
  case False
  have "vs' = vs \<and> \<not> added"
    using False r i getVote_returns [OF inv, of i "BlockID_Key ext (vote_BlockID v)"]
    by (auto simp: VoteSet_AddVote_def Let_def step_matches_def ValidatorSet_GetByIndex_def
        vset_vals_def go_simps split: if_splits option.splits)
  with inv show ?thesis
    by (auto simp: vote_step_def same_step_def)
qed

lemma AddVote_returns_iff:
  assumes inv: "voteSet_inv ext vs" and laws: "bitArray_laws ext"
  shows "returns (VoteSet_AddVote ext vs v) \<longleftrightarrow>
     vote_ValidatorAddress v \<noteq> [] \<and>
     (step_matches vs v \<longrightarrow> unat (vote_ValidatorIndex v) < length (vset_vals vs))"
proof (cases "vote_ValidatorAddress v \<noteq> [] \<and> step_matches vs v \<and>
    unat (vote_ValidatorIndex v) < length (vset_vals vs)")
  case True
  from True getVote_returns [OF inv]
  obtain g where g: "VoteSet_getVote ext vs (unat (vote_ValidatorIndex v))
      (BlockID_Key ext (vote_BlockID v)) = Ret g"
    by blast
  show ?thesis
  proof (cases "vote_ValidatorAddress v = val_Address (vset_vals vs ! unat (vote_ValidatorIndex v)) \<and>
      g = None \<and> VerifyBytes ext (val_PubKey (vset_vals vs ! unat (vote_ValidatorIndex v)))
        (Vote_SignBytes ext (vset_chainID vs) v) (vote_Signature v)")
    case t: True
    with AddVote_unfold [OF inv laws, of v] True g
    have "\<exists>r. VoteSet_AddVote ext vs v = Ret r" by blast
    with True show ?thesis by (auto simp: returns_iff)
  next
    case False
    with True g show ?thesis
      by (auto simp: VoteSet_AddVote_def Let_def step_matches_def ValidatorSet_GetByIndex_def
          vset_vals_def split: option.splits)
  qed
next
  case False
  then show ?thesis
    by (auto simp: VoteSet_AddVote_def Let_def step_matches_def ValidatorSet_GetByIndex_def
        vset_vals_def)
qed

lemma SetPeerMaj23_step:
  assumes laws: "bitArray_laws ext" and inv: "voteSet_inv ext vs"
  shows "vote_step ext vs i key False (VoteSet_SetPeerMaj23 ext vs peer b)"
proof -
  let ?k = "BlockID_Key ext b"
  let ?t = "(track ext vs ?k True)"
  have flag: "voteSet_inv ext (vs\<lparr>vset_peerMaj23s := m\<rparr>)" if "voteSet_inv ext vs" for vs m
    using that
    by (auto simp: voteSet_inv_def maj23_inv_def blockVotes_inv_def vset_vals_def vset_quorum_def
        vote_matches_def split: option.splits)
  have mark: "voteSet_inv ext (vs\<lparr>vset_votesByBlock := (vset_votesByBlock vs)
      (k \<mapsto> bv\<lparr>bv_peerMaj23 := True\<rparr>)\<rparr>)" if "voteSet_inv ext vs" "vset_votesByBlock vs k = Some bv" for vs k bv
  proof -
    have "blockVotes_inv ext vs k bv" using that by (auto simp: voteSet_inv_def)
    then have b: "blockVotes_inv ext vs k (bv\<lparr>bv_peerMaj23 := True\<rparr>)"
      by (simp add: blockVotes_inv_def)
    have fr: "blockVotes_inv ext (vs\<lparr>vset_votesByBlock := f\<rparr>) k' b' = blockVotes_inv ext vs k' b'" for f k' b'
      by (simp add: blockVotes_inv_def vset_vals_def vote_matches_def)
    have "maj23_inv ext (vs\<lparr>vset_votesByBlock := (vset_votesByBlock vs)
      (k \<mapsto> bv\<lparr>bv_peerMaj23 := True\<rparr>)\<rparr>)"
      using that by (auto simp: voteSet_inv_def maj23_inv_def vset_vals_def vset_quorum_def
          split: option.splits)
    with that b show ?thesis
      by (auto simp: voteSet_inv_def fr vset_vals_def vote_matches_def)
  qed
  show ?thesis
  proof (cases "vset_peerMaj23s vs peer")
    case (Some x)
    with inv show ?thesis
      by (auto simp: VoteSet_SetPeerMaj23_def Let_def vote_step_def same_step_def)
  next
    case None
    show ?thesis
    proof (cases "vset_votesByBlock vs ?k")
      case (Some bv)
      let ?vs1 = "vs\<lparr>vset_peerMaj23s := (vset_peerMaj23s vs)(peer \<mapsto> b)\<rparr>"
      have "voteSet_inv ext ?vs1" by (rule flag [OF inv])
      moreover have "vset_votesByBlock ?vs1 ?k = Some bv" using Some by simp
      ultimately show ?thesis
        using None Some mark [of ?vs1 ?k bv]
        by (auto simp: VoteSet_SetPeerMaj23_def Let_def vote_step_def same_step_def counted_def)
    next
      case n: None
      have "voteSet_inv ext (track ext (vs\<lparr>vset_peerMaj23s := (vset_peerMaj23s vs)(peer \<mapsto> b)\<rparr>) ?k True)"
        by (rule track_inv [OF laws flag [OF inv]])
      with None n show ?thesis
        by (auto simp: VoteSet_SetPeerMaj23_def Let_def vote_step_def same_step_def track_def
            counted_def)
    qed
  qed
qed

end
