(* ===== verification/Commits.thy ===== *)
theory Commits
  imports Vote_Invariant
begin

text \<open>
  \<open>types/block.go\<close> (\<open>Commit\<close>), \<open>types/sign_aggr.go\<close> and \<open>ValidatorSet.VerifyCommit\<close> of
  \<open>types/validator_set.go\<close>: the aggregated signature of +2/3 of the voting power, in the form
  that travels between the nodes (\<open>SignAggr\<close>) and in the form that is stored with a block
  (\<open>Commit\<close>). Calling a method of a nil \<open>crypto.PubKey\<close> is a nil dereference, modelled as a panic.
\<close>

section \<open>Commits\<close>

record 'b commit =
  cm_BlockID :: blockID
  cm_Height :: u64
  cm_Round :: int
  cm_SignAggr :: bytes
  cm_BitArray :: 'b

definition Commit_Type :: "'b commit \<Rightarrow> u8" where
  "Commit_Type commit = VoteTypePrecommit"

definition Commit_Size :: "('b, 'z) ext_scheme \<Rightarrow> 'b commit \<Rightarrow> nat" where
  "Commit_Size ext commit = BA_Size ext (cm_BitArray commit)"

datatype commitErr =
    CommitNil
  | CommitWrongSetSize
  | CommitWrongHeight
  | CommitWrongSignature
  | CommitTally tallyErr
  | CommitInsufficientPower
  | CommitForNilBlock

definition Commit_ValidateBasic :: "'b commit \<Rightarrow> commitErr option" where
  "Commit_ValidateBasic commit =
     (if BlockID_IsZero (cm_BlockID commit) then Some CommitForNilBlock else None)"

text \<open>The vote whose sign bytes an aggregate signs: \<open>&Vote{BlockID, Height, Round, Type}\<close>.\<close>

definition aggregatedVote :: "blockID \<Rightarrow> u64 \<Rightarrow> int \<Rightarrow> u8 \<Rightarrow> vote" where
  "aggregatedVote blockID height round type =
     \<lparr>vote_ValidatorAddress = [], vote_ValidatorIndex = 0, vote_Height = height,
      vote_Round = word_of_int round, vote_Type = type, vote_BlockID = blockID,
      vote_Signature = [], vote_SignBytes = []\<rparr>"

text \<open>\<open>Ret None\<close> is the nil error.\<close>

definition ValidatorSet_VerifyCommit ::
    "('b, 'z) ext_scheme \<Rightarrow> validatorSet \<Rightarrow> string \<Rightarrow> u64 \<Rightarrow> 'b commit option
     \<Rightarrow> commitErr option go" where
  "ValidatorSet_VerifyCommit ext valSet chainID height commit =
     (case commit of
        None \<Rightarrow> Ret (Some CommitNil)
      | Some commit \<Rightarrow>
          if ValidatorSet_Size valSet \<noteq> BA_Size ext (cm_BitArray commit)
          then Ret (Some CommitWrongSetSize)
          else if height \<noteq> cm_Height commit then Ret (Some CommitWrongHeight)
          else
            (let pubKey = ValidatorSet_AggrPubKey ext valSet (cm_BitArray commit);
                 vote = aggregatedVote (cm_BlockID commit) (cm_Height commit) (cm_Round commit)
                          (Commit_Type commit)
             in case pubKey of
                  None \<Rightarrow> Panic ''nil pointer dereference''
                | Some pubKey \<Rightarrow>
                    if \<not> VerifyBytes ext pubKey (Vote_SignBytes ext chainID vote) (cm_SignAggr commit)
                    then Ret (Some CommitWrongSignature)
                    else (case ValidatorSet_TalliedVotingPower ext valSet (cm_BitArray commit) of
                            (_, votesSum, totalVotes, Some err) \<Rightarrow> Ret (Some (CommitTally err))
                          | (_, votesSum, totalVotes, None) \<Rightarrow>
                              (let quorum = Loose23MajorThreshold totalVotes (cm_Round commit) in
                               if quorum \<le> votesSum then Ret None
                               else Ret (Some CommitInsufficientPower)))))"

section \<open>Signature aggregates\<close>

record 'b signAggr =
  sa_ChainID :: string
  sa_Height :: u64
  sa_Round :: int
  sa_Type :: u8
  sa_NumValidators :: int
  sa_BlockID :: blockID
  sa_Maj23 :: blockID
  sa_BitArray :: 'b
  sa_Sum :: int
  sa_SignatureAggr :: "bytes option"
  sa_SignBytes :: bytes

definition SignAggr_WriteSignBytes :: "('b, 'z) ext_scheme \<Rightarrow> string \<Rightarrow> 'b signAggr \<Rightarrow> bytes" where
  "SignAggr_WriteSignBytes ext chainID sa =
     wire_JSON_signAggr ext chainID
       \<lparr>csa_Height = sa_Height sa, csa_Round = sa_Round sa, csa_Type = sa_Type sa,
        csa_NumValidators = sa_NumValidators sa,
        csa_BlockID = CanonicalBlockID (sa_BlockID sa),
        csa_Maj23 = CanonicalBlockID (sa_BlockID sa), csa_Sum = sa_Sum sa\<rparr>"

definition MakeSignAggr ::
    "u64 \<Rightarrow> int \<Rightarrow> u8 \<Rightarrow> int \<Rightarrow> blockID \<Rightarrow> string \<Rightarrow> 'b \<Rightarrow> bytes option \<Rightarrow> 'b signAggr" where
  "MakeSignAggr height round mtype numValidators blockID chainID bitArray signAggr =
     \<lparr>sa_ChainID = chainID, sa_Height = height, sa_Round = round, sa_Type = mtype,
      sa_NumValidators = numValidators, sa_BlockID = blockID, sa_Maj23 = blockID,
      sa_BitArray = bitArray, sa_Sum = 0, sa_SignatureAggr = signAggr, sa_SignBytes = []\<rparr>"

text \<open>A nil receiver is \<open>None\<close>.\<close>

definition SignAggr_SignAggr :: "'b signAggr option \<Rightarrow> bytes option" where
  "SignAggr_SignAggr sa = (case sa of Some sa \<Rightarrow> sa_SignatureAggr sa | None \<Rightarrow> None)"

definition SignAggr_SignRound :: "'b signAggr option \<Rightarrow> int" where
  "SignAggr_SignRound sa = (case sa of None \<Rightarrow> -1 | Some sa \<Rightarrow> sa_Round sa)"

definition SignAggr_HasTwoThirdsMajority ::
    "('b, 'z) ext_scheme \<Rightarrow> 'b signAggr \<Rightarrow> validatorSet option \<Rightarrow> bool" where
  "SignAggr_HasTwoThirdsMajority ext sa valSet =
     (case valSet of
        None \<Rightarrow> False
      | Some valSet \<Rightarrow>
          (case ValidatorSet_TalliedVotingPower ext valSet (sa_BitArray sa) of
             (_, votesSum, totalVotes, Some err) \<Rightarrow> False
           | (_, votesSum, totalVotes, None) \<Rightarrow>
               (let quorum = Loose23MajorThreshold totalVotes (sa_Round sa) in quorum \<le> votesSum)))"

text \<open>
  \<open>SetMaj23\<close> assigns only when the receiver is nil, which is a nil dereference; on every other
  aggregate it does nothing.
\<close>

definition SignAggr_SetMaj23 :: "'b signAggr option \<Rightarrow> blockID \<Rightarrow> 'b signAggr option go" where
  "SignAggr_SetMaj23 sa blockID =
     (if sa = None then Panic ''nil pointer dereference'' else Ret sa)"

definition SignAggr_Size :: "'b signAggr option \<Rightarrow> int" where
  "SignAggr_Size sa = (case sa of None \<Rightarrow> 0 | Some sa \<Rightarrow> sa_NumValidators sa)"

definition SignAggr_IsCommit :: "'b signAggr option \<Rightarrow> bool" where
  "SignAggr_IsCommit sa =
     (case sa of
        None \<Rightarrow> False
      | Some sa \<Rightarrow> if sa_Type sa \<noteq> VoteTypePrecommit then False
                   else BlockID_IsZero (sa_Maj23 sa) \<noteq> False)"

text \<open>A nil \<open>crypto.BLSSignature\<close> (a byte slice) is the empty byte string.\<close>

definition SignAggr_MakeCommit :: "('b, 'z) ext_scheme \<Rightarrow> 'b signAggr \<Rightarrow> 'b commit" where
  "SignAggr_MakeCommit ext sa =
     \<lparr>cm_BlockID = sa_Maj23 sa, cm_Height = sa_Height sa, cm_Round = sa_Round sa,
      cm_SignAggr = (case SignAggr_SignAggr (Some sa) of Some s \<Rightarrow> s | None \<Rightarrow> []),
      cm_BitArray = BA_Copy ext (sa_BitArray sa)\<rparr>"

definition SignAggr_TwoThirdsMajority :: "'b signAggr option \<Rightarrow> blockID \<times> bool" where
  "SignAggr_TwoThirdsMajority sa =
     (case sa of
        None \<Rightarrow> (zeroBlockID, False)
      | Some sa \<Rightarrow> if BlockID_IsZero (sa_Maj23 sa) then (zeroBlockID, False)
                   else (sa_Maj23 sa, True))"

text \<open>\<open>msg == nil\<close> is a missing message.\<close>

definition SignAggr_SignAggrVerify ::
    "('b, 'z) ext_scheme \<Rightarrow> 'b signAggr \<Rightarrow> bytes option \<Rightarrow> validatorSet option \<Rightarrow> bool go" where
  "SignAggr_SignAggrVerify ext sa msg valSet =
     (case (msg, valSet) of
        (Some msg, Some valSet) \<Rightarrow>
          if BA_Size ext (sa_BitArray sa) \<noteq> length (vs_Validators valSet) then Ret False
          else (case ValidatorSet_AggrPubKey ext valSet (sa_BitArray sa) of
                  None \<Rightarrow> Panic ''nil pointer dereference''
                | Some pubKey \<Rightarrow>
                    Ret (VerifyBytes ext pubKey msg
                           (case sa_SignatureAggr sa of Some s \<Rightarrow> s | None \<Rightarrow> []) \<and>
                         SignAggr_HasTwoThirdsMajority ext sa (Some valSet)))
      | _ \<Rightarrow> Ret False)"

definition SignAggr_HasAll :: "'b signAggr \<Rightarrow> validatorSet \<Rightarrow> bool" where
  "SignAggr_HasAll sa valSet \<longleftrightarrow> sa_Sum sa = ValidatorSet_TotalVotingPower valSet"

section \<open>What an accepted commit shows\<close>

text \<open>The signers of a commit, and the quorum they have to reach.\<close>

definition commit_quorum :: "('b, 'z) ext_scheme \<Rightarrow> validatorSet \<Rightarrow> 'b \<Rightarrow> int \<Rightarrow> bool" where
  "commit_quorum ext valSet bits round \<longleftrightarrow>
     Loose23MajorThreshold (totalPower (vs_Validators valSet)) round
       \<le> powerOf (vs_Validators valSet) (bitsOf ext bits)"

lemma HasTwoThirdsMajority_iff:
  "SignAggr_HasTwoThirdsMajority ext sa (Some valSet) \<longleftrightarrow>
     \<not> BA_isNil ext (sa_BitArray sa) \<and> BA_Size ext (sa_BitArray sa) = ValidatorSet_Size valSet \<and>
     commit_quorum ext valSet (sa_BitArray sa) (sa_Round sa)"
proof (cases "\<not> BA_isNil ext (sa_BitArray sa) \<and>
    BA_Size ext (sa_BitArray sa) = ValidatorSet_Size valSet")
  case True
  then show ?thesis
    by (simp add: SignAggr_HasTwoThirdsMajority_def TalliedVotingPower_ok commit_quorum_def)
next
  case False
  then show ?thesis
    by (auto simp: SignAggr_HasTwoThirdsMajority_def ValidatorSet_TalliedVotingPower_def)
qed

lemma VerifyCommit_accepts_iff:
  "ValidatorSet_VerifyCommit ext valSet chainID height (Some c) = Ret None \<longleftrightarrow>
     \<not> BA_isNil ext (cm_BitArray c) \<and> BA_Size ext (cm_BitArray c) = ValidatorSet_Size valSet \<and>
     cm_Height c = height \<and>
     (\<exists>pk. ValidatorSet_AggrPubKey ext valSet (cm_BitArray c) = Some pk \<and>
        VerifyBytes ext pk
          (Vote_SignBytes ext chainID (aggregatedVote (cm_BlockID c) height (cm_Round c)
             VoteTypePrecommit)) (cm_SignAggr c)) \<and>
     commit_quorum ext valSet (cm_BitArray c) (cm_Round c)"
proof (cases "\<not> BA_isNil ext (cm_BitArray c) \<and> BA_Size ext (cm_BitArray c) = ValidatorSet_Size valSet")
  case True
  then show ?thesis
    by (auto simp: ValidatorSet_VerifyCommit_def Let_def Commit_Type_def TalliedVotingPower_ok
        commit_quorum_def split: option.splits)
next
  case False
  then show ?thesis
    by (auto simp: ValidatorSet_VerifyCommit_def ValidatorSet_AggrPubKey_def Let_def
        split: option.splits)
qed

end
