(* ===== verification/Vote_Collector.thy ===== *)
theory Vote_Collector
  imports Vote_Invariant
begin

text \<open>
  The interface through which the height vote set and the consensus state use a vote set: a
  collector that counts voters per block and decides at most one block, namely one whose voters
  reach the quorum. The laws are proved for \<open>VoteSet\<close> (\<open>AddVote\<close> and \<open>SetPeerMaj23\<close>), the
  consequences for any sequence of operations are proved once in the locale. The section on
  properties states them for the code.
\<close>

section \<open>The interface\<close>

locale vote_collector =
  fixes good :: "'s \<Rightarrow> bool"
    and step :: "'s \<Rightarrow> 's \<Rightarrow> bool"
    and counted_for :: "'s \<Rightarrow> 'k \<Rightarrow> nat set"
    and decided :: "'s \<Rightarrow> 'k option"
    and power :: "'s \<Rightarrow> nat set \<Rightarrow> int"
    and quorum :: "'s \<Rightarrow> int"
  assumes good_step: "good s \<Longrightarrow> step s s' \<Longrightarrow> good s'"
    and config_step: "good s \<Longrightarrow> step s s' \<Longrightarrow> power s' = power s \<and> quorum s' = quorum s"
    and decided_step: "good s \<Longrightarrow> step s s' \<Longrightarrow> decided s = Some k \<Longrightarrow> decided s' = Some k"
    and counted_step: "good s \<Longrightarrow> step s s' \<Longrightarrow> counted_for s k \<subseteq> counted_for s' k"
    and decided_quorum: "good s \<Longrightarrow> decided s = Some k \<Longrightarrow> quorum s \<le> power s (counted_for s k)"
    and undecided: "good s \<Longrightarrow> decided s = None \<Longrightarrow> power s (counted_for s k) < quorum s"
begin

lemma steps_good: "step\<^sup>*\<^sup>* s s' \<Longrightarrow> good s \<Longrightarrow> good s'"
  by (induction rule: rtranclp_induct) (auto dest: good_step)

lemma steps_config:
  "step\<^sup>*\<^sup>* s s' \<Longrightarrow> good s \<Longrightarrow> power s' = power s \<and> quorum s' = quorum s"
proof (induction rule: rtranclp_induct)
  case (step t u)
  then show ?case using config_step [OF steps_good [OF step.hyps(1)] step.hyps(2)] by simp
qed simp

lemma steps_counted: "step\<^sup>*\<^sup>* s s' \<Longrightarrow> good s \<Longrightarrow> counted_for s k \<subseteq> counted_for s' k"
proof (induction rule: rtranclp_induct)
  case (step t u)
  then show ?case using counted_step [OF steps_good [OF step.hyps(1)]] by blast
qed simp

lemma steps_decided: "step\<^sup>*\<^sup>* s s' \<Longrightarrow> good s \<Longrightarrow> decided s = Some k \<Longrightarrow> decided s' = Some k"
  by (induction rule: rtranclp_induct) (auto dest: decided_step steps_good)

lemma decision_is_final:
  assumes "good s" "step\<^sup>*\<^sup>* s s'" "decided s = Some k"
  shows "decided s' = Some k \<and> quorum s \<le> power s (counted_for s' k)"
proof -
  have "decided s' = Some k" "good s'"
    using assms steps_decided steps_good by blast+
  with decided_quorum steps_config [OF assms(2,1)] show ?thesis by fastforce
qed

lemma quorum_decides:
  assumes "good s" "step\<^sup>*\<^sup>* s s'" "quorum s \<le> power s (counted_for s' k)"
  shows "decided s' \<noteq> None"
proof
  assume "decided s' = None"
  from undecided [OF steps_good [OF assms(2,1)] this, of k] steps_config [OF assms(2,1)] assms(3)
  show False by simp
qed

end

section \<open>The vote set as a collector\<close>

text \<open>The operations that change a vote set.\<close>

inductive voteSet_step :: "('b, 'z) ext_scheme \<Rightarrow> 'b voteSet \<Rightarrow> 'b voteSet \<Rightarrow> bool" for ext where
  AddVote: "VoteSet_AddVote ext vs v = Ret (vs', added, err) \<Longrightarrow> voteSet_step ext vs vs'"
| SetPeerMaj23: "voteSet_step ext vs (VoteSet_SetPeerMaj23 ext vs peer b)"

lemma voteSet_step_vote_step:
  assumes "voteSet_step ext vs vs'" "bitArray_laws ext" "voteSet_inv ext vs"
  shows "\<exists>i key added. vote_step ext vs i key added vs'"
  using assms
proof cases
  case (AddVote v added err)
  then show ?thesis using AddVote_outcome [OF assms(3,2) refl] by blast
next
  case (SetPeerMaj23 peer b)
  then show ?thesis using SetPeerMaj23_step [OF assms(2,3)] by blast
qed

lemma inv_decided:
  assumes inv: "voteSet_inv ext vs"
  shows "vset_maj23 vs = Some b \<Longrightarrow> vset_quorum vs \<le> powerOf (vset_vals vs) (counted vs (BlockID_Key ext b))"
    and "vset_maj23 vs = None \<Longrightarrow> powerOf (vset_vals vs) (counted vs key) < vset_quorum vs"
proof -
  have sum: "bv_sum bv = powerOf (vset_vals vs) (counted vs k)"
    if "vset_votesByBlock vs k = Some bv" for k bv
    using inv that by (auto simp: voteSet_inv_def blockVotes_inv_def counted_def)
  have m: "maj23_inv ext vs" "powers_nonneg (vset_valSet vs)"
    using inv by (auto simp: voteSet_inv_def)
  show "vset_quorum vs \<le> powerOf (vset_vals vs) (counted vs (BlockID_Key ext b))"
    if "vset_maj23 vs = Some b"
    using m that sum by (auto simp: maj23_inv_def)
  show "powerOf (vset_vals vs) (counted vs key) < vset_quorum vs" if "vset_maj23 vs = None"
  proof (cases "vset_votesByBlock vs key")
    case None
    then show ?thesis using vset_quorum_pos [OF m(2)] by (simp add: counted_def)
  next
    case (Some bv)
    have "bv_sum bv < vset_quorum vs" using m(1) that Some by (simp add: maj23_inv_def)
    then show ?thesis using sum [OF Some] by simp
  qed
qed

interpretation vc: vote_collector
  "\<lambda>vs. bitArray_laws ext \<and> voteSet_inv ext vs"
  "voteSet_step ext"
  counted
  "\<lambda>vs. map_option (BlockID_Key ext) (vset_maj23 vs)"
  "\<lambda>vs. powerOf (vset_vals vs)"
  vset_quorum
  for ext :: "('b, 'z) ext_scheme"
proof
  fix s s' :: "'b voteSet" and k
  assume g: "bitArray_laws ext \<and> voteSet_inv ext s" and st: "voteSet_step ext s s'"
  then obtain i key added where vs: "vote_step ext s i key added s'"
    using voteSet_step_vote_step by blast
  then show "bitArray_laws ext \<and> voteSet_inv ext s'" and "counted s k \<subseteq> counted s' k"
    using g by (auto simp: vote_step_def)
  show "powerOf (vset_vals s') = powerOf (vset_vals s) \<and> vset_quorum s' = vset_quorum s"
    using vs by (simp add: vote_step_def same_step_def vset_quorum_def vset_vals_def)
  show "map_option (BlockID_Key ext) (vset_maj23 s) = Some k \<Longrightarrow>
      map_option (BlockID_Key ext) (vset_maj23 s') = Some k"
    using vs by (auto simp: vote_step_def)
next
  fix s :: "'b voteSet" and k
  assume g: "bitArray_laws ext \<and> voteSet_inv ext s"
  show "map_option (BlockID_Key ext) (vset_maj23 s) = Some k \<Longrightarrow>
      vset_quorum s \<le> powerOf (vset_vals s) (counted s k)"
    using inv_decided(1) g by auto
  show "map_option (BlockID_Key ext) (vset_maj23 s) = None \<Longrightarrow>
      powerOf (vset_vals s) (counted s k) < vset_quorum s"
    using inv_decided(2) g by auto
qed

section \<open>Voters behind a decision\<close>

text \<open>A counted position carries a verified vote for the block.\<close>

lemma counted_signed:
  assumes inv: "voteSet_inv ext vs" and i: "i \<in> counted vs key"
  shows "i < length (vset_vals vs) \<and> (\<exists>v. vote_matches ext vs i v \<and> BlockID_Key ext (vote_BlockID v) = key)"
proof -
  from i obtain bv where bv: "vset_votesByBlock vs key = Some bv" and v: "i \<in> voters (bv_votes bv)"
    by (auto simp: counted_def split: option.splits)
  with inv have b: "blockVotes_inv ext vs key bv" by (auto simp: voteSet_inv_def)
  from v obtain w where w: "i < length (bv_votes bv)" "bv_votes bv ! i = Some w"
    by (auto simp: voters_def)
  with b have "i < length (vset_vals vs)" by (simp add: blockVotes_inv_def)
  with b w(2) show ?thesis unfolding blockVotes_inv_def by blast
qed

lemma TwoThirdsMajority_iff:
  "VoteSet_TwoThirdsMajority (Some vs) = (b, True) \<longleftrightarrow> vset_maj23 vs = Some b"
  by (auto simp: VoteSet_TwoThirdsMajority_def split: option.splits)

lemma counted_subset: "voteSet_inv ext vs \<Longrightarrow> counted vs key \<subseteq> {..<length (vset_vals vs)}"
  using counted_signed by blast

text \<open>Feeding votes one after the other; the first panic ends the run.\<close>

fun addVotes :: "('b, 'z) ext_scheme \<Rightarrow> 'b voteSet \<Rightarrow> vote list \<Rightarrow> 'b voteSet go" where
  "addVotes ext vs [] = Ret vs"
| "addVotes ext vs (v # rest) = bindGo (VoteSet_AddVote ext vs v) (\<lambda>(vs', _, _). addVotes ext vs' rest)"

lemma addVotes_steps: "addVotes ext vs votes = Ret vs' \<Longrightarrow> (voteSet_step ext)\<^sup>*\<^sup>* vs vs'"
proof (induction votes arbitrary: vs)
  case (Cons v rest)
  then obtain vs1 added err where "VoteSet_AddVote ext vs v = Ret (vs1, added, err)"
    and r: "addVotes ext vs1 rest = Ret vs'"
    by (auto simp: bindGo_Ret_iff)
  then have "voteSet_step ext vs vs1" by (blast intro: voteSet_step.AddVote)
  with Cons.IH [OF r] show ?case by simp
qed simp

text \<open>A valid vote of a validator that has no vote in the set yet is counted.\<close>

lemma AddVote_fresh:
  assumes laws: "bitArray_laws ext" and inv: "voteSet_inv ext vs"
    and i: "unat (vote_ValidatorIndex v) = i" "i < length (vset_vals vs)"
    and addr: "vote_ValidatorAddress v \<noteq> []" and m: "vote_matches ext vs i v"
    and free: "vset_votes vs ! i = None"
  shows "\<exists>vs'. VoteSet_AddVote ext vs v = Ret (vs', True, None) \<and>
     vote_step ext vs i (BlockID_Key ext (vote_BlockID v)) True vs'"
proof -
  let ?k = "BlockID_Key ext (vote_BlockID v)"
  have len: "length (vset_votes vs) = length (vset_vals vs)"
    using inv by (simp add: voteSet_inv_def)
  have "blockVotes_getByIndex (vset_votesByBlock vs ?k) i = Ret None"
  proof (cases "vset_votesByBlock vs ?k")
    case None
    then show ?thesis by (simp add: blockVotes_getByIndex_def)
  next
    case (Some bv)
    then have b: "length (bv_votes bv) = length (vset_vals vs)"
      "voters (bv_votes bv) \<subseteq> voters (vset_votes vs)"
      using inv by (auto simp: voteSet_inv_def blockVotes_inv_def)
    then have "bv_votes bv ! i = None"
      using i free by (auto simp: voters_def)
    with Some b i show ?thesis by (simp add: blockVotes_getByIndex_def)
  qed
  then have g: "VoteSet_getVote ext vs i ?k = Ret None"
    using i len free by (simp add: VoteSet_getVote_def)
  have "step_matches vs v" "vote_ValidatorAddress v = val_Address (vset_vals vs ! i)"
    "VerifyBytes ext (val_PubKey (vset_vals vs ! i)) (Vote_SignBytes ext (vset_chainID vs) v) (vote_Signature v)"
    using m by (auto simp: vote_matches_def step_matches_def)
  from AddVote_unfold [OF inv laws addr this(1) i(1) [symmetric] i(2) this(2) g this(3)] free
  show ?thesis by auto
qed

end
