(* ===== verification/Vote_Theorems.thy ===== *)
theory Vote_Theorems
  imports Vote_Collector
begin

text \<open>
  The properties of the vote set: soundness of \<open>AddVote\<close>, exactness and finality of the +2/3
  decision, the double votes behind two conflicting decisions, and that a quorum of valid votes
  is enough for a decision. The concrete validator set and votes at the beginning are the inputs
  of the witnesses.
\<close>

section \<open>Concrete inputs\<close>

definition demo_validators :: validatorSet where
  "demo_validators = NewValidatorSet
     [NewValidator [1] [11] 10, NewValidator [2] [12] 10, NewValidator [3] [13] 10,
      NewValidator [4] [14] 10]"

definition demo_blockID :: blockID where
  "demo_blockID = \<lparr>bid_Hash = [7], bid_PartsHeader = \<lparr>psh_Total = 1, psh_Hash = [9]\<rparr>\<rparr>"

definition demo_vote :: "u8 \<Rightarrow> vote" where
  "demo_vote i =
     \<lparr>vote_ValidatorAddress = [i + 1], vote_ValidatorIndex = ucast i, vote_Height = 5,
      vote_Round = 0, vote_Type = VoteTypePrevote, vote_BlockID = demo_blockID,
      vote_Signature = [i + 11, 5, 0, 1, 7], vote_SignBytes = []\<rparr>"

definition demo_voteSet :: "bool list option voteSet" where
  "demo_voteSet =
     (case NewVoteSet demo_ext ''chain'' 5 0 VoteTypePrevote demo_validators of Ret vs \<Rightarrow> vs)"

definition demo_votes :: "vote list" where
  "demo_votes = [demo_vote 0, demo_vote 2, demo_vote 1]"

lemma demo_NewVoteSet:
  "NewVoteSet demo_ext ''chain'' 5 0 VoteTypePrevote demo_validators = Ret demo_voteSet"
  by (simp add: demo_voteSet_def NewVoteSet_def)

lemma demo_validators_nonneg: "powers_nonneg demo_validators"
  by code_simp

lemmas demo_inv = NewVoteSet_inv [OF demo_ext_laws demo_validators_nonneg demo_NewVoteSet]

text \<open>Membership in the set of counted voters, and the returned state of a run, as booleans.\<close>

lemma demo_AddVote:
  "\<exists>vs'. VoteSet_AddVote demo_ext demo_voteSet (demo_vote 0) = Ret (vs', True, None)"
proof -
  have "(case VoteSet_AddVote demo_ext demo_voteSet (demo_vote 0) of
      Ret (_, added, err) \<Rightarrow> added \<and> err = None | Panic _ \<Rightarrow> False)"
    by code_simp
  then show ?thesis by (auto split: go.splits)
qed

lemma demo_addVotes:
  "\<exists>vs'. addVotes demo_ext demo_voteSet demo_votes = Ret vs' \<and>
     VoteSet_TwoThirdsMajority (Some vs') = (demo_blockID, True)"
proof -
  have "(case addVotes demo_ext demo_voteSet demo_votes of
      Ret vs' \<Rightarrow> VoteSet_TwoThirdsMajority (Some vs') = (demo_blockID, True) | Panic _ \<Rightarrow> False)"
    by code_simp
  then show ?thesis by (auto split: go.splits)
qed

section \<open>Lemmas for the properties\<close>

lemma reachable_inv:
  assumes "bitArray_laws ext" "powers_nonneg valSet"
    and "NewVoteSet ext chainID height round type valSet = Ret vs0" "(voteSet_step ext)\<^sup>*\<^sup>* vs0 vs"
  shows "voteSet_inv ext vs" and "same_step vs0 vs"
proof -
  have inv0: "voteSet_inv ext vs0" by (rule NewVoteSet_inv [OF assms(1-3)])
  with vc.steps_good [OF assms(4)] assms(1) show "voteSet_inv ext vs" by blast
  from assms(4) show "same_step vs0 vs"
  proof (induction rule: rtranclp_induct)
    case base
    show ?case by (simp add: same_step_def)
  next
    case (step t u)
    have "voteSet_inv ext t" using vc.steps_good [OF step.hyps(1)] assms(1) inv0 by blast
    with voteSet_step_vote_step [OF step.hyps(2) assms(1)] have "same_step t u"
      by (auto simp: vote_step_def)
    with step.IH show ?case by (simp add: same_step_def)
  qed
qed

lemma NewVoteSet_fields:
  "NewVoteSet ext chainID height round type valSet = Ret vs \<Longrightarrow>
   vset_chainID vs = chainID \<and> vset_height vs = height \<and> vset_round vs = round \<and>
   vset_type vs = type \<and> vset_valSet vs = valSet"
  by (auto simp: NewVoteSet_def split: if_splits)

lemma NewVoteSet_empty:
  "NewVoteSet ext chainID height round type valSet = Ret vs \<Longrightarrow>
   counted vs key = {} \<and> vset_votes vs = replicate (ValidatorSet_Size valSet) None \<and> vset_maj23 vs = None"
  by (auto simp: NewVoteSet_def counted_def split: if_splits)

text \<open>The signed vote of validator \<open>i\<close> that a set of one step accepts.\<close>

definition signed_vote ::
    "('b, 'z) ext_scheme \<Rightarrow> string \<Rightarrow> validatorSet \<Rightarrow> u64 \<Rightarrow> int \<Rightarrow> u8 \<Rightarrow> nat \<Rightarrow> vote \<Rightarrow> bool" where
  "signed_vote ext chainID valSet height round type i v \<longleftrightarrow>
     i < length (vs_Validators valSet) \<and> unat (vote_ValidatorIndex v) = i \<and>
     vote_Height v = height \<and> sint (vote_Round v) = round \<and> vote_Type v = type \<and>
     vote_ValidatorAddress v = val_Address (vs_Validators valSet ! i) \<and>
     VerifyBytes ext (val_PubKey (vs_Validators valSet ! i)) (Vote_SignBytes ext chainID v)
       (vote_Signature v)"

lemma reachable_counted:
  assumes "bitArray_laws ext" "powers_nonneg valSet"
    and "NewVoteSet ext chainID height round type valSet = Ret vs0" "(voteSet_step ext)\<^sup>*\<^sup>* vs0 vs"
    and "i \<in> counted vs key"
  shows "\<exists>v. signed_vote ext chainID valSet height round type i v \<and>
     BlockID_Key ext (vote_BlockID v) = key"
  using counted_signed [OF reachable_inv(1) [OF assms(1-4)] assms(5)] NewVoteSet_fields [OF assms(3)]
    reachable_inv(2) [OF assms(1-4)]
  by (auto simp: signed_vote_def vote_matches_def same_step_def vset_vals_def)

lemma reachable_decided:
  assumes "bitArray_laws ext" "powers_nonneg valSet"
    and "NewVoteSet ext chainID height round type valSet = Ret vs0" "(voteSet_step ext)\<^sup>*\<^sup>* vs0 vs"
    and "VoteSet_TwoThirdsMajority (Some vs) = (b, True)"
  shows "Loose23MajorThreshold (totalPower (vs_Validators valSet)) round
           \<le> powerOf (vs_Validators valSet) (counted vs (BlockID_Key ext b))"
  using inv_decided(1) [OF reachable_inv(1) [OF assms(1-4)], of b] assms(5)
    reachable_inv(2) [OF assms(1-4)] NewVoteSet_fields [OF assms(3)]
  by (simp add: TwoThirdsMajority_iff same_step_def vset_quorum_def vset_vals_def)

text \<open>Voters after a fresh vote: exactly one more.\<close>

lemma AddVote_voters:
  assumes laws: "bitArray_laws ext" and inv: "voteSet_inv ext vs"
    and r: "VoteSet_AddVote ext vs v = Ret (vs', True, None)"
  shows "voters (vset_votes vs') \<subseteq> insert (unat (vote_ValidatorIndex v)) (voters (vset_votes vs))"
proof -
  let ?i = "unat (vote_ValidatorIndex v)"
  from AddVote_outcome [OF inv laws refl r] have inv': "voteSet_inv ext vs'"
    and i: "?i < length (vset_vals vs)"
    by (auto simp: vote_step_def)
  from r obtain p where "VoteSet_addVerifiedVote ext vs v (BlockID_Key ext (vote_BlockID v)) p
      = Ret (vs', True, None)"
    by (auto simp: VoteSet_AddVote_def Let_def bindGo_Ret_iff split: if_splits option.splits)
  from addVerifiedVote_bits [OF this] inv inv' i laws show ?thesis
    by (auto simp: voteSet_inv_def bitsOf_Set)
qed

lemma addVotes_all:
  assumes "bitArray_laws ext" "voteSet_inv ext vs"
    and "distinct (map (\<lambda>v. unat (vote_ValidatorIndex v)) votes)"
    and "\<forall>v\<in>set votes. vote_ValidatorAddress v \<noteq> [] \<and> BlockID_Key ext (vote_BlockID v) = key \<and>
           unat (vote_ValidatorIndex v) < length (vset_vals vs) \<and>
           unat (vote_ValidatorIndex v) \<notin> voters (vset_votes vs) \<and>
           vote_matches ext vs (unat (vote_ValidatorIndex v)) v"
  shows "\<exists>vs'. addVotes ext vs votes = Ret vs' \<and>
     counted vs' key = counted vs key \<union> (\<lambda>v. unat (vote_ValidatorIndex v)) ` set votes \<and>
     (\<forall>k. k \<noteq> key \<longrightarrow> counted vs' k = counted vs k)"
  using assms(2-)
proof (induction votes arbitrary: vs)
  case (Cons v rest)
  let ?i = "unat (vote_ValidatorIndex v)"
  have free: "vset_votes vs ! ?i = None"
    using Cons.prems by (auto simp: voteSet_inv_def voters_def)
  from AddVote_fresh [OF assms(1) Cons.prems(1) refl _ _ _ free] Cons.prems(3)
  obtain vs1 where a: "VoteSet_AddVote ext vs v = Ret (vs1, True, None)"
    and st: "vote_step ext vs ?i key True vs1"
    by auto
  have inv1: "voteSet_inv ext vs1" and same: "same_step vs vs1"
    using st by (auto simp: vote_step_def)
  have vals: "vset_vals vs1 = vset_vals vs" using same by (simp add: same_step_def vset_vals_def)
  have m: "vote_matches ext vs1 j w = vote_matches ext vs j w" for j w
    using same by (simp add: vote_matches_def same_step_def vset_vals_def)
  have out: "unat (vote_ValidatorIndex w) \<notin> voters (vset_votes vs1)" if "w \<in> set rest" for w
  proof -
    have "?i \<notin> (\<lambda>v. unat (vote_ValidatorIndex v)) ` set rest" using Cons.prems(2) by simp
    with imageI [OF that, of "\<lambda>v. unat (vote_ValidatorIndex v)"]
    have "unat (vote_ValidatorIndex w) \<noteq> ?i" by metis
    moreover have "unat (vote_ValidatorIndex w) \<notin> voters (vset_votes vs)"
      using Cons.prems(3) that by simp
    ultimately show ?thesis using AddVote_voters [OF assms(1) Cons.prems(1) a] by blast
  qed
  have "\<exists>vs'. addVotes ext vs1 rest = Ret vs' \<and>
     counted vs' key = counted vs1 key \<union> (\<lambda>v. unat (vote_ValidatorIndex v)) ` set rest \<and>
     (\<forall>k. k \<noteq> key \<longrightarrow> counted vs' k = counted vs1 k)"
    by (rule Cons.IH [OF inv1]) (use Cons.prems(2,3) out in \<open>simp_all add: vals m\<close>)
  with a st show ?case by (auto simp: vote_step_def)
qed simp

section \<open>Properties\<close>

text \<open>
  C15: a vote that \<open>AddVote\<close> accepts is a correctly signed vote of the validator at its index for
  the height, round and type of the set that was not counted for its block before; it is counted
  once. A vote that is not accepted changes no count. Either way the invariant of the set holds
  and a +2/3 majority that was there stays.
\<close>

theorem AddVote_sound:
  assumes "bitArray_laws ext" "voteSet_inv ext vs"
    and "VoteSet_AddVote ext vs v = Ret (vs', added, err)"
  shows "voteSet_inv ext vs' \<and>
    (\<forall>b. VoteSet_TwoThirdsMajority (Some vs) = (b, True) \<longrightarrow>
         VoteSet_TwoThirdsMajority (Some vs') = (b, True)) \<and>
    (\<forall>key. counted vs' key =
       (if added \<and> key = BlockID_Key ext (vote_BlockID v)
        then insert (unat (vote_ValidatorIndex v)) (counted vs key) else counted vs key)) \<and>
    (added \<longrightarrow>
       signed_vote ext (vset_chainID vs) (vset_valSet vs) (vset_height vs) (vset_round vs)
         (vset_type vs) (unat (vote_ValidatorIndex v)) v \<and>
       unat (vote_ValidatorIndex v) \<notin> counted vs (BlockID_Key ext (vote_BlockID v)))"
  using AddVote_outcome [OF assms(2,1) refl assms(3)]
  by (auto simp: TwoThirdsMajority_iff vote_step_def signed_vote_def vote_matches_def vset_vals_def)

theorem AddVote_sound_witness:
  "\<exists>vs'. VoteSet_AddVote demo_ext demo_voteSet (demo_vote 0) = Ret (vs', True, None) \<and>
     voteSet_inv demo_ext vs' \<and> 0 \<in> counted vs' (BlockID_Key demo_ext demo_blockID)"
proof -
  obtain vs' where r: "VoteSet_AddVote demo_ext demo_voteSet (demo_vote 0) = Ret (vs', True, None)"
    using demo_AddVote by blast
  have "unat (vote_ValidatorIndex (demo_vote 0)) = 0" "vote_BlockID (demo_vote 0) = demo_blockID"
    by (simp_all add: demo_vote_def)
  with r AddVote_sound [OF demo_ext_laws demo_inv r] show ?thesis by simp
qed

text \<open>
  \<open>AddVote\<close> returns, instead of panicking, exactly when the vote carries an address and,
  if its height, round and type are those of the set, its index is inside the validator set.
\<close>

theorem AddVote_returns:
  assumes "bitArray_laws ext" "voteSet_inv ext vs"
  shows "returns (VoteSet_AddVote ext vs v) \<longleftrightarrow>
     vote_ValidatorAddress v \<noteq> [] \<and>
     (vote_Height v = vset_height vs \<and> sint (vote_Round v) = vset_round vs \<and>
      vote_Type v = vset_type vs \<longrightarrow>
      unat (vote_ValidatorIndex v) < length (vs_Validators (vset_valSet vs)))"
  using AddVote_returns_iff [OF assms(2,1)] by (simp add: step_matches_def vset_vals_def)

theorem AddVote_returns_witness:
  "returns (VoteSet_AddVote demo_ext demo_voteSet (demo_vote 3)) \<and>
   \<not> returns (VoteSet_AddVote demo_ext demo_voteSet (demo_vote 4))"
proof -
  have "vote_ValidatorAddress (demo_vote 3) \<noteq> [] \<and>
      unat (vote_ValidatorIndex (demo_vote 3)) < length (vs_Validators (vset_valSet demo_voteSet))"
    "vote_Height (demo_vote 4) = vset_height demo_voteSet \<and>
      sint (vote_Round (demo_vote 4)) = vset_round demo_voteSet \<and>
      vote_Type (demo_vote 4) = vset_type demo_voteSet \<and>
      \<not> unat (vote_ValidatorIndex (demo_vote 4)) < length (vs_Validators (vset_valSet demo_voteSet))"
    by code_simp+
  then show ?thesis
    using AddVote_returns [OF demo_ext_laws demo_inv, of "demo_vote 3"]
      AddVote_returns [OF demo_ext_laws demo_inv, of "demo_vote 4"]
    by simp
qed

text \<open>
  C14: the decision of a vote set is exact and final. A reachable set reports a +2/3 majority
  exactly when the voting power of the validators counted for one block reaches
  \<open>Loose23MajorThreshold\<close>; the reported block is such a block, every counted validator has signed
  a vote for it, and no later operation changes the report.
\<close>

theorem TwoThirdsMajority_exact:
  assumes "bitArray_laws ext" "powers_nonneg valSet"
    and "NewVoteSet ext chainID height round type valSet = Ret vs0" "(voteSet_step ext)\<^sup>*\<^sup>* vs0 vs"
  shows "(VoteSet_HasTwoThirdsMajority (Some vs) \<longleftrightarrow>
       (\<exists>key. Loose23MajorThreshold (totalPower (vs_Validators valSet)) round
                \<le> powerOf (vs_Validators valSet) (counted vs key))) \<and>
    (\<forall>b. VoteSet_TwoThirdsMajority (Some vs) = (b, True) \<longrightarrow>
       Loose23MajorThreshold (totalPower (vs_Validators valSet)) round
         \<le> powerOf (vs_Validators valSet) (counted vs (BlockID_Key ext b)) \<and>
       (\<forall>i\<in>counted vs (BlockID_Key ext b). \<exists>v.
          signed_vote ext chainID valSet height round type i v \<and>
          BlockID_Key ext (vote_BlockID v) = BlockID_Key ext b) \<and>
       (\<forall>vs'. (voteSet_step ext)\<^sup>*\<^sup>* vs vs' \<longrightarrow>
          (\<exists>b'. VoteSet_TwoThirdsMajority (Some vs') = (b', True) \<and>
                BlockID_Key ext b' = BlockID_Key ext b)))"
proof -
  have good: "bitArray_laws ext \<and> voteSet_inv ext vs"
    using assms(1) reachable_inv(1) [OF assms] by blast
  have q: "vset_quorum vs = Loose23MajorThreshold (totalPower (vs_Validators valSet)) round"
    "vset_vals vs = vs_Validators valSet"
    using reachable_inv(2) [OF assms] NewVoteSet_fields [OF assms(3)]
    by (simp_all add: same_step_def vset_quorum_def vset_vals_def)
  have "VoteSet_HasTwoThirdsMajority (Some vs) \<longleftrightarrow>
      (\<exists>key. vset_quorum vs \<le> powerOf (vset_vals vs) (counted vs key))"
    using vc.decided_quorum [OF good] vc.quorum_decides [OF good rtranclp.rtrancl_refl]
    by (fastforce simp: VoteSet_HasTwoThirdsMajority_def)
  moreover have "\<exists>b'. VoteSet_TwoThirdsMajority (Some vs') = (b', True) \<and> BlockID_Key ext b' = BlockID_Key ext b"
    if "VoteSet_TwoThirdsMajority (Some vs) = (b, True)" "(voteSet_step ext)\<^sup>*\<^sup>* vs vs'" for b vs'
    using vc.decision_is_final [OF good that(2), of "BlockID_Key ext b"] that(1)
    by (auto simp: TwoThirdsMajority_iff)
  ultimately show ?thesis
    using reachable_decided [OF assms] reachable_counted [OF assms] unfolding q by blast
qed

theorem TwoThirdsMajority_exact_witness:
  "\<exists>vs. addVotes demo_ext demo_voteSet demo_votes = Ret vs \<and>
     VoteSet_TwoThirdsMajority (Some vs) = (demo_blockID, True) \<and>
     27 \<le> powerOf (vs_Validators demo_validators) (counted vs (BlockID_Key demo_ext demo_blockID))"
proof -
  obtain vs where vs: "addVotes demo_ext demo_voteSet demo_votes = Ret vs"
      "VoteSet_TwoThirdsMajority (Some vs) = (demo_blockID, True)"
    using demo_addVotes by blast
  have "Loose23MajorThreshold (totalPower (vs_Validators demo_validators)) 0
     \<le> powerOf (vs_Validators demo_validators) (counted vs (BlockID_Key demo_ext demo_blockID))"
    using TwoThirdsMajority_exact [OF demo_ext_laws demo_validators_nonneg demo_NewVoteSet
        addVotes_steps [OF vs(1)]] vs(2) by blast
  moreover have "Loose23MajorThreshold (totalPower (vs_Validators demo_validators)) 0 = 27"
    by code_simp
  ultimately show ?thesis using vs by simp
qed

text \<open>
  C13: two vote sets of the same height, type and validators, for example of two nodes, that
  decide blocks \<open>b\<close> and \<open>b'\<close> in rounds \<open>r\<close> and \<open>r'\<close> share validators with positive voting power
  that signed votes for both; in round 0 these validators hold more than a third of the power.
  So two different blocks are decided only when that many validators voted twice.
\<close>

theorem decisions_share_signers:
  assumes laws: "bitArray_laws ext" and nn: "powers_nonneg valSet"
    and n1: "NewVoteSet ext chainID height r type valSet = Ret vs0"
    and s1: "(voteSet_step ext)\<^sup>*\<^sup>* vs0 vs"
    and m1: "VoteSet_TwoThirdsMajority (Some vs) = (b, True)"
    and n2: "NewVoteSet ext chainID height r' type valSet = Ret vs0'"
    and s2: "(voteSet_step ext)\<^sup>*\<^sup>* vs0' vs'"
    and m2: "VoteSet_TwoThirdsMajority (Some vs') = (b', True)"
  shows "\<exists>E. E \<subseteq> {..<length (vs_Validators valSet)} \<and>
     0 < powerOf (vs_Validators valSet) E \<and>
     (r = 0 \<and> r' = 0 \<longrightarrow> totalPower (vs_Validators valSet) < 3 * powerOf (vs_Validators valSet) E) \<and>
     (\<forall>i\<in>E. (\<exists>v. signed_vote ext chainID valSet height r type i v \<and>
                 BlockID_Key ext (vote_BlockID v) = BlockID_Key ext b) \<and>
            (\<exists>v. signed_vote ext chainID valSet height r' type i v \<and>
                 BlockID_Key ext (vote_BlockID v) = BlockID_Key ext b'))"
proof -
  let ?vals = "vs_Validators valSet"
  let ?S = "counted vs (BlockID_Key ext b)" and ?T = "counted vs' (BlockID_Key ext b')"
  have sub: "?S \<subseteq> {..<length ?vals}" "?T \<subseteq> {..<length ?vals}"
    using reachable_counted [OF laws nn n1 s1] reachable_counted [OF laws nn n2 s2]
    by (auto simp: signed_vote_def)
  note q = reachable_decided [OF laws nn n1 s1 m1] reachable_decided [OF laws nn n2 s2 m2]
  note ov = quorums_overlap [OF nn sub q]
  show ?thesis
    using sub ov reachable_counted [OF laws nn n1 s1] reachable_counted [OF laws nn n2 s2]
    by (intro exI [of _ "?S \<inter> ?T"]) blast
qed

theorem decisions_share_signers_witness:
  "\<exists>E. totalPower (vs_Validators demo_validators) < 3 * powerOf (vs_Validators demo_validators) E"
proof -
  obtain vs where vs: "addVotes demo_ext demo_voteSet demo_votes = Ret vs"
      "VoteSet_TwoThirdsMajority (Some vs) = (demo_blockID, True)"
    using demo_addVotes by blast
  note st = addVotes_steps [OF vs(1)]
  from decisions_share_signers [OF demo_ext_laws demo_validators_nonneg demo_NewVoteSet st vs(2)
      demo_NewVoteSet st vs(2)]
  show ?thesis by blast
qed

text \<open>
  C16: a quorum is enough. When validators that together reach the threshold send one correctly
  signed vote each for the same block to a fresh vote set, in any order, every vote is processed
  without a panic and the set ends with a +2/3 majority for that block.
\<close>

theorem quorum_of_votes_decides:
  assumes laws: "bitArray_laws ext" and nn: "powers_nonneg valSet"
    and new: "NewVoteSet ext chainID height round type valSet = Ret vs0"
    and votes: "\<forall>v\<in>set votes. vote_ValidatorAddress v \<noteq> [] \<and> BlockID_Key ext (vote_BlockID v) = key \<and>
       signed_vote ext chainID valSet height round type (unat (vote_ValidatorIndex v)) v"
    and dist: "distinct (map (\<lambda>v. unat (vote_ValidatorIndex v)) votes)"
    and q: "Loose23MajorThreshold (totalPower (vs_Validators valSet)) round
              \<le> powerOf (vs_Validators valSet) ((\<lambda>v. unat (vote_ValidatorIndex v)) ` set votes)"
  shows "\<exists>vs b. addVotes ext vs0 votes = Ret vs \<and> VoteSet_TwoThirdsMajority (Some vs) = (b, True) \<and>
     BlockID_Key ext b = key"
proof -
  have inv: "voteSet_inv ext vs0" by (rule NewVoteSet_inv [OF laws nn new])
  note f = NewVoteSet_fields [OF new] and e = NewVoteSet_empty [OF new]
  have "\<forall>v\<in>set votes. vote_ValidatorAddress v \<noteq> [] \<and> BlockID_Key ext (vote_BlockID v) = key \<and>
      unat (vote_ValidatorIndex v) < length (vset_vals vs0) \<and>
      unat (vote_ValidatorIndex v) \<notin> voters (vset_votes vs0) \<and>
      vote_matches ext vs0 (unat (vote_ValidatorIndex v)) v"
    using votes f e by (auto simp: signed_vote_def vote_matches_def vset_vals_def)
  from addVotes_all [OF laws inv dist this] e obtain vs where
    run: "addVotes ext vs0 votes = Ret vs"
    and cnt: "counted vs key = (\<lambda>v. unat (vote_ValidatorIndex v)) ` set votes"
    and other: "\<And>k. k \<noteq> key \<Longrightarrow> counted vs k = {}"
    by auto
  have good: "bitArray_laws ext \<and> voteSet_inv ext vs0" using laws inv by blast
  have qv: "vset_quorum vs0 \<le> powerOf (vset_vals vs0) (counted vs key)"
    using q cnt f by (simp add: vset_quorum_def vset_vals_def)
  from vc.quorum_decides [OF good addVotes_steps [OF run] qv] obtain b where
    b: "vset_maj23 vs = Some b" by auto
  have "BlockID_Key ext b = key"
  proof (rule ccontr)
    assume "BlockID_Key ext b \<noteq> key"
    then have "powerOf (vset_vals vs) (counted vs (BlockID_Key ext b)) = 0" by (simp add: other)
    moreover have inv': "voteSet_inv ext vs"
      using vc.steps_good [OF addVotes_steps [OF run] good] by blast
    moreover from inv' have "powers_nonneg (vset_valSet vs)" by (simp add: voteSet_inv_def)
    ultimately show False
      using inv_decided(1) [OF inv' b] vset_quorum_pos [of vs] by simp
  qed
  with run b show ?thesis by (auto simp: TwoThirdsMajority_iff)
qed

theorem quorum_of_votes_decides_witness:
  "\<exists>vs b. addVotes demo_ext demo_voteSet demo_votes = Ret vs \<and>
     VoteSet_TwoThirdsMajority (Some vs) = (b, True) \<and>
     BlockID_Key demo_ext b = BlockID_Key demo_ext demo_blockID"
proof (rule quorum_of_votes_decides [OF demo_ext_laws demo_validators_nonneg demo_NewVoteSet])
  show "\<forall>v\<in>set demo_votes. vote_ValidatorAddress v \<noteq> [] \<and>
      BlockID_Key demo_ext (vote_BlockID v) = BlockID_Key demo_ext demo_blockID \<and>
      signed_vote demo_ext ''chain'' demo_validators 5 0 VoteTypePrevote
        (unat (vote_ValidatorIndex v)) v"
    by code_simp
  show "distinct (map (\<lambda>v. unat (vote_ValidatorIndex v)) demo_votes)" by code_simp
  show "Loose23MajorThreshold (totalPower (vs_Validators demo_validators)) 0
      \<le> powerOf (vs_Validators demo_validators)
          ((\<lambda>v. unat (vote_ValidatorIndex v)) ` set demo_votes)"
    by code_simp
qed

end
