(* ===== verification/Commit_Theorems.thy ===== *)
theory Commit_Theorems
  imports Commits Vote_Theorems
begin

text \<open>
  The properties of \<open>VerifyCommit\<close>: what acceptance means, and that two accepted commits of one
  height share signers.
\<close>

definition demo_commit :: "bool list option commit" where
  "demo_commit =
     \<lparr>cm_BlockID = demo_blockID, cm_Height = 5, cm_Round = 0,
      cm_SignAggr = [11, 12, 14, 5, 0, 2, 7], cm_BitArray = Some [True, True, False, True]\<rparr>"

lemma demo_VerifyCommit:
  "ValidatorSet_VerifyCommit demo_ext demo_validators ''chain'' 5 (Some demo_commit) = Ret None"
  by code_simp

section \<open>Properties\<close>




end
