(* ===== verification/Height_Votes.thy ===== *)
theory Height_Votes
  imports Vote_Theorems Commits
begin

text \<open>
  \<open>consensus/height_vote_set.go\<close> and \<open>consensus/height_sign_aggr.go\<close>: the vote sets and the
  signature aggregates of all rounds of one height. The round maps are HOL maps from the Go \<open>int\<close>;
  the pointers in them are shared by nobody else, so an operation on an entry updates the map.
  \<open>PanicSanity\<close> is a panic. The loops over rounds are folds over the list of the rounds.
\<close>

section \<open>Vote sets of a height\<close>

record 'b roundVoteSet =
  rvs_Prevotes :: "'b voteSet"
  rvs_Precommits :: "'b voteSet"

record 'b heightVoteSet =
  hvs_chainID :: string
  hvs_height :: u64
  hvs_valSet :: validatorSet
  hvs_round :: int
  hvs_roundVoteSets :: "int \<rightharpoonup> 'b roundVoteSet"
  hvs_peerCatchupRounds :: "string \<rightharpoonup> int list"

definition HeightVoteSet_addRound ::
    "('b, 'z) ext_scheme \<Rightarrow> 'b heightVoteSet \<Rightarrow> int \<Rightarrow> 'b heightVoteSet go" where
  "HeightVoteSet_addRound ext hvs round =
     (if hvs_roundVoteSets hvs round \<noteq> None then Panic ''addRound() for an existing round''
      else
        bindGo (NewVoteSet ext (hvs_chainID hvs) (hvs_height hvs) round VoteTypePrevote
                  (hvs_valSet hvs)) (\<lambda>prevotes.
        bindGo (NewVoteSet ext (hvs_chainID hvs) (hvs_height hvs) round VoteTypePrecommit
                  (hvs_valSet hvs)) (\<lambda>precommits.
          Ret (hvs\<lparr>hvs_roundVoteSets := (hvs_roundVoteSets hvs)
                     (round \<mapsto> \<lparr>rvs_Prevotes = prevotes, rvs_Precommits = precommits\<rparr>)\<rparr>))))"

definition HeightVoteSet_Reset ::
    "('b, 'z) ext_scheme \<Rightarrow> 'b heightVoteSet \<Rightarrow> u64 \<Rightarrow> validatorSet \<Rightarrow> 'b heightVoteSet go" where
  "HeightVoteSet_Reset ext hvs height valSet =
     (let hvs = hvs\<lparr>hvs_height := height, hvs_valSet := valSet, hvs_roundVoteSets := Map.empty,
                    hvs_peerCatchupRounds := Map.empty\<rparr>
      in bindGo (HeightVoteSet_addRound ext hvs 0) (\<lambda>hvs. Ret (hvs\<lparr>hvs_round := 0\<rparr>)))"

definition NewHeightVoteSet ::
    "('b, 'z) ext_scheme \<Rightarrow> string \<Rightarrow> u64 \<Rightarrow> validatorSet \<Rightarrow> 'b heightVoteSet go" where
  "NewHeightVoteSet ext chainID height valSet =
     HeightVoteSet_Reset ext
       \<lparr>hvs_chainID = chainID, hvs_height = 0,
        hvs_valSet = \<lparr>vs_Validators = [], vs_totalVotingPower = None\<rparr>, hvs_round = 0,
        hvs_roundVoteSets = Map.empty, hvs_peerCatchupRounds = Map.empty\<rparr> height valSet"

text \<open>The body of the loop of \<open>SetRound\<close>, and the loop.\<close>

fun HeightVoteSet_addRounds ::
    "('b, 'z) ext_scheme \<Rightarrow> 'b heightVoteSet \<Rightarrow> int list \<Rightarrow> 'b heightVoteSet go" where
  "HeightVoteSet_addRounds ext hvs [] = Ret hvs"
| "HeightVoteSet_addRounds ext hvs (r # rs) =
     (if hvs_roundVoteSets hvs r \<noteq> None then HeightVoteSet_addRounds ext hvs rs
      else bindGo (HeightVoteSet_addRound ext hvs r) (\<lambda>hvs. HeightVoteSet_addRounds ext hvs rs))"

definition HeightVoteSet_SetRound ::
    "('b, 'z) ext_scheme \<Rightarrow> 'b heightVoteSet \<Rightarrow> int \<Rightarrow> 'b heightVoteSet go" where
  "HeightVoteSet_SetRound ext hvs round =
     (if hvs_round hvs \<noteq> 0 \<and> round < hvs_round hvs + 1
      then Panic ''SetRound() must increment hvs.round''
      else bindGo (HeightVoteSet_addRounds ext hvs [hvs_round hvs + 1 .. round])
             (\<lambda>hvs. Ret (hvs\<lparr>hvs_round := round\<rparr>)))"

text \<open>\<open>delete(m, r)\<close> for every round of the list.\<close>

definition deleteRounds :: "int list \<Rightarrow> (int \<rightharpoonup> 'v) \<Rightarrow> (int \<rightharpoonup> 'v)" where
  "deleteRounds rs m = fold (\<lambda>r m. m(r := None)) rs m"

definition HeightVoteSet_ResetTop2Round ::
    "('b, 'z) ext_scheme \<Rightarrow> 'b heightVoteSet \<Rightarrow> int \<Rightarrow> 'b heightVoteSet go" where
  "HeightVoteSet_ResetTop2Round ext hvs round =
     (if hvs_round hvs < round \<or> round < 1
      then Panic ''hvs.ResetTop2Round() must have enough round to reset''
      else
        (let hvs = hvs\<lparr>hvs_roundVoteSets :=
                         deleteRounds [round - 1 .. hvs_round hvs] (hvs_roundVoteSets hvs)\<rparr>
         in bindGo (HeightVoteSet_addRound ext hvs (round - 1)) (\<lambda>hvs.
            bindGo (HeightVoteSet_addRound ext hvs round) (\<lambda>hvs.
              Ret (hvs\<lparr>hvs_round := round\<rparr>)))))"

definition HeightVoteSet_getVoteSet :: "'b heightVoteSet \<Rightarrow> int \<Rightarrow> u8 \<Rightarrow> 'b voteSet option go" where
  "HeightVoteSet_getVoteSet hvs round type =
     (case hvs_roundVoteSets hvs round of
        None \<Rightarrow> Ret None
      | Some rvs \<Rightarrow>
          if type = VoteTypePrevote then Ret (Some (rvs_Prevotes rvs))
          else if type = VoteTypePrecommit then Ret (Some (rvs_Precommits rvs))
          else Panic ''Unexpected vote type'')"

text \<open>Writing back through the pointer that \<open>getVoteSet\<close> returned.\<close>

definition HeightVoteSet_setVoteSet ::
    "'b heightVoteSet \<Rightarrow> int \<Rightarrow> u8 \<Rightarrow> 'b voteSet \<Rightarrow> 'b heightVoteSet" where
  "HeightVoteSet_setVoteSet hvs round type voteSet =
     (case hvs_roundVoteSets hvs round of
        None \<Rightarrow> hvs
      | Some rvs \<Rightarrow>
          hvs\<lparr>hvs_roundVoteSets := (hvs_roundVoteSets hvs)
                (round \<mapsto> (if type = VoteTypePrevote then rvs\<lparr>rvs_Prevotes := voteSet\<rparr>
                           else rvs\<lparr>rvs_Precommits := voteSet\<rparr>))\<rparr>)"

definition HeightVoteSet_AddVote ::
    "('b, 'z) ext_scheme \<Rightarrow> 'b heightVoteSet \<Rightarrow> vote \<Rightarrow> string
     \<Rightarrow> ('b heightVoteSet \<times> bool \<times> voteErr option) go" where
  "HeightVoteSet_AddVote ext hvs vote peerKey =
     (if \<not> IsVoteTypeValid (vote_Type vote) then Ret (hvs, False, None)
      else
        (let round = sint (vote_Round vote);
             add = (\<lambda>hvs voteSet. case voteSet of
                      None \<Rightarrow> Panic ''nil pointer dereference''
                    | Some voteSet \<Rightarrow>
                        bindGo (VoteSet_AddVote ext voteSet vote) (\<lambda>(voteSet, added, err).
                          Ret (HeightVoteSet_setVoteSet hvs round (vote_Type vote) voteSet,
                               added, err)))
         in bindGo (HeightVoteSet_getVoteSet hvs round (vote_Type vote)) (\<lambda>voteSet.
              case voteSet of
                Some vs \<Rightarrow> add hvs voteSet
              | None \<Rightarrow>
                  (let rndz = (case hvs_peerCatchupRounds hvs peerKey of Some l \<Rightarrow> l | None \<Rightarrow> []) in
                   if length rndz < 2
                   then bindGo (HeightVoteSet_addRound ext hvs round) (\<lambda>hvs.
                        bindGo (HeightVoteSet_getVoteSet hvs round (vote_Type vote)) (\<lambda>voteSet.
                          add (hvs\<lparr>hvs_peerCatchupRounds := (hvs_peerCatchupRounds hvs)
                                     (peerKey \<mapsto> rndz @ [round])\<rparr>) voteSet))
                   else Ret (hvs, False, Some ErrUnwantedRound)))))"

definition HeightVoteSet_Prevotes :: "'b heightVoteSet \<Rightarrow> int \<Rightarrow> 'b voteSet option go" where
  "HeightVoteSet_Prevotes hvs round = HeightVoteSet_getVoteSet hvs round VoteTypePrevote"

definition HeightVoteSet_Precommits :: "'b heightVoteSet \<Rightarrow> int \<Rightarrow> 'b voteSet option go" where
  "HeightVoteSet_Precommits hvs round = HeightVoteSet_getVoteSet hvs round VoteTypePrecommit"

text \<open>\<open>POLInfo\<close>: the rounds from the current one down to 0.\<close>

fun HeightVoteSet_POLloop :: "'b heightVoteSet \<Rightarrow> int list \<Rightarrow> (int \<times> blockID) go" where
  "HeightVoteSet_POLloop hvs [] = Ret (-1, zeroBlockID)"
| "HeightVoteSet_POLloop hvs (r # rs) =
     bindGo (HeightVoteSet_getVoteSet hvs r VoteTypePrevote) (\<lambda>rvs.
       case VoteSet_TwoThirdsMajority rvs of
         (polBlockID, True) \<Rightarrow> Ret (r, polBlockID)
       | (_, False) \<Rightarrow> HeightVoteSet_POLloop hvs rs)"

definition HeightVoteSet_POLInfo :: "'b heightVoteSet \<Rightarrow> (int \<times> blockID) go" where
  "HeightVoteSet_POLInfo hvs = HeightVoteSet_POLloop hvs (rev [0 .. hvs_round hvs])"

definition HeightVoteSet_SetPeerMaj23 ::
    "('b, 'z) ext_scheme \<Rightarrow> 'b heightVoteSet \<Rightarrow> int \<Rightarrow> u8 \<Rightarrow> string \<Rightarrow> blockID \<Rightarrow> 'b heightVoteSet go" where
  "HeightVoteSet_SetPeerMaj23 ext hvs round type peerID blockID =
     (if \<not> IsVoteTypeValid type then Ret hvs
      else
        bindGo (HeightVoteSet_getVoteSet hvs round type) (\<lambda>voteSet.
          case voteSet of
            None \<Rightarrow> Ret hvs
          | Some voteSet \<Rightarrow>
              Ret (HeightVoteSet_setVoteSet hvs round type
                     (VoteSet_SetPeerMaj23 ext voteSet peerID blockID))))"

section \<open>Signature aggregates of a height\<close>

record 'b roundVoteSignAggr =
  rsa_Prevotes :: "'b signAggr option"
  rsa_Precommits :: "'b signAggr option"

record 'b heightVoteSignAggr =
  hsa_chainID :: string
  hsa_height :: u64
  hsa_valSet :: validatorSet
  hsa_round :: int
  hsa_roundVoteSignAggrs :: "int \<rightharpoonup> 'b roundVoteSignAggr"

definition HeightVoteSignAggr_addRound ::
    "'b heightVoteSignAggr \<Rightarrow> int \<Rightarrow> 'b heightVoteSignAggr go" where
  "HeightVoteSignAggr_addRound hvs round =
     (if hsa_roundVoteSignAggrs hvs round \<noteq> None then Panic ''addRound() for an existing round''
      else Ret (hvs\<lparr>hsa_roundVoteSignAggrs := (hsa_roundVoteSignAggrs hvs)
                      (round \<mapsto> \<lparr>rsa_Prevotes = None, rsa_Precommits = None\<rparr>)\<rparr>))"

definition HeightVoteSignAggr_Reset ::
    "'b heightVoteSignAggr \<Rightarrow> u64 \<Rightarrow> validatorSet \<Rightarrow> 'b heightVoteSignAggr go" where
  "HeightVoteSignAggr_Reset hvs height valSet =
     (let hvs = hvs\<lparr>hsa_height := height, hsa_valSet := valSet, hsa_roundVoteSignAggrs := Map.empty\<rparr>
      in bindGo (HeightVoteSignAggr_addRound hvs 0) (\<lambda>hvs. Ret (hvs\<lparr>hsa_round := 0\<rparr>)))"

definition NewHeightVoteSignAggr ::
    "string \<Rightarrow> u64 \<Rightarrow> validatorSet \<Rightarrow> 'b heightVoteSignAggr go" where
  "NewHeightVoteSignAggr chainID height valSet =
     HeightVoteSignAggr_Reset
       \<lparr>hsa_chainID = chainID, hsa_height = 0,
        hsa_valSet = \<lparr>vs_Validators = [], vs_totalVotingPower = None\<rparr>, hsa_round = 0,
        hsa_roundVoteSignAggrs = Map.empty\<rparr> height valSet"

fun HeightVoteSignAggr_addRounds ::
    "'b heightVoteSignAggr \<Rightarrow> int list \<Rightarrow> 'b heightVoteSignAggr go" where
  "HeightVoteSignAggr_addRounds hvs [] = Ret hvs"
| "HeightVoteSignAggr_addRounds hvs (r # rs) =
     (if hsa_roundVoteSignAggrs hvs r \<noteq> None then HeightVoteSignAggr_addRounds hvs rs
      else bindGo (HeightVoteSignAggr_addRound hvs r) (\<lambda>hvs. HeightVoteSignAggr_addRounds hvs rs))"

definition HeightVoteSignAggr_SetRound ::
    "'b heightVoteSignAggr \<Rightarrow> int \<Rightarrow> 'b heightVoteSignAggr go" where
  "HeightVoteSignAggr_SetRound hvs round =
     (if hsa_round hvs \<noteq> 0 \<and> round < hsa_round hvs + 1
      then Panic ''SetRound() must increment hvs.round''
      else bindGo (HeightVoteSignAggr_addRounds hvs [hsa_round hvs + 1 .. round])
             (\<lambda>hvs. Ret (hvs\<lparr>hsa_round := round\<rparr>)))"

definition HeightVoteSignAggr_ResetTop2Round ::
    "'b heightVoteSignAggr \<Rightarrow> int \<Rightarrow> 'b heightVoteSignAggr go" where
  "HeightVoteSignAggr_ResetTop2Round hvs round =
     (if hsa_round hvs < round \<or> round < 1
      then Panic ''HeightVoteSignAggr.ResetTop2Round() must have enough round to reset''
      else
        (let hvs = hvs\<lparr>hsa_roundVoteSignAggrs :=
                         deleteRounds [round - 1 .. hsa_round hvs] (hsa_roundVoteSignAggrs hvs)\<rparr>
         in bindGo (HeightVoteSignAggr_addRound hvs (round - 1)) (\<lambda>hvs.
            bindGo (HeightVoteSignAggr_addRound hvs round) (\<lambda>hvs.
              Ret (hvs\<lparr>hsa_round := round\<rparr>)))))"

definition HeightVoteSignAggr_getSignAggr ::
    "'b heightVoteSignAggr \<Rightarrow> int \<Rightarrow> u8 \<Rightarrow> 'b signAggr option go" where
  "HeightVoteSignAggr_getSignAggr hvs round type =
     (case hsa_roundVoteSignAggrs hvs round of
        None \<Rightarrow> Ret None
      | Some rvs \<Rightarrow>
          if type = VoteTypePrevote then Ret (rsa_Prevotes rvs)
          else if type = VoteTypePrecommit then Ret (rsa_Precommits rvs)
          else Panic ''Unexpected vote type'')"

text \<open>The error result is always nil and is left out.\<close>

definition HeightVoteSignAggr_AddSignAggr ::
    "'b heightVoteSignAggr \<Rightarrow> 'b signAggr \<Rightarrow> ('b heightVoteSignAggr \<times> bool) go" where
  "HeightVoteSignAggr_AddSignAggr hvs signAggr =
     (if \<not> IsVoteTypeValid (sa_Type signAggr) then Ret (hvs, False)
      else
        bindGo (HeightVoteSignAggr_getSignAggr hvs (sa_Round signAggr) (sa_Type signAggr))
          (\<lambda>existing.
            if existing \<noteq> None then Ret (hvs, False)
            else (case hsa_roundVoteSignAggrs hvs (sa_Round signAggr) of
                    None \<Rightarrow> Ret (hvs, False)
                  | Some rvs \<Rightarrow>
                      if sa_Type signAggr = VoteTypePrevote
                      then Ret (hvs\<lparr>hsa_roundVoteSignAggrs := (hsa_roundVoteSignAggrs hvs)
                                  (sa_Round signAggr \<mapsto> rvs\<lparr>rsa_Prevotes := Some signAggr\<rparr>)\<rparr>, True)
                      else if sa_Type signAggr = VoteTypePrecommit
                      then Ret (hvs\<lparr>hsa_roundVoteSignAggrs := (hsa_roundVoteSignAggrs hvs)
                                  (sa_Round signAggr \<mapsto> rvs\<lparr>rsa_Precommits := Some signAggr\<rparr>)\<rparr>, True)
                      else Ret (hvs, False))))"

definition HeightVoteSignAggr_Prevotes ::
    "'b heightVoteSignAggr \<Rightarrow> int \<Rightarrow> 'b signAggr option go" where
  "HeightVoteSignAggr_Prevotes hvs round = HeightVoteSignAggr_getSignAggr hvs round VoteTypePrevote"

definition HeightVoteSignAggr_Precommits ::
    "'b heightVoteSignAggr \<Rightarrow> int \<Rightarrow> 'b signAggr option go" where
  "HeightVoteSignAggr_Precommits hvs round =
     HeightVoteSignAggr_getSignAggr hvs round VoteTypePrecommit"

fun HeightVoteSignAggr_POLloop :: "'b heightVoteSignAggr \<Rightarrow> int list \<Rightarrow> (int \<times> blockID) go" where
  "HeightVoteSignAggr_POLloop hvs [] = Ret (-1, zeroBlockID)"
| "HeightVoteSignAggr_POLloop hvs (r # rs) =
     bindGo (HeightVoteSignAggr_getSignAggr hvs r VoteTypePrevote) (\<lambda>rvs.
       case SignAggr_TwoThirdsMajority rvs of
         (polBlockID, True) \<Rightarrow> Ret (r, polBlockID)
       | (_, False) \<Rightarrow> HeightVoteSignAggr_POLloop hvs rs)"

definition HeightVoteSignAggr_POLInfo :: "'b heightVoteSignAggr \<Rightarrow> (int \<times> blockID) go" where
  "HeightVoteSignAggr_POLInfo hvs = HeightVoteSignAggr_POLloop hvs (rev [0 .. hsa_round hvs])"

end
