(* ===== verification/Height_Votes_Theorems.thy ===== *)
theory Height_Votes_Theorems
  imports Height_Votes
begin

text \<open>
  The two round stores behave alike: a locale states what \<open>SetRound\<close> and \<open>ResetTop2Round\<close> do to
  the set of rounds, and is interpreted on the vote sets and on the aggregates. Then the
  invariant of the height vote set under every operation, and the meaning of \<open>POLInfo\<close>.
\<close>

section \<open>Round stores\<close>

locale round_store =
  fixes ok :: "'s \<Rightarrow> bool"
    and cur :: "'s \<Rightarrow> int"
    and rounds :: "'s \<Rightarrow> int set"
    and setRound :: "'s \<Rightarrow> int \<Rightarrow> 's go"
    and resetTop2 :: "'s \<Rightarrow> int \<Rightarrow> 's go"
  assumes setRound_ok: "ok s \<Longrightarrow> cur s = 0 \<or> cur s < r \<Longrightarrow>
      \<exists>s'. setRound s r = Ret s' \<and> ok s' \<and> cur s' = r \<and> rounds s' = rounds s \<union> {cur s + 1..r}"
    and setRound_panic: "cur s \<noteq> 0 \<Longrightarrow> r \<le> cur s \<Longrightarrow> \<not> returns (setRound s r)"
    and resetTop2_ok: "ok s \<Longrightarrow> 1 \<le> r \<Longrightarrow> r \<le> cur s \<Longrightarrow>
      \<exists>s'. resetTop2 s r = Ret s' \<and> ok s' \<and> cur s' = r \<and>
           rounds s' = (rounds s - {r - 1..cur s}) \<union> {r - 1, r}"
    and resetTop2_panic: "r < 1 \<or> cur s < r \<Longrightarrow> \<not> returns (resetTop2 s r)"
begin

lemma setRound_iff: "ok s \<Longrightarrow> returns (setRound s r) \<longleftrightarrow> cur s = 0 \<or> cur s < r"
  using setRound_ok [of s r] setRound_panic [of s r]
  by (cases "cur s = 0 \<or> cur s < r") (auto simp: returns_iff)

lemma setRound_covers:
  assumes "ok s" "{0..cur s} \<subseteq> rounds s" "setRound s r = Ret s'" "0 \<le> cur s"
  shows "ok s' \<and> cur s' = r \<and> {0..r} \<subseteq> rounds s' \<and> rounds s' = rounds s \<union> {cur s + 1..r}"
proof -
  from assms(1,3) setRound_iff have "cur s = 0 \<or> cur s < r" by (auto simp: returns_iff)
  from setRound_ok [OF assms(1) this] assms(3)
  have "ok s'" "cur s' = r" "rounds s' = rounds s \<union> {cur s + 1..r}" by auto
  with assms(2,4) show ?thesis by auto
qed

lemma resetTop2_covers:
  assumes "ok s" "{0..cur s} \<subseteq> rounds s" "resetTop2 s r = Ret s'"
  shows "ok s' \<and> cur s' = r \<and> 1 \<le> r \<and> r \<le> cur s \<and> {0..r} \<subseteq> rounds s' \<and>
     rounds s' = (rounds s - {r - 1..cur s}) \<union> {r - 1, r}"
proof -
  have r: "1 \<le> r" "r \<le> cur s"
    using resetTop2_panic [of r s] assms(3) by (cases "r < 1 \<or> cur s < r"; simp)+
  from resetTop2_ok [OF assms(1) r] assms(3)
  have "ok s'" "cur s' = r" "rounds s' = (rounds s - {r - 1..cur s}) \<union> {r - 1, r}" by auto
  with assms(2) r show ?thesis by auto
qed

end

lemma deleteRounds_apply: "deleteRounds rs m r = (if r \<in> set rs then None else m r)"
  unfolding deleteRounds_def by (induction rs arbitrary: m) auto

lemma dom_deleteRounds: "dom (deleteRounds rs m) = dom m - set rs"
  by (auto simp: deleteRounds_apply split: if_splits)

section \<open>The aggregates\<close>

lemma HSA_addRounds:
  "\<exists>s'. HeightVoteSignAggr_addRounds s rs = Ret s' \<and> hsa_round s' = hsa_round s \<and>
     dom (hsa_roundVoteSignAggrs s') = dom (hsa_roundVoteSignAggrs s) \<union> set rs"
proof (induction rs arbitrary: s)
  case (Cons r rs)
  show ?case
  proof (cases "hsa_roundVoteSignAggrs s r")
    case None
    let ?s1 = "s\<lparr>hsa_roundVoteSignAggrs := (hsa_roundVoteSignAggrs s)
        (r \<mapsto> \<lparr>rsa_Prevotes = None, rsa_Precommits = None\<rparr>)\<rparr>"
    show ?thesis using Cons.IH [of ?s1] None by (auto simp: HeightVoteSignAggr_addRound_def)
  next
    case (Some x)
    then show ?thesis using Cons.IH [of s] by auto
  qed
qed simp

interpretation hsa: round_store
  "\<lambda>_. True" hsa_round "\<lambda>s. dom (hsa_roundVoteSignAggrs s)"
  HeightVoteSignAggr_SetRound HeightVoteSignAggr_ResetTop2Round
proof
  fix s :: "'b heightVoteSignAggr" and r
  show "\<exists>s'. HeightVoteSignAggr_SetRound s r = Ret s' \<and> True \<and> hsa_round s' = r \<and>
      dom (hsa_roundVoteSignAggrs s') = dom (hsa_roundVoteSignAggrs s) \<union> {hsa_round s + 1..r}"
    if "hsa_round s = 0 \<or> hsa_round s < r"
    using HSA_addRounds [of s "[hsa_round s + 1 .. r]"] that
    by (auto simp: HeightVoteSignAggr_SetRound_def)
  show "\<exists>s'. HeightVoteSignAggr_ResetTop2Round s r = Ret s' \<and> True \<and> hsa_round s' = r \<and>
      dom (hsa_roundVoteSignAggrs s') = dom (hsa_roundVoteSignAggrs s) - {r - 1..hsa_round s} \<union> {r - 1, r}"
    if "1 \<le> r" "r \<le> hsa_round s"
    using that
    by (simp add: HeightVoteSignAggr_ResetTop2Round_def HeightVoteSignAggr_addRound_def Let_def
        deleteRounds_apply dom_deleteRounds insert_commute)
qed (auto simp: HeightVoteSignAggr_SetRound_def HeightVoteSignAggr_ResetTop2Round_def)

section \<open>The vote sets\<close>

text \<open>The entry of a round and a type.\<close>

definition round_entry ::
    "('b, 'z) ext_scheme \<Rightarrow> 'b heightVoteSet \<Rightarrow> int \<Rightarrow> u8 \<Rightarrow> 'b voteSet \<Rightarrow> bool" where
  "round_entry ext hvs r type vs \<longleftrightarrow>
     voteSet_inv ext vs \<and> vset_chainID vs = hvs_chainID hvs \<and> vset_height vs = hvs_height hvs \<and>
     vset_round vs = r \<and> vset_type vs = type \<and> vset_valSet vs = hvs_valSet hvs"

definition hvs_inv :: "('b, 'z) ext_scheme \<Rightarrow> 'b heightVoteSet \<Rightarrow> bool" where
  "hvs_inv ext hvs \<longleftrightarrow>
     hvs_height hvs \<noteq> 0 \<and> powers_nonneg (hvs_valSet hvs) \<and>
     (\<forall>r rvs. hvs_roundVoteSets hvs r = Some rvs \<longrightarrow>
        round_entry ext hvs r VoteTypePrevote (rvs_Prevotes rvs) \<and>
        round_entry ext hvs r VoteTypePrecommit (rvs_Precommits rvs)) \<and>
     (\<forall>p l. hvs_peerCatchupRounds hvs p = Some l \<longrightarrow> length l \<le> 2)"

text \<open>The rounds a store holds: those up to the current one, and the ones peers asked for.\<close>

definition hvs_rounds_bounded :: "'b heightVoteSet \<Rightarrow> bool" where
  "hvs_rounds_bounded hvs \<longleftrightarrow>
     0 \<le> hvs_round hvs \<and> {0..hvs_round hvs} \<subseteq> dom (hvs_roundVoteSets hvs) \<and>
     dom (hvs_roundVoteSets hvs) \<subseteq>
       {0..hvs_round hvs} \<union> (\<Union>l\<in>ran (hvs_peerCatchupRounds hvs). set l)"

definition same_height :: "'b heightVoteSet \<Rightarrow> 'b heightVoteSet \<Rightarrow> bool" where
  "same_height hvs hvs' \<longleftrightarrow> hvs_chainID hvs' = hvs_chainID hvs \<and> hvs_height hvs' = hvs_height hvs \<and>
     hvs_valSet hvs' = hvs_valSet hvs"

lemma NewVoteSet_returns: "height \<noteq> 0 \<Longrightarrow> \<exists>vs. NewVoteSet ext chainID height round type valSet = Ret vs"
  by (simp add: NewVoteSet_def)

lemma HVS_addRound:
  assumes laws: "bitArray_laws ext" and inv: "hvs_inv ext hvs" and new: "hvs_roundVoteSets hvs r = None"
  shows "\<exists>rvs. HeightVoteSet_addRound ext hvs r =
      Ret (hvs\<lparr>hvs_roundVoteSets := (hvs_roundVoteSets hvs)(r \<mapsto> rvs)\<rparr>) \<and>
      hvs_inv ext (hvs\<lparr>hvs_roundVoteSets := (hvs_roundVoteSets hvs)(r \<mapsto> rvs)\<rparr>)"
proof -
  have h: "hvs_height hvs \<noteq> 0" and nn: "powers_nonneg (hvs_valSet hvs)"
    using inv by (auto simp: hvs_inv_def)
  from NewVoteSet_returns [OF h] obtain a b where
    a: "NewVoteSet ext (hvs_chainID hvs) (hvs_height hvs) r VoteTypePrevote (hvs_valSet hvs) = Ret a"
    and b: "NewVoteSet ext (hvs_chainID hvs) (hvs_height hvs) r VoteTypePrecommit (hvs_valSet hvs) = Ret b"
    by blast
  have e: "round_entry ext hvs r VoteTypePrevote a" "round_entry ext hvs r VoteTypePrecommit b"
    using NewVoteSet_inv [OF laws nn a] NewVoteSet_inv [OF laws nn b]
      NewVoteSet_fields [OF a] NewVoteSet_fields [OF b]
    by (auto simp: round_entry_def)
  let ?h = "hvs\<lparr>hvs_roundVoteSets := (hvs_roundVoteSets hvs)
      (r \<mapsto> \<lparr>rvs_Prevotes = a, rvs_Precommits = b\<rparr>)\<rparr>"
  have "round_entry ext ?h = round_entry ext hvs"
    by (intro ext) (simp add: round_entry_def)
  with e inv have "hvs_inv ext ?h" by (auto simp: hvs_inv_def)
  with a b new show ?thesis by (auto simp: HeightVoteSet_addRound_def)
qed

lemma HVS_addRounds:
  assumes laws: "bitArray_laws ext" and "hvs_inv ext hvs"
  shows "\<exists>hvs'. HeightVoteSet_addRounds ext hvs rs = Ret hvs' \<and> hvs_inv ext hvs' \<and>
     hvs_round hvs' = hvs_round hvs \<and> same_height hvs hvs' \<and>
     hvs_peerCatchupRounds hvs' = hvs_peerCatchupRounds hvs \<and>
     dom (hvs_roundVoteSets hvs') = dom (hvs_roundVoteSets hvs) \<union> set rs"
  using assms(2)
proof (induction rs arbitrary: hvs)
  case (Cons r rs)
  show ?case
  proof (cases "hvs_roundVoteSets hvs r")
    case None
    from HVS_addRound [OF laws Cons.prems None] obtain rvs where
      a: "HeightVoteSet_addRound ext hvs r = Ret (hvs\<lparr>hvs_roundVoteSets := (hvs_roundVoteSets hvs)(r \<mapsto> rvs)\<rparr>)"
      and i: "hvs_inv ext (hvs\<lparr>hvs_roundVoteSets := (hvs_roundVoteSets hvs)(r \<mapsto> rvs)\<rparr>)"
      by blast
    show ?thesis using Cons.IH [OF i] a None by (auto simp: same_height_def)
  next
    case (Some x)
    then show ?thesis using Cons.IH [OF Cons.prems] by auto
  qed
qed (simp add: same_height_def)

lemma hvs_inv_cur [simp]: "hvs_inv ext (hvs\<lparr>hvs_round := r\<rparr>) = hvs_inv ext hvs"
  by (simp add: hvs_inv_def round_entry_def)

lemma hvs_inv_delete:
  "hvs_inv ext hvs \<Longrightarrow> hvs_inv ext (hvs\<lparr>hvs_roundVoteSets := deleteRounds rs (hvs_roundVoteSets hvs)\<rparr>)"
  by (auto simp: hvs_inv_def round_entry_def deleteRounds_apply split: if_splits)

lemma HVS_SetRound:
  assumes "bitArray_laws ext" "hvs_inv ext hvs" "hvs_round hvs = 0 \<or> hvs_round hvs < r"
  shows "\<exists>hvs'. HeightVoteSet_SetRound ext hvs r = Ret hvs' \<and> hvs_inv ext hvs' \<and> hvs_round hvs' = r \<and>
     same_height hvs hvs' \<and> hvs_peerCatchupRounds hvs' = hvs_peerCatchupRounds hvs \<and>
     dom (hvs_roundVoteSets hvs') = dom (hvs_roundVoteSets hvs) \<union> {hvs_round hvs + 1..r}"
  using HVS_addRounds [OF assms(1,2), of "[hvs_round hvs + 1 .. r]"] assms(3)
  by (auto simp: HeightVoteSet_SetRound_def same_height_def)

lemma HVS_ResetTop2Round:
  assumes laws: "bitArray_laws ext" and inv: "hvs_inv ext hvs" and r: "1 \<le> r" "r \<le> hvs_round hvs"
  shows "\<exists>hvs'. HeightVoteSet_ResetTop2Round ext hvs r = Ret hvs' \<and> hvs_inv ext hvs' \<and> hvs_round hvs' = r \<and>
     same_height hvs hvs' \<and> hvs_peerCatchupRounds hvs' = hvs_peerCatchupRounds hvs \<and>
     dom (hvs_roundVoteSets hvs') = (dom (hvs_roundVoteSets hvs) - {r - 1..hvs_round hvs}) \<union> {r - 1, r}"
proof -
  let ?d = "deleteRounds [r - 1 .. hvs_round hvs] (hvs_roundVoteSets hvs)"
  let ?h = "hvs\<lparr>hvs_roundVoteSets := ?d\<rparr>"
  have n: "hvs_roundVoteSets ?h (r - 1) = None" using r by (simp add: deleteRounds_apply)
  from HVS_addRound [OF laws hvs_inv_delete [OF inv] n] obtain a where
    a: "HeightVoteSet_addRound ext ?h (r - 1) = Ret (hvs\<lparr>hvs_roundVoteSets := ?d(r - 1 \<mapsto> a)\<rparr>)"
    and ia: "hvs_inv ext (hvs\<lparr>hvs_roundVoteSets := ?d(r - 1 \<mapsto> a)\<rparr>)"
    by auto
  have n': "hvs_roundVoteSets (hvs\<lparr>hvs_roundVoteSets := ?d(r - 1 \<mapsto> a)\<rparr>) r = None"
    using r by (simp add: deleteRounds_apply)
  from HVS_addRound [OF laws ia n'] obtain b where
    b: "HeightVoteSet_addRound ext (hvs\<lparr>hvs_roundVoteSets := ?d(r - 1 \<mapsto> a)\<rparr>) r
        = Ret (hvs\<lparr>hvs_roundVoteSets := ?d(r - 1 \<mapsto> a, r \<mapsto> b)\<rparr>)"
    and ib: "hvs_inv ext (hvs\<lparr>hvs_roundVoteSets := ?d(r - 1 \<mapsto> a, r \<mapsto> b)\<rparr>)"
    by auto
  have "HeightVoteSet_ResetTop2Round ext hvs r
      = Ret (hvs\<lparr>hvs_roundVoteSets := ?d(r - 1 \<mapsto> a, r \<mapsto> b), hvs_round := r\<rparr>)"
    using r a b by (simp add: HeightVoteSet_ResetTop2Round_def Let_def)
  moreover have "hvs_inv ext (hvs\<lparr>hvs_roundVoteSets := ?d(r - 1 \<mapsto> a, r \<mapsto> b), hvs_round := r\<rparr>)"
    using ib by (simp only: hvs_inv_cur)
  ultimately show ?thesis
    by (auto simp: same_height_def dom_deleteRounds)
qed

interpretation hvs: round_store
  "\<lambda>s. bitArray_laws ext \<and> hvs_inv ext s" hvs_round "\<lambda>s. dom (hvs_roundVoteSets s)"
  "HeightVoteSet_SetRound ext" "HeightVoteSet_ResetTop2Round ext"
  for ext :: "('b, 'z) ext_scheme"
proof
  fix s :: "'b heightVoteSet" and r
  assume ok: "bitArray_laws ext \<and> hvs_inv ext s"
  show "\<exists>s'. HeightVoteSet_SetRound ext s r = Ret s' \<and> (bitArray_laws ext \<and> hvs_inv ext s') \<and>
      hvs_round s' = r \<and>
      dom (hvs_roundVoteSets s') = dom (hvs_roundVoteSets s) \<union> {hvs_round s + 1..r}"
    if "hvs_round s = 0 \<or> hvs_round s < r"
    using HVS_SetRound [of ext s r] ok that by blast
  show "\<exists>s'. HeightVoteSet_ResetTop2Round ext s r = Ret s' \<and> (bitArray_laws ext \<and> hvs_inv ext s') \<and>
      hvs_round s' = r \<and>
      dom (hvs_roundVoteSets s') = dom (hvs_roundVoteSets s) - {r - 1..hvs_round s} \<union> {r - 1, r}"
    if "1 \<le> r" "r \<le> hvs_round s"
    using HVS_ResetTop2Round [of ext s r] ok that by blast
qed (auto simp: HeightVoteSet_SetRound_def HeightVoteSet_ResetTop2Round_def)

section \<open>Votes of a round\<close>

lemma valid_types: "IsVoteTypeValid t \<longleftrightarrow> t = VoteTypePrevote \<or> t = VoteTypePrecommit"
  by (auto simp: IsVoteTypeValid_def)

lemma vote_types_differ [simp]: "VoteTypePrevote \<noteq> VoteTypePrecommit" "VoteTypePrecommit \<noteq> VoteTypePrevote"
  by (auto simp: VoteTypePrevote_def VoteTypePrecommit_def)

lemma getVoteSet_None: "hvs_roundVoteSets hvs r = None \<Longrightarrow> HeightVoteSet_getVoteSet hvs r t = Ret None"
  by (simp add: HeightVoteSet_getVoteSet_def)

lemma getVoteSet_Some:
  assumes "hvs_inv ext hvs" "IsVoteTypeValid t" "hvs_roundVoteSets hvs r = Some rvs"
  obtains vs where "HeightVoteSet_getVoteSet hvs r t = Ret (Some vs)" "round_entry ext hvs r t vs"
  using assms by (auto simp: HeightVoteSet_getVoteSet_def valid_types hvs_inv_def)

lemma setVoteSet_inv:
  assumes "hvs_inv ext hvs" "IsVoteTypeValid t" "round_entry ext hvs r t vs"
  shows "hvs_inv ext (HeightVoteSet_setVoteSet hvs r t vs)"
  using assms
  by (auto simp: HeightVoteSet_setVoteSet_def hvs_inv_def round_entry_def valid_types split: option.splits)

lemma setVoteSet_frame [simp]:
  "hvs_round (HeightVoteSet_setVoteSet hvs r t vs) = hvs_round hvs"
  "hvs_peerCatchupRounds (HeightVoteSet_setVoteSet hvs r t vs) = hvs_peerCatchupRounds hvs"
  "same_height hvs (HeightVoteSet_setVoteSet hvs r t vs)"
  "dom (hvs_roundVoteSets (HeightVoteSet_setVoteSet hvs r t vs)) = dom (hvs_roundVoteSets hvs)"
  by (auto simp: HeightVoteSet_setVoteSet_def same_height_def split: option.splits)

lemma setVoteSet_bounded [simp]:
  "hvs_rounds_bounded (HeightVoteSet_setVoteSet hvs r t vs) = hvs_rounds_bounded hvs"
  by (simp add: hvs_rounds_bounded_def)

lemma same_height_trans: "same_height a b \<Longrightarrow> same_height b c \<Longrightarrow> same_height a c"
  by (simp add: same_height_def)

lemma getVoteSet_set:
  assumes "IsVoteTypeValid t" "IsVoteTypeValid t'" "hvs_roundVoteSets hvs r \<noteq> None"
  shows "HeightVoteSet_getVoteSet (HeightVoteSet_setVoteSet hvs r t vs) r' t' =
     (if r' = r \<and> t' = t then Ret (Some vs) else HeightVoteSet_getVoteSet hvs r' t')"
proof -
  from assms(3) obtain rvs where "hvs_roundVoteSets hvs r = Some rvs" by blast
  with assms(1,2) show ?thesis
    by (cases "r' = r"; cases "t = t'")
      (auto simp: HeightVoteSet_setVoteSet_def HeightVoteSet_getVoteSet_def valid_types)
qed

lemma vote_step_entry:
  "round_entry ext hvs r t vs \<Longrightarrow> vote_step ext vs i key a vs' \<Longrightarrow> round_entry ext hvs r t vs'"
  by (auto simp: round_entry_def vote_step_def same_step_def)

lemma AddVote_entry:
  assumes "bitArray_laws ext" "round_entry ext hvs r t vs" "VoteSet_AddVote ext vs v = Ret (vs', a, e)"
  shows "round_entry ext hvs r t vs'"
proof -
  have "voteSet_inv ext vs" using assms(2) by (simp add: round_entry_def)
  from AddVote_outcome [OF this assms(1) refl assms(3)] vote_step_entry [OF assms(2)]
  show ?thesis by blast
qed

text \<open>
  \<open>AddVote\<close> of a vote for a round that the store has: the vote goes to the vote set of the round
  and the type, nothing else changes.
\<close>

lemma HVS_AddVote_present:
  assumes "IsVoteTypeValid (vote_Type v)"
    and "HeightVoteSet_getVoteSet hvs (sint (vote_Round v)) (vote_Type v) = Ret (Some vs)"
  shows "HeightVoteSet_AddVote ext hvs v peer =
     bindGo (VoteSet_AddVote ext vs v) (\<lambda>(vs', added, err).
       Ret (HeightVoteSet_setVoteSet hvs (sint (vote_Round v)) (vote_Type v) vs', added, err))"
  using assms by (simp add: HeightVoteSet_AddVote_def Let_def)

lemma catchup_grows:
  "insert r (\<Union>l\<in>ran m. set l)
   \<subseteq> (\<Union>l\<in>ran (m(p \<mapsto> (case m p of Some l \<Rightarrow> l | None \<Rightarrow> []) @ [r])). set l)"
proof
  fix x
  assume "x \<in> insert r (\<Union>l\<in>ran m. set l)"
  then consider "x = r" | q l where "m q = Some l" "x \<in> set l"
    by (auto simp: ran_def)
  then show "x \<in> (\<Union>l\<in>ran (m(p \<mapsto> (case m p of Some l \<Rightarrow> l | None \<Rightarrow> []) @ [r])). set l)"
  proof cases
    case 1
    then show ?thesis by (auto simp: ran_def)
  next
    case 2
    then show ?thesis by (cases "q = p") (force simp: ran_def)+
  qed
qed

lemma HVS_AddVote_inv:
  assumes laws: "bitArray_laws ext" and inv: "hvs_inv ext hvs"
    and r: "HeightVoteSet_AddVote ext hvs v peer = Ret (hvs', added, err)"
  shows "hvs_inv ext hvs' \<and> same_height hvs hvs' \<and> hvs_round hvs' = hvs_round hvs \<and>
     (hvs_rounds_bounded hvs \<longrightarrow> hvs_rounds_bounded hvs')"
proof (cases "IsVoteTypeValid (vote_Type v)")
  case False
  with r inv show ?thesis by (simp add: HeightVoteSet_AddVote_def same_height_def)
next
  case t: True
  let ?r = "sint (vote_Round v)" and ?t = "vote_Type v"
  show ?thesis
  proof (cases "hvs_roundVoteSets hvs ?r")
    case (Some rvs)
    obtain vs where g: "HeightVoteSet_getVoteSet hvs ?r ?t = Ret (Some vs)"
      and ent: "round_entry ext hvs ?r ?t vs"
      by (rule getVoteSet_Some [OF inv t Some])
    from r [unfolded HVS_AddVote_present [OF t g]] obtain vs' where
      a: "VoteSet_AddVote ext vs v = Ret (vs', added, err)"
      and h: "hvs' = HeightVoteSet_setVoteSet hvs ?r ?t vs'"
      by (auto simp: bindGo_Ret_iff)
    have "round_entry ext hvs ?r ?t vs'" by (rule AddVote_entry [OF laws ent a])
    with setVoteSet_inv [OF inv t] h show ?thesis by simp
  next
    case new: None
    let ?l = "case hvs_peerCatchupRounds hvs peer of Some l \<Rightarrow> l | None \<Rightarrow> []"
    show ?thesis
    proof (cases "length ?l < 2")
      case False
      with r getVoteSet_None [OF new] t inv show ?thesis
        by (simp add: HeightVoteSet_AddVote_def Let_def same_height_def)
    next
      case True
      from HVS_addRound [OF laws inv new] obtain rvs where
        a: "HeightVoteSet_addRound ext hvs ?r = Ret (hvs\<lparr>hvs_roundVoteSets := (hvs_roundVoteSets hvs)(?r \<mapsto> rvs)\<rparr>)"
        and i: "hvs_inv ext (hvs\<lparr>hvs_roundVoteSets := (hvs_roundVoteSets hvs)(?r \<mapsto> rvs)\<rparr>)"
        by blast
      let ?h = "hvs\<lparr>hvs_roundVoteSets := (hvs_roundVoteSets hvs)(?r \<mapsto> rvs),
                    hvs_peerCatchupRounds := (hvs_peerCatchupRounds hvs)(peer \<mapsto> ?l @ [?r])\<rparr>"
      have ih: "hvs_inv ext ?h"
        using i True by (auto simp: hvs_inv_def round_entry_def)
      obtain vs where
        vs: "HeightVoteSet_getVoteSet (hvs\<lparr>hvs_roundVoteSets := (hvs_roundVoteSets hvs)(?r \<mapsto> rvs)\<rparr>) ?r ?t = Ret (Some vs)"
        and ent: "round_entry ext (hvs\<lparr>hvs_roundVoteSets := (hvs_roundVoteSets hvs)(?r \<mapsto> rvs)\<rparr>) ?r ?t vs"
        by (rule getVoteSet_Some [OF i t, of ?r rvs]) simp
      from r t getVoteSet_None [OF new] True a vs obtain vs' where
        av: "VoteSet_AddVote ext vs v = Ret (vs', added, err)"
        and h: "hvs' = HeightVoteSet_setVoteSet ?h ?r ?t vs'"
        by (auto simp: HeightVoteSet_AddVote_def Let_def bindGo_Ret_iff)
      have ent': "round_entry ext ?h ?r ?t vs'"
        using AddVote_entry [OF laws ent av] by (simp add: round_entry_def)
      have bd: "hvs_rounds_bounded ?h" if b: "hvs_rounds_bounded hvs"
      proof -
        let ?m = "hvs_peerCatchupRounds hvs"
        have c: "insert ?r (\<Union>l\<in>ran ?m. set l) \<subseteq> (\<Union>l\<in>ran (?m(peer \<mapsto> ?l @ [?r])). set l)"
          by (rule catchup_grows)
        have d: "dom (hvs_roundVoteSets ?h) = insert ?r (dom (hvs_roundVoteSets hvs))"
          "hvs_round ?h = hvs_round hvs" "hvs_peerCatchupRounds ?h = ?m(peer \<mapsto> ?l @ [?r])"
          by simp_all
        from b have b': "0 \<le> hvs_round hvs" "{0..hvs_round hvs} \<subseteq> dom (hvs_roundVoteSets hvs)"
          "dom (hvs_roundVoteSets hvs) \<subseteq> {0..hvs_round hvs} \<union> (\<Union>l\<in>ran ?m. set l)"
          by (simp_all add: hvs_rounds_bounded_def)
        show ?thesis unfolding hvs_rounds_bounded_def d using b' c by (intro conjI) blast+
      qed
      have "same_height hvs ?h" by (simp add: same_height_def)
      then have "same_height hvs hvs'" unfolding h by (rule same_height_trans) simp
      moreover have "hvs_round hvs' = hvs_round hvs" by (simp add: h)
      ultimately show ?thesis
        using setVoteSet_inv [OF ih t ent'] bd by (simp add: h)
    qed
  qed
qed

lemma HVS_SetPeerMaj23_inv:
  assumes laws: "bitArray_laws ext" and inv: "hvs_inv ext hvs"
  shows "\<exists>hvs'. HeightVoteSet_SetPeerMaj23 ext hvs r t peer b = Ret hvs' \<and> hvs_inv ext hvs' \<and>
     same_height hvs hvs' \<and> hvs_round hvs' = hvs_round hvs \<and>
     (hvs_rounds_bounded hvs \<longrightarrow> hvs_rounds_bounded hvs')"
proof (cases "IsVoteTypeValid t")
  case False
  with inv show ?thesis by (simp add: HeightVoteSet_SetPeerMaj23_def same_height_def)
next
  case t: True
  show ?thesis
  proof (cases "hvs_roundVoteSets hvs r")
    case None
    with getVoteSet_None [OF None] t inv show ?thesis
      by (simp add: HeightVoteSet_SetPeerMaj23_def same_height_def)
  next
    case (Some rvs)
    obtain vs where g: "HeightVoteSet_getVoteSet hvs r t = Ret (Some vs)"
      and ent: "round_entry ext hvs r t vs"
      by (rule getVoteSet_Some [OF inv t Some])
    have "voteSet_inv ext vs" using ent by (simp add: round_entry_def)
    from vote_step_entry [OF ent SetPeerMaj23_step [OF laws this]]
    have "round_entry ext hvs r t (VoteSet_SetPeerMaj23 ext vs peer b)" .
    with setVoteSet_inv [OF inv t] g t show ?thesis
      by (simp add: HeightVoteSet_SetPeerMaj23_def)
  qed
qed

section \<open>Reachable height vote sets\<close>

text \<open>The operations of \<open>ConsensusState\<close> and the reactor on the store.\<close>

inductive heightVoteSet_step ::
    "('b, 'z) ext_scheme \<Rightarrow> 'b heightVoteSet \<Rightarrow> 'b heightVoteSet \<Rightarrow> bool" for ext where
  hvs_AddVote: "HeightVoteSet_AddVote ext hvs v peer = Ret (hvs', added, err) \<Longrightarrow>
     heightVoteSet_step ext hvs hvs'"
| hvs_SetPeerMaj23: "HeightVoteSet_SetPeerMaj23 ext hvs r t peer b = Ret hvs' \<Longrightarrow>
     heightVoteSet_step ext hvs hvs'"
| hvs_SetRound: "HeightVoteSet_SetRound ext hvs r = Ret hvs' \<Longrightarrow> 0 \<le> r \<Longrightarrow>
     heightVoteSet_step ext hvs hvs'"
| hvs_ResetTop2Round: "HeightVoteSet_ResetTop2Round ext hvs r = Ret hvs' \<Longrightarrow>
     heightVoteSet_step ext hvs hvs'"

lemma rounds_extend:
  fixes c r :: int
  assumes "0 \<le> c" "{0..c} \<subseteq> D" "D \<subseteq> {0..c} \<union> C" "c \<le> r"
  shows "{0..r} \<subseteq> D \<union> {c + 1..r} \<and> D \<union> {c + 1..r} \<subseteq> {0..r} \<union> C"
proof -
  have "{0..r} = {0..c} \<union> {c + 1..r}" using assms(1,4) by auto
  with assms(2,3) show ?thesis by auto
qed

lemma rounds_reset:
  fixes c r :: int
  assumes "{0..c} \<subseteq> D" "D \<subseteq> {0..c} \<union> C" "1 \<le> r" "r \<le> c"
  shows "{0..r} \<subseteq> (D - {r - 1..c}) \<union> {r - 1, r} \<and> (D - {r - 1..c}) \<union> {r - 1, r} \<subseteq> {0..r} \<union> C"
proof -
  have "{0..r} = {0..r - 2} \<union> {r - 1, r}" "{0..r - 2} = {0..c} - {r - 1..c}" using assms(3,4) by auto
  with assms(1,2) show ?thesis by auto
qed

lemma heightVoteSet_step_inv:
  assumes "heightVoteSet_step ext hvs hvs'" and laws: "bitArray_laws ext"
    and inv: "hvs_inv ext hvs" and b: "hvs_rounds_bounded hvs"
  shows "hvs_inv ext hvs' \<and> hvs_rounds_bounded hvs' \<and> same_height hvs hvs'"
proof -
  note bd = b [unfolded hvs_rounds_bounded_def, THEN conjunct1]
    b [unfolded hvs_rounds_bounded_def, THEN conjunct2, THEN conjunct1]
    b [unfolded hvs_rounds_bounded_def, THEN conjunct2, THEN conjunct2]
  show ?thesis
    using assms(1)
  proof cases
    case (hvs_AddVote v peer added err)
    with HVS_AddVote_inv [OF laws inv] b show ?thesis by blast
  next
    case (hvs_SetPeerMaj23 r t peer bid)
    with HVS_SetPeerMaj23_inv [OF laws inv, of r t peer bid] b show ?thesis by auto
  next
    case (hvs_SetRound r)
    with hvs.setRound_iff [of ext hvs r] laws inv have r0: "hvs_round hvs = 0 \<or> hvs_round hvs < r"
      by (auto simp: returns_iff)
    from HVS_SetRound [OF laws inv r0] hvs_SetRound(1) have
      s: "hvs_inv ext hvs'" "hvs_round hvs' = r" "same_height hvs hvs'"
        "hvs_peerCatchupRounds hvs' = hvs_peerCatchupRounds hvs"
        "dom (hvs_roundVoteSets hvs') = dom (hvs_roundVoteSets hvs) \<union> {hvs_round hvs + 1..r}"
      by simp_all
    have "hvs_rounds_bounded hvs'"
      unfolding hvs_rounds_bounded_def s(2,4,5)
      using rounds_extend [OF bd, of r] r0 hvs_SetRound(2) by linarith
    with s show ?thesis by blast
  next
    case (hvs_ResetTop2Round r)
    then have r: "1 \<le> r" "r \<le> hvs_round hvs"
      by (auto simp: HeightVoteSet_ResetTop2Round_def split: if_splits)
    from HVS_ResetTop2Round [OF laws inv r] hvs_ResetTop2Round have
      s: "hvs_inv ext hvs'" "hvs_round hvs' = r" "same_height hvs hvs'"
        "hvs_peerCatchupRounds hvs' = hvs_peerCatchupRounds hvs"
        "dom (hvs_roundVoteSets hvs') = (dom (hvs_roundVoteSets hvs) - {r - 1..hvs_round hvs}) \<union> {r - 1, r}"
      by simp_all
    have "hvs_rounds_bounded hvs'"
      unfolding hvs_rounds_bounded_def s(2,4,5) using rounds_reset [OF bd(2,3) r] r by linarith
    with s show ?thesis by blast
  qed
qed

lemma NewHeightVoteSet_inv:
  assumes laws: "bitArray_laws ext" and nn: "powers_nonneg valSet" and h: "height \<noteq> 0"
  shows "\<exists>hvs. NewHeightVoteSet ext chainID height valSet = Ret hvs \<and> hvs_inv ext hvs \<and>
     hvs_rounds_bounded hvs \<and> hvs_chainID hvs = chainID \<and> hvs_height hvs = height \<and>
     hvs_valSet hvs = valSet \<and> hvs_round hvs = 0"
proof -
  let ?h = "\<lparr>hvs_chainID = chainID, hvs_height = height, hvs_valSet = valSet, hvs_round = 0,
      hvs_roundVoteSets = Map.empty, hvs_peerCatchupRounds = Map.empty\<rparr> :: 'a heightVoteSet"
  have i: "hvs_inv ext ?h" using nn h by (simp add: hvs_inv_def)
  from HVS_addRound [OF laws i, of 0] obtain rvs where
    "HeightVoteSet_addRound ext ?h 0 = Ret (?h\<lparr>hvs_roundVoteSets := [0 \<mapsto> rvs]\<rparr>)"
    "hvs_inv ext (?h\<lparr>hvs_roundVoteSets := [0 \<mapsto> rvs]\<rparr>)"
    by auto
  then show ?thesis
    by (simp add: NewHeightVoteSet_def HeightVoteSet_Reset_def hvs_rounds_bounded_def)
qed

section \<open>The last polka\<close>

text \<open>The majority that a round's prevotes have, in the form \<open>POLInfo\<close> looks at it.\<close>

definition polka :: "'b heightVoteSignAggr \<Rightarrow> int \<Rightarrow> blockID option" where
  "polka hvs r =
     (case hsa_roundVoteSignAggrs hvs r of
        None \<Rightarrow> None
      | Some rvs \<Rightarrow>
          (case rsa_Prevotes rvs of
             None \<Rightarrow> None
           | Some sa \<Rightarrow> if BlockID_IsZero (sa_Maj23 sa) then None else Some (sa_Maj23 sa)))"

lemma getSignAggr_polka:
  "\<exists>sa. HeightVoteSignAggr_getSignAggr hvs r VoteTypePrevote = Ret sa \<and>
     SignAggr_TwoThirdsMajority sa =
       (case polka hvs r of Some b \<Rightarrow> (b, True) | None \<Rightarrow> (zeroBlockID, False))"
  by (auto simp: HeightVoteSignAggr_getSignAggr_def SignAggr_TwoThirdsMajority_def polka_def
      split: option.splits)

lemma POLloop_find:
  "HeightVoteSignAggr_POLloop hvs rs =
     Ret (case find (\<lambda>r. polka hvs r \<noteq> None) rs of
            Some r \<Rightarrow> (r, the (polka hvs r)) | None \<Rightarrow> (-1, zeroBlockID))"
proof (induction rs)
  case (Cons r rs)
  from getSignAggr_polka [of hvs r] obtain sa where
    "HeightVoteSignAggr_getSignAggr hvs r VoteTypePrevote = Ret sa"
    "SignAggr_TwoThirdsMajority sa =
       (case polka hvs r of Some b \<Rightarrow> (b, True) | None \<Rightarrow> (zeroBlockID, False))"
    by blast
  with Cons.IH show ?case by (cases "polka hvs r") auto
qed simp

lemma find_append:
  "find P (xs @ ys) = (case find P xs of Some x \<Rightarrow> Some x | None \<Rightarrow> find P ys)"
  by (induction xs) auto

lemma find_rev_upto:
  "find P (rev [a..b]) = Some r \<longleftrightarrow> a \<le> r \<and> r \<le> b \<and> P r \<and> (\<forall>r'. r < r' \<longrightarrow> r' \<le> b \<longrightarrow> \<not> P r')"
proof (induction a b arbitrary: r rule: upto.induct)
  case (1 a b)
  show ?case
  proof (cases "a \<le> b")
    case True
    have "rev [a..b] = rev [a + 1..b] @ [a]" using True by (simp add: upto_rec1)
    then have "find P (rev [a..b]) =
        (case find P (rev [a + 1..b]) of Some r \<Rightarrow> Some r | None \<Rightarrow> if P a then Some a else None)"
      by (simp add: find_append cong: option.case_cong)
    note eq = this
    show ?thesis
    proof (cases "find P (rev [a + 1..b])")
      case None
      then have "\<forall>x. a < x \<longrightarrow> x \<le> b \<longrightarrow> \<not> P x" by (auto simp: find_None_iff)
      then show ?thesis unfolding eq None using True by (cases "r = a") auto
    next
      case (Some x)
      with 1 [OF True, of x] have "a + 1 \<le> x" "x \<le> b" "P x" "\<forall>r'. x < r' \<longrightarrow> r' \<le> b \<longrightarrow> \<not> P r'"
        by simp_all
      then show ?thesis unfolding eq Some
        by (cases "x < r"; cases "r < x") auto
    qed
  qed simp
qed

section \<open>Concrete inputs\<close>

definition demo_signAggr :: "bool list option signAggr" where
  "demo_signAggr = MakeSignAggr 5 1 VoteTypePrevote 4 demo_blockID ''chain''
     (Some [True, True, True, False]) (Some [11, 12, 13, 5, 1, 1, 7])"

definition demo_heightSignAggr :: "bool list option heightVoteSignAggr" where
  "demo_heightSignAggr =
     \<lparr>hsa_chainID = ''chain'', hsa_height = 5, hsa_valSet = demo_validators, hsa_round = 2,
      hsa_roundVoteSignAggrs =
        [0 \<mapsto> \<lparr>rsa_Prevotes = None, rsa_Precommits = None\<rparr>,
         1 \<mapsto> \<lparr>rsa_Prevotes = Some demo_signAggr, rsa_Precommits = None\<rparr>,
         2 \<mapsto> \<lparr>rsa_Prevotes = None, rsa_Precommits = None\<rparr>]\<rparr>"

section \<open>Properties\<close>

text \<open>
  C24: every height vote set that the operations reach from \<open>NewHeightVoteSet\<close> satisfies the
  invariant: each stored vote set is well formed and belongs to the height, the validators, its
  round and its type; all rounds from 0 to the current one are present; a round outside that
  range was requested by a peer, and no peer has more than two such rounds, so votes of a peer
  cannot grow the store without bound.
\<close>

theorem heightVoteSet_reachable:
  assumes "bitArray_laws ext" "powers_nonneg valSet"
    and "NewHeightVoteSet ext chainID height valSet = Ret hvs0"
    and "(heightVoteSet_step ext)\<^sup>*\<^sup>* hvs0 hvs"
  shows "hvs_inv ext hvs \<and> hvs_chainID hvs = chainID \<and> hvs_height hvs = height \<and>
     hvs_valSet hvs = valSet \<and>
     {0..hvs_round hvs} \<subseteq> dom (hvs_roundVoteSets hvs) \<and>
     dom (hvs_roundVoteSets hvs) \<subseteq>
       {0..hvs_round hvs} \<union> (\<Union>l\<in>ran (hvs_peerCatchupRounds hvs). set l) \<and>
     (\<forall>p l. hvs_peerCatchupRounds hvs p = Some l \<longrightarrow> length l \<le> 2)"
proof -
  have h: "height \<noteq> 0"
    using assms(3)
    by (auto simp: NewHeightVoteSet_def HeightVoteSet_Reset_def HeightVoteSet_addRound_def
        NewVoteSet_def)
  from assms(4) have "hvs_inv ext hvs \<and> hvs_rounds_bounded hvs \<and> same_height hvs0 hvs"
  proof (induction rule: rtranclp_induct)
    case base
    show ?case
      using NewHeightVoteSet_inv [OF assms(1,2) h, of chainID] assms(3) by (auto simp: same_height_def)
  next
    case (step s t)
    then show ?case
      using heightVoteSet_step_inv [OF step.hyps(2) assms(1)] same_height_trans by blast
  qed
  moreover have "hvs_chainID hvs0 = chainID \<and> hvs_height hvs0 = height \<and> hvs_valSet hvs0 = valSet"
    using NewHeightVoteSet_inv [OF assms(1,2) h, of chainID] assms(3) by auto
  ultimately show ?thesis
    by (simp add: same_height_def hvs_rounds_bounded_def) (simp add: hvs_inv_def)
qed

theorem heightVoteSet_reachable_witness:
  "\<exists>hvs0 hvs. NewHeightVoteSet demo_ext ''chain'' 5 demo_validators = Ret hvs0 \<and>
     HeightVoteSet_SetRound demo_ext hvs0 3 = Ret hvs \<and> {0..3} \<subseteq> dom (hvs_roundVoteSets hvs)"
proof -
  obtain hvs0 where n: "NewHeightVoteSet demo_ext ''chain'' 5 demo_validators = Ret hvs0"
    and i: "hvs_inv demo_ext hvs0" "hvs_round hvs0 = 0"
    using NewHeightVoteSet_inv [OF demo_ext_laws demo_validators_nonneg, of 5 "''chain''"] by auto
  obtain hvs where s: "HeightVoteSet_SetRound demo_ext hvs0 3 = Ret hvs" and c: "hvs_round hvs = 3"
    using HVS_SetRound [OF demo_ext_laws i(1), of 3] i(2) by auto
  have "(heightVoteSet_step demo_ext)\<^sup>*\<^sup>* hvs0 hvs"
    by (rule r_into_rtranclp, rule hvs_SetRound [OF s]) simp
  from heightVoteSet_reachable [OF demo_ext_laws demo_validators_nonneg n this] n s c
  show ?thesis by simp
qed

text \<open>
  C26: \<open>POLInfo\<close> of the aggregates never panics and returns the last round, up to the current one,
  whose prevote aggregate is for a non-zero block, together with that block, or -1 when there is
  no such round.
\<close>

theorem POLInfo_latest:
  "\<exists>r b. HeightVoteSignAggr_POLInfo hvs = Ret (r, b) \<and>
     (if \<exists>q. 0 \<le> q \<and> q \<le> hsa_round hvs \<and> polka hvs q \<noteq> None
      then 0 \<le> r \<and> r \<le> hsa_round hvs \<and> polka hvs r = Some b \<and>
           (\<forall>q. r < q \<longrightarrow> q \<le> hsa_round hvs \<longrightarrow> polka hvs q = None)
      else r = -1 \<and> b = zeroBlockID)"
proof (cases "find (\<lambda>r. polka hvs r \<noteq> None) (rev [0 .. hsa_round hvs])")
  case None
  then have "\<not> (\<exists>q. 0 \<le> q \<and> q \<le> hsa_round hvs \<and> polka hvs q \<noteq> None)"
    by (auto simp: find_None_iff)
  with None show ?thesis by (simp add: HeightVoteSignAggr_POLInfo_def POLloop_find)
next
  case (Some r)
  with Some [unfolded find_rev_upto] show ?thesis
    by (auto simp: HeightVoteSignAggr_POLInfo_def POLloop_find)
qed

theorem POLInfo_latest_witness:
  "\<exists>r b. HeightVoteSignAggr_POLInfo demo_heightSignAggr = Ret (r, b) \<and> 0 \<le> r \<and>
     polka demo_heightSignAggr r = Some b"
proof -
  have "polka demo_heightSignAggr 1 \<noteq> None" "hsa_round demo_heightSignAggr = 2" by code_simp+
  then have "\<exists>q. 0 \<le> q \<and> q \<le> hsa_round demo_heightSignAggr \<and> polka demo_heightSignAggr q \<noteq> None"
    by (intro exI [of _ 1]) simp
  with POLInfo_latest [of demo_heightSignAggr] show ?thesis by auto
qed

text \<open>
  \<open>AddSignAggr\<close> stores the first aggregate of a round and a type and never replaces one: it
  reports true exactly when the type is a vote type, the round is open and its slot is empty, and
  afterwards that slot, and no other, has the aggregate.
\<close>

theorem AddSignAggr_first_wins:
  "\<exists>hvs' added. HeightVoteSignAggr_AddSignAggr hvs sa = Ret (hvs', added) \<and>
     (added \<longleftrightarrow> IsVoteTypeValid (sa_Type sa) \<and>
        HeightVoteSignAggr_getSignAggr hvs (sa_Round sa) (sa_Type sa) = Ret None \<and>
        sa_Round sa \<in> dom (hsa_roundVoteSignAggrs hvs)) \<and>
     (\<not> added \<longrightarrow> hvs' = hvs) \<and>
     (\<forall>r t. HeightVoteSignAggr_getSignAggr hvs' r t =
        (if added \<and> r = sa_Round sa \<and> t = sa_Type sa then Ret (Some sa)
         else HeightVoteSignAggr_getSignAggr hvs r t))"
proof (cases "IsVoteTypeValid (sa_Type sa)")
  case True
  then show ?thesis
    by (cases "hsa_roundVoteSignAggrs hvs (sa_Round sa)")
      (auto simp: HeightVoteSignAggr_AddSignAggr_def HeightVoteSignAggr_getSignAggr_def valid_types)
qed (auto simp: HeightVoteSignAggr_AddSignAggr_def)

theorem AddSignAggr_first_wins_witness:
  "\<exists>hvs'. HeightVoteSignAggr_AddSignAggr demo_heightSignAggr (demo_signAggr\<lparr>sa_Round := 2\<rparr>) = Ret (hvs', True) \<and>
     HeightVoteSignAggr_getSignAggr hvs' 2 VoteTypePrevote = Ret (Some (demo_signAggr\<lparr>sa_Round := 2\<rparr>))"
proof -
  let ?sa = "demo_signAggr\<lparr>sa_Round := 2\<rparr>"
  have "IsVoteTypeValid (sa_Type ?sa)"
    "HeightVoteSignAggr_getSignAggr demo_heightSignAggr (sa_Round ?sa) (sa_Type ?sa) = Ret None"
    "sa_Round ?sa \<in> dom (hsa_roundVoteSignAggrs demo_heightSignAggr)"
    "sa_Round ?sa = 2" "sa_Type ?sa = VoteTypePrevote"
    by (auto simp: demo_signAggr_def demo_heightSignAggr_def MakeSignAggr_def
        HeightVoteSignAggr_getSignAggr_def IsVoteTypeValid_def)
  with AddSignAggr_first_wins [of demo_heightSignAggr ?sa] show ?thesis by auto
qed

end
