(* ===== verification/Part_Set.thy ===== *)
theory Part_Set
  imports Vote_Theorems
begin

text \<open>
  \<open>types/part_set.go\<close>: a block is sent as parts with Merkle proofs and reassembled by the
  receiver. The cached hash of a part is left out (\<open>Hash()\<close> is \<open>ripemd160\<close> of the bytes), and the
  allocation of the slice of a header's \<open>Total\<close> parts is taken to succeed. The properties: the
  invariant of a part set, the behaviour of the reader, and the round trip from data to parts, in
  any order and with repetitions, and back to data.
\<close>

section \<open>Parts and part sets\<close>

record part =
  part_Index :: int
  part_Bytes :: bytes
  part_Proof :: simpleProof

definition Part_Hash :: "('b, 'z) ext_scheme \<Rightarrow> part \<Rightarrow> bytes" where
  "Part_Hash ext part = ripemd160 ext (part_Bytes part)"

record 'b partSet =
  ps_total :: int
  ps_hash :: bytes
  ps_parts :: "part option list"
  ps_partsBitArray :: 'b
  ps_count :: int

definition NewPartSetFromData :: "('b, 'z) ext_scheme \<Rightarrow> bytes \<Rightarrow> nat \<Rightarrow> 'b partSet go" where
  "NewPartSetFromData ext data partSize =
     (if partSize = 0 then Panic ''integer divide by zero''
      else
        (let total = (length data + partSize - 1) div partSize;
             slice = (\<lambda>i. take (min (length data) ((i + 1) * partSize) - i * partSize)
                               (drop (i * partSize) data));
             partsBitArray = fold (\<lambda>i b. BA_SetIndex ext b i True) [0..<total] (BA_New ext total);
             (root, proofs) = merkle_SimpleProofs ext (map (\<lambda>i. ripemd160 ext (slice i)) [0..<total])
         in if length proofs < total then Panic ''index out of range''
            else Ret \<lparr>ps_total = int total, ps_hash = root,
                      ps_parts = map (\<lambda>i. Some \<lparr>part_Index = int i, part_Bytes = slice i,
                                               part_Proof = proofs ! i\<rparr>) [0..<total],
                      ps_partsBitArray = partsBitArray, ps_count = int total\<rparr>))"

definition NewPartSetFromHeader :: "('b, 'z) ext_scheme \<Rightarrow> partSetHeader \<Rightarrow> 'b partSet" where
  "NewPartSetFromHeader ext header =
     \<lparr>ps_total = sint (psh_Total header), ps_hash = psh_Hash header,
      ps_parts = replicate (unat (psh_Total header)) None,
      ps_partsBitArray = BA_New ext (unat (psh_Total header)), ps_count = 0\<rparr>"

text \<open>A nil \<open>*PartSet\<close> is \<open>None\<close>.\<close>

definition PartSet_Header :: "'b partSet option \<Rightarrow> partSetHeader" where
  "PartSet_Header ps =
     (case ps of None \<Rightarrow> zeroPartSetHeader
      | Some ps \<Rightarrow> \<lparr>psh_Total = word_of_int (ps_total ps), psh_Hash = ps_hash ps\<rparr>)"

definition PartSet_HasHeader :: "'b partSet option \<Rightarrow> partSetHeader \<Rightarrow> bool" where
  "PartSet_HasHeader ps header =
     (case ps of None \<Rightarrow> False | Some _ \<Rightarrow> PartSetHeader_Equals (PartSet_Header ps) header)"

definition PartSet_BitArray :: "('b, 'z) ext_scheme \<Rightarrow> 'b partSet \<Rightarrow> 'b" where
  "PartSet_BitArray ext ps = BA_Copy ext (ps_partsBitArray ps)"

definition PartSet_HashesTo :: "'b partSet option \<Rightarrow> bytes \<Rightarrow> bool" where
  "PartSet_HashesTo ps hash = (case ps of None \<Rightarrow> False | Some ps \<Rightarrow> ps_hash ps = hash)"

definition PartSet_Count :: "'b partSet option \<Rightarrow> int" where
  "PartSet_Count ps = (case ps of None \<Rightarrow> 0 | Some ps \<Rightarrow> ps_count ps)"

definition PartSet_Total :: "'b partSet option \<Rightarrow> int" where
  "PartSet_Total ps = (case ps of None \<Rightarrow> 0 | Some ps \<Rightarrow> ps_total ps)"

datatype partSetErr = ErrPartSetUnexpectedIndex | ErrPartSetInvalidProof

text \<open>A negative index passes the range test and panics in \<open>ps.parts[part.Index]\<close>.\<close>

definition PartSet_AddPart ::
    "('b, 'z) ext_scheme \<Rightarrow> 'b partSet \<Rightarrow> part \<Rightarrow> bool \<Rightarrow> ('b partSet \<times> bool \<times> partSetErr option) go" where
  "PartSet_AddPart ext ps part verify =
     (if ps_total ps \<le> part_Index part then Ret (ps, False, Some ErrPartSetUnexpectedIndex)
      else if part_Index part < 0 \<or> length (ps_parts ps) \<le> nat (part_Index part)
      then Panic ''index out of range''
      else if ps_parts ps ! nat (part_Index part) \<noteq> None then Ret (ps, False, None)
      else if verify \<and> \<not> merkle_Verify ext (part_Proof part) (part_Index part) (ps_total ps)
                            (Part_Hash ext part) (ps_hash ps)
      then Ret (ps, False, Some ErrPartSetInvalidProof)
      else Ret (ps\<lparr>ps_parts := (ps_parts ps)[nat (part_Index part) := Some part],
                   ps_partsBitArray :=
                     BA_SetIndex ext (ps_partsBitArray ps) (nat (part_Index part)) True,
                   ps_count := ps_count ps + 1\<rparr>, True, None))"

definition PartSet_GetPart :: "'b partSet \<Rightarrow> int \<Rightarrow> part option go" where
  "PartSet_GetPart ps index =
     (if index < 0 \<or> length (ps_parts ps) \<le> nat index then Panic ''index out of range''
      else Ret (ps_parts ps ! nat index))"

definition PartSet_IsComplete :: "'b partSet \<Rightarrow> bool" where
  "PartSet_IsComplete ps \<longleftrightarrow> ps_count ps = ps_total ps"

section \<open>The reader\<close>

text \<open>\<open>psr_rest\<close> is the unread rest of the \<open>bytes.Reader\<close> over the current part.\<close>

record partSetReader =
  psr_i :: nat
  psr_parts :: "part option list"
  psr_rest :: bytes

definition NewPartSetReader :: "part option list \<Rightarrow> partSetReader go" where
  "NewPartSetReader parts =
     (case parts of
        [] \<Rightarrow> Panic ''index out of range''
      | None # _ \<Rightarrow> Panic ''nil pointer dereference''
      | Some part # _ \<Rightarrow> Ret \<lparr>psr_i = 0, psr_parts = parts, psr_rest = part_Bytes part\<rparr>)"

definition PartSet_GetReader :: "'b partSet \<Rightarrow> partSetReader go" where
  "PartSet_GetReader ps =
     (if \<not> PartSet_IsComplete ps then Panic ''Cannot GetReader() on incomplete PartSet''
      else NewPartSetReader (ps_parts ps))"

text \<open>
  \<open>bytes.Reader.Read\<close> into a slice of \<open>n\<close> bytes: the bytes read, and whether the error is
  \<open>io.EOF\<close>.
\<close>

definition bytesReader_Read :: "partSetReader \<Rightarrow> nat \<Rightarrow> partSetReader \<times> bytes \<times> bool" where
  "bytesReader_Read psr n =
     (if psr_rest psr = [] then (psr, [], True)
      else (psr\<lparr>psr_rest := drop n (psr_rest psr)\<rparr>, take n (psr_rest psr), False))"

text \<open>
  \<open>Read(p)\<close> for \<open>len(p) = n\<close>. The first of the two recursive calls, \<open>psr.Read(p[:readerLen])\<close>,
  takes the first branch, which is the read from the \<open>bytes.Reader\<close>.
\<close>

function PartSetReader_Read :: "partSetReader \<Rightarrow> nat \<Rightarrow> (partSetReader \<times> bytes \<times> bool) go" where
  "PartSetReader_Read psr n =
     (let readerLen = length (psr_rest psr) in
      if n \<le> readerLen then Ret (bytesReader_Read psr n)
      else if 0 < readerLen then
        (case bytesReader_Read psr readerLen of
           (psr, bs1, eof) \<Rightarrow>
             if eof then Ret (psr, bs1, eof)
             else bindGo (PartSetReader_Read psr (n - readerLen))
                    (\<lambda>(psr, bs2, eof). Ret (psr, bs1 @ bs2, eof)))
      else if length (psr_parts psr) \<le> psr_i psr + 1
      then Ret (psr\<lparr>psr_i := psr_i psr + 1\<rparr>, [], True)
      else (case psr_parts psr ! (psr_i psr + 1) of
              None \<Rightarrow> Panic ''nil pointer dereference''
            | Some part \<Rightarrow>
                PartSetReader_Read
                  (psr\<lparr>psr_i := psr_i psr + 1, psr_rest := part_Bytes part\<rparr>) n))"
  by pat_completeness auto
termination
  by (relation "measure (\<lambda>(psr, n). 2 * (length (psr_parts psr) - psr_i psr) +
        (if psr_rest psr = [] then 0 else 1))") (auto simp: bytesReader_Read_def split: if_splits)

declare PartSetReader_Read.simps [simp del]

section \<open>The invariant\<close>

definition present :: "'b partSet \<Rightarrow> nat set" where
  "present ps = {i. i < length (ps_parts ps) \<and> ps_parts ps ! i \<noteq> None}"

definition partSet_inv :: "('b, 'z) ext_scheme \<Rightarrow> 'b partSet \<Rightarrow> bool" where
  "partSet_inv ext ps \<longleftrightarrow>
     ps_total ps = int (length (ps_parts ps)) \<and> ps_count ps = int (card (present ps)) \<and>
     BA_Size ext (ps_partsBitArray ps) = length (ps_parts ps) \<and>
     bitsOf ext (ps_partsBitArray ps) = present ps \<and>
     (\<forall>i p. i < length (ps_parts ps) \<longrightarrow> ps_parts ps ! i = Some p \<longrightarrow> part_Index p = int i)"

lemma present_subset: "present ps \<subseteq> {..<length (ps_parts ps)}"
  by (auto simp: present_def)

lemma finite_present [simp]: "finite (present ps)"
  by (rule finite_subset [OF present_subset]) simp

lemma IsComplete_iff:
  assumes "partSet_inv ext ps"
  shows "PartSet_IsComplete ps \<longleftrightarrow> (\<forall>i < length (ps_parts ps). ps_parts ps ! i \<noteq> None)"
proof -
  have "PartSet_IsComplete ps \<longleftrightarrow> card (present ps) = card {..<length (ps_parts ps)}"
    using assms by (simp add: PartSet_IsComplete_def partSet_inv_def)
  also have "\<dots> \<longleftrightarrow> present ps = {..<length (ps_parts ps)}"
    by (metis card_subset_eq finite_lessThan present_subset)
  also have "\<dots> \<longleftrightarrow> (\<forall>i < length (ps_parts ps). ps_parts ps ! i \<noteq> None)"
    by (auto simp: present_def)
  finally show ?thesis .
qed

lemma NewPartSetFromHeader_inv:
  assumes "bitArray_laws ext" "0 \<le> sint (psh_Total h)"
  shows "partSet_inv ext (NewPartSetFromHeader ext h)"
  using assms
  by (auto simp: partSet_inv_def NewPartSetFromHeader_def present_def BA_Size_New bitsOf_New
      sint_nonneg_unat)

lemma AddPart_step:
  assumes laws: "bitArray_laws ext" and inv: "partSet_inv ext ps"
    and r: "PartSet_AddPart ext ps p verify = Ret (ps', added, err)"
  shows "partSet_inv ext ps' \<and> ps_total ps' = ps_total ps \<and> ps_hash ps' = ps_hash ps \<and>
     (added \<longrightarrow> 0 \<le> part_Index p \<and> part_Index p < ps_total ps \<and> nat (part_Index p) \<notin> present ps \<and>
        ps_parts ps' = (ps_parts ps)[nat (part_Index p) := Some p] \<and> err = None) \<and>
     (\<not> added \<longrightarrow> ps' = ps)"
proof (cases added)
  case False
  with r inv show ?thesis by (auto simp: PartSet_AddPart_def split: if_splits)
next
  case True
  let ?i = "nat (part_Index p)"
  from r True have i: "0 \<le> part_Index p" "?i < length (ps_parts ps)" "ps_parts ps ! ?i = None"
      "part_Index p < ps_total ps" and e: "err = None"
    and ps': "ps' = ps\<lparr>ps_parts := (ps_parts ps)[?i := Some p],
       ps_partsBitArray := BA_SetIndex ext (ps_partsBitArray ps) ?i True, ps_count := ps_count ps + 1\<rparr>"
    by (auto simp: PartSet_AddPart_def split: if_splits)
  have pr: "present ps' = insert ?i (present ps)" and new: "?i \<notin> present ps"
    using i by (auto simp: ps' present_def nth_list_update)
  have f: "ps_parts ps' = (ps_parts ps)[?i := Some p]" "ps_count ps' = ps_count ps + 1"
      "ps_partsBitArray ps' = BA_SetIndex ext (ps_partsBitArray ps) ?i True" "ps_total ps' = ps_total ps"
    by (simp_all add: ps')
  have v: "ps_total ps = int (length (ps_parts ps))" "ps_count ps = int (card (present ps))"
      "BA_Size ext (ps_partsBitArray ps) = length (ps_parts ps)"
      "bitsOf ext (ps_partsBitArray ps) = present ps"
    and ix: "\<And>j q. j < length (ps_parts ps) \<Longrightarrow> ps_parts ps ! j = Some q \<Longrightarrow> part_Index q = int j"
    using inv unfolding partSet_inv_def by blast+
  have "bitsOf ext (ps_partsBitArray ps') = present ps'"
    using i v unfolding f pr by (simp add: bitsOf_Set [OF laws])
  moreover have "ps_count ps' = int (card (present ps'))"
    using v new unfolding f pr by simp
  moreover have "part_Index q = int j" if "j < length (ps_parts ps')" "ps_parts ps' ! j = Some q" for j q
    using ix [of j q] i that unfolding f by (cases "j = ?i") auto
  moreover have "BA_Size ext (ps_partsBitArray ps') = length (ps_parts ps')"
      "ps_total ps' = int (length (ps_parts ps'))"
    using v unfolding f by (simp_all add: BA_Size_Set [OF laws])
  ultimately have "partSet_inv ext ps'"
    unfolding partSet_inv_def by blast
  with True i new e show ?thesis by (simp add: ps')
qed

section \<open>Reading a complete part set\<close>

definition reader_ok :: "partSetReader \<Rightarrow> bool" where
  "reader_ok psr \<longleftrightarrow> (\<forall>i. psr_i psr < i \<longrightarrow> i < length (psr_parts psr) \<longrightarrow> psr_parts psr ! i \<noteq> None)"

definition bytes_of :: "part option \<Rightarrow> bytes" where
  "bytes_of p = (case p of Some p \<Rightarrow> part_Bytes p | None \<Rightarrow> [])"

definition unread :: "partSetReader \<Rightarrow> bytes" where
  "unread psr = psr_rest psr @ concat (map bytes_of (drop (psr_i psr + 1) (psr_parts psr)))"

lemma Read_spec:
  assumes "reader_ok psr" "0 < n"
  shows "\<exists>psr'. PartSetReader_Read psr n = Ret (psr', take n (unread psr), length (unread psr) < n) \<and>
     reader_ok psr' \<and> unread psr' = drop n (unread psr)"
  using assms
proof (induction psr n rule: PartSetReader_Read.induct)
  case (1 psr n)
  let ?len = "length (psr_rest psr)"
  consider (direct) "n \<le> ?len" | (split) "\<not> n \<le> ?len" "0 < ?len"
    | (last) "?len = 0" "length (psr_parts psr) \<le> psr_i psr + 1"
    | (next_part) p where "?len = 0" "psr_i psr + 1 < length (psr_parts psr)"
        "psr_parts psr ! (psr_i psr + 1) = Some p"
    using 1(3) by (cases "n \<le> ?len"; cases "?len = 0"; cases "length (psr_parts psr) \<le> psr_i psr + 1")
      (auto simp: reader_ok_def)
  then show ?case
  proof cases
    case direct
    then show ?thesis
      using 1(3,4) by (auto simp: PartSetReader_Read.simps bytesReader_Read_def unread_def reader_ok_def)
  next
    case split
    let ?p = "psr\<lparr>psr_rest := []\<rparr>"
    have b: "bytesReader_Read psr ?len = (?p, psr_rest psr, False)"
      using split by (auto simp: bytesReader_Read_def)
    have u: "unread psr = psr_rest psr @ unread ?p" by (simp add: unread_def)
    have "reader_ok ?p" using 1(3) by (simp add: reader_ok_def)
    from 1(1) [OF refl split b [symmetric] refl _ this] split obtain psr' where
      "PartSetReader_Read ?p (n - ?len) = Ret (psr', take (n - ?len) (unread ?p), length (unread ?p) < n - ?len)"
      "reader_ok psr'" "unread psr' = drop (n - ?len) (unread ?p)"
      by auto
    then show ?thesis
      using split b u by (auto simp: PartSetReader_Read.simps [of psr n] Let_def)
  next
    case last
    then show ?thesis
      using 1(4) by (simp add: PartSetReader_Read.simps [of psr n] unread_def reader_ok_def)
  next
    case next_part
    let ?p = "psr\<lparr>psr_i := psr_i psr + 1, psr_rest := part_Bytes p\<rparr>"
    have u: "unread psr = unread ?p"
      using next_part by (simp add: unread_def bytes_of_def Cons_nth_drop_Suc [symmetric])
    have ok: "reader_ok ?p" using 1(3) by (simp add: reader_ok_def)
    have "PartSetReader_Read psr n = PartSetReader_Read ?p n"
      using next_part 1(4) by (simp add: PartSetReader_Read.simps [of psr n])
    moreover have "\<exists>psr'. PartSetReader_Read ?p n = Ret (psr', take n (unread ?p), length (unread ?p) < n) \<and>
        reader_ok psr' \<and> unread psr' = drop n (unread ?p)"
      by (rule 1(2) [OF refl _ _ _ next_part(3) ok 1(4)]) (use next_part 1(4) in auto)
    ultimately show ?thesis unfolding u by simp
  qed
qed

section \<open>From data to parts and back\<close>

text \<open>What the code relies on of the Merkle proofs: a generated proof verifies.\<close>

definition merkle_complete :: "('b, 'z) ext_scheme \<Rightarrow> bool" where
  "merkle_complete ext \<longleftrightarrow>
     (\<forall>hs root proofs. merkle_SimpleProofs ext hs = (root, proofs) \<longrightarrow>
        length proofs = length hs \<and>
        (\<forall>i < length hs. merkle_Verify ext (proofs ! i) (int i) (int (length hs)) (hs ! i) root))"

lemma demo_merkle: "merkle_complete demo_ext"
  by (auto simp: merkle_complete_def demo_ext_def)

definition slice_of :: "bytes \<Rightarrow> nat \<Rightarrow> nat \<Rightarrow> bytes" where
  "slice_of data k i = take (min (length data) ((i + 1) * k) - i * k) (drop (i * k) data)"

lemma concat_slices: "concat (map (slice_of data k) [0..<m]) = take (m * k) data"
proof (induction m)
  case (Suc m)
  have "slice_of data k m = take k (drop (m * k) data)"
    by (auto simp: slice_of_def min_def)
  moreover have "take (Suc m * k) data = take (m * k) data @ take k (drop (m * k) data)"
    unfolding mult_Suc add.commute [of k] by (rule take_add)
  ultimately show ?case using Suc.IH by simp
qed simp

lemma total_covers: "0 < k \<Longrightarrow> n \<le> (n + k - 1) div k * k" for n k :: nat
proof -
  assume k: "0 < k"
  have "(n + k - 1) div k * k + (n + k - 1) mod k = n + k - 1" by (rule div_mult_mod_eq)
  moreover have "(n + k - 1) mod k \<le> k - 1" using k by (simp add: less_Suc_eq_le [symmetric])
  ultimately show ?thesis using k by linarith
qed

lemma FromData_parts:
  assumes m: "merkle_complete ext" and k: "0 < k"
    and r: "NewPartSetFromData ext data k = Ret ps"
  shows "length (ps_parts ps) = (length data + k - 1) div k" (is "_ = ?n")
    and "ps_total ps = int (length (ps_parts ps))"
    and "\<forall>i < length (ps_parts ps). \<exists>p. ps_parts ps ! i = Some p \<and> part_Index p = int i \<and>
           part_Bytes p = slice_of data k i \<and>
           merkle_Verify ext (part_Proof p) (int i) (ps_total ps) (Part_Hash ext p) (ps_hash ps)"
proof -
  let ?hs = "map (\<lambda>i. ripemd160 ext (slice_of data k i)) [0..<?n]"
  obtain root proofs where sp: "merkle_SimpleProofs ext ?hs = (root, proofs)" by fastforce
  have v: "length proofs = ?n"
    "\<forall>i < ?n. merkle_Verify ext (proofs ! i) (int i) (int ?n) (ripemd160 ext (slice_of data k i)) root"
    using m [unfolded merkle_complete_def, rule_format, OF sp] by auto
  have ps: "ps_total ps = int ?n" "ps_hash ps = root"
    "ps_parts ps = map (\<lambda>i. Some \<lparr>part_Index = int i, part_Bytes = slice_of data k i,
                                  part_Proof = proofs ! i\<rparr>) [0..<?n]"
    using r k sp v(1) by (auto simp: NewPartSetFromData_def Let_def slice_of_def)
  then show "length (ps_parts ps) = ?n" "ps_total ps = int (length (ps_parts ps))" by simp_all
  show "\<forall>i < length (ps_parts ps). \<exists>p. ps_parts ps ! i = Some p \<and> part_Index p = int i \<and>
           part_Bytes p = slice_of data k i \<and>
           merkle_Verify ext (part_Proof p) (int i) (ps_total ps) (Part_Hash ext p) (ps_hash ps)"
    using v(2) by (simp add: ps Part_Hash_def)
qed

lemma FromData_bytes:
  assumes "merkle_complete ext" "0 < k" "NewPartSetFromData ext data k = Ret ps"
  shows "concat (map bytes_of (ps_parts ps)) = data"
proof -
  note f = FromData_parts [OF assms]
  have "bytes_of (ps_parts ps ! i) = slice_of data k i" if "i < length (ps_parts ps)" for i
    using f(3) that by (fastforce simp: bytes_of_def)
  then have "map bytes_of (ps_parts ps) = map (slice_of data k) [0..<length (ps_parts ps)]"
    by (intro nth_equalityI) simp_all
  then show ?thesis
    using concat_slices [of data k "length (ps_parts ps)"] total_covers [OF assms(2), of "length data"]
    by (simp add: f(1))
qed

text \<open>A receiver that adds verified parts one after the other.\<close>

fun addParts :: "('b, 'z) ext_scheme \<Rightarrow> 'b partSet \<Rightarrow> part list \<Rightarrow> 'b partSet go" where
  "addParts ext ps [] = Ret ps"
| "addParts ext ps (p # rest) = bindGo (PartSet_AddPart ext ps p True) (\<lambda>(ps, _, _). addParts ext ps rest)"

definition part_of :: "'b partSet \<Rightarrow> 'b partSet \<Rightarrow> bool" where
  "part_of ps src \<longleftrightarrow> ps_total ps = ps_total src \<and> ps_hash ps = ps_hash src \<and>
     length (ps_parts ps) = length (ps_parts src) \<and>
     (\<forall>i\<in>present ps. ps_parts ps ! i = ps_parts src ! i)"

lemma AddPart_from_source:
  assumes laws: "bitArray_laws ext" and inv: "partSet_inv ext ps" and sub: "part_of ps src"
    and j: "j < length (ps_parts src)" "ps_parts src ! j = Some p" "part_Index p = int j"
    and ver: "merkle_Verify ext (part_Proof p) (int j) (ps_total src) (Part_Hash ext p) (ps_hash src)"
  shows "\<exists>ps' added. PartSet_AddPart ext ps p True = Ret (ps', added, None) \<and> partSet_inv ext ps' \<and>
     part_of ps' src \<and> present ps' = insert j (present ps)"
proof -
  have len: "length (ps_parts ps) = length (ps_parts src)" and t: "ps_total ps = ps_total src"
    "ps_hash ps = ps_hash src"
    using sub by (auto simp: part_of_def)
  have tot: "ps_total ps = int (length (ps_parts ps))" using inv by (simp add: partSet_inv_def)
  show ?thesis
  proof (cases "ps_parts ps ! j")
    case (Some q)
    then have "PartSet_AddPart ext ps p True = Ret (ps, False, None)" "j \<in> present ps"
      using j len tot by (auto simp: PartSet_AddPart_def present_def)
    with inv sub show ?thesis by (auto simp: insert_absorb)
  next
    case None
    let ?ps' = "ps\<lparr>ps_parts := (ps_parts ps)[j := Some p],
       ps_partsBitArray := BA_SetIndex ext (ps_partsBitArray ps) j True, ps_count := ps_count ps + 1\<rparr>"
    have r: "PartSet_AddPart ext ps p True = Ret (?ps', True, None)"
      using None j len tot t ver by (simp add: PartSet_AddPart_def)
    have pr: "present ?ps' = insert j (present ps)"
      using j len by (auto simp: present_def nth_list_update)
    have "part_of ?ps' src"
      using sub j len None pr by (auto simp: part_of_def nth_list_update)
    with r pr AddPart_step [OF laws inv r] show ?thesis by blast
  qed
qed

lemma addParts_from_source:
  assumes laws: "bitArray_laws ext"
    and src: "\<forall>i < length (ps_parts src). \<exists>p. ps_parts src ! i = Some p \<and> part_Index p = int i \<and>
        part_Bytes p = B i \<and>
        merkle_Verify ext (part_Proof p) (int i) (ps_total src) (Part_Hash ext p) (ps_hash src)"
    and "partSet_inv ext ps" "part_of ps src" "set js \<subseteq> {..<length (ps_parts src)}"
  shows "\<exists>ps'. addParts ext ps (map (\<lambda>j. the (ps_parts src ! j)) js) = Ret ps' \<and> partSet_inv ext ps' \<and>
     part_of ps' src \<and> present ps' = present ps \<union> set js"
  using assms(3-)
proof (induction js arbitrary: ps)
  case (Cons j js)
  then have j: "j < length (ps_parts src)" by simp
  with src obtain p where p: "ps_parts src ! j = Some p" "part_Index p = int j"
    "merkle_Verify ext (part_Proof p) (int j) (ps_total src) (Part_Hash ext p) (ps_hash src)"
    by blast
  from AddPart_from_source [OF laws Cons.prems(1,2) j p] obtain ps1 added where
    a: "PartSet_AddPart ext ps p True = Ret (ps1, added, None)" "partSet_inv ext ps1" "part_of ps1 src"
      "present ps1 = insert j (present ps)"
    by blast
  from Cons.IH [OF a(2,3)] Cons.prems(3) obtain ps' where
    "addParts ext ps1 (map (\<lambda>j. the (ps_parts src ! j)) js) = Ret ps'" "partSet_inv ext ps'"
    "part_of ps' src" "present ps' = present ps1 \<union> set js"
    by auto
  then show ?case using a p by auto
qed simp

lemma complete_reader:
  assumes inv: "partSet_inv ext ps" and c: "PartSet_IsComplete ps" and ne: "ps_parts ps \<noteq> []"
  shows "\<exists>psr. PartSet_GetReader ps = Ret psr \<and> reader_ok psr \<and> unread psr = concat (map bytes_of (ps_parts ps))"
proof -
  have all: "\<forall>i < length (ps_parts ps). ps_parts ps ! i \<noteq> None" using IsComplete_iff [OF inv] c by simp
  from ne obtain x xs where xs: "ps_parts ps = x # xs" by (cases "ps_parts ps") auto
  with all have "x \<noteq> None" by force
  then obtain p where "x = Some p" by blast
  with xs c all show ?thesis
    by (auto simp: PartSet_GetReader_def NewPartSetReader_def reader_ok_def unread_def bytes_of_def)
qed

lemma part_of_bytes:
  assumes "part_of ps src" "present ps = {..<length (ps_parts src)}"
  shows "ps_parts ps = ps_parts src"
  using assms by (intro nth_equalityI) (auto simp: part_of_def)

section \<open>Properties\<close>

text \<open>
  C23: cutting data into parts and reassembling it is the identity. A receiver that starts from the
  header alone and adds the parts with proof verification, each at least once and in any order,
  ends with a complete part set whose reader returns exactly the data.
\<close>

theorem parts_roundtrip:
  assumes laws: "bitArray_laws ext" and m: "merkle_complete ext" and k: "0 < partSize"
    and d: "data \<noteq> []" "length data < 2 ^ 63"
    and r: "NewPartSetFromData ext data partSize = Ret ps"
    and js: "set js = {..<length (ps_parts ps)}"
  shows "\<exists>ps' psr psr'.
     addParts ext (NewPartSetFromHeader ext (PartSet_Header (Some ps)))
       (map (\<lambda>j. the (ps_parts ps ! j)) js) = Ret ps' \<and>
     PartSet_IsComplete ps' \<and> PartSet_GetReader ps' = Ret psr \<and>
     PartSetReader_Read psr (length data) = Ret (psr', data, False)"
proof -
  note f = FromData_parts [OF m k r]
  let ?n = "length (ps_parts ps)"
  let ?p0 = "NewPartSetFromHeader ext (PartSet_Header (Some ps))"
  have "?n \<le> length data"
  proof -
    have "(length data + partSize - 1) div partSize \<le> length data * partSize div partSize"
      using d(1) k by (intro div_le_mono) (cases partSize; cases "length data"; simp)
    then show ?thesis using k f(1) by simp
  qed
  then have n: "?n < 2 ^ 63" using d(2) by linarith
  have tot: "sint (word_of_int (ps_total ps) :: u64) = int ?n" "unat (word_of_int (ps_total ps) :: u64) = ?n"
    using sint_of_int_small [of "ps_total ps"] unat_of_int_small [of "ps_total ps"] n f(2) by auto
  have inv0: "partSet_inv ext ?p0"
    by (rule NewPartSetFromHeader_inv [OF laws]) (simp add: PartSet_Header_def tot)
  have p0: "present ?p0 = {}" by (auto simp: NewPartSetFromHeader_def present_def)
  have sub: "part_of ?p0 ps"
    using tot f(2) p0 by (simp add: part_of_def NewPartSetFromHeader_def PartSet_Header_def)
  from addParts_from_source [OF laws f(3) inv0 sub, of js] js p0 obtain ps' where
    a: "addParts ext ?p0 (map (\<lambda>j. the (ps_parts ps ! j)) js) = Ret ps'" "partSet_inv ext ps'"
      "part_of ps' ps" "present ps' = {..<?n}"
    by auto
  have eq: "ps_parts ps' = ps_parts ps" by (rule part_of_bytes [OF a(3,4)])
  have "\<forall>i < length (ps_parts ps'). ps_parts ps' ! i \<noteq> None"
    using f(3) unfolding eq by (metis option.distinct(1))
  then have c: "PartSet_IsComplete ps'" using IsComplete_iff [OF a(2)] by simp
  have ne: "ps_parts ps' \<noteq> []"
    using FromData_bytes [OF m k r] d(1) eq by auto
  from complete_reader [OF a(2) c ne] obtain psr where
    psr: "PartSet_GetReader ps' = Ret psr" "reader_ok psr" "unread psr = data"
    using FromData_bytes [OF m k r] eq by auto
  from Read_spec [OF psr(2), of "length data"] d(1) psr(3) obtain psr' where
    "PartSetReader_Read psr (length data) = Ret (psr', data, False)"
    by auto
  with a(1) c psr(1) show ?thesis by blast
qed

definition demo_partSet :: "bool list option partSet" where
  "demo_partSet = (case NewPartSetFromData demo_ext [5, 6, 7, 8, 9] 2 of Ret ps \<Rightarrow> ps)"

theorem parts_roundtrip_witness:
  "\<exists>ps' psr psr'.
     addParts demo_ext (NewPartSetFromHeader demo_ext (PartSet_Header (Some demo_partSet)))
       (map (\<lambda>j. the (ps_parts demo_partSet ! j)) [2, 0, 2, 1]) = Ret ps' \<and>
     PartSet_IsComplete ps' \<and> PartSet_GetReader ps' = Ret psr \<and>
     PartSetReader_Read psr 5 = Ret (psr', [5, 6, 7, 8, 9], False)"
proof -
  let ?d = "[5, 6, 7, 8, 9] :: bytes"
  have n: "NewPartSetFromData demo_ext ?d 2 = Ret demo_partSet" by code_simp
  have "length (ps_parts demo_partSet) = 3" by code_simp
  then have js: "set [2, 0, 2, 1] = {..<length (ps_parts demo_partSet)}" by auto
  have l: "length ?d = 5" "(0::nat) < 2" "?d \<noteq> []" "length ?d < 2 ^ 63" by simp_all
  show ?thesis
    using parts_roundtrip [OF demo_ext_laws demo_merkle l(2-4) n js] unfolding l(1) .
qed

text \<open>
  C25: \<open>AddPart\<close> keeps the invariant that \<open>count\<close> is the number of stored parts and that the bit
  array marks them; it stores a part only in its own empty slot, and with verification only when
  the proof checks against the header's hash. A part set is complete exactly when no slot is
  empty.
\<close>

theorem AddPart_sound:
  assumes "bitArray_laws ext" "partSet_inv ext ps"
    and "PartSet_AddPart ext ps p verify = Ret (ps', added, err)"
  shows "partSet_inv ext ps' \<and> (\<not> added \<longrightarrow> ps' = ps) \<and>
    (added \<longrightarrow> err = None \<and> 0 \<le> part_Index p \<and> part_Index p < ps_total ps \<and>
       ps_parts ps ! nat (part_Index p) = None \<and>
       ps_parts ps' = (ps_parts ps)[nat (part_Index p) := Some p] \<and>
       (verify \<longrightarrow> merkle_Verify ext (part_Proof p) (part_Index p) (ps_total ps)
                    (Part_Hash ext p) (ps_hash ps))) \<and>
    (PartSet_IsComplete ps' \<longleftrightarrow> (\<forall>i < length (ps_parts ps'). ps_parts ps' ! i \<noteq> None))"
proof -
  have "partSet_inv ext ps'" using AddPart_step [OF assms] by blast
  moreover have "added \<longrightarrow> ps_parts ps ! nat (part_Index p) = None \<and>
      (verify \<longrightarrow> merkle_Verify ext (part_Proof p) (part_Index p) (ps_total ps)
                    (Part_Hash ext p) (ps_hash ps))"
    using assms(3) by (auto simp: PartSet_AddPart_def split: if_splits)
  ultimately show ?thesis
    using AddPart_step [OF assms] IsComplete_iff [of ext ps'] by blast
qed

theorem AddPart_sound_witness:
  "\<exists>ps'. PartSet_AddPart demo_ext
       (NewPartSetFromHeader demo_ext (PartSet_Header (Some demo_partSet)))
       (the (ps_parts demo_partSet ! 1)) True = Ret (ps', True, None) \<and>
     partSet_inv demo_ext ps' \<and> \<not> PartSet_IsComplete ps'"
proof -
  let ?ps = "NewPartSetFromHeader demo_ext (PartSet_Header (Some demo_partSet))"
  have i: "partSet_inv demo_ext ?ps"
    by (rule NewPartSetFromHeader_inv [OF demo_ext_laws]) code_simp
  have "(case PartSet_AddPart demo_ext ?ps (the (ps_parts demo_partSet ! 1)) True of
      Ret (ps', added, err) \<Rightarrow> added \<and> err = None \<and> ps_parts ps' ! 0 = None \<and> length (ps_parts ps') = 3
    | Panic _ \<Rightarrow> False)"
    by code_simp
  then obtain ps' where r: "PartSet_AddPart demo_ext ?ps (the (ps_parts demo_partSet ! 1)) True
      = Ret (ps', True, None)" "ps_parts ps' ! 0 = None" "length (ps_parts ps') = 3"
    by (auto split: go.splits)
  note a = AddPart_sound [OF demo_ext_laws i r(1)]
  have "\<exists>i < length (ps_parts ps'). ps_parts ps' ! i = None" using r(2,3) by (intro exI [of _ 0]) simp
  with a r(1) show ?thesis by blast
qed

text \<open>
  Reading \<open>n > 0\<close> bytes from a reader over complete parts returns the first \<open>n\<close> unread bytes,
  across the borders of the parts, consumes exactly them, and reports \<open>io.EOF\<close> exactly when fewer
  than \<open>n\<close> were left.
\<close>

theorem Read_concatenates:
  assumes "reader_ok psr" "0 < n"
  shows "\<exists>psr'. PartSetReader_Read psr n = Ret (psr', take n (unread psr), length (unread psr) < n) \<and>
     reader_ok psr' \<and> unread psr' = drop n (unread psr)"
  by (rule Read_spec [OF assms])

theorem Read_concatenates_witness:
  "\<exists>psr'. PartSetReader_Read \<lparr>psr_i = 0, psr_parts = ps_parts demo_partSet, psr_rest = [5, 6]\<rparr> 3
     = Ret (psr', [5, 6, 7], False)"
proof -
  let ?r = "\<lparr>psr_i = 0, psr_parts = ps_parts demo_partSet, psr_rest = [5, 6]\<rparr>"
  have "\<forall>i\<in>{..<length (ps_parts demo_partSet)}. ps_parts demo_partSet ! i \<noteq> None" by code_simp
  then have ok: "reader_ok ?r" by (auto simp: reader_ok_def)
  have "unread ?r = [5, 6, 7, 8, 9]" by code_simp
  with Read_concatenates [OF ok, of 3] show ?thesis by auto
qed

end
