(* ===== verification/State_Objects.thy ===== *)
theory State_Objects
  imports Go_Prelude "HOL-Library.AList"
begin

text \<open>
  The account objects of \<open>chain/core/state\<close>: \<open>Account\<close>, \<open>stateObject\<close>, the journal entries and
  the \<open>StateDB\<close> they live in, with every method of \<open>stateObject\<close> that reads or changes an
  account (\<open>state_object.go\<close>, \<open>state_object1.go\<close>, \<open>state_object_delegate.go\<close>,
  \<open>state_object_reward.go\<close>).

  Representation. A \<open>big.Int\<close> is an \<open>int\<close>; the code replaces these values and never changes one
  in place. A trie is the association list of what it holds, and a root hash is that list: a
  root identifies the contents it commits to. The nodes, the database below the tries and its
  errors (\<open>dbErr\<close>) are left out. \<open>originStorage\<close>, \<open>originProxied\<close> and \<open>originReward\<close> are read
  caches of the tries; the model reads the trie. An object is reached through the map
  \<open>stateObjects\<close> by pointer: a method takes the database with the object and returns both, and
  the caller writes the object back. \<open>onDirty\<close> is kept as whether the callback is still set.
  A map the code ranges over is an association list.
\<close>

type_synonym address = bytes
type_synonym hash = bytes

definition zeroHash :: hash where
  "zeroHash = replicate 32 0"

definition BytesToHash :: "bytes \<Rightarrow> hash" where
  "BytesToHash b = (let b' = drop (length b - 32) b in replicate (32 - length b') 0 @ b')"

definition BytesToAddress :: "bytes \<Rightarrow> address" where
  "BytesToAddress b = (let b' = drop (length b - 32) b in replicate (32 - length b') 0 @ b')"

text \<open>\<open>bytes.TrimLeft(b, "\x00")\<close>, applied to a value before it is written to a trie.\<close>

definition trimLeft :: "bytes \<Rightarrow> bytes" where
  "trimLeft b = dropWhile (\<lambda>x. x = 0) b"

text \<open>The Keccak-256 hash of the empty string.\<close>

definition emptyCodeHash :: bytes where
  "emptyCodeHash = [197, 210, 70, 1, 134, 247, 35, 60, 146, 126, 125, 178, 220, 199, 3, 192,
    229, 0, 182, 83, 202, 130, 39, 59, 123, 250, 216, 4, 93, 133, 164, 112]"

section \<open>Data\<close>

record accountProxiedBalance =
  apb_ProxiedBalance :: int
  apb_DepositProxiedBalance :: int
  apb_PendingRefundBalance :: int

definition AccountProxiedBalance_Equal :: "accountProxiedBalance \<Rightarrow> accountProxiedBalance option \<Rightarrow> bool" where
  "AccountProxiedBalance_Equal a b = (case b of None \<Rightarrow> False
    | Some b \<Rightarrow> apb_ProxiedBalance a = apb_ProxiedBalance b
        \<and> apb_DepositProxiedBalance a = apb_DepositProxiedBalance b
        \<and> apb_PendingRefundBalance a = apb_PendingRefundBalance b)"

definition AccountProxiedBalance_IsEmpty :: "accountProxiedBalance \<Rightarrow> bool" where
  "AccountProxiedBalance_IsEmpty a \<longleftrightarrow> apb_ProxiedBalance a = 0
    \<and> apb_DepositProxiedBalance a = 0 \<and> apb_PendingRefundBalance a = 0"

definition NewAccountProxiedBalance :: accountProxiedBalance where
  "NewAccountProxiedBalance = \<lparr>apb_ProxiedBalance = 0, apb_DepositProxiedBalance = 0,
    apb_PendingRefundBalance = 0\<rparr>"

record sideChainDepositBalance =
  scd_ChainId :: string
  scd_DepositBalance :: int

text \<open>
  \<open>Account\<close>. The code tests \<open>ProxiedRoot\<close> for the root of the empty trie, which differs from
  the zero hash of a new account: \<open>None\<close> is the zero hash. A nil \<open>CodeHash\<close> is the empty list.
\<close>

record account =
  acc_Nonce :: u64
  acc_Balance :: int
  acc_DepositBalance :: int
  acc_SideChainDepositBalance :: "sideChainDepositBalance list"
  acc_ChainBalance :: int
  acc_Root :: "(hash \<times> bytes) list"
  acc_TX1Root :: "(hash \<times> bytes) list"
  acc_TX3Root :: "(hash \<times> bytes) list"
  acc_CodeHash :: bytes
  acc_DelegateBalance :: int
  acc_ProxiedBalance :: int
  acc_DepositProxiedBalance :: int
  acc_PendingRefundBalance :: int
  acc_ProxiedRoot :: "(address \<times> accountProxiedBalance) list option"
  acc_Candidate :: bool
  acc_Commission :: u8
  acc_BlockTime :: int
  acc_BannedTime :: int
  acc_IsBanned :: bool
  acc_Pubkey :: string
  acc_RewardBalance :: int
  acc_AvailableRewardBalance :: int
  acc_RewardRoot :: "(address \<times> int) list"

text \<open>\<open>Account{}\<close>, with a nil integer read as zero as \<open>newObject\<close> does.\<close>

definition zeroAccount :: account where
  "zeroAccount = \<lparr>acc_Nonce = 0, acc_Balance = 0, acc_DepositBalance = 0,
    acc_SideChainDepositBalance = [], acc_ChainBalance = 0, acc_Root = [], acc_TX1Root = [],
    acc_TX3Root = [], acc_CodeHash = [], acc_DelegateBalance = 0, acc_ProxiedBalance = 0,
    acc_DepositProxiedBalance = 0, acc_PendingRefundBalance = 0, acc_ProxiedRoot = None,
    acc_Candidate = False, acc_Commission = 0, acc_BlockTime = 0, acc_BannedTime = 0,
    acc_IsBanned = False, acc_Pubkey = [], acc_RewardBalance = 0,
    acc_AvailableRewardBalance = 0, acc_RewardRoot = []\<rparr>"

record stateObject =
  so_address :: address
  so_data :: account
  so_code :: "bytes option"
  so_dirtyStorage :: "(hash \<times> hash) list"
  so_dirtyTX1 :: "hash list"
  so_dirtyTX3 :: "hash list"
  so_dirtyProxied :: "(address \<times> accountProxiedBalance option) list"
  so_dirtyReward :: "(address \<times> int option) list"
  so_dirtyCode :: bool
  so_suicided :: bool
  so_touched :: bool
  so_deleted :: bool
  so_onDirty :: bool

text \<open>The journal entries of \<open>journal.go\<close>, with the fields of the source in order.\<close>

datatype journalEntry =
    createObjectChange address
  | resetObjectChange stateObject
  | suicideChange address bool int
  | balanceChange address int
  | depositBalanceChange address int
  | sideChainDepositBalanceChange address string int
  | chainBalanceChange address int
  | delegateBalanceChange address int
  | proxiedBalanceChange address int
  | depositProxiedBalanceChange address int
  | pendingRefundBalanceChange address int
  | rewardBalanceChange address int
  | availableRewardBalanceChange address int
  | nonceChange address u64
  | storageChange address hash hash
  | addTX1Change address hash
  | addTX3Change address hash
  | accountProxiedBalanceChange address address "accountProxiedBalance option"
  | delegateRewardBalanceChange address address "int option"
  | candidateChange address bool
  | pubkeyChange address string
  | commissionChange address u8
  | bannedChange address bool
  | blockTimeChange address int
  | bannedTimeChange address int
  | codeChange address "bytes option" bytes
  | refundChange u64
  | addLogChange hash
  | addPreimageChange hash
  | touchChange address bool bool

record log =
  log_Address :: address
  log_Topics :: "hash list"
  log_Data :: bytes
  log_BlockNumber :: u64
  log_TxHash :: hash
  log_TxIndex :: u64
  log_BlockHash :: hash
  log_Index :: u64
  log_Removed :: bool

text \<open>
  The account trie. Beside the accounts it holds, under keys of their own, the sets of
  addresses and the side chain reward that \<open>StateDB\<close> stores there.
\<close>

record accountTrie =
  tr_accounts :: "address \<rightharpoonup> account"
  tr_refundSet :: "address list option"
  tr_rewardSet :: "address list option"
  tr_candidateSet :: "address list option"
  tr_bannedSet :: "address list option"
  tr_rewardPerBlock :: "int option"

record revision =
  rev_id :: int
  rev_journalIndex :: nat

text \<open>\<open>StateDB\<close>; \<open>sdb_codes\<close> is the code store of \<open>db\<close>.\<close>

record stateDB =
  sdb_codes :: "hash \<rightharpoonup> bytes"
  sdb_trie :: accountTrie
  sdb_stateObjects :: "(address \<times> stateObject) list"
  sdb_stateObjectsDirty :: "address list"
  sdb_delegateRefundSet :: "address list"
  sdb_delegateRefundSetDirty :: bool
  sdb_rewardSet :: "address list"
  sdb_rewardSetDirty :: bool
  sdb_candidateSet :: "address list"
  sdb_candidateSetDirty :: bool
  sdb_bannedSet :: "address list"
  sdb_bannedSetDirty :: bool
  sdb_sideChainRewardPerBlock :: "int option"
  sdb_sideChainRewardPerBlockDirty :: bool
  sdb_refund :: u64
  sdb_thash :: hash
  sdb_bhash :: hash
  sdb_txIndex :: int
  sdb_logs :: "(hash \<times> log list) list"
  sdb_logSize :: u64
  sdb_preimages :: "(hash \<times> bytes) list"
  sdb_journal :: "journalEntry list"
  sdb_validRevisions :: "revision list"
  sdb_nextRevisionId :: int

section \<open>Methods of \<open>stateObject\<close>\<close>

type_synonym objst = "stateDB \<times> stateObject"

text \<open>\<open>empty\<close>: reward and candidate fields are not part of the test.\<close>

definition stateObject_empty :: "stateObject \<Rightarrow> bool" where
  "stateObject_empty ob = (let d = so_data ob in
    acc_Nonce d = 0 \<and> acc_Balance d = 0 \<and> acc_CodeHash d = emptyCodeHash
    \<and> acc_DepositBalance d = 0 \<and> length (acc_SideChainDepositBalance d) = 0
    \<and> acc_ChainBalance d = 0 \<and> acc_DelegateBalance d = 0 \<and> acc_ProxiedBalance d = 0
    \<and> acc_DepositProxiedBalance d = 0 \<and> acc_PendingRefundBalance d = 0
    \<and> acc_AvailableRewardBalance d = 0)"

definition newObject :: "address \<Rightarrow> account \<Rightarrow> stateObject" where
  "newObject addr d =
    \<lparr>so_address = addr,
     so_data = d\<lparr>acc_CodeHash := (if acc_CodeHash d = [] then emptyCodeHash else acc_CodeHash d)\<rparr>,
     so_code = None, so_dirtyStorage = [], so_dirtyTX1 = [], so_dirtyTX3 = [],
     so_dirtyProxied = [], so_dirtyReward = [], so_dirtyCode = False, so_suicided = False,
     so_touched = False, so_deleted = False, so_onDirty = True\<rparr>"

definition journalAppend :: "journalEntry \<Rightarrow> stateDB \<Rightarrow> stateDB" where
  "journalAppend e s = s\<lparr>sdb_journal := sdb_journal s @ [e]\<rparr>"

definition StateDB_MarkStateObjectDirty :: "address \<Rightarrow> stateDB \<Rightarrow> stateDB" where
  "StateDB_MarkStateObjectDirty addr s =
    s\<lparr>sdb_stateObjectsDirty := List.insert addr (sdb_stateObjectsDirty s)\<rparr>"

text \<open>The tail of every setter: call \<open>onDirty\<close> if it is set, once.\<close>

fun fireDirty :: "objst \<Rightarrow> objst" where
  "fireDirty (s, ob) = (if so_onDirty ob
    then (StateDB_MarkStateObjectDirty (so_address ob) s, ob\<lparr>so_onDirty := False\<rparr>)
    else (s, ob))"

definition updData :: "(account \<Rightarrow> account) \<Rightarrow> stateObject \<Rightarrow> stateObject" where
  "updData f ob = ob\<lparr>so_data := f (so_data ob)\<rparr>"

fun stateObject_markSuicided :: "objst \<Rightarrow> objst" where
  "stateObject_markSuicided (s, ob) = fireDirty (s, ob\<lparr>so_suicided := True\<rparr>)"

fun stateObject_touch :: "objst \<Rightarrow> objst" where
  "stateObject_touch (s, ob) =
    (let s1 = journalAppend (touchChange (so_address ob) (so_touched ob) (\<not> so_onDirty ob)) s;
         (s2, ob2) = fireDirty (s1, ob)
     in (s2, ob2\<lparr>so_touched := True\<rparr>))"

subsection \<open>Balances\<close>

fun stateObject_setBalance :: "int \<Rightarrow> objst \<Rightarrow> objst" where
  "stateObject_setBalance amount (s, ob) = fireDirty (s, updData (acc_Balance_update (\<lambda>_. amount)) ob)"

fun stateObject_SetBalance :: "int \<Rightarrow> objst \<Rightarrow> objst" where
  "stateObject_SetBalance amount (s, ob) = stateObject_setBalance amount
    (journalAppend (balanceChange (so_address ob) (acc_Balance (so_data ob))) s, ob)"

fun stateObject_AddBalance :: "int \<Rightarrow> objst \<Rightarrow> objst" where
  "stateObject_AddBalance amount (s, ob) =
    (if amount = 0 then (if stateObject_empty ob then stateObject_touch (s, ob) else (s, ob))
     else stateObject_SetBalance (acc_Balance (so_data ob) + amount) (s, ob))"

fun stateObject_SubBalance :: "int \<Rightarrow> objst \<Rightarrow> objst" where
  "stateObject_SubBalance amount (s, ob) = (if amount = 0 then (s, ob)
     else stateObject_SetBalance (acc_Balance (so_data ob) - amount) (s, ob))"

fun stateObject_setDepositBalance :: "int \<Rightarrow> objst \<Rightarrow> objst" where
  "stateObject_setDepositBalance amount (s, ob) = fireDirty (s, updData (acc_DepositBalance_update (\<lambda>_. amount)) ob)"

fun stateObject_SetDepositBalance :: "int \<Rightarrow> objst \<Rightarrow> objst" where
  "stateObject_SetDepositBalance amount (s, ob) = stateObject_setDepositBalance amount
    (journalAppend (depositBalanceChange (so_address ob) (acc_DepositBalance (so_data ob))) s, ob)"

fun stateObject_AddDepositBalance :: "int \<Rightarrow> objst \<Rightarrow> objst" where
  "stateObject_AddDepositBalance amount (s, ob) =
    (if amount = 0 then (if stateObject_empty ob then stateObject_touch (s, ob) else (s, ob))
     else stateObject_SetDepositBalance (acc_DepositBalance (so_data ob) + amount) (s, ob))"

fun stateObject_SubDepositBalance :: "int \<Rightarrow> objst \<Rightarrow> objst" where
  "stateObject_SubDepositBalance amount (s, ob) = (if amount = 0 then (s, ob)
     else stateObject_SetDepositBalance (acc_DepositBalance (so_data ob) - amount) (s, ob))"

fun stateObject_setChainBalance :: "int \<Rightarrow> objst \<Rightarrow> objst" where
  "stateObject_setChainBalance amount (s, ob) = fireDirty (s, updData (acc_ChainBalance_update (\<lambda>_. amount)) ob)"

fun stateObject_SetChainBalance :: "int \<Rightarrow> objst \<Rightarrow> objst" where
  "stateObject_SetChainBalance amount (s, ob) = stateObject_setChainBalance amount
    (journalAppend (chainBalanceChange (so_address ob) (acc_ChainBalance (so_data ob))) s, ob)"

fun stateObject_AddChainBalance :: "int \<Rightarrow> objst \<Rightarrow> objst" where
  "stateObject_AddChainBalance amount (s, ob) =
    (if amount = 0 then (if stateObject_empty ob then stateObject_touch (s, ob) else (s, ob))
     else stateObject_SetChainBalance (acc_ChainBalance (so_data ob) + amount) (s, ob))"

fun stateObject_SubChainBalance :: "int \<Rightarrow> objst \<Rightarrow> objst" where
  "stateObject_SubChainBalance amount (s, ob) = (if amount = 0 then (s, ob)
     else stateObject_SetChainBalance (acc_ChainBalance (so_data ob) - amount) (s, ob))"

fun stateObject_setDelegateBalance :: "int \<Rightarrow> objst \<Rightarrow> objst" where
  "stateObject_setDelegateBalance amount (s, ob) = fireDirty (s, updData (acc_DelegateBalance_update (\<lambda>_. amount)) ob)"

fun stateObject_SetDelegateBalance :: "int \<Rightarrow> objst \<Rightarrow> objst" where
  "stateObject_SetDelegateBalance amount (s, ob) = stateObject_setDelegateBalance amount
    (journalAppend (delegateBalanceChange (so_address ob) (acc_DelegateBalance (so_data ob))) s, ob)"

fun stateObject_AddDelegateBalance :: "int \<Rightarrow> objst \<Rightarrow> objst" where
  "stateObject_AddDelegateBalance amount (s, ob) =
    (if amount = 0 then (if stateObject_empty ob then stateObject_touch (s, ob) else (s, ob))
     else stateObject_SetDelegateBalance (acc_DelegateBalance (so_data ob) + amount) (s, ob))"

fun stateObject_SubDelegateBalance :: "int \<Rightarrow> objst \<Rightarrow> objst" where
  "stateObject_SubDelegateBalance amount (s, ob) = (if amount = 0 then (s, ob)
     else stateObject_SetDelegateBalance (acc_DelegateBalance (so_data ob) - amount) (s, ob))"

fun stateObject_setProxiedBalance :: "int \<Rightarrow> objst \<Rightarrow> objst" where
  "stateObject_setProxiedBalance amount (s, ob) = fireDirty (s, updData (acc_ProxiedBalance_update (\<lambda>_. amount)) ob)"

fun stateObject_SetProxiedBalance :: "int \<Rightarrow> objst \<Rightarrow> objst" where
  "stateObject_SetProxiedBalance amount (s, ob) = stateObject_setProxiedBalance amount
    (journalAppend (proxiedBalanceChange (so_address ob) (acc_ProxiedBalance (so_data ob))) s, ob)"

fun stateObject_AddProxiedBalance :: "int \<Rightarrow> objst \<Rightarrow> objst" where
  "stateObject_AddProxiedBalance amount (s, ob) =
    (if amount = 0 then (if stateObject_empty ob then stateObject_touch (s, ob) else (s, ob))
     else stateObject_SetProxiedBalance (acc_ProxiedBalance (so_data ob) + amount) (s, ob))"

fun stateObject_SubProxiedBalance :: "int \<Rightarrow> objst \<Rightarrow> objst" where
  "stateObject_SubProxiedBalance amount (s, ob) = (if amount = 0 then (s, ob)
     else stateObject_SetProxiedBalance (acc_ProxiedBalance (so_data ob) - amount) (s, ob))"

fun stateObject_setDepositProxiedBalance :: "int \<Rightarrow> objst \<Rightarrow> objst" where
  "stateObject_setDepositProxiedBalance amount (s, ob) = fireDirty (s, updData (acc_DepositProxiedBalance_update (\<lambda>_. amount)) ob)"

fun stateObject_SetDepositProxiedBalance :: "int \<Rightarrow> objst \<Rightarrow> objst" where
  "stateObject_SetDepositProxiedBalance amount (s, ob) = stateObject_setDepositProxiedBalance amount
    (journalAppend (depositProxiedBalanceChange (so_address ob) (acc_DepositProxiedBalance (so_data ob))) s, ob)"

fun stateObject_AddDepositProxiedBalance :: "int \<Rightarrow> objst \<Rightarrow> objst" where
  "stateObject_AddDepositProxiedBalance amount (s, ob) =
    (if amount = 0 then (if stateObject_empty ob then stateObject_touch (s, ob) else (s, ob))
     else stateObject_SetDepositProxiedBalance (acc_DepositProxiedBalance (so_data ob) + amount) (s, ob))"

fun stateObject_SubDepositProxiedBalance :: "int \<Rightarrow> objst \<Rightarrow> objst" where
  "stateObject_SubDepositProxiedBalance amount (s, ob) = (if amount = 0 then (s, ob)
     else stateObject_SetDepositProxiedBalance (acc_DepositProxiedBalance (so_data ob) - amount) (s, ob))"

fun stateObject_setPendingRefundBalance :: "int \<Rightarrow> objst \<Rightarrow> objst" where
  "stateObject_setPendingRefundBalance amount (s, ob) = fireDirty (s, updData (acc_PendingRefundBalance_update (\<lambda>_. amount)) ob)"

fun stateObject_SetPendingRefundBalance :: "int \<Rightarrow> objst \<Rightarrow> objst" where
  "stateObject_SetPendingRefundBalance amount (s, ob) = stateObject_setPendingRefundBalance amount
    (journalAppend (pendingRefundBalanceChange (so_address ob) (acc_PendingRefundBalance (so_data ob))) s, ob)"

fun stateObject_AddPendingRefundBalance :: "int \<Rightarrow> objst \<Rightarrow> objst" where
  "stateObject_AddPendingRefundBalance amount (s, ob) =
    (if amount = 0 then (if stateObject_empty ob then stateObject_touch (s, ob) else (s, ob))
     else stateObject_SetPendingRefundBalance (acc_PendingRefundBalance (so_data ob) + amount) (s, ob))"

fun stateObject_SubPendingRefundBalance :: "int \<Rightarrow> objst \<Rightarrow> objst" where
  "stateObject_SubPendingRefundBalance amount (s, ob) = (if amount = 0 then (s, ob)
     else stateObject_SetPendingRefundBalance (acc_PendingRefundBalance (so_data ob) - amount) (s, ob))"

fun stateObject_setRewardBalance :: "int \<Rightarrow> objst \<Rightarrow> objst" where
  "stateObject_setRewardBalance amount (s, ob) = fireDirty (s, updData (acc_RewardBalance_update (\<lambda>_. amount)) ob)"

fun stateObject_SetRewardBalance :: "int \<Rightarrow> objst \<Rightarrow> objst" where
  "stateObject_SetRewardBalance amount (s, ob) = stateObject_setRewardBalance amount
    (journalAppend (rewardBalanceChange (so_address ob) (acc_RewardBalance (so_data ob))) s, ob)"

fun stateObject_AddRewardBalance :: "int \<Rightarrow> objst \<Rightarrow> objst" where
  "stateObject_AddRewardBalance amount (s, ob) =
    (if amount = 0 then (if stateObject_empty ob then stateObject_touch (s, ob) else (s, ob))
     else stateObject_SetRewardBalance (acc_RewardBalance (so_data ob) + amount) (s, ob))"

fun stateObject_SubRewardBalance :: "int \<Rightarrow> objst \<Rightarrow> objst" where
  "stateObject_SubRewardBalance amount (s, ob) = (if amount = 0 then (s, ob)
     else stateObject_SetRewardBalance (acc_RewardBalance (so_data ob) - amount) (s, ob))"

fun stateObject_setAvailableRewardBalance :: "int \<Rightarrow> objst \<Rightarrow> objst" where
  "stateObject_setAvailableRewardBalance amount (s, ob) = fireDirty (s, updData (acc_AvailableRewardBalance_update (\<lambda>_. amount)) ob)"

fun stateObject_SetAvailableRewardBalance :: "int \<Rightarrow> objst \<Rightarrow> objst" where
  "stateObject_SetAvailableRewardBalance amount (s, ob) = stateObject_setAvailableRewardBalance amount
    (journalAppend (availableRewardBalanceChange (so_address ob) (acc_AvailableRewardBalance (so_data ob))) s, ob)"

fun stateObject_AddAvailableRewardBalance :: "int \<Rightarrow> objst \<Rightarrow> objst" where
  "stateObject_AddAvailableRewardBalance amount (s, ob) =
    (if amount = 0 then (if stateObject_empty ob then stateObject_touch (s, ob) else (s, ob))
     else stateObject_SetAvailableRewardBalance (acc_AvailableRewardBalance (so_data ob) + amount) (s, ob))"

fun stateObject_SubAvailableRewardBalance :: "int \<Rightarrow> objst \<Rightarrow> objst" where
  "stateObject_SubAvailableRewardBalance amount (s, ob) = (if amount = 0 then (s, ob)
     else stateObject_SetAvailableRewardBalance (acc_AvailableRewardBalance (so_data ob) - amount) (s, ob))"

text \<open>The deposits of side chains are a list searched by chain id; a missing entry is appended
  before the change is journalled.\<close>

definition stateObject_SideChainDepositBalance :: "string \<Rightarrow> stateObject \<Rightarrow> int" where
  "stateObject_SideChainDepositBalance chainId ob =
    (case find (\<lambda>d. scd_ChainId d = chainId) (acc_SideChainDepositBalance (so_data ob)) of
       Some d \<Rightarrow> scd_DepositBalance d | None \<Rightarrow> 0)"

definition sideChainIndex :: "string \<Rightarrow> stateObject \<Rightarrow> stateObject \<times> nat" where
  "sideChainIndex chainId ob =
    (case find_index (\<lambda>d. scd_ChainId d = chainId) (acc_SideChainDepositBalance (so_data ob)) of
       Some i \<Rightarrow> (ob, i)
     | None \<Rightarrow> (updData (acc_SideChainDepositBalance_update
                   (\<lambda>ds. ds @ [\<lparr>scd_ChainId = chainId, scd_DepositBalance = 0\<rparr>])) ob,
                length (acc_SideChainDepositBalance (so_data ob))))"

fun stateObject_setSideChainDepositBalance :: "nat \<Rightarrow> int \<Rightarrow> objst \<Rightarrow> objst" where
  "stateObject_setSideChainDepositBalance index amount (s, ob) =
    fireDirty (s, updData (acc_SideChainDepositBalance_update
      (\<lambda>ds. ds[index := (ds ! index)\<lparr>scd_DepositBalance := amount\<rparr>])) ob)"

fun stateObject_SetSideChainDepositBalance :: "string \<Rightarrow> int \<Rightarrow> objst \<Rightarrow> objst" where
  "stateObject_SetSideChainDepositBalance chainId amount (s, ob) =
    (let (ob1, index) = sideChainIndex chainId ob;
         prev = scd_DepositBalance (acc_SideChainDepositBalance (so_data ob1) ! index)
     in stateObject_setSideChainDepositBalance index amount
          (journalAppend (sideChainDepositBalanceChange (so_address ob) chainId prev) s, ob1))"

fun stateObject_AddSideChainDepositBalance :: "string \<Rightarrow> int \<Rightarrow> objst \<Rightarrow> objst" where
  "stateObject_AddSideChainDepositBalance chainId amount (s, ob) =
    (if amount = 0 then (if stateObject_empty ob then stateObject_touch (s, ob) else (s, ob))
     else stateObject_SetSideChainDepositBalance chainId
            (stateObject_SideChainDepositBalance chainId ob + amount) (s, ob))"

fun stateObject_SubSideChainDepositBalance :: "string \<Rightarrow> int \<Rightarrow> objst \<Rightarrow> objst" where
  "stateObject_SubSideChainDepositBalance chainId amount (s, ob) = (if amount = 0 then (s, ob)
     else stateObject_SetSideChainDepositBalance chainId
            (stateObject_SideChainDepositBalance chainId ob - amount) (s, ob))"

subsection \<open>Nonce, code and candidate fields\<close>

fun stateObject_setNonce :: "u64 \<Rightarrow> objst \<Rightarrow> objst" where
  "stateObject_setNonce nonce (s, ob) = fireDirty (s, updData (acc_Nonce_update (\<lambda>_. nonce)) ob)"

fun stateObject_SetNonce :: "u64 \<Rightarrow> objst \<Rightarrow> objst" where
  "stateObject_SetNonce nonce (s, ob) = stateObject_setNonce nonce
    (journalAppend (nonceChange (so_address ob) (acc_Nonce (so_data ob))) s, ob)"

fun stateObject_setCandidate :: "bool \<Rightarrow> objst \<Rightarrow> objst" where
  "stateObject_setCandidate isCandidate (s, ob) = fireDirty (s, updData (acc_Candidate_update (\<lambda>_. isCandidate)) ob)"

fun stateObject_SetCandidate :: "bool \<Rightarrow> objst \<Rightarrow> objst" where
  "stateObject_SetCandidate isCandidate (s, ob) = stateObject_setCandidate isCandidate
    (journalAppend (candidateChange (so_address ob) (acc_Candidate (so_data ob))) s, ob)"

fun stateObject_setPubkey :: "string \<Rightarrow> objst \<Rightarrow> objst" where
  "stateObject_setPubkey pubkey (s, ob) = fireDirty (s, updData (acc_Pubkey_update (\<lambda>_. pubkey)) ob)"

fun stateObject_SetPubkey :: "string \<Rightarrow> objst \<Rightarrow> objst" where
  "stateObject_SetPubkey pubkey (s, ob) = stateObject_setPubkey pubkey
    (journalAppend (pubkeyChange (so_address ob) (acc_Pubkey (so_data ob))) s, ob)"

fun stateObject_setCommission :: "u8 \<Rightarrow> objst \<Rightarrow> objst" where
  "stateObject_setCommission commission (s, ob) = fireDirty (s, updData (acc_Commission_update (\<lambda>_. commission)) ob)"

fun stateObject_SetCommission :: "u8 \<Rightarrow> objst \<Rightarrow> objst" where
  "stateObject_SetCommission commission (s, ob) = stateObject_setCommission commission
    (journalAppend (commissionChange (so_address ob) (acc_Commission (so_data ob))) s, ob)"

fun stateObject_setBanned :: "bool \<Rightarrow> objst \<Rightarrow> objst" where
  "stateObject_setBanned banned (s, ob) = fireDirty (s, updData (acc_IsBanned_update (\<lambda>_. banned)) ob)"

fun stateObject_SetBanned :: "bool \<Rightarrow> objst \<Rightarrow> objst" where
  "stateObject_SetBanned banned (s, ob) = stateObject_setBanned banned
    (journalAppend (bannedChange (so_address ob) (acc_IsBanned (so_data ob))) s, ob)"

fun stateObject_setBlockTime :: "int \<Rightarrow> objst \<Rightarrow> objst" where
  "stateObject_setBlockTime blockTime (s, ob) = fireDirty (s, updData (acc_BlockTime_update (\<lambda>_. blockTime)) ob)"

fun stateObject_SetBlockTime :: "int \<Rightarrow> objst \<Rightarrow> objst" where
  "stateObject_SetBlockTime blockTime (s, ob) = stateObject_setBlockTime blockTime
    (journalAppend (blockTimeChange (so_address ob) (acc_BlockTime (so_data ob))) s, ob)"

fun stateObject_setBannedTime :: "int \<Rightarrow> objst \<Rightarrow> objst" where
  "stateObject_setBannedTime bannedTime (s, ob) = fireDirty (s, updData (acc_BannedTime_update (\<lambda>_. bannedTime)) ob)"

fun stateObject_SetBannedTime :: "int \<Rightarrow> objst \<Rightarrow> objst" where
  "stateObject_SetBannedTime bannedTime (s, ob) = stateObject_setBannedTime bannedTime
    (journalAppend (bannedTimeChange (so_address ob) (acc_BannedTime (so_data ob))) s, ob)"

definition stateObject_Code :: "(hash \<rightharpoonup> bytes) \<Rightarrow> stateObject \<Rightarrow> bytes option" where
  "stateObject_Code codes ob = (case so_code ob of
      Some code \<Rightarrow> Some code
    | None \<Rightarrow> if acc_CodeHash (so_data ob) = emptyCodeHash then None
        else codes (BytesToHash (acc_CodeHash (so_data ob))))"

fun stateObject_setCode :: "hash \<Rightarrow> bytes option \<Rightarrow> objst \<Rightarrow> objst" where
  "stateObject_setCode codeHash code (s, ob) =
    fireDirty (s, (updData (acc_CodeHash_update (\<lambda>_. codeHash)) ob)
      \<lparr>so_code := code, so_dirtyCode := True\<rparr>)"

fun stateObject_SetCode :: "hash \<Rightarrow> bytes option \<Rightarrow> objst \<Rightarrow> objst" where
  "stateObject_SetCode codeHash code (s, ob) = stateObject_setCode codeHash code
    (journalAppend (codeChange (so_address ob) (stateObject_Code (sdb_codes s) ob)
       (acc_CodeHash (so_data ob))) s, ob)"

subsection \<open>Storage\<close>

definition stateObject_GetCommittedState :: "hash \<Rightarrow> stateObject \<Rightarrow> hash" where
  "stateObject_GetCommittedState key ob = (case map_of (acc_Root (so_data ob)) key of
     Some content \<Rightarrow> BytesToHash content | None \<Rightarrow> zeroHash)"

definition stateObject_GetState :: "hash \<Rightarrow> stateObject \<Rightarrow> hash" where
  "stateObject_GetState key ob = (case map_of (so_dirtyStorage ob) key of
     Some v \<Rightarrow> v | None \<Rightarrow> stateObject_GetCommittedState key ob)"

fun stateObject_setState :: "hash \<Rightarrow> hash \<Rightarrow> objst \<Rightarrow> objst" where
  "stateObject_setState key v (s, ob) =
    fireDirty (s, ob\<lparr>so_dirtyStorage := AList.update key v (so_dirtyStorage ob)\<rparr>)"

fun stateObject_SetState :: "hash \<Rightarrow> hash \<Rightarrow> objst \<Rightarrow> objst" where
  "stateObject_SetState key v (s, ob) = stateObject_setState key v
    (journalAppend (storageChange (so_address ob) key (stateObject_GetState key ob)) s, ob)"

definition stateObject_updateTrie :: "stateObject \<Rightarrow> stateObject" where
  "stateObject_updateTrie ob = (let step = (\<lambda>(key, v) tr.
       if v = stateObject_GetCommittedState key ob then tr
       else if v = zeroHash then AList.delete key tr
       else AList.update key (trimLeft v) tr) in
     (updData (acc_Root_update (fold step (so_dirtyStorage ob))) ob)\<lparr>so_dirtyStorage := []\<rparr>)"

subsection \<open>Cross-chain transactions\<close>

text \<open>The marker of a transaction is its hash without leading zeros; the test compares the
  stored marker with the whole hash.\<close>

definition stateObject_HasTX1 :: "hash \<Rightarrow> stateObject \<Rightarrow> bool" where
  "stateObject_HasTX1 txHash ob \<longleftrightarrow> txHash \<in> set (so_dirtyTX1 ob)
    \<or> (case map_of (acc_TX1Root (so_data ob)) txHash of
         Some content \<Rightarrow> content = txHash | None \<Rightarrow> False)"

definition stateObject_addTX1 :: "hash \<Rightarrow> stateObject \<Rightarrow> stateObject" where
  "stateObject_addTX1 txHash ob = ob\<lparr>so_dirtyTX1 := List.insert txHash (so_dirtyTX1 ob)\<rparr>"

definition stateObject_removeTX1 :: "hash \<Rightarrow> stateObject \<Rightarrow> stateObject" where
  "stateObject_removeTX1 txHash ob = ob\<lparr>so_dirtyTX1 := removeAll txHash (so_dirtyTX1 ob)\<rparr>"

fun stateObject_AddTX1 :: "hash \<Rightarrow> objst \<Rightarrow> objst" where
  "stateObject_AddTX1 txHash (s, ob) =
    (journalAppend (addTX1Change (so_address ob) txHash) s, stateObject_addTX1 txHash ob)"

definition stateObject_updateTX1Trie :: "stateObject \<Rightarrow> stateObject" where
  "stateObject_updateTX1Trie ob =
    (updData (acc_TX1Root_update
       (fold (\<lambda>tx. AList.update tx (trimLeft tx)) (so_dirtyTX1 ob))) ob)\<lparr>so_dirtyTX1 := []\<rparr>"

definition stateObject_HasTX3 :: "hash \<Rightarrow> stateObject \<Rightarrow> bool" where
  "stateObject_HasTX3 txHash ob \<longleftrightarrow> txHash \<in> set (so_dirtyTX3 ob)
    \<or> (case map_of (acc_TX3Root (so_data ob)) txHash of
         Some content \<Rightarrow> content = txHash | None \<Rightarrow> False)"

definition stateObject_addTX3 :: "hash \<Rightarrow> stateObject \<Rightarrow> stateObject" where
  "stateObject_addTX3 txHash ob = ob\<lparr>so_dirtyTX3 := List.insert txHash (so_dirtyTX3 ob)\<rparr>"

definition stateObject_removeTX3 :: "hash \<Rightarrow> stateObject \<Rightarrow> stateObject" where
  "stateObject_removeTX3 txHash ob = ob\<lparr>so_dirtyTX3 := removeAll txHash (so_dirtyTX3 ob)\<rparr>"

fun stateObject_AddTX3 :: "hash \<Rightarrow> objst \<Rightarrow> objst" where
  "stateObject_AddTX3 txHash (s, ob) =
    (journalAppend (addTX3Change (so_address ob) txHash) s, stateObject_addTX3 txHash ob)"

definition stateObject_updateTX3Trie :: "stateObject \<Rightarrow> stateObject" where
  "stateObject_updateTX3Trie ob =
    (updData (acc_TX3Root_update
       (fold (\<lambda>tx. AList.update tx (trimLeft tx)) (so_dirtyTX3 ob))) ob)\<lparr>so_dirtyTX3 := []\<rparr>"

subsection \<open>Balances delegated by other users\<close>

definition proxiedTrie :: "stateObject \<Rightarrow> (address \<times> accountProxiedBalance) list" where
  "proxiedTrie ob = (case acc_ProxiedRoot (so_data ob) of None \<Rightarrow> [] | Some tr \<Rightarrow> tr)"

definition stateObject_GetAccountProxiedBalance ::
    "address \<Rightarrow> stateObject \<Rightarrow> accountProxiedBalance option" where
  "stateObject_GetAccountProxiedBalance key ob = (case map_of (so_dirtyProxied ob) key of
     Some v \<Rightarrow> v | None \<Rightarrow> map_of (proxiedTrie ob) key)"

fun stateObject_setAccountProxiedBalance ::
    "address \<Rightarrow> accountProxiedBalance option \<Rightarrow> objst \<Rightarrow> objst" where
  "stateObject_setAccountProxiedBalance key proxiedBalance (s, ob) =
    fireDirty (s, ob\<lparr>so_dirtyProxied := AList.update key proxiedBalance (so_dirtyProxied ob)\<rparr>)"

fun stateObject_SetAccountProxiedBalance ::
    "address \<Rightarrow> accountProxiedBalance option \<Rightarrow> objst \<Rightarrow> objst" where
  "stateObject_SetAccountProxiedBalance key proxiedBalance (s, ob) =
    stateObject_setAccountProxiedBalance key proxiedBalance
      (journalAppend (accountProxiedBalanceChange (so_address ob) key
         (stateObject_GetAccountProxiedBalance key ob)) s, ob)"

text \<open>A nil entry of \<open>dirtyProxied\<close> is dereferenced by \<open>Equal\<close> or \<open>IsEmpty\<close>.\<close>

fun foldGo :: "('a \<Rightarrow> 's \<Rightarrow> 's go) \<Rightarrow> 'a list \<Rightarrow> 's \<Rightarrow> 's go" where
  "foldGo f [] s = Ret s"
| "foldGo f (x # xs) s = bindGo (f x s) (foldGo f xs)"

definition stateObject_updateProxiedTrie :: "stateObject \<Rightarrow> stateObject go" where
  "stateObject_updateProxiedTrie ob = (let step = (\<lambda>(key, v) tr. case v of
        None \<Rightarrow> Panic ''nil accountProxiedBalance''
      | Some a \<Rightarrow>
          if AccountProxiedBalance_Equal a (map_of (proxiedTrie ob) key) then Ret tr
          else if AccountProxiedBalance_IsEmpty a then Ret (AList.delete key tr)
          else Ret (AList.update key a tr)) in
     bindGo (foldGo step (so_dirtyProxied ob) (proxiedTrie ob)) (\<lambda>tr.
       Ret ((updData (acc_ProxiedRoot_update (\<lambda>_. Some tr)) ob)\<lparr>so_dirtyProxied := []\<rparr>)))"

definition stateObject_IsEmptyTrie :: "stateObject \<Rightarrow> bool" where
  "stateObject_IsEmptyTrie ob \<longleftrightarrow> acc_ProxiedRoot (so_data ob) = Some []"

subsection \<open>Rewards by delegate\<close>

definition stateObject_GetDelegateRewardBalance :: "address \<Rightarrow> stateObject \<Rightarrow> int option" where
  "stateObject_GetDelegateRewardBalance key ob = (case map_of (so_dirtyReward ob) key of
     Some v \<Rightarrow> v | None \<Rightarrow> map_of (acc_RewardRoot (so_data ob)) key)"

fun stateObject_setDelegateRewardBalance :: "address \<Rightarrow> int option \<Rightarrow> objst \<Rightarrow> objst" where
  "stateObject_setDelegateRewardBalance key rewardAmount (s, ob) =
    fireDirty (s, ob\<lparr>so_dirtyReward := AList.update key rewardAmount (so_dirtyReward ob)\<rparr>)"

fun stateObject_SetDelegateRewardBalance :: "address \<Rightarrow> int option \<Rightarrow> objst \<Rightarrow> objst" where
  "stateObject_SetDelegateRewardBalance key rewardAmount (s, ob) =
    stateObject_setDelegateRewardBalance key rewardAmount
      (journalAppend (delegateRewardBalanceChange (so_address ob) key
         (stateObject_GetDelegateRewardBalance key ob)) s, ob)"

definition stateObject_updateRewardTrie :: "stateObject \<Rightarrow> stateObject go" where
  "stateObject_updateRewardTrie ob = (let tr0 = acc_RewardRoot (so_data ob);
      step = (\<lambda>(key, v) tr. case v of
        None \<Rightarrow> Panic ''nil reward balance''
      | Some a \<Rightarrow>
          if map_of tr0 key = Some a then Ret tr
          else if a = 0 then Ret (AList.delete key tr)
          else Ret (AList.update key a tr)) in
     bindGo (foldGo step (so_dirtyReward ob) tr0) (\<lambda>tr.
       Ret ((updData (acc_RewardRoot_update (\<lambda>_. tr)) ob)\<lparr>so_dirtyReward := []\<rparr>)))"

end
