(* ===== verification/State_DB.thy ===== *)
theory State_DB
  imports State_Objects
begin

text \<open>
  The methods of \<open>StateDB\<close> (\<open>statedb.go\<close>, \<open>statedb1.go\<close>, \<open>statedb_delegate.go\<close>,
  \<open>statedb_reward.go\<close>, \<open>statedb_candidate.go\<close>, \<open>statedb_forbidden.go\<close>) and the \<open>undo\<close> methods of
  the journal entries (\<open>journal.go\<close>).

  A method that finds an object in \<open>stateObjects\<close> changes it in place; here the changed object
  is written back with \<open>StateDB_setStateObject\<close>. The code also inserts an object it has only
  read from the trie; the model reads the trie again, which gives the same object.
\<close>

section \<open>Finding and creating objects\<close>

text \<open>\<open>New\<close>: an empty database over a trie.\<close>

definition StateDB_New :: "(hash \<rightharpoonup> bytes) \<Rightarrow> accountTrie \<Rightarrow> stateDB" where
  "StateDB_New codes tr = \<lparr>sdb_codes = codes, sdb_trie = tr, sdb_stateObjects = [],
    sdb_stateObjectsDirty = [], sdb_delegateRefundSet = [], sdb_delegateRefundSetDirty = False,
    sdb_rewardSet = [], sdb_rewardSetDirty = False, sdb_candidateSet = [],
    sdb_candidateSetDirty = False, sdb_bannedSet = [], sdb_bannedSetDirty = False,
    sdb_sideChainRewardPerBlock = None, sdb_sideChainRewardPerBlockDirty = False,
    sdb_refund = 0, sdb_thash = zeroHash, sdb_bhash = zeroHash, sdb_txIndex = 0, sdb_logs = [],
    sdb_logSize = 0, sdb_preimages = [], sdb_journal = [], sdb_validRevisions = [],
    sdb_nextRevisionId = 0\<rparr>"

definition StateDB_getStateObject :: "stateDB \<Rightarrow> address \<Rightarrow> stateObject option" where
  "StateDB_getStateObject s addr = (case map_of (sdb_stateObjects s) addr of
      Some ob \<Rightarrow> if so_deleted ob then None else Some ob
    | None \<Rightarrow> map_option (newObject addr) (tr_accounts (sdb_trie s) addr))"

definition StateDB_setStateObject :: "stateObject \<Rightarrow> stateDB \<Rightarrow> stateDB" where
  "StateDB_setStateObject ob s =
    s\<lparr>sdb_stateObjects := AList.update (so_address ob) ob (sdb_stateObjects s)\<rparr>"

definition writeBack :: "objst \<Rightarrow> stateDB" where
  "writeBack p = StateDB_setStateObject (snd p) (fst p)"

definition StateDB_createObject :: "address \<Rightarrow> stateDB \<Rightarrow> objst \<times> stateObject option" where
  "StateDB_createObject addr s =
    (let prev = StateDB_getStateObject s addr;
         (s1, newobj) = stateObject_setNonce 0 (s, newObject addr zeroAccount);
         s2 = (case prev of
                 None \<Rightarrow> journalAppend (createObjectChange addr) s1
               | Some ob \<Rightarrow> journalAppend (resetObjectChange ob) s1)
     in ((StateDB_setStateObject newobj s2, newobj), prev))"

definition StateDB_GetOrNewStateObject :: "address \<Rightarrow> stateDB \<Rightarrow> objst" where
  "StateDB_GetOrNewStateObject addr s = (case StateDB_getStateObject s addr of
      Some ob \<Rightarrow> if so_deleted ob then fst (StateDB_createObject addr s) else (s, ob)
    | None \<Rightarrow> fst (StateDB_createObject addr s))"

definition StateDB_CreateAccount :: "address \<Rightarrow> stateDB \<Rightarrow> stateDB" where
  "StateDB_CreateAccount addr s = (case StateDB_createObject addr s of
      (p, None) \<Rightarrow> writeBack p
    | (p, Some prev) \<Rightarrow> writeBack (stateObject_setBalance (acc_Balance (so_data prev)) p))"

definition StateDB_Exist :: "stateDB \<Rightarrow> address \<Rightarrow> bool" where
  "StateDB_Exist s addr \<longleftrightarrow> StateDB_getStateObject s addr \<noteq> None"

definition StateDB_Empty :: "stateDB \<Rightarrow> address \<Rightarrow> bool" where
  "StateDB_Empty s addr = (case StateDB_getStateObject s addr of
      None \<Rightarrow> True | Some ob \<Rightarrow> stateObject_empty ob)"

text \<open>A getter that reads one field of the object, or gives a default.\<close>

definition getField :: "(stateObject \<Rightarrow> 'a) \<Rightarrow> 'a \<Rightarrow> stateDB \<Rightarrow> address \<Rightarrow> 'a" where
  "getField f d s addr = (case StateDB_getStateObject s addr of Some ob \<Rightarrow> f ob | None \<Rightarrow> d)"

section \<open>Balances, nonce, code and storage\<close>

definition StateDB_GetBalance :: "stateDB \<Rightarrow> address \<Rightarrow> int" where
  "StateDB_GetBalance = getField (\<lambda>ob. acc_Balance (so_data ob)) 0"

definition StateDB_AddBalance :: "address \<Rightarrow> int \<Rightarrow> stateDB \<Rightarrow> stateDB" where
  "StateDB_AddBalance addr amount s =
    writeBack (stateObject_AddBalance amount (StateDB_GetOrNewStateObject addr s))"

definition StateDB_SubBalance :: "address \<Rightarrow> int \<Rightarrow> stateDB \<Rightarrow> stateDB" where
  "StateDB_SubBalance addr amount s =
    writeBack (stateObject_SubBalance amount (StateDB_GetOrNewStateObject addr s))"

definition StateDB_SetBalance :: "address \<Rightarrow> int \<Rightarrow> stateDB \<Rightarrow> stateDB" where
  "StateDB_SetBalance addr amount s =
    writeBack (stateObject_SetBalance amount (StateDB_GetOrNewStateObject addr s))"

definition StateDB_GetNonce :: "stateDB \<Rightarrow> address \<Rightarrow> u64" where
  "StateDB_GetNonce = getField (\<lambda>ob. acc_Nonce (so_data ob)) 0"

definition StateDB_SetNonce :: "address \<Rightarrow> u64 \<Rightarrow> stateDB \<Rightarrow> stateDB" where
  "StateDB_SetNonce addr nonce s =
    writeBack (stateObject_SetNonce nonce (StateDB_GetOrNewStateObject addr s))"

definition StateDB_GetCode :: "stateDB \<Rightarrow> address \<Rightarrow> bytes option" where
  "StateDB_GetCode s = getField (stateObject_Code (sdb_codes s)) None s"

definition StateDB_GetCodeHash :: "stateDB \<Rightarrow> address \<Rightarrow> hash" where
  "StateDB_GetCodeHash = getField (\<lambda>ob. BytesToHash (acc_CodeHash (so_data ob))) zeroHash"

text \<open>\<open>keccak\<close> stands for \<open>crypto.Keccak256\<close>.\<close>

definition StateDB_SetCode :: "(bytes \<Rightarrow> bytes) \<Rightarrow> address \<Rightarrow> bytes option \<Rightarrow> stateDB \<Rightarrow> stateDB" where
  "StateDB_SetCode keccak addr code s =
    writeBack (stateObject_SetCode (BytesToHash (keccak (case code of None \<Rightarrow> [] | Some c \<Rightarrow> c))) code
      (StateDB_GetOrNewStateObject addr s))"

definition StateDB_GetState :: "stateDB \<Rightarrow> address \<Rightarrow> hash \<Rightarrow> hash" where
  "StateDB_GetState s a b = getField (stateObject_GetState b) zeroHash s a"

definition StateDB_GetCommittedState :: "stateDB \<Rightarrow> address \<Rightarrow> hash \<Rightarrow> hash" where
  "StateDB_GetCommittedState s addr h = getField (stateObject_GetCommittedState h) zeroHash s addr"

definition StateDB_SetState :: "address \<Rightarrow> hash \<Rightarrow> hash \<Rightarrow> stateDB \<Rightarrow> stateDB" where
  "StateDB_SetState addr key v s =
    writeBack (stateObject_SetState key v (StateDB_GetOrNewStateObject addr s))"

definition StateDB_HasTX1 :: "stateDB \<Rightarrow> address \<Rightarrow> hash \<Rightarrow> bool" where
  "StateDB_HasTX1 s a txHash = getField (stateObject_HasTX1 txHash) False s a"

definition StateDB_HasTX3 :: "stateDB \<Rightarrow> address \<Rightarrow> hash \<Rightarrow> bool" where
  "StateDB_HasTX3 s a txHash = getField (stateObject_HasTX3 txHash) False s a"

definition StateDB_AddTX1 :: "address \<Rightarrow> hash \<Rightarrow> stateDB \<Rightarrow> stateDB" where
  "StateDB_AddTX1 addr txHash s =
    writeBack (stateObject_AddTX1 txHash (StateDB_GetOrNewStateObject addr s))"

definition StateDB_AddTX3 :: "address \<Rightarrow> hash \<Rightarrow> stateDB \<Rightarrow> stateDB" where
  "StateDB_AddTX3 addr txHash s =
    writeBack (stateObject_AddTX3 txHash (StateDB_GetOrNewStateObject addr s))"

definition StateDB_HasSuicided :: "stateDB \<Rightarrow> address \<Rightarrow> bool" where
  "StateDB_HasSuicided = getField so_suicided False"

definition StateDB_Suicide :: "address \<Rightarrow> stateDB \<Rightarrow> stateDB \<times> bool" where
  "StateDB_Suicide addr s = (case StateDB_getStateObject s addr of
      None \<Rightarrow> (s, False)
    | Some ob \<Rightarrow>
        (let s1 = journalAppend (suicideChange addr (so_suicided ob) (acc_Balance (so_data ob))) s;
             (s2, ob2) = stateObject_markSuicided (s1, ob)
         in (writeBack (s2, updData (acc_Balance_update (\<lambda>_. 0)) ob2), True)))"

section \<open>Deposits\<close>

definition StateDB_GetDepositBalance :: "stateDB \<Rightarrow> address \<Rightarrow> int" where
  "StateDB_GetDepositBalance = getField (\<lambda>ob. acc_DepositBalance (so_data ob)) 0"

definition StateDB_GetSideChainDepositBalance :: "stateDB \<Rightarrow> string \<Rightarrow> address \<Rightarrow> int" where
  "StateDB_GetSideChainDepositBalance s chainId addr =
    getField (stateObject_SideChainDepositBalance chainId) 0 s addr"

definition StateDB_GetChainBalance :: "stateDB \<Rightarrow> address \<Rightarrow> int" where
  "StateDB_GetChainBalance = getField (\<lambda>ob. acc_ChainBalance (so_data ob)) 0"

definition StateDB_AddDepositBalance :: "address \<Rightarrow> int \<Rightarrow> stateDB \<Rightarrow> stateDB" where
  "StateDB_AddDepositBalance addr amount s =
    writeBack (stateObject_AddDepositBalance amount (StateDB_GetOrNewStateObject addr s))"

definition StateDB_SubDepositBalance :: "address \<Rightarrow> int \<Rightarrow> stateDB \<Rightarrow> stateDB" where
  "StateDB_SubDepositBalance addr amount s =
    writeBack (stateObject_SubDepositBalance amount (StateDB_GetOrNewStateObject addr s))"

definition StateDB_SetDepositBalance :: "address \<Rightarrow> int \<Rightarrow> stateDB \<Rightarrow> stateDB" where
  "StateDB_SetDepositBalance addr amount s =
    writeBack (stateObject_SetDepositBalance amount (StateDB_GetOrNewStateObject addr s))"

definition StateDB_AddSideChainDepositBalance :: "address \<Rightarrow> string \<Rightarrow> int \<Rightarrow> stateDB \<Rightarrow> stateDB" where
  "StateDB_AddSideChainDepositBalance addr chainId amount s =
    writeBack (stateObject_AddSideChainDepositBalance chainId amount (StateDB_GetOrNewStateObject addr s))"

definition StateDB_SubSideChainDepositBalance :: "address \<Rightarrow> string \<Rightarrow> int \<Rightarrow> stateDB \<Rightarrow> stateDB" where
  "StateDB_SubSideChainDepositBalance addr chainId amount s =
    writeBack (stateObject_SubSideChainDepositBalance chainId amount (StateDB_GetOrNewStateObject addr s))"

definition StateDB_SetSideChainDepositBalance :: "address \<Rightarrow> string \<Rightarrow> int \<Rightarrow> stateDB \<Rightarrow> stateDB" where
  "StateDB_SetSideChainDepositBalance addr chainId amount s =
    writeBack (stateObject_SetSideChainDepositBalance chainId amount (StateDB_GetOrNewStateObject addr s))"

definition StateDB_AddChainBalance :: "address \<Rightarrow> int \<Rightarrow> stateDB \<Rightarrow> stateDB" where
  "StateDB_AddChainBalance addr amount s =
    writeBack (stateObject_AddChainBalance amount (StateDB_GetOrNewStateObject addr s))"

definition StateDB_SubChainBalance :: "address \<Rightarrow> int \<Rightarrow> stateDB \<Rightarrow> stateDB" where
  "StateDB_SubChainBalance addr amount s =
    writeBack (stateObject_SubChainBalance amount (StateDB_GetOrNewStateObject addr s))"

definition StateDB_SetChainBalance :: "address \<Rightarrow> int \<Rightarrow> stateDB \<Rightarrow> stateDB" where
  "StateDB_SetChainBalance addr amount s =
    writeBack (stateObject_SetChainBalance amount (StateDB_GetOrNewStateObject addr s))"

section \<open>Delegation\<close>

definition StateDB_GetDelegateBalance :: "stateDB \<Rightarrow> address \<Rightarrow> int" where
  "StateDB_GetDelegateBalance = getField (\<lambda>ob. acc_DelegateBalance (so_data ob)) 0"

definition StateDB_AddDelegateBalance :: "address \<Rightarrow> int \<Rightarrow> stateDB \<Rightarrow> stateDB" where
  "StateDB_AddDelegateBalance addr amount s =
    writeBack (stateObject_AddDelegateBalance amount (StateDB_GetOrNewStateObject addr s))"

definition StateDB_SubDelegateBalance :: "address \<Rightarrow> int \<Rightarrow> stateDB \<Rightarrow> stateDB" where
  "StateDB_SubDelegateBalance addr amount s =
    writeBack (stateObject_SubDelegateBalance amount (StateDB_GetOrNewStateObject addr s))"

definition StateDB_GetTotalProxiedBalance :: "stateDB \<Rightarrow> address \<Rightarrow> int" where
  "StateDB_GetTotalProxiedBalance = getField (\<lambda>ob. acc_ProxiedBalance (so_data ob)) 0"

definition StateDB_GetTotalDepositProxiedBalance :: "stateDB \<Rightarrow> address \<Rightarrow> int" where
  "StateDB_GetTotalDepositProxiedBalance = getField (\<lambda>ob. acc_DepositProxiedBalance (so_data ob)) 0"

definition StateDB_GetTotalPendingRefundBalance :: "stateDB \<Rightarrow> address \<Rightarrow> int" where
  "StateDB_GetTotalPendingRefundBalance = getField (\<lambda>ob. acc_PendingRefundBalance (so_data ob)) 0"

definition apbOrNew :: "address \<Rightarrow> stateObject \<Rightarrow> accountProxiedBalance" where
  "apbOrNew user ob = (case stateObject_GetAccountProxiedBalance user ob of
     None \<Rightarrow> NewAccountProxiedBalance | Some apb \<Rightarrow> apb)"

definition StateDB_GetProxiedBalanceByUser :: "stateDB \<Rightarrow> address \<Rightarrow> address \<Rightarrow> int" where
  "StateDB_GetProxiedBalanceByUser s addr user =
    getField (\<lambda>ob. case stateObject_GetAccountProxiedBalance user ob of
      None \<Rightarrow> 0 | Some apb \<Rightarrow> apb_ProxiedBalance apb) 0 s addr"

definition StateDB_AddProxiedBalanceByUser :: "address \<Rightarrow> address \<Rightarrow> int \<Rightarrow> stateDB \<Rightarrow> stateDB" where
  "StateDB_AddProxiedBalanceByUser addr user amount s =
    (let (s1, ob) = StateDB_GetOrNewStateObject addr s;
         apb = apbOrNew user ob;
         dirtyApb = apb\<lparr>apb_ProxiedBalance := apb_ProxiedBalance apb + amount\<rparr>
     in writeBack (stateObject_AddProxiedBalance amount
          (stateObject_SetAccountProxiedBalance user (Some dirtyApb) (s1, ob))))"

definition StateDB_SubProxiedBalanceByUser :: "address \<Rightarrow> address \<Rightarrow> int \<Rightarrow> stateDB \<Rightarrow> stateDB" where
  "StateDB_SubProxiedBalanceByUser addr user amount s =
    (let (s1, ob) = StateDB_GetOrNewStateObject addr s;
         apb = apbOrNew user ob;
         dirtyApb = apb\<lparr>apb_ProxiedBalance := apb_ProxiedBalance apb - amount\<rparr>
     in writeBack (stateObject_SubProxiedBalance amount
          (stateObject_SetAccountProxiedBalance user (Some dirtyApb) (s1, ob))))"

definition StateDB_GetDepositProxiedBalanceByUser :: "stateDB \<Rightarrow> address \<Rightarrow> address \<Rightarrow> int" where
  "StateDB_GetDepositProxiedBalanceByUser s addr user =
    getField (\<lambda>ob. case stateObject_GetAccountProxiedBalance user ob of
      None \<Rightarrow> 0 | Some apb \<Rightarrow> apb_DepositProxiedBalance apb) 0 s addr"

definition StateDB_AddDepositProxiedBalanceByUser :: "address \<Rightarrow> address \<Rightarrow> int \<Rightarrow> stateDB \<Rightarrow> stateDB" where
  "StateDB_AddDepositProxiedBalanceByUser addr user amount s =
    (let (s1, ob) = StateDB_GetOrNewStateObject addr s;
         apb = apbOrNew user ob;
         dirtyApb = apb\<lparr>apb_DepositProxiedBalance := apb_DepositProxiedBalance apb + amount\<rparr>
     in writeBack (stateObject_AddDepositProxiedBalance amount
          (stateObject_SetAccountProxiedBalance user (Some dirtyApb) (s1, ob))))"

definition StateDB_SubDepositProxiedBalanceByUser :: "address \<Rightarrow> address \<Rightarrow> int \<Rightarrow> stateDB \<Rightarrow> stateDB" where
  "StateDB_SubDepositProxiedBalanceByUser addr user amount s =
    (let (s1, ob) = StateDB_GetOrNewStateObject addr s;
         apb = apbOrNew user ob;
         dirtyApb = apb\<lparr>apb_DepositProxiedBalance := apb_DepositProxiedBalance apb - amount\<rparr>
     in writeBack (stateObject_SubDepositProxiedBalance amount
          (stateObject_SetAccountProxiedBalance user (Some dirtyApb) (s1, ob))))"

definition StateDB_GetPendingRefundBalanceByUser :: "stateDB \<Rightarrow> address \<Rightarrow> address \<Rightarrow> int" where
  "StateDB_GetPendingRefundBalanceByUser s addr user =
    getField (\<lambda>ob. case stateObject_GetAccountProxiedBalance user ob of
      None \<Rightarrow> 0 | Some apb \<Rightarrow> apb_PendingRefundBalance apb) 0 s addr"

definition StateDB_AddPendingRefundBalanceByUser :: "address \<Rightarrow> address \<Rightarrow> int \<Rightarrow> stateDB \<Rightarrow> stateDB" where
  "StateDB_AddPendingRefundBalanceByUser addr user amount s =
    (let (s1, ob) = StateDB_GetOrNewStateObject addr s;
         apb = apbOrNew user ob;
         dirtyApb = apb\<lparr>apb_PendingRefundBalance := apb_PendingRefundBalance apb + amount\<rparr>
     in writeBack (stateObject_AddPendingRefundBalance amount
          (stateObject_SetAccountProxiedBalance user (Some dirtyApb) (s1, ob))))"

definition StateDB_SubPendingRefundBalanceByUser :: "address \<Rightarrow> address \<Rightarrow> int \<Rightarrow> stateDB \<Rightarrow> stateDB" where
  "StateDB_SubPendingRefundBalanceByUser addr user amount s =
    (let (s1, ob) = StateDB_GetOrNewStateObject addr s;
         apb = apbOrNew user ob;
         dirtyApb = apb\<lparr>apb_PendingRefundBalance := apb_PendingRefundBalance apb - amount\<rparr>
     in writeBack (stateObject_SubPendingRefundBalance amount
          (stateObject_SetAccountProxiedBalance user (Some dirtyApb) (s1, ob))))"

definition StateDB_GetProxiedAddressNumber :: "stateDB \<Rightarrow> address \<Rightarrow> int" where
  "StateDB_GetProxiedAddressNumber = getField (\<lambda>ob. int (length (proxiedTrie ob))) 0"

text \<open>
  \<open>ForEachProxied\<close>: the callback runs for every entry of the trie, with the dirty value of the
  entry if there is one; a nil dirty value is dereferenced. The iterator visits the entries by
  the hashes of their keys, here in the order of the list, and reads the trie as it was at the
  start; the callback may change the dirty values.
\<close>

definition StateDB_ForEachProxied ::
    "address \<Rightarrow> (address \<Rightarrow> int \<Rightarrow> int \<Rightarrow> int \<Rightarrow> stateDB \<Rightarrow> stateDB) \<Rightarrow> stateDB \<Rightarrow> stateDB go" where
  "StateDB_ForEachProxied addr cb s = (case StateDB_getStateObject s addr of
      None \<Rightarrow> Ret s
    | Some so \<Rightarrow> foldGo (\<lambda>(key, apb) s'.
        (case getField (\<lambda>ob. map_of (so_dirtyProxied ob) key) None s' addr of
           Some None \<Rightarrow> Panic ''nil accountProxiedBalance''
         | Some (Some v) \<Rightarrow> Ret (cb key (apb_ProxiedBalance v) (apb_DepositProxiedBalance v)
             (apb_PendingRefundBalance v) s')
         | None \<Rightarrow> Ret (cb key (apb_ProxiedBalance apb) (apb_DepositProxiedBalance apb)
             (apb_PendingRefundBalance apb) s'))) (proxiedTrie so) s)"

section \<open>Candidates\<close>

definition StateDB_IsCandidate :: "stateDB \<Rightarrow> address \<Rightarrow> bool" where
  "StateDB_IsCandidate = getField (\<lambda>ob. acc_Candidate (so_data ob)) False"

definition StateDB_IsCleanAddress :: "stateDB \<Rightarrow> address \<Rightarrow> bool" where
  "StateDB_IsCleanAddress =
    getField (\<lambda>ob. \<not> acc_Candidate (so_data ob) \<and> stateObject_IsEmptyTrie ob) True"

definition StateDB_GetPubkey :: "stateDB \<Rightarrow> address \<Rightarrow> string" where
  "StateDB_GetPubkey = getField (\<lambda>ob. acc_Pubkey (so_data ob)) []"

definition StateDB_GetCommission :: "stateDB \<Rightarrow> address \<Rightarrow> u8" where
  "StateDB_GetCommission = getField (\<lambda>ob. acc_Commission (so_data ob)) 0"

definition StateDB_SetCommission :: "address \<Rightarrow> u8 \<Rightarrow> stateDB \<Rightarrow> stateDB" where
  "StateDB_SetCommission addr commission s =
    writeBack (stateObject_SetCommission commission (StateDB_GetOrNewStateObject addr s))"

definition StateDB_ApplyForCandidate :: "address \<Rightarrow> string \<Rightarrow> u8 \<Rightarrow> stateDB \<Rightarrow> stateDB" where
  "StateDB_ApplyForCandidate addr pubkey commission s =
    writeBack (stateObject_SetPubkey pubkey (stateObject_SetCommission commission
      (stateObject_SetCandidate True (StateDB_GetOrNewStateObject addr s))))"

definition StateDB_CancelCandidate :: "address \<Rightarrow> bool \<Rightarrow> stateDB \<Rightarrow> stateDB" where
  "StateDB_CancelCandidate addr allRefund s =
    (let p = stateObject_SetPubkey [] (stateObject_SetCandidate False
               (StateDB_GetOrNewStateObject addr s))
     in writeBack (if allRefund then stateObject_SetCommission 0 p else p))"

text \<open>These getters create a missing account.\<close>

definition StateDB_GetBanned :: "address \<Rightarrow> stateDB \<Rightarrow> stateDB \<times> bool" where
  "StateDB_GetBanned addr s =
    (let p = StateDB_GetOrNewStateObject addr s in (writeBack p, acc_IsBanned (so_data (snd p))))"

definition StateDB_GetBannedTime :: "address \<Rightarrow> stateDB \<Rightarrow> stateDB \<times> int" where
  "StateDB_GetBannedTime addr s =
    (let p = StateDB_GetOrNewStateObject addr s in (writeBack p, acc_BannedTime (so_data (snd p))))"

definition StateDB_GetMinedBlocks :: "address \<Rightarrow> stateDB \<Rightarrow> stateDB \<times> int" where
  "StateDB_GetMinedBlocks addr s =
    (let p = StateDB_GetOrNewStateObject addr s in (writeBack p, acc_BlockTime (so_data (snd p))))"

definition StateDB_SetBanned :: "address \<Rightarrow> bool \<Rightarrow> stateDB \<Rightarrow> stateDB" where
  "StateDB_SetBanned addr banned s =
    writeBack (stateObject_SetBanned banned (StateDB_GetOrNewStateObject addr s))"

definition StateDB_SetBannedTime :: "address \<Rightarrow> int \<Rightarrow> stateDB \<Rightarrow> stateDB" where
  "StateDB_SetBannedTime addr bannedTime s =
    writeBack (stateObject_SetBannedTime bannedTime (StateDB_GetOrNewStateObject addr s))"

definition StateDB_SetMinedBlocks :: "address \<Rightarrow> int \<Rightarrow> stateDB \<Rightarrow> stateDB" where
  "StateDB_SetMinedBlocks addr blocks s =
    writeBack (stateObject_SetBlockTime blocks (StateDB_GetOrNewStateObject addr s))"

definition StateDB_ClearCommission :: "address \<Rightarrow> stateDB \<Rightarrow> stateDB" where
  "StateDB_ClearCommission addr s =
    writeBack (stateObject_SetCommission 0 (StateDB_GetOrNewStateObject addr s))"

section \<open>Rewards\<close>

definition StateDB_GetTotalRewardBalance :: "stateDB \<Rightarrow> address \<Rightarrow> int" where
  "StateDB_GetTotalRewardBalance = getField (\<lambda>ob. acc_RewardBalance (so_data ob)) 0"

definition StateDB_AddRewardBalance :: "address \<Rightarrow> int \<Rightarrow> stateDB \<Rightarrow> stateDB" where
  "StateDB_AddRewardBalance addr amount s =
    writeBack (stateObject_AddRewardBalance amount (StateDB_GetOrNewStateObject addr s))"

definition StateDB_SubRewardBalance :: "address \<Rightarrow> int \<Rightarrow> stateDB \<Rightarrow> stateDB" where
  "StateDB_SubRewardBalance addr amount s =
    writeBack (stateObject_SubRewardBalance amount (StateDB_GetOrNewStateObject addr s))"

definition StateDB_GetTotalAvailableRewardBalance :: "stateDB \<Rightarrow> address \<Rightarrow> int" where
  "StateDB_GetTotalAvailableRewardBalance = getField (\<lambda>ob. acc_AvailableRewardBalance (so_data ob)) 0"

definition StateDB_AddAvailableRewardBalance :: "address \<Rightarrow> int \<Rightarrow> stateDB \<Rightarrow> stateDB" where
  "StateDB_AddAvailableRewardBalance addr amount s = (case StateDB_getStateObject s addr of
      None \<Rightarrow> s | Some ob \<Rightarrow> writeBack (stateObject_AddAvailableRewardBalance amount (s, ob)))"

definition StateDB_SubAvailableRewardBalance :: "address \<Rightarrow> int \<Rightarrow> stateDB \<Rightarrow> stateDB" where
  "StateDB_SubAvailableRewardBalance addr amount s = (case StateDB_getStateObject s addr of
      None \<Rightarrow> s | Some ob \<Rightarrow> writeBack (stateObject_SubAvailableRewardBalance amount (s, ob)))"

definition StateDB_GetRewardBalanceByDelegateAddress :: "stateDB \<Rightarrow> address \<Rightarrow> address \<Rightarrow> int" where
  "StateDB_GetRewardBalanceByDelegateAddress s addr deleAddress =
    getField (\<lambda>ob. case stateObject_GetDelegateRewardBalance deleAddress ob of
      None \<Rightarrow> 0 | Some b \<Rightarrow> b) 0 s addr"

definition StateDB_AddRewardBalanceByDelegateAddress ::
    "address \<Rightarrow> address \<Rightarrow> int \<Rightarrow> stateDB \<Rightarrow> stateDB" where
  "StateDB_AddRewardBalanceByDelegateAddress addr deleAddress amount s =
    (let (s1, ob) = StateDB_GetOrNewStateObject addr s;
         dirtyRewardBalance = (case stateObject_GetDelegateRewardBalance deleAddress ob of
            None \<Rightarrow> amount | Some b \<Rightarrow> b + amount)
     in writeBack (stateObject_AddRewardBalance amount
          (stateObject_SetDelegateRewardBalance deleAddress (Some dirtyRewardBalance) (s1, ob))))"

definition StateDB_SubRewardBalanceByDelegateAddress ::
    "address \<Rightarrow> address \<Rightarrow> int \<Rightarrow> stateDB \<Rightarrow> stateDB go" where
  "StateDB_SubRewardBalanceByDelegateAddress addr deleAddress amount s =
    (let (s1, ob) = StateDB_GetOrNewStateObject addr s in
     case stateObject_GetDelegateRewardBalance deleAddress ob of
       None \<Rightarrow> Panic ''subtract from nil balance''
     | Some b \<Rightarrow> Ret (writeBack (stateObject_SubRewardBalance amount
          (stateObject_SetDelegateRewardBalance deleAddress (Some (b - amount)) (s1, ob)))))"

section \<open>Address sets\<close>

text \<open>
  The four sets are written to the trie as a sorted list of addresses and read back into a map.
  A set is loaded from the trie whenever the one in memory is empty.
\<close>

definition addressSet_EncodeRLP :: "address list \<Rightarrow> address list" where
  "addressSet_EncodeRLP st = rev (sort st)"

definition addressSet_DecodeRLP :: "address list \<Rightarrow> address list" where
  "addressSet_DecodeRLP list = fold List.insert list []"

definition StateDB_GetDelegateAddressRefundSet :: "stateDB \<Rightarrow> stateDB \<times> address list" where
  "StateDB_GetDelegateAddressRefundSet s =
    (if sdb_delegateRefundSet s \<noteq> [] then (s, sdb_delegateRefundSet s)
     else case tr_refundSet (sdb_trie s) of
       None \<Rightarrow> (s, [])
     | Some enc \<Rightarrow> (let v = addressSet_DecodeRLP enc in (s\<lparr>sdb_delegateRefundSet := v\<rparr>, v)))"

definition StateDB_MarkDelegateAddressRefund :: "address \<Rightarrow> stateDB \<Rightarrow> stateDB" where
  "StateDB_MarkDelegateAddressRefund addr s =
    (let (s1, st) = StateDB_GetDelegateAddressRefundSet s in
     if addr \<in> set st then s1
     else s1\<lparr>sdb_delegateRefundSet := List.insert addr (sdb_delegateRefundSet s1), sdb_delegateRefundSetDirty := True\<rparr>)"

definition StateDB_commitDelegateRefundSet :: "stateDB \<Rightarrow> stateDB" where
  "StateDB_commitDelegateRefundSet s = s\<lparr>sdb_trie := (sdb_trie s)
    \<lparr>tr_refundSet := Some (addressSet_EncodeRLP (sdb_delegateRefundSet s))\<rparr>\<rparr>"

definition StateDB_ClearDelegateRefundSet :: "stateDB \<Rightarrow> stateDB" where
  "StateDB_ClearDelegateRefundSet s =
    s\<lparr>sdb_trie := (sdb_trie s)\<lparr>tr_refundSet := None\<rparr>, sdb_delegateRefundSet := [],
      sdb_delegateRefundSetDirty := False\<rparr>"

definition StateDB_GetRewardSet :: "stateDB \<Rightarrow> stateDB \<times> address list" where
  "StateDB_GetRewardSet s =
    (if sdb_rewardSet s \<noteq> [] then (s, sdb_rewardSet s)
     else case tr_rewardSet (sdb_trie s) of
       None \<Rightarrow> (s, [])
     | Some enc \<Rightarrow> (let v = addressSet_DecodeRLP enc in (s\<lparr>sdb_rewardSet := v\<rparr>, v)))"

definition StateDB_MarkAddressReward :: "address \<Rightarrow> stateDB \<Rightarrow> stateDB" where
  "StateDB_MarkAddressReward addr s =
    (let (s1, st) = StateDB_GetRewardSet s in
     if addr \<in> set st then s1
     else s1\<lparr>sdb_rewardSet := List.insert addr (sdb_rewardSet s1), sdb_rewardSetDirty := True\<rparr>)"

definition StateDB_commitRewardSet :: "stateDB \<Rightarrow> stateDB" where
  "StateDB_commitRewardSet s = s\<lparr>sdb_trie := (sdb_trie s)
    \<lparr>tr_rewardSet := Some (addressSet_EncodeRLP (sdb_rewardSet s))\<rparr>\<rparr>"

definition StateDB_ClearRewardSetByAddress :: "address \<Rightarrow> stateDB \<Rightarrow> stateDB" where
  "StateDB_ClearRewardSetByAddress addr s =
    s\<lparr>sdb_rewardSet := removeAll addr (sdb_rewardSet s), sdb_rewardSetDirty := True\<rparr>"

definition StateDB_GetCandidateSet :: "stateDB \<Rightarrow> stateDB \<times> address list" where
  "StateDB_GetCandidateSet s =
    (if sdb_candidateSet s \<noteq> [] then (s, sdb_candidateSet s)
     else case tr_candidateSet (sdb_trie s) of
       None \<Rightarrow> (s, [])
     | Some enc \<Rightarrow> (let v = addressSet_DecodeRLP enc in (s\<lparr>sdb_candidateSet := v\<rparr>, v)))"

definition StateDB_MarkAddressCandidate :: "address \<Rightarrow> stateDB \<Rightarrow> stateDB" where
  "StateDB_MarkAddressCandidate addr s =
    (let (s1, st) = StateDB_GetCandidateSet s in
     if addr \<in> set st then s1
     else s1\<lparr>sdb_candidateSet := List.insert addr (sdb_candidateSet s1), sdb_candidateSetDirty := True\<rparr>)"

definition StateDB_commitCandidateSet :: "stateDB \<Rightarrow> stateDB" where
  "StateDB_commitCandidateSet s = s\<lparr>sdb_trie := (sdb_trie s)
    \<lparr>tr_candidateSet := Some (addressSet_EncodeRLP (sdb_candidateSet s))\<rparr>\<rparr>"

definition StateDB_ClearCandidateSetByAddress :: "address \<Rightarrow> stateDB \<Rightarrow> stateDB" where
  "StateDB_ClearCandidateSetByAddress addr s =
    s\<lparr>sdb_candidateSet := removeAll addr (sdb_candidateSet s), sdb_candidateSetDirty := True\<rparr>"

definition StateDB_GetBannedSet :: "stateDB \<Rightarrow> stateDB \<times> address list" where
  "StateDB_GetBannedSet s =
    (if sdb_bannedSet s \<noteq> [] then (s, sdb_bannedSet s)
     else case tr_bannedSet (sdb_trie s) of
       None \<Rightarrow> (s, [])
     | Some enc \<Rightarrow> (let v = addressSet_DecodeRLP enc in (s\<lparr>sdb_bannedSet := v\<rparr>, v)))"

definition StateDB_MarkAddressBanned :: "address \<Rightarrow> stateDB \<Rightarrow> stateDB" where
  "StateDB_MarkAddressBanned addr s =
    (let (s1, st) = StateDB_GetBannedSet s in
     if addr \<in> set st then s1
     else s1\<lparr>sdb_bannedSet := List.insert addr (sdb_bannedSet s1), sdb_bannedSetDirty := True\<rparr>)"

definition StateDB_commitBannedSet :: "stateDB \<Rightarrow> stateDB" where
  "StateDB_commitBannedSet s = s\<lparr>sdb_trie := (sdb_trie s)
    \<lparr>tr_bannedSet := Some (addressSet_EncodeRLP (sdb_bannedSet s))\<rparr>\<rparr>"

definition StateDB_ClearBannedSetByAddress :: "address \<Rightarrow> stateDB \<Rightarrow> stateDB" where
  "StateDB_ClearBannedSetByAddress addr s =
    s\<lparr>sdb_bannedSet := removeAll addr (sdb_bannedSet s), sdb_bannedSetDirty := True\<rparr>"

definition StateDB_SetSideChainRewardPerBlock :: "int \<Rightarrow> stateDB \<Rightarrow> stateDB" where
  "StateDB_SetSideChainRewardPerBlock rewardPerBlock s =
    s\<lparr>sdb_sideChainRewardPerBlock := Some rewardPerBlock, sdb_sideChainRewardPerBlockDirty := True\<rparr>"

definition StateDB_GetSideChainRewardPerBlock :: "stateDB \<Rightarrow> stateDB \<times> int" where
  "StateDB_GetSideChainRewardPerBlock s = (case sdb_sideChainRewardPerBlock s of
      Some v \<Rightarrow> (s, v)
    | None \<Rightarrow> (case tr_rewardPerBlock (sdb_trie s) of
        None \<Rightarrow> (s, 0)
      | Some v \<Rightarrow> (s\<lparr>sdb_sideChainRewardPerBlock := Some v\<rparr>, v)))"

text \<open>Encoding a nil integer gives the encoding of zero.\<close>

definition StateDB_commitSideChainRewardPerBlock :: "stateDB \<Rightarrow> stateDB" where
  "StateDB_commitSideChainRewardPerBlock s = s\<lparr>sdb_trie := (sdb_trie s)
    \<lparr>tr_rewardPerBlock := Some (case sdb_sideChainRewardPerBlock s of None \<Rightarrow> 0 | Some v \<Rightarrow> v)\<rparr>\<rparr>"

section \<open>Logs, preimages and the refund counter\<close>

definition StateDB_AddLog :: "log \<Rightarrow> stateDB \<Rightarrow> stateDB" where
  "StateDB_AddLog lg s =
    (let s1 = journalAppend (addLogChange (sdb_thash s)) s;
         lg1 = lg\<lparr>log_TxHash := sdb_thash s, log_BlockHash := sdb_bhash s,
                  log_TxIndex := word_of_int (sdb_txIndex s), log_Index := sdb_logSize s\<rparr>;
         old = (case map_of (sdb_logs s) (sdb_thash s) of None \<Rightarrow> [] | Some ls \<Rightarrow> ls)
     in s1\<lparr>sdb_logs := AList.update (sdb_thash s) (old @ [lg1]) (sdb_logs s),
           sdb_logSize := sdb_logSize s + 1\<rparr>)"

definition StateDB_GetLogs :: "stateDB \<Rightarrow> hash \<Rightarrow> log list" where
  "StateDB_GetLogs s h = (case map_of (sdb_logs s) h of None \<Rightarrow> [] | Some ls \<Rightarrow> ls)"

definition StateDB_AddPreimage :: "hash \<Rightarrow> bytes \<Rightarrow> stateDB \<Rightarrow> stateDB" where
  "StateDB_AddPreimage h preimage s = (case map_of (sdb_preimages s) h of
      Some _ \<Rightarrow> s
    | None \<Rightarrow> (journalAppend (addPreimageChange h) s)
        \<lparr>sdb_preimages := AList.update h preimage (sdb_preimages s)\<rparr>)"

definition StateDB_AddRefund :: "u64 \<Rightarrow> stateDB \<Rightarrow> stateDB" where
  "StateDB_AddRefund gas s =
    (journalAppend (refundChange (sdb_refund s)) s)\<lparr>sdb_refund := sdb_refund s + gas\<rparr>"

definition StateDB_SubRefund :: "u64 \<Rightarrow> stateDB \<Rightarrow> stateDB go" where
  "StateDB_SubRefund gas s = (if gas > sdb_refund s then Panic ''Refund counter below zero''
    else Ret ((journalAppend (refundChange (sdb_refund s)) s)\<lparr>sdb_refund := sdb_refund s - gas\<rparr>))"

definition StateDB_Prepare :: "hash \<Rightarrow> hash \<Rightarrow> int \<Rightarrow> stateDB \<Rightarrow> stateDB" where
  "StateDB_Prepare thash bhash ti s = s\<lparr>sdb_thash := thash, sdb_bhash := bhash, sdb_txIndex := ti\<rparr>"

section \<open>Undoing a change\<close>

definition withObject :: "address \<Rightarrow> (objst \<Rightarrow> objst) \<Rightarrow> stateDB \<Rightarrow> stateDB go" where
  "withObject addr f s = (case StateDB_getStateObject s addr of
      None \<Rightarrow> Panic ''nil stateObject''
    | Some ob \<Rightarrow> Ret (writeBack (f (s, ob))))"

definition ripemd :: address where
  "ripemd = replicate 31 0 @ [3]"

fun undo :: "journalEntry \<Rightarrow> stateDB \<Rightarrow> stateDB go" where
  "undo (createObjectChange a) s =
     Ret (s\<lparr>sdb_stateObjects := AList.delete a (sdb_stateObjects s),
            sdb_stateObjectsDirty := removeAll a (sdb_stateObjectsDirty s)\<rparr>)"
| "undo (resetObjectChange prev) s = Ret (StateDB_setStateObject prev s)"
| "undo (suicideChange a prev prevbalance) s = (case StateDB_getStateObject s a of
       None \<Rightarrow> Ret s
     | Some ob \<Rightarrow> Ret (writeBack (stateObject_setBalance prevbalance (s, ob\<lparr>so_suicided := prev\<rparr>))))"
| "undo (touchChange a prev prevDirty) s =
     (if \<not> prev \<and> a \<noteq> ripemd then
        bindGo (withObject a (\<lambda>(s, ob). (s, ob\<lparr>so_touched := prev\<rparr>)) s) (\<lambda>s1.
          Ret (if prevDirty then s1
               else s1\<lparr>sdb_stateObjectsDirty := removeAll a (sdb_stateObjectsDirty s1)\<rparr>))
      else Ret s)"
| "undo (balanceChange a prev) s = withObject a (stateObject_setBalance prev) s"
| "undo (depositBalanceChange a prev) s = withObject a (stateObject_setDepositBalance prev) s"
| "undo (sideChainDepositBalanceChange a chainId prev) s =
     withObject a (\<lambda>(s, ob). let (ob1, index) = sideChainIndex chainId ob in
       stateObject_setSideChainDepositBalance index prev (s, ob1)) s"
| "undo (chainBalanceChange a prev) s = withObject a (stateObject_setChainBalance prev) s"
| "undo (delegateBalanceChange a prev) s = withObject a (stateObject_setDelegateBalance prev) s"
| "undo (proxiedBalanceChange a prev) s = withObject a (stateObject_setProxiedBalance prev) s"
| "undo (depositProxiedBalanceChange a prev) s =
     withObject a (stateObject_setDepositProxiedBalance prev) s"
| "undo (pendingRefundBalanceChange a prev) s =
     withObject a (stateObject_setPendingRefundBalance prev) s"
| "undo (rewardBalanceChange a prev) s = withObject a (stateObject_setRewardBalance prev) s"
| "undo (availableRewardBalanceChange a prev) s =
     withObject a (stateObject_setAvailableRewardBalance prev) s"
| "undo (nonceChange a prev) s = withObject a (stateObject_setNonce prev) s"
| "undo (codeChange a prevcode prevhash) s =
     withObject a (stateObject_setCode (BytesToHash prevhash) prevcode) s"
| "undo (storageChange a key prevalue) s = withObject a (stateObject_setState key prevalue) s"
| "undo (addTX1Change a txHash) s = withObject a (\<lambda>(s, ob). (s, stateObject_removeTX1 txHash ob)) s"
| "undo (addTX3Change a txHash) s = withObject a (\<lambda>(s, ob). (s, stateObject_removeTX3 txHash ob)) s"
| "undo (accountProxiedBalanceChange a key prevalue) s =
     withObject a (stateObject_setAccountProxiedBalance key prevalue) s"
| "undo (delegateRewardBalanceChange a key prevalue) s =
     withObject a (stateObject_setDelegateRewardBalance key prevalue) s"
| "undo (candidateChange a prev) s = withObject a (stateObject_setCandidate prev) s"
| "undo (pubkeyChange a prev) s = withObject a (stateObject_setPubkey prev) s"
| "undo (commissionChange a prev) s = withObject a (stateObject_setCommission prev) s"
| "undo (bannedChange a prev) s = withObject a (stateObject_setBanned prev) s"
| "undo (blockTimeChange a prev) s = withObject a (stateObject_setBlockTime prev) s"
| "undo (bannedTimeChange a prev) s = withObject a (stateObject_setBannedTime prev) s"
| "undo (refundChange prev) s = Ret (s\<lparr>sdb_refund := prev\<rparr>)"
| "undo (addLogChange txhash) s = (let logs = StateDB_GetLogs s txhash in
     if length logs = 1 then
       Ret (s\<lparr>sdb_logs := AList.delete txhash (sdb_logs s), sdb_logSize := sdb_logSize s - 1\<rparr>)
     else if logs = [] then Panic ''slice bounds out of range''
     else Ret (s\<lparr>sdb_logs := AList.update txhash (butlast logs) (sdb_logs s),
                 sdb_logSize := sdb_logSize s - 1\<rparr>))"
| "undo (addPreimageChange h) s = Ret (s\<lparr>sdb_preimages := AList.delete h (sdb_preimages s)\<rparr>)"

definition StateDB_Snapshot :: "stateDB \<Rightarrow> stateDB \<times> int" where
  "StateDB_Snapshot s = (let ident = sdb_nextRevisionId s in
    (s\<lparr>sdb_nextRevisionId := ident + 1,
       sdb_validRevisions := sdb_validRevisions s
         @ [\<lparr>rev_id = ident, rev_journalIndex = length (sdb_journal s)\<rparr>]\<rparr>, ident))"

text \<open>\<open>sort.Search\<close> finds the first revision whose id is not below the wanted one.\<close>

definition StateDB_RevertToSnapshot :: "int \<Rightarrow> stateDB \<Rightarrow> stateDB go" where
  "StateDB_RevertToSnapshot revid s =
    (case find_index (\<lambda>r. rev_id r \<ge> revid) (sdb_validRevisions s) of
       None \<Rightarrow> Panic ''revision id cannot be reverted''
     | Some idx \<Rightarrow>
         if rev_id (sdb_validRevisions s ! idx) \<noteq> revid
         then Panic ''revision id cannot be reverted''
         else let snapshot = rev_journalIndex (sdb_validRevisions s ! idx) in
           bindGo (foldGo undo (rev (drop snapshot (sdb_journal s))) s) (\<lambda>s1.
             Ret (s1\<lparr>sdb_journal := take snapshot (sdb_journal s1),
                     sdb_validRevisions := take idx (sdb_validRevisions s1)\<rparr>)))"

section \<open>Writing to the trie\<close>

definition StateDB_updateStateObject :: "stateObject \<Rightarrow> stateDB \<Rightarrow> stateDB" where
  "StateDB_updateStateObject ob s = s\<lparr>sdb_trie := (sdb_trie s)
    \<lparr>tr_accounts := (tr_accounts (sdb_trie s))(so_address ob \<mapsto> so_data ob)\<rparr>\<rparr>"

definition StateDB_deleteStateObject :: "stateObject \<Rightarrow> stateDB \<Rightarrow> stateDB" where
  "StateDB_deleteStateObject ob s =
    (let s1 = StateDB_setStateObject (ob\<lparr>so_deleted := True\<rparr>) s in
     s1\<lparr>sdb_trie := (sdb_trie s1)
       \<lparr>tr_accounts := (tr_accounts (sdb_trie s1))(so_address ob := None)\<rparr>\<rparr>)"

definition StateDB_clearJournalAndRefund :: "stateDB \<Rightarrow> stateDB" where
  "StateDB_clearJournalAndRefund s = s\<lparr>sdb_journal := [], sdb_validRevisions := [], sdb_refund := 0\<rparr>"

text \<open>The five root updates of \<open>Finalise\<close>, in order.\<close>

definition stateObject_updateRoots :: "stateObject \<Rightarrow> stateObject go" where
  "stateObject_updateRoots ob =
    bindGo (stateObject_updateProxiedTrie
      (stateObject_updateTX3Trie (stateObject_updateTX1Trie (stateObject_updateTrie ob))))
      stateObject_updateRewardTrie"

definition finaliseObject :: "bool \<Rightarrow> address \<Rightarrow> stateDB \<Rightarrow> stateDB go" where
  "finaliseObject deleteEmptyObjects addr s = (case map_of (sdb_stateObjects s) addr of
      None \<Rightarrow> Panic ''nil stateObject''
    | Some ob \<Rightarrow>
        if so_suicided ob \<or> (deleteEmptyObjects \<and> stateObject_empty ob)
        then Ret (StateDB_deleteStateObject ob s)
        else bindGo (stateObject_updateRoots ob) (\<lambda>ob1.
          Ret (StateDB_updateStateObject ob1 (StateDB_setStateObject ob1 s))))"

definition commitSets :: "stateDB \<Rightarrow> stateDB" where
  "commitSets s =
    (let s1 = (if sdb_delegateRefundSetDirty s then StateDB_commitDelegateRefundSet s else s);
         s2 = (if sdb_rewardSetDirty s1 then StateDB_commitRewardSet s1 else s1);
         s3 = (if sdb_candidateSetDirty s2 then StateDB_commitCandidateSet s2 else s2);
         s4 = (if sdb_bannedSetDirty s3 then StateDB_commitBannedSet s3 else s3)
     in if sdb_sideChainRewardPerBlockDirty s4 then StateDB_commitSideChainRewardPerBlock s4 else s4)"

definition StateDB_Finalise :: "bool \<Rightarrow> stateDB \<Rightarrow> stateDB go" where
  "StateDB_Finalise deleteEmptyObjects s =
    bindGo (foldGo (finaliseObject deleteEmptyObjects) (sdb_stateObjectsDirty s) s) (\<lambda>s1.
      Ret (StateDB_clearJournalAndRefund (commitSets s1)))"

text \<open>\<open>DeleteSuicides\<close> flags the suicided objects without touching the trie.\<close>

definition StateDB_DeleteSuicides :: "stateDB \<Rightarrow> stateDB go" where
  "StateDB_DeleteSuicides s =
    foldGo (\<lambda>addr s'. case map_of (sdb_stateObjects s') addr of
        None \<Rightarrow> Panic ''nil stateObject''
      | Some ob \<Rightarrow> Ret ((StateDB_setStateObject
            (if so_suicided ob then ob\<lparr>so_deleted := True\<rparr> else ob) s')
          \<lparr>sdb_stateObjectsDirty := removeAll addr (sdb_stateObjectsDirty s')\<rparr>))
      (sdb_stateObjectsDirty s) (StateDB_clearJournalAndRefund s)"

definition commitObject :: "bool \<Rightarrow> address \<times> stateObject \<Rightarrow> stateDB \<Rightarrow> stateDB go" where
  "commitObject deleteEmptyObjects entry s =
    (let (addr, ob) = entry;
         isDirty = (addr \<in> set (sdb_stateObjectsDirty s));
         clean = (\<lambda>s. s\<lparr>sdb_stateObjectsDirty := removeAll addr (sdb_stateObjectsDirty s)\<rparr>)
     in if so_suicided ob \<or> (isDirty \<and> deleteEmptyObjects \<and> stateObject_empty ob)
        then Ret (clean (StateDB_deleteStateObject ob s))
        else if isDirty then
          (let s1 = (case so_code ob of
                Some code \<Rightarrow> if so_dirtyCode ob
                  then s\<lparr>sdb_codes := (sdb_codes s)(BytesToHash (acc_CodeHash (so_data ob)) \<mapsto> code)\<rparr>
                  else s
              | None \<Rightarrow> s);
               ob1 = (if so_code ob \<noteq> None then ob\<lparr>so_dirtyCode := False\<rparr> else ob)
           in bindGo (stateObject_updateRoots ob1) (\<lambda>ob2.
                Ret (clean (StateDB_updateStateObject ob2 (StateDB_setStateObject ob2 s1)))))
        else Ret (clean s))"

definition clearSetFlags :: "stateDB \<Rightarrow> stateDB" where
  "clearSetFlags s = s\<lparr>sdb_delegateRefundSetDirty := False, sdb_rewardSetDirty := False,
    sdb_candidateSetDirty := False, sdb_bannedSetDirty := False,
    sdb_sideChainRewardPerBlockDirty := False\<rparr>"

definition StateDB_Commit :: "bool \<Rightarrow> stateDB \<Rightarrow> stateDB go" where
  "StateDB_Commit deleteEmptyObjects s =
    bindGo (foldGo (commitObject deleteEmptyObjects) (sdb_stateObjects s) s) (\<lambda>s1.
      Ret (StateDB_clearJournalAndRefund (clearSetFlags (commitSets s1))))"

definition StateDB_Reset :: "accountTrie \<Rightarrow> stateDB \<Rightarrow> stateDB" where
  "StateDB_Reset tr s = StateDB_clearJournalAndRefund (s\<lparr>sdb_trie := tr, sdb_stateObjects := [],
    sdb_stateObjectsDirty := [], sdb_delegateRefundSet := [], sdb_rewardSet := [],
    sdb_candidateSet := [], sdb_bannedSet := [], sdb_sideChainRewardPerBlock := None,
    sdb_thash := zeroHash, sdb_bhash := zeroHash, sdb_txIndex := 0, sdb_logs := [],
    sdb_logSize := 0, sdb_preimages := []\<rparr>)"

end
