(* ===== verification/State_View.thy ===== *)
theory State_View
  imports State_DB
begin

text \<open>
  What the rest of the program can observe of a \<open>StateDB\<close>: the abstract state \<open>world\<close>, the
  effect \<open>aundo\<close> of undoing a journal entry on it, and the proof that \<open>undo\<close> implements
  \<open>aundo\<close>. The locale \<open>undo_log\<close> is the contract of a journalled store.
\<close>

section \<open>Abstract state\<close>

text \<open>
  An account as its getters show it. The list of side chain deposits is replaced by the
  function it represents, since undoing an insertion leaves an entry of value zero.
\<close>

record acctView =
  v_data :: account
  v_side :: "string \<Rightarrow> int"
  v_storage :: "hash \<Rightarrow> hash"
  v_tx1 :: "hash set"
  v_tx3 :: "hash set"
  v_proxied :: "address \<Rightarrow> accountProxiedBalance option"
  v_reward :: "address \<Rightarrow> int option"
  v_code :: "bytes option"
  v_suicided :: bool

definition obj_view :: "(hash \<rightharpoonup> bytes) \<Rightarrow> stateObject \<Rightarrow> acctView" where
  "obj_view codes ob = \<lparr>v_data = (so_data ob)\<lparr>acc_SideChainDepositBalance := []\<rparr>,
    v_side = (\<lambda>c. stateObject_SideChainDepositBalance c ob),
    v_storage = (\<lambda>k. stateObject_GetState k ob),
    v_tx1 = set (so_dirtyTX1 ob), v_tx3 = set (so_dirtyTX3 ob),
    v_proxied = (\<lambda>k. stateObject_GetAccountProxiedBalance k ob),
    v_reward = (\<lambda>k. stateObject_GetDelegateRewardBalance k ob),
    v_code = stateObject_Code codes ob, v_suicided = so_suicided ob\<rparr>"

record world =
  w_codes :: "hash \<rightharpoonup> bytes"
  w_base :: "address \<Rightarrow> acctView option"
  w_acct :: "address \<Rightarrow> acctView option"
  w_refund :: u64
  w_logs :: "hash \<Rightarrow> log list"
  w_logSize :: u64
  w_preimages :: "hash \<rightharpoonup> bytes"

definition world_of :: "stateDB \<Rightarrow> world" where
  "world_of s = \<lparr>w_codes = sdb_codes s,
    w_base = (\<lambda>a. map_option (\<lambda>d. obj_view (sdb_codes s) (newObject a d)) (tr_accounts (sdb_trie s) a)),
    w_acct = (\<lambda>a. map_option (obj_view (sdb_codes s)) (StateDB_getStateObject s a)),
    w_refund = sdb_refund s, w_logs = StateDB_GetLogs s, w_logSize = sdb_logSize s,
    w_preimages = map_of (sdb_preimages s)\<rparr>"

section \<open>Undoing on the abstract state\<close>

definition awith :: "address \<Rightarrow> (acctView \<Rightarrow> acctView) \<Rightarrow> world \<Rightarrow> world go" where
  "awith a h w = (case w_acct w a of
      None \<Rightarrow> Panic ''nil stateObject''
    | Some v \<Rightarrow> Ret (w\<lparr>w_acct := (w_acct w)(a \<mapsto> h v)\<rparr>))"

definition vdata :: "(account \<Rightarrow> account) \<Rightarrow> acctView \<Rightarrow> acctView" where
  "vdata f v = v\<lparr>v_data := f (v_data v)\<rparr>"

definition codeOf :: "(hash \<rightharpoonup> bytes) \<Rightarrow> bytes \<Rightarrow> bytes option \<Rightarrow> bytes option" where
  "codeOf codes h code = (case code of Some c \<Rightarrow> Some c
    | None \<Rightarrow> if h = emptyCodeHash then None else codes (BytesToHash h))"

fun aundo :: "journalEntry \<Rightarrow> world \<Rightarrow> world go" where
  "aundo (createObjectChange a) w = Ret (w\<lparr>w_acct := (w_acct w)(a := w_base w a)\<rparr>)"
| "aundo (resetObjectChange prev) w = Ret (w\<lparr>w_acct := (w_acct w)
     (so_address prev := (if so_deleted prev then None else Some (obj_view (w_codes w) prev)))\<rparr>)"
| "aundo (suicideChange a prev b) w = (if w_acct w a = None then Ret w else
     awith a (\<lambda>v. (vdata (acc_Balance_update (\<lambda>_. b)) v)\<lparr>v_suicided := prev\<rparr>) w)"
| "aundo (touchChange a prev prevDirty) w = (if \<not> prev \<and> a \<noteq> ripemd then awith a id w else Ret w)"
| "aundo (balanceChange a p) w = awith a (vdata (acc_Balance_update (\<lambda>_. p))) w"
| "aundo (depositBalanceChange a p) w = awith a (vdata (acc_DepositBalance_update (\<lambda>_. p))) w"
| "aundo (sideChainDepositBalanceChange a c p) w = awith a (\<lambda>v. v\<lparr>v_side := (v_side v)(c := p)\<rparr>) w"
| "aundo (chainBalanceChange a p) w = awith a (vdata (acc_ChainBalance_update (\<lambda>_. p))) w"
| "aundo (delegateBalanceChange a p) w = awith a (vdata (acc_DelegateBalance_update (\<lambda>_. p))) w"
| "aundo (proxiedBalanceChange a p) w = awith a (vdata (acc_ProxiedBalance_update (\<lambda>_. p))) w"
| "aundo (depositProxiedBalanceChange a p) w =
     awith a (vdata (acc_DepositProxiedBalance_update (\<lambda>_. p))) w"
| "aundo (pendingRefundBalanceChange a p) w =
     awith a (vdata (acc_PendingRefundBalance_update (\<lambda>_. p))) w"
| "aundo (rewardBalanceChange a p) w = awith a (vdata (acc_RewardBalance_update (\<lambda>_. p))) w"
| "aundo (availableRewardBalanceChange a p) w =
     awith a (vdata (acc_AvailableRewardBalance_update (\<lambda>_. p))) w"
| "aundo (nonceChange a p) w = awith a (vdata (acc_Nonce_update (\<lambda>_. p))) w"
| "aundo (codeChange a c h) w = awith a (\<lambda>v. (vdata (acc_CodeHash_update (\<lambda>_. BytesToHash h)) v)
     \<lparr>v_code := codeOf (w_codes w) (BytesToHash h) c\<rparr>) w"
| "aundo (storageChange a k p) w = awith a (\<lambda>v. v\<lparr>v_storage := (v_storage v)(k := p)\<rparr>) w"
| "aundo (addTX1Change a h) w = awith a (\<lambda>v. v\<lparr>v_tx1 := v_tx1 v - {h}\<rparr>) w"
| "aundo (addTX3Change a h) w = awith a (\<lambda>v. v\<lparr>v_tx3 := v_tx3 v - {h}\<rparr>) w"
| "aundo (accountProxiedBalanceChange a k p) w =
     awith a (\<lambda>v. v\<lparr>v_proxied := (v_proxied v)(k := p)\<rparr>) w"
| "aundo (delegateRewardBalanceChange a k p) w =
     awith a (\<lambda>v. v\<lparr>v_reward := (v_reward v)(k := p)\<rparr>) w"
| "aundo (candidateChange a p) w = awith a (vdata (acc_Candidate_update (\<lambda>_. p))) w"
| "aundo (pubkeyChange a p) w = awith a (vdata (acc_Pubkey_update (\<lambda>_. p))) w"
| "aundo (commissionChange a p) w = awith a (vdata (acc_Commission_update (\<lambda>_. p))) w"
| "aundo (bannedChange a p) w = awith a (vdata (acc_IsBanned_update (\<lambda>_. p))) w"
| "aundo (blockTimeChange a p) w = awith a (vdata (acc_BlockTime_update (\<lambda>_. p))) w"
| "aundo (bannedTimeChange a p) w = awith a (vdata (acc_BannedTime_update (\<lambda>_. p))) w"
| "aundo (refundChange p) w = Ret (w\<lparr>w_refund := p\<rparr>)"
| "aundo (addLogChange h) w = (if w_logs w h = [] then Panic ''slice bounds out of range''
     else Ret (w\<lparr>w_logs := (w_logs w)(h := butlast (w_logs w h)), w_logSize := w_logSize w - 1\<rparr>))"
| "aundo (addPreimageChange h) w = Ret (w\<lparr>w_preimages := (w_preimages w)(h := None)\<rparr>)"

section \<open>Invariant\<close>

text \<open>
  Objects are stored under their own address; a deleted object is one that \<open>Finalise\<close> deletes,
  and has no account in the trie; code hashes have 32 bytes; a map has one entry per key.
\<close>

definition dead :: "stateObject \<Rightarrow> bool" where
  "dead ob \<longleftrightarrow> so_suicided ob \<or> stateObject_empty ob"

definition obj_ok :: "stateObject \<Rightarrow> bool" where
  "obj_ok ob \<longleftrightarrow> length (acc_CodeHash (so_data ob)) = 32
    \<and> distinct (map fst (so_dirtyStorage ob)) \<and> distinct (map fst (so_dirtyProxied ob))
    \<and> distinct (map fst (so_dirtyReward ob))"

definition acc_ok :: "account \<Rightarrow> bool" where
  "acc_ok d \<longleftrightarrow> acc_CodeHash d = [] \<or> length (acc_CodeHash d) = 32"

definition entry_ok :: "journalEntry \<Rightarrow> bool" where
  "entry_ok e = (case e of resetObjectChange ob \<Rightarrow> obj_ok ob \<and> \<not> so_deleted ob | _ \<Rightarrow> True)"

definition sdb_ok :: "stateDB \<Rightarrow> bool" where
  "sdb_ok s \<longleftrightarrow>
    (\<forall>a ob. map_of (sdb_stateObjects s) a = Some ob \<longrightarrow> so_address ob = a \<and> obj_ok ob
        \<and> (so_deleted ob \<longrightarrow> dead ob \<and> tr_accounts (sdb_trie s) a = None))
    \<and> (\<forall>a d. tr_accounts (sdb_trie s) a = Some d \<longrightarrow> acc_ok d)
    \<and> (\<forall>e \<in> set (sdb_journal s). entry_ok e)
    \<and> distinct (map fst (sdb_stateObjects s))"

section \<open>Library\<close>

declare distinct_update [simp] distinct_delete [simp]

lemma foldGo_append: "foldGo f (xs @ ys) x = bindGo (foldGo f xs x) (foldGo f ys)"
proof (induction xs arbitrary: x)
  case (Cons a xs)
  have "foldGo f (xs @ ys) = (\<lambda>y. bindGo (foldGo f xs y) (foldGo f ys))" using Cons.IH by blast
  then show ?case by (simp add: bindGo_assoc)
qed simp

lemma length_BytesToHash [simp]: "length (BytesToHash b) = 32"
  by (auto simp: BytesToHash_def Let_def)

lemma BytesToHash_id [simp]: "length b = 32 \<Longrightarrow> BytesToHash b = b"
  by (simp add: BytesToHash_def)

lemma emptyCodeHash_length [simp]: "length emptyCodeHash = 32"
  by (simp add: emptyCodeHash_def)

lemma emptyCodeHash_not_Nil [simp]: "emptyCodeHash \<noteq> []" "[] \<noteq> emptyCodeHash"
  by (simp_all add: emptyCodeHash_def)

lemma journalAppend_simps [simp]:
  "sdb_journal (journalAppend e s) = sdb_journal s @ [e]"
  "sdb_codes (journalAppend e s) = sdb_codes s"
  "sdb_trie (journalAppend e s) = sdb_trie s"
  "sdb_stateObjects (journalAppend e s) = sdb_stateObjects s"
  "sdb_stateObjectsDirty (journalAppend e s) = sdb_stateObjectsDirty s"
  "sdb_validRevisions (journalAppend e s) = sdb_validRevisions s"
  "sdb_nextRevisionId (journalAppend e s) = sdb_nextRevisionId s"
  "sdb_refund (journalAppend e s) = sdb_refund s"
  "sdb_logs (journalAppend e s) = sdb_logs s"
  "sdb_logSize (journalAppend e s) = sdb_logSize s"
  "sdb_preimages (journalAppend e s) = sdb_preimages s"
  by (simp_all add: journalAppend_def)

lemma updData_simps [simp]:
  "so_address (updData f ob) = so_address ob" "so_data (updData f ob) = f (so_data ob)"
  "so_code (updData f ob) = so_code ob" "so_dirtyStorage (updData f ob) = so_dirtyStorage ob"
  "so_dirtyTX1 (updData f ob) = so_dirtyTX1 ob" "so_dirtyTX3 (updData f ob) = so_dirtyTX3 ob"
  "so_dirtyProxied (updData f ob) = so_dirtyProxied ob" "so_dirtyReward (updData f ob) = so_dirtyReward ob"
  "so_suicided (updData f ob) = so_suicided ob" "so_deleted (updData f ob) = so_deleted ob"
  "so_onDirty (updData f ob) = so_onDirty ob" "so_touched (updData f ob) = so_touched ob"
  by (simp_all add: updData_def)

lemma newObject_simps [simp]:
  "so_address (newObject a d) = a" "so_deleted (newObject a d) = False"
  "so_dirtyProxied (newObject a d) = []" "so_dirtyReward (newObject a d) = []"
  "so_dirtyStorage (newObject a d) = []" "so_suicided (newObject a d) = False"
  "so_onDirty (newObject a d) = True"
  by (simp_all add: newObject_def)

lemma newObject_ok: "acc_ok d \<Longrightarrow> obj_ok (newObject a d)"
  by (auto simp: obj_ok_def acc_ok_def newObject_def)

lemma zeroAccount_ok [simp]: "acc_ok zeroAccount"
  by (simp add: acc_ok_def zeroAccount_def)

lemma getStateObject_ok:
  assumes "sdb_ok s" "StateDB_getStateObject s a = Some ob"
  shows "so_address ob = a \<and> obj_ok ob \<and> \<not> so_deleted ob"
  using assms by (auto simp: StateDB_getStateObject_def sdb_ok_def newObject_ok
      split: option.splits if_splits)

lemma getStateObject_None:
  assumes "sdb_ok s" "StateDB_getStateObject s a = None"
  shows "tr_accounts (sdb_trie s) a = None"
  using assms by (auto simp: StateDB_getStateObject_def sdb_ok_def split: option.splits if_splits)

text \<open>The object written back is the one that is found, and nothing else changes.\<close>

lemma getStateObject_writeBack [simp]:
  "StateDB_getStateObject (writeBack (s, ob)) a =
    (if a = so_address ob then (if so_deleted ob then None else Some ob) else StateDB_getStateObject s a)"
  by (auto simp: StateDB_getStateObject_def writeBack_def StateDB_setStateObject_def update_conv'
      cong: option.case_cong)

lemma writeBack_simps [simp]:
  "sdb_journal (writeBack p) = sdb_journal (fst p)"
  "sdb_codes (writeBack p) = sdb_codes (fst p)"
  "sdb_trie (writeBack p) = sdb_trie (fst p)"
  "sdb_validRevisions (writeBack p) = sdb_validRevisions (fst p)"
  "sdb_nextRevisionId (writeBack p) = sdb_nextRevisionId (fst p)"
  "sdb_refund (writeBack p) = sdb_refund (fst p)"
  "sdb_logs (writeBack p) = sdb_logs (fst p)"
  "sdb_logSize (writeBack p) = sdb_logSize (fst p)"
  "sdb_preimages (writeBack p) = sdb_preimages (fst p)"
  "sdb_stateObjectsDirty (writeBack p) = sdb_stateObjectsDirty (fst p)"
  by (simp_all add: writeBack_def StateDB_setStateObject_def)

lemma GetLogs_cong: "sdb_logs s = sdb_logs s' \<Longrightarrow> StateDB_GetLogs s = StateDB_GetLogs s'"
  by (auto simp: StateDB_GetLogs_def)

lemma getStateObject_cong:
  "sdb_stateObjects s = sdb_stateObjects s' \<Longrightarrow> sdb_trie s = sdb_trie s'
    \<Longrightarrow> StateDB_getStateObject s = StateDB_getStateObject s'"
  by (auto simp: StateDB_getStateObject_def fun_eq_iff cong: option.case_cong)

lemma world_writeBack:
  "world_of (writeBack (s, ob)) = (world_of s)\<lparr>w_acct := (w_acct (world_of s))
     (so_address ob := (if so_deleted ob then None else Some (obj_view (sdb_codes s) ob)))\<rparr>"
proof -
  have "StateDB_GetLogs (writeBack (s, ob)) = StateDB_GetLogs s" by (rule GetLogs_cong) simp
  moreover have "(\<lambda>a. map_option (obj_view (sdb_codes s)) (StateDB_getStateObject (writeBack (s, ob)) a))
    = (\<lambda>a. map_option (obj_view (sdb_codes s)) (StateDB_getStateObject s a))
        (so_address ob := (if so_deleted ob then None else Some (obj_view (sdb_codes s) ob)))"
    by (rule ext) simp
  ultimately show ?thesis by (simp add: world_of_def)
qed

text \<open>Fields that \<open>world_of\<close> and \<open>sdb_ok\<close> do not see.\<close>

lemma world_of_cong:
  assumes "sdb_codes s = sdb_codes s'" "sdb_trie s = sdb_trie s'"
    "sdb_stateObjects s = sdb_stateObjects s'" "sdb_refund s = sdb_refund s'"
    "sdb_logs s = sdb_logs s'" "sdb_logSize s = sdb_logSize s'" "sdb_preimages s = sdb_preimages s'"
  shows "world_of s = world_of s'"
  using assms GetLogs_cong [of s s'] getStateObject_cong [of s s'] by (simp add: world_of_def)

lemma sdb_ok_cong:
  assumes "sdb_trie s = sdb_trie s'" "sdb_stateObjects s = sdb_stateObjects s'"
    "sdb_journal s = sdb_journal s'"
  shows "sdb_ok s = sdb_ok s'"
  using assms by (simp add: sdb_ok_def)

lemma sdb_ok_writeBack:
  assumes "sdb_ok s" "obj_ok ob"
    "so_deleted ob \<Longrightarrow> dead ob \<and> tr_accounts (sdb_trie s) (so_address ob) = None"
  shows "sdb_ok (writeBack (s, ob))"
  using assms by (auto simp: sdb_ok_def writeBack_def StateDB_setStateObject_def update_conv' distinct_update)

lemma sdb_ok_journalAppend: "sdb_ok s \<Longrightarrow> entry_ok e \<Longrightarrow> sdb_ok (journalAppend e s)"
  by (auto simp: sdb_ok_def)

lemma stateObjects_writeBack:
  "sdb_stateObjects (writeBack (s, ob)) = AList.update (so_address ob) ob (sdb_stateObjects s)"
  by (simp add: writeBack_def StateDB_setStateObject_def)

text \<open>Marking an object dirty changes neither.\<close>

lemma MarkDirty_simps [simp]:
  "sdb_journal (StateDB_MarkStateObjectDirty a s) = sdb_journal s"
  "sdb_codes (StateDB_MarkStateObjectDirty a s) = sdb_codes s"
  "sdb_trie (StateDB_MarkStateObjectDirty a s) = sdb_trie s"
  "sdb_stateObjects (StateDB_MarkStateObjectDirty a s) = sdb_stateObjects s"
  "sdb_validRevisions (StateDB_MarkStateObjectDirty a s) = sdb_validRevisions s"
  "sdb_nextRevisionId (StateDB_MarkStateObjectDirty a s) = sdb_nextRevisionId s"
  "sdb_refund (StateDB_MarkStateObjectDirty a s) = sdb_refund s"
  "sdb_logs (StateDB_MarkStateObjectDirty a s) = sdb_logs s"
  "sdb_logSize (StateDB_MarkStateObjectDirty a s) = sdb_logSize s"
  "sdb_preimages (StateDB_MarkStateObjectDirty a s) = sdb_preimages s"
  by (simp_all add: StateDB_MarkStateObjectDirty_def)

lemma obj_view_onDirty [simp]: "obj_view codes (ob\<lparr>so_onDirty := b\<rparr>) = obj_view codes ob"
  by (simp add: obj_view_def stateObject_SideChainDepositBalance_def stateObject_GetState_def
      stateObject_GetCommittedState_def stateObject_GetAccountProxiedBalance_def proxiedTrie_def
      stateObject_GetDelegateRewardBalance_def stateObject_Code_def cong: option.case_cong)

lemma obj_view_touched [simp]: "obj_view codes (ob\<lparr>so_touched := b\<rparr>) = obj_view codes ob"
  by (simp add: obj_view_def stateObject_SideChainDepositBalance_def stateObject_GetState_def
      stateObject_GetCommittedState_def stateObject_GetAccountProxiedBalance_def proxiedTrie_def
      stateObject_GetDelegateRewardBalance_def stateObject_Code_def cong: option.case_cong)

lemma fireDirty_world [simp]: "world_of (writeBack (fireDirty (s, ob))) = world_of (writeBack (s, ob))"
proof (cases "so_onDirty ob")
  case True
  have "world_of (StateDB_MarkStateObjectDirty (so_address ob) s) = world_of s"
    by (rule world_of_cong) simp_all
  then show ?thesis using True by (simp add: world_writeBack)
qed simp

lemma fireDirty_simps [simp]:
  "sdb_journal (fst (fireDirty (s, ob))) = sdb_journal s"
  "sdb_codes (fst (fireDirty (s, ob))) = sdb_codes s"
  "sdb_trie (fst (fireDirty (s, ob))) = sdb_trie s"
  "sdb_validRevisions (fst (fireDirty (s, ob))) = sdb_validRevisions s"
  "sdb_nextRevisionId (fst (fireDirty (s, ob))) = sdb_nextRevisionId s"
  "so_data (snd (fireDirty (s, ob))) = so_data ob"
  "so_deleted (snd (fireDirty (s, ob))) = so_deleted ob"
  "so_address (snd (fireDirty (s, ob))) = so_address ob"
  by simp_all

lemma sdb_ok_D:
  assumes "sdb_ok s"
  shows "map_of (sdb_stateObjects s) a = Some ob \<Longrightarrow> so_address ob = a \<and> obj_ok ob
      \<and> (so_deleted ob \<longrightarrow> dead ob \<and> tr_accounts (sdb_trie s) a = None)"
    and "tr_accounts (sdb_trie s) a = Some d \<Longrightarrow> acc_ok d"
    and "e \<in> set (sdb_journal s) \<Longrightarrow> entry_ok e"
    and "distinct (map fst (sdb_stateObjects s))"
  using assms unfolding sdb_ok_def by blast+

lemma sdb_ok_I:
  assumes "\<And>a ob. map_of (sdb_stateObjects s) a = Some ob \<Longrightarrow> so_address ob = a \<and> obj_ok ob
      \<and> (so_deleted ob \<longrightarrow> dead ob \<and> tr_accounts (sdb_trie s) a = None)"
    and "\<And>a d. tr_accounts (sdb_trie s) a = Some d \<Longrightarrow> acc_ok d"
    and "\<And>e. e \<in> set (sdb_journal s) \<Longrightarrow> entry_ok e"
    and "distinct (map fst (sdb_stateObjects s))"
  shows "sdb_ok s"
  using assms unfolding sdb_ok_def by blast

lemma sdb_ok_replace:
  assumes ok: "sdb_ok (writeBack (s, ob))"
    and same: "so_address ob' = so_address ob" "so_deleted ob' = so_deleted ob" "obj_ok ob'"
      "so_deleted ob' \<Longrightarrow> dead ob' = dead ob"
    and db: "sdb_trie s' = sdb_trie s" "sdb_stateObjects s' = sdb_stateObjects s"
    and j: "\<And>e. e \<in> set (sdb_journal s') \<Longrightarrow> entry_ok e"
  shows "sdb_ok (writeBack (s', ob'))"
proof (rule sdb_ok_I)
  fix a x
  assume x: "map_of (sdb_stateObjects (writeBack (s', ob'))) a = Some x"
  show "so_address x = a \<and> obj_ok x
    \<and> (so_deleted x \<longrightarrow> dead x \<and> tr_accounts (sdb_trie (writeBack (s', ob'))) a = None)"
  proof (cases "a = so_address ob")
    case True
    then have "x = ob'" using x same by (simp add: stateObjects_writeBack update_conv')
    moreover have "map_of (sdb_stateObjects (writeBack (s, ob))) a = Some ob"
      using True by (simp add: stateObjects_writeBack update_conv')
    from sdb_ok_D(1) [OF ok this] have "so_deleted ob \<longrightarrow> dead ob \<and> tr_accounts (sdb_trie s) a = None" by simp
    ultimately show ?thesis using True same db by simp
  next
    case False
    then have "map_of (sdb_stateObjects (writeBack (s, ob))) a = Some x"
      using x same db by (simp add: stateObjects_writeBack update_conv')
    from sdb_ok_D(1) [OF ok this] db show ?thesis by simp
  qed
next
  fix a d
  assume "tr_accounts (sdb_trie (writeBack (s', ob'))) a = Some d"
  then show "acc_ok d" using sdb_ok_D(2) [OF ok, of a d] db by simp
next
  fix e
  assume "e \<in> set (sdb_journal (writeBack (s', ob')))"
  then show "entry_ok e" using j by simp
next
  show "distinct (map fst (sdb_stateObjects (writeBack (s', ob'))))"
    using sdb_ok_D(4) [OF ok] same(1) db(2)
    by (simp add: stateObjects_writeBack update_keys distinct_update split: if_splits)
qed

lemma fireDirty_ok:
  assumes "sdb_ok (writeBack (s, ob))"
  shows "sdb_ok (writeBack (fireDirty (s, ob)))"
proof -
  have "obj_ok ob"
    using sdb_ok_D(1) [OF assms, of "so_address ob" ob] by (simp add: stateObjects_writeBack update_conv')
  moreover have "entry_ok e" if "e \<in> set (sdb_journal s)" for e
    using sdb_ok_D(3) [OF assms, of e] that by simp
  ultimately show ?thesis
    using assms by (auto simp: obj_ok_def dead_def stateObject_empty_def intro!: sdb_ok_replace [OF assms])
qed

section \<open>\<open>undo\<close> implements \<open>aundo\<close>\<close>

text \<open>A change of an object that acts on its view as \<open>h\<close>.\<close>

definition lifts :: "(hash \<rightharpoonup> bytes) \<Rightarrow> (stateObject \<Rightarrow> stateObject) \<Rightarrow> (acctView \<Rightarrow> acctView) \<Rightarrow> bool" where
  "lifts codes g h \<longleftrightarrow> (\<forall>ob. obj_ok ob \<longrightarrow> so_address (g ob) = so_address ob
    \<and> so_deleted (g ob) = so_deleted ob \<and> obj_ok (g ob) \<and> obj_view codes (g ob) = h (obj_view codes ob))"

lemmas object_getters = stateObject_SideChainDepositBalance_def stateObject_GetState_def
  stateObject_GetCommittedState_def stateObject_GetAccountProxiedBalance_def proxiedTrie_def
  stateObject_GetDelegateRewardBalance_def stateObject_Code_def

lemma lifts_updData:
  assumes "\<And>d. acc_CodeHash (f d) = acc_CodeHash d"
    "\<And>d. acc_SideChainDepositBalance (f d) = acc_SideChainDepositBalance d"
    "\<And>d. acc_Root (f d) = acc_Root d" "\<And>d. acc_ProxiedRoot (f d) = acc_ProxiedRoot d"
    "\<And>d. acc_RewardRoot (f d) = acc_RewardRoot d"
    "\<And>d. f (d\<lparr>acc_SideChainDepositBalance := []\<rparr>) = (f d)\<lparr>acc_SideChainDepositBalance := []\<rparr>"
  shows "lifts codes (updData f) (vdata f)"
  using assms by (simp add: lifts_def obj_ok_def obj_view_def vdata_def object_getters
      cong: option.case_cong)

lemma lifts_fields:
  "lifts codes (updData (acc_Balance_update (\<lambda>_. x0))) (vdata (acc_Balance_update (\<lambda>_. x0)))"
  "lifts codes (updData (acc_DepositBalance_update (\<lambda>_. x1))) (vdata (acc_DepositBalance_update (\<lambda>_. x1)))"
  "lifts codes (updData (acc_ChainBalance_update (\<lambda>_. x2))) (vdata (acc_ChainBalance_update (\<lambda>_. x2)))"
  "lifts codes (updData (acc_DelegateBalance_update (\<lambda>_. x3))) (vdata (acc_DelegateBalance_update (\<lambda>_. x3)))"
  "lifts codes (updData (acc_ProxiedBalance_update (\<lambda>_. x4))) (vdata (acc_ProxiedBalance_update (\<lambda>_. x4)))"
  "lifts codes (updData (acc_DepositProxiedBalance_update (\<lambda>_. x5))) (vdata (acc_DepositProxiedBalance_update (\<lambda>_. x5)))"
  "lifts codes (updData (acc_PendingRefundBalance_update (\<lambda>_. x6))) (vdata (acc_PendingRefundBalance_update (\<lambda>_. x6)))"
  "lifts codes (updData (acc_RewardBalance_update (\<lambda>_. x7))) (vdata (acc_RewardBalance_update (\<lambda>_. x7)))"
  "lifts codes (updData (acc_AvailableRewardBalance_update (\<lambda>_. x8))) (vdata (acc_AvailableRewardBalance_update (\<lambda>_. x8)))"
  "lifts codes (updData (acc_Nonce_update (\<lambda>_. x9))) (vdata (acc_Nonce_update (\<lambda>_. x9)))"
  "lifts codes (updData (acc_Candidate_update (\<lambda>_. x10))) (vdata (acc_Candidate_update (\<lambda>_. x10)))"
  "lifts codes (updData (acc_Pubkey_update (\<lambda>_. x11))) (vdata (acc_Pubkey_update (\<lambda>_. x11)))"
  "lifts codes (updData (acc_Commission_update (\<lambda>_. x12))) (vdata (acc_Commission_update (\<lambda>_. x12)))"
  "lifts codes (updData (acc_IsBanned_update (\<lambda>_. x13))) (vdata (acc_IsBanned_update (\<lambda>_. x13)))"
  "lifts codes (updData (acc_BlockTime_update (\<lambda>_. x14))) (vdata (acc_BlockTime_update (\<lambda>_. x14)))"
  "lifts codes (updData (acc_BannedTime_update (\<lambda>_. x15))) (vdata (acc_BannedTime_update (\<lambda>_. x15)))"
  by (rule lifts_updData; simp)+

lemma lifts_onDirty: "lifts codes g h \<Longrightarrow> lifts codes (\<lambda>ob. (g ob)\<lparr>so_onDirty := b\<rparr>) h"
  by (simp add: lifts_def obj_ok_def)

lemma lifts_id: "lifts codes (\<lambda>ob. ob\<lparr>so_touched := b\<rparr>) id"
  by (simp add: lifts_def obj_ok_def)

lemma lifts_state: "lifts codes (\<lambda>ob. ob\<lparr>so_dirtyStorage := AList.update k p (so_dirtyStorage ob)\<rparr>)
    (\<lambda>v. v\<lparr>v_storage := (v_storage v)(k := p)\<rparr>)"
  by (simp add: lifts_def obj_ok_def obj_view_def object_getters update_conv' fun_eq_iff
      cong: option.case_cong)

lemma lifts_proxied: "lifts codes (\<lambda>ob. ob\<lparr>so_dirtyProxied := AList.update k p (so_dirtyProxied ob)\<rparr>)
    (\<lambda>v. v\<lparr>v_proxied := (v_proxied v)(k := p)\<rparr>)"
  by (simp add: lifts_def obj_ok_def obj_view_def object_getters update_conv' fun_eq_iff
      cong: option.case_cong)

lemma lifts_reward: "lifts codes (\<lambda>ob. ob\<lparr>so_dirtyReward := AList.update k p (so_dirtyReward ob)\<rparr>)
    (\<lambda>v. v\<lparr>v_reward := (v_reward v)(k := p)\<rparr>)"
  by (simp add: lifts_def obj_ok_def obj_view_def object_getters update_conv' fun_eq_iff
      cong: option.case_cong)

lemma lifts_removeTX1: "lifts codes (stateObject_removeTX1 h) (\<lambda>v. v\<lparr>v_tx1 := v_tx1 v - {h}\<rparr>)"
  by (simp add: lifts_def obj_ok_def obj_view_def object_getters stateObject_removeTX1_def
      cong: option.case_cong)

lemma lifts_removeTX3: "lifts codes (stateObject_removeTX3 h) (\<lambda>v. v\<lparr>v_tx3 := v_tx3 v - {h}\<rparr>)"
  by (simp add: lifts_def obj_ok_def obj_view_def object_getters stateObject_removeTX3_def
      cong: option.case_cong)

lemma lifts_code:
  assumes "length h = 32"
  shows "lifts codes (\<lambda>ob. (updData (acc_CodeHash_update (\<lambda>_. h)) ob)\<lparr>so_code := c, so_dirtyCode := True\<rparr>)
    (\<lambda>v. (vdata (acc_CodeHash_update (\<lambda>_. h)) v)\<lparr>v_code := codeOf codes h c\<rparr>)"
  using assms by (simp add: lifts_def obj_ok_def obj_view_def vdata_def codeOf_def object_getters
      cong: option.case_cong)

text \<open>The list of side chain deposits as a function.\<close>

lemma find_conv_index: "find P xs = map_option ((!) xs) (find_index P xs)"
  by (induction xs) (auto simp: option.map_comp comp_def)

lemma find_update:
  assumes "find_index (\<lambda>d. scd_ChainId d = c) ds = Some i"
  shows "(case find (\<lambda>d. scd_ChainId d = c') (ds[i := (ds ! i)\<lparr>scd_DepositBalance := b\<rparr>]) of
            Some d \<Rightarrow> scd_DepositBalance d | None \<Rightarrow> 0)
       = (if c' = c then b else case find (\<lambda>d. scd_ChainId d = c') ds of
            Some d \<Rightarrow> scd_DepositBalance d | None \<Rightarrow> (0::int))"
  using assms
proof (induction ds arbitrary: i)
  case (Cons d ds)
  show ?case
  proof (cases "scd_ChainId d = c")
    case True
    then show ?thesis using Cons.prems by simp
  next
    case False
    then obtain k where "find_index (\<lambda>d. scd_ChainId d = c) ds = Some k" "i = Suc k"
      using Cons.prems by auto
    then show ?thesis using Cons.IH [of k] False by (auto cong: option.case_cong)
  qed
qed simp

lemma find_index_snoc: "\<forall>x\<in>set xs. \<not> P x \<Longrightarrow> P y \<Longrightarrow> find_index P (xs @ [y]) = Some (length xs)"
  by (induction xs) auto

lemma find_append_split: "find P (xs @ ys) = (case find P xs of Some x \<Rightarrow> Some x | None \<Rightarrow> find P ys)"
  by (induction xs) auto

definition sideSet :: "string \<Rightarrow> int \<Rightarrow> stateObject \<Rightarrow> stateObject" where
  "sideSet c b ob = (let (ob1, i) = sideChainIndex c ob in updData (acc_SideChainDepositBalance_update
      (\<lambda>ds. ds[i := (ds ! i)\<lparr>scd_DepositBalance := b\<rparr>])) ob1)"

lemma sideSet_lookup:
  "stateObject_SideChainDepositBalance c' (sideSet c b ob) =
    (if c' = c then b else stateObject_SideChainDepositBalance c' ob)"
proof (cases "find_index (\<lambda>d. scd_ChainId d = c) (acc_SideChainDepositBalance (so_data ob))")
  case (Some i)
  then show ?thesis using find_update [OF Some, of c' b]
    by (simp add: sideSet_def sideChainIndex_def stateObject_SideChainDepositBalance_def)
next
  case None
  let ?ds = "acc_SideChainDepositBalance (so_data ob)"
  let ?new = "?ds @ [\<lparr>scd_ChainId = c, scd_DepositBalance = 0\<rparr>]"
  have "find_index (\<lambda>d. scd_ChainId d = c) ?new = Some (length ?ds)"
    using None by (intro find_index_snoc) auto
  note upd = find_update [OF this, of c' b]
  have idx: "sideChainIndex c ob = (updData (acc_SideChainDepositBalance_update
      (\<lambda>ds. ds @ [\<lparr>scd_ChainId = c, scd_DepositBalance = 0\<rparr>])) ob, length ?ds)"
    unfolding sideChainIndex_def None by simp
  have "acc_SideChainDepositBalance (so_data (sideSet c b ob))
      = ?new[length ?ds := (?new ! length ?ds)\<lparr>scd_DepositBalance := b\<rparr>]"
    unfolding sideSet_def idx by simp
  then have "stateObject_SideChainDepositBalance c' (sideSet c b ob)
      = (if c' = c then b else case find (\<lambda>d. scd_ChainId d = c') ?new of
            Some d \<Rightarrow> scd_DepositBalance d | None \<Rightarrow> 0)"
    using upd by (simp only: stateObject_SideChainDepositBalance_def)
  moreover have "c' \<noteq> c \<Longrightarrow> find (\<lambda>d. scd_ChainId d = c') ?new = find (\<lambda>d. scd_ChainId d = c') ?ds"
    by (simp add: find_append_split split: option.split)
  ultimately show ?thesis by (simp add: stateObject_SideChainDepositBalance_def)
qed

lemma sideSet_frame:
  "\<exists>ds. sideSet c b ob = ob\<lparr>so_data := (so_data ob)\<lparr>acc_SideChainDepositBalance := ds\<rparr>\<rparr>"
proof -
  have "\<exists>ds. fst (sideChainIndex c ob) = ob\<lparr>so_data := (so_data ob)\<lparr>acc_SideChainDepositBalance := ds\<rparr>\<rparr>"
  proof (cases "find_index (\<lambda>d. scd_ChainId d = c) (acc_SideChainDepositBalance (so_data ob))")
    case None
    show ?thesis unfolding sideChainIndex_def None updData_def
      by (rule exI [of _ "acc_SideChainDepositBalance (so_data ob) @ [\<lparr>scd_ChainId = c, scd_DepositBalance = 0\<rparr>]"])
        simp
  next
    case (Some i)
    show ?thesis unfolding sideChainIndex_def Some
      by (rule exI [of _ "acc_SideChainDepositBalance (so_data ob)"]) simp
  qed
  then obtain ds i where p: "sideChainIndex c ob =
      (ob\<lparr>so_data := (so_data ob)\<lparr>acc_SideChainDepositBalance := ds\<rparr>\<rparr>, i)"
    by (metis prod.collapse)
  show ?thesis unfolding sideSet_def p updData_def
    by (rule exI [of _ "ds[i := (ds ! i)\<lparr>scd_DepositBalance := b\<rparr>]"]) simp
qed

lemma obj_view_side:
  "obj_view codes (ob\<lparr>so_data := (so_data ob)\<lparr>acc_SideChainDepositBalance := ds\<rparr>\<rparr>) = (obj_view codes ob)
    \<lparr>v_side := (\<lambda>c. stateObject_SideChainDepositBalance c
      (ob\<lparr>so_data := (so_data ob)\<lparr>acc_SideChainDepositBalance := ds\<rparr>\<rparr>))\<rparr>"
  by (simp add: obj_view_def object_getters cong: option.case_cong)

lemma lifts_side: "lifts codes (sideSet c b) (\<lambda>v. v\<lparr>v_side := (v_side v)(c := b)\<rparr>)"
proof -
  have "obj_view codes (sideSet c b ob) = (obj_view codes ob)
      \<lparr>v_side := (v_side (obj_view codes ob))(c := b)\<rparr>
    \<and> so_address (sideSet c b ob) = so_address ob \<and> so_deleted (sideSet c b ob) = so_deleted ob
    \<and> obj_ok (sideSet c b ob) = obj_ok ob" for ob
  proof -
    obtain ds where ds: "sideSet c b ob = ob\<lparr>so_data := (so_data ob)\<lparr>acc_SideChainDepositBalance := ds\<rparr>\<rparr>"
      using sideSet_frame by blast
    have "(\<lambda>c'. stateObject_SideChainDepositBalance c' (sideSet c b ob))
        = (\<lambda>c'. stateObject_SideChainDepositBalance c' ob)(c := b)"
      by (auto simp: sideSet_lookup)
    then have "obj_view codes (sideSet c b ob) = (obj_view codes ob)
      \<lparr>v_side := (\<lambda>c'. stateObject_SideChainDepositBalance c' ob)(c := b)\<rparr>"
      using obj_view_side [where codes = codes and ob = ob and ds = ds] unfolding ds by simp
    moreover have "v_side (obj_view codes ob) = (\<lambda>c'. stateObject_SideChainDepositBalance c' ob)"
      by (simp add: obj_view_def)
    ultimately show ?thesis by (simp add: ds obj_ok_def)
  qed
  then show ?thesis by (simp add: lifts_def)
qed

definition marks :: "stateDB \<Rightarrow> revision list \<times> int" where
  "marks s = (sdb_validRevisions s, sdb_nextRevisionId s)"

lemma marks_simps [simp]:
  "marks (writeBack p) = marks (fst p)" "marks (journalAppend e s) = marks s"
  "marks (fst (fireDirty (s, ob))) = marks s"
  by (simp_all add: marks_def)

lemma withObject_lifts:
  assumes ok: "sdb_ok s" and l: "lifts (sdb_codes s) g h"
    and f: "\<And>ob. f (s, ob) = (s, g ob) \<or> f (s, ob) = fireDirty (s, g ob)"
    and w: "awith a h (world_of s) = Ret w"
  shows "\<exists>s'. withObject a f s = Ret s' \<and> world_of s' = w \<and> sdb_ok s'
    \<and> sdb_journal s' = sdb_journal s \<and> marks s' = marks s"
proof -
  obtain ob where ob: "StateDB_getStateObject s a = Some ob"
    using w by (cases "StateDB_getStateObject s a") (auto simp: awith_def world_of_def)
  have o: "so_address ob = a" "obj_ok ob" "\<not> so_deleted ob" using getStateObject_ok [OF ok ob] by auto
  have g: "so_address (g ob) = a" "\<not> so_deleted (g ob)" "obj_ok (g ob)"
    "obj_view (sdb_codes s) (g ob) = h (obj_view (sdb_codes s) ob)"
    using l o by (simp_all add: lifts_def)
  have wa: "w_acct (world_of s) a = Some (obj_view (sdb_codes s) ob)" using ob by (simp add: world_of_def)
  have "w = (world_of s)\<lparr>w_acct := (w_acct (world_of s))(a \<mapsto> h (obj_view (sdb_codes s) ob))\<rparr>"
    using w wa by (simp add: awith_def)
  then have "world_of (writeBack (s, g ob)) = w" using g by (simp add: world_writeBack)
  moreover have ok': "sdb_ok (writeBack (s, g ob))" using ok g by (intro sdb_ok_writeBack) auto
  ultimately have "world_of (writeBack (f (s, ob))) = w \<and> sdb_ok (writeBack (f (s, ob)))
      \<and> sdb_journal (writeBack (f (s, ob))) = sdb_journal s \<and> marks (writeBack (f (s, ob))) = marks s"
    using f [of ob] fireDirty_ok [OF ok'] by (elim disjE) (simp_all del: fireDirty.simps)
  then show ?thesis using ob by (simp add: withObject_def)
qed

lemma setSide_conv: "(case sideChainIndex c ob of (ob1, i) \<Rightarrow>
    stateObject_setSideChainDepositBalance i b (s, ob1)) = fireDirty (s, sideSet c b ob)"
  by (simp add: sideSet_def split: prod.split)

text \<open>Every step of the abstract undo is made by the code, which keeps the invariant.\<close>

lemma getStateObject_delete:
  "StateDB_getStateObject (s\<lparr>sdb_stateObjects := AList.delete a (sdb_stateObjects s),
      sdb_stateObjectsDirty := D\<rparr>) b
    = (if b = a then map_option (newObject a) (tr_accounts (sdb_trie s) a) else StateDB_getStateObject s b)"
  by (simp add: StateDB_getStateObject_def delete_conv' cong: option.case_cong)

lemma undo_create:
  assumes "sdb_ok s"
  shows "\<exists>s'. undo (createObjectChange a) s = Ret s'
    \<and> aundo (createObjectChange a) (world_of s) = Ret (world_of s') \<and> sdb_ok s'
    \<and> sdb_journal s' = sdb_journal s \<and> marks s' = marks s"
proof -
  let ?s = "s\<lparr>sdb_stateObjects := AList.delete a (sdb_stateObjects s),
            sdb_stateObjectsDirty := removeAll a (sdb_stateObjectsDirty s)\<rparr>"
  have "StateDB_GetLogs ?s = StateDB_GetLogs s" by (rule GetLogs_cong) simp
  moreover have "(\<lambda>b. map_option (obj_view (sdb_codes s)) (StateDB_getStateObject ?s b))
    = (\<lambda>b. map_option (obj_view (sdb_codes s)) (StateDB_getStateObject s b))
       (a := map_option (\<lambda>d. obj_view (sdb_codes s) (newObject a d)) (tr_accounts (sdb_trie s) a))"
    by (rule ext) (simp add: getStateObject_delete option.map_comp comp_def)
  ultimately have "aundo (createObjectChange a) (world_of s) = Ret (world_of ?s)"
    by (simp add: world_of_def)
  moreover have "sdb_ok ?s"
    using assms by (auto simp: sdb_ok_def delete_conv' distinct_delete)
  ultimately show ?thesis by (simp add: marks_def)
qed

lemma undo_reset:
  assumes "sdb_ok s" "entry_ok (resetObjectChange prev)"
  shows "\<exists>s'. undo (resetObjectChange prev) s = Ret s'
    \<and> aundo (resetObjectChange prev) (world_of s) = Ret (world_of s') \<and> sdb_ok s'
    \<and> sdb_journal s' = sdb_journal s \<and> marks s' = marks s"
proof -
  have "StateDB_setStateObject prev s = writeBack (s, prev)" by (simp add: writeBack_def)
  moreover have "sdb_ok (writeBack (s, prev))"
    using assms by (intro sdb_ok_writeBack) (auto simp: entry_ok_def)
  moreover have "w_codes (world_of s) = sdb_codes s" by (simp add: world_of_def)
  ultimately show ?thesis by (simp add: world_writeBack)
qed

lemma undo_suicide:
  assumes ok: "sdb_ok s" and w: "aundo (suicideChange a p b) (world_of s) = Ret w"
  shows "\<exists>s'. undo (suicideChange a p b) s = Ret s' \<and> world_of s' = w \<and> sdb_ok s'
    \<and> sdb_journal s' = sdb_journal s \<and> marks s' = marks s"
proof (cases "StateDB_getStateObject s a")
  case None
  then show ?thesis using w ok by (simp add: world_of_def)
next
  case (Some ob)
  let ?g = "\<lambda>ob. updData (acc_Balance_update (\<lambda>_. b)) (ob\<lparr>so_suicided := p\<rparr>)"
  let ?h = "\<lambda>v. (vdata (acc_Balance_update (\<lambda>_. b)) v)\<lparr>v_suicided := p\<rparr>"
  have "lifts (sdb_codes s) ?g ?h"
    by (simp add: lifts_def obj_ok_def obj_view_def vdata_def object_getters cong: option.case_cong)
  moreover have "awith a ?h (world_of s) = Ret w"
    using w Some by (simp add: world_of_def split: if_splits)
  ultimately have "\<exists>s'. withObject a (\<lambda>(s, ob). fireDirty (s, ?g ob)) s = Ret s' \<and> world_of s' = w \<and> sdb_ok s'
    \<and> sdb_journal s' = sdb_journal s \<and> marks s' = marks s"
    by (intro withObject_lifts [OF ok]) (auto simp del: fireDirty.simps)
  then show ?thesis using Some by (simp add: withObject_def del: fireDirty.simps)
qed

lemma undo_touch:
  assumes ok: "sdb_ok s" and w: "aundo (touchChange a p d) (world_of s) = Ret w"
  shows "\<exists>s'. undo (touchChange a p d) s = Ret s' \<and> world_of s' = w \<and> sdb_ok s'
    \<and> sdb_journal s' = sdb_journal s \<and> marks s' = marks s"
proof (cases "\<not> p \<and> a \<noteq> ripemd")
  case True
  then have "awith a id (world_of s) = Ret w" using w by simp
  then obtain s1 where s1: "withObject a (\<lambda>(s, ob). (s, ob\<lparr>so_touched := p\<rparr>)) s = Ret s1" "world_of s1 = w"
    "sdb_ok s1" "sdb_journal s1 = sdb_journal s" "marks s1 = marks s"
    using withObject_lifts [OF ok lifts_id [of _ p], of "\<lambda>(s, ob). (s, ob\<lparr>so_touched := p\<rparr>)" a w] by auto
  let ?s2 = "s1\<lparr>sdb_stateObjectsDirty := removeAll a (sdb_stateObjectsDirty s1)\<rparr>"
  have "world_of ?s2 = world_of s1" by (rule world_of_cong) simp_all
  moreover have "sdb_ok ?s2 = sdb_ok s1" by (rule sdb_ok_cong) simp_all
  ultimately show ?thesis using True s1 by (cases d) (simp_all add: marks_def)
qed (use ok w in auto)

text \<open>The object update and the view update of the entries that restore one part of an account.\<close>

fun entry_obj :: "journalEntry \<Rightarrow> (address \<times> (stateObject \<Rightarrow> stateObject)) option" where
  "entry_obj (balanceChange a p) = Some (a, updData (acc_Balance_update (\<lambda>_. p)))"
| "entry_obj (depositBalanceChange a p) = Some (a, updData (acc_DepositBalance_update (\<lambda>_. p)))"
| "entry_obj (chainBalanceChange a p) = Some (a, updData (acc_ChainBalance_update (\<lambda>_. p)))"
| "entry_obj (delegateBalanceChange a p) = Some (a, updData (acc_DelegateBalance_update (\<lambda>_. p)))"
| "entry_obj (proxiedBalanceChange a p) = Some (a, updData (acc_ProxiedBalance_update (\<lambda>_. p)))"
| "entry_obj (depositProxiedBalanceChange a p) = Some (a, updData (acc_DepositProxiedBalance_update (\<lambda>_. p)))"
| "entry_obj (pendingRefundBalanceChange a p) = Some (a, updData (acc_PendingRefundBalance_update (\<lambda>_. p)))"
| "entry_obj (rewardBalanceChange a p) = Some (a, updData (acc_RewardBalance_update (\<lambda>_. p)))"
| "entry_obj (availableRewardBalanceChange a p) = Some (a, updData (acc_AvailableRewardBalance_update (\<lambda>_. p)))"
| "entry_obj (nonceChange a p) = Some (a, updData (acc_Nonce_update (\<lambda>_. p)))"
| "entry_obj (candidateChange a p) = Some (a, updData (acc_Candidate_update (\<lambda>_. p)))"
| "entry_obj (pubkeyChange a p) = Some (a, updData (acc_Pubkey_update (\<lambda>_. p)))"
| "entry_obj (commissionChange a p) = Some (a, updData (acc_Commission_update (\<lambda>_. p)))"
| "entry_obj (bannedChange a p) = Some (a, updData (acc_IsBanned_update (\<lambda>_. p)))"
| "entry_obj (blockTimeChange a p) = Some (a, updData (acc_BlockTime_update (\<lambda>_. p)))"
| "entry_obj (bannedTimeChange a p) = Some (a, updData (acc_BannedTime_update (\<lambda>_. p)))"
| "entry_obj (sideChainDepositBalanceChange a c p) = Some (a, sideSet c p)"
| "entry_obj (codeChange a c h) = Some (a, \<lambda>ob. (updData (acc_CodeHash_update (\<lambda>_. BytesToHash h)) ob)
     \<lparr>so_code := c, so_dirtyCode := True\<rparr>)"
| "entry_obj (storageChange a k p) = Some (a, \<lambda>ob. ob\<lparr>so_dirtyStorage := AList.update k p (so_dirtyStorage ob)\<rparr>)"
| "entry_obj (addTX1Change a h) = Some (a, stateObject_removeTX1 h)"
| "entry_obj (addTX3Change a h) = Some (a, stateObject_removeTX3 h)"
| "entry_obj (accountProxiedBalanceChange a k p) =
     Some (a, \<lambda>ob. ob\<lparr>so_dirtyProxied := AList.update k p (so_dirtyProxied ob)\<rparr>)"
| "entry_obj (delegateRewardBalanceChange a k p) =
     Some (a, \<lambda>ob. ob\<lparr>so_dirtyReward := AList.update k p (so_dirtyReward ob)\<rparr>)"
| "entry_obj e = None"

fun entry_view :: "(hash \<rightharpoonup> bytes) \<Rightarrow> journalEntry \<Rightarrow> acctView \<Rightarrow> acctView" where
  "entry_view codes (balanceChange a p) = vdata (acc_Balance_update (\<lambda>_. p))"
| "entry_view codes (depositBalanceChange a p) = vdata (acc_DepositBalance_update (\<lambda>_. p))"
| "entry_view codes (chainBalanceChange a p) = vdata (acc_ChainBalance_update (\<lambda>_. p))"
| "entry_view codes (delegateBalanceChange a p) = vdata (acc_DelegateBalance_update (\<lambda>_. p))"
| "entry_view codes (proxiedBalanceChange a p) = vdata (acc_ProxiedBalance_update (\<lambda>_. p))"
| "entry_view codes (depositProxiedBalanceChange a p) = vdata (acc_DepositProxiedBalance_update (\<lambda>_. p))"
| "entry_view codes (pendingRefundBalanceChange a p) = vdata (acc_PendingRefundBalance_update (\<lambda>_. p))"
| "entry_view codes (rewardBalanceChange a p) = vdata (acc_RewardBalance_update (\<lambda>_. p))"
| "entry_view codes (availableRewardBalanceChange a p) = vdata (acc_AvailableRewardBalance_update (\<lambda>_. p))"
| "entry_view codes (nonceChange a p) = vdata (acc_Nonce_update (\<lambda>_. p))"
| "entry_view codes (candidateChange a p) = vdata (acc_Candidate_update (\<lambda>_. p))"
| "entry_view codes (pubkeyChange a p) = vdata (acc_Pubkey_update (\<lambda>_. p))"
| "entry_view codes (commissionChange a p) = vdata (acc_Commission_update (\<lambda>_. p))"
| "entry_view codes (bannedChange a p) = vdata (acc_IsBanned_update (\<lambda>_. p))"
| "entry_view codes (blockTimeChange a p) = vdata (acc_BlockTime_update (\<lambda>_. p))"
| "entry_view codes (bannedTimeChange a p) = vdata (acc_BannedTime_update (\<lambda>_. p))"
| "entry_view codes (sideChainDepositBalanceChange a c p) = (\<lambda>v. v\<lparr>v_side := (v_side v)(c := p)\<rparr>)"
| "entry_view codes (codeChange a c h) = (\<lambda>v. (vdata (acc_CodeHash_update (\<lambda>_. BytesToHash h)) v)
     \<lparr>v_code := codeOf codes (BytesToHash h) c\<rparr>)"
| "entry_view codes (storageChange a k p) = (\<lambda>v. v\<lparr>v_storage := (v_storage v)(k := p)\<rparr>)"
| "entry_view codes (addTX1Change a h) = (\<lambda>v. v\<lparr>v_tx1 := v_tx1 v - {h}\<rparr>)"
| "entry_view codes (addTX3Change a h) = (\<lambda>v. v\<lparr>v_tx3 := v_tx3 v - {h}\<rparr>)"
| "entry_view codes (accountProxiedBalanceChange a k p) = (\<lambda>v. v\<lparr>v_proxied := (v_proxied v)(k := p)\<rparr>)"
| "entry_view codes (delegateRewardBalanceChange a k p) = (\<lambda>v. v\<lparr>v_reward := (v_reward v)(k := p)\<rparr>)"
| "entry_view codes e = id"

lemma entry_lifts: "entry_obj e = Some (a, g) \<Longrightarrow> lifts codes g (entry_view codes e)"
  by (cases e) (auto simp: lifts_fields lifts_side lifts_code lifts_state lifts_proxied lifts_reward
      lifts_removeTX1 lifts_removeTX3)

lemma entry_undo:
  "entry_obj e = Some (a, g) \<Longrightarrow> \<exists>f. undo e s = withObject a f s
    \<and> (\<forall>ob. f (s, ob) = (s, g ob) \<or> f (s, ob) = fireDirty (s, g ob))"
  by (cases e) (auto simp: setSide_conv simp del: fireDirty.simps stateObject_setSideChainDepositBalance.simps)

lemma entry_aundo:
  "entry_obj e = Some (a, g) \<Longrightarrow> aundo e w = awith a (entry_view (w_codes w) e) w"
  by (cases e) auto

lemma undo_object:
  assumes "sdb_ok s" "entry_obj e = Some (a, g)" "aundo e (world_of s) = Ret w"
  shows "\<exists>s'. undo e s = Ret s' \<and> world_of s' = w \<and> sdb_ok s'
    \<and> sdb_journal s' = sdb_journal s \<and> marks s' = marks s"
proof -
  obtain f where f: "undo e s = withObject a f s"
    "\<And>ob. f (s, ob) = (s, g ob) \<or> f (s, ob) = fireDirty (s, g ob)"
    using entry_undo [OF assms(2)] by blast
  have "w_codes (world_of s) = sdb_codes s" by (simp add: world_of_def)
  then have "awith a (entry_view (sdb_codes s) e) (world_of s) = Ret w"
    using entry_aundo [OF assms(2)] assms(3) by simp
  from withObject_lifts [OF assms(1) entry_lifts [OF assms(2)] f(2) this] f(1) show ?thesis by simp
qed

lemma undo_log_entry:
  assumes "sdb_ok s" "aundo (addLogChange h) (world_of s) = Ret w"
  shows "\<exists>s'. undo (addLogChange h) s = Ret s' \<and> world_of s' = w \<and> sdb_ok s'
    \<and> sdb_journal s' = sdb_journal s \<and> marks s' = marks s"
proof -
  let ?l = "StateDB_GetLogs s h"
  have ne: "?l \<noteq> []" using assms(2) by (auto simp: world_of_def split: if_splits)
  have w: "w = (world_of s)\<lparr>w_logs := (StateDB_GetLogs s)(h := butlast ?l), w_logSize := sdb_logSize s - 1\<rparr>"
    using assms(2) ne by (simp add: world_of_def)
  have log: "world_of (s\<lparr>sdb_logs := ls, sdb_logSize := n\<rparr>)
      = (world_of s)\<lparr>w_logs := StateDB_GetLogs (s\<lparr>sdb_logs := ls\<rparr>), w_logSize := n\<rparr>" for ls n
    using getStateObject_cong [of "s\<lparr>sdb_logs := ls, sdb_logSize := n\<rparr>" s]
      GetLogs_cong [of "s\<lparr>sdb_logs := ls, sdb_logSize := n\<rparr>" "s\<lparr>sdb_logs := ls\<rparr>"]
    by (simp add: world_of_def)
  have ok: "sdb_ok (s\<lparr>sdb_logs := ls, sdb_logSize := n\<rparr>)" for ls n
    using assms(1) sdb_ok_cong [of "s\<lparr>sdb_logs := ls, sdb_logSize := n\<rparr>" s] by simp
  show ?thesis
  proof (cases "length ?l = 1")
    case True
    then have "butlast ?l = []" by (simp add: butlast_conv_take)
    then have "StateDB_GetLogs (s\<lparr>sdb_logs := AList.delete h (sdb_logs s)\<rparr>)
        = (StateDB_GetLogs s)(h := butlast ?l)"
      by (auto simp: StateDB_GetLogs_def delete_conv' fun_eq_iff)
    then show ?thesis using True w ok log by (simp add: marks_def)
  next
    case False
    have "StateDB_GetLogs (s\<lparr>sdb_logs := AList.update h (butlast ?l) (sdb_logs s)\<rparr>)
        = (StateDB_GetLogs s)(h := butlast ?l)"
      by (auto simp: StateDB_GetLogs_def update_conv' fun_eq_iff)
    then show ?thesis using False ne w ok log by (simp add: marks_def)
  qed
qed

lemma undo_misc:
  assumes "sdb_ok s"
  shows "world_of (s\<lparr>sdb_refund := r\<rparr>) = (world_of s)\<lparr>w_refund := r\<rparr> \<and> sdb_ok (s\<lparr>sdb_refund := r\<rparr>)"
    and "world_of (s\<lparr>sdb_preimages := p\<rparr>) = (world_of s)\<lparr>w_preimages := map_of p\<rparr>
      \<and> sdb_ok (s\<lparr>sdb_preimages := p\<rparr>)"
  using assms getStateObject_cong [of "s\<lparr>sdb_refund := r\<rparr>" s] GetLogs_cong [of "s\<lparr>sdb_refund := r\<rparr>" s]
    getStateObject_cong [of "s\<lparr>sdb_preimages := p\<rparr>" s] GetLogs_cong [of "s\<lparr>sdb_preimages := p\<rparr>" s]
    sdb_ok_cong [of "s\<lparr>sdb_refund := r\<rparr>" s] sdb_ok_cong [of "s\<lparr>sdb_preimages := p\<rparr>" s]
  by (simp_all add: world_of_def)

lemma undo_simulates:
  assumes "sdb_ok s" "e \<in> set (sdb_journal s)" "aundo e (world_of s) = Ret w"
  shows "\<exists>s'. undo e s = Ret s' \<and> world_of s' = w \<and> sdb_ok s'
    \<and> sdb_journal s' = sdb_journal s \<and> marks s' = marks s"
proof (cases "entry_obj e")
  case (Some p)
  then show ?thesis using undo_object [OF assms(1) _ assms(3)] by (cases p) auto
next
  case None
  have eok: "entry_ok e" using sdb_ok_D(3) [OF assms(1,2)] .
  from None show ?thesis
  proof (cases e)
    case (createObjectChange a)
    then show ?thesis using undo_create [OF assms(1)] assms(3) by auto
  next
    case (resetObjectChange ob)
    then show ?thesis using undo_reset [OF assms(1), of ob] eok assms(3) by auto
  next
    case (suicideChange a p b)
    then show ?thesis using undo_suicide [OF assms(1)] assms(3) by blast
  next
    case (touchChange a p d)
    then show ?thesis using undo_touch [OF assms(1)] assms(3) by blast
  next
    case (addLogChange h)
    then show ?thesis using undo_log_entry [OF assms(1)] assms(3) by blast
  next
    case (refundChange r)
    then show ?thesis using undo_misc(1) [OF assms(1)] assms(3) by (simp add: marks_def)
  next
    case (addPreimageChange h)
    have "map_of (AList.delete h (sdb_preimages s)) = (map_of (sdb_preimages s))(h := None)"
      by (simp add: delete_conv')
    with addPreimageChange show ?thesis
      using undo_misc(2) [OF assms(1)] assms(3) by (simp add: marks_def world_of_def)
  qed simp_all
qed

section \<open>The contract of a journalled store\<close>

locale undo_log =
  fixes log_of :: "'s \<Rightarrow> 'e list" and marks_of :: "'s \<Rightarrow> 'm" and view :: "'s \<Rightarrow> 'w"
    and undo_entry :: "'e \<Rightarrow> 's \<Rightarrow> 's go" and undo_view :: "'e \<Rightarrow> 'w \<Rightarrow> 'w go"
    and valid :: "'s \<Rightarrow> bool"
  assumes simulates: "valid s \<Longrightarrow> e \<in> set (log_of s) \<Longrightarrow> undo_view e (view s) = Ret w \<Longrightarrow>
    \<exists>s'. undo_entry e s = Ret s' \<and> view s' = w \<and> valid s' \<and> log_of s' = log_of s \<and> marks_of s' = marks_of s"
begin

text \<open>Undoing a list of entries.\<close>

lemma undo_all:
  assumes "valid s" "set es \<subseteq> set (log_of s)" "foldGo undo_view es (view s) = Ret w"
  shows "\<exists>s'. foldGo undo_entry es s = Ret s' \<and> view s' = w \<and> valid s'
    \<and> log_of s' = log_of s \<and> marks_of s' = marks_of s"
  using assms
proof (induction es arbitrary: s)
  case (Cons e es)
  obtain w1 where w1: "undo_view e (view s) = Ret w1" "foldGo undo_view es w1 = Ret w"
    using Cons.prems(3) by (auto simp: bindGo_Ret_iff)
  obtain s1 where s1: "undo_entry e s = Ret s1" "view s1 = w1" "valid s1" "log_of s1 = log_of s"
    "marks_of s1 = marks_of s"
    using simulates [OF Cons.prems(1) _ w1(1)] Cons.prems(2) by auto
  from Cons.IH [OF s1(3)] Cons.prems(2) w1 s1 show ?case by auto
qed simp

text \<open>
  A state that extends the log of an earlier state by entries whose abstract undo leads back to
  it. Undoing any tail of the log keeps the relation; undoing all of it gives the earlier view.
\<close>

definition extends :: "'s \<Rightarrow> 's \<Rightarrow> bool" where
  "extends s s' \<longleftrightarrow> valid s' \<and> (\<exists>es. log_of s' = log_of s @ es
    \<and> foldGo undo_view (rev es) (view s') = Ret (view s))"

lemma extends_refl: "valid s \<Longrightarrow> extends s s"
  by (simp add: extends_def)

lemma extends_trans:
  assumes "extends s s1" "extends s1 s2"
  shows "extends s s2"
proof -
  obtain es where es: "log_of s1 = log_of s @ es" "foldGo undo_view (rev es) (view s1) = Ret (view s)"
    using assms(1) by (auto simp: extends_def)
  obtain fs where fs: "log_of s2 = log_of s1 @ fs" "foldGo undo_view (rev fs) (view s2) = Ret (view s1)"
    and v: "valid s2"
    using assms(2) by (auto simp: extends_def)
  have "foldGo undo_view (rev (es @ fs)) (view s2) = Ret (view s)"
    using es fs by (simp add: foldGo_append)
  then show ?thesis using es fs v by (auto simp: extends_def)
qed

lemma revert:
  assumes "extends s s'" "length (log_of s) \<le> n" "n \<le> length (log_of s')"
  obtains s1 w where "foldGo undo_entry (rev (drop n (log_of s'))) s' = Ret s1" "view s1 = w"
    "valid s1" "log_of s1 = log_of s'" "marks_of s1 = marks_of s'"
    "foldGo undo_view (rev (take (n - length (log_of s)) (drop (length (log_of s)) (log_of s')))) w
      = Ret (view s)"
proof -
  obtain es where es: "log_of s' = log_of s @ es" "foldGo undo_view (rev es) (view s') = Ret (view s)"
    and v: "valid s'"
    using assms(1) by (auto simp: extends_def)
  let ?k = "n - length (log_of s)"
  have d: "drop n (log_of s') = drop ?k es" using es(1) assms(2) by simp
  have "rev es = rev (drop ?k es) @ rev (take ?k es)"
    by (metis append_take_drop_id rev_append)
  then obtain w where w: "foldGo undo_view (rev (drop ?k es)) (view s') = Ret w"
    "foldGo undo_view (rev (take ?k es)) w = Ret (view s)"
    using es(2) by (auto simp: foldGo_append bindGo_Ret_iff)
  have "set (rev (drop ?k es)) \<subseteq> set (log_of s')" using es(1) by (auto dest: in_set_dropD)
  from undo_all [OF v this w(1)] obtain s1 where
    "foldGo undo_entry (rev (drop ?k es)) s' = Ret s1" "view s1 = w" "valid s1"
    "log_of s1 = log_of s'" "marks_of s1 = marks_of s'"
    by blast
  with w(2) d es(1) show ?thesis by (intro that [of s1 w]) auto
qed

end

interpretation sdb: undo_log sdb_journal marks world_of undo aundo sdb_ok
  by unfold_locales (rule undo_simulates)

end
