(* ===== verification/State_Revert.thy ===== *)
theory State_Revert
  imports State_View
begin

text \<open>
  Every method of \<open>StateDB\<close> that changes accounts, logs, preimages or the refund counter
  journals what it needs to be undone. The consequence is the contract of \<open>Snapshot\<close> and
  \<open>RevertToSnapshot\<close> over arbitrary sequences of these methods.
\<close>

section \<open>Methods of an object\<close>

definition live :: "objst \<Rightarrow> bool" where
  "live p \<longleftrightarrow> sdb_ok (writeBack p) \<and> \<not> so_deleted (snd p)"

text \<open>A method that can be undone, when it is called on an object of the database.\<close>

definition undoable :: "objst \<Rightarrow> objst \<Rightarrow> bool" where
  "undoable p p' \<longleftrightarrow> (live p \<longrightarrow> live p' \<and> sdb.extends (writeBack p) (writeBack p')
    \<and> marks (fst p') = marks (fst p) \<and> so_address (snd p') = so_address (snd p))"

lemma undoable_refl: "undoable p p"
  by (auto simp: undoable_def live_def intro: sdb.extends_refl)

lemma undoable_trans: "undoable p q \<Longrightarrow> undoable q r \<Longrightarrow> undoable p r"
  by (auto simp: undoable_def intro: sdb.extends_trans)

lemma world_journal: "world_of (writeBack (journalAppend e s, ob)) = world_of (writeBack (s, ob))"
  by (rule world_of_cong) (simp_all add: stateObjects_writeBack)

lemma world_at: "\<not> so_deleted ob \<Longrightarrow>
    w_acct (world_of (writeBack (s, ob))) (so_address ob) = Some (obj_view (sdb_codes s) ob)"
  by (simp add: world_writeBack)

lemma world_replace:
  assumes "so_address ob' = so_address ob" "\<not> so_deleted ob'"
  shows "world_of (writeBack (s, ob')) = (world_of (writeBack (s, ob)))
    \<lparr>w_acct := (w_acct (world_of (writeBack (s, ob))))(so_address ob \<mapsto> obj_view (sdb_codes s) ob')\<rparr>"
  using assms by (simp add: world_writeBack)

lemma live_ob: "live (s, ob) \<Longrightarrow> obj_ok ob"
  using sdb_ok_D(1) [of "writeBack (s, ob)" "so_address ob" ob]
  by (simp add: live_def stateObjects_writeBack update_conv')

lemma journalled_extends:
  assumes p: "live (s, ob)" and e: "entry_ok e"
    and ob': "so_address ob' = so_address ob" "\<not> so_deleted ob'" "obj_ok ob'"
    and restores: "aundo e (world_of (writeBack (s, ob'))) = Ret (world_of (writeBack (s, ob)))"
  shows "undoable (s, ob) (journalAppend e s, ob')"
proof -
  have ok: "sdb_ok (writeBack (s, ob))" using p by (simp add: live_def)
  have "sdb_ok (writeBack (journalAppend e s, ob'))"
  proof (rule sdb_ok_replace [OF ok])
    show "entry_ok x" if "x \<in> set (sdb_journal (journalAppend e s))" for x
      using that e sdb_ok_D(3) [OF ok, of x] by auto
  qed (use ob' p in \<open>auto simp: live_def\<close>)
  then show ?thesis using restores ob' unfolding undoable_def sdb.extends_def
    by (simp add: live_def world_journal)
qed

lemma undoable_fireDirty:
  assumes "undoable p (s, ob)"
  shows "undoable p (fireDirty (s, ob))"
proof -
  have "live (s, ob) \<Longrightarrow> live (fireDirty (s, ob))"
    using fireDirty_ok [of s ob] by (simp add: live_def del: fireDirty.simps)
  moreover have "sdb.extends q (writeBack (s, ob)) \<Longrightarrow> sdb.extends q (writeBack (fireDirty (s, ob)))" for q
    using fireDirty_ok [of s ob] by (simp add: sdb.extends_def del: fireDirty.simps)
  ultimately show ?thesis using assms by (auto simp: undoable_def simp del: fireDirty.simps)
qed

text \<open>A setter that journals the old value of the part it changes.\<close>

lemma setter_undoable:
  assumes a: "map_option fst (entry_obj e) = Some (so_address ob)" and e: "entry_ok e"
    and g: "lifts (sdb_codes s) g h"
    and inv: "entry_view (sdb_codes s) e (h (obj_view (sdb_codes s) ob)) = obj_view (sdb_codes s) ob"
  shows "undoable (s, ob) (journalAppend e s, g ob)"
proof (cases "live (s, ob)")
  case True
  have o: "obj_ok ob" "\<not> so_deleted ob" using live_ob [OF True] True by (auto simp: live_def)
  have ob': "so_address (g ob) = so_address ob" "\<not> so_deleted (g ob)" "obj_ok (g ob)"
    "obj_view (sdb_codes s) (g ob) = h (obj_view (sdb_codes s) ob)"
    using g o by (simp_all add: lifts_def)
  let ?w' = "world_of (writeBack (s, g ob))"
  have "w_codes ?w' = sdb_codes s" by (simp add: world_of_def)
  then have "aundo e ?w' = awith (so_address ob) (entry_view (sdb_codes s) e) ?w'"
    using a entry_aundo [of e "so_address ob"] by auto
  also have "\<dots> = Ret (?w'\<lparr>w_acct := (w_acct ?w')(so_address ob \<mapsto> obj_view (sdb_codes s) ob)\<rparr>)"
    using world_at [OF ob'(2), of s] ob' inv by (simp add: awith_def)
  also have "\<dots> = Ret (world_of (writeBack (s, ob)))"
    using ob' o world_replace [of ob "g ob" s] by simp
  finally show ?thesis using journalled_extends [OF True e ob'(1,2,3)] by simp
qed (simp add: undoable_def)

lemma field_undoable:
  assumes "map_option fst (entry_obj e) = Some (so_address ob)" "entry_ok e" "lifts (sdb_codes s) (updData f) (vdata f)"
    "entry_view (sdb_codes s) e (vdata f (obj_view (sdb_codes s) ob)) = obj_view (sdb_codes s) ob"
  shows "undoable (s, ob) (fireDirty (journalAppend e s, updData f ob))"
  by (rule undoable_fireDirty, rule setter_undoable [OF assms])

lemma undoable_set:
  "undoable (s, ob) (stateObject_SetBalance x0 (s, ob))"
  "undoable (s, ob) (stateObject_SetDepositBalance x1 (s, ob))"
  "undoable (s, ob) (stateObject_SetChainBalance x2 (s, ob))"
  "undoable (s, ob) (stateObject_SetDelegateBalance x3 (s, ob))"
  "undoable (s, ob) (stateObject_SetProxiedBalance x4 (s, ob))"
  "undoable (s, ob) (stateObject_SetDepositProxiedBalance x5 (s, ob))"
  "undoable (s, ob) (stateObject_SetPendingRefundBalance x6 (s, ob))"
  "undoable (s, ob) (stateObject_SetRewardBalance x7 (s, ob))"
  "undoable (s, ob) (stateObject_SetAvailableRewardBalance x8 (s, ob))"
  "undoable (s, ob) (stateObject_SetNonce x9 (s, ob))"
  "undoable (s, ob) (stateObject_SetCandidate x10 (s, ob))"
  "undoable (s, ob) (stateObject_SetPubkey x11 (s, ob))"
  "undoable (s, ob) (stateObject_SetCommission x12 (s, ob))"
  "undoable (s, ob) (stateObject_SetBanned x13 (s, ob))"
  "undoable (s, ob) (stateObject_SetBlockTime x14 (s, ob))"
  "undoable (s, ob) (stateObject_SetBannedTime x15 (s, ob))"
  by (simp_all del: fireDirty.simps)
    (rule field_undoable; simp add: entry_ok_def lifts_fields; simp add: vdata_def obj_view_def)+

lemma touch_conv: "stateObject_touch (s, ob) = fireDirty
    (journalAppend (touchChange (so_address ob) (so_touched ob) (\<not> so_onDirty ob)) s, ob\<lparr>so_touched := True\<rparr>)"
  by simp

lemma undoable_touch: "undoable (s, ob) (stateObject_touch (s, ob))"
proof (cases "live (s, ob)")
  case True
  have o: "obj_ok ob" "\<not> so_deleted ob" using live_ob [OF True] True by (auto simp: live_def)
  let ?w = "world_of (writeBack (s, ob))"
  have "world_of (writeBack (s, ob\<lparr>so_touched := True\<rparr>)) = ?w" by (simp add: world_writeBack)
  moreover have "awith (so_address ob) id ?w = Ret ?w"
    using world_at [OF o(2), of s] by (simp add: awith_def map_upd_triv)
  ultimately show ?thesis unfolding touch_conv
    by (intro undoable_fireDirty journalled_extends [OF True])
      (use o in \<open>auto simp: entry_ok_def obj_ok_def\<close>)
qed (simp add: undoable_def)

lemmas object_set_simps =
  stateObject_SetBalance.simps
  stateObject_SetDepositBalance.simps
  stateObject_SetChainBalance.simps
  stateObject_SetDelegateBalance.simps
  stateObject_SetProxiedBalance.simps
  stateObject_SetDepositProxiedBalance.simps
  stateObject_SetPendingRefundBalance.simps
  stateObject_SetRewardBalance.simps
  stateObject_SetAvailableRewardBalance.simps
  stateObject_SetNonce.simps
  stateObject_SetCandidate.simps
  stateObject_SetPubkey.simps
  stateObject_SetCommission.simps
  stateObject_SetBanned.simps
  stateObject_SetBlockTime.simps
  stateObject_SetBannedTime.simps

declare object_set_simps [simp del] stateObject_touch.simps [simp del] fireDirty.simps [simp del]

lemma undoable_add:
  "undoable (s, ob) (stateObject_AddBalance x0 (s, ob))"
  "undoable (s, ob) (stateObject_SubBalance x1 (s, ob))"
  "undoable (s, ob) (stateObject_AddDepositBalance x2 (s, ob))"
  "undoable (s, ob) (stateObject_SubDepositBalance x3 (s, ob))"
  "undoable (s, ob) (stateObject_AddChainBalance x4 (s, ob))"
  "undoable (s, ob) (stateObject_SubChainBalance x5 (s, ob))"
  "undoable (s, ob) (stateObject_AddDelegateBalance x6 (s, ob))"
  "undoable (s, ob) (stateObject_SubDelegateBalance x7 (s, ob))"
  "undoable (s, ob) (stateObject_AddProxiedBalance x8 (s, ob))"
  "undoable (s, ob) (stateObject_SubProxiedBalance x9 (s, ob))"
  "undoable (s, ob) (stateObject_AddDepositProxiedBalance x10 (s, ob))"
  "undoable (s, ob) (stateObject_SubDepositProxiedBalance x11 (s, ob))"
  "undoable (s, ob) (stateObject_AddPendingRefundBalance x12 (s, ob))"
  "undoable (s, ob) (stateObject_SubPendingRefundBalance x13 (s, ob))"
  "undoable (s, ob) (stateObject_AddRewardBalance x14 (s, ob))"
  "undoable (s, ob) (stateObject_SubRewardBalance x15 (s, ob))"
  "undoable (s, ob) (stateObject_AddAvailableRewardBalance x16 (s, ob))"
  "undoable (s, ob) (stateObject_SubAvailableRewardBalance x17 (s, ob))"
  by (simp_all add: undoable_refl undoable_touch undoable_set)

lemma undoable_SetSide: "undoable (s, ob) (stateObject_SetSideChainDepositBalance c x (s, ob))"
proof -
  let ?prev = "stateObject_SideChainDepositBalance c ob"
  obtain ob1 i where p: "sideChainIndex c ob = (ob1, i)" by (cases "sideChainIndex c ob")
  have "scd_DepositBalance (acc_SideChainDepositBalance (so_data ob1) ! i) = ?prev"
  proof (cases "find_index (\<lambda>d. scd_ChainId d = c) (acc_SideChainDepositBalance (so_data ob))")
    case None
    then have "find (\<lambda>d. scd_ChainId d = c) (acc_SideChainDepositBalance (so_data ob)) = None"
      by (simp only: find_conv_index option.map)
    moreover have "ob1 = updData (acc_SideChainDepositBalance_update
        (\<lambda>ds. ds @ [\<lparr>scd_ChainId = c, scd_DepositBalance = 0\<rparr>])) ob"
      "i = length (acc_SideChainDepositBalance (so_data ob))"
      using p unfolding sideChainIndex_def None by simp_all
    ultimately show ?thesis by (simp add: stateObject_SideChainDepositBalance_def)
  next
    case (Some k)
    then show ?thesis using p
      by (simp add: sideChainIndex_def stateObject_SideChainDepositBalance_def find_conv_index)
  qed
  then have "stateObject_SetSideChainDepositBalance c x (s, ob) = fireDirty
      (journalAppend (sideChainDepositBalanceChange (so_address ob) c ?prev) s, sideSet c x ob)"
    by (simp add: p sideSet_def)
  moreover have "undoable (s, ob)
      (journalAppend (sideChainDepositBalanceChange (so_address ob) c ?prev) s, sideSet c x ob)"
    by (rule setter_undoable [OF _ _ lifts_side]) (simp_all add: entry_ok_def obj_view_def fun_upd_idem)
  ultimately show ?thesis by (simp add: undoable_fireDirty)
qed

declare stateObject_SetSideChainDepositBalance.simps [simp del]

lemma undoable_side:
  "undoable (s, ob) (stateObject_AddSideChainDepositBalance c x (s, ob))"
  "undoable (s, ob) (stateObject_SubSideChainDepositBalance c x (s, ob))"
  by (simp_all add: undoable_refl undoable_touch undoable_SetSide)

lemma undoable_SetState: "undoable (s, ob) (stateObject_SetState k x (s, ob))"
  by (simp, rule undoable_fireDirty, rule setter_undoable [OF _ _ lifts_state])
    (simp_all add: entry_ok_def obj_view_def fun_upd_idem)

lemma undoable_SetAccountProxied:
  "undoable (s, ob) (stateObject_SetAccountProxiedBalance k x (s, ob))"
  by (simp, rule undoable_fireDirty, rule setter_undoable [OF _ _ lifts_proxied])
    (simp_all add: entry_ok_def obj_view_def fun_upd_idem)

lemma undoable_SetDelegateReward:
  "undoable (s, ob) (stateObject_SetDelegateRewardBalance k x (s, ob))"
  by (simp, rule undoable_fireDirty, rule setter_undoable [OF _ _ lifts_reward])
    (simp_all add: entry_ok_def obj_view_def fun_upd_idem)

text \<open>Adding a transaction marker is undone by removing it, so it must be new.\<close>

lemma lifts_addTX:
  "lifts codes (stateObject_addTX1 h) (\<lambda>v. v\<lparr>v_tx1 := insert h (v_tx1 v)\<rparr>)"
  "lifts codes (stateObject_addTX3 h) (\<lambda>v. v\<lparr>v_tx3 := insert h (v_tx3 v)\<rparr>)"
  by (simp_all add: lifts_def obj_ok_def obj_view_def object_getters stateObject_addTX1_def
      stateObject_addTX3_def cong: option.case_cong)

lemma undoable_AddTX:
  "h \<notin> set (so_dirtyTX1 ob) \<Longrightarrow> undoable (s, ob) (stateObject_AddTX1 h (s, ob))"
  "h \<notin> set (so_dirtyTX3 ob) \<Longrightarrow> undoable (s, ob) (stateObject_AddTX3 h (s, ob))"
  by (simp, rule setter_undoable [OF _ _ lifts_addTX(1)], simp_all add: entry_ok_def obj_view_def)
    (rule setter_undoable [OF _ _ lifts_addTX(2)], simp_all add: entry_ok_def obj_view_def)

lemma undoable_SetCode:
  assumes "length h = 32"
  shows "undoable (s, ob) (stateObject_SetCode h c (s, ob))"
proof (cases "live (s, ob)")
  case True
  have l: "length (acc_CodeHash (so_data ob)) = 32" using live_ob [OF True] by (simp add: obj_ok_def)
  let ?g = "\<lambda>ob. (updData (acc_CodeHash_update (\<lambda>_. h)) ob)\<lparr>so_code := c, so_dirtyCode := True\<rparr>"
  let ?e = "codeChange (so_address ob) (stateObject_Code (sdb_codes s) ob) (acc_CodeHash (so_data ob))"
  have code: "codeOf (sdb_codes s) (acc_CodeHash (so_data ob)) (stateObject_Code (sdb_codes s) ob)
      = stateObject_Code (sdb_codes s) ob"
    by (auto simp: codeOf_def stateObject_Code_def split: option.splits)
  have "undoable (s, ob) (journalAppend ?e s, ?g ob)"
    by (rule setter_undoable [OF _ _ lifts_code [OF assms]])
      (use l code in \<open>simp_all add: entry_ok_def obj_view_def vdata_def\<close>)
  then show ?thesis by (simp add: undoable_fireDirty)
qed (simp add: undoable_def)

section \<open>Finding or creating an object\<close>

lemma extends_created:
  assumes ok: "sdb_ok s" and ob: "so_address ob = a" "obj_ok ob" "\<not> so_deleted ob"
    and e: "e = (case StateDB_getStateObject s a of
        None \<Rightarrow> createObjectChange a | Some prev \<Rightarrow> resetObjectChange prev)"
    and s1: "world_of s1 = world_of s" "sdb_trie s1 = sdb_trie s" "sdb_codes s1 = sdb_codes s"
      "sdb_stateObjects s1 = sdb_stateObjects s" "sdb_journal s1 = sdb_journal s @ [e]"
  shows "sdb.extends s (writeBack (s1, ob))"
proof -
  have e_ok: "entry_ok e"
    using getStateObject_ok [OF ok, of a] by (auto simp: e entry_ok_def split: option.splits)
  then have "sdb_ok s1" using s1 sdb_ok_D [OF ok] by (intro sdb_ok_I) auto
  then have ok': "sdb_ok (writeBack (s1, ob))" using ob by (intro sdb_ok_writeBack) auto
  have w: "world_of (writeBack (s1, ob)) = (world_of s)\<lparr>w_acct := (w_acct (world_of s))
      (a \<mapsto> obj_view (sdb_codes s) ob)\<rparr>"
    using ob s1 by (simp add: world_writeBack)
  have "aundo e (world_of (writeBack (s1, ob))) = Ret (world_of s)"
  proof (cases "StateDB_getStateObject s a")
    case None
    then have "w_acct (world_of s) a = None" "w_base (world_of s) a = None"
      using getStateObject_None [OF ok None] by (simp_all add: world_of_def)
    then show ?thesis using None e w by (simp add: fun_upd_idem)
  next
    case (Some prev)
    have "w_acct (world_of s) a = Some (obj_view (sdb_codes s) prev)" "w_codes (world_of s) = sdb_codes s"
      using Some by (simp_all add: world_of_def)
    then show ?thesis using Some e w getStateObject_ok [OF ok Some] by (simp add: fun_upd_idem)
  qed
  then show ?thesis using ok' s1 by (simp add: sdb.extends_def)
qed

lemma createObject_unfold:
  obtains s1 newobj where "StateDB_createObject a s
      = ((StateDB_setStateObject newobj s1, newobj), StateDB_getStateObject s a)"
    "so_address newobj = a" "newobj = (newObject a zeroAccount)\<lparr>so_onDirty := False\<rparr>" "\<not> so_deleted newobj"
    "obj_view codes newobj = obj_view codes (newObject a zeroAccount)"
    "world_of s1 = world_of s" "sdb_trie s1 = sdb_trie s" "sdb_codes s1 = sdb_codes s"
    "sdb_stateObjects s1 = sdb_stateObjects s" "marks s1 = marks s"
    "sdb_journal s1 = sdb_journal s @ [case StateDB_getStateObject s a of
        None \<Rightarrow> createObjectChange a | Some prev \<Rightarrow> resetObjectChange prev]"
proof -
  let ?n = "(newObject a zeroAccount)\<lparr>so_onDirty := False\<rparr>"
  let ?s1 = "StateDB_MarkStateObjectDirty a s"
  let ?e = "case StateDB_getStateObject s a of
        None \<Rightarrow> createObjectChange a | Some prev \<Rightarrow> resetObjectChange prev"
  have "updData (acc_Nonce_update (\<lambda>_. 0)) (newObject a zeroAccount) = newObject a zeroAccount"
    by (simp add: updData_def newObject_def zeroAccount_def)
  then have "stateObject_setNonce 0 (s, newObject a zeroAccount) = (?s1, ?n)"
    by (simp add: fireDirty.simps)
  then have c: "StateDB_createObject a s
      = ((StateDB_setStateObject ?n (journalAppend ?e ?s1), ?n), StateDB_getStateObject s a)"
    by (simp add: StateDB_createObject_def split: option.split)
  have "world_of (journalAppend ?e ?s1) = world_of s" by (rule world_of_cong) simp_all
  then show ?thesis by (intro that [OF c]) (simp_all add: marks_def)
qed

lemma writeBack_twice: "world_of (writeBack (StateDB_setStateObject ob s, ob)) = world_of (writeBack (s, ob))"
  by (rule world_of_cong) (simp_all add: StateDB_setStateObject_def stateObjects_writeBack)

lemma getOrNew_extends:
  assumes "sdb_ok s"
  shows "live (StateDB_GetOrNewStateObject a s)
    \<and> sdb.extends s (writeBack (StateDB_GetOrNewStateObject a s))
    \<and> marks (fst (StateDB_GetOrNewStateObject a s)) = marks s
    \<and> so_address (snd (StateDB_GetOrNewStateObject a s)) = a"
proof (cases "StateDB_getStateObject s a")
  case (Some ob)
  have o: "so_address ob = a" "obj_ok ob" "\<not> so_deleted ob" using getStateObject_ok [OF assms Some] by auto
  have ok: "sdb_ok (writeBack (s, ob))" using assms o by (intro sdb_ok_writeBack) auto
  have "w_acct (world_of s) a = Some (obj_view (sdb_codes s) ob)" using Some by (simp add: world_of_def)
  then have "world_of (writeBack (s, ob)) = world_of s" using o by (simp add: world_writeBack fun_upd_idem)
  then show ?thesis using Some o ok
    by (simp add: StateDB_GetOrNewStateObject_def live_def sdb.extends_def)
next
  case None
  obtain s1 newobj where c: "StateDB_createObject a s
      = ((StateDB_setStateObject newobj s1, newobj), StateDB_getStateObject s a)"
    "so_address newobj = a" "newobj = (newObject a zeroAccount)\<lparr>so_onDirty := False\<rparr>" "\<not> so_deleted newobj"
    and s1: "world_of s1 = world_of s" "sdb_trie s1 = sdb_trie s" "sdb_codes s1 = sdb_codes s"
    "sdb_stateObjects s1 = sdb_stateObjects s" "marks s1 = marks s"
    "sdb_journal s1 = sdb_journal s @ [case StateDB_getStateObject s a of
        None \<Rightarrow> createObjectChange a | Some prev \<Rightarrow> resetObjectChange prev]"
    by (rule createObject_unfold [where codes = "sdb_codes s"])
  have ok: "obj_ok newobj" using c(3) newObject_ok [OF zeroAccount_ok, of a] by (simp add: obj_ok_def)
  let ?s2 = "StateDB_setStateObject newobj s1"
  have "sdb.extends s (writeBack (s1, newobj))"
    by (rule extends_created [OF assms c(2) ok c(4) _ s1(1-4)]) (use None s1 in simp_all)
  moreover have "sdb_ok (writeBack (?s2, newobj)) = sdb_ok (writeBack (s1, newobj))"
    by (rule sdb_ok_cong) (simp_all add: StateDB_setStateObject_def stateObjects_writeBack)
  moreover have "sdb_journal ?s2 = sdb_journal s1" "marks ?s2 = marks s1"
    by (simp_all add: StateDB_setStateObject_def marks_def)
  ultimately show ?thesis using None c s1
    by (simp add: StateDB_GetOrNewStateObject_def live_def sdb.extends_def writeBack_twice)
qed

section \<open>Methods of the database\<close>

definition undoes :: "stateDB \<Rightarrow> stateDB \<Rightarrow> bool" where
  "undoes s s' \<longleftrightarrow> (sdb_ok s \<longrightarrow> sdb.extends s s' \<and> marks s' = marks s)"

lemma op_undoes:
  assumes "\<And>s1 ob. undoable (s1, ob) (f (s1, ob))"
  shows "undoes s (writeBack (f (StateDB_GetOrNewStateObject a s)))"
proof -
  let ?p = "StateDB_GetOrNewStateObject a s"
  have "undoable ?p (f ?p)" using assms [of "fst ?p" "snd ?p"] by simp
  then show ?thesis using getOrNew_extends [of s a] sdb.extends_trans
    by (auto simp: undoes_def undoable_def)
qed

lemma op_undoes_found:
  assumes "StateDB_getStateObject s a = Some ob" "undoable (s, ob) p"
  shows "undoes s (writeBack p)"
proof -
  have "StateDB_GetOrNewStateObject a s = (s, ob)" if "sdb_ok s"
    using assms(1) getStateObject_ok [OF that assms(1)] by (simp add: StateDB_GetOrNewStateObject_def)
  then show ?thesis using assms(2) getOrNew_extends [of s a] sdb.extends_trans
    by (auto simp: undoes_def undoable_def)
qed

lemma undoable_comp:
  assumes "\<And>s1 ob. undoable (s1, ob) (f (s1, ob))" "\<And>s1 ob. undoable (s1, ob) (g (s1, ob))"
  shows "undoable (s1, ob) (g (f (s1, ob)))"
  using undoable_trans [OF assms(1)] assms(2) by (metis prod.collapse)

lemma same_undoes:
  assumes "sdb_codes s' = sdb_codes s" "tr_accounts (sdb_trie s') = tr_accounts (sdb_trie s)"
    "sdb_stateObjects s' = sdb_stateObjects s" "sdb_refund s' = sdb_refund s"
    "sdb_logs s' = sdb_logs s" "sdb_logSize s' = sdb_logSize s" "sdb_preimages s' = sdb_preimages s"
    "sdb_journal s' = sdb_journal s" "marks s' = marks s"
  shows "undoes s s'"
proof -
  have "StateDB_getStateObject s' = StateDB_getStateObject s"
    using assms(2,3) by (simp add: StateDB_getStateObject_def fun_eq_iff cong: option.case_cong)
  moreover have "StateDB_GetLogs s' = StateDB_GetLogs s" using assms(5) by (rule GetLogs_cong)
  ultimately have "world_of s' = world_of s" using assms by (simp add: world_of_def)
  moreover have "sdb_ok s \<Longrightarrow> sdb_ok s'" using assms by (simp add: sdb_ok_def)
  ultimately show ?thesis using assms by (auto simp: undoes_def sdb.extends_def)
qed

lemma Suicide_undoes: "undoes s (fst (StateDB_Suicide a s))"
proof (cases "StateDB_getStateObject s a")
  case None
  then show ?thesis by (simp add: StateDB_Suicide_def same_undoes)
next
  case (Some ob)
  let ?e = "suicideChange a (so_suicided ob) (acc_Balance (so_data ob))"
  let ?g = "\<lambda>ob. updData (acc_Balance_update (\<lambda>_. 0)) (ob\<lparr>so_suicided := True\<rparr>)"
  have c: "fst (StateDB_Suicide a s) = writeBack (fireDirty (journalAppend ?e s, ?g ob))"
    using Some by (cases ob) (simp add: StateDB_Suicide_def fireDirty.simps updData_def)
  have "undoable (s, ob) (journalAppend ?e s, ?g ob)" if ok: "sdb_ok s"
  proof (cases "live (s, ob)")
    case True
    have o: "so_address ob = a" "obj_ok ob" "\<not> so_deleted ob" using getStateObject_ok [OF ok Some] by auto
    let ?w' = "world_of (writeBack (s, ?g ob))"
    have v: "obj_view (sdb_codes s) (?g ob) = (obj_view (sdb_codes s) ob)
        \<lparr>v_data := (v_data (obj_view (sdb_codes s) ob))\<lparr>acc_Balance := 0\<rparr>, v_suicided := True\<rparr>"
      by (simp add: obj_view_def object_getters cong: option.case_cong)
    have at: "w_acct ?w' a = Some (obj_view (sdb_codes s) (?g ob))" using o world_at [of "?g ob" s] by simp
    have "vdata (acc_Balance_update (\<lambda>_. acc_Balance (so_data ob))) (obj_view (sdb_codes s) (?g ob))
        \<lparr>v_suicided := so_suicided ob\<rparr> = obj_view (sdb_codes s) ob"
      unfolding v by (simp add: vdata_def obj_view_def)
    then have "aundo ?e ?w' = Ret (?w'\<lparr>w_acct := (w_acct ?w')(a \<mapsto> obj_view (sdb_codes s) ob)\<rparr>)"
      using at by (simp add: awith_def)
    also have "\<dots> = Ret (world_of (writeBack (s, ob)))"
      using o world_replace [of ob "?g ob" s] by simp
    finally show ?thesis
      by (intro journalled_extends [OF True]) (use o in \<open>auto simp: entry_ok_def obj_ok_def\<close>)
  qed (simp add: undoable_def)
  then show ?thesis
    using op_undoes_found [OF Some undoable_fireDirty] unfolding c by (auto simp: undoes_def)
qed

lemma CreateAccount_undoes: "undoes s (StateDB_CreateAccount a s)"
proof -
  have "sdb.extends s (StateDB_CreateAccount a s) \<and> marks (StateDB_CreateAccount a s) = marks s"
    if ok: "sdb_ok s"
  proof -
  obtain s1 newobj where c: "StateDB_createObject a s
      = ((StateDB_setStateObject newobj s1, newobj), StateDB_getStateObject s a)"
    "so_address newobj = a" "newobj = (newObject a zeroAccount)\<lparr>so_onDirty := False\<rparr>" "\<not> so_deleted newobj"
    and s1: "world_of s1 = world_of s" "sdb_trie s1 = sdb_trie s" "sdb_codes s1 = sdb_codes s"
    "sdb_stateObjects s1 = sdb_stateObjects s" "marks s1 = marks s"
    "sdb_journal s1 = sdb_journal s @ [case StateDB_getStateObject s a of
        None \<Rightarrow> createObjectChange a | Some prev \<Rightarrow> resetObjectChange prev]"
    by (rule createObject_unfold [where codes = "sdb_codes s"])
  have nok: "obj_ok newobj" using c(3) newObject_ok [OF zeroAccount_ok, of a] by (simp add: obj_ok_def)
  let ?g = "\<lambda>ob. case StateDB_getStateObject s a of None \<Rightarrow> ob
    | Some prev \<Rightarrow> updData (acc_Balance_update (\<lambda>_. acc_Balance (so_data prev))) ob"
  have g: "so_address (?g newobj) = a" "\<not> so_deleted (?g newobj)" "obj_ok (?g newobj)"
    using c nok by (auto simp: obj_ok_def split: option.split)
  have e: "sdb.extends s (writeBack (s1, ?g newobj))"
    by (rule extends_created [OF ok g(1,3,2) refl s1(1-4,6)])
  let ?s2 = "StateDB_setStateObject newobj s1"
  have "sdb_stateObjects (writeBack (?s2, ?g newobj)) = sdb_stateObjects (writeBack (s1, ?g newobj))"
    using g(1) c(2) by (simp add: StateDB_setStateObject_def stateObjects_writeBack)
  moreover have "sdb_journal ?s2 = sdb_journal s1" "sdb_trie ?s2 = sdb_trie s1" "sdb_codes ?s2 = sdb_codes s1"
    "sdb_refund ?s2 = sdb_refund s1" "sdb_logs ?s2 = sdb_logs s1" "sdb_logSize ?s2 = sdb_logSize s1"
    "sdb_preimages ?s2 = sdb_preimages s1" "marks ?s2 = marks s1"
    by (simp_all add: StateDB_setStateObject_def marks_def)
  ultimately have f: "sdb.extends s (writeBack (?s2, ?g newobj))" "marks ?s2 = marks s"
    using e s1 sdb_ok_cong [of "writeBack (?s2, ?g newobj)" "writeBack (s1, ?g newobj)"]
      world_of_cong [of "writeBack (?s2, ?g newobj)" "writeBack (s1, ?g newobj)"]
    by (simp_all add: sdb.extends_def)
  show ?thesis
  proof (cases "StateDB_getStateObject s a")
    case None
    then show ?thesis using f c by (simp add: StateDB_CreateAccount_def)
  next
    case (Some prev)
    have "sdb.extends s (writeBack (fireDirty (?s2, ?g newobj)))"
      using f fireDirty_ok [of ?s2 "?g newobj"] by (simp add: sdb.extends_def)
    then show ?thesis using f c Some by (simp add: StateDB_CreateAccount_def)
  qed
  qed
  then show ?thesis by (simp add: undoes_def)
qed

lemma extends_one:
  assumes "sdb_ok s" "entry_ok e" "sdb_journal s' = sdb_journal s @ [e]"
    "sdb_trie s' = sdb_trie s" "sdb_stateObjects s' = sdb_stateObjects s"
    "aundo e (world_of s') = Ret (world_of s)"
  shows "sdb.extends s s'"
proof -
  have "sdb_ok s'" using assms sdb_ok_D [OF assms(1)] by (intro sdb_ok_I) auto
  then show ?thesis using assms by (simp add: sdb.extends_def)
qed

lemma AddLog_undoes: "undoes s (StateDB_AddLog lg s)"
proof -
  let ?s = "StateDB_AddLog lg s"
  let ?h = "sdb_thash s"
  have "sdb.extends s ?s" if "sdb_ok s"
  proof (rule extends_one [OF that, of "addLogChange ?h"])
    have l: "StateDB_GetLogs ?s = (StateDB_GetLogs s)(?h := StateDB_GetLogs s ?h @
       [lg\<lparr>log_TxHash := ?h, log_BlockHash := sdb_bhash s, log_TxIndex := word_of_int (sdb_txIndex s),
           log_Index := sdb_logSize s\<rparr>])"
      by (auto simp: StateDB_GetLogs_def StateDB_AddLog_def Let_def update_conv' fun_eq_iff)
    have "StateDB_getStateObject ?s = StateDB_getStateObject s"
      by (rule getStateObject_cong) (simp_all add: StateDB_AddLog_def Let_def)
    then have w: "world_of ?s = (world_of s)\<lparr>w_logs := StateDB_GetLogs ?s, w_logSize := sdb_logSize s + 1\<rparr>"
      by (simp add: world_of_def StateDB_AddLog_def Let_def)
    show "aundo (addLogChange ?h) (world_of ?s) = Ret (world_of s)"
      unfolding w l by (simp add: world_of_def fun_upd_idem)
  qed (simp_all add: StateDB_AddLog_def Let_def entry_ok_def)
  then show ?thesis by (simp add: undoes_def marks_def StateDB_AddLog_def Let_def)
qed

lemma AddPreimage_undoes: "undoes s (StateDB_AddPreimage h x s)"
proof (cases "map_of (sdb_preimages s) h")
  case None
  let ?s = "StateDB_AddPreimage h x s"
  have s: "?s = (journalAppend (addPreimageChange h) s)
      \<lparr>sdb_preimages := AList.update h x (sdb_preimages s)\<rparr>"
    using None by (simp add: StateDB_AddPreimage_def)
  have "sdb.extends s ?s" if "sdb_ok s"
  proof (rule extends_one [OF that, of "addPreimageChange h"])
    have "StateDB_getStateObject ?s = StateDB_getStateObject s" "StateDB_GetLogs ?s = StateDB_GetLogs s"
      by (rule getStateObject_cong GetLogs_cong; simp add: s)+
    then have w: "world_of ?s = (world_of s)\<lparr>w_preimages := (map_of (sdb_preimages s))(h \<mapsto> x)\<rparr>"
      by (simp add: world_of_def s update_conv')
    show "aundo (addPreimageChange h) (world_of ?s) = Ret (world_of s)"
      unfolding w using None by (simp add: world_of_def fun_upd_idem)
  qed (simp_all add: s entry_ok_def)
  then show ?thesis by (simp add: undoes_def marks_def s)
next
  case (Some y)
  then show ?thesis by (simp add: StateDB_AddPreimage_def same_undoes)
qed

lemma refund_undoes: "undoes s ((journalAppend (refundChange (sdb_refund s)) s)\<lparr>sdb_refund := x\<rparr>)"
proof -
  let ?s = "(journalAppend (refundChange (sdb_refund s)) s)\<lparr>sdb_refund := x\<rparr>"
  have "sdb.extends s ?s" if "sdb_ok s"
  proof (rule extends_one [OF that, of "refundChange (sdb_refund s)"])
    have "StateDB_getStateObject ?s = StateDB_getStateObject s" "StateDB_GetLogs ?s = StateDB_GetLogs s"
      by (rule getStateObject_cong GetLogs_cong; simp)+
    then have w: "world_of ?s = (world_of s)\<lparr>w_refund := x\<rparr>" by (simp add: world_of_def)
    show "aundo (refundChange (sdb_refund s)) (world_of ?s) = Ret (world_of s)"
      unfolding w by (simp add: world_of_def)
  qed (simp_all add: entry_ok_def)
  then show ?thesis by (simp add: undoes_def marks_def)
qed

end
