(* ===== verification/State_Theorems.thy ===== *)
theory State_Theorems
  imports State_Revert
begin

text \<open>
  Runs of the methods of \<open>StateDB\<close> and the properties of the component: \<open>RevertToSnapshot\<close>
  restores the state of the snapshot, nested snapshots included.
\<close>

section \<open>Runs\<close>

text \<open>
  One call of a method. \<open>k\<close> is the least revision that is reverted. A transaction marker is added
  only when the account has none of that hash yet, as the callers check with \<open>HasTX1\<close> and
  \<open>HasTX3\<close>. The methods on the address sets change nothing that \<open>world_of\<close> shows.
\<close>

inductive sdb_step :: "(bytes \<Rightarrow> bytes) \<Rightarrow> int \<Rightarrow> stateDB \<Rightarrow> stateDB \<Rightarrow> bool" for keccak k where
  CreateAccount: "sdb_step keccak k s (StateDB_CreateAccount a s)"
| Suicide: "sdb_step keccak k s (fst (StateDB_Suicide a s))"
| AddBalance: "sdb_step keccak k s (StateDB_AddBalance a x s)"
| SubBalance: "sdb_step keccak k s (StateDB_SubBalance a x s)"
| SetBalance: "sdb_step keccak k s (StateDB_SetBalance a x s)"
| AddDepositBalance: "sdb_step keccak k s (StateDB_AddDepositBalance a x s)"
| SubDepositBalance: "sdb_step keccak k s (StateDB_SubDepositBalance a x s)"
| SetDepositBalance: "sdb_step keccak k s (StateDB_SetDepositBalance a x s)"
| AddChainBalance: "sdb_step keccak k s (StateDB_AddChainBalance a x s)"
| SubChainBalance: "sdb_step keccak k s (StateDB_SubChainBalance a x s)"
| SetChainBalance: "sdb_step keccak k s (StateDB_SetChainBalance a x s)"
| AddSideChainDepositBalance: "sdb_step keccak k s (StateDB_AddSideChainDepositBalance a c x s)"
| SubSideChainDepositBalance: "sdb_step keccak k s (StateDB_SubSideChainDepositBalance a c x s)"
| SetSideChainDepositBalance: "sdb_step keccak k s (StateDB_SetSideChainDepositBalance a c x s)"
| AddDelegateBalance: "sdb_step keccak k s (StateDB_AddDelegateBalance a x s)"
| SubDelegateBalance: "sdb_step keccak k s (StateDB_SubDelegateBalance a x s)"
| AddRewardBalance: "sdb_step keccak k s (StateDB_AddRewardBalance a x s)"
| SubRewardBalance: "sdb_step keccak k s (StateDB_SubRewardBalance a x s)"
| AddAvailableRewardBalance: "sdb_step keccak k s (StateDB_AddAvailableRewardBalance a x s)"
| SubAvailableRewardBalance: "sdb_step keccak k s (StateDB_SubAvailableRewardBalance a x s)"
| SetNonce: "sdb_step keccak k s (StateDB_SetNonce a n s)"
| SetCode: "sdb_step keccak k s (StateDB_SetCode keccak a code s)"
| SetState: "sdb_step keccak k s (StateDB_SetState a key v s)"
| AddTX1: "\<not> getField (\<lambda>ob. h \<in> set (so_dirtyTX1 ob)) False s a \<Longrightarrow> sdb_step keccak k s (StateDB_AddTX1 a h s)"
| AddTX3: "\<not> getField (\<lambda>ob. h \<in> set (so_dirtyTX3 ob)) False s a \<Longrightarrow> sdb_step keccak k s (StateDB_AddTX3 a h s)"
| AddProxiedBalanceByUser: "sdb_step keccak k s (StateDB_AddProxiedBalanceByUser a user x s)"
| SubProxiedBalanceByUser: "sdb_step keccak k s (StateDB_SubProxiedBalanceByUser a user x s)"
| AddDepositProxiedBalanceByUser: "sdb_step keccak k s (StateDB_AddDepositProxiedBalanceByUser a user x s)"
| SubDepositProxiedBalanceByUser: "sdb_step keccak k s (StateDB_SubDepositProxiedBalanceByUser a user x s)"
| AddPendingRefundBalanceByUser: "sdb_step keccak k s (StateDB_AddPendingRefundBalanceByUser a user x s)"
| SubPendingRefundBalanceByUser: "sdb_step keccak k s (StateDB_SubPendingRefundBalanceByUser a user x s)"
| AddRewardBalanceByDelegateAddress: "sdb_step keccak k s (StateDB_AddRewardBalanceByDelegateAddress a user x s)"
| SubRewardBalanceByDelegateAddress: "StateDB_SubRewardBalanceByDelegateAddress a user x s = Ret s'
     \<Longrightarrow> sdb_step keccak k s s'"
| SetCommission: "sdb_step keccak k s (StateDB_SetCommission a m s)"
| ClearCommission: "sdb_step keccak k s (StateDB_ClearCommission a s)"
| ApplyForCandidate: "sdb_step keccak k s (StateDB_ApplyForCandidate a pk m s)"
| CancelCandidate: "sdb_step keccak k s (StateDB_CancelCandidate a allRefund s)"
| SetBanned: "sdb_step keccak k s (StateDB_SetBanned a b s)"
| SetBannedTime: "sdb_step keccak k s (StateDB_SetBannedTime a x s)"
| SetMinedBlocks: "sdb_step keccak k s (StateDB_SetMinedBlocks a x s)"
| GetBanned: "sdb_step keccak k s (fst (StateDB_GetBanned a s))"
| GetBannedTime: "sdb_step keccak k s (fst (StateDB_GetBannedTime a s))"
| GetMinedBlocks: "sdb_step keccak k s (fst (StateDB_GetMinedBlocks a s))"
| AddLog: "sdb_step keccak k s (StateDB_AddLog lg s)"
| AddPreimage: "sdb_step keccak k s (StateDB_AddPreimage h pre s)"
| AddRefund: "sdb_step keccak k s (StateDB_AddRefund g s)"
| SubRefund: "StateDB_SubRefund g s = Ret s' \<Longrightarrow> sdb_step keccak k s s'"
| Prepare: "sdb_step keccak k s (StateDB_Prepare th bh ti s)"
| GetDelegateAddressRefundSet: "sdb_step keccak k s (fst (StateDB_GetDelegateAddressRefundSet s))"
| GetRewardSet: "sdb_step keccak k s (fst (StateDB_GetRewardSet s))"
| GetCandidateSet: "sdb_step keccak k s (fst (StateDB_GetCandidateSet s))"
| GetBannedSet: "sdb_step keccak k s (fst (StateDB_GetBannedSet s))"
| MarkDelegateAddressRefund: "sdb_step keccak k s (StateDB_MarkDelegateAddressRefund a s)"
| MarkAddressReward: "sdb_step keccak k s (StateDB_MarkAddressReward a s)"
| MarkAddressCandidate: "sdb_step keccak k s (StateDB_MarkAddressCandidate a s)"
| MarkAddressBanned: "sdb_step keccak k s (StateDB_MarkAddressBanned a s)"
| ClearRewardSetByAddress: "sdb_step keccak k s (StateDB_ClearRewardSetByAddress a s)"
| ClearCandidateSetByAddress: "sdb_step keccak k s (StateDB_ClearCandidateSetByAddress a s)"
| ClearBannedSetByAddress: "sdb_step keccak k s (StateDB_ClearBannedSetByAddress a s)"
| ClearDelegateRefundSet: "sdb_step keccak k s (StateDB_ClearDelegateRefundSet s)"
| SetSideChainRewardPerBlock: "sdb_step keccak k s (StateDB_SetSideChainRewardPerBlock x s)"
| GetSideChainRewardPerBlock: "sdb_step keccak k s (fst (StateDB_GetSideChainRewardPerBlock s))"
| Snapshot: "sdb_step keccak k s (fst (StateDB_Snapshot s))"
| Revert: "k \<le> revid \<Longrightarrow> StateDB_RevertToSnapshot revid s = Ret s' \<Longrightarrow> sdb_step keccak k s s'"

inductive_cases sdb_step_cases [consumes 1]: "sdb_step keccak k s s'"

text \<open>Every method but \<open>Snapshot\<close> and \<open>RevertToSnapshot\<close> can be undone.\<close>

lemmas object_undoable = undoable_refl undoable_set undoable_add undoable_side undoable_SetSide
  undoable_SetState undoable_SetAccountProxied undoable_SetDelegateReward undoable_touch

lemma field_undoes:
  "undoes s (StateDB_AddBalance a x0 s)"
  "undoes s (StateDB_SubBalance a x1 s)"
  "undoes s (StateDB_SetBalance a x2 s)"
  "undoes s (StateDB_AddDepositBalance a x3 s)"
  "undoes s (StateDB_SubDepositBalance a x4 s)"
  "undoes s (StateDB_SetDepositBalance a x5 s)"
  "undoes s (StateDB_AddChainBalance a x6 s)"
  "undoes s (StateDB_SubChainBalance a x7 s)"
  "undoes s (StateDB_SetChainBalance a x8 s)"
  "undoes s (StateDB_AddSideChainDepositBalance a c9 x9 s)"
  "undoes s (StateDB_SubSideChainDepositBalance a c10 x10 s)"
  "undoes s (StateDB_SetSideChainDepositBalance a c11 x11 s)"
  "undoes s (StateDB_AddDelegateBalance a x12 s)"
  "undoes s (StateDB_SubDelegateBalance a x13 s)"
  "undoes s (StateDB_AddRewardBalance a x14 s)"
  "undoes s (StateDB_SubRewardBalance a x15 s)"
  "undoes s (StateDB_SetNonce a n s)"
  "undoes s (StateDB_SetState a key v s)"
  "undoes s (StateDB_SetCommission a m s)"
  "undoes s (StateDB_ClearCommission a s)"
  "undoes s (StateDB_SetBanned a b s)"
  "undoes s (StateDB_SetBannedTime a y s)"
  "undoes s (StateDB_SetMinedBlocks a z s)"
  unfolding StateDB_AddBalance_def
    StateDB_SubBalance_def
    StateDB_SetBalance_def
    StateDB_AddDepositBalance_def
    StateDB_SubDepositBalance_def
    StateDB_SetDepositBalance_def
    StateDB_AddChainBalance_def
    StateDB_SubChainBalance_def
    StateDB_SetChainBalance_def
    StateDB_AddSideChainDepositBalance_def
    StateDB_SubSideChainDepositBalance_def
    StateDB_SetSideChainDepositBalance_def
    StateDB_AddDelegateBalance_def
    StateDB_SubDelegateBalance_def
    StateDB_AddRewardBalance_def
    StateDB_SubRewardBalance_def
    StateDB_SetNonce_def
    StateDB_SetState_def
    StateDB_SetCommission_def
    StateDB_ClearCommission_def
    StateDB_SetBanned_def
    StateDB_SetBannedTime_def
    StateDB_SetMinedBlocks_def
  by (rule op_undoes, rule object_undoable)+

lemma byUser_undoes:
  assumes "\<And>s1 ob. undoable (s1, ob) (f (s1, ob))"
  shows "undoes s (writeBack (f (stateObject_SetAccountProxiedBalance user (v ob)
     (StateDB_GetOrNewStateObject a s))))"
  by (rule op_undoes [where f = "\<lambda>p. f (stateObject_SetAccountProxiedBalance user (v ob) p)"])
    (rule undoable_comp [OF undoable_SetAccountProxied assms])

lemma proxied_undoes:
  "undoes s (StateDB_AddProxiedBalanceByUser a user x0 s)"
  "undoes s (StateDB_SubProxiedBalanceByUser a user x1 s)"
  "undoes s (StateDB_AddDepositProxiedBalanceByUser a user x2 s)"
  "undoes s (StateDB_SubDepositProxiedBalanceByUser a user x3 s)"
  "undoes s (StateDB_AddPendingRefundBalanceByUser a user x4 s)"
  "undoes s (StateDB_SubPendingRefundBalanceByUser a user x5 s)"
proof -
  obtain s1 ob where p: "StateDB_GetOrNewStateObject a s = (s1, ob)"
    by (cases "StateDB_GetOrNewStateObject a s")
  note u = byUser_undoes [where s = s and a = a and ob = ob, unfolded p]
  show "undoes s (StateDB_AddProxiedBalanceByUser a user x0 s)"
    "undoes s (StateDB_SubProxiedBalanceByUser a user x1 s)"
    "undoes s (StateDB_AddDepositProxiedBalanceByUser a user x2 s)"
    "undoes s (StateDB_SubDepositProxiedBalanceByUser a user x3 s)"
    "undoes s (StateDB_AddPendingRefundBalanceByUser a user x4 s)"
    "undoes s (StateDB_SubPendingRefundBalanceByUser a user x5 s)"
    unfolding StateDB_AddProxiedBalanceByUser_def
      StateDB_SubProxiedBalanceByUser_def
      StateDB_AddDepositProxiedBalanceByUser_def
      StateDB_SubDepositProxiedBalanceByUser_def
      StateDB_AddPendingRefundBalanceByUser_def
      StateDB_SubPendingRefundBalanceByUser_def
    by (simp_all only: p prod.case Let_def) (rule u, rule undoable_add)+
qed

lemma AddRewardByDelegate_undoes: "undoes s (StateDB_AddRewardBalanceByDelegateAddress a d x s)"
proof -
  obtain s1 ob where p: "StateDB_GetOrNewStateObject a s = (s1, ob)"
    by (cases "StateDB_GetOrNewStateObject a s")
  let ?v = "Some (case stateObject_GetDelegateRewardBalance d ob of None \<Rightarrow> x | Some b \<Rightarrow> b + x)"
  have "undoes s (writeBack (stateObject_AddRewardBalance x
      (stateObject_SetDelegateRewardBalance d ?v (StateDB_GetOrNewStateObject a s))))"
    by (rule op_undoes [where f = "\<lambda>p. stateObject_AddRewardBalance x
        (stateObject_SetDelegateRewardBalance d ?v p)"])
      (rule undoable_comp [OF undoable_SetDelegateReward], rule undoable_add)
  then show ?thesis by (simp only: StateDB_AddRewardBalanceByDelegateAddress_def p prod.case Let_def)
qed

lemma SubRewardByDelegate_undoes:
  assumes "StateDB_SubRewardBalanceByDelegateAddress a d x s = Ret s'"
  shows "undoes s s'"
proof -
  obtain s1 ob where p: "StateDB_GetOrNewStateObject a s = (s1, ob)"
    by (cases "StateDB_GetOrNewStateObject a s")
  obtain b where b: "stateObject_GetDelegateRewardBalance d ob = Some b"
    "s' = writeBack (stateObject_SubRewardBalance x
        (stateObject_SetDelegateRewardBalance d (Some (b - x)) (s1, ob)))"
    using assms unfolding StateDB_SubRewardBalanceByDelegateAddress_def p prod.case Let_def
    by (cases "stateObject_GetDelegateRewardBalance d ob") auto
  have "undoes s (writeBack (stateObject_SubRewardBalance x
      (stateObject_SetDelegateRewardBalance d (Some (b - x)) (StateDB_GetOrNewStateObject a s))))"
    by (rule op_undoes [where f = "\<lambda>p. stateObject_SubRewardBalance x
        (stateObject_SetDelegateRewardBalance d (Some (b - x)) p)"])
      (rule undoable_comp [OF undoable_SetDelegateReward], rule undoable_add)
  then show ?thesis unfolding b(2) p .
qed

lemma AvailableReward_undoes:
  "undoes s (StateDB_AddAvailableRewardBalance a x s)" "undoes s (StateDB_SubAvailableRewardBalance a y s)"
  by (cases "StateDB_getStateObject s a"; simp add: StateDB_AddAvailableRewardBalance_def
      StateDB_SubAvailableRewardBalance_def same_undoes op_undoes_found undoable_add
      del: stateObject_AddAvailableRewardBalance.simps stateObject_SubAvailableRewardBalance.simps)+

lemma SetCode_undoes: "undoes s (StateDB_SetCode keccak a code s)"
  unfolding StateDB_SetCode_def by (rule op_undoes, rule undoable_SetCode) simp

lemma candidate_undoes:
  "undoes s (StateDB_ApplyForCandidate a pk m s)" "undoes s (StateDB_CancelCandidate a r s)"
proof -
  have a: "undoable (s1, ob) (stateObject_SetCommission m (stateObject_SetCandidate True (s1, ob)))" for s1 ob
    by (rule undoable_comp [where f = "stateObject_SetCandidate True" and g = "stateObject_SetCommission m",
          OF undoable_set(11) undoable_set(13)])
  show "undoes s (StateDB_ApplyForCandidate a pk m s)"
    unfolding StateDB_ApplyForCandidate_def
    by (rule op_undoes [where f = "\<lambda>p. stateObject_SetPubkey pk
        (stateObject_SetCommission m (stateObject_SetCandidate True p))"])
      (rule undoable_comp [where f = "\<lambda>p. stateObject_SetCommission m (stateObject_SetCandidate True p)"
          and g = "stateObject_SetPubkey pk", OF a undoable_set(12)])
  have b: "undoable (s1, ob) (stateObject_SetPubkey [] (stateObject_SetCandidate False (s1, ob)))" for s1 ob
    by (rule undoable_comp [where f = "stateObject_SetCandidate False" and g = "stateObject_SetPubkey []",
          OF undoable_set(11) undoable_set(12)])
  have c: "undoable (s1, ob) (stateObject_SetCommission 0
      (stateObject_SetPubkey [] (stateObject_SetCandidate False (s1, ob))))" for s1 ob
    by (rule undoable_comp [where f = "\<lambda>p. stateObject_SetPubkey [] (stateObject_SetCandidate False p)"
          and g = "stateObject_SetCommission 0", OF b undoable_set(13)])
  show "undoes s (StateDB_CancelCandidate a r s)"
    unfolding StateDB_CancelCandidate_def Let_def
    using op_undoes [where f = "\<lambda>p. stateObject_SetPubkey [] (stateObject_SetCandidate False p)", OF b]
      op_undoes [where f = "\<lambda>p. stateObject_SetCommission 0
        (stateObject_SetPubkey [] (stateObject_SetCandidate False p))", OF c]
    by simp
qed

lemma getter_undoes:
  "undoes s (fst (StateDB_GetBanned a s))" "undoes s (fst (StateDB_GetBannedTime a s))"
  "undoes s (fst (StateDB_GetMinedBlocks a s))"
  using op_undoes [where f = id and s = s and a = a] undoable_refl
  by (simp_all add: StateDB_GetBanned_def StateDB_GetBannedTime_def StateDB_GetMinedBlocks_def Let_def)

text \<open>The marker is new, so removing it restores the account.\<close>

lemma getOrNew_field:
  assumes "sdb_ok s"
  shows "\<exists>s1 ob. StateDB_GetOrNewStateObject a s = (s1, ob)
    \<and> (StateDB_getStateObject s a = Some ob \<or> StateDB_getStateObject s a = None
        \<and> so_dirtyTX1 ob = [] \<and> so_dirtyTX3 ob = [] \<and> so_dirtyProxied ob = [] \<and> so_dirtyReward ob = []
        \<and> so_data ob = so_data (newObject a zeroAccount))"
proof (cases "StateDB_getStateObject s a")
  case None
  then show ?thesis
    by (auto simp: StateDB_GetOrNewStateObject_def StateDB_createObject_def fireDirty.simps
        newObject_def updData_def zeroAccount_def)
next
  case (Some ob)
  then show ?thesis using getStateObject_ok [OF assms Some]
    by (simp add: StateDB_GetOrNewStateObject_def)
qed

lemma AddTX_undoes:
  "\<not> getField (\<lambda>ob. h \<in> set (so_dirtyTX1 ob)) False s a \<Longrightarrow> undoes s (StateDB_AddTX1 a h s)"
  "\<not> getField (\<lambda>ob. h \<in> set (so_dirtyTX3 ob)) False s a \<Longrightarrow> undoes s (StateDB_AddTX3 a h s)"
proof -
  have step: "undoes s (writeBack (f (StateDB_GetOrNewStateObject a s)))"
    if u: "\<And>s1 ob. h \<notin> set (d ob) \<Longrightarrow> undoable (s1, ob) (f (s1, ob))"
      and n: "\<not> getField (\<lambda>ob. h \<in> set (d ob)) False s a"
      and e: "\<And>ob. so_dirtyTX1 ob = [] \<Longrightarrow> so_dirtyTX3 ob = [] \<Longrightarrow> d ob = []" for d f
  proof -
    have "undoable (StateDB_GetOrNewStateObject a s) (f (StateDB_GetOrNewStateObject a s))" if ok: "sdb_ok s"
    proof -
      obtain s1 ob where p: "StateDB_GetOrNewStateObject a s = (s1, ob)"
        "StateDB_getStateObject s a = Some ob \<or> StateDB_getStateObject s a = None
          \<and> so_dirtyTX1 ob = [] \<and> so_dirtyTX3 ob = []"
        using getOrNew_field [OF ok, of a] by blast
      then have "h \<notin> set (d ob)" using n e [of ob] by (auto simp: getField_def)
      with u p(1) show ?thesis by simp
    qed
    then show ?thesis using getOrNew_extends [of s a] sdb.extends_trans
      by (auto simp: undoes_def undoable_def)
  qed
  show "\<not> getField (\<lambda>ob. h \<in> set (so_dirtyTX1 ob)) False s a \<Longrightarrow> undoes s (StateDB_AddTX1 a h s)"
    unfolding StateDB_AddTX1_def by (rule step [where d = so_dirtyTX1]) (rule undoable_AddTX)
  show "\<not> getField (\<lambda>ob. h \<in> set (so_dirtyTX3 ob)) False s a \<Longrightarrow> undoes s (StateDB_AddTX3 a h s)"
    unfolding StateDB_AddTX3_def by (rule step [where d = so_dirtyTX3]) (rule undoable_AddTX)
qed

lemma getSet_frame:
  "\<exists>v. fst (StateDB_GetDelegateAddressRefundSet s) = s\<lparr>sdb_delegateRefundSet := v\<rparr>"
  "\<exists>v. fst (StateDB_GetRewardSet s) = s\<lparr>sdb_rewardSet := v\<rparr>"
  "\<exists>v. fst (StateDB_GetCandidateSet s) = s\<lparr>sdb_candidateSet := v\<rparr>"
  "\<exists>v. fst (StateDB_GetBannedSet s) = s\<lparr>sdb_bannedSet := v\<rparr>"
proof -
  show "\<exists>v. fst (StateDB_GetDelegateAddressRefundSet s) = s\<lparr>sdb_delegateRefundSet := v\<rparr>"
    by (cases "tr_refundSet (sdb_trie s)")
      (auto simp: StateDB_GetDelegateAddressRefundSet_def Let_def intro: exI [of _ "sdb_delegateRefundSet s"])
  show "\<exists>v. fst (StateDB_GetRewardSet s) = s\<lparr>sdb_rewardSet := v\<rparr>"
    by (cases "tr_rewardSet (sdb_trie s)")
      (auto simp: StateDB_GetRewardSet_def Let_def intro: exI [of _ "sdb_rewardSet s"])
  show "\<exists>v. fst (StateDB_GetCandidateSet s) = s\<lparr>sdb_candidateSet := v\<rparr>"
    by (cases "tr_candidateSet (sdb_trie s)")
      (auto simp: StateDB_GetCandidateSet_def Let_def intro: exI [of _ "sdb_candidateSet s"])
  show "\<exists>v. fst (StateDB_GetBannedSet s) = s\<lparr>sdb_bannedSet := v\<rparr>"
    by (cases "tr_bannedSet (sdb_trie s)")
      (auto simp: StateDB_GetBannedSet_def Let_def intro: exI [of _ "sdb_bannedSet s"])
qed

lemma sets_undo:
  "undoes s (fst (StateDB_GetDelegateAddressRefundSet s))" "undoes s (fst (StateDB_GetRewardSet s))"
  "undoes s (fst (StateDB_GetCandidateSet s))" "undoes s (fst (StateDB_GetBannedSet s))"
  "undoes s (StateDB_MarkDelegateAddressRefund a s)" "undoes s (StateDB_MarkAddressReward a s)"
  "undoes s (StateDB_MarkAddressCandidate a s)" "undoes s (StateDB_MarkAddressBanned a s)"
proof -
  obtain v1 v2 v3 v4 where
    "fst (StateDB_GetDelegateAddressRefundSet s) = s\<lparr>sdb_delegateRefundSet := v1\<rparr>"
    "fst (StateDB_GetRewardSet s) = s\<lparr>sdb_rewardSet := v2\<rparr>"
    "fst (StateDB_GetCandidateSet s) = s\<lparr>sdb_candidateSet := v3\<rparr>"
    "fst (StateDB_GetBannedSet s) = s\<lparr>sdb_bannedSet := v4\<rparr>"
    using getSet_frame [of s] by blast
  then show "undoes s (fst (StateDB_GetDelegateAddressRefundSet s))" "undoes s (fst (StateDB_GetRewardSet s))"
    "undoes s (fst (StateDB_GetCandidateSet s))" "undoes s (fst (StateDB_GetBannedSet s))"
    "undoes s (StateDB_MarkDelegateAddressRefund a s)" "undoes s (StateDB_MarkAddressReward a s)"
    "undoes s (StateDB_MarkAddressCandidate a s)" "undoes s (StateDB_MarkAddressBanned a s)"
    by (rule_tac [!] same_undoes)
      (simp_all add: StateDB_MarkDelegateAddressRefund_def StateDB_MarkAddressReward_def
        StateDB_MarkAddressCandidate_def StateDB_MarkAddressBanned_def marks_def split_beta Let_def)
qed

lemma plain_undo:
  "undoes s (StateDB_Prepare th bh ti s)" "undoes s (StateDB_ClearRewardSetByAddress a s)"
  "undoes s (StateDB_ClearCandidateSetByAddress a s)" "undoes s (StateDB_ClearBannedSetByAddress a s)"
  "undoes s (StateDB_ClearDelegateRefundSet s)" "undoes s (StateDB_SetSideChainRewardPerBlock x s)"
  "undoes s (fst (StateDB_GetSideChainRewardPerBlock s))"
  by (rule same_undoes; simp add: StateDB_Prepare_def StateDB_ClearRewardSetByAddress_def
      StateDB_ClearCandidateSetByAddress_def StateDB_ClearBannedSetByAddress_def
      StateDB_ClearDelegateRefundSet_def StateDB_SetSideChainRewardPerBlock_def
      StateDB_GetSideChainRewardPerBlock_def marks_def split: option.split)+

lemma step_undoes:
  assumes "sdb_step keccak k s s'"
  shows "undoes s s' \<or> s' = fst (StateDB_Snapshot s)
    \<or> (\<exists>revid \<ge> k. StateDB_RevertToSnapshot revid s = Ret s')"
  using assms
proof cases
  case (SubRefund g)
  then have "s' = (journalAppend (refundChange (sdb_refund s)) s)\<lparr>sdb_refund := sdb_refund s - g\<rparr>"
    by (simp add: StateDB_SubRefund_def split: if_splits)
  then show ?thesis using refund_undoes by simp
next
  case (AddRefund g)
  then show ?thesis using refund_undoes by (simp add: StateDB_AddRefund_def)
qed (use SubRewardByDelegate_undoes in \<open>auto intro: field_undoes proxied_undoes AddRewardByDelegate_undoes
    AvailableReward_undoes SetCode_undoes candidate_undoes getter_undoes AddTX_undoes sets_undo plain_undo
    AddLog_undoes AddPreimage_undoes Suicide_undoes CreateAccount_undoes\<close>)

section \<open>Snapshots\<close>

text \<open>Revisions are numbered upwards and point into the journal in order.\<close>

definition revs_ok :: "stateDB \<Rightarrow> bool" where
  "revs_ok s \<longleftrightarrow> sorted_wrt (<) (map rev_id (sdb_validRevisions s))
    \<and> sorted (map rev_journalIndex (sdb_validRevisions s))
    \<and> (\<forall>r \<in> set (sdb_validRevisions s). rev_id r < sdb_nextRevisionId s
          \<and> rev_journalIndex r \<le> length (sdb_journal s))"

definition sdb_inv :: "stateDB \<Rightarrow> bool" where
  "sdb_inv s \<longleftrightarrow> sdb_ok s \<and> revs_ok s"

text \<open>What a run after \<open>s0\<close> keeps: the journal and the revisions of \<open>s0\<close> are still there, and
  undoing what was added leads back to \<open>s0\<close>.\<close>

definition since :: "stateDB \<Rightarrow> stateDB \<Rightarrow> bool" where
  "since s0 s \<longleftrightarrow> sdb.extends s0 s \<and> revs_ok s \<and> sdb_nextRevisionId s0 \<le> sdb_nextRevisionId s
    \<and> (\<exists>rs. sdb_validRevisions s = sdb_validRevisions s0 @ rs
         \<and> (\<forall>r \<in> set rs. sdb_nextRevisionId s0 \<le> rev_id r
              \<and> length (sdb_journal s0) \<le> rev_journalIndex r))"

lemma since_refl: "sdb_inv s \<Longrightarrow> since s s"
  by (simp add: since_def sdb_inv_def sdb.extends_refl)

lemma extends_length: "sdb.extends s s' \<Longrightarrow> length (sdb_journal s) \<le> length (sdb_journal s')"
  by (auto simp: sdb.extends_def)

lemma since_undoes:
  assumes "since s0 s" "undoes s s'"
  shows "since s0 s'"
proof -
  have ok: "sdb_ok s" using assms(1) by (simp add: since_def sdb.extends_def)
  then have e: "sdb.extends s s'" "marks s' = marks s" using assms(2) by (simp_all add: undoes_def)
  then have "revs_ok s'" using assms(1) extends_length [OF e(1)]
    by (auto simp: since_def revs_ok_def marks_def)
  then show ?thesis using assms(1) e sdb.extends_trans by (auto simp: since_def marks_def)
qed

lemma since_Snapshot:
  assumes "since s0 s"
  shows "since s0 (fst (StateDB_Snapshot s))"
proof -
  let ?s = "fst (StateDB_Snapshot s)"
  have w: "world_of ?s = world_of s" by (rule world_of_cong) (simp_all add: StateDB_Snapshot_def Let_def)
  have ok: "sdb_ok ?s = sdb_ok s" by (rule sdb_ok_cong) (simp_all add: StateDB_Snapshot_def Let_def)
  have "sdb_journal ?s = sdb_journal s" by (simp add: StateDB_Snapshot_def Let_def)
  then have e: "sdb.extends s0 ?s" using assms w ok by (simp add: since_def sdb.extends_def)
  have r: "revs_ok ?s" using assms
    by (auto simp: since_def revs_ok_def StateDB_Snapshot_def Let_def sorted_wrt_append sorted_append)
  obtain rs where rs: "sdb_validRevisions s = sdb_validRevisions s0 @ rs"
    "\<forall>r \<in> set rs. sdb_nextRevisionId s0 \<le> rev_id r \<and> length (sdb_journal s0) \<le> rev_journalIndex r"
    and n: "sdb_nextRevisionId s0 \<le> sdb_nextRevisionId s"
    using assms by (auto simp: since_def)
  let ?r = "\<lparr>rev_id = sdb_nextRevisionId s, rev_journalIndex = length (sdb_journal s)\<rparr>"
  have "sdb_validRevisions ?s = sdb_validRevisions s0 @ (rs @ [?r])"
    using rs by (simp add: StateDB_Snapshot_def Let_def)
  moreover have "length (sdb_journal s0) \<le> length (sdb_journal s)"
    using assms by (simp add: since_def extends_length)
  ultimately show ?thesis using e r n rs unfolding since_def
    by (intro conjI exI [of _ "rs @ [?r]"]) (auto simp: StateDB_Snapshot_def Let_def)
qed

text \<open>The search finds the wanted revision.\<close>

lemma find_revision:
  assumes "revs_ok s" "sdb_validRevisions s = rs @ r # rs'"
  shows "find_index (\<lambda>x. rev_id x \<ge> rev_id r) (sdb_validRevisions s) = Some (length rs)"
proof -
  have "\<forall>x \<in> set rs. rev_id x < rev_id r"
    using assms by (auto simp: revs_ok_def sorted_wrt_append)
  then have "find_index (\<lambda>x. rev_id x \<ge> rev_id r) (rs @ [r]) = Some (length rs)"
    by (intro find_index_snoc) auto
  moreover have "find_index P xs = Some i \<Longrightarrow> find_index P (xs @ ys) = Some i" for P xs ys and i
    by (induction xs arbitrary: i) (auto split: if_splits)
  ultimately show ?thesis using assms(2) by (metis append.assoc append_Cons append_Nil)
qed

lemma Revert_since:
  assumes s: "since s0 s" and rv: "sdb_validRevisions s = sdb_validRevisions s0 @ rs @ r # rs'"
    and n: "length (sdb_journal s0) \<le> rev_journalIndex r"
  shows "\<exists>s'. StateDB_RevertToSnapshot (rev_id r) s = Ret s' \<and> since s0 s'
    \<and> sdb_validRevisions s' = sdb_validRevisions s0 @ rs
    \<and> sdb_journal s' = take (rev_journalIndex r) (sdb_journal s)"
proof -
  let ?n = "rev_journalIndex r" and ?idx = "length (sdb_validRevisions s0 @ rs)"
  have rok: "revs_ok s" and ext: "sdb.extends s0 s"
    and nx: "sdb_nextRevisionId s0 \<le> sdb_nextRevisionId s" using s by (simp_all add: since_def)
  have le: "?n \<le> length (sdb_journal s)" using rok rv by (auto simp: revs_ok_def)
  obtain s1 w where s1: "foldGo undo (rev (drop ?n (sdb_journal s))) s = Ret s1" "world_of s1 = w"
    "sdb_ok s1" "sdb_journal s1 = sdb_journal s" "marks s1 = marks s"
    "foldGo aundo (rev (take (?n - length (sdb_journal s0)) (drop (length (sdb_journal s0)) (sdb_journal s)))) w
      = Ret (world_of s0)"
    using sdb.revert [OF ext n le] by blast
  let ?s' = "s1\<lparr>sdb_journal := take ?n (sdb_journal s1),
      sdb_validRevisions := take ?idx (sdb_validRevisions s1)\<rparr>"
  have m: "sdb_validRevisions s1 = sdb_validRevisions s" "sdb_nextRevisionId s1 = sdb_nextRevisionId s"
    using s1(5) by (simp_all add: marks_def)
  have "StateDB_RevertToSnapshot (rev_id r) s = Ret ?s'"
    using find_revision [OF rok, of "sdb_validRevisions s0 @ rs" r rs'] rv s1(1)
    by (simp add: StateDB_RevertToSnapshot_def nth_append)
  moreover have v: "sdb_validRevisions ?s' = sdb_validRevisions s0 @ rs" using m rv by simp
  moreover have "since s0 ?s'"
  proof -
    have "world_of ?s' = w" using s1(2) world_of_cong [of ?s' s1] by simp
    moreover have "sdb_ok ?s'"
      using sdb_ok_D [OF s1(3)] by (intro sdb_ok_I) (auto dest: in_set_takeD)
    moreover obtain es where es: "sdb_journal s = sdb_journal s0 @ es" using ext by (auto simp: sdb.extends_def)
    ultimately have "sdb.extends s0 ?s'"
      using s1(4,6) n unfolding sdb.extends_def
      by (intro conjI exI [of _ "take (?n - length (sdb_journal s0)) es"]) auto
    moreover have "revs_ok ?s'" using rok rv v m s1(4) le
      by (auto simp: revs_ok_def sorted_wrt_append sorted_append min_def)
    moreover have "\<forall>x \<in> set rs. sdb_nextRevisionId s0 \<le> rev_id x
        \<and> length (sdb_journal s0) \<le> rev_journalIndex x"
      using s rv by (auto simp: since_def)
    ultimately show ?thesis using v m nx by (auto simp: since_def)
  qed
  ultimately show ?thesis using s1(4) by auto
qed

lemma Revert_found:
  assumes "StateDB_RevertToSnapshot revid s = Ret s'"
  obtains rs r rs' where "sdb_validRevisions s = rs @ r # rs'" "rev_id r = revid"
proof -
  obtain idx where idx: "find_index (\<lambda>r. rev_id r \<ge> revid) (sdb_validRevisions s) = Some idx"
    "rev_id (sdb_validRevisions s ! idx) = revid"
    using assms by (auto simp: StateDB_RevertToSnapshot_def split: option.splits if_splits)
  then have "idx < length (sdb_validRevisions s)" using find_index_Some by blast
  from that [OF id_take_nth_drop [OF this] idx(2)] show ?thesis .
qed

lemma since_step:
  assumes s: "since s0 s" and s0: "revs_ok s0" and st: "sdb_step keccak (sdb_nextRevisionId s0) s s'"
  shows "since s0 s'"
  using step_undoes [OF st]
proof (elim disjE exE conjE)
  fix revid
  assume k: "sdb_nextRevisionId s0 \<le> revid" and r: "StateDB_RevertToSnapshot revid s = Ret s'"
  obtain ps r1 qs where p: "sdb_validRevisions s = ps @ r1 # qs" "rev_id r1 = revid"
    using Revert_found [OF r] by blast
  obtain rs where rs: "sdb_validRevisions s = sdb_validRevisions s0 @ rs"
    "\<forall>x \<in> set rs. sdb_nextRevisionId s0 \<le> rev_id x \<and> length (sdb_journal s0) \<le> rev_journalIndex x"
    using s by (auto simp: since_def)
  have "\<forall>x \<in> set (sdb_validRevisions s0). rev_id x < sdb_nextRevisionId s0"
    using s0 by (auto simp: revs_ok_def)
  then have "r1 \<notin> set (sdb_validRevisions s0)" using k p(2) by auto
  then obtain us where us: "ps = sdb_validRevisions s0 @ us" "rs = us @ r1 # qs"
    using p(1) rs(1) by (auto simp: append_eq_append_conv2 append_eq_Cons_conv)
  then have "length (sdb_journal s0) \<le> rev_journalIndex r1" using rs(2) by auto
  from Revert_since [OF s _ this] us p r show ?thesis by auto
qed (use s since_undoes since_Snapshot in auto)

lemma since_run:
  assumes "(sdb_step keccak (sdb_nextRevisionId s0))\<^sup>*\<^sup>* s s'" "since s0 s" "revs_ok s0"
  shows "since s0 s'"
  using assms by (induction rule: rtranclp_induct) (auto intro: since_step)

end
