(* ===== verification/State_Accounting.thy ===== *)
theory State_Accounting
  imports State_Theorems
begin

text \<open>
  The accounting of delegated balances. An account keeps three totals of what other users have
  delegated to it, and per user an entry with the same three parts. Every method of \<open>StateDB\<close>
  keeps each total equal to the sum of its parts, also through reverts, \<open>Finalise\<close> and \<open>Commit\<close>.
\<close>

section \<open>Balanced accounts\<close>

definition vbalanced :: "acctView \<Rightarrow> bool" where
  "vbalanced v \<longleftrightarrow> finite {k. v_proxied v k \<noteq> None}
    \<and> acc_ProxiedBalance (v_data v)
        = (\<Sum>k | v_proxied v k \<noteq> None. apb_ProxiedBalance (the (v_proxied v k)))
    \<and> acc_DepositProxiedBalance (v_data v)
        = (\<Sum>k | v_proxied v k \<noteq> None. apb_DepositProxiedBalance (the (v_proxied v k)))
    \<and> acc_PendingRefundBalance (v_data v)
        = (\<Sum>k | v_proxied v k \<noteq> None. apb_PendingRefundBalance (the (v_proxied v k)))"

definition obalanced :: "stateObject \<Rightarrow> bool" where
  "obalanced ob \<longleftrightarrow> vbalanced (obj_view Map.empty ob)"

definition wbalanced :: "world \<Rightarrow> bool" where
  "wbalanced w \<longleftrightarrow> (\<forall>a v. w_acct w a = Some v \<longrightarrow> vbalanced v) \<and> (\<forall>a v. w_base w a = Some v \<longrightarrow> vbalanced v)"

lemma vbalanced_codes: "vbalanced (obj_view codes ob) = obalanced ob"
  by (simp add: obalanced_def vbalanced_def obj_view_def)

text \<open>The fields of an object the invariant depends on.\<close>

definition delegation where
  "delegation ob = (so_dirtyProxied ob, acc_ProxiedRoot (so_data ob), acc_ProxiedBalance (so_data ob),
    acc_DepositProxiedBalance (so_data ob), acc_PendingRefundBalance (so_data ob))"

lemma obalanced_delegation: "delegation ob' = delegation ob \<Longrightarrow> obalanced ob' = obalanced ob"
proof -
  assume d: "delegation ob' = delegation ob"
  then have "proxiedTrie ob' = proxiedTrie ob" "so_dirtyProxied ob' = so_dirtyProxied ob"
    by (simp_all add: delegation_def proxiedTrie_def)
  then have "stateObject_GetAccountProxiedBalance k ob' = stateObject_GetAccountProxiedBalance k ob" for k
    by (simp add: stateObject_GetAccountProxiedBalance_def cong: option.case_cong)
  then show ?thesis using d by (simp add: obalanced_def vbalanced_def obj_view_def delegation_def)
qed

lemma obalanced_new: "obalanced (newObject a zeroAccount)"
  by (simp add: obalanced_def vbalanced_def obj_view_def newObject_def zeroAccount_def proxiedTrie_def
      stateObject_GetAccountProxiedBalance_def)

text \<open>A method that changes only its own object and keeps it balanced.\<close>

definition keeps :: "objst \<Rightarrow> objst \<Rightarrow> bool" where
  "keeps p p' \<longleftrightarrow> world_of (fst p') = world_of (fst p) \<and> so_address (snd p') = so_address (snd p)
    \<and> so_deleted (snd p') = so_deleted (snd p)
    \<and> (obj_ok (snd p) \<longrightarrow> obalanced (snd p) \<longrightarrow> obalanced (snd p'))"

lemma world_fire [simp]: "world_of (fst (fireDirty (s, ob))) = world_of s"
  by (rule world_of_cong) (simp_all add: fireDirty.simps)

lemma world_mark [simp]: "world_of (StateDB_MarkStateObjectDirty a s) = world_of s"
  by (rule world_of_cong) simp_all

lemma world_append [simp]: "world_of (journalAppend e s) = world_of s"
  by (rule world_of_cong) simp_all

lemma delegation_fire [simp]: "delegation (snd (fireDirty (s, ob))) = delegation ob"
  by (simp add: fireDirty.simps delegation_def)

lemma keeps_refl: "keeps p p"
  by (simp add: keeps_def)

lemma keepsI:
  assumes "world_of (fst p') = world_of (fst p)" "so_address (snd p') = so_address (snd p)"
    "so_deleted (snd p') = so_deleted (snd p)" "delegation (snd p') = delegation (snd p)"
  shows "keeps p p'"
  using assms obalanced_delegation [OF assms(4)] by (simp add: keeps_def)

lemma keeps_touch: "keeps (s, ob) (stateObject_touch (s, ob))"
  unfolding touch_conv by (rule keepsI) (simp_all, simp add: delegation_def)

lemma keeps_set:
  "keeps (s, ob) (stateObject_SetBalance x0 (s, ob))"
  "keeps (s, ob) (stateObject_SetDepositBalance x1 (s, ob))"
  "keeps (s, ob) (stateObject_SetChainBalance x2 (s, ob))"
  "keeps (s, ob) (stateObject_SetDelegateBalance x3 (s, ob))"
  "keeps (s, ob) (stateObject_SetRewardBalance x4 (s, ob))"
  "keeps (s, ob) (stateObject_SetAvailableRewardBalance x5 (s, ob))"
  "keeps (s, ob) (stateObject_SetNonce x6 (s, ob))"
  "keeps (s, ob) (stateObject_SetCandidate x7 (s, ob))"
  "keeps (s, ob) (stateObject_SetPubkey x8 (s, ob))"
  "keeps (s, ob) (stateObject_SetCommission x9 (s, ob))"
  "keeps (s, ob) (stateObject_SetBanned x10 (s, ob))"
  "keeps (s, ob) (stateObject_SetBlockTime x11 (s, ob))"
  "keeps (s, ob) (stateObject_SetBannedTime x12 (s, ob))"
  by (rule keepsI; simp add: object_set_simps; simp add: delegation_def)+

lemma keeps_add:
  "keeps (s, ob) (stateObject_AddBalance x0 (s, ob))"
  "keeps (s, ob) (stateObject_SubBalance x1 (s, ob))"
  "keeps (s, ob) (stateObject_AddDepositBalance x2 (s, ob))"
  "keeps (s, ob) (stateObject_SubDepositBalance x3 (s, ob))"
  "keeps (s, ob) (stateObject_AddChainBalance x4 (s, ob))"
  "keeps (s, ob) (stateObject_SubChainBalance x5 (s, ob))"
  "keeps (s, ob) (stateObject_AddDelegateBalance x6 (s, ob))"
  "keeps (s, ob) (stateObject_SubDelegateBalance x7 (s, ob))"
  "keeps (s, ob) (stateObject_AddRewardBalance x8 (s, ob))"
  "keeps (s, ob) (stateObject_SubRewardBalance x9 (s, ob))"
  "keeps (s, ob) (stateObject_AddAvailableRewardBalance x10 (s, ob))"
  "keeps (s, ob) (stateObject_SubAvailableRewardBalance x11 (s, ob))"
  by (simp_all add: keeps_refl keeps_touch keeps_set)

lemma sideSet_delegation: "delegation (sideSet c b ob) = delegation ob \<and> so_address (sideSet c b ob) = so_address ob
    \<and> so_deleted (sideSet c b ob) = so_deleted ob"
proof -
  obtain ds where "sideSet c b ob = ob\<lparr>so_data := (so_data ob)\<lparr>acc_SideChainDepositBalance := ds\<rparr>\<rparr>"
    using sideSet_frame by blast
  then show ?thesis by (simp add: delegation_def)
qed

lemma keeps_SetSide: "keeps (s, ob) (stateObject_SetSideChainDepositBalance c x (s, ob))"
proof -
  obtain prev where "stateObject_SetSideChainDepositBalance c x (s, ob) = fireDirty
      (journalAppend (sideChainDepositBalanceChange (so_address ob) c prev) s, sideSet c x ob)"
    by (cases "sideChainIndex c ob")
      (auto simp: stateObject_SetSideChainDepositBalance.simps sideSet_def)
  then show ?thesis using sideSet_delegation by (intro keepsI) auto
qed

lemma keeps_side:
  "keeps (s, ob) (stateObject_AddSideChainDepositBalance c x (s, ob))"
  "keeps (s, ob) (stateObject_SubSideChainDepositBalance c x (s, ob))"
  by (simp_all add: keeps_refl keeps_touch keeps_SetSide)

lemma keeps_rest:
  "keeps (s, ob) (stateObject_SetState key v (s, ob))"
  "keeps (s, ob) (stateObject_SetCode h c (s, ob))"
  "keeps (s, ob) (stateObject_SetDelegateRewardBalance d r (s, ob))"
  "keeps (s, ob) (stateObject_AddTX1 h (s, ob))" "keeps (s, ob) (stateObject_AddTX3 h (s, ob))"
  by (rule keepsI; simp; simp add: delegation_def stateObject_addTX1_def stateObject_addTX3_def)+

lemma keeps_comp:
  assumes "keeps p q" "keeps q r" "obj_ok (snd p) \<Longrightarrow> obj_ok (snd q)"
  shows "keeps p r"
  using assms by (auto simp: keeps_def)

section \<open>The delegation methods\<close>

text \<open>Changing the entry of one user changes the sum by the difference.\<close>

lemma sum_entry:
  fixes f :: "'b \<Rightarrow> int"
  assumes "finite {k. g k \<noteq> None}"
  shows "finite {k. (g(u := Some y)) k \<noteq> None}"
    "(\<Sum>k | (g(u := Some y)) k \<noteq> None. f (the ((g(u := Some y)) k)))
      = (\<Sum>k | g k \<noteq> None. f (the (g k))) - (case g u of None \<Rightarrow> 0 | Some x \<Rightarrow> f x) + f y"
proof -
  have e: "{k. (g(u := Some y)) k \<noteq> None} = insert u {k. g k \<noteq> None}" by auto
  then show "finite {k. (g(u := Some y)) k \<noteq> None}" using assms by simp
  let ?S = "{k. g k \<noteq> None} - {u}"
  have "(\<Sum>k | (g(u := Some y)) k \<noteq> None. f (the ((g(u := Some y)) k)))
      = f y + (\<Sum>k\<in>?S. f (the ((g(u := Some y)) k)))"
    unfolding e by (subst sum.insert_remove) (use assms in auto)
  also have "(\<Sum>k\<in>?S. f (the ((g(u := Some y)) k))) = (\<Sum>k\<in>?S. f (the (g k)))"
    by (rule sum.cong) auto
  also have "\<dots> = (\<Sum>k | g k \<noteq> None. f (the (g k))) - (case g u of None \<Rightarrow> 0 | Some x \<Rightarrow> f x)"
    using assms by (cases "g u") (auto simp: sum_diff1)
  finally show "(\<Sum>k | (g(u := Some y)) k \<noteq> None. f (the ((g(u := Some y)) k)))
      = (\<Sum>k | g k \<noteq> None. f (the (g k))) - (case g u of None \<Rightarrow> 0 | Some x \<Rightarrow> f x) + f y" by simp
qed

lemma entry_value:
  "(case stateObject_GetAccountProxiedBalance u ob of None \<Rightarrow> 0 | Some x \<Rightarrow> apb_ProxiedBalance x)
    = apb_ProxiedBalance (apbOrNew u ob)"
  "(case stateObject_GetAccountProxiedBalance u ob of None \<Rightarrow> 0 | Some x \<Rightarrow> apb_DepositProxiedBalance x)
    = apb_DepositProxiedBalance (apbOrNew u ob)"
  "(case stateObject_GetAccountProxiedBalance u ob of None \<Rightarrow> 0 | Some x \<Rightarrow> apb_PendingRefundBalance x)
    = apb_PendingRefundBalance (apbOrNew u ob)"
  by (simp_all add: apbOrNew_def NewAccountProxiedBalance_def split: option.split)

lemma obalanced_entry:
  assumes b: "obalanced ob"
    and d: "so_dirtyProxied ob' = AList.update u (Some y) (so_dirtyProxied ob)"
      "acc_ProxiedRoot (so_data ob') = acc_ProxiedRoot (so_data ob)"
    and t: "acc_ProxiedBalance (so_data ob') = acc_ProxiedBalance (so_data ob)
        - apb_ProxiedBalance (apbOrNew u ob) + apb_ProxiedBalance y"
      "acc_DepositProxiedBalance (so_data ob') = acc_DepositProxiedBalance (so_data ob)
        - apb_DepositProxiedBalance (apbOrNew u ob) + apb_DepositProxiedBalance y"
      "acc_PendingRefundBalance (so_data ob') = acc_PendingRefundBalance (so_data ob)
        - apb_PendingRefundBalance (apbOrNew u ob) + apb_PendingRefundBalance y"
  shows "obalanced ob'"
proof -
  let ?g = "\<lambda>k. stateObject_GetAccountProxiedBalance k ob"
  have g': "(\<lambda>k. stateObject_GetAccountProxiedBalance k ob') = ?g(u := Some y)"
    using d by (auto simp: stateObject_GetAccountProxiedBalance_def update_conv' proxiedTrie_def fun_eq_iff
        cong: option.case_cong)
  have fin: "finite {k. ?g k \<noteq> None}" using b by (simp add: obalanced_def vbalanced_def obj_view_def)
  note s = sum_entry(2) [OF fin, of _ u y, unfolded g' [symmetric] entry_value]
  have "finite {k. stateObject_GetAccountProxiedBalance k ob' \<noteq> None}"
    using sum_entry(1) [OF fin, of u y] unfolding g' [symmetric] .
  then show ?thesis
    using b t s [of apb_ProxiedBalance] s [of apb_DepositProxiedBalance] s [of apb_PendingRefundBalance]
    by (simp add: obalanced_def vbalanced_def obj_view_def entry_value)
qed

lemma keeps_byUser:
  "keeps (s, ob) (stateObject_AddProxiedBalance x0 (stateObject_SetAccountProxiedBalance u
     (Some ((apbOrNew u ob)\<lparr>apb_ProxiedBalance := apb_ProxiedBalance (apbOrNew u ob) + x0\<rparr>)) (s, ob)))"
  "keeps (s, ob) (stateObject_SubProxiedBalance x1 (stateObject_SetAccountProxiedBalance u
     (Some ((apbOrNew u ob)\<lparr>apb_ProxiedBalance := apb_ProxiedBalance (apbOrNew u ob) - x1\<rparr>)) (s, ob)))"
  "keeps (s, ob) (stateObject_AddDepositProxiedBalance x2 (stateObject_SetAccountProxiedBalance u
     (Some ((apbOrNew u ob)\<lparr>apb_DepositProxiedBalance := apb_DepositProxiedBalance (apbOrNew u ob) + x2\<rparr>)) (s, ob)))"
  "keeps (s, ob) (stateObject_SubDepositProxiedBalance x3 (stateObject_SetAccountProxiedBalance u
     (Some ((apbOrNew u ob)\<lparr>apb_DepositProxiedBalance := apb_DepositProxiedBalance (apbOrNew u ob) - x3\<rparr>)) (s, ob)))"
  "keeps (s, ob) (stateObject_AddPendingRefundBalance x4 (stateObject_SetAccountProxiedBalance u
     (Some ((apbOrNew u ob)\<lparr>apb_PendingRefundBalance := apb_PendingRefundBalance (apbOrNew u ob) + x4\<rparr>)) (s, ob)))"
  "keeps (s, ob) (stateObject_SubPendingRefundBalance x5 (stateObject_SetAccountProxiedBalance u
     (Some ((apbOrNew u ob)\<lparr>apb_PendingRefundBalance := apb_PendingRefundBalance (apbOrNew u ob) - x5\<rparr>)) (s, ob)))"
proof -
  have r: "keeps (s, ob) p'"
    if "world_of (fst p') = world_of s" "so_address (snd p') = so_address ob" "so_deleted (snd p') = so_deleted ob"
      "so_dirtyProxied (snd p') = AList.update u (Some y) (so_dirtyProxied ob)"
      "acc_ProxiedRoot (so_data (snd p')) = acc_ProxiedRoot (so_data ob)"
      "acc_ProxiedBalance (so_data (snd p')) = acc_ProxiedBalance (so_data ob)
        - apb_ProxiedBalance (apbOrNew u ob) + apb_ProxiedBalance y"
      "acc_DepositProxiedBalance (so_data (snd p')) = acc_DepositProxiedBalance (so_data ob)
        - apb_DepositProxiedBalance (apbOrNew u ob) + apb_DepositProxiedBalance y"
      "acc_PendingRefundBalance (so_data (snd p')) = acc_PendingRefundBalance (so_data ob)
        - apb_PendingRefundBalance (apbOrNew u ob) + apb_PendingRefundBalance y" for p' y
    using that obalanced_entry [OF _ that(4-8)] by (auto simp: keeps_def)
  show "keeps (s, ob) (stateObject_AddProxiedBalance x0 (stateObject_SetAccountProxiedBalance u
     (Some ((apbOrNew u ob)\<lparr>apb_ProxiedBalance := apb_ProxiedBalance (apbOrNew u ob) + x0\<rparr>)) (s, ob)))"
    by (rule r [of _ "(apbOrNew u ob)\<lparr>apb_ProxiedBalance := apb_ProxiedBalance (apbOrNew u ob) + x0\<rparr>"])
      (simp_all add: fireDirty.simps stateObject_SetProxiedBalance.simps stateObject_touch.simps)
  show "keeps (s, ob) (stateObject_SubProxiedBalance x1 (stateObject_SetAccountProxiedBalance u
     (Some ((apbOrNew u ob)\<lparr>apb_ProxiedBalance := apb_ProxiedBalance (apbOrNew u ob) - x1\<rparr>)) (s, ob)))"
    by (rule r [of _ "(apbOrNew u ob)\<lparr>apb_ProxiedBalance := apb_ProxiedBalance (apbOrNew u ob) - x1\<rparr>"])
      (simp_all add: fireDirty.simps stateObject_SetProxiedBalance.simps stateObject_touch.simps)
  show "keeps (s, ob) (stateObject_AddDepositProxiedBalance x2 (stateObject_SetAccountProxiedBalance u
     (Some ((apbOrNew u ob)\<lparr>apb_DepositProxiedBalance := apb_DepositProxiedBalance (apbOrNew u ob) + x2\<rparr>)) (s, ob)))"
    by (rule r [of _ "(apbOrNew u ob)\<lparr>apb_DepositProxiedBalance := apb_DepositProxiedBalance (apbOrNew u ob) + x2\<rparr>"])
      (simp_all add: fireDirty.simps stateObject_SetDepositProxiedBalance.simps stateObject_touch.simps)
  show "keeps (s, ob) (stateObject_SubDepositProxiedBalance x3 (stateObject_SetAccountProxiedBalance u
     (Some ((apbOrNew u ob)\<lparr>apb_DepositProxiedBalance := apb_DepositProxiedBalance (apbOrNew u ob) - x3\<rparr>)) (s, ob)))"
    by (rule r [of _ "(apbOrNew u ob)\<lparr>apb_DepositProxiedBalance := apb_DepositProxiedBalance (apbOrNew u ob) - x3\<rparr>"])
      (simp_all add: fireDirty.simps stateObject_SetDepositProxiedBalance.simps stateObject_touch.simps)
  show "keeps (s, ob) (stateObject_AddPendingRefundBalance x4 (stateObject_SetAccountProxiedBalance u
     (Some ((apbOrNew u ob)\<lparr>apb_PendingRefundBalance := apb_PendingRefundBalance (apbOrNew u ob) + x4\<rparr>)) (s, ob)))"
    by (rule r [of _ "(apbOrNew u ob)\<lparr>apb_PendingRefundBalance := apb_PendingRefundBalance (apbOrNew u ob) + x4\<rparr>"])
      (simp_all add: fireDirty.simps stateObject_SetPendingRefundBalance.simps stateObject_touch.simps)
  show "keeps (s, ob) (stateObject_SubPendingRefundBalance x5 (stateObject_SetAccountProxiedBalance u
     (Some ((apbOrNew u ob)\<lparr>apb_PendingRefundBalance := apb_PendingRefundBalance (apbOrNew u ob) - x5\<rparr>)) (s, ob)))"
    by (rule r [of _ "(apbOrNew u ob)\<lparr>apb_PendingRefundBalance := apb_PendingRefundBalance (apbOrNew u ob) - x5\<rparr>"])
      (simp_all add: fireDirty.simps stateObject_SetPendingRefundBalance.simps stateObject_touch.simps)
qed

section \<open>Methods of the database\<close>

lemma wbalanced_writeBack:
  "wbalanced (world_of s) \<Longrightarrow> obalanced ob \<Longrightarrow> wbalanced (world_of (writeBack (s, ob)))"
  by (auto simp: wbalanced_def world_writeBack vbalanced_codes)

lemma wbalanced_object:
  "wbalanced (world_of s) \<Longrightarrow> StateDB_getStateObject s a = Some ob \<Longrightarrow> obalanced ob"
  using vbalanced_codes [of "sdb_codes s" ob] by (auto simp: wbalanced_def world_of_def)

definition wkeeps :: "stateDB \<Rightarrow> stateDB \<Rightarrow> bool" where
  "wkeeps s s' \<longleftrightarrow> (sdb_ok s \<longrightarrow> wbalanced (world_of s) \<longrightarrow> wbalanced (world_of s'))"

lemma createObject_balanced:
  assumes "wbalanced (world_of s)" "StateDB_createObject a s = (p, prev)"
  shows "wbalanced (world_of (fst p)) \<and> obalanced (snd p)"
proof -
  obtain s1 newobj where c: "StateDB_createObject a s
      = ((StateDB_setStateObject newobj s1, newobj), StateDB_getStateObject s a)"
    "newobj = (newObject a zeroAccount)\<lparr>so_onDirty := False\<rparr>" "world_of s1 = world_of s"
    by (rule createObject_unfold [where codes = "sdb_codes s"]) blast
  have b: "obalanced newobj"
    using obalanced_new [of a] c(2) obalanced_delegation [of newobj "newObject a zeroAccount"]
    by (simp add: delegation_def)
  have "StateDB_setStateObject newobj s1 = writeBack (s1, newobj)" by (simp add: writeBack_def)
  then have "wbalanced (world_of (StateDB_setStateObject newobj s1))"
    using wbalanced_writeBack [of s1 newobj] assms(1) b c(3) by simp
  moreover have "p = (StateDB_setStateObject newobj s1, newobj)" using c(1) assms(2) by simp
  ultimately show ?thesis using b by simp
qed

lemma getOrNew_balanced:
  assumes "sdb_ok s" "wbalanced (world_of s)"
  shows "wbalanced (world_of (fst (StateDB_GetOrNewStateObject a s)))
    \<and> obalanced (snd (StateDB_GetOrNewStateObject a s)) \<and> obj_ok (snd (StateDB_GetOrNewStateObject a s))"
proof -
  have "obj_ok (snd (StateDB_GetOrNewStateObject a s))"
    using getOrNew_extends [OF assms(1), of a] live_ob
    by (metis prod.collapse)
  moreover have "wbalanced (world_of (fst (StateDB_GetOrNewStateObject a s)))
    \<and> obalanced (snd (StateDB_GetOrNewStateObject a s))"
  proof (cases "StateDB_getStateObject s a")
    case None
    then show ?thesis using createObject_balanced [OF assms(2), of a]
      by (cases "StateDB_createObject a s") (simp add: StateDB_GetOrNewStateObject_def)
  next
    case (Some ob)
    then show ?thesis using getStateObject_ok [OF assms(1) Some] wbalanced_object [OF assms(2) Some] assms(2)
      by (simp add: StateDB_GetOrNewStateObject_def)
  qed
  ultimately show ?thesis by blast
qed

lemma keeps_balanced:
  assumes "keeps p p'" "wbalanced (world_of (fst p))" "obalanced (snd p)" "obj_ok (snd p)"
  shows "wbalanced (world_of (writeBack p'))"
  using assms wbalanced_writeBack [of "fst p'" "snd p'"] by (simp add: keeps_def)

lemma op_keeps:
  assumes "\<And>s1 ob. keeps (s1, ob) (f (s1, ob))"
  shows "wkeeps s (writeBack (f (StateDB_GetOrNewStateObject a s)))"
  using keeps_balanced [OF assms [of "fst (StateDB_GetOrNewStateObject a s)"
        "snd (StateDB_GetOrNewStateObject a s)", simplified]] getOrNew_balanced [of s a]
  by (auto simp: wkeeps_def)

lemma op_keeps_found:
  assumes "StateDB_getStateObject s a = Some ob" "keeps (s, ob) p"
  shows "wkeeps s (writeBack p)"
  using assms keeps_balanced [OF assms(2)] wbalanced_object getStateObject_ok
  by (auto simp: wkeeps_def)

lemma keeps_comp2:
  assumes "\<And>s1 ob. keeps (s1, ob) (f (s1, ob))" "\<And>s1 ob. keeps (s1, ob) (g (s1, ob))"
    "\<And>s1 ob. obj_ok ob \<Longrightarrow> obj_ok (snd (f (s1, ob)))"
  shows "keeps (s1, ob) (g (f (s1, ob)))"
proof (rule keeps_comp [OF assms(1)])
  show "keeps (f (s1, ob)) (g (f (s1, ob)))" using assms(2) [of "fst (f (s1, ob))" "snd (f (s1, ob))"] by simp
qed (use assms(3) in auto)

lemma same_keeps:
  assumes "sdb_codes s' = sdb_codes s" "tr_accounts (sdb_trie s') = tr_accounts (sdb_trie s)"
    "sdb_stateObjects s' = sdb_stateObjects s"
  shows "wkeeps s s'"
proof -
  have "StateDB_getStateObject s' = StateDB_getStateObject s"
    using assms(2,3) by (simp add: StateDB_getStateObject_def fun_eq_iff cong: option.case_cong)
  then show ?thesis using assms by (simp add: wkeeps_def wbalanced_def world_of_def)
qed

lemmas object_keeps = keeps_set keeps_add keeps_side keeps_SetSide keeps_rest keeps_touch keeps_refl

lemma field_keeps:
  "wkeeps s (StateDB_AddBalance a x0 s)"
  "wkeeps s (StateDB_SubBalance a x1 s)"
  "wkeeps s (StateDB_SetBalance a x2 s)"
  "wkeeps s (StateDB_AddDepositBalance a x3 s)"
  "wkeeps s (StateDB_SubDepositBalance a x4 s)"
  "wkeeps s (StateDB_SetDepositBalance a x5 s)"
  "wkeeps s (StateDB_AddChainBalance a x6 s)"
  "wkeeps s (StateDB_SubChainBalance a x7 s)"
  "wkeeps s (StateDB_SetChainBalance a x8 s)"
  "wkeeps s (StateDB_AddSideChainDepositBalance a c9 x9 s)"
  "wkeeps s (StateDB_SubSideChainDepositBalance a c10 x10 s)"
  "wkeeps s (StateDB_SetSideChainDepositBalance a c11 x11 s)"
  "wkeeps s (StateDB_AddDelegateBalance a x12 s)"
  "wkeeps s (StateDB_SubDelegateBalance a x13 s)"
  "wkeeps s (StateDB_AddRewardBalance a x14 s)"
  "wkeeps s (StateDB_SubRewardBalance a x15 s)"
  "wkeeps s (StateDB_SetNonce a n s)"
  "wkeeps s (StateDB_SetState a key v s)"
  "wkeeps s (StateDB_SetCommission a m s)"
  "wkeeps s (StateDB_ClearCommission a s)"
  "wkeeps s (StateDB_SetBanned a b s)"
  "wkeeps s (StateDB_SetBannedTime a y s)"
  "wkeeps s (StateDB_SetMinedBlocks a z s)"
  "wkeeps s (StateDB_SetCode keccak a code s)"
  "wkeeps s (StateDB_AddTX1 a h s)"
  "wkeeps s (StateDB_AddTX3 a h s)"
  unfolding StateDB_AddBalance_def
    StateDB_SubBalance_def
    StateDB_SetBalance_def
    StateDB_AddDepositBalance_def
    StateDB_SubDepositBalance_def
    StateDB_SetDepositBalance_def
    StateDB_AddChainBalance_def
    StateDB_SubChainBalance_def
    StateDB_SetChainBalance_def
    StateDB_AddSideChainDepositBalance_def
    StateDB_SubSideChainDepositBalance_def
    StateDB_SetSideChainDepositBalance_def
    StateDB_AddDelegateBalance_def
    StateDB_SubDelegateBalance_def
    StateDB_AddRewardBalance_def
    StateDB_SubRewardBalance_def
    StateDB_SetNonce_def
    StateDB_SetState_def
    StateDB_SetCommission_def
    StateDB_ClearCommission_def
    StateDB_SetBanned_def
    StateDB_SetBannedTime_def
    StateDB_SetMinedBlocks_def
    StateDB_SetCode_def
    StateDB_AddTX1_def
    StateDB_AddTX3_def
  by (rule op_keeps, rule object_keeps)+

lemma proxied_keeps:
  "wkeeps s (StateDB_AddProxiedBalanceByUser a user x0 s)"
  "wkeeps s (StateDB_SubProxiedBalanceByUser a user x1 s)"
  "wkeeps s (StateDB_AddDepositProxiedBalanceByUser a user x2 s)"
  "wkeeps s (StateDB_SubDepositProxiedBalanceByUser a user x3 s)"
  "wkeeps s (StateDB_AddPendingRefundBalanceByUser a user x4 s)"
  "wkeeps s (StateDB_SubPendingRefundBalanceByUser a user x5 s)"
proof -
  obtain s1 ob where p: "StateDB_GetOrNewStateObject a s = (s1, ob)"
    by (cases "StateDB_GetOrNewStateObject a s")
  have r: "wkeeps s (writeBack p')" if "keeps (s1, ob) p'" for p'
    using keeps_balanced [OF that] getOrNew_balanced [of s a] p by (auto simp: wkeeps_def)
  show "wkeeps s (StateDB_AddProxiedBalanceByUser a user x0 s)"
    "wkeeps s (StateDB_SubProxiedBalanceByUser a user x1 s)"
    "wkeeps s (StateDB_AddDepositProxiedBalanceByUser a user x2 s)"
    "wkeeps s (StateDB_SubDepositProxiedBalanceByUser a user x3 s)"
    "wkeeps s (StateDB_AddPendingRefundBalanceByUser a user x4 s)"
    "wkeeps s (StateDB_SubPendingRefundBalanceByUser a user x5 s)"
    unfolding StateDB_AddProxiedBalanceByUser_def
      StateDB_SubProxiedBalanceByUser_def
      StateDB_AddDepositProxiedBalanceByUser_def
      StateDB_SubDepositProxiedBalanceByUser_def
      StateDB_AddPendingRefundBalanceByUser_def
      StateDB_SubPendingRefundBalanceByUser_def
    by (simp_all only: p prod.case Let_def) (rule r, rule keeps_byUser)+
qed

lemma SetDelegateReward_ok: "obj_ok ob \<Longrightarrow> obj_ok (snd (stateObject_SetDelegateRewardBalance d r (s1, ob)))"
  by (simp add: obj_ok_def fireDirty.simps)

lemma reward_keeps: "wkeeps s (StateDB_AddRewardBalanceByDelegateAddress a d x s)"
  "StateDB_SubRewardBalanceByDelegateAddress a d x s = Ret s' \<Longrightarrow> wkeeps s s'"
proof -
  obtain s1 ob where p: "StateDB_GetOrNewStateObject a s = (s1, ob)"
    by (cases "StateDB_GetOrNewStateObject a s")
  have r: "wkeeps s (writeBack p')" if "keeps (s1, ob) p'" for p'
    using keeps_balanced [OF that] getOrNew_balanced [of s a] p by (auto simp: wkeeps_def)
  have k: "keeps (s1, ob) (stateObject_AddRewardBalance x (stateObject_SetDelegateRewardBalance d v (s1, ob)))"
    "keeps (s1, ob) (stateObject_SubRewardBalance x (stateObject_SetDelegateRewardBalance d v (s1, ob)))" for v
    by (rule keeps_comp2 [where f = "stateObject_SetDelegateRewardBalance d v"],
        (rule object_keeps | erule SetDelegateReward_ok)+)+
  show "wkeeps s (StateDB_AddRewardBalanceByDelegateAddress a d x s)"
    unfolding StateDB_AddRewardBalanceByDelegateAddress_def p prod.case Let_def by (rule r, rule k)
  show "StateDB_SubRewardBalanceByDelegateAddress a d x s = Ret s' \<Longrightarrow> wkeeps s s'"
    unfolding StateDB_SubRewardBalanceByDelegateAddress_def p prod.case Let_def
    using r [OF k(2)] by (auto split: option.splits)
qed

lemma available_keeps:
  "wkeeps s (StateDB_AddAvailableRewardBalance a x s)" "wkeeps s (StateDB_SubAvailableRewardBalance a y s)"
  unfolding StateDB_AddAvailableRewardBalance_def StateDB_SubAvailableRewardBalance_def
  by (cases "StateDB_getStateObject s a";
      simp add: same_keeps op_keeps_found keeps_add
        del: stateObject_AddAvailableRewardBalance.simps stateObject_SubAvailableRewardBalance.simps)+

lemma set_ok: "obj_ok ob \<Longrightarrow> obj_ok (snd (stateObject_SetCandidate b (s1, ob)))"
  "obj_ok ob \<Longrightarrow> obj_ok (snd (stateObject_SetPubkey pk (s1, ob)))"
  "obj_ok ob \<Longrightarrow> obj_ok (snd (stateObject_SetCommission m (s1, ob)))"
  by (simp_all add: obj_ok_def fireDirty.simps object_set_simps)

lemma candidate_keeps:
  "wkeeps s (StateDB_ApplyForCandidate a pk m s)" "wkeeps s (StateDB_CancelCandidate a r s)"
proof -
  obtain s1 ob where p: "StateDB_GetOrNewStateObject a s = (s1, ob)"
    by (cases "StateDB_GetOrNewStateObject a s")
  have w: "wkeeps s (writeBack p')" if "keeps (s1, ob) p'" for p'
    using keeps_balanced [OF that] getOrNew_balanced [of s a] p by (auto simp: wkeeps_def)
  have c1: "keeps (s2, x) (stateObject_SetCommission m (stateObject_SetCandidate b (s2, x)))" for s2 x b m
    by (rule keeps_comp2 [where f = "stateObject_SetCandidate b"], (rule keeps_set | erule set_ok)+)
  have o1: "obj_ok (snd (stateObject_SetCommission m (stateObject_SetCandidate b (s2, x))))" if "obj_ok x" for s2 x b m
    using set_ok(3) [OF set_ok(1) [OF that, of b s2], of m "fst (stateObject_SetCandidate b (s2, x))"] by simp
  have a: "keeps (s2, x) (stateObject_SetPubkey pk (stateObject_SetCommission m (stateObject_SetCandidate True (s2, x))))" for s2 x
    by (rule keeps_comp2 [where f = "\<lambda>p. stateObject_SetCommission m (stateObject_SetCandidate True p)",
          OF c1 keeps_set(9) o1])
  have c2: "keeps (s2, x) (stateObject_SetPubkey [] (stateObject_SetCandidate False (s2, x)))" for s2 x
    by (rule keeps_comp2 [where f = "stateObject_SetCandidate False"], (rule keeps_set | erule set_ok)+)
  have o2: "obj_ok (snd (stateObject_SetPubkey [] (stateObject_SetCandidate False (s2, x))))" if "obj_ok x" for s2 x
    using set_ok(2) [OF set_ok(1) [OF that, of False s2], of "[]" "fst (stateObject_SetCandidate False (s2, x))"] by simp
  have c: "keeps (s2, x) (stateObject_SetCommission 0 (stateObject_SetPubkey [] (stateObject_SetCandidate False (s2, x))))" for s2 x
    by (rule keeps_comp2 [where f = "\<lambda>p. stateObject_SetPubkey [] (stateObject_SetCandidate False p)",
          OF c2 keeps_set(10) o2])
  show "wkeeps s (StateDB_ApplyForCandidate a pk m s)"
    unfolding StateDB_ApplyForCandidate_def p by (rule w, rule a)
  show "wkeeps s (StateDB_CancelCandidate a r s)"
    unfolding StateDB_CancelCandidate_def Let_def p using w [OF c] w [OF c2] by simp
qed

lemma getter_keeps:
  "wkeeps s (fst (StateDB_GetBanned a s))" "wkeeps s (fst (StateDB_GetBannedTime a s))"
  "wkeeps s (fst (StateDB_GetMinedBlocks a s))"
  using op_keeps [where f = id and s = s and a = a] keeps_refl
  by (simp_all add: StateDB_GetBanned_def StateDB_GetBannedTime_def StateDB_GetMinedBlocks_def Let_def)

lemma Suicide_keeps: "wkeeps s (fst (StateDB_Suicide a s))"
proof (cases "StateDB_getStateObject s a")
  case None
  then show ?thesis by (simp add: StateDB_Suicide_def same_keeps)
next
  case (Some ob)
  have "\<exists>p. fst (StateDB_Suicide a s) = writeBack p \<and> keeps (s, ob) p"
    unfolding StateDB_Suicide_def Some option.case Let_def split_beta fst_conv
    by (rule exI, rule conjI, rule refl, rule keepsI)
      (simp_all, simp add: delegation_def fireDirty.simps)
  then show ?thesis using op_keeps_found [OF Some] by auto
qed

lemma CreateAccount_keeps: "wkeeps s (StateDB_CreateAccount a s)"
proof -
  have "wbalanced (world_of (StateDB_CreateAccount a s))" if w: "wbalanced (world_of s)"
  proof -
    obtain p prev where c: "StateDB_createObject a s = (p, prev)" by (cases "StateDB_createObject a s")
    have b: "wbalanced (world_of (fst p))" "obalanced (snd p)" using createObject_balanced [OF w c] by auto
    show ?thesis
    proof (cases prev)
      case None
      then show ?thesis using c b wbalanced_writeBack [of "fst p" "snd p"] by (simp add: StateDB_CreateAccount_def)
    next
      case (Some pr)
      let ?q = "stateObject_setBalance (acc_Balance (so_data pr)) p"
      have q: "world_of (fst ?q) = world_of (fst p)" "delegation (snd ?q) = delegation (snd p)"
        by (cases p; simp add: delegation_def fireDirty.simps)+
      have "wbalanced (world_of (writeBack (fst ?q, snd ?q)))"
        using b q(1) obalanced_delegation [OF q(2)] by (intro wbalanced_writeBack) simp_all
      then show ?thesis using c Some by (simp add: StateDB_CreateAccount_def)
    qed
  qed
  then show ?thesis by (simp add: wkeeps_def)
qed

lemma plain_keeps:
  "wkeeps s (StateDB_AddLog lg s)" "wkeeps s (StateDB_AddPreimage h pre s)" "wkeeps s (StateDB_AddRefund g s)"
  "StateDB_SubRefund g s = Ret s' \<Longrightarrow> wkeeps s s'" "wkeeps s (StateDB_Prepare th bh ti s)"
  "wkeeps s (StateDB_ClearRewardSetByAddress a s)" "wkeeps s (StateDB_ClearCandidateSetByAddress a s)"
  "wkeeps s (StateDB_ClearBannedSetByAddress a s)" "wkeeps s (StateDB_ClearDelegateRefundSet s)"
  "wkeeps s (StateDB_SetSideChainRewardPerBlock x s)" "wkeeps s (fst (StateDB_Snapshot s))"
  "wkeeps s (fst (StateDB_GetSideChainRewardPerBlock s))"
  by (rule same_keeps; auto simp: StateDB_AddLog_def StateDB_AddPreimage_def StateDB_AddRefund_def
      StateDB_SubRefund_def StateDB_Prepare_def StateDB_ClearRewardSetByAddress_def
      StateDB_ClearCandidateSetByAddress_def StateDB_ClearBannedSetByAddress_def
      StateDB_ClearDelegateRefundSet_def StateDB_SetSideChainRewardPerBlock_def StateDB_Snapshot_def
      StateDB_GetSideChainRewardPerBlock_def Let_def split: option.splits if_splits)+

lemma mark_keeps:
  "wkeeps s (fst (StateDB_GetDelegateAddressRefundSet s))" "wkeeps s (fst (StateDB_GetRewardSet s))"
  "wkeeps s (fst (StateDB_GetCandidateSet s))" "wkeeps s (fst (StateDB_GetBannedSet s))"
  "wkeeps s (StateDB_MarkDelegateAddressRefund a s)" "wkeeps s (StateDB_MarkAddressReward a s)"
  "wkeeps s (StateDB_MarkAddressCandidate a s)" "wkeeps s (StateDB_MarkAddressBanned a s)"
proof -
  obtain v1 v2 v3 v4 where
    "fst (StateDB_GetDelegateAddressRefundSet s) = s\<lparr>sdb_delegateRefundSet := v1\<rparr>"
    "fst (StateDB_GetRewardSet s) = s\<lparr>sdb_rewardSet := v2\<rparr>"
    "fst (StateDB_GetCandidateSet s) = s\<lparr>sdb_candidateSet := v3\<rparr>"
    "fst (StateDB_GetBannedSet s) = s\<lparr>sdb_bannedSet := v4\<rparr>"
    using getSet_frame [of s] by blast
  then show "wkeeps s (fst (StateDB_GetDelegateAddressRefundSet s))" "wkeeps s (fst (StateDB_GetRewardSet s))"
    "wkeeps s (fst (StateDB_GetCandidateSet s))" "wkeeps s (fst (StateDB_GetBannedSet s))"
    "wkeeps s (StateDB_MarkDelegateAddressRefund a s)" "wkeeps s (StateDB_MarkAddressReward a s)"
    "wkeeps s (StateDB_MarkAddressCandidate a s)" "wkeeps s (StateDB_MarkAddressBanned a s)"
    by (rule_tac [!] same_keeps)
      (simp_all add: StateDB_MarkDelegateAddressRefund_def StateDB_MarkAddressReward_def
        StateDB_MarkAddressCandidate_def StateDB_MarkAddressBanned_def split_beta Let_def)
qed

lemma step_keeps:
  assumes "sdb_step keccak k s s'"
  shows "wkeeps s s' \<or> (\<exists>revid \<ge> k. StateDB_RevertToSnapshot revid s = Ret s')"
  using assms
  by cases (auto intro: field_keeps proxied_keeps reward_keeps available_keeps candidate_keeps getter_keeps
      Suicide_keeps CreateAccount_keeps plain_keeps mark_keeps)

end
