(* ===== verification/State_Reachable.thy ===== *)
theory State_Reachable
  imports State_Accounting
begin

text \<open>
  Writing a database to its trie (\<open>Finalise\<close>, \<open>Commit\<close>), the databases a node can reach, and the
  properties of the component.
\<close>

section \<open>Flushing the dirty entries of an object\<close>

text \<open>The loop over the dirty entries of a trie whose values have a notion of emptiness.\<close>

definition flushStep :: "('k \<rightharpoonup> 'v) \<Rightarrow> ('v \<Rightarrow> bool) \<Rightarrow> string \<Rightarrow> 'k \<times> 'v option \<Rightarrow> ('k \<times> 'v) list \<Rightarrow> ('k \<times> 'v) list go" where
  "flushStep m0 emp msg = (\<lambda>(key, v) tr. case v of
      None \<Rightarrow> Panic msg
    | Some a \<Rightarrow> if m0 key = Some a then Ret tr
        else if emp a then Ret (AList.delete key tr) else Ret (AList.update key a tr))"

lemma flush_lookup:
  assumes "distinct (map fst al)" "foldGo (flushStep m0 emp msg) al tr = Ret tr'"
    "\<And>k. k \<in> fst ` set al \<Longrightarrow> map_of tr k = m0 k"
  shows "map_of tr' k = (case map_of al k of
      None \<Rightarrow> map_of tr k
    | Some v \<Rightarrow> if emp (the v) \<and> m0 k \<noteq> v then None else v) \<and> (\<forall>v. map_of al k = Some v \<longrightarrow> v \<noteq> None)"
  using assms
proof (induction al arbitrary: tr)
  case Nil
  then show ?case by simp
next
  case (Cons x al)
  obtain key v where x: "x = (key, v)" by (cases x)
  obtain tr1 where t: "flushStep m0 emp msg (key, v) tr = Ret tr1"
    "foldGo (flushStep m0 emp msg) al tr1 = Ret tr'"
    using Cons.prems(2) x by (auto simp: bindGo_Ret_iff)
  obtain a where a: "v = Some a" using t(1) by (cases v) (auto simp: flushStep_def)
  have m: "map_of tr1 = (if m0 key = Some a then map_of tr
      else if emp a then (map_of tr)(key := None) else (map_of tr)(key \<mapsto> a))"
    using t(1) a by (auto simp: flushStep_def delete_conv' update_conv' split: if_splits)
  have nk: "key \<notin> fst ` set al" using Cons.prems(1) x by auto
  have "map_of tr1 j = m0 j" if "j \<in> fst ` set al" for j
    using Cons.prems(3) [of j] that nk x m by auto
  from Cons.IH [OF _ t(2) this] Cons.prems(1) x have
    ih: "map_of tr' k = (case map_of al k of None \<Rightarrow> map_of tr1 k
      | Some v \<Rightarrow> if emp (the v) \<and> m0 k \<noteq> v then None else v) \<and> (\<forall>v. map_of al k = Some v \<longrightarrow> v \<noteq> None)"
    by simp
  show ?case
  proof (cases "k = key")
    case True
    then have "map_of al k = None" using nk by (simp add: map_of_eq_None_iff)
    moreover have "map_of tr key = m0 key" using Cons.prems(3) [of key] x by simp
    ultimately show ?thesis using ih True x a m by auto
  next
    case False
    then have "map_of tr1 k = map_of tr k" using m by simp
    then show ?thesis using ih False x by (simp cong: option.case_cong)
  qed
qed

lemma Equal_iff: "AccountProxiedBalance_Equal a b \<longleftrightarrow> b = Some a"
  by (cases b) (auto simp: AccountProxiedBalance_Equal_def)

lemma updateProxied_conv: "stateObject_updateProxiedTrie ob =
    bindGo (foldGo (flushStep (map_of (proxiedTrie ob)) AccountProxiedBalance_IsEmpty
        ''nil accountProxiedBalance'') (so_dirtyProxied ob) (proxiedTrie ob)) (\<lambda>tr.
      Ret ((updData (acc_ProxiedRoot_update (\<lambda>_. Some tr)) ob)\<lparr>so_dirtyProxied := []\<rparr>))"
  unfolding stateObject_updateProxiedTrie_def flushStep_def Equal_iff Let_def ..

lemma updateReward_conv: "stateObject_updateRewardTrie ob =
    bindGo (foldGo (flushStep (map_of (acc_RewardRoot (so_data ob))) (\<lambda>a. a = 0)
        ''nil reward balance'') (so_dirtyReward ob) (acc_RewardRoot (so_data ob))) (\<lambda>tr.
      Ret ((updData (acc_RewardRoot_update (\<lambda>_. tr)) ob)\<lparr>so_dirtyReward := []\<rparr>))"
  unfolding stateObject_updateRewardTrie_def flushStep_def Let_def ..

text \<open>What the flushed object shows: an entry that has become empty is gone.\<close>

lemma updateProxied_lookup:
  assumes "distinct (map fst (so_dirtyProxied ob))" "stateObject_updateProxiedTrie ob = Ret ob'"
  obtains tr where "ob' = (updData (acc_ProxiedRoot_update (\<lambda>_. Some tr)) ob)\<lparr>so_dirtyProxied := []\<rparr>"
    "\<And>k. map_of tr k = stateObject_GetAccountProxiedBalance k ob
       \<or> map_of tr k = None \<and> (\<exists>a. stateObject_GetAccountProxiedBalance k ob = Some a
            \<and> AccountProxiedBalance_IsEmpty a)"
    "\<And>k. map_of (so_dirtyProxied ob) k \<noteq> Some None"
proof -
  let ?f = "flushStep (map_of (proxiedTrie ob)) AccountProxiedBalance_IsEmpty ''nil accountProxiedBalance''"
  obtain tr where tr: "foldGo ?f (so_dirtyProxied ob) (proxiedTrie ob) = Ret tr"
    "ob' = (updData (acc_ProxiedRoot_update (\<lambda>_. Some tr)) ob)\<lparr>so_dirtyProxied := []\<rparr>"
    using assms(2) by (auto simp: updateProxied_conv bindGo_Ret_iff)
  note l = flush_lookup [OF assms(1) tr(1)]
  show ?thesis
  proof (rule that [OF tr(2)])
    fix k
    show "map_of (so_dirtyProxied ob) k \<noteq> Some None" using l [of k] by auto
    show "map_of tr k = stateObject_GetAccountProxiedBalance k ob
       \<or> map_of tr k = None \<and> (\<exists>a. stateObject_GetAccountProxiedBalance k ob = Some a
            \<and> AccountProxiedBalance_IsEmpty a)"
      using l [of k] by (cases "map_of (so_dirtyProxied ob) k")
        (auto simp: stateObject_GetAccountProxiedBalance_def)
  qed
qed

text \<open>What the five root updates leave alone.\<close>

lemma updateRoots_frame:
  assumes "stateObject_updateRoots ob = Ret ob'"
  shows "so_address ob' = so_address ob" "so_deleted ob' = so_deleted ob" "so_suicided ob' = so_suicided ob"
    "so_code ob' = so_code ob" "acc_CodeHash (so_data ob') = acc_CodeHash (so_data ob)"
    "stateObject_empty ob' = stateObject_empty ob" "so_dirtyStorage ob' = []" "so_dirtyProxied ob' = []"
    "so_dirtyReward ob' = []" "so_dirtyTX1 ob' = []" "so_dirtyTX3 ob' = []"
  using assms
  by (auto simp: stateObject_updateRoots_def updateProxied_conv updateReward_conv bindGo_Ret_iff
      stateObject_updateTrie_def stateObject_updateTX1Trie_def stateObject_updateTX3Trie_def
      stateObject_empty_def Let_def)

lemma updateRoots_ok: "stateObject_updateRoots ob = Ret ob' \<Longrightarrow> obj_ok ob \<Longrightarrow> obj_ok ob'"
  by (simp add: obj_ok_def updateRoots_frame)

lemma updateRoots_data:
  assumes "stateObject_updateRoots ob = Ret ob'" "obj_ok ob"
  obtains st tx1 tx3 pr rw where
    "so_data ob' = (so_data ob)\<lparr>acc_Root := st, acc_TX1Root := tx1, acc_TX3Root := tx3,
        acc_ProxiedRoot := Some pr, acc_RewardRoot := rw\<rparr>"
    "\<And>k. map_of pr k = stateObject_GetAccountProxiedBalance k ob
       \<or> map_of pr k = None \<and> (\<exists>a. stateObject_GetAccountProxiedBalance k ob = Some a
            \<and> AccountProxiedBalance_IsEmpty a)"
    "st = acc_Root (so_data (stateObject_updateTrie ob))"
    "tx1 = acc_TX1Root (so_data (stateObject_updateTX1Trie ob))"
    "tx3 = acc_TX3Root (so_data (stateObject_updateTX3Trie ob))"
    "foldGo (flushStep (map_of (acc_RewardRoot (so_data ob))) (\<lambda>a. a = 0) ''nil reward balance'')
       (so_dirtyReward ob) (acc_RewardRoot (so_data ob)) = Ret rw"
proof -
  let ?ob3 = "stateObject_updateTX3Trie (stateObject_updateTX1Trie (stateObject_updateTrie ob))"
  obtain ob4 where ob4: "stateObject_updateProxiedTrie ?ob3 = Ret ob4" "stateObject_updateRewardTrie ob4 = Ret ob'"
    using assms(1) by (auto simp: stateObject_updateRoots_def bindGo_Ret_iff)
  have o3: "so_dirtyProxied ?ob3 = so_dirtyProxied ob" "acc_ProxiedRoot (so_data ?ob3) = acc_ProxiedRoot (so_data ob)"
    "so_dirtyReward ?ob3 = so_dirtyReward ob"
    "so_data ?ob3 = (so_data ob)\<lparr>acc_Root := acc_Root (so_data (stateObject_updateTrie ob)),
       acc_TX1Root := acc_TX1Root (so_data (stateObject_updateTX1Trie ob)),
       acc_TX3Root := acc_TX3Root (so_data (stateObject_updateTX3Trie ob))\<rparr>"
    by (simp_all add: stateObject_updateTrie_def stateObject_updateTX1Trie_def
        stateObject_updateTX3Trie_def Let_def)
  have pt: "proxiedTrie ?ob3 = proxiedTrie ob" using o3(2) by (simp add: proxiedTrie_def)
  have get: "stateObject_GetAccountProxiedBalance k ?ob3 = stateObject_GetAccountProxiedBalance k ob" for k
    using o3(1) pt by (simp add: stateObject_GetAccountProxiedBalance_def cong: option.case_cong)
  have "distinct (map fst (so_dirtyProxied ?ob3))" using assms(2) o3(1) by (simp add: obj_ok_def)
  then obtain pr where pr: "ob4 = (updData (acc_ProxiedRoot_update (\<lambda>_. Some pr)) ?ob3)\<lparr>so_dirtyProxied := []\<rparr>"
    "\<And>k. map_of pr k = stateObject_GetAccountProxiedBalance k ob
       \<or> map_of pr k = None \<and> (\<exists>a. stateObject_GetAccountProxiedBalance k ob = Some a
            \<and> AccountProxiedBalance_IsEmpty a)"
    using updateProxied_lookup [OF _ ob4(1)] unfolding get by blast
  obtain rw where rw: "foldGo (flushStep (map_of (acc_RewardRoot (so_data ob4))) (\<lambda>a. a = 0)
        ''nil reward balance'') (so_dirtyReward ob4) (acc_RewardRoot (so_data ob4)) = Ret rw"
    "ob' = (updData (acc_RewardRoot_update (\<lambda>_. rw)) ob4)\<lparr>so_dirtyReward := []\<rparr>"
    using ob4(2) by (auto simp: updateReward_conv bindGo_Ret_iff)
  have "so_data ob' = (so_data ob)\<lparr>acc_Root := acc_Root (so_data (stateObject_updateTrie ob)),
       acc_TX1Root := acc_TX1Root (so_data (stateObject_updateTX1Trie ob)),
       acc_TX3Root := acc_TX3Root (so_data (stateObject_updateTX3Trie ob)),
       acc_ProxiedRoot := Some pr, acc_RewardRoot := rw\<rparr>"
    using rw(2) pr(1) o3(4) by simp
  then show ?thesis
    by (rule that) (use pr(2) rw(1) pr(1) o3 in auto)
qed

lemma sum_dropped:
  fixes f :: "'b \<Rightarrow> int"
  assumes "finite {k. g k \<noteq> None}"
    and "\<And>k. g' k = g k \<or> g' k = None \<and> (\<exists>a. g k = Some a \<and> f a = 0)"
  shows "(\<Sum>k | g' k \<noteq> None. f (the (g' k))) = (\<Sum>k | g k \<noteq> None. f (the (g k)))"
proof -
  have "(\<Sum>k | g' k \<noteq> None. f (the (g' k))) = (\<Sum>k | g' k \<noteq> None. f (the (g k)))"
  proof (rule sum.cong [OF refl])
    fix k
    assume "k \<in> {k. g' k \<noteq> None}"
    then show "f (the (g' k)) = f (the (g k))" using assms(2) [of k] by auto
  qed
  also have "\<dots> = (\<Sum>k | g k \<noteq> None. f (the (g k)))"
  proof (rule sum.mono_neutral_left [OF assms(1)])
    show "{k. g' k \<noteq> None} \<subseteq> {k. g k \<noteq> None}"
    proof
      fix k
      assume "k \<in> {k. g' k \<noteq> None}"
      then show "k \<in> {k. g k \<noteq> None}" using assms(2) [of k] by auto
    qed
    show "\<forall>k \<in> {k. g k \<noteq> None} - {k. g' k \<noteq> None}. f (the (g k)) = 0"
    proof
      fix k
      assume "k \<in> {k. g k \<noteq> None} - {k. g' k \<noteq> None}"
      then show "f (the (g k)) = 0" using assms(2) [of k] by auto
    qed
  qed
  finally show ?thesis .
qed

lemma updateRoots_balanced:
  assumes "stateObject_updateRoots ob = Ret ob'" "obj_ok ob" "obalanced ob"
  shows "obalanced ob'" "obalanced (newObject a (so_data ob'))"
proof -
  obtain st tx1 tx3 pr rw where d: "so_data ob' = (so_data ob)\<lparr>acc_Root := st, acc_TX1Root := tx1,
      acc_TX3Root := tx3, acc_ProxiedRoot := Some pr, acc_RewardRoot := rw\<rparr>"
    and pr: "\<And>k. map_of pr k = stateObject_GetAccountProxiedBalance k ob
       \<or> map_of pr k = None \<and> (\<exists>a. stateObject_GetAccountProxiedBalance k ob = Some a
            \<and> AccountProxiedBalance_IsEmpty a)"
    using updateRoots_data [OF assms(1,2)] by metis
  let ?g = "\<lambda>k. stateObject_GetAccountProxiedBalance k ob"
  have get: "(\<lambda>k. stateObject_GetAccountProxiedBalance k ob') = map_of pr"
    using d updateRoots_frame(8) [OF assms(1)]
    by (simp add: stateObject_GetAccountProxiedBalance_def proxiedTrie_def fun_eq_iff)
  have fin: "finite {k. ?g k \<noteq> None}" using assms(3) by (simp add: obalanced_def vbalanced_def obj_view_def)
  have sub: "{k. map_of pr k \<noteq> None} \<subseteq> {k. ?g k \<noteq> None}"
  proof
    fix k
    assume "k \<in> {k. map_of pr k \<noteq> None}"
    then show "k \<in> {k. ?g k \<noteq> None}" using pr [of k] by auto
  qed
  have s: "(\<Sum>k | map_of pr k \<noteq> None. f (the (map_of pr k))) = (\<Sum>k | ?g k \<noteq> None. f (the (?g k)))"
    if "\<And>a. AccountProxiedBalance_IsEmpty a \<Longrightarrow> f a = 0" for f :: "accountProxiedBalance \<Rightarrow> int"
    by (rule sum_dropped [OF fin]) (use pr that in blast)
  have z: "AccountProxiedBalance_IsEmpty a \<Longrightarrow> apb_ProxiedBalance a = 0"
    "AccountProxiedBalance_IsEmpty a \<Longrightarrow> apb_DepositProxiedBalance a = 0"
    "AccountProxiedBalance_IsEmpty a \<Longrightarrow> apb_PendingRefundBalance a = 0" for a
    by (simp_all add: AccountProxiedBalance_IsEmpty_def)
  have "finite {k. map_of pr k \<noteq> None}" using finite_subset [OF sub fin] .
  then show b: "obalanced ob'"
    using assms(3) d s [of apb_ProxiedBalance, OF z(1)] s [of apb_DepositProxiedBalance, OF z(2)]
      s [of apb_PendingRefundBalance, OF z(3)] get
    by (simp add: obalanced_def vbalanced_def obj_view_def fun_eq_iff)
  show "obalanced (newObject a (so_data ob'))"
    using b obalanced_delegation [of "newObject a (so_data ob')" ob'] updateRoots_frame(8) [OF assms(1)]
    by (simp add: delegation_def newObject_def)
qed

section \<open>\<open>Finalise\<close> and \<open>Commit\<close>\<close>

text \<open>Writing one object, flushed or deleted, keeps the invariant.\<close>

lemma deleteStateObject_ok:
  assumes ok: "sdb_ok s" and o: "obj_ok ob" "dead ob"
  shows "sdb_ok (StateDB_deleteStateObject ob s)"
proof -
  have "dead (ob\<lparr>so_deleted := True\<rparr>)" "obj_ok (ob\<lparr>so_deleted := True\<rparr>)"
    using o by (simp_all add: dead_def stateObject_empty_def obj_ok_def)
  then show ?thesis using sdb_ok_D [OF ok]
    by (intro sdb_ok_I)
      (auto simp: StateDB_deleteStateObject_def StateDB_setStateObject_def Let_def update_conv' split: if_splits)
qed

lemma updateStateObject_ok:
  assumes ok: "sdb_ok s" and o: "obj_ok ob" "\<not> so_deleted ob"
  shows "sdb_ok (StateDB_updateStateObject ob (StateDB_setStateObject ob s))"
  using sdb_ok_D [OF ok] o
  by (intro sdb_ok_I)
    (auto simp: StateDB_updateStateObject_def StateDB_setStateObject_def update_conv' acc_ok_def obj_ok_def
      split: if_splits)

lemma wbalanced_alt: "wbalanced (world_of s) \<longleftrightarrow>
    (\<forall>a ob. StateDB_getStateObject s a = Some ob \<longrightarrow> obalanced ob)
    \<and> (\<forall>a d. tr_accounts (sdb_trie s) a = Some d \<longrightarrow> obalanced (newObject a d))"
  by (simp add: wbalanced_def world_of_def vbalanced_codes [where codes = "sdb_codes s", symmetric]) blast

lemma deleteStateObject_balanced:
  assumes "wbalanced (world_of s)"
  shows "wbalanced (world_of (StateDB_deleteStateObject ob s))"
proof -
  let ?s = "StateDB_deleteStateObject ob s"
  have "StateDB_getStateObject ?s a = (if a = so_address ob then None else StateDB_getStateObject s a)" for a
    by (auto simp: StateDB_getStateObject_def StateDB_deleteStateObject_def StateDB_setStateObject_def
        Let_def update_conv' cong: option.case_cong)
  moreover have "tr_accounts (sdb_trie ?s) a = (if a = so_address ob then None else tr_accounts (sdb_trie s) a)" for a
    by (simp add: StateDB_deleteStateObject_def StateDB_setStateObject_def Let_def)
  ultimately show ?thesis using assms unfolding wbalanced_alt by simp
qed

lemma updateStateObject_balanced:
  assumes "wbalanced (world_of s)" "obalanced ob" "obalanced (newObject (so_address ob) (so_data ob))"
    "\<not> so_deleted ob"
  shows "wbalanced (world_of (StateDB_updateStateObject ob (StateDB_setStateObject ob s)))"
proof -
  let ?s = "StateDB_updateStateObject ob (StateDB_setStateObject ob s)"
  have "StateDB_getStateObject ?s a = (if a = so_address ob then Some ob else StateDB_getStateObject s a)" for a
    using assms(4) by (auto simp: StateDB_getStateObject_def StateDB_updateStateObject_def
        StateDB_setStateObject_def update_conv' cong: option.case_cong)
  moreover have "tr_accounts (sdb_trie ?s) a
      = (if a = so_address ob then Some (so_data ob) else tr_accounts (sdb_trie s) a)" for a
    by (simp add: StateDB_updateStateObject_def StateDB_setStateObject_def)
  ultimately show ?thesis using assms unfolding wbalanced_alt by simp
qed

definition sdb_good :: "stateDB \<Rightarrow> bool" where
  "sdb_good s \<longleftrightarrow> sdb_ok s \<and> wbalanced (world_of s)"

lemma live_object:
  assumes "sdb_good s" "map_of (sdb_stateObjects s) a = Some ob" "\<not> so_deleted ob"
  shows "obalanced ob"
proof -
  have "StateDB_getStateObject s a = Some ob" using assms(2,3) by (simp add: StateDB_getStateObject_def)
  then show ?thesis using assms(1) unfolding sdb_good_def wbalanced_alt by blast
qed

lemma finaliseObject_good:
  assumes "sdb_good s" "finaliseObject True addr s = Ret s'"
  shows "sdb_good s'"
proof -
  obtain ob where ob: "map_of (sdb_stateObjects s) addr = Some ob"
    using assms(2) by (auto simp: finaliseObject_def split: option.splits)
  have ok: "sdb_ok s" "wbalanced (world_of s)" using assms(1) by (auto simp: sdb_good_def)
  have o: "obj_ok ob" "so_deleted ob \<longrightarrow> dead ob" using sdb_ok_D(1) [OF ok(1) ob] by auto
  show ?thesis
  proof (cases "dead ob")
    case True
    then have "s' = StateDB_deleteStateObject ob s"
      using assms(2) ob by (simp add: finaliseObject_def dead_def)
    then show ?thesis
      using deleteStateObject_ok [OF ok(1) o(1) True] deleteStateObject_balanced [OF ok(2)]
      by (simp add: sdb_good_def)
  next
    case False
    then obtain ob1 where ob1: "stateObject_updateRoots ob = Ret ob1"
      "s' = StateDB_updateStateObject ob1 (StateDB_setStateObject ob1 s)"
      using assms(2) ob by (auto simp: finaliseObject_def dead_def bindGo_Ret_iff)
    have d: "\<not> so_deleted ob" "\<not> so_deleted ob1" using False o updateRoots_frame(2) [OF ob1(1)] by auto
    note bal = updateRoots_balanced [OF ob1(1) o(1) live_object [OF assms(1) ob d(1)]]
    show ?thesis
      using updateStateObject_ok [OF ok(1) updateRoots_ok [OF ob1(1) o(1)] d(2)]
        updateStateObject_balanced [OF ok(2) bal(1) bal(2) d(2)] ob1(2)
      by (simp add: sdb_good_def)
  qed
qed

lemma foldGo_invariant:
  assumes "foldGo f xs s = Ret s'" "P s" "\<And>x s s'. x \<in> set xs \<Longrightarrow> P s \<Longrightarrow> f x s = Ret s' \<Longrightarrow> P s'"
  shows "P s'"
  using assms by (induction xs arbitrary: s) (auto simp: bindGo_Ret_iff)

lemma commitSets_frame:
  "sdb_codes (commitSets s) = sdb_codes s" "sdb_stateObjects (commitSets s) = sdb_stateObjects s"
  "tr_accounts (sdb_trie (commitSets s)) = tr_accounts (sdb_trie s)"
  "sdb_journal (commitSets s) = sdb_journal s" "sdb_stateObjectsDirty (commitSets s) = sdb_stateObjectsDirty s"
  by (simp_all add: commitSets_def Let_def StateDB_commitDelegateRefundSet_def StateDB_commitRewardSet_def
      StateDB_commitCandidateSet_def StateDB_commitBannedSet_def StateDB_commitSideChainRewardPerBlock_def)

lemma sdb_good_cong:
  assumes "sdb_good s" "sdb_stateObjects s' = sdb_stateObjects s"
    "tr_accounts (sdb_trie s') = tr_accounts (sdb_trie s)" "set (sdb_journal s') \<subseteq> set (sdb_journal s)"
  shows "sdb_good s'"
proof -
  have "StateDB_getStateObject s' = StateDB_getStateObject s"
    using assms(2,3) by (simp add: StateDB_getStateObject_def fun_eq_iff cong: option.case_cong)
  then have "wbalanced (world_of s')" using assms unfolding sdb_good_def wbalanced_alt by simp
  moreover have "sdb_ok s'" using assms by (auto simp: sdb_good_def sdb_ok_def)
  ultimately show ?thesis by (simp add: sdb_good_def)
qed

lemma Finalise_good:
  assumes "sdb_good s" "StateDB_Finalise True s = Ret s'"
  shows "sdb_good s' \<and> sdb_journal s' = [] \<and> sdb_validRevisions s' = []"
proof -
  obtain s1 where s1: "foldGo (finaliseObject True) (sdb_stateObjectsDirty s) s = Ret s1"
    "s' = StateDB_clearJournalAndRefund (commitSets s1)"
    using assms(2) by (auto simp: StateDB_Finalise_def bindGo_Ret_iff)
  have "sdb_good s1" by (rule foldGo_invariant [where P = sdb_good, OF s1(1) assms(1)]) (rule finaliseObject_good)
  then have "sdb_good s'"
    by (rule sdb_good_cong) (simp_all add: s1(2) StateDB_clearJournalAndRefund_def commitSets_frame)
  then show ?thesis by (simp add: s1(2) StateDB_clearJournalAndRefund_def)
qed

lemma commitObject_good:
  assumes good: "sdb_good s" and st: "commitObject True (addr, ob) s = Ret s'"
    and o: "so_address ob = addr" "obj_ok ob" "so_deleted ob \<longrightarrow> dead ob" "\<not> so_deleted ob \<longrightarrow> obalanced ob"
  shows "sdb_good s'"
proof -
  have ok: "sdb_ok s" "wbalanced (world_of s)" using good by (auto simp: sdb_good_def)
  have dirty: "sdb_good t \<Longrightarrow> sdb_good (t\<lparr>sdb_stateObjectsDirty := D\<rparr>)" for t D
    using sdb_good_cong [of t "t\<lparr>sdb_stateObjectsDirty := D\<rparr>"] by simp
  let ?dirty = "addr \<in> set (sdb_stateObjectsDirty s)"
  consider (del) "so_suicided ob \<or> ?dirty \<and> stateObject_empty ob"
    | (upd) "\<not> (so_suicided ob \<or> ?dirty \<and> stateObject_empty ob)" "?dirty"
    | (skip) "\<not> (so_suicided ob \<or> ?dirty \<and> stateObject_empty ob)" "\<not> ?dirty" by blast
  then show ?thesis
  proof cases
    case del
    then have "dead ob" by (auto simp: dead_def)
    then have "sdb_good (StateDB_deleteStateObject ob s)"
      using deleteStateObject_ok [OF ok(1) o(2)] deleteStateObject_balanced [OF ok(2)] by (simp add: sdb_good_def)
    then show ?thesis using del st dirty by (auto simp: commitObject_def)
  next
    case upd
    then have nd: "\<not> so_deleted ob" using o(3) by (auto simp: dead_def)
    let ?s1 = "case so_code ob of
        Some code \<Rightarrow> if so_dirtyCode ob
          then s\<lparr>sdb_codes := (sdb_codes s)(BytesToHash (acc_CodeHash (so_data ob)) \<mapsto> code)\<rparr> else s
      | None \<Rightarrow> s"
    let ?ob1 = "if so_code ob \<noteq> None then ob\<lparr>so_dirtyCode := False\<rparr> else ob"
    have s1: "sdb_good ?s1"
      by (rule sdb_good_cong [OF good]) (auto split: option.split)
    obtain ob2 where ob2: "stateObject_updateRoots ?ob1 = Ret ob2"
      "s' = (StateDB_updateStateObject ob2 (StateDB_setStateObject ob2 ?s1))
         \<lparr>sdb_stateObjectsDirty := removeAll addr (sdb_stateObjectsDirty
            (StateDB_updateStateObject ob2 (StateDB_setStateObject ob2 ?s1)))\<rparr>"
      using upd st by (simp only: commitObject_def prod.case Let_def if_True if_False simp_thms bindGo_Ret_iff) auto
    have o1: "obj_ok ?ob1" "obalanced ?ob1" "\<not> so_deleted ?ob1"
      using o nd obalanced_delegation [of ?ob1 ob] by (auto simp: obj_ok_def delegation_def)
    have d2: "\<not> so_deleted ob2" using o1(3) updateRoots_frame(2) [OF ob2(1)] by simp
    note bal = updateRoots_balanced [OF ob2(1) o1(1,2)]
    have "sdb_good (StateDB_updateStateObject ob2 (StateDB_setStateObject ob2 ?s1))"
      using updateStateObject_ok [OF _ updateRoots_ok [OF ob2(1) o1(1)] d2, of ?s1]
        updateStateObject_balanced [OF _ bal(1) bal(2) d2, of ?s1] s1
      by (simp add: sdb_good_def)
    then show ?thesis using ob2(2) dirty by simp
  next
    case skip
    then show ?thesis using st dirty [OF good] good by (auto simp: commitObject_def)
  qed
qed

lemma Commit_good:
  assumes good: "sdb_good s" and c: "StateDB_Commit True s = Ret s'"
  shows "sdb_good s' \<and> sdb_journal s' = [] \<and> sdb_validRevisions s' = []"
proof -
  obtain s1 where s1: "foldGo (commitObject True) (sdb_stateObjects s) s = Ret s1"
    "s' = StateDB_clearJournalAndRefund (clearSetFlags (commitSets s1))"
    using c by (auto simp: StateDB_Commit_def bindGo_Ret_iff)
  have ok: "sdb_ok s" using good by (simp add: sdb_good_def)
  have "sdb_good s1"
  proof (rule foldGo_invariant [where P = sdb_good, OF s1(1) good])
    fix x t t'
    assume x: "x \<in> set (sdb_stateObjects s)" and t: "sdb_good t" "commitObject True x t = Ret t'"
    obtain a ob where p: "x = (a, ob)" by (cases x)
    have m: "map_of (sdb_stateObjects s) a = Some ob" using x p sdb_ok_D(4) [OF ok] by simp
    show "sdb_good t'"
      by (rule commitObject_good [OF t(1) t(2) [unfolded p]])
        (use sdb_ok_D(1) [OF ok m] live_object [OF good m] in auto)
  qed
  then have "sdb_good s'"
    by (rule sdb_good_cong)
      (simp_all add: s1(2) StateDB_clearJournalAndRefund_def clearSetFlags_def commitSets_frame)
  then show ?thesis by (simp add: s1(2) StateDB_clearJournalAndRefund_def)
qed

section \<open>Reachable databases\<close>

definition trie_ok :: "accountTrie \<Rightarrow> bool" where
  "trie_ok tr \<longleftrightarrow> (\<forall>a d. tr_accounts tr a = Some d \<longrightarrow> acc_ok d \<and> obalanced (newObject a d))"

text \<open>
  A database is opened over a trie, changed by its methods (with \<open>Snapshot\<close> and
  \<open>RevertToSnapshot\<close> in any order), finalised, committed or reset, always with the deletion of
  empty accounts that the chain configuration prescribes.
\<close>

inductive sdb_reachable :: "(bytes \<Rightarrow> bytes) \<Rightarrow> stateDB \<Rightarrow> bool" for keccak where
  New: "trie_ok tr \<Longrightarrow> sdb_reachable keccak (StateDB_New codes tr)"
| Step: "sdb_reachable keccak s \<Longrightarrow> sdb_step keccak k s s' \<Longrightarrow> sdb_reachable keccak s'"
| Finalise: "sdb_reachable keccak s \<Longrightarrow> StateDB_Finalise True s = Ret s' \<Longrightarrow> sdb_reachable keccak s'"
| Commit: "sdb_reachable keccak s \<Longrightarrow> StateDB_Commit True s = Ret s' \<Longrightarrow> sdb_reachable keccak s'"
| Reset: "sdb_reachable keccak s \<Longrightarrow> trie_ok tr \<Longrightarrow> sdb_reachable keccak (StateDB_Reset tr s)"

text \<open>
  The invariant with its history: the state of every valid revision, which a revert brings back,
  is balanced too.
\<close>

definition history_ok :: "stateDB \<Rightarrow> bool" where
  "history_ok s \<longleftrightarrow> (\<forall>r \<in> set (sdb_validRevisions s).
    \<exists>w. foldGo aundo (rev (drop (rev_journalIndex r) (sdb_journal s))) (world_of s) = Ret w \<and> wbalanced w)"

definition sdb_all :: "stateDB \<Rightarrow> bool" where
  "sdb_all s \<longleftrightarrow> sdb_good s \<and> revs_ok s \<and> history_ok s"

lemma empty_log: "sdb_good s \<Longrightarrow> sdb_journal s = [] \<Longrightarrow> sdb_validRevisions s = [] \<Longrightarrow> sdb_all s"
  by (simp add: sdb_all_def revs_ok_def history_ok_def)

lemma fresh_good:
  assumes "trie_ok (sdb_trie s)" "sdb_stateObjects s = []" "sdb_journal s = []"
  shows "sdb_good s"
proof -
  have "wbalanced (world_of s)"
    using assms(1,2) unfolding wbalanced_alt
    by (auto simp: StateDB_getStateObject_def trie_ok_def)
  then show ?thesis using assms by (auto simp: sdb_good_def sdb_ok_def trie_ok_def)
qed

lemma history_extends:
  assumes h: "history_ok s" and r: "revs_ok s" and e: "sdb.extends s s'" and m: "marks s' = marks s"
  shows "history_ok s'"
proof -
  obtain es where es: "sdb_journal s' = sdb_journal s @ es"
    "foldGo aundo (rev es) (world_of s') = Ret (world_of s)"
    using e by (auto simp: sdb.extends_def)
  show ?thesis unfolding history_ok_def
  proof
    fix x
    assume "x \<in> set (sdb_validRevisions s')"
    then have x: "x \<in> set (sdb_validRevisions s)" using m by (simp add: marks_def)
    then have "rev_journalIndex x \<le> length (sdb_journal s)" using r by (auto simp: revs_ok_def)
    then have "rev (drop (rev_journalIndex x) (sdb_journal s'))
        = rev es @ rev (drop (rev_journalIndex x) (sdb_journal s))"
      using es(1) by simp
    then show "\<exists>w. foldGo aundo (rev (drop (rev_journalIndex x) (sdb_journal s'))) (world_of s') = Ret w
        \<and> wbalanced w"
      using h x es(2) by (auto simp: history_ok_def foldGo_append)
  qed
qed

lemma all_undoes:
  assumes a: "sdb_all s" and u: "undoes s s'" and k: "wkeeps s s'"
  shows "sdb_all s'"
proof -
  have ok: "sdb_ok s" "wbalanced (world_of s)" "revs_ok s" "history_ok s"
    using a by (auto simp: sdb_all_def sdb_good_def)
  have e: "sdb.extends s s'" "marks s' = marks s" using u ok(1) by (auto simp: undoes_def)
  have "revs_ok s'" using ok(3) e(2) extends_length [OF e(1)] by (auto simp: revs_ok_def marks_def)
  moreover have "sdb_ok s'" using e(1) by (simp add: sdb.extends_def)
  ultimately show ?thesis
    using k ok history_extends [OF ok(4,3) e] by (simp add: sdb_all_def sdb_good_def wkeeps_def)
qed

lemma all_Snapshot:
  assumes "sdb_all s"
  shows "sdb_all (fst (StateDB_Snapshot s))"
proof -
  let ?s = "fst (StateDB_Snapshot s)"
  have w: "world_of ?s = world_of s" by (rule world_of_cong) (simp_all add: StateDB_Snapshot_def Let_def)
  have "sdb_good ?s" using assms sdb_good_cong [of s ?s]
    by (simp add: sdb_all_def StateDB_Snapshot_def Let_def)
  moreover have "revs_ok ?s" using assms
    by (auto simp: sdb_all_def revs_ok_def StateDB_Snapshot_def Let_def sorted_wrt_append sorted_append)
  moreover have "history_ok ?s" using assms unfolding history_ok_def w
    by (auto simp: sdb_all_def sdb_good_def history_ok_def StateDB_Snapshot_def Let_def)
  ultimately show ?thesis by (simp add: sdb_all_def)
qed

lemma all_Revert:
  assumes a: "sdb_all s" and r: "StateDB_RevertToSnapshot revid s = Ret s'"
  shows "sdb_all s'"
proof -
  have ok: "sdb_ok s" "revs_ok s" "history_ok s" using a by (auto simp: sdb_all_def sdb_good_def)
  obtain ps x qs where p: "sdb_validRevisions s = ps @ x # qs" "rev_id x = revid"
    using Revert_found [OF r] by blast
  let ?n = "rev_journalIndex x"
  obtain w where w: "foldGo aundo (rev (drop ?n (sdb_journal s))) (world_of s) = Ret w" "wbalanced w"
    using ok(3) p(1) by (auto simp: history_ok_def)
  have "set (rev (drop ?n (sdb_journal s))) \<subseteq> set (sdb_journal s)" by (auto dest: in_set_dropD)
  from sdb.undo_all [OF ok(1) this w(1)] obtain s1 where s1:
    "foldGo undo (rev (drop ?n (sdb_journal s))) s = Ret s1" "world_of s1 = w" "sdb_ok s1"
    "sdb_journal s1 = sdb_journal s" "marks s1 = marks s" by blast
  have s': "s' = s1\<lparr>sdb_journal := take ?n (sdb_journal s), sdb_validRevisions := ps\<rparr>"
    using r find_revision [OF ok(2) p(1)] p s1(1,4,5) by (simp add: StateDB_RevertToSnapshot_def marks_def)
  have w': "world_of s' = w" using s' s1(2) world_of_cong [of s' s1] by simp
  have le: "?n \<le> length (sdb_journal s)" using ok(2) p(1) by (auto simp: revs_ok_def)
  have g1: "sdb_good s1" using s1(2,3) w(2) by (simp add: sdb_good_def)
  have "sdb_good s'"
    by (rule sdb_good_cong [OF g1]) (simp_all add: s' s1(4) set_take_subset)
  moreover have "revs_ok s'" using ok(2) p(1) le s' s1(5)
    by (auto simp: revs_ok_def sorted_wrt_append sorted_append marks_def)
  moreover have "history_ok s'" unfolding history_ok_def
  proof
    fix y
    assume "y \<in> set (sdb_validRevisions s')"
    then have y: "y \<in> set ps" using s' by simp
    then have le2: "rev_journalIndex y \<le> ?n" using ok(2) p(1) by (auto simp: revs_ok_def sorted_append)
    have "drop (rev_journalIndex y) (sdb_journal s)
        = drop (rev_journalIndex y) (take ?n (sdb_journal s)) @ drop ?n (sdb_journal s)"
      using drop_append [of "rev_journalIndex y" "take ?n (sdb_journal s)" "drop ?n (sdb_journal s)"] le le2
      by simp
    then have eq: "foldGo aundo (rev (drop (rev_journalIndex y) (sdb_journal s))) (world_of s)
        = foldGo aundo (rev (drop (rev_journalIndex y) (sdb_journal s'))) (world_of s')"
      using w(1) w' s' by (simp add: foldGo_append)
    have "y \<in> set (sdb_validRevisions s)" using p(1) y by simp
    then show "\<exists>w. foldGo aundo (rev (drop (rev_journalIndex y) (sdb_journal s'))) (world_of s') = Ret w
        \<and> wbalanced w"
      using ok(3) unfolding history_ok_def eq [symmetric] by blast
  qed
  ultimately show ?thesis by (simp add: sdb_all_def)
qed

lemma all_step: "sdb_all s \<Longrightarrow> sdb_step keccak k s s' \<Longrightarrow> sdb_all s'"
proof -
  assume a: "sdb_all s" and st: "sdb_step keccak k s s'"
  consider (undo) "undoes s s'" "wkeeps s s'" | (snap) "s' = fst (StateDB_Snapshot s)"
    | (rev) revid where "StateDB_RevertToSnapshot revid s = Ret s'"
    using step_undoes [OF st] step_keeps [OF st] by blast
  then show ?thesis
  proof cases
    case undo
    then show ?thesis using all_undoes [OF a] by blast
  next
    case snap
    then show ?thesis using all_Snapshot [OF a] by simp
  next
    case (rev revid)
    then show ?thesis using all_Revert [OF a] by blast
  qed
qed

lemma reachable_all: "sdb_reachable keccak s \<Longrightarrow> sdb_all s"
proof (induction rule: sdb_reachable.induct)
  case (New tr codes)
  then show ?case
    by (intro empty_log fresh_good) (simp_all add: StateDB_New_def)
next
  case (Step s k s')
  then show ?case using all_step [OF Step.IH Step.hyps(2)] by blast
next
  case (Finalise s s')
  then show ?case using Finalise_good [of s s'] by (auto simp: sdb_all_def [of s] intro: empty_log)
next
  case (Commit s s')
  then show ?case using Commit_good [of s s'] by (auto simp: sdb_all_def [of s] intro: empty_log)
next
  case (Reset s tr)
  then show ?case
    by (intro empty_log fresh_good) (simp_all add: StateDB_Reset_def StateDB_clearJournalAndRefund_def)
qed

lemma sdb_reachable_inv: "sdb_reachable keccak s \<Longrightarrow> sdb_inv s"
  using reachable_all by (auto simp: sdb_all_def sdb_good_def sdb_inv_def)

end
