(* ===== verification/State_Persist.thy ===== *)
theory State_Persist
  imports State_Reachable
begin

text \<open>
  What survives \<open>Finalise\<close>: a database opened over the resulting trie answers for every written
  account as the finalised database did. Cross-chain transaction markers and the address sets
  have their own statements.
\<close>

section \<open>Storage values\<close>

lemma trimLeft_pad:
  assumes "length v = 32"
  shows "BytesToHash (trimLeft v) = v"
proof -
  let ?z = "takeWhile (\<lambda>x. x = 0) v"
  have z: "?z = replicate (length ?z) 0"
    by (metis (mono_tags, lifting) replicate_length_same set_takeWhileD)
  have v: "v = ?z @ trimLeft v" by (simp add: trimLeft_def)
  then have "length ?z = 32 - length (trimLeft v)" "length (trimLeft v) \<le> 32"
    using assms by (metis add_diff_cancel_right' length_append, metis assms le_add2 length_append)
  then show ?thesis using v z by (simp add: BytesToHash_def)
qed

text \<open>The storage trie after the dirty entries are written.\<close>

lemma storage_flush:
  assumes "distinct (map fst al)" "\<And>k. k \<in> fst ` set al \<Longrightarrow> map_of tr k = map_of tr0 k"
    and step: "step = (\<lambda>(key, v) tr. if v = c key then tr
       else if v = zeroHash then AList.delete key tr else AList.update key (trimLeft v) tr)"
  shows "map_of (fold step al tr) k = (case map_of al k of
      None \<Rightarrow> map_of tr k
    | Some v \<Rightarrow> if v = c k then map_of tr0 k else if v = zeroHash then None else Some (trimLeft v))"
  using assms(1,2)
proof (induction al arbitrary: tr)
  case Nil
  then show ?case by simp
next
  case (Cons x al)
  obtain key v where x: "x = (key, v)" by (cases x)
  let ?t = "step (key, v) tr"
  have m: "map_of ?t = (if v = c key then map_of tr
      else if v = zeroHash then (map_of tr)(key := None) else (map_of tr)(key \<mapsto> trimLeft v))"
    by (simp add: step delete_conv' update_conv')
  have nk: "key \<notin> fst ` set al" using Cons.prems(1) x by auto
  have "map_of ?t j = map_of tr0 j" if "j \<in> fst ` set al" for j
    using Cons.prems(2) [of j] that nk x m by auto
  from Cons.IH [OF _ this] Cons.prems(1) x have
    ih: "map_of (fold step al ?t) k = (case map_of al k of None \<Rightarrow> map_of ?t k
      | Some v \<Rightarrow> if v = c k then map_of tr0 k else if v = zeroHash then None else Some (trimLeft v))"
    by simp
  show ?case
  proof (cases "k = key")
    case True
    then have "map_of al k = None" using nk by (simp add: map_of_eq_None_iff)
    moreover have "map_of tr key = map_of tr0 key" using Cons.prems(2) [of key] x by simp
    ultimately show ?thesis using ih True x m by auto
  next
    case False
    then have "map_of ?t k = map_of tr k" using m by simp
    then show ?thesis using ih False x by (simp cong: option.case_cong)
  qed
qed

definition storage_ok :: "stateObject \<Rightarrow> bool" where
  "storage_ok ob \<longleftrightarrow> (\<forall>(k, v) \<in> set (so_dirtyStorage ob). length v = 32)"

lemma updateTrie_state:
  assumes "obj_ok ob" "storage_ok ob"
  shows "(case map_of (acc_Root (so_data (stateObject_updateTrie ob))) k of
      Some content \<Rightarrow> BytesToHash content | None \<Rightarrow> zeroHash) = stateObject_GetState k ob"
proof -
  let ?c = "\<lambda>k. stateObject_GetCommittedState k ob"
  define step where "step = (\<lambda>(key, v) tr. if v = ?c key then tr
       else if v = zeroHash then AList.delete key tr else AList.update key (trimLeft v) tr)"
  have root: "acc_Root (so_data (stateObject_updateTrie ob))
      = fold step (so_dirtyStorage ob) (acc_Root (so_data ob))"
    by (simp add: stateObject_updateTrie_def step_def Let_def)
  have m: "map_of (fold step (so_dirtyStorage ob) (acc_Root (so_data ob))) k
     = (case map_of (so_dirtyStorage ob) k of
      None \<Rightarrow> map_of (acc_Root (so_data ob)) k
    | Some v \<Rightarrow> if v = ?c k then map_of (acc_Root (so_data ob)) k
        else if v = zeroHash then None else Some (trimLeft v))"
    by (rule storage_flush [OF _ _ step_def]) (use assms(1) in \<open>auto simp: obj_ok_def\<close>)
  show ?thesis
  proof (cases "map_of (so_dirtyStorage ob) k")
    case None
    then show ?thesis using m root by (simp add: stateObject_GetState_def stateObject_GetCommittedState_def)
  next
    case (Some v)
    then have "length v = 32" using assms(2) map_of_SomeD [OF Some] by (auto simp: storage_ok_def)
    then show ?thesis using m root Some
      by (auto simp: stateObject_GetState_def trimLeft_pad stateObject_GetCommittedState_def)
  qed
qed

section \<open>The account after it is written\<close>

text \<open>Two objects that answer every query on the account alike, transaction markers apart.\<close>

definition answers where
  "answers ob = ((so_data ob)\<lparr>acc_Root := [], acc_TX1Root := [], acc_TX3Root := [],
      acc_ProxiedRoot := None, acc_RewardRoot := []\<rparr>,
    \<lambda>k. stateObject_GetState k ob, \<lambda>u. apbOrNew u ob,
    \<lambda>d. case stateObject_GetDelegateRewardBalance d ob of None \<Rightarrow> 0 | Some b \<Rightarrow> b)"

definition same_account :: "stateObject \<Rightarrow> stateObject \<Rightarrow> bool" where
  "same_account ob ob' \<longleftrightarrow> answers ob' = answers ob"

lemma same_account_refl: "same_account ob ob"
  by (simp add: same_account_def)

lemma same_account_trans: "same_account a b \<Longrightarrow> same_account b c \<Longrightarrow> same_account a c"
  by (simp add: same_account_def)

lemma IsEmpty_iff: "AccountProxiedBalance_IsEmpty a \<longleftrightarrow> a = NewAccountProxiedBalance"
  by (cases a) (simp add: AccountProxiedBalance_IsEmpty_def NewAccountProxiedBalance_def)

lemma updateRoots_same:
  assumes "stateObject_updateRoots ob = Ret ob'" "obj_ok ob" "storage_ok ob"
  shows "same_account ob ob'" "same_account ob (newObject a (so_data ob'))"
proof -
  obtain st tx1 tx3 pr rw where d: "so_data ob' = (so_data ob)\<lparr>acc_Root := st, acc_TX1Root := tx1,
      acc_TX3Root := tx3, acc_ProxiedRoot := Some pr, acc_RewardRoot := rw\<rparr>"
    and pr: "\<And>k. map_of pr k = stateObject_GetAccountProxiedBalance k ob
       \<or> map_of pr k = None \<and> (\<exists>a. stateObject_GetAccountProxiedBalance k ob = Some a
            \<and> AccountProxiedBalance_IsEmpty a)"
    and st: "st = acc_Root (so_data (stateObject_updateTrie ob))"
    and rw: "foldGo (flushStep (map_of (acc_RewardRoot (so_data ob))) (\<lambda>a. a = 0) ''nil reward balance'')
       (so_dirtyReward ob) (acc_RewardRoot (so_data ob)) = Ret rw"
    by (rule updateRoots_data [OF assms(1,2)]) blast
  have reward: "(case map_of rw k of None \<Rightarrow> 0 | Some b \<Rightarrow> b)
      = (case stateObject_GetDelegateRewardBalance k ob of None \<Rightarrow> 0 | Some b \<Rightarrow> b)" for k
    using flush_lookup [OF _ rw, of k] assms(2)
    by (cases "map_of (so_dirtyReward ob) k")
      (auto simp: obj_ok_def stateObject_GetDelegateRewardBalance_def split: option.split)
  have entry: "(case map_of pr k of None \<Rightarrow> NewAccountProxiedBalance | Some b \<Rightarrow> b) = apbOrNew k ob" for k
    using pr [of k] by (auto simp: apbOrNew_def IsEmpty_iff)
  have s: "same_account ob x" if "so_data x = so_data ob'" "so_dirtyStorage x = []" "so_dirtyProxied x = []"
    "so_dirtyReward x = []" for x
  proof -
    have "stateObject_GetState k x = stateObject_GetState k ob" for k
      using updateTrie_state [OF assms(2,3), of k] that d st
      by (simp add: stateObject_GetState_def [of k x] stateObject_GetCommittedState_def)
    moreover have "apbOrNew u x = apbOrNew u ob" for u
      using entry [of u] that d
      by (simp add: apbOrNew_def [of u x] stateObject_GetAccountProxiedBalance_def proxiedTrie_def)
    moreover have "(case stateObject_GetDelegateRewardBalance k x of None \<Rightarrow> 0 | Some b \<Rightarrow> b)
         = (case stateObject_GetDelegateRewardBalance k ob of None \<Rightarrow> 0 | Some b \<Rightarrow> b)" for k
      using reward [of k] that d by (simp add: stateObject_GetDelegateRewardBalance_def [of k x])
    ultimately show ?thesis unfolding same_account_def answers_def using that d by simp
  qed
  note f = updateRoots_frame [OF assms(1)]
  show "same_account ob ob'" by (rule s) (use f in simp_all)
  have "acc_CodeHash (so_data ob') \<noteq> []" using assms(2) f(5) by (auto simp: obj_ok_def)
  then show "same_account ob (newObject a (so_data ob'))"
    by (intro s) (simp_all add: newObject_def)
qed

section \<open>The loop of \<open>Finalise\<close>\<close>

definition written :: "address \<Rightarrow> stateObject \<Rightarrow> stateDB \<Rightarrow> bool" where
  "written a ob t \<longleftrightarrow> (if dead ob then tr_accounts (sdb_trie t) a = None
    else \<exists>d. tr_accounts (sdb_trie t) a = Some d \<and> same_account ob (newObject a d))"

definition pending :: "address \<Rightarrow> stateObject \<Rightarrow> stateDB \<Rightarrow> bool" where
  "pending a ob t \<longleftrightarrow> sdb_good t \<and> (\<exists>ob'. map_of (sdb_stateObjects t) a = Some ob' \<and> dead ob' = dead ob
    \<and> same_account ob ob' \<and> storage_ok ob')"

lemma finaliseObject_at:
  assumes p: "pending a ob t" and f: "finaliseObject True a t = Ret t'"
  shows "pending a ob t' \<and> written a ob t'"
proof -
  have good: "sdb_good t'" using finaliseObject_good [OF _ f] p by (simp add: pending_def)
  obtain ob' where ob': "map_of (sdb_stateObjects t) a = Some ob'" "dead ob' = dead ob" "same_account ob ob'"
    "storage_ok ob'" and ok: "sdb_ok t"
    using p by (auto simp: pending_def sdb_good_def)
  have o: "so_address ob' = a" "obj_ok ob'" using sdb_ok_D(1) [OF ok ob'(1)] by auto
  show ?thesis
  proof (cases "dead ob'")
    case True
    then have t': "t' = StateDB_deleteStateObject ob' t" using f ob'(1) by (simp add: finaliseObject_def dead_def)
    have "answers (ob'\<lparr>so_deleted := True\<rparr>) = answers ob'"
      by (simp add: answers_def apbOrNew_def object_getters cong: option.case_cong)
    moreover have "dead (ob'\<lparr>so_deleted := True\<rparr>) = dead ob'" "storage_ok (ob'\<lparr>so_deleted := True\<rparr>) = storage_ok ob'"
      by (simp_all add: dead_def stateObject_empty_def storage_ok_def)
    ultimately show ?thesis using good True ob' o t'
      by (simp add: pending_def written_def same_account_def StateDB_deleteStateObject_def
          StateDB_setStateObject_def Let_def update_conv')
  next
    case False
    then obtain ob1 where ob1: "stateObject_updateRoots ob' = Ret ob1"
      "t' = StateDB_updateStateObject ob1 (StateDB_setStateObject ob1 t)"
      using f ob'(1) by (auto simp: finaliseObject_def dead_def bindGo_Ret_iff)
    note fr = updateRoots_frame [OF ob1(1)]
    have "dead ob1 = dead ob'" "storage_ok ob1" using fr by (simp_all add: dead_def storage_ok_def)
    moreover have "same_account ob ob1" "same_account ob (newObject a (so_data ob1))"
      using updateRoots_same [OF ob1(1) o(2) ob'(4)] same_account_trans [OF ob'(3)] by blast+
    ultimately show ?thesis using good False ob' o fr ob1(2)
      by (simp add: pending_def written_def StateDB_updateStateObject_def StateDB_setStateObject_def update_conv')
  qed
qed

lemma finaliseObject_other:
  assumes "b \<noteq> a" "finaliseObject True b t = Ret t'" "sdb_good t"
  shows "map_of (sdb_stateObjects t') a = map_of (sdb_stateObjects t) a"
    "tr_accounts (sdb_trie t') a = tr_accounts (sdb_trie t) a"
proof -
  obtain ob where ob: "map_of (sdb_stateObjects t) b = Some ob"
    using assms(2) by (auto simp: finaliseObject_def split: option.splits)
  have "so_address ob = b" using sdb_ok_D(1) [OF _ ob] assms(3) by (simp add: sdb_good_def)
  then show "map_of (sdb_stateObjects t') a = map_of (sdb_stateObjects t) a"
    "tr_accounts (sdb_trie t') a = tr_accounts (sdb_trie t) a"
    using assms(1,2) ob updateRoots_frame(1)
    by (auto simp: finaliseObject_def bindGo_Ret_iff StateDB_deleteStateObject_def StateDB_setStateObject_def
        StateDB_updateStateObject_def Let_def update_conv' split: if_splits)
qed

lemma finalise_loop:
  assumes "foldGo (finaliseObject True) xs t = Ret t'" "pending a ob t" "a \<in> set xs \<or> written a ob t"
  shows "written a ob t'"
  using assms
proof (induction xs arbitrary: t)
  case (Cons b xs)
  obtain t1 where t1: "finaliseObject True b t = Ret t1" "foldGo (finaliseObject True) xs t1 = Ret t'"
    using Cons.prems(1) by (auto simp: bindGo_Ret_iff)
  show ?case
  proof (cases "b = a")
    case True
    then have "pending a ob t1 \<and> written a ob t1" using finaliseObject_at [OF Cons.prems(2)] t1(1) by simp
    then show ?thesis using Cons.IH [OF t1(2)] by blast
  next
    case False
    have g: "sdb_good t" "sdb_good t1" using Cons.prems(2) finaliseObject_good [OF _ t1(1)] by (auto simp: pending_def)
    note o = finaliseObject_other [OF False t1(1) g(1)]
    have "pending a ob t1" using Cons.prems(2) g o by (simp add: pending_def)
    moreover have "a \<in> set xs \<or> written a ob t1" using Cons.prems(3) False o by (auto simp: written_def)
    ultimately show ?thesis using Cons.IH [OF t1(2)] by blast
  qed
qed simp

lemma finalise_found:
  assumes "foldGo (finaliseObject True) xs t = Ret t'" "a \<in> set xs" "sdb_good t"
  shows "map_of (sdb_stateObjects t) a \<noteq> None"
  using assms
proof (induction xs arbitrary: t)
  case (Cons x xs)
  obtain t1 where t1: "finaliseObject True x t = Ret t1" "foldGo (finaliseObject True) xs t1 = Ret t'"
    using Cons.prems(1) by (auto simp: bindGo_Ret_iff)
  show ?case
  proof (cases "x = a")
    case True
    then show ?thesis using t1(1) by (auto simp: finaliseObject_def split: option.splits)
  next
    case False
    then show ?thesis
      using Cons.IH [OF t1(2)] Cons.prems(2) finaliseObject_good [OF Cons.prems(3) t1(1)]
        finaliseObject_other(1) [OF False t1(1) Cons.prems(3)] by simp
  qed
qed simp

text \<open>The outcome for one dirty account.\<close>

lemma Finalise_written:
  assumes good: "sdb_good s" and f: "StateDB_Finalise True s = Ret s'"
    and a: "a \<in> set (sdb_stateObjectsDirty s)"
  obtains ob where "map_of (sdb_stateObjects s) a = Some ob" "storage_ok ob \<Longrightarrow> written a ob s'"
proof -
  obtain s1 where s1: "foldGo (finaliseObject True) (sdb_stateObjectsDirty s) s = Ret s1"
    "s' = StateDB_clearJournalAndRefund (commitSets s1)"
    using f by (auto simp: StateDB_Finalise_def bindGo_Ret_iff)
  obtain ob where ob: "map_of (sdb_stateObjects s) a = Some ob"
    using finalise_found [OF s1(1) a good] by auto
  have "written a ob s'" if "storage_ok ob"
  proof -
    have "pending a ob s" using good ob that by (simp add: pending_def same_account_refl)
    then have "written a ob s1" using finalise_loop [OF s1(1)] a by blast
    then show ?thesis by (simp add: written_def s1(2) StateDB_clearJournalAndRefund_def commitSets_frame)
  qed
  then show ?thesis using that ob by blast
qed

end
