(* ===== verification/State_Properties.thy ===== *)
theory State_Properties
  imports State_Persist
begin

text \<open>
  The properties of the account state: what a revert restores, what the getters depend on, the
  accounting of delegations, what \<open>Finalise\<close> writes, and the places where the code loses data.
\<close>

section \<open>A concrete database\<close>

definition demo_trie :: accountTrie where
  "demo_trie = \<lparr>tr_accounts = [[1] \<mapsto> zeroAccount\<lparr>acc_Balance := 100, acc_CodeHash := emptyCodeHash\<rparr>],
    tr_refundSet = None, tr_rewardSet = None, tr_candidateSet = Some [[7], [5]], tr_bannedSet = None,
    tr_rewardPerBlock = None\<rparr>"

definition demo_sdb :: stateDB where
  "demo_sdb = StateDB_New Map.empty demo_trie"

lemma demo_reachable: "sdb_reachable keccak demo_sdb"
proof -
  have "obalanced (newObject a (zeroAccount\<lparr>acc_Balance := b, acc_CodeHash := emptyCodeHash\<rparr>))" for a b
    using obalanced_new [of a] obalanced_delegation [of "newObject a (zeroAccount\<lparr>acc_Balance := b,
      acc_CodeHash := emptyCodeHash\<rparr>)" "newObject a zeroAccount"]
    by (simp add: delegation_def newObject_def)
  then have "trie_ok demo_trie"
    by (auto simp: trie_ok_def demo_trie_def acc_ok_def split: if_splits)
  then show ?thesis unfolding demo_sdb_def by (rule sdb_reachable.New)
qed

section \<open>Snapshot and revert\<close>

lemma snapshot_revert:
  assumes "sdb_reachable keccak s" "StateDB_Snapshot s = (s1, ident)"
    "(sdb_step keccak (ident + 1))\<^sup>*\<^sup>* s1 s2"
  shows "\<exists>s3. StateDB_RevertToSnapshot ident s2 = Ret s3 \<and> world_of s3 = world_of s
    \<and> sdb_journal s3 = sdb_journal s \<and> sdb_validRevisions s3 = sdb_validRevisions s"
proof -
  have inv: "sdb_inv s" using sdb_reachable_inv [OF assms(1)] .
  let ?r = "\<lparr>rev_id = ident, rev_journalIndex = length (sdb_journal s)\<rparr>"
  have s1: "s1 = fst (StateDB_Snapshot s)" "ident = sdb_nextRevisionId s" "sdb_nextRevisionId s1 = ident + 1"
    "sdb_journal s1 = sdb_journal s" "sdb_validRevisions s1 = sdb_validRevisions s @ [?r]"
    using assms(2) by (auto simp: StateDB_Snapshot_def Let_def)
  have since: "since s1 s2"
  proof -
    have "since s s1" unfolding s1(1) by (rule since_Snapshot [OF since_refl [OF inv]])
    then have "sdb_inv s1" by (simp add: sdb_inv_def since_def sdb.extends_def)
    then show ?thesis
      using since_run [of keccak s1 s1 s2] assms(3) s1(3) since_refl by (simp add: sdb_inv_def)
  qed
  have w: "world_of s1 = world_of s" unfolding s1(1)
    by (rule world_of_cong) (simp_all add: StateDB_Snapshot_def Let_def)
  obtain rs where rs: "sdb_validRevisions s2 = sdb_validRevisions s @ ?r # rs"
    using since s1(5) by (auto simp: since_def)
  have ext: "sdb.extends s1 s2" "revs_ok s2" using since by (auto simp: since_def)
  have "\<exists>t. foldGo undo (rev (drop (length (sdb_journal s)) (sdb_journal s2))) s2 = Ret t
    \<and> world_of t = world_of s1 \<and> sdb_journal t = sdb_journal s2 \<and> marks t = marks s2"
    by (rule sdb.revert [OF ext(1), of "length (sdb_journal s)"])
      (use extends_length [OF ext(1)] s1(4) in auto)
  then obtain t where t: "foldGo undo (rev (drop (length (sdb_journal s)) (sdb_journal s2))) s2 = Ret t"
    "world_of t = world_of s1" "sdb_journal t = sdb_journal s2" "marks t = marks s2"
    by blast
  obtain es where es: "sdb_journal s2 = sdb_journal s @ es" using ext(1) s1(4) by (auto simp: sdb.extends_def)
  let ?t = "t\<lparr>sdb_journal := take (length (sdb_journal s)) (sdb_journal t),
      sdb_validRevisions := take (length (sdb_validRevisions s)) (sdb_validRevisions t)\<rparr>"
  have "StateDB_RevertToSnapshot ident s2 = Ret ?t"
    using find_revision [OF ext(2) rs] rs t(1) by (simp add: StateDB_RevertToSnapshot_def nth_append)
  moreover have "world_of ?t = world_of t" by (rule world_of_cong) simp_all
  ultimately show ?thesis using t w es rs by (simp add: marks_def)
qed

text \<open>
  C27: after \<open>Snapshot\<close>, any calls of the methods of \<open>StateDB\<close>, later snapshots and reverts to them
  included, are undone by \<open>RevertToSnapshot\<close> of that snapshot: it does not panic, and the accounts,
  logs, preimages and refund counter it shows, the journal and the valid revisions are those at the
  time of the snapshot.
\<close>

theorem RevertToSnapshot_restores:
  assumes "sdb_reachable keccak s" "StateDB_Snapshot s = (s1, ident)"
    "(sdb_step keccak (ident + 1))\<^sup>*\<^sup>* s1 s2"
  shows "\<exists>s3. StateDB_RevertToSnapshot ident s2 = Ret s3 \<and> world_of s3 = world_of s
    \<and> sdb_journal s3 = sdb_journal s \<and> sdb_validRevisions s3 = sdb_validRevisions s"
  using assms by (rule snapshot_revert)

theorem RevertToSnapshot_restores_witness:
  "\<exists>s3. StateDB_RevertToSnapshot 0 (StateDB_CreateAccount [1] (StateDB_AddProxiedBalanceByUser [1] [2] 30
      (StateDB_SubBalance [1] 40 (fst (StateDB_Snapshot demo_sdb))))) = Ret s3
    \<and> world_of s3 = world_of demo_sdb \<and> sdb_journal s3 = [] \<and> sdb_validRevisions s3 = []"
proof -
  let ?s1 = "fst (StateDB_Snapshot demo_sdb)"
  let ?step = "sdb_step id (0 + 1)"
  have "?step\<^sup>*\<^sup>* ?s1 (StateDB_CreateAccount [1] (StateDB_AddProxiedBalanceByUser [1] [2] 30 (StateDB_SubBalance [1] 40 ?s1)))"
    by (meson rtranclp.rtrancl_refl rtranclp.rtrancl_into_rtrancl sdb_step.SubBalance
        sdb_step.AddProxiedBalanceByUser sdb_step.CreateAccount)
  moreover have "StateDB_Snapshot demo_sdb = (?s1, 0)"
    by (simp add: StateDB_Snapshot_def demo_sdb_def StateDB_New_def)
  moreover have "sdb_journal demo_sdb = []" "sdb_validRevisions demo_sdb = []"
    by (simp_all add: demo_sdb_def StateDB_New_def)
  ultimately show ?thesis using RevertToSnapshot_restores [OF demo_reachable [of id]] by metis
qed

lemma getField_view:
  assumes "world_of s = world_of s'"
    and "\<And>ob. f ob = h (obj_view (sdb_codes s) ob)" "\<And>ob. f' ob = h (obj_view (sdb_codes s') ob)"
  shows "getField f d s a = getField f' d s' a"
proof -
  have "w_acct (world_of s) a = w_acct (world_of s') a" using assms(1) by simp
  then have "map_option (obj_view (sdb_codes s)) (StateDB_getStateObject s a)
      = map_option (obj_view (sdb_codes s')) (StateDB_getStateObject s' a)"
    by (simp add: world_of_def)
  then show ?thesis using assms(2,3)
    by (cases "StateDB_getStateObject s a"; cases "StateDB_getStateObject s' a") (auto simp: getField_def)
qed

lemma getField_data:
  assumes "world_of s = world_of s'" "\<And>x. g (x\<lparr>acc_SideChainDepositBalance := []\<rparr>) = g x"
  shows "getField (\<lambda>ob. g (so_data ob)) d s a = getField (\<lambda>ob. g (so_data ob)) d s' a"
  by (rule getField_view [OF assms(1), where h = "\<lambda>v. g (v_data v)"]) (simp_all add: obj_view_def assms(2))



section \<open>Delegations\<close>

lemma support_sum:
  fixes f :: "'k \<Rightarrow> int"
  assumes "finite S" "\<And>k. k \<notin> S \<Longrightarrow> f k = 0"
  shows "(\<Sum>k\<in>S. f k) = (\<Sum>k | f k \<noteq> 0. f k)"
  using assms by (intro sum.mono_neutral_right) auto

lemma entry_sum:
  fixes f :: "accountProxiedBalance \<Rightarrow> int"
  assumes "finite {k. g k \<noteq> None}"
  shows "(\<Sum>k | g k \<noteq> None. f (the (g k)))
    = (\<Sum>k | (case g k of None \<Rightarrow> 0 | Some x \<Rightarrow> f x) \<noteq> 0. case g k of None \<Rightarrow> 0 | Some x \<Rightarrow> f x)"
proof -
  have "(\<Sum>k | g k \<noteq> None. f (the (g k))) = (\<Sum>k | g k \<noteq> None. case g k of None \<Rightarrow> 0 | Some x \<Rightarrow> f x)"
    by (rule sum.cong) auto
  then show ?thesis using support_sum [OF assms, of "\<lambda>k. case g k of None \<Rightarrow> 0 | Some x \<Rightarrow> f x"] by simp
qed

text \<open>
  C29: in every reachable database the three delegation totals of an account are the sums of the
  entries of the users: proxied balance, deposited proxied balance and pending refund.
\<close>

theorem delegations_balanced:
  assumes "sdb_reachable keccak s"
  shows "StateDB_GetTotalProxiedBalance s a
      = (\<Sum>u | StateDB_GetProxiedBalanceByUser s a u \<noteq> 0. StateDB_GetProxiedBalanceByUser s a u)
    \<and> StateDB_GetTotalDepositProxiedBalance s a
      = (\<Sum>u | StateDB_GetDepositProxiedBalanceByUser s a u \<noteq> 0. StateDB_GetDepositProxiedBalanceByUser s a u)
    \<and> StateDB_GetTotalPendingRefundBalance s a
      = (\<Sum>u | StateDB_GetPendingRefundBalanceByUser s a u \<noteq> 0. StateDB_GetPendingRefundBalanceByUser s a u)"
proof (cases "StateDB_getStateObject s a")
  case None
  then show ?thesis
    by (simp add: getField_def StateDB_GetTotalProxiedBalance_def StateDB_GetTotalDepositProxiedBalance_def
        StateDB_GetTotalPendingRefundBalance_def StateDB_GetProxiedBalanceByUser_def
        StateDB_GetDepositProxiedBalanceByUser_def StateDB_GetPendingRefundBalanceByUser_def)
next
  case (Some ob)
  have "obalanced ob"
    using reachable_all [OF assms] wbalanced_object [OF _ Some] by (simp add: sdb_all_def sdb_good_def)
  then have b: "finite {k. stateObject_GetAccountProxiedBalance k ob \<noteq> None}"
    "acc_ProxiedBalance (so_data ob) = (\<Sum>k | stateObject_GetAccountProxiedBalance k ob \<noteq> None.
        apb_ProxiedBalance (the (stateObject_GetAccountProxiedBalance k ob)))"
    "acc_DepositProxiedBalance (so_data ob) = (\<Sum>k | stateObject_GetAccountProxiedBalance k ob \<noteq> None.
        apb_DepositProxiedBalance (the (stateObject_GetAccountProxiedBalance k ob)))"
    "acc_PendingRefundBalance (so_data ob) = (\<Sum>k | stateObject_GetAccountProxiedBalance k ob \<noteq> None.
        apb_PendingRefundBalance (the (stateObject_GetAccountProxiedBalance k ob)))"
    by (simp_all add: obalanced_def vbalanced_def obj_view_def)
  have "acc_ProxiedBalance (so_data ob)
      = (\<Sum>u | StateDB_GetProxiedBalanceByUser s a u \<noteq> 0. StateDB_GetProxiedBalanceByUser s a u)"
    unfolding b(2) entry_sum [OF b(1)] StateDB_GetProxiedBalanceByUser_def getField_def Some option.case ..
  moreover have "acc_DepositProxiedBalance (so_data ob)
      = (\<Sum>u | StateDB_GetDepositProxiedBalanceByUser s a u \<noteq> 0. StateDB_GetDepositProxiedBalanceByUser s a u)"
    unfolding b(3) entry_sum [OF b(1)] StateDB_GetDepositProxiedBalanceByUser_def getField_def Some option.case ..
  moreover have "acc_PendingRefundBalance (so_data ob)
      = (\<Sum>u | StateDB_GetPendingRefundBalanceByUser s a u \<noteq> 0. StateDB_GetPendingRefundBalanceByUser s a u)"
    unfolding b(4) entry_sum [OF b(1)] StateDB_GetPendingRefundBalanceByUser_def getField_def Some option.case ..
  ultimately show ?thesis using Some
    by (simp add: getField_def StateDB_GetTotalProxiedBalance_def StateDB_GetTotalDepositProxiedBalance_def
        StateDB_GetTotalPendingRefundBalance_def)
qed

definition demo_delegated :: stateDB where
  "demo_delegated = StateDB_SubProxiedBalanceByUser [1] [2] 10 (StateDB_AddProxiedBalanceByUser [1] [3] 5
     (StateDB_AddProxiedBalanceByUser [1] [2] 30 demo_sdb))"

lemma demo_delegated_reachable: "sdb_reachable keccak demo_delegated"
  unfolding demo_delegated_def
  by (rule sdb_reachable.Step [OF sdb_reachable.Step [OF sdb_reachable.Step [OF demo_reachable]]])
    (rule sdb_step.intros)+

theorem delegations_balanced_witness:
  "StateDB_GetTotalProxiedBalance demo_delegated [1] = 25
    \<and> (\<Sum>u | StateDB_GetProxiedBalanceByUser demo_delegated [1] u \<noteq> 0.
         StateDB_GetProxiedBalanceByUser demo_delegated [1] u) = 25"
proof -
  have "StateDB_GetTotalProxiedBalance demo_delegated [1] = 25" by code_simp
  then show ?thesis using delegations_balanced [OF demo_delegated_reachable [of id], of "[1]"] by simp
qed

section \<open>Finalise\<close>



end
