(* ===== verification/State_Limits.thy ===== *)
theory State_Limits
  imports State_Properties
begin

text \<open>
  The stored form of the address sets, and the situations in which the account state loses data
  or panics although every single call is used as documented.
\<close>

section \<open>Address sets\<close>

lemma fold_insert_set: "set (fold List.insert xs ys) = set xs \<union> set ys
    \<and> (distinct ys \<longrightarrow> distinct (fold List.insert xs ys))"
  by (induction xs arbitrary: ys) auto

text \<open>
  Reading back a stored address set gives the same set without duplicates, and the stored
  form does not depend on the order in which the map is iterated, so that all nodes compute the
  same trie.
\<close>

theorem addressSet_codec:
  assumes "distinct st"
  shows "set (addressSet_DecodeRLP (addressSet_EncodeRLP st)) = set st
    \<and> distinct (addressSet_DecodeRLP (addressSet_EncodeRLP st))
    \<and> (\<forall>st'. distinct st' \<and> set st' = set st \<longrightarrow> addressSet_EncodeRLP st' = addressSet_EncodeRLP st)"
proof (intro conjI allI impI)
  show "set (addressSet_DecodeRLP (addressSet_EncodeRLP st)) = set st"
    "distinct (addressSet_DecodeRLP (addressSet_EncodeRLP st))"
    by (simp_all add: addressSet_DecodeRLP_def addressSet_EncodeRLP_def fold_insert_set)
  fix st'
  assume "distinct st' \<and> set st' = set st"
  then have "sort st' = sort st" using assms
    by (metis distinct_sort set_sort sorted_distinct_set_unique sorted_sort)
  then show "addressSet_EncodeRLP st' = addressSet_EncodeRLP st" by (simp add: addressSet_EncodeRLP_def)
qed

theorem addressSet_codec_witness:
  "set (addressSet_DecodeRLP (addressSet_EncodeRLP [[1], [3], [2]])) = {[1], [2], [3]}
    \<and> addressSet_EncodeRLP [[1], [3], [2]] = [[3], [2], [1]]"
proof -
  have "addressSet_EncodeRLP [[1], [3], [2]] = [[3], [2], [1]]" by code_simp
  moreover have "distinct [[1], [3], [2::u8]]" by simp
  note conjunct1 [OF addressSet_codec [OF this]]
  moreover have "set [[1], [3], [2::u8]] = {[1], [2], [3]}" by auto
  ultimately show ?thesis by (simp only:)
qed

text \<open>
  Removing an address from the candidate set before the set has been read in this block
  writes an empty set: all candidates are lost, whatever the trie held.
\<close>

theorem ClearCandidateSet_unloaded:
  assumes "sdb_candidateSet s = []"
    "StateDB_Finalise b (StateDB_ClearCandidateSetByAddress a s) = Ret s'"
  shows "tr_candidateSet (sdb_trie s') = Some []"
proof -
  let ?s0 = "StateDB_ClearCandidateSetByAddress a s"
  obtain s1 where s1: "foldGo (finaliseObject b) (sdb_stateObjectsDirty ?s0) ?s0 = Ret s1"
    "s' = StateDB_clearJournalAndRefund (commitSets s1)"
    using assms(2) by (auto simp: StateDB_Finalise_def bindGo_Ret_iff)
  have "sdb_candidateSet s1 = [] \<and> sdb_candidateSetDirty s1"
  proof (rule foldGo_invariant [where P = "\<lambda>t. sdb_candidateSet t = [] \<and> sdb_candidateSetDirty t", OF s1(1)])
    show "sdb_candidateSet ?s0 = [] \<and> sdb_candidateSetDirty ?s0"
      using assms(1) by (simp add: StateDB_ClearCandidateSetByAddress_def)
    show "sdb_candidateSet t' = [] \<and> sdb_candidateSetDirty t'"
      if "sdb_candidateSet t = [] \<and> sdb_candidateSetDirty t" "finaliseObject b x t = Ret t'" for x t t'
      using that by (auto simp: finaliseObject_def bindGo_Ret_iff StateDB_deleteStateObject_def
          StateDB_setStateObject_def StateDB_updateStateObject_def Let_def split: option.splits if_splits)
  qed
  then show ?thesis
    by (simp add: s1(2) StateDB_clearJournalAndRefund_def commitSets_def Let_def addressSet_EncodeRLP_def
        StateDB_commitDelegateRefundSet_def StateDB_commitRewardSet_def StateDB_commitCandidateSet_def
        StateDB_commitBannedSet_def StateDB_commitSideChainRewardPerBlock_def)
qed

theorem ClearCandidateSet_unloaded_witness:
  "tr_candidateSet (sdb_trie demo_sdb) = Some [[7], [5]]
    \<and> (\<exists>s'. StateDB_Finalise True (StateDB_ClearCandidateSetByAddress [5] demo_sdb) = Ret s'
        \<and> tr_candidateSet (sdb_trie s') = Some [])"
proof -
  have "case StateDB_Finalise True (StateDB_ClearCandidateSetByAddress [5] demo_sdb) of
      Ret s' \<Rightarrow> True | Panic e \<Rightarrow> False" by code_simp
  then obtain s' where s': "StateDB_Finalise True (StateDB_ClearCandidateSetByAddress [5] demo_sdb) = Ret s'"
    by (cases "StateDB_Finalise True (StateDB_ClearCandidateSetByAddress [5] demo_sdb)") auto
  have "sdb_candidateSet demo_sdb = []" "tr_candidateSet (sdb_trie demo_sdb) = Some [[7], [5]]" by code_simp+
  then show ?thesis using ClearCandidateSet_unloaded [OF _ s'] s' by auto
qed

section \<open>Cross-chain transaction markers\<close>

lemma fold_markers:
  "map_of (fold (\<lambda>tx. AList.update tx (trimLeft tx)) xs tr) h
    = (if h \<in> set xs then Some (trimLeft h) else map_of tr h)"
  by (induction xs arbitrary: tr) (auto simp: update_conv')

text \<open>
  C31: a recorded cross-chain transaction is found again after its marker is written to the trie
  only if its hash does not start with a zero byte: the marker is stored without leading zeros
  and compared with the whole hash. Such a transaction counts as not yet processed.
\<close>

theorem HasTX1_after_flush:
  assumes "txHash \<in> set (so_dirtyTX1 ob)"
  shows "stateObject_HasTX1 txHash ob
    \<and> (stateObject_HasTX1 txHash (stateObject_updateTX1Trie ob) \<longleftrightarrow> txHash = [] \<or> hd txHash \<noteq> 0)"
proof -
  have "trimLeft txHash = txHash \<longleftrightarrow> txHash = [] \<or> hd txHash \<noteq> 0"
  proof (cases txHash)
    case (Cons x xs)
    have "x = 0 \<Longrightarrow> length (trimLeft txHash) < length txHash"
      using length_dropWhile_le [of "\<lambda>x. x = 0" xs] by (simp add: trimLeft_def Cons)
    then show ?thesis by (auto simp: trimLeft_def Cons)
  qed (simp add: trimLeft_def)
  then show ?thesis using assms
    by (simp add: stateObject_HasTX1_def stateObject_updateTX1Trie_def fold_markers)
qed

theorem HasTX1_after_flush_witness:
  "stateObject_HasTX1 [0, 9] (stateObject_addTX1 [0, 9] (newObject [1] zeroAccount))
    \<and> \<not> stateObject_HasTX1 [0, 9]
      (stateObject_updateTX1Trie (stateObject_addTX1 [0, 9] (newObject [1] zeroAccount)))"
  using HasTX1_after_flush [of "[0, 9]" "stateObject_addTX1 [0, 9] (newObject [1] zeroAccount)"]
  by (simp add: stateObject_addTX1_def)

section \<open>Reverting\<close>

text \<open>
  Reverting the first delegation of a user leaves a nil entry in \<open>dirtyProxied\<close>, and the next
  \<open>Finalise\<close> dereferences it and panics.
\<close>

theorem reverted_delegation_panics:
  "\<exists>s2. StateDB_RevertToSnapshot 0 (StateDB_AddProxiedBalanceByUser [1] [2] 30
        (fst (StateDB_Snapshot demo_sdb))) = Ret s2
    \<and> StateDB_GetProxiedBalanceByUser s2 [1] [2] = 0
    \<and> StateDB_Finalise True s2 = Panic ''nil accountProxiedBalance''"
proof -
  have "case StateDB_RevertToSnapshot 0 (StateDB_AddProxiedBalanceByUser [1] [2] 30
        (fst (StateDB_Snapshot demo_sdb))) of
      Panic e \<Rightarrow> False
    | Ret s2 \<Rightarrow> StateDB_GetProxiedBalanceByUser s2 [1] [2] = 0
        \<and> (case StateDB_Finalise True s2 of Ret s3 \<Rightarrow> False | Panic e \<Rightarrow> e = ''nil accountProxiedBalance'')"
    by code_simp
  then show ?thesis by (auto split: go.splits)
qed

definition demo_rewarded :: stateDB where
  "demo_rewarded = StateDB_New Map.empty (demo_trie\<lparr>tr_accounts :=
     [[4] \<mapsto> zeroAccount\<lparr>acc_RewardBalance := 5, acc_CodeHash := emptyCodeHash\<rparr>]\<rparr>)"

text \<open>
  An account that only holds a reward counts as empty. Touching it and reverting the touch
  removes it from the dirty set but leaves its callback unset, so that a later change of the
  account is never marked dirty: the database shows the new reward and \<open>Finalise\<close> keeps the old
  one.
\<close>

theorem touched_update_lost:
  "\<exists>s1 s2. StateDB_RevertToSnapshot 0 (StateDB_AddBalance [4] 0 (fst (StateDB_Snapshot demo_rewarded))) = Ret s1
    \<and> StateDB_GetTotalRewardBalance (StateDB_AddRewardBalance [4] 7 s1) [4] = 12
    \<and> StateDB_Finalise True (StateDB_AddRewardBalance [4] 7 s1) = Ret s2
    \<and> StateDB_GetTotalRewardBalance (StateDB_New Map.empty (sdb_trie s2)) [4] = 5"
proof -
  have "case StateDB_RevertToSnapshot 0 (StateDB_AddBalance [4] 0 (fst (StateDB_Snapshot demo_rewarded))) of
      Panic e \<Rightarrow> False
    | Ret s1 \<Rightarrow> StateDB_GetTotalRewardBalance (StateDB_AddRewardBalance [4] 7 s1) [4] = 12
        \<and> (case StateDB_Finalise True (StateDB_AddRewardBalance [4] 7 s1) of
            Panic e \<Rightarrow> False
          | Ret s2 \<Rightarrow> StateDB_GetTotalRewardBalance (StateDB_New Map.empty (sdb_trie s2)) [4] = 5)"
    by code_simp
  then show ?thesis by (auto split: go.splits)
qed

end
