(* ===== verification/Epoch_Votes.thy ===== *)
theory Epoch_Votes
  imports State_Objects Validators
begin

text \<open>
  \<open>chain/consensus/tendermint/epoch/epoch_vote.go\<close> and \<open>scheme.go\<close>: the votes with which accounts
  ask to join, leave or change their deposit in the next epoch, the reward scheme, and the store
  both are kept in.

  A vote is reached by pointer from the slice \<open>Votes\<close> and from the map \<open>votesByAddress\<close>, and
  \<open>StoreVote\<close> compares pointers: the votes of a set are cells of a heap and a pointer is the
  position of its cell. The store is a map from keys to values of a type \<open>'v\<close> of byte strings;
  the encoding of structs by \<open>wire-go\<close> is a parameter.
\<close>

section \<open>Decimal numbers\<close>

text \<open>\<open>strconv.FormatUint(n, 10)\<close>, \<open>fmt.Sprintf("%v", n)\<close> and \<open>strconv.ParseUint(s, 10, 64)\<close>.\<close>

definition digitChar :: "nat \<Rightarrow> char" where
  "digitChar d = char_of (48 + d)"

fun FormatUint :: "nat \<Rightarrow> string" where
  "FormatUint n = (if n < 10 then [digitChar n] else FormatUint (n div 10) @ [digitChar (n mod 10)])"

declare FormatUint.simps [simp del]

definition digitVal :: "char \<Rightarrow> nat option" where
  "digitVal c = (let v = of_char c in if 48 \<le> v \<and> v \<le> (57 :: nat) then Some (v - 48) else None)"

datatype parsed = Parsed nat | SyntaxError | RangeError

fun parseDigits :: "string \<Rightarrow> nat \<Rightarrow> parsed" where
  "parseDigits [] n = Parsed n"
| "parseDigits (c # cs) n = (case digitVal c of None \<Rightarrow> SyntaxError
     | Some d \<Rightarrow> if 2 ^ 64 \<le> 10 * n + d then RangeError else parseDigits cs (10 * n + d))"

text \<open>The first result of \<open>ParseUint\<close>, which is also set on an error.\<close>

definition ParseUint :: "string \<Rightarrow> nat" where
  "ParseUint s = (if s = [] then 0 else case parseDigits s 0 of
     Parsed n \<Rightarrow> n | SyntaxError \<Rightarrow> 0 | RangeError \<Rightarrow> 2 ^ 64 - 1)"

lemma digitVal_digitChar [simp]: "d < 10 \<Longrightarrow> digitVal (digitChar d) = Some d"
  by (simp add: digitVal_def digitChar_def Let_def)

lemma parseDigits_append:
  "parseDigits (xs @ ys) n = (case parseDigits xs n of Parsed m \<Rightarrow> parseDigits ys m | e \<Rightarrow> e)"
  by (induction xs arbitrary: n) (auto split: option.splits)

lemma FormatUint_not_Nil [simp]: "FormatUint n \<noteq> []"
  by (subst FormatUint.simps) simp

lemma ParseUint_FormatUint: "n < 2 ^ 64 \<Longrightarrow> ParseUint (FormatUint n) = n"
proof -
  have "n < 2 ^ 64 \<Longrightarrow> parseDigits (FormatUint n) 0 = Parsed n"
  proof (induction n rule: FormatUint.induct)
    case (1 n)
    show ?case
    proof (cases "n < 10")
      case True
      then show ?thesis by (subst FormatUint.simps) simp
    next
      case False
      then have "parseDigits (FormatUint (n div 10)) 0 = Parsed (n div 10)" using 1 by simp
      then show ?thesis using False 1(2)
        by (subst FormatUint.simps) (simp add: parseDigits_append)
    qed
  qed
  then show "n < 2 ^ 64 \<Longrightarrow> ParseUint (FormatUint n) = n" by (simp add: ParseUint_def)
qed

lemma FormatUint_inj: "m < 2 ^ 64 \<Longrightarrow> n < 2 ^ 64 \<Longrightarrow> FormatUint m = FormatUint n \<longleftrightarrow> m = n"
  by (metis ParseUint_FormatUint)

lemma FormatUint_word [simp]: "FormatUint (unat (m :: u64)) = FormatUint (unat n) \<longleftrightarrow> m = n"
proof -
  have "unat m < 2 ^ 64" "unat n < 2 ^ 64" 
    using unsigned_less [of m, where ?'a = nat] unsigned_less [of n, where ?'a = nat] by simp_all
  then show ?thesis using FormatUint_inj by (simp add: word_unat_eq_iff)
qed

section \<open>Votes\<close>

record epochValidatorVote =
  evv_Address :: address
  evv_PubKey :: "bytes option"
  evv_Amount :: "int option"
  evv_Salt :: string
  evv_VoteHash :: hash
  evv_TxHash :: hash

record epochValidatorVoteSet =
  evs_cells :: "epochValidatorVote list"
  evs_Votes :: "nat list"
  evs_votesByAddress :: "address \<rightharpoonup> nat"

definition NewEpochValidatorVoteSet :: epochValidatorVoteSet where
  "NewEpochValidatorVoteSet = \<lparr>evs_cells = [], evs_Votes = [], evs_votesByAddress = Map.empty\<rparr>"

text \<open>Allocating a vote, and writing fields of the vote a pointer refers to.\<close>

definition newVote :: "epochValidatorVote \<Rightarrow> epochValidatorVoteSet \<Rightarrow> epochValidatorVoteSet \<times> nat" where
  "newVote v voteSet = (voteSet\<lparr>evs_cells := evs_cells voteSet @ [v]\<rparr>, length (evs_cells voteSet))"

definition writeVote :: "nat \<Rightarrow> (epochValidatorVote \<Rightarrow> epochValidatorVote) \<Rightarrow> epochValidatorVoteSet \<Rightarrow> epochValidatorVoteSet" where
  "writeVote p f voteSet = voteSet\<lparr>evs_cells := (evs_cells voteSet)[p := f (evs_cells voteSet ! p)]\<rparr>"

definition GetVoteByAddress :: "epochValidatorVoteSet \<Rightarrow> address \<Rightarrow> nat option" where
  "GetVoteByAddress voteSet a = evs_votesByAddress voteSet a"

text \<open>
  \<open>StoreVote\<close>. The old vote is searched by pointer; if it were missing, the slice expression
  with index -1 would panic.
\<close>

definition StoreVote :: "nat \<Rightarrow> epochValidatorVoteSet \<Rightarrow> epochValidatorVoteSet go" where
  "StoreVote p voteSet =
    (let a = evv_Address (evs_cells voteSet ! p);
         store = (\<lambda>votes. Ret (voteSet\<lparr>evs_Votes := votes @ [p],
           evs_votesByAddress := (evs_votesByAddress voteSet)(a \<mapsto> p)\<rparr>))
     in case evs_votesByAddress voteSet a of
          None \<Rightarrow> store (evs_Votes voteSet)
        | Some oldVote \<Rightarrow> (case find_index (\<lambda>q. q = oldVote) (evs_Votes voteSet) of
            None \<Rightarrow> Panic ''slice bounds out of range''
          | Some index \<Rightarrow> store (take index (evs_Votes voteSet) @ drop (index + 1) (evs_Votes voteSet))))"

definition IsEmpty :: "epochValidatorVoteSet option \<Rightarrow> bool" where
  "IsEmpty voteSet = (case voteSet of None \<Rightarrow> True | Some s \<Rightarrow> evs_Votes s = [])"

text \<open>The votes in the order of the slice.\<close>

definition votes_of :: "epochValidatorVoteSet \<Rightarrow> epochValidatorVote list" where
  "votes_of voteSet = map (\<lambda>p. evs_cells voteSet ! p) (evs_Votes voteSet)"

text \<open>A set with freshly allocated votes: the loops of \<open>LoadEpochVoteSet\<close> and \<open>Copy\<close>.\<close>

definition freshVoteSet :: "epochValidatorVote list \<Rightarrow> epochValidatorVoteSet" where
  "freshVoteSet votes = \<lparr>evs_cells = votes, evs_Votes = [0..<length votes],
    evs_votesByAddress = fold (\<lambda>p m. m(evv_Address (votes ! p) \<mapsto> p)) [0..<length votes] Map.empty\<rparr>"

definition EpochValidatorVoteSet_Copy :: "epochValidatorVoteSet option \<Rightarrow> epochValidatorVoteSet option" where
  "EpochValidatorVoteSet_Copy voteSet = map_option (\<lambda>s. freshVoteSet (votes_of s)) voteSet"

section \<open>The store\<close>

record rewardScheme =
  rs_TotalReward :: int
  rs_RewardFirstYear :: int
  rs_EpochNumberPerYear :: u64
  rs_TotalYear :: u64

text \<open>The exported fields of \<open>Epoch\<close>. A time is in nanoseconds since 1970.\<close>

record epochFields =
  ef_Number :: u64
  ef_RewardPerBlock :: int
  ef_StartBlock :: u64
  ef_EndBlock :: u64
  ef_StartTime :: int
  ef_EndTime :: int
  ef_BlockGenerated :: int
  ef_Status :: int
  ef_Validators :: validatorSet

type_synonym 'v edb = "string \<rightharpoonup> 'v"

text \<open>
  What \<open>wire.BinaryBytes\<close> and \<open>wire.ReadBinaryBytes\<close> do to the stored structs, \<open>[]byte(s)\<close> and
  back for strings, and whether a stored value has length 0.
\<close>

record 'v wire =
  EpochBytes :: "epochFields \<Rightarrow> 'v"
  ReadEpoch :: "'v \<Rightarrow> epochFields option"
  VotesBytes :: "epochValidatorVote list \<Rightarrow> 'v"
  ReadVotes :: "'v \<Rightarrow> epochValidatorVote list option"
  SchemeBytes :: "rewardScheme \<Rightarrow> 'v"
  ReadScheme :: "'v \<Rightarrow> rewardScheme option"
  StringBytes :: "string \<Rightarrow> 'v"
  BytesString :: "'v \<Rightarrow> string"
  isEmptyBytes :: "'v \<Rightarrow> bool"
  wireTime :: "int \<Rightarrow> int"

text \<open>
  What is relied on: decoding gives back the exported fields of what was encoded, with times
  rounded as the encoding does, and an encoding is never empty.
\<close>

definition stored :: "'v wire \<Rightarrow> epochFields \<Rightarrow> epochFields" where
  "stored w e = e\<lparr>ef_StartTime := wireTime w (ef_StartTime e), ef_EndTime := wireTime w (ef_EndTime e),
    ef_Validators := (ef_Validators e)\<lparr>vs_totalVotingPower := None\<rparr>\<rparr>"

definition wire_laws :: "'v wire \<Rightarrow> bool" where
  "wire_laws w \<longleftrightarrow>
    (\<forall>e. ReadEpoch w (EpochBytes w e) = Some (stored w e) \<and> \<not> isEmptyBytes w (EpochBytes w e))
    \<and> (\<forall>vs. ReadVotes w (VotesBytes w vs) = Some vs \<and> \<not> isEmptyBytes w (VotesBytes w vs))
    \<and> (\<forall>rs. ReadScheme w (SchemeBytes w rs) = Some rs \<and> \<not> isEmptyBytes w (SchemeBytes w rs))
    \<and> (\<forall>s. BytesString w (StringBytes w s) = s)"

lemma wire_lawsD:
  assumes "wire_laws w"
  shows "ReadEpoch w (EpochBytes w e) = Some (stored w e)" "\<not> isEmptyBytes w (EpochBytes w e)"
    "ReadVotes w (VotesBytes w vs) = Some vs" "\<not> isEmptyBytes w (VotesBytes w vs)"
    "ReadScheme w (SchemeBytes w rs) = Some rs" "\<not> isEmptyBytes w (SchemeBytes w rs)"
    "BytesString w (StringBytes w s) = s"
  using assms unfolding wire_laws_def by blast+

definition calcEpochValidatorVoteKey :: "u64 \<Rightarrow> string" where
  "calcEpochValidatorVoteKey epochNumber = ''EpochValidatorVote_'' @ FormatUint (unat epochNumber)"

definition SaveEpochVoteSet :: "'v wire \<Rightarrow> u64 \<Rightarrow> epochValidatorVoteSet \<Rightarrow> 'v edb \<Rightarrow> 'v edb" where
  "SaveEpochVoteSet w epochNumber voteSet db =
    db(calcEpochValidatorVoteKey epochNumber \<mapsto> VotesBytes w (votes_of voteSet))"

definition LoadEpochVoteSet :: "'v wire \<Rightarrow> 'v edb \<Rightarrow> u64 \<Rightarrow> epochValidatorVoteSet option" where
  "LoadEpochVoteSet w db epochNumber =
    (case db (calcEpochValidatorVoteKey epochNumber) of
       None \<Rightarrow> None
     | Some data \<Rightarrow> if isEmptyBytes w data then None
         else map_option freshVoteSet (ReadVotes w data))"

definition rewardSchemeKey :: string where
  "rewardSchemeKey = ''REWARDSCHEME''"

definition LoadRewardScheme :: "'v wire \<Rightarrow> 'v edb \<Rightarrow> rewardScheme option" where
  "LoadRewardScheme w db = (case db rewardSchemeKey of
      None \<Rightarrow> None
    | Some buf \<Rightarrow> if isEmptyBytes w buf then None else ReadScheme w buf)"

definition RewardScheme_Save :: "'v wire \<Rightarrow> rewardScheme \<Rightarrow> 'v edb \<Rightarrow> 'v edb" where
  "RewardScheme_Save w rs db = db(rewardSchemeKey \<mapsto> SchemeBytes w rs)"

section \<open>The set as a map\<close>

text \<open>
  Every vote of the slice is in the map under its address, and nothing else is: the set stands
  for a map from addresses to votes.
\<close>

definition voteSet_ok :: "epochValidatorVoteSet \<Rightarrow> bool" where
  "voteSet_ok s \<longleftrightarrow> distinct (evs_Votes s) \<and> (\<forall>p\<in>set (evs_Votes s). p < length (evs_cells s))
    \<and> (\<forall>a p. evs_votesByAddress s a = Some p \<longleftrightarrow> p \<in> set (evs_Votes s) \<and> evv_Address (evs_cells s ! p) = a)"

lemma voteSet_okD:
  assumes "voteSet_ok s" "evs_votesByAddress s a = Some p"
  shows "p \<in> set (evs_Votes s)" "p < length (evs_cells s)" "evv_Address (evs_cells s ! p) = a"
  using assms unfolding voteSet_ok_def by blast+

definition vote_map :: "epochValidatorVoteSet \<Rightarrow> address \<rightharpoonup> epochValidatorVote" where
  "vote_map s a = map_option (\<lambda>p. evs_cells s ! p) (evs_votesByAddress s a)"

lemma NewVoteSet_ok: "voteSet_ok NewEpochValidatorVoteSet" "vote_map NewEpochValidatorVoteSet = Map.empty"
  by (auto simp: voteSet_ok_def vote_map_def NewEpochValidatorVoteSet_def)

lemma vote_map_set:
  assumes "voteSet_ok s"
  shows "vote_map s a = Some v \<longleftrightarrow> v \<in> set (votes_of s) \<and> evv_Address v = a"
  using assms by (auto simp: voteSet_ok_def vote_map_def votes_of_def)

lemma votes_distinct:
  assumes "voteSet_ok s"
  shows "distinct (map evv_Address (votes_of s))"
proof -
  have "inj_on (\<lambda>p. evv_Address (evs_cells s ! p)) (set (evs_Votes s))"
    using assms unfolding voteSet_ok_def inj_on_def by (metis option.inject)
  then show ?thesis using assms by (simp add: voteSet_ok_def votes_of_def distinct_map comp_def)
qed

lemma writeVote_ok:
  assumes ok: "voteSet_ok s" and p: "GetVoteByAddress s a = Some p"
    and f: "\<And>v. evv_Address (f v) = evv_Address v"
  shows "voteSet_ok (writeVote p f s)"
    "vote_map (writeVote p f s) = (vote_map s)(a := map_option f (vote_map s a))"
proof -
  have b: "p < length (evs_cells s)" "evv_Address (evs_cells s ! p) = a" "evs_votesByAddress s a = Some p"
    using assms unfolding voteSet_ok_def GetVoteByAddress_def by blast+
  have adr: "evv_Address (evs_cells (writeVote p f s) ! q) = evv_Address (evs_cells s ! q)" for q
    using b f by (simp add: writeVote_def nth_list_update)
  show "voteSet_ok (writeVote p f s)" using ok adr by (simp add: voteSet_ok_def writeVote_def)
  show "vote_map (writeVote p f s) = (vote_map s)(a := map_option f (vote_map s a))"
  proof (rule ext)
    fix a'
    have "evs_votesByAddress s a' \<noteq> Some p" if "a' \<noteq> a"
      using voteSet_okD(3) [OF ok, of a' p] that b(2) by blast
    then show "vote_map (writeVote p f s) a' = ((vote_map s)(a := map_option f (vote_map s a))) a'"
      using b(1,3) by (cases "evs_votesByAddress s a'") (auto simp: vote_map_def writeVote_def)
  qed
qed

lemma set_remove_index:
  assumes "distinct xs" "i < length xs"
  shows "set (take i xs @ drop (Suc i) xs) = set xs - {xs ! i}"
    and "distinct (take i xs @ drop (Suc i) xs)"
proof -
  have eq: "xs = take i xs @ xs ! i # drop (Suc i) xs" using assms(2) by (simp add: id_take_nth_drop)
  then have d: "distinct (take i xs @ xs ! i # drop (Suc i) xs)" using assms(1) by simp
  show "distinct (take i xs @ drop (Suc i) xs)" using d by simp
  have "set xs = insert (xs ! i) (set (take i xs @ drop (Suc i) xs))" by (subst eq) auto
  moreover have "xs ! i \<notin> set (take i xs @ drop (Suc i) xs)" using d by simp
  ultimately show "set (take i xs @ drop (Suc i) xs) = set xs - {xs ! i}" by (simp only: insert_Diff_single) blast
qed

text \<open>Storing a new vote never panics and overrides the vote of its address.\<close>

lemma StoreVote_ok:
  assumes ok: "voteSet_ok s" and n: "newVote v s = (s1, p)"
  obtains s2 where "StoreVote p s1 = Ret s2" "voteSet_ok s2"
    "vote_map s2 = (vote_map s)(evv_Address v \<mapsto> v)"
    "votes_of s2 = filter (\<lambda>u. evv_Address u \<noteq> evv_Address v) (votes_of s) @ [v]"
proof -
  let ?a = "evv_Address v"
  have s1: "evs_cells s1 = evs_cells s @ [v]" "evs_Votes s1 = evs_Votes s"
    "evs_votesByAddress s1 = evs_votesByAddress s" "p = length (evs_cells s)"
    using n by (auto simp: newVote_def)
  have cell: "evs_cells s1 ! p = v" "\<And>q. q < p \<Longrightarrow> evs_cells s1 ! q = evs_cells s ! q"
    by (auto simp: s1 nth_append)
  have lt: "q < p" if "q \<in> set (evs_Votes s)" for q using ok that by (auto simp: voteSet_ok_def s1)
  let ?ws = "filter (\<lambda>q. evv_Address (evs_cells s ! q) \<noteq> ?a) (evs_Votes s)"
  let ?s2 = "s1\<lparr>evs_Votes := ?ws @ [p], evs_votesByAddress := (evs_votesByAddress s)(?a \<mapsto> p)\<rparr>"
  have "StoreVote p s1 = Ret ?s2"
  proof (cases "evs_votesByAddress s ?a")
    case None
    have "evv_Address (evs_cells s ! q) \<noteq> ?a" if "q \<in> set (evs_Votes s)" for q
      using ok that None unfolding voteSet_ok_def by (metis option.distinct(1))
    then have "?ws = evs_Votes s" by (simp add: filter_id_conv)
    then show ?thesis using None by (simp add: StoreVote_def cell s1)
  next
    case (Some old)
    then have "old \<in> set (evs_Votes s)" "evv_Address (evs_cells s ! old) = ?a"
      using ok unfolding voteSet_ok_def by blast+
    then obtain i where i: "find_index (\<lambda>q. q = old) (evs_Votes s) = Some i"
      by (cases "find_index (\<lambda>q. q = old) (evs_Votes s)") auto
    then have il: "i < length (evs_Votes s)" "evs_Votes s ! i = old" using find_index_Some by fastforce+
    have "distinct (evs_Votes s)" using ok by (simp add: voteSet_ok_def)
    then have d: "old \<notin> set (take i (evs_Votes s)) \<union> set (drop (Suc i) (evs_Votes s))"
      using set_remove_index(1) [OF _ il(1)] il(2) by auto
    have only: "evv_Address (evs_cells s ! q) \<noteq> ?a" if "q \<in> set (evs_Votes s)" "q \<noteq> old" for q
      using ok that Some unfolding voteSet_ok_def by (metis option.inject)
    have "evs_Votes s = take i (evs_Votes s) @ old # drop (Suc i) (evs_Votes s)"
      using id_take_nth_drop [OF il(1)] il(2) by simp
    then have "?ws = filter (\<lambda>q. evv_Address (evs_cells s ! q) \<noteq> ?a)
        (take i (evs_Votes s) @ old # drop (Suc i) (evs_Votes s))" by simp
    also have "\<dots> = take i (evs_Votes s) @ drop (Suc i) (evs_Votes s)"
    proof -
      have "filter (\<lambda>q. evv_Address (evs_cells s ! q) \<noteq> ?a) ys = ys"
        if "set ys \<subseteq> set (evs_Votes s)" "old \<notin> set ys" for ys
        using that only by (intro filter_True) blast
      then show ?thesis using \<open>evv_Address (evs_cells s ! old) = ?a\<close> d
        by (simp add: set_take_subset set_drop_subset)
    qed
    finally show ?thesis using Some i by (simp add: StoreVote_def cell s1)
  qed
  moreover have "voteSet_ok ?s2"
    using ok lt cell unfolding voteSet_ok_def by (auto simp: s1 less_Suc_eq)
  moreover have "vote_map ?s2 = (vote_map s)(?a \<mapsto> v)"
  proof (rule ext)
    fix a
    show "vote_map ?s2 a = ((vote_map s)(?a \<mapsto> v)) a"
      using voteSet_okD(1) [OF ok, of a] lt cell
      by (cases "evs_votesByAddress s a") (auto simp: vote_map_def)
  qed
  moreover have "votes_of ?s2 = filter (\<lambda>u. evv_Address u \<noteq> ?a) (votes_of s) @ [v]"
    using lt cell by (auto simp: votes_of_def filter_map comp_def)
  ultimately show thesis by (rule that)
qed

lemma freshVoteSet_ok:
  assumes "distinct (map evv_Address votes)"
  shows "voteSet_ok (freshVoteSet votes)" "votes_of (freshVoteSet votes) = votes"
proof -
  have fold_eq: "n \<le> length votes \<Longrightarrow> fold (\<lambda>p m. m(evv_Address (votes ! p) \<mapsto> p)) [0..<n] Map.empty a = Some p
      \<longleftrightarrow> p < n \<and> evv_Address (votes ! p) = a" for n a p
  proof (induction n)
    case (Suc n)
    have "evv_Address (votes ! p) \<noteq> evv_Address (votes ! n)" if "p < n"
      using assms that Suc.prems by (simp add: distinct_conv_nth)
    then show ?case using Suc by (auto simp: less_Suc_eq)
  qed simp
  show "voteSet_ok (freshVoteSet votes)"
    using fold_eq [of "length votes"] by (simp add: voteSet_ok_def freshVoteSet_def)
  show "votes_of (freshVoteSet votes) = votes"
    by (simp add: votes_of_def freshVoteSet_def map_nth)
qed

lemma same_votes_same_map:
  assumes "voteSet_ok s" "voteSet_ok t" "set (votes_of s) = set (votes_of t)"
  shows "vote_map s = vote_map t"
proof (rule ext)
  fix a
  show "vote_map s a = vote_map t a"
    using vote_map_set [OF assms(1), of a] vote_map_set [OF assms(2), of a] assms(3)
    by (metis option.exhaust)
qed

lemma Copy_ok:
  assumes "voteSet_ok s"
  shows "\<exists>t. EpochValidatorVoteSet_Copy (Some s) = Some t \<and> voteSet_ok t \<and> votes_of t = votes_of s
    \<and> vote_map t = vote_map s"
  using freshVoteSet_ok [OF votes_distinct [OF assms]] same_votes_same_map [OF _ assms]
  by (auto simp: EpochValidatorVoteSet_Copy_def)

lemma Load_Save:
  assumes "wire_laws w" "voteSet_ok s"
  shows "\<exists>t. LoadEpochVoteSet w (SaveEpochVoteSet w n s db) n = Some t \<and> voteSet_ok t
    \<and> votes_of t = votes_of s \<and> vote_map t = vote_map s"
  using freshVoteSet_ok [OF votes_distinct [OF assms(2)]] same_votes_same_map [OF _ assms(2)]
    wire_lawsD(3,4) [OF assms(1), of "votes_of s"]
  by (auto simp: LoadEpochVoteSet_def SaveEpochVoteSet_def)

section \<open>An instance of the store\<close>

datatype blob = EpochBlob epochFields | VotesBlob "epochValidatorVote list" | SchemeBlob rewardScheme
  | StringBlob string

text \<open>Times are stored in milliseconds.\<close>

definition demo_wire :: "blob wire" where
  "demo_wire = \<lparr>EpochBytes = (\<lambda>e. EpochBlob (e\<lparr>ef_StartTime := (ef_StartTime e div 1000000) * 1000000,
       ef_EndTime := (ef_EndTime e div 1000000) * 1000000,
       ef_Validators := (ef_Validators e)\<lparr>vs_totalVotingPower := None\<rparr>\<rparr>)),
     ReadEpoch = (\<lambda>b. case b of EpochBlob e \<Rightarrow> Some e | _ \<Rightarrow> None),
     VotesBytes = VotesBlob, ReadVotes = (\<lambda>b. case b of VotesBlob v \<Rightarrow> Some v | _ \<Rightarrow> None),
     SchemeBytes = SchemeBlob, ReadScheme = (\<lambda>b. case b of SchemeBlob r \<Rightarrow> Some r | _ \<Rightarrow> None),
     StringBytes = StringBlob, BytesString = (\<lambda>b. case b of StringBlob s \<Rightarrow> s | _ \<Rightarrow> []),
     isEmptyBytes = (\<lambda>b. False), wireTime = (\<lambda>t. (t div 1000000) * 1000000)\<rparr>"

lemma demo_wire_laws: "wire_laws demo_wire"
  by (simp add: wire_laws_def demo_wire_def stored_def)

end
