(* ===== verification/Epochs.thy ===== *)
theory Epochs
  imports Epoch_Votes State_DB "HOL-Library.Signed_Division"
begin

text \<open>
  \<open>chain/consensus/tendermint/epoch/epoch.go\<close>: epochs, their store, the estimate of the next
  epoch, and the change of epoch with its new validator set and its refunds; the votes for the
  next epoch of \<open>chain/ligochain/cross_chain.go\<close>; and the handlers of inserted blocks in
  \<open>chain/consensus/tendermint/state/execution.go\<close> that keep the current epoch.

  The clock is an argument \<open>now\<close>. A time is in nanoseconds since 1970 and \<open>AddDate\<close> works in the
  zone of the node, given by its offset from UTC in seconds. \<open>sort.Slice\<close> is not stable: the order
  it leaves is an argument \<open>srt\<close>. The database of the epoch and its logger are not fields of the
  model; the store is passed and returned.
\<close>

section \<open>Time and integers\<close>

text \<open>\<open>Time.Sub\<close> saturates; \<open>int64\<close> division truncates and wraps; \<open>big.Int.Div\<close> is Euclidean.\<close>

definition Time_Sub :: "int \<Rightarrow> int \<Rightarrow> int" where
  "Time_Sub t u = max (- (2 ^ 63)) (min (2 ^ 63 - 1) (t - u))"

definition div64 :: "int \<Rightarrow> int \<Rightarrow> int go" where
  "div64 a b = (if b = 0 then Panic ''integer divide by zero'' else Ret (signed_take_bit 63 (a sdiv b)))"

definition divU :: "u64 \<Rightarrow> u64 \<Rightarrow> u64 go" where
  "divU a b = (if b = 0 then Panic ''integer divide by zero'' else Ret (a div b))"

definition bigDiv :: "int \<Rightarrow> int \<Rightarrow> int go" where
  "bigDiv x y = (if y = 0 then Panic ''division by zero''
    else Ret (if y > 0 then x div y else - (x div (- y))))"

text \<open>
  \<open>AddDate(n, 0, 0)\<close>. Days are counted from 1 March of year 0, so that the leap day is the last day
  of a year: \<open>daysBefore y\<close> is the number of the first day of year \<open>y\<close>, \<open>marchYear z\<close> the year of
  day \<open>z\<close>. The day of the year is kept, and 29 February becomes 1 March when \<open>n\<close> years later has
  no leap day.
\<close>

definition daysBefore :: "int \<Rightarrow> int" where
  "daysBefore y = 365 * y + y div 4 - y div 100 + y div 400"

definition marchYear :: "int \<Rightarrow> int" where
  "marchYear z = (let era = z div 146097; doe = z mod 146097
     in (doe - doe div 1460 + doe div 36524 - doe div 146096) div 365 + 400 * era)"

definition nanosPerDay :: int where
  "nanosPerDay = 86400 * 10 ^ 9"

definition addYears :: "int \<Rightarrow> int \<Rightarrow> int \<Rightarrow> int" where
  "addYears zone n t =
    (let local = t + zone * 10 ^ 9;
         z = local div nanosPerDay + 719468;
         y = marchYear z
     in (daysBefore (y + n) + (z - daysBefore y) - 719468) * nanosPerDay
        + local mod nanosPerDay - zone * 10 ^ 9)"

definition zeroTime :: int where
  "zeroTime = - 62135596800 * 10 ^ 9"

section \<open>Epochs\<close>

definition EPOCH_NOT_EXIST :: int where "EPOCH_NOT_EXIST = 0"
definition EPOCH_PROPOSED_NOT_VOTED :: int where "EPOCH_PROPOSED_NOT_VOTED = 1"
definition EPOCH_VOTED_NOT_SAVED :: int where "EPOCH_VOTED_NOT_SAVED = 2"
definition EPOCH_SAVED :: int where "EPOCH_SAVED = 3"

definition MinimumValidatorsSize :: nat where "MinimumValidatorsSize = 1"
definition MaximumValidatorsSize :: nat where "MaximumValidatorsSize = 40"

datatype epoch = Epoch (ep_fields: epochFields)
  (ep_validatorVoteSet: "epochValidatorVoteSet option") (ep_rs: "rewardScheme option")
  (ep_previousEpoch: "epoch option") (ep_nextEpoch: "epoch option")

primrec setFields :: "(epochFields \<Rightarrow> epochFields) \<Rightarrow> epoch \<Rightarrow> epoch" where
  "setFields f (Epoch a b c d e) = Epoch (f a) b c d e"

primrec setVoteSet :: "epochValidatorVoteSet option \<Rightarrow> epoch \<Rightarrow> epoch" where
  "setVoteSet v (Epoch a b c d e) = Epoch a v c d e"

primrec SetRewardScheme :: "rewardScheme option \<Rightarrow> epoch \<Rightarrow> epoch" where
  "SetRewardScheme rs (Epoch a b c d e) = Epoch a b rs d e"

primrec setPrevious :: "epoch option \<Rightarrow> epoch \<Rightarrow> epoch" where
  "setPrevious p (Epoch a b c d e) = Epoch a b c p e"

primrec setNext :: "epoch option \<Rightarrow> epoch \<Rightarrow> epoch" where
  "setNext n (Epoch a b c d e) = Epoch a b c d n"

abbreviation ep_Number :: "epoch \<Rightarrow> u64" where "ep_Number e \<equiv> ef_Number (ep_fields e)"
abbreviation ep_StartBlock :: "epoch \<Rightarrow> u64" where "ep_StartBlock e \<equiv> ef_StartBlock (ep_fields e)"
abbreviation ep_EndBlock :: "epoch \<Rightarrow> u64" where "ep_EndBlock e \<equiv> ef_EndBlock (ep_fields e)"
abbreviation ep_Validators :: "epoch \<Rightarrow> validatorSet" where "ep_Validators e \<equiv> ef_Validators (ep_fields e)"

datatype epochErr = NextEpochNotExist | NextEpochNotEXPECTED

section \<open>The store\<close>

definition calcEpochKeyWithHeight :: "u64 \<Rightarrow> string" where
  "calcEpochKeyWithHeight number = ''Epoch:'' @ FormatUint (unat number)"

definition latestEpochKey :: string where
  "latestEpochKey = ''LatestEpoch''"

definition FromBytes :: "'v wire \<Rightarrow> 'v option \<Rightarrow> epoch option" where
  "FromBytes w buf = (case buf of None \<Rightarrow> None
    | Some b \<Rightarrow> if isEmptyBytes w b then None
        else map_option (\<lambda>f. Epoch f None None None None) (ReadEpoch w b))"

definition loadOneEpoch :: "'v wire \<Rightarrow> 'v edb \<Rightarrow> u64 \<Rightarrow> epoch option" where
  "loadOneEpoch w db epochNumber = FromBytes w (db (calcEpochKeyWithHeight epochNumber))"

definition LoadOneEpoch :: "'v wire \<Rightarrow> 'v edb \<Rightarrow> u64 \<Rightarrow> epoch go" where
  "LoadOneEpoch w db epochNumber = (case loadOneEpoch w db epochNumber of
      None \<Rightarrow> Panic ''nil epoch''
    | Some e \<Rightarrow>
        (let rewardscheme = LoadRewardScheme w db;
             e1 = setVoteSet (LoadEpochVoteSet w db epochNumber) (SetRewardScheme rewardscheme e);
             e2 = (if 0 < epochNumber
                   then setPrevious (map_option (SetRewardScheme rewardscheme)
                          (loadOneEpoch w db (epochNumber - 1))) e1
                   else e1)
         in Ret (setNext (map_option (\<lambda>nx. setVoteSet (LoadEpochVoteSet w db (epochNumber + 1))
                  (SetRewardScheme rewardscheme nx)) (loadOneEpoch w db (epochNumber + 1))) e2)))"

record genesisValidator =
  gv_EthAccount :: address
  gv_PubKey :: bytes
  gv_Amount :: int
  gv_RemainingEpoch :: u64

record oneEpochDoc =
  oed_Number :: u64
  oed_RewardPerBlock :: int
  oed_StartBlock :: u64
  oed_EndBlock :: u64
  oed_Status :: int
  oed_Validators :: "genesisValidator list"

record genesisDoc =
  gd_RewardScheme :: rewardScheme
  gd_CurrentEpoch :: oneEpochDoc

definition MakeOneEpoch :: "int \<Rightarrow> oneEpochDoc \<Rightarrow> epoch" where
  "MakeOneEpoch now oneEpoch =
    (let validators = map (\<lambda>val. \<lparr>val_Address = gv_EthAccount val, val_PubKey = gv_PubKey val,
           val_VotingPower = gv_Amount val, val_RemainingEpoch = gv_RemainingEpoch val\<rparr>)
           (oed_Validators oneEpoch)
     in Epoch \<lparr>ef_Number = oed_Number oneEpoch, ef_RewardPerBlock = oed_RewardPerBlock oneEpoch,
          ef_StartBlock = oed_StartBlock oneEpoch, ef_EndBlock = oed_EndBlock oneEpoch,
          ef_StartTime = now, ef_EndTime = 0, ef_BlockGenerated = 0, ef_Status = oed_Status oneEpoch,
          ef_Validators = NewValidatorSet validators\<rparr> None None None None)"

text \<open>\<open>Save\<close> also turns a voted next epoch into a saved one.\<close>

definition Epoch_Save :: "'v wire \<Rightarrow> epoch \<Rightarrow> 'v edb \<Rightarrow> epoch \<times> 'v edb" where
  "Epoch_Save w epoch db =
    (let db1 = db(calcEpochKeyWithHeight (ep_Number epoch) \<mapsto> EpochBytes w (ep_fields epoch));
         db2 = db1(latestEpochKey \<mapsto> StringBytes w (FormatUint (unat (ep_Number epoch))));
         nx = map_option (\<lambda>n. if ef_Status (ep_fields n) = EPOCH_VOTED_NOT_SAVED
                then setFields (ef_Status_update (\<lambda>_. EPOCH_SAVED)) n else n) (ep_nextEpoch epoch);
         db3 = (case ep_nextEpoch epoch of
              Some n \<Rightarrow> if ef_Status (ep_fields n) = EPOCH_VOTED_NOT_SAVED
                then db2(calcEpochKeyWithHeight (ep_Number n) \<mapsto> EpochBytes w (ep_fields (the nx))) else db2
            | None \<Rightarrow> db2);
         db4 = (case nx of
              Some n \<Rightarrow> (case ep_validatorVoteSet n of
                  Some vs \<Rightarrow> SaveEpochVoteSet w (ep_Number n) vs db3 | None \<Rightarrow> db3)
            | None \<Rightarrow> db3)
     in (setNext nx epoch, db4))"

definition InitEpoch :: "'v wire \<Rightarrow> int \<Rightarrow> genesisDoc \<Rightarrow> 'v edb \<Rightarrow> (epoch \<times> 'v edb) go" where
  "InitEpoch w now genDoc db = (case db latestEpochKey of
      None \<Rightarrow>
        (let rewardScheme = gd_RewardScheme genDoc;
             db1 = RewardScheme_Save w rewardScheme db;
             (ep, db2) = Epoch_Save w (MakeOneEpoch now (gd_CurrentEpoch genDoc)) db1
         in Ret (SetRewardScheme (Some rewardScheme) ep, db2))
    | Some epochNumber \<Rightarrow>
        bindGo (LoadOneEpoch w db (of_nat (ParseUint (BytesString w epochNumber)))) (\<lambda>ep. Ret (ep, db)))"

definition GetEpochValidatorVoteSet :: "'v wire \<Rightarrow> 'v edb \<Rightarrow> epoch \<Rightarrow> epoch" where
  "GetEpochValidatorVoteSet w db epoch =
    (if Option.is_none (ep_validatorVoteSet epoch) then setVoteSet (LoadEpochVoteSet w db (ep_Number epoch)) epoch
     else epoch)"

definition GetNextEpoch :: "'v wire \<Rightarrow> 'v edb \<Rightarrow> epoch \<Rightarrow> epoch" where
  "GetNextEpoch w db epoch =
    (if Option.is_none (ep_nextEpoch epoch)
     then setNext (map_option (\<lambda>nx. setVoteSet (LoadEpochVoteSet w db (ep_Number epoch + 1))
            (SetRewardScheme (ep_rs epoch) nx)) (loadOneEpoch w db (ep_Number epoch + 1))) epoch
     else epoch)"

definition SetNextEpoch :: "epoch option \<Rightarrow> epoch \<Rightarrow> epoch" where
  "SetNextEpoch next epoch = setNext (map_option (SetRewardScheme (ep_rs epoch)) next) epoch"

text \<open>
  The search for the epoch of a block goes down from the current epoch; the counter is unsigned,
  so that it wraps around below 0 and only a missing epoch ends the search.
\<close>

partial_function (option) searchEpoch :: "'v wire \<Rightarrow> 'v edb \<Rightarrow> u64 \<Rightarrow> u64 \<Rightarrow> epoch option option" where
  "searchEpoch w db blockNumber number = (case loadOneEpoch w db number of
      None \<Rightarrow> Some None
    | Some ep \<Rightarrow> if ep_StartBlock ep \<le> blockNumber \<and> blockNumber \<le> ep_EndBlock ep then Some (Some ep)
        else searchEpoch w db blockNumber (number - 1))"

declare searchEpoch.simps [code]

definition GetEpochByBlockNumber :: "'v wire \<Rightarrow> 'v edb \<Rightarrow> u64 \<Rightarrow> epoch \<Rightarrow> epoch option option" where
  "GetEpochByBlockNumber w db blockNumber epoch =
    (if ep_StartBlock epoch \<le> blockNumber \<and> blockNumber \<le> ep_EndBlock epoch then Some (Some epoch)
     else searchEpoch w db blockNumber (ep_Number epoch - 1))"

definition copyEpoch :: "epoch \<Rightarrow> epoch" where
  "copyEpoch epoch = Epoch (ep_fields epoch) (EpochValidatorVoteSet_Copy (ep_validatorVoteSet epoch))
    (ep_rs epoch) None None"

definition Epoch_Copy :: "epoch \<Rightarrow> epoch" where
  "Epoch_Copy epoch = setNext (map_option copyEpoch (ep_nextEpoch epoch))
    (setPrevious (map_option copyEpoch (ep_previousEpoch epoch)) (copyEpoch epoch))"

definition UpdateEpochEndTime :: "'v wire \<Rightarrow> u64 \<Rightarrow> int \<Rightarrow> 'v edb \<Rightarrow> 'v edb" where
  "UpdateEpochEndTime w epNumber endTime db = (case loadOneEpoch w db epNumber of
      None \<Rightarrow> db
    | Some ep \<Rightarrow> db(calcEpochKeyWithHeight epNumber \<mapsto> EpochBytes w ((ep_fields ep)\<lparr>ef_EndTime := endTime\<rparr>)))"

section \<open>Proposing the next epoch\<close>

definition calculateRewardPerEpochByYear :: "int \<Rightarrow> int \<Rightarrow> int \<Rightarrow> int \<Rightarrow> int go" where
  "calculateRewardPerEpochByYear rewardFirstYear year totalYear epochNumberPerYear =
    (if totalYear < year then Ret 0 else bigDiv rewardFirstYear epochNumberPerYear)"

definition EMERGENCY_BLOCKS_OF_NEXT_EPOCH :: u64 where
  "EMERGENCY_BLOCKS_OF_NEXT_EPOCH = 21614"

definition timePerBlock :: "epoch \<Rightarrow> u64 \<Rightarrow> int \<Rightarrow> int go" where
  "timePerBlock epoch lastBlockHeight lastBlockTime =
    bindGo (case ep_previousEpoch epoch of
        Some prevEpoch \<Rightarrow> div64 (Time_Sub (ef_EndTime (ep_fields prevEpoch)) (ef_StartTime (ep_fields prevEpoch)))
          (sint (ep_EndBlock prevEpoch - ep_StartBlock prevEpoch))
      | None \<Rightarrow> div64 (Time_Sub lastBlockTime (ef_StartTime (ep_fields epoch)))
          (sint (lastBlockHeight - ep_StartBlock epoch)))
      (\<lambda>t. Ret (if t = 0 then 1000000000 else t))"

definition atLeastEmergency :: "u64 \<Rightarrow> u64" where
  "atLeastEmergency blocks =
    (if blocks < EMERGENCY_BLOCKS_OF_NEXT_EPOCH then EMERGENCY_BLOCKS_OF_NEXT_EPOCH else blocks)"

definition estimateForNextEpoch ::
    "'v wire \<Rightarrow> int \<Rightarrow> 'v edb \<Rightarrow> epoch \<Rightarrow> u64 \<Rightarrow> int \<Rightarrow> (int \<times> u64) go" where
  "estimateForNextEpoch w zone db epoch lastBlockHeight lastBlockTime =
    (case ep_rs epoch of None \<Rightarrow> Panic ''nil rewardScheme'' | Some rs \<Rightarrow>
     (let rewardFirstYear = rs_RewardFirstYear rs;
          epochNumberPerYear = rs_EpochNumberPerYear rs;
          totalYear = rs_TotalYear rs
      in case loadOneEpoch w db 0 of None \<Rightarrow> Panic ''nil epoch'' | Some zeroEpoch \<Rightarrow>
      (let initStartTime = ef_StartTime (ep_fields zeroEpoch) in
       bindGo (divU (ep_Number epoch) epochNumberPerYear) (\<lambda>thisYear.
       let nextYear = thisYear + 1 in
       bindGo (timePerBlock epoch lastBlockHeight lastBlockTime) (\<lambda>timePerBlockOfEpoch.
       let epochLeftThisYear = epochNumberPerYear - ep_Number epoch mod epochNumberPerYear - 1;
           nextYearStartTime = addYears zone (sint nextYear) initStartTime
       in if epochLeftThisYear = 0 then
            (let nextYearEndTime = addYears zone 1 nextYearStartTime;
                 timeLeftNextYear = Time_Sub nextYearEndTime nextYearStartTime
             in bindGo (div64 timeLeftNextYear (sint epochNumberPerYear)) (\<lambda>epochTimePerEpochLeftNextYear.
                bindGo (div64 epochTimePerEpochLeftNextYear timePerBlockOfEpoch) (\<lambda>blocks.
                let blocksOfNextEpoch = atLeastEmergency (of_int blocks) in
                bindGo (calculateRewardPerEpochByYear rewardFirstYear (sint nextYear) (sint totalYear)
                          (sint epochNumberPerYear)) (\<lambda>rewardPerEpochNextYear.
                bindGo (bigDiv rewardPerEpochNextYear (sint blocksOfNextEpoch)) (\<lambda>rewardPerBlock.
                Ret (rewardPerBlock, blocksOfNextEpoch))))))
          else
            (let timeLeftThisYear = Time_Sub nextYearStartTime lastBlockTime
             in bindGo (if 0 < timeLeftThisYear
                  then bindGo (div64 timeLeftThisYear (sint epochLeftThisYear)) (\<lambda>epochTimePerEpochLeftThisYear.
                       bindGo (div64 epochTimePerEpochLeftThisYear timePerBlockOfEpoch) (\<lambda>blocks.
                       Ret (of_int blocks)))
                  else Ret 0) (\<lambda>blocks.
                let blocksOfNextEpoch = atLeastEmergency blocks in
                bindGo (calculateRewardPerEpochByYear rewardFirstYear (sint thisYear) (sint totalYear)
                          (sint epochNumberPerYear)) (\<lambda>rewardPerEpochThisYear.
                bindGo (bigDiv rewardPerEpochThisYear (sint blocksOfNextEpoch)) (\<lambda>rewardPerBlock.
                Ret (rewardPerBlock, blocksOfNextEpoch))))))))))"

definition ProposeNextEpoch :: "'v wire \<Rightarrow> int \<Rightarrow> 'v edb \<Rightarrow> epoch \<Rightarrow> u64 \<Rightarrow> int \<Rightarrow> epoch go" where
  "ProposeNextEpoch w zone db epoch lastBlockHeight lastBlockTime =
    bindGo (estimateForNextEpoch w zone db epoch lastBlockHeight lastBlockTime) (\<lambda>(rewardPerBlock, blocks).
      Ret (Epoch \<lparr>ef_Number = ep_Number epoch + 1, ef_RewardPerBlock = rewardPerBlock,
        ef_StartBlock = ep_EndBlock epoch + 1, ef_EndBlock = ep_EndBlock epoch + blocks,
        ef_StartTime = zeroTime, ef_EndTime = zeroTime, ef_BlockGenerated = 0,
        ef_Status = EPOCH_PROPOSED_NOT_VOTED, ef_Validators = ep_Validators epoch\<rparr> None None None None))"

definition ShouldProposeNextEpoch :: "epoch \<Rightarrow> u64 \<Rightarrow> bool" where
  "ShouldProposeNextEpoch epoch curBlockHeight \<longleftrightarrow> Option.is_none (ep_nextEpoch epoch)
    \<and> ep_StartBlock epoch < curBlockHeight \<and> curBlockHeight \<noteq> 1 \<and> curBlockHeight \<noteq> ep_EndBlock epoch"

text \<open>\<open>Equals\<close> of possibly nil epochs without, and with, their neighbours.\<close>

definition equalEpochs :: "epoch option \<Rightarrow> epoch option \<Rightarrow> bool" where
  "equalEpochs epoch other = (case (epoch, other) of
      (None, None) \<Rightarrow> True
    | (Some e, Some o') \<Rightarrow> ep_Number e = ep_Number o'
        \<and> ef_RewardPerBlock (ep_fields e) = ef_RewardPerBlock (ep_fields o')
        \<and> ep_StartBlock e = ep_StartBlock o' \<and> ep_EndBlock e = ep_EndBlock o'
        \<and> ValidatorSet_Equals (ep_Validators e) (ep_Validators o')
    | _ \<Rightarrow> False)"

definition Epoch_Equals :: "epoch option \<Rightarrow> epoch option \<Rightarrow> bool \<Rightarrow> bool" where
  "Epoch_Equals epoch other checkPrevNext \<longleftrightarrow> equalEpochs epoch other
    \<and> (checkPrevNext \<longrightarrow> (case (epoch, other) of
        (Some e, Some o') \<Rightarrow> equalEpochs (ep_previousEpoch e) (ep_previousEpoch o')
          \<and> equalEpochs (ep_nextEpoch e) (ep_nextEpoch o')
      | _ \<Rightarrow> True))"

text \<open>The warning about unexpected parameters prints the epoch and dereferences it.\<close>

definition ValidateNextEpoch ::
    "'v wire \<Rightarrow> int \<Rightarrow> 'v edb \<Rightarrow> epoch \<Rightarrow> epoch option \<Rightarrow> u64 \<Rightarrow> int \<Rightarrow> epochErr option go" where
  "ValidateNextEpoch w zone db epoch next lastHeight lastBlockTime =
    bindGo (ProposeNextEpoch w zone db epoch lastHeight lastBlockTime) (\<lambda>myNextEpoch.
      if Epoch_Equals (Some myNextEpoch) next False then Ret None
      else if Option.is_none next then Panic ''nil epoch''
      else Ret (Some NextEpochNotEXPECTED))"

section \<open>The validators of the next epoch\<close>

record refundValidatorAmount =
  rva_Address :: address
  rva_Amount :: "int option"
  rva_Voteout :: bool

text \<open>The loop that sets the voting powers from the balances and drops validators without power.\<close>

function refreshPowers :: "(address \<Rightarrow> int) \<Rightarrow> nat \<Rightarrow> validatorSet \<Rightarrow> validatorSet" where
  "refreshPowers newVotingPower i validators =
    (if i < length (vs_Validators validators) then
       (let v = vs_Validators validators ! i;
            power = newVotingPower (BytesToAddress (val_Address v))
        in if power = 0
           then refreshPowers newVotingPower i (fst (ValidatorSet_Remove validators (val_Address v)))
           else refreshPowers newVotingPower (i + 1)
             (validators\<lparr>vs_Validators := (vs_Validators validators)[i := v\<lparr>val_VotingPower := power\<rparr>]\<rparr>))
     else validators)"
  by pat_completeness auto
termination
proof (relation "measure (\<lambda>(p, i, vs). length (vs_Validators vs) - i)", goal_cases)
  case (2 p i vs v power)
  then have "\<not> (ValidatorSet_index vs (val_Address v) = None)"
    by (auto simp: ValidatorSet_index_def)
  then obtain k where k: "ValidatorSet_index vs (val_Address v) = Some k" by blast
  then have "k < length (vs_Validators vs)" using find_index_Some by (fastforce simp: ValidatorSet_index_def)
  then show ?case using k 2 by (simp add: ValidatorSet_Remove_def)
qed auto

declare refreshPowers.simps [simp del]

definition applyVote :: "epochValidatorVote \<Rightarrow> validatorSet \<times> refundValidatorAmount list \<times> nat
    \<Rightarrow> validatorSet \<times> refundValidatorAmount list \<times> nat" where
  "applyVote v acc = (case acc of (validators, refund, newValSize) \<Rightarrow>
    (case (evv_Amount v, evv_PubKey v) of
       (Some amount, Some pubKey) \<Rightarrow>
         if evv_Salt v = [] then acc
         else (case ValidatorSet_GetByAddress validators (evv_Address v) of
             (_, None) \<Rightarrow>
               (case ValidatorSet_Add validators (NewValidator (evv_Address v) pubKey amount) of
                  (validators', added) \<Rightarrow> (validators', refund, if added then newValSize + 1 else newValSize))
           | (_, Some validator) \<Rightarrow>
               if amount = 0 then
                 (case ValidatorSet_Remove validators (val_Address validator) of
                    (validators', _, removed) \<Rightarrow> (validators', if removed
                      then refund @ [\<lparr>rva_Address = evv_Address v,
                        rva_Amount = Some (val_VotingPower validator), rva_Voteout = False\<rparr>]
                      else refund, newValSize))
               else (fst (ValidatorSet_Update validators (validator\<lparr>val_VotingPower := amount\<rparr>)),
                 if amount < val_VotingPower validator
                 then refund @ [\<lparr>rva_Address = evv_Address v,
                   rva_Amount = Some (val_VotingPower validator - amount), rva_Voteout = False\<rparr>]
                 else refund, newValSize))
     | _ \<Rightarrow> acc))"

text \<open>The order of the knock-out: more remaining epochs first, then more power.\<close>

definition knockLess :: "validator \<Rightarrow> validator \<Rightarrow> bool" where
  "knockLess a b = (if val_RemainingEpoch a = val_RemainingEpoch b
    then val_VotingPower b < val_VotingPower a else val_RemainingEpoch b < val_RemainingEpoch a)"

definition countDown :: "validator \<Rightarrow> validator" where
  "countDown v = (if 0 < val_RemainingEpoch v then v\<lparr>val_RemainingEpoch := val_RemainingEpoch v - 1\<rparr> else v)"

definition updateEpochValidatorSet :: "(validator list \<Rightarrow> validator list) \<Rightarrow> validatorSet
    \<Rightarrow> epochValidatorVoteSet option \<Rightarrow> validatorSet \<times> refundValidatorAmount list" where
  "updateEpochValidatorSet srt validators voteSet =
    (let oldValSize = ValidatorSet_Size validators;
         (vals1, refund, newValSize) =
           (if IsEmpty voteSet then (validators, [], 0)
            else fold applyVote (votes_of (the voteSet)) (validators, [], 0));
         valSize = oldValSize + newValSize;
         valSize = (if MaximumValidatorsSize < valSize then MaximumValidatorsSize
                    else if valSize < MinimumValidatorsSize then MinimumValidatorsSize else valSize);
         vals2 = vals1\<lparr>vs_Validators := map countDown (vs_Validators vals1)\<rparr>
     in if valSize < ValidatorSet_Size vals2 then
          (let sorted = srt (vs_Validators vals2);
               knockout = drop valSize sorted
           in (vals2\<lparr>vs_Validators := take valSize sorted\<rparr>,
               refund @ map (\<lambda>k. \<lparr>rva_Address = BytesToAddress (val_Address k), rva_Amount = None,
                                  rva_Voteout = True\<rparr>) knockout))
        else (vals2, refund))"

definition DryRunUpdateEpochValidatorSet :: "(validator list \<Rightarrow> validator list) \<Rightarrow> stateDB
    \<Rightarrow> validatorSet \<Rightarrow> epochValidatorVoteSet option \<Rightarrow> validatorSet" where
  "DryRunUpdateEpochValidatorSet srt state validators voteSet =
    (let newVotingPower = (\<lambda>vAddr. StateDB_GetTotalProxiedBalance state vAddr
           + StateDB_GetTotalDepositProxiedBalance state vAddr
           - StateDB_GetTotalPendingRefundBalance state vAddr + StateDB_GetDepositBalance state vAddr);
         voteSet' = (if Option.is_none voteSet then Some NewEpochValidatorVoteSet else voteSet)
     in fst (updateEpochValidatorSet srt (refreshPowers newVotingPower 0 validators) voteSet'))"

section \<open>Entering the next epoch\<close>

text \<open>The refunds of delegations that were taken back during the epoch.\<close>

definition refundDelegate :: "address \<Rightarrow> stateDB \<Rightarrow> stateDB go" where
  "refundDelegate refundAddress state =
    bindGo (StateDB_ForEachProxied refundAddress (\<lambda>key proxiedBalance depositProxiedBalance pendingRefundBalance s.
        if 0 < pendingRefundBalance then
          StateDB_AddBalance key pendingRefundBalance
            (StateDB_SubDelegateBalance key pendingRefundBalance
              (StateDB_SubPendingRefundBalanceByUser refundAddress key pendingRefundBalance
                (StateDB_SubDepositProxiedBalanceByUser refundAddress key pendingRefundBalance s)))
        else s) state) (\<lambda>s1.
      Ret (if \<not> StateDB_IsCandidate s1 refundAddress then StateDB_ClearCommission refundAddress s1 else s1))"

text \<open>Delegations to a validator of the new epoch become deposits.\<close>

definition lockDelegations :: "address \<Rightarrow> stateDB \<Rightarrow> stateDB go" where
  "lockDelegations vAddr state =
    (if StateDB_IsCandidate state vAddr \<and> 0 < StateDB_GetTotalProxiedBalance state vAddr
     then StateDB_ForEachProxied vAddr (\<lambda>key proxiedBalance depositProxiedBalance pendingRefundBalance s.
        if 0 < proxiedBalance then
          StateDB_AddDepositProxiedBalanceByUser vAddr key proxiedBalance
            (StateDB_SubProxiedBalanceByUser vAddr key proxiedBalance s)
        else s) state
     else Ret state)"

text \<open>
  The refunds of validators that left or reduced their deposit, and of those that were knocked
  out. A nil amount is dereferenced only for the former, which always have one.
\<close>

definition payRefund :: "refundValidatorAmount \<Rightarrow> stateDB \<Rightarrow> stateDB go" where
  "payRefund r state =
    (if \<not> rva_Voteout r then
       (case rva_Amount r of None \<Rightarrow> Panic ''nil amount''
        | Some amount \<Rightarrow> Ret (StateDB_AddBalance (rva_Address r) amount
            (StateDB_SubDepositBalance (rva_Address r) amount state)))
     else
       bindGo (if StateDB_IsCandidate state (rva_Address r) then
           StateDB_ForEachProxied (rva_Address r) (\<lambda>key proxiedBalance depositProxiedBalance pendingRefundBalance s.
             if 0 < depositProxiedBalance then
               StateDB_AddProxiedBalanceByUser (rva_Address r) key depositProxiedBalance
                 (StateDB_SubDepositProxiedBalanceByUser (rva_Address r) key depositProxiedBalance s)
             else s) state
         else Ret state) (\<lambda>s1.
       let depositBalance = StateDB_GetDepositBalance s1 (rva_Address r) in
       Ret (StateDB_AddBalance (rva_Address r) depositBalance
         (StateDB_SubDepositBalance (rva_Address r) depositBalance s1))))"

definition ShouldEnterNewEpoch :: "'v wire \<Rightarrow> (validator list \<Rightarrow> validator list) \<Rightarrow> 'v edb \<Rightarrow> u64
    \<Rightarrow> epoch \<Rightarrow> stateDB \<Rightarrow> (bool \<times> validatorSet option \<times> epochErr option \<times> epoch \<times> stateDB) go" where
  "ShouldEnterNewEpoch w srt db height epoch state =
    (if height = ep_EndBlock epoch then
       (let epoch1 = GetNextEpoch w db epoch in
        case ep_nextEpoch epoch1 of
          None \<Rightarrow> Ret (False, None, Some NextEpochNotExist, epoch1, state)
        | Some nextEpoch \<Rightarrow>
            (let (s0, refundSet) = StateDB_GetDelegateAddressRefundSet state in
             bindGo (foldGo refundDelegate refundSet s0) (\<lambda>s1.
             let s2 = StateDB_ClearDelegateRefundSet s1;
                 nextEpochVoteSet = (case EpochValidatorVoteSet_Copy (ep_validatorVoteSet nextEpoch) of
                     None \<Rightarrow> NewEpochValidatorVoteSet | Some vs \<Rightarrow> vs);
                 newVotingPower = (\<lambda>vAddr. StateDB_GetTotalProxiedBalance s2 vAddr
                   + StateDB_GetTotalDepositProxiedBalance s2 vAddr + StateDB_GetDepositBalance s2 vAddr);
                 (newValidators, refunds) = updateEpochValidatorSet srt
                   (refreshPowers newVotingPower 0 (ep_Validators epoch1)) (Some nextEpochVoteSet)
             in bindGo (foldGo (\<lambda>v. lockDelegations (BytesToAddress (val_Address v)))
                          (vs_Validators newValidators) s2) (\<lambda>s3.
                bindGo (foldGo payRefund refunds s3) (\<lambda>s4.
                Ret (True, Some newValidators, None, epoch1, s4))))))
     else Ret (False, None, None, epoch, state))"

text \<open>
  \<open>EnterNewEpoch\<close> returns the new epoch; the old one is saved with its end time and stays its
  predecessor.
\<close>

definition EnterNewEpoch :: "'v wire \<Rightarrow> int \<Rightarrow> validatorSet \<Rightarrow> epoch \<Rightarrow> 'v edb
    \<Rightarrow> (epochErr + epoch) \<times> 'v edb" where
  "EnterNewEpoch w now newValidators epoch db = (case ep_nextEpoch epoch of
      None \<Rightarrow> (Inl NextEpochNotExist, db)
    | Some _ \<Rightarrow>
        (let (epoch1, db1) = Epoch_Save w (setFields (ef_EndTime_update (\<lambda>_. now)) epoch) db;
             nextEpoch = setNext None (setFields (\<lambda>f. f\<lparr>ef_StartTime := now, ef_Validators := newValidators\<rparr>)
               (setPrevious (Some (Epoch_Copy epoch1)) (the (ep_nextEpoch epoch1))));
             (nextEpoch1, db2) = Epoch_Save w nextEpoch db1
         in (Inr nextEpoch1, db2)))"

section \<open>Votes for the next epoch\<close>

text \<open>
  The three handlers of \<open>cross_chain.go\<close>. A vote set that did not exist is only saved to the
  store and read from there the next time; otherwise the set belongs to the next epoch and is
  changed in place.
\<close>

definition withNextVoteSet :: "'v wire \<Rightarrow> (epochValidatorVoteSet option \<Rightarrow> epochValidatorVoteSet go)
    \<Rightarrow> epoch \<Rightarrow> 'v edb \<Rightarrow> (epoch \<times> 'v edb) go" where
  "withNextVoteSet w f ep db =
    (let ep1 = GetNextEpoch w db ep in
     case ep_nextEpoch ep1 of None \<Rightarrow> Panic ''nil epoch''
     | Some nx \<Rightarrow>
         (let nx1 = GetEpochValidatorVoteSet w db nx in
          bindGo (f (ep_validatorVoteSet nx1)) (\<lambda>voteSet.
            Ret (setNext (Some (if Option.is_none (ep_validatorVoteSet nx1) then nx1 else setVoteSet (Some voteSet) nx1)) ep1,
                 SaveEpochVoteSet w (ep_Number nx1) voteSet db))))"

definition VoteNextEpoch ::
    "'v wire \<Rightarrow> address \<Rightarrow> hash \<Rightarrow> hash \<Rightarrow> epoch \<Rightarrow> 'v edb \<Rightarrow> (epoch \<times> 'v edb) go" where
  "VoteNextEpoch w from voteHash txHash = withNextVoteSet w (\<lambda>vs.
    let voteSet = (case vs of None \<Rightarrow> NewEpochValidatorVoteSet | Some s \<Rightarrow> s) in
    case GetVoteByAddress voteSet from of
      Some vote \<Rightarrow> Ret (writeVote vote (\<lambda>v. v\<lparr>evv_VoteHash := voteHash, evv_TxHash := txHash\<rparr>) voteSet)
    | None \<Rightarrow> (case newVote \<lparr>evv_Address = from, evv_PubKey = None, evv_Amount = None, evv_Salt = [],
          evv_VoteHash = voteHash, evv_TxHash = txHash\<rparr> voteSet of (voteSet1, vote) \<Rightarrow> StoreVote vote voteSet1))"

text \<open>\<open>RevealVote\<close> does not expect that there is no vote set yet and dereferences it.\<close>

definition RevealVote :: "'v wire \<Rightarrow> address \<Rightarrow> bytes option \<Rightarrow> int option \<Rightarrow> string \<Rightarrow> hash
    \<Rightarrow> epoch \<Rightarrow> 'v edb \<Rightarrow> (epoch \<times> 'v edb) go" where
  "RevealVote w from pubkey depositAmount salt txHash = withNextVoteSet w (\<lambda>vs.
    case vs of None \<Rightarrow> Panic ''nil voteSet''
    | Some voteSet \<Rightarrow> (case GetVoteByAddress voteSet from of
        Some vote \<Rightarrow> Ret (writeVote vote (\<lambda>v. v\<lparr>evv_PubKey := pubkey, evv_Amount := depositAmount,
          evv_Salt := salt, evv_TxHash := txHash\<rparr>) voteSet)
      | None \<Rightarrow> Ret voteSet))"

definition UpdateNextEpoch :: "'v wire \<Rightarrow> address \<Rightarrow> bytes option \<Rightarrow> int option \<Rightarrow> string \<Rightarrow> hash
    \<Rightarrow> epoch \<Rightarrow> 'v edb \<Rightarrow> (epoch \<times> 'v edb) go" where
  "UpdateNextEpoch w from pubkey depositAmount salt txHash = withNextVoteSet w (\<lambda>vs.
    let voteSet = (case vs of None \<Rightarrow> NewEpochValidatorVoteSet | Some s \<Rightarrow> s) in
    case GetVoteByAddress voteSet from of
      Some vote \<Rightarrow> Ret (writeVote vote (\<lambda>v. v\<lparr>evv_Amount := depositAmount, evv_TxHash := txHash\<rparr>) voteSet)
    | None \<Rightarrow> (case newVote \<lparr>evv_Address = from, evv_PubKey = pubkey, evv_Amount = depositAmount,
          evv_Salt = ''ligochain'', evv_VoteHash = zeroHash, evv_TxHash = txHash\<rparr> voteSet of
        (voteSet1, vote) \<Rightarrow> StoreVote vote voteSet1))"

section \<open>Inserted blocks\<close>

definition updateLocalEpoch :: "'v wire \<Rightarrow> u64 \<Rightarrow> epoch option \<Rightarrow> epoch \<Rightarrow> 'v edb \<Rightarrow> (epoch \<times> 'v edb) go" where
  "updateLocalEpoch w blockNumber epochInBlock currentEpoch db =
    (if blockNumber = 0 then Ret (currentEpoch, db) else
     case epochInBlock of None \<Rightarrow> Ret (currentEpoch, db)
     | Some inBlock \<Rightarrow>
         if ep_Number inBlock = ep_Number currentEpoch + 1 then
           bindGo (if blockNumber = ep_StartBlock currentEpoch + 1 \<or> blockNumber = 2
                then Ret (SetNextEpoch (Some (SetRewardScheme (ep_rs currentEpoch)
                  (setFields (ef_Status_update (\<lambda>_. EPOCH_VOTED_NOT_SAVED)) inBlock))) currentEpoch)
              else if blockNumber = ep_EndBlock currentEpoch then
                (let cur1 = GetNextEpoch w db currentEpoch in
                 case ep_nextEpoch cur1 of None \<Rightarrow> Panic ''nil epoch''
                 | Some nextEp \<Rightarrow> Ret (setNext (Some (setFields (\<lambda>f. f\<lparr>ef_Validators := ep_Validators inBlock,
                     ef_Status := EPOCH_VOTED_NOT_SAVED\<rparr>) nextEp)) cur1))
              else Ret currentEpoch) (\<lambda>cur2.
           Ret (Epoch_Save w cur2 db))
         else if ep_Number inBlock = ep_Number currentEpoch then
           (let startTime = ef_StartTime (ep_fields inBlock);
                (cur1, db1) = Epoch_Save w (setFields (ef_StartTime_update (\<lambda>_. startTime)) currentEpoch) db
            in if 0 < ep_Number cur1 then
                 (case ep_previousEpoch cur1 of None \<Rightarrow> Panic ''nil epoch''
                  | Some prev \<Rightarrow> Ret (setPrevious (Some (setFields (ef_EndTime_update (\<lambda>_. startTime)) prev)) cur1,
                      UpdateEpochEndTime w (ep_Number cur1 - 1) startTime db1))
               else Ret (cur1, db1))
         else Ret (currentEpoch, db))"

text \<open>
  \<open>autoStartMining\<close>, before the last block of an epoch: the next validators are computed, and the
  second result tells whether the node starts mining. \<open>started\<close> is \<open>eng.IsStarted()\<close>.
\<close>

definition autoStartMining :: "'v wire \<Rightarrow> (validator list \<Rightarrow> validator list) \<Rightarrow> 'v edb \<Rightarrow> u64 \<Rightarrow> stateDB
    \<Rightarrow> address \<Rightarrow> bool \<Rightarrow> epoch \<Rightarrow> (epoch \<times> bool) go" where
  "autoStartMining w srt db blockNumber state privateValidator started currentEpoch =
    (if blockNumber = ep_EndBlock currentEpoch - 1 then
       (let cur1 = GetNextEpoch w db currentEpoch in
        case ep_nextEpoch cur1 of None \<Rightarrow> Panic ''nil epoch''
        | Some nextEp \<Rightarrow>
            (let nextEp1 = GetEpochValidatorVoteSet w db nextEp;
                 nextValidators = DryRunUpdateEpochValidatorSet srt state (ep_Validators cur1)
                   (ep_validatorVoteSet nextEp1)
             in Ret (setNext (Some (setFields (ef_Validators_update (\<lambda>_. nextValidators)) nextEp1)) cur1,
                  ValidatorSet_HasAddress nextValidators privateValidator \<and> \<not> started)))
     else Ret (currentEpoch, False))"

end
