(* ===== verification/Epoch_Validators.thy ===== *)
theory Epoch_Validators
  imports Epochs "HOL-Library.Multiset"
begin

text \<open>
  The validators of the next epoch: what the loop over the balances and the loop over the votes
  compute, and the properties of the resulting set.
\<close>

section \<open>Validators by address\<close>

definition addrs :: "validatorSet \<Rightarrow> bytes list" where
  "addrs vs = map val_Address (vs_Validators vs)"

definition powers :: "validatorSet \<Rightarrow> bytes \<rightharpoonup> int" where
  "powers vs = map_of (map (\<lambda>v. (val_Address v, val_VotingPower v)) (vs_Validators vs))"

lemma powers_in: "distinct (addrs vs) \<Longrightarrow> powers vs a = Some p
    \<longleftrightarrow> (\<exists>v\<in>set (vs_Validators vs). val_Address v = a \<and> val_VotingPower v = p)"
  by (auto simp: powers_def addrs_def map_of_eq_Some_iff comp_def)

lemma powers_None: "powers vs a = None \<longleftrightarrow> a \<notin> set (addrs vs)"
  by (auto simp: powers_def addrs_def map_of_eq_None_iff comp_def image_iff)

lemma split_at_index:
  assumes "ValidatorSet_index vs a = Some i" "distinct (addrs vs)"
  obtains us v ws where "vs_Validators vs = us @ v # ws" "length us = i" "val_Address v = a"
    "a \<notin> val_Address ` set us" "a \<notin> val_Address ` set ws"
proof -
  have i: "i < length (vs_Validators vs)" "val_Address (vs_Validators vs ! i) = a"
    using find_index_Some [of _ "vs_Validators vs" i] assms(1) by (auto simp: ValidatorSet_index_def)
  have s: "vs_Validators vs = take i (vs_Validators vs) @ vs_Validators vs ! i # drop (Suc i) (vs_Validators vs)"
    by (rule id_take_nth_drop [OF i(1)])
  have "distinct (map val_Address (take i (vs_Validators vs) @ vs_Validators vs ! i # drop (Suc i) (vs_Validators vs)))"
    using assms(2) s by (simp add: addrs_def)
  then have "a \<notin> val_Address ` set (take i (vs_Validators vs))" "a \<notin> val_Address ` set (drop (Suc i) (vs_Validators vs))"
    using i(2) by auto
  then show thesis using s i by (intro that [of "take i (vs_Validators vs)" _ "drop (Suc i) (vs_Validators vs)"]) auto
qed

lemma filter_others:
  assumes "distinct (map f (us @ v # ws))"
  shows "filter (\<lambda>x. f x \<noteq> f v) (us @ v # ws) = us @ ws"
proof -
  have "\<forall>x\<in>set us. f x \<noteq> f v" "\<forall>x\<in>set ws. f x \<noteq> f v" using assms by (auto simp: image_iff)
  then show ?thesis by simp
qed

lemma index_None: "ValidatorSet_index vs a = None \<longleftrightarrow> a \<notin> set (addrs vs)"
  by (auto simp: ValidatorSet_index_def addrs_def image_iff)

lemma GetByAddress_powers:
  assumes "distinct (addrs vs)"
  shows "map_option val_VotingPower (snd (ValidatorSet_GetByAddress vs a)) = powers vs a"
proof (cases "ValidatorSet_index vs a")
  case None
  then have "powers vs a = None" using powers_None [of vs a] index_None [of vs a] by simp
  then show ?thesis using None by (simp add: ValidatorSet_GetByAddress_def)
next
  case (Some i)
  then obtain us v ws where "vs_Validators vs = us @ v # ws" "length us = i" "val_Address v = a"
    by (rule split_at_index [OF _ assms])
  then show ?thesis using Some powers_in [OF assms, of a "val_VotingPower v"]
    by (auto simp: ValidatorSet_GetByAddress_def)
qed

lemma Add_powers:
  assumes "distinct (addrs vs)" "val_Address v \<notin> set (addrs vs)"
  shows "ValidatorSet_Add vs v = (vs\<lparr>vs_Validators := vs_Validators vs @ [v], vs_totalVotingPower := None\<rparr>, True)"
    "distinct (addrs (fst (ValidatorSet_Add vs v)))"
    "powers (fst (ValidatorSet_Add vs v)) = (powers vs)(val_Address v \<mapsto> val_VotingPower v)"
proof -
  show eq: "ValidatorSet_Add vs v = (vs\<lparr>vs_Validators := vs_Validators vs @ [v], vs_totalVotingPower := None\<rparr>, True)"
    using assms(2) index_None [of vs "val_Address v"] by (simp add: ValidatorSet_Add_def)
  show "distinct (addrs (fst (ValidatorSet_Add vs v)))"
    using assms by (simp add: eq addrs_def)
  have "powers vs (val_Address v) = None" using assms(2) powers_None by blast
  then show "powers (fst (ValidatorSet_Add vs v)) = (powers vs)(val_Address v \<mapsto> val_VotingPower v)"
    by (intro ext) (auto simp: eq powers_def map_add_def split: option.splits)
qed

lemma Remove_powers:
  assumes d: "distinct (addrs vs)" and a: "a \<in> set (addrs vs)"
  shows "fst (ValidatorSet_Remove vs a)
      = vs\<lparr>vs_Validators := filter (\<lambda>v. val_Address v \<noteq> a) (vs_Validators vs), vs_totalVotingPower := None\<rparr>"
    "snd (snd (ValidatorSet_Remove vs a))"
    "distinct (addrs (fst (ValidatorSet_Remove vs a)))"
    "powers (fst (ValidatorSet_Remove vs a)) = (powers vs)(a := None)"
    "length (vs_Validators (fst (ValidatorSet_Remove vs a))) < length (vs_Validators vs)"
proof -
  obtain i where i: "ValidatorSet_index vs a = Some i" using a index_None [of vs a] by auto
  obtain us v ws where s: "vs_Validators vs = us @ v # ws" "length us = i" "val_Address v = a"
    "a \<notin> val_Address ` set us" "a \<notin> val_Address ` set ws"
    by (rule split_at_index [OF i d])
  have f: "filter (\<lambda>v. val_Address v \<noteq> a) us = us" "filter (\<lambda>v. val_Address v \<noteq> a) ws = ws"
    using s(4,5) by (auto simp: filter_id_conv image_iff)
  show eq: "fst (ValidatorSet_Remove vs a)
      = vs\<lparr>vs_Validators := filter (\<lambda>v. val_Address v \<noteq> a) (vs_Validators vs), vs_totalVotingPower := None\<rparr>"
    using i s f by (simp add: ValidatorSet_Remove_def)
  show "snd (snd (ValidatorSet_Remove vs a))" using i by (simp add: ValidatorSet_Remove_def)
  show d': "distinct (addrs (fst (ValidatorSet_Remove vs a)))"
    using d unfolding eq by (simp add: addrs_def distinct_map_filter)
  show "powers (fst (ValidatorSet_Remove vs a)) = (powers vs)(a := None)"
  proof (rule ext)
    fix b
    have "powers (fst (ValidatorSet_Remove vs a)) b = Some p \<longleftrightarrow> ((powers vs)(a := None)) b = Some p" for p
      using powers_in [OF d', of b p] powers_in [OF d, of b p] unfolding eq by auto
    then show "powers (fst (ValidatorSet_Remove vs a)) b = ((powers vs)(a := None)) b"
      by (metis option.exhaust)
  qed
  show "length (vs_Validators (fst (ValidatorSet_Remove vs a))) < length (vs_Validators vs)"
    unfolding eq using s f by simp
qed

lemma Update_powers:
  assumes d: "distinct (addrs vs)" and g: "snd (ValidatorSet_GetByAddress vs a) = Some v"
  shows "distinct (addrs (fst (ValidatorSet_Update vs (v\<lparr>val_VotingPower := x\<rparr>))))"
    "powers (fst (ValidatorSet_Update vs (v\<lparr>val_VotingPower := x\<rparr>))) = (powers vs)(a \<mapsto> x)"
    "length (vs_Validators (fst (ValidatorSet_Update vs (v\<lparr>val_VotingPower := x\<rparr>)))) = length (vs_Validators vs)"
proof -
  obtain i where i: "ValidatorSet_index vs a = Some i"
    using g by (cases "ValidatorSet_index vs a") (auto simp: ValidatorSet_GetByAddress_def)
  obtain us v' ws where s: "vs_Validators vs = us @ v' # ws" "length us = i" "val_Address v' = a"
    "a \<notin> val_Address ` set us" "a \<notin> val_Address ` set ws"
    by (rule split_at_index [OF i d])
  have v: "v' = v" using g i s(1,2) by (auto simp: ValidatorSet_GetByAddress_def)
  have eq: "fst (ValidatorSet_Update vs (v\<lparr>val_VotingPower := x\<rparr>))
      = vs\<lparr>vs_Validators := us @ v\<lparr>val_VotingPower := x\<rparr> # ws, vs_totalVotingPower := None\<rparr>"
    using i s v by (simp add: ValidatorSet_Update_def ValidatorSet_GetByAddress_def list_update_append)
  show d': "distinct (addrs (fst (ValidatorSet_Update vs (v\<lparr>val_VotingPower := x\<rparr>))))"
    using d s v by (simp add: eq addrs_def)
  show "length (vs_Validators (fst (ValidatorSet_Update vs (v\<lparr>val_VotingPower := x\<rparr>)))) = length (vs_Validators vs)"
    using s by (simp add: eq)
  show "powers (fst (ValidatorSet_Update vs (v\<lparr>val_VotingPower := x\<rparr>))) = (powers vs)(a \<mapsto> x)"
  proof -
    have "val_Address v \<notin> dom (map_of (map (\<lambda>v. (val_Address v, val_VotingPower v)) us))"
      using s(3,4) v by (auto simp: dom_map_of_conv_image_fst image_image)
    then show ?thesis using s(1,3) v by (simp add: eq powers_def map_add_upd_left)
  qed
qed

section \<open>Voting powers from balances\<close>

text \<open>The reference: set every pw, and drop the validators without pw.\<close>

definition repower :: "(address \<Rightarrow> int) \<Rightarrow> validator list \<Rightarrow> validator list" where
  "repower pw vals = map (\<lambda>v. v\<lparr>val_VotingPower := pw (BytesToAddress (val_Address v))\<rparr>)
    (filter (\<lambda>v. pw (BytesToAddress (val_Address v)) \<noteq> 0) vals)"

lemma refreshPowers_from:
  assumes "distinct (addrs vs)" "i \<le> length (vs_Validators vs)"
  shows "vs_Validators (refreshPowers pw i vs)
    = take i (vs_Validators vs) @ repower pw (drop i (vs_Validators vs))"
  using assms
proof (induction pw i vs rule: refreshPowers.induct)
  case (1 pw i vs)
  show ?case
  proof (cases "i < length (vs_Validators vs)")
    case False
    then have "refreshPowers pw i vs = vs" by (simp add: refreshPowers.simps [of pw i vs])
    then show ?thesis using 1(4) False by (simp add: repower_def)
  next
    case True
    let ?v = "vs_Validators vs ! i"
    let ?us = "take i (vs_Validators vs)" and ?ws = "drop (Suc i) (vs_Validators vs)"
    have s: "vs_Validators vs = ?us @ ?v # ?ws" by (rule id_take_nth_drop [OF True])
    have d: "distinct (map val_Address (?us @ ?v # ?ws))" using 1(3) s by (simp add: addrs_def)
    have dr: "drop i (vs_Validators vs) = ?v # ?ws" using True by (simp add: Cons_nth_drop_Suc)
    show ?thesis
    proof (cases "pw (BytesToAddress (val_Address ?v)) = 0")
      case p: True
      let ?vs = "fst (ValidatorSet_Remove vs (val_Address ?v))"
      have a: "val_Address ?v \<in> set (addrs vs)" using True by (simp add: addrs_def)
      have "filter (\<lambda>v. val_Address v \<noteq> val_Address ?v) (?us @ ?v # ?ws) = ?us @ ?ws"
        by (rule filter_others [OF d])
      then have e: "vs_Validators ?vs = ?us @ ?ws" using Remove_powers(1) [OF 1(3) a] s by simp
      have l: "length ?us = i" using True by simp
      have "vs_Validators (refreshPowers pw i ?vs) = take i (vs_Validators ?vs) @ repower pw (drop i (vs_Validators ?vs))"
        by (rule 1(1) [OF True refl refl p]) (use Remove_powers(3) [OF 1(3) a] e l in auto)
      then show ?thesis using True p e l dr
        by (simp add: refreshPowers.simps [of pw i vs] Let_def repower_def)
    next
      case p: False
      let ?v' = "?v\<lparr>val_VotingPower := pw (BytesToAddress (val_Address ?v))\<rparr>"
      let ?vs = "vs\<lparr>vs_Validators := (vs_Validators vs)[i := ?v']\<rparr>"
      have "(vs_Validators vs)[i := ?v'] = ?us @ ?v' # ?ws" using True by (simp add: upd_conv_take_nth_drop)
      then have e: "vs_Validators ?vs = (?us @ [?v']) @ ?ws" by simp
      have l: "length (?us @ [?v']) = i + 1" using True by simp
      have "distinct (addrs ?vs)" using d unfolding addrs_def e by simp
      then have "vs_Validators (refreshPowers pw (i + 1) ?vs)
          = take (i + 1) (vs_Validators ?vs) @ repower pw (drop (i + 1) (vs_Validators ?vs))"
        by (rule 1(2) [OF True refl refl p]) (use True in simp)
      then have "vs_Validators (refreshPowers pw (i + 1) ?vs) = (?us @ [?v']) @ repower pw ?ws"
        unfolding e using l by simp
      then show ?thesis using True p dr
        by (simp add: refreshPowers.simps [of pw i vs] Let_def repower_def)
    qed
  qed
qed

lemma repower_addrs: "map val_Address (repower pw vals)
    = map val_Address (filter (\<lambda>v. pw (BytesToAddress (val_Address v)) \<noteq> 0) vals)"
  by (simp add: repower_def)

section \<open>Applying the votes\<close>

text \<open>The amount a vote asks for; a vote that was not revealed asks for nothing.\<close>

definition effective :: "epochValidatorVote \<Rightarrow> int option" where
  "effective v = (case (evv_Amount v, evv_PubKey v) of
     (Some amount, Some _) \<Rightarrow> if evv_Salt v = [] then None else Some amount | _ \<Rightarrow> None)"

text \<open>The power after a vote; a vote for 0 takes a validator out.\<close>

definition voted :: "int option \<Rightarrow> int option \<Rightarrow> int option" where
  "voted vote old = (case vote of None \<Rightarrow> old | Some x \<Rightarrow> if x = 0 \<and> old \<noteq> None then None else Some x)"

text \<open>The refund for a vote of a validator with power \<open>p\<close>.\<close>

definition refund_for :: "epochValidatorVote \<Rightarrow> int option \<Rightarrow> refundValidatorAmount list" where
  "refund_for v old = (case (effective v, old) of
     (Some x, Some p) \<Rightarrow> if x = 0 \<or> x < p
       then [\<lparr>rva_Address = evv_Address v, rva_Amount = Some (p - x), rva_Voteout = False\<rparr>] else []
   | _ \<Rightarrow> [])"

lemma applyVote_step:
  assumes d: "distinct (addrs vals)" and r: "applyVote v (vals, refund, n) = (vals', refund', n')"
  shows "distinct (addrs vals')"
    "powers vals' = (powers vals)(evv_Address v := voted (effective v) (powers vals (evv_Address v)))"
    "refund' = refund @ refund_for v (powers vals (evv_Address v))"
    "length (vs_Validators vals') + n \<le> length (vs_Validators vals) + n'"
proof -
  let ?a = "evv_Address v"
  have g: "powers vals ?a = map_option val_VotingPower (snd (ValidatorSet_GetByAddress vals ?a))"
    using GetByAddress_powers [OF d] by simp
  have "distinct (addrs vals') \<and> powers vals' = (powers vals)(?a := voted (effective v) (powers vals ?a))
    \<and> refund' = refund @ refund_for v (powers vals ?a)
    \<and> length (vs_Validators vals') + n \<le> length (vs_Validators vals) + n'"
  proof (cases "effective v")
    case None
    then have "applyVote v (vals, refund, n) = (vals, refund, n)"
      by (auto simp: effective_def applyVote_def split: option.splits if_splits)
    then show ?thesis using r d None by (auto simp: voted_def refund_for_def)
  next
    case (Some x)
    then obtain pk where v: "evv_Amount v = Some x" "evv_PubKey v = Some pk" "evv_Salt v \<noteq> []"
      by (auto simp: effective_def split: option.splits if_splits)
    obtain i old where gb: "ValidatorSet_GetByAddress vals ?a = (i, old)" by fastforce
    show ?thesis
    proof (cases old)
      case None
      then have "?a \<notin> set (addrs vals)" using g gb powers_None [of vals ?a] by simp
      then show ?thesis
        using Add_powers [OF d, of "NewValidator ?a pk x"] r v Some gb None g
        by (auto simp: applyVote_def voted_def refund_for_def NewValidator_def)
    next
      case (Some val)
      have in_a: "?a \<in> set (addrs vals)" using g gb Some powers_None [of vals ?a] by auto
      have va: "val_Address val = ?a"
        using gb Some find_index_Some [of "\<lambda>v. val_Address v = ?a" "vs_Validators vals"]
        by (auto simp: ValidatorSet_GetByAddress_def ValidatorSet_index_def split: option.splits)
      show ?thesis
      proof (cases "x = 0")
        case True
        obtain vals1 o1 rm where rem: "ValidatorSet_Remove vals ?a = (vals1, o1, rm)" by (cases "ValidatorSet_Remove vals ?a")
        then show ?thesis using Remove_powers [OF d in_a] r v \<open>effective v = Some x\<close> gb Some g True va
          by (auto simp: applyVote_def voted_def refund_for_def)
      next
        case False
        have "snd (ValidatorSet_GetByAddress vals ?a) = Some val" using gb Some by simp
        then show ?thesis
          using Update_powers [OF d, of ?a val x] r v \<open>effective v = Some x\<close> gb Some g False
          by (auto simp: applyVote_def voted_def refund_for_def)
      qed
    qed
  qed
  then show "distinct (addrs vals')"
    "powers vals' = (powers vals)(evv_Address v := voted (effective v) (powers vals (evv_Address v)))"
    "refund' = refund @ refund_for v (powers vals (evv_Address v))"
    "length (vs_Validators vals') + n \<le> length (vs_Validators vals) + n'" by simp_all
qed

lemma applyVotes:
  assumes "distinct (map evv_Address vs)" "distinct (addrs vals)"
    "fold applyVote vs (vals, refund, n) = (vals', refund', n')"
  shows "distinct (addrs vals')
    \<and> (\<forall>a. powers vals' a = voted (Option.bind (map_of (map (\<lambda>v. (evv_Address v, v)) vs) a) effective) (powers vals a))
    \<and> refund' = refund @ concat (map (\<lambda>v. refund_for v (powers vals (evv_Address v))) vs)
    \<and> length (vs_Validators vals') + n \<le> length (vs_Validators vals) + n'"
  using assms
proof (induction vs arbitrary: vals refund n)
  case Nil
  then show ?case by (simp add: voted_def)
next
  case (Cons v vs)
  obtain vals1 refund1 n1 where s: "applyVote v (vals, refund, n) = (vals1, refund1, n1)"
    by (cases "applyVote v (vals, refund, n)")
  note st = applyVote_step [OF Cons.prems(2) s]
  have ih: "distinct (addrs vals')
    \<and> (\<forall>a. powers vals' a = voted (Option.bind (map_of (map (\<lambda>v. (evv_Address v, v)) vs) a) effective) (powers vals1 a))
    \<and> refund' = refund1 @ concat (map (\<lambda>v. refund_for v (powers vals1 (evv_Address v))) vs)
    \<and> length (vs_Validators vals') + n1 \<le> length (vs_Validators vals1) + n'"
    by (rule Cons.IH) (use Cons.prems st(1) s in auto)
  have other: "evv_Address u \<noteq> evv_Address v" if "u \<in> set vs" for u
    using Cons.prems(1) that by (auto simp: image_iff)
  have mv: "map_of (map (\<lambda>v. (evv_Address v, v)) vs) (evv_Address v) = None"
    using Cons.prems(1) by (simp add: map_of_eq_None_iff image_image)
  have rf: "map (\<lambda>u. refund_for u (powers vals1 (evv_Address u))) vs
      = map (\<lambda>u. refund_for u (powers vals (evv_Address u))) vs"
    using other by (intro map_cong) (simp_all add: st(2))
  have "powers vals' a = voted (Option.bind (map_of (map (\<lambda>v. (evv_Address v, v)) (v # vs)) a) effective) (powers vals a)" for a
    using ih mv by (cases "a = evv_Address v") (simp_all add: st(2) voted_def)
  moreover have "refund' = refund @ concat (map (\<lambda>v. refund_for v (powers vals (evv_Address v))) (v # vs))"
    using ih rf st(3) by simp
  moreover have "length (vs_Validators vals') + n \<le> length (vs_Validators vals) + n'" using ih st(4) by simp
  ultimately show ?case using ih by blast
qed

lemma vote_map_of:
  assumes "voteSet_ok s"
  shows "map_of (map (\<lambda>v. (evv_Address v, v)) (votes_of s)) = vote_map s"
proof (rule ext)
  fix a
  have "map_of (map (\<lambda>v. (evv_Address v, v)) (votes_of s)) a = Some v \<longleftrightarrow> vote_map s a = Some v" for v
    using votes_distinct [OF assms] vote_map_set [OF assms, of a v]
    by (subst map_of_eq_Some_iff) (auto simp: comp_def)
  then show "map_of (map (\<lambda>v. (evv_Address v, v)) (votes_of s)) a = vote_map s a"
    by (metis option.exhaust)
qed

section \<open>The new set\<close>

text \<open>What \<open>sort.Slice\<close> promises for the order of the knock-out.\<close>

definition sorts :: "(validator list \<Rightarrow> validator list) \<Rightarrow> bool" where
  "sorts srt \<longleftrightarrow> (\<forall>xs. mset (srt xs) = mset xs \<and> sorted_wrt (\<lambda>x y. \<not> knockLess y x) (srt xs))"

text \<open>The powers the votes ask for, before the knock-out.\<close>

definition expected :: "epochValidatorVoteSet \<Rightarrow> validatorSet \<Rightarrow> bytes \<Rightarrow> int option" where
  "expected vs vals a = voted (Option.bind (vote_map vs a) effective) (powers vals a)"

lemma countDown_simps [simp]: "val_Address (countDown v) = val_Address v"
  "val_VotingPower (countDown v) = val_VotingPower v"
  by (simp_all add: countDown_def)

lemma updateEpochValidatorSet_cases:
  assumes d: "distinct (addrs vals)" and vs: "voteSet_ok vs" and srt: "sorts srt"
    and r: "updateEpochValidatorSet srt vals (Some vs) = (vals', refunds)"
  shows "\<exists>kept knocked. vs_Validators vals' = kept
    \<and> refunds = concat (map (\<lambda>v. refund_for v (powers vals (evv_Address v))) (votes_of vs))
        @ map (\<lambda>k. \<lparr>rva_Address = BytesToAddress (val_Address k), rva_Amount = None, rva_Voteout = True\<rparr>) knocked
    \<and> distinct (map val_Address (kept @ knocked))
    \<and> (\<forall>a p. expected vs vals a = Some p \<longleftrightarrow> (\<exists>v\<in>set (kept @ knocked). val_Address v = a \<and> val_VotingPower v = p))
    \<and> length kept \<le> MaximumValidatorsSize \<and> (knocked \<noteq> [] \<longrightarrow> length kept = MaximumValidatorsSize)
    \<and> (\<forall>k\<in>set knocked. \<forall>v\<in>set kept. \<not> knockLess k v)"
proof -
  obtain vals1 refund n where f: "fold applyVote (votes_of vs) (vals, [], 0) = (vals1, refund, n)"
    by (cases "fold applyVote (votes_of vs) (vals, [], 0)")
  note av = applyVotes [OF votes_distinct [OF vs] d f, unfolded vote_map_of [OF vs]]
  have pre: "(if IsEmpty (Some vs) then (vals, [], 0) else fold applyVote (votes_of (the (Some vs))) (vals, [], 0))
      = (vals1, refund, n)"
    using f by (auto simp: IsEmpty_def votes_of_def)
  define size where "size = (let m = ValidatorSet_Size vals + n in if MaximumValidatorsSize < m then MaximumValidatorsSize
      else if m < MinimumValidatorsSize then MinimumValidatorsSize else m)"
  define cd where "cd = map countDown (vs_Validators vals1)"
  have upd: "(vals', refunds) = (if size < length cd then
      (vals1\<lparr>vs_Validators := take size (srt cd)\<rparr>, refund @ map (\<lambda>k. \<lparr>rva_Address = BytesToAddress (val_Address k),
         rva_Amount = None, rva_Voteout = True\<rparr>) (drop size (srt cd)))
      else (vals1\<lparr>vs_Validators := cd\<rparr>, refund))"
  proof -
    have "updateEpochValidatorSet srt vals (Some vs) = (if size < length cd then
        (vals1\<lparr>vs_Validators := take size (srt cd)\<rparr>, refund @ map (\<lambda>k. \<lparr>rva_Address = BytesToAddress (val_Address k),
           rva_Amount = None, rva_Voteout = True\<rparr>) (drop size (srt cd)))
        else (vals1\<lparr>vs_Validators := cd\<rparr>, refund))"
      unfolding updateEpochValidatorSet_def pre Let_def prod.case size_def cd_def
      by (simp add: ValidatorSet_Size_def)
    then show ?thesis using r by simp
  qed
  have d1: "distinct (map val_Address cd)" using av by (simp add: cd_def addrs_def comp_def)
  have e1: "expected vs vals a = Some p \<longleftrightarrow> (\<exists>v\<in>set cd. val_Address v = a \<and> val_VotingPower v = p)" for a p
    using powers_in [of vals1 a p] av by (auto simp: expected_def cd_def)
  have len: "length cd \<le> ValidatorSet_Size vals + n" using av by (simp add: cd_def ValidatorSet_Size_def)
  have srt_cd: "mset (srt cd) = mset cd" "sorted_wrt (\<lambda>x y. \<not> knockLess y x) (srt cd)"
    using srt by (auto simp: sorts_def)
  show ?thesis
  proof (cases "size < length cd")
    case False
    then have "length cd \<le> MaximumValidatorsSize"
      using len by (auto simp: size_def Let_def MaximumValidatorsSize_def MinimumValidatorsSize_def split: if_splits)
    then show ?thesis using upd False av d1 e1 by (intro exI [of _ cd] exI [of _ "[]"]) simp
  next
    case True
    then have sz: "size = MaximumValidatorsSize"
      using len by (auto simp: size_def Let_def split: if_splits)
    have st: "set (srt cd) = set cd" using srt_cd(1) by (rule mset_eq_setD)
    have ds: "distinct (map val_Address (srt cd))"
    proof -
      have "mset (map val_Address (srt cd)) = mset (map val_Address cd)" using srt_cd(1) by simp
      then show ?thesis using d1 mset_eq_imp_distinct_iff by blast
    qed
    define kept knocked where "kept = take size (srt cd)" and "knocked = drop size (srt cd)"
    have kk: "kept @ knocked = srt cd" by (simp add: kept_def knocked_def)
    have "sorted_wrt (\<lambda>x y. \<not> knockLess y x) (kept @ knocked)" using srt_cd(2) kk by simp
    then have ord: "\<forall>k\<in>set knocked. \<forall>v\<in>set kept. \<not> knockLess k v" by (simp add: sorted_wrt_append)
    have "length (srt cd) = length cd" using srt_cd(1) by (metis size_mset)
    then have l: "length kept = MaximumValidatorsSize" using True sz by (simp add: kept_def)
    have u: "vs_Validators vals' = kept" "refunds = refund @ map (\<lambda>k. \<lparr>rva_Address = BytesToAddress (val_Address k),
         rva_Amount = None, rva_Voteout = True\<rparr>) knocked"
      using upd True by (simp_all add: kept_def knocked_def)
    have e2: "expected vs vals a = Some p \<longleftrightarrow> (\<exists>v\<in>set (kept @ knocked). val_Address v = a \<and> val_VotingPower v = p)" for a p
      unfolding kk st by (rule e1)
    show ?thesis using u av ds l ord e2
      by (intro exI [of _ kept] exI [of _ knocked]) (simp add: kk del: set_append map_append)
  qed
qed

section \<open>Properties\<close>

text \<open>An instance of the sorting contract: insertion sort.\<close>

fun knockInsert :: "validator \<Rightarrow> validator list \<Rightarrow> validator list" where
  "knockInsert x [] = [x]"
| "knockInsert x (y # ys) = (if knockLess y x then y # knockInsert x ys else x # y # ys)"

definition knockSort :: "validator list \<Rightarrow> validator list" where
  "knockSort xs = foldr knockInsert xs []"

lemma knockLess_trans: "\<not> knockLess y x \<Longrightarrow> \<not> knockLess z y \<Longrightarrow> \<not> knockLess z x"
  by (auto simp: knockLess_def split: if_splits)

lemma knockInsert_sorted:
  "mset (knockInsert x ys) = add_mset x (mset ys)"
  "sorted_wrt (\<lambda>x y. \<not> knockLess y x) ys \<Longrightarrow> sorted_wrt (\<lambda>x y. \<not> knockLess y x) (knockInsert x ys)"
proof (induction ys)
  case (Cons y ys)
  case 1
  show ?case using Cons by simp
next
  case (Cons y ys)
  case 2
  have "set (knockInsert x ys) = insert x (set ys)" using Cons.IH(1) by (metis set_mset_add_mset_insert set_mset_mset)
  moreover have "\<not> knockLess x y" if "knockLess y x" using that by (auto simp: knockLess_def split: if_splits)
  ultimately show ?case using 2 Cons.IH(2) knockLess_trans by auto
qed simp_all

lemma knockSort_sorts: "sorts knockSort"
proof -
  have "mset (knockSort xs) = mset xs \<and> sorted_wrt (\<lambda>x y. \<not> knockLess y x) (knockSort xs)" for xs
    by (induction xs) (simp_all add: knockSort_def knockInsert_sorted)
  then show ?thesis by (simp add: sorts_def)
qed

text \<open>
  C38: the loop that reads the voting powers of the validators from the state sets the power of
  every validator and drops exactly those without power, although it removes elements from the
  slice it walks over.
\<close>

theorem refreshPowers_reference:
  assumes "distinct (map val_Address (vs_Validators vs))"
  shows "vs_Validators (refreshPowers newVotingPower 0 vs) = repower newVotingPower (vs_Validators vs)"
  using refreshPowers_from [of vs 0 newVotingPower] assms by (simp add: addrs_def)

definition demo_vals :: "validator list" where
  "demo_vals = [\<lparr>val_Address = [1], val_PubKey = [11], val_VotingPower = 5, val_RemainingEpoch = 0\<rparr>,
    \<lparr>val_Address = [2], val_PubKey = [12], val_VotingPower = 6, val_RemainingEpoch = 2\<rparr>,
    \<lparr>val_Address = [3], val_PubKey = [13], val_VotingPower = 7, val_RemainingEpoch = 0\<rparr>]"

theorem refreshPowers_reference_witness:
  "vs_Validators (refreshPowers (\<lambda>a. if a = BytesToAddress [2] then 0 else 9) 0
      \<lparr>vs_Validators = demo_vals, vs_totalVotingPower = None\<rparr>)
    = [\<lparr>val_Address = [1], val_PubKey = [11], val_VotingPower = 9, val_RemainingEpoch = 0\<rparr>,
       \<lparr>val_Address = [3], val_PubKey = [13], val_VotingPower = 9, val_RemainingEpoch = 0\<rparr>]"
proof -
  let ?vs = "\<lparr>vs_Validators = demo_vals, vs_totalVotingPower = None\<rparr>"
  let ?pw = "\<lambda>a. if a = BytesToAddress [2] then 0 else (9::int)"
  have "distinct (map val_Address (vs_Validators ?vs))" by (simp add: demo_vals_def)
  from refreshPowers_reference [OF this, of ?pw] show ?thesis
    by (simp add: repower_def demo_vals_def BytesToAddress_def)
qed

text \<open>
  C33: the validator set of the next epoch. With distinct validators and one vote per address,
  the set after the votes holds each validator once, has at most \<open>MaximumValidatorsSize\<close> members
  and gives each the power its revealed vote asks for, or its old power without a vote. Validators
  are knocked out only when the set is full, never one that ranks before a member, and each of
  them is refunded; the other refunds are what validators take out of their power, in the order of
  the votes.
\<close>

theorem next_validator_set:
  assumes "distinct (map val_Address (vs_Validators vals))" "voteSet_ok vs" "sorts srt"
    and r: "updateEpochValidatorSet srt vals (Some vs) = (vals', refunds)"
  shows "\<exists>knocked. distinct (map val_Address (vs_Validators vals' @ knocked))
    \<and> length (vs_Validators vals') \<le> MaximumValidatorsSize
    \<and> (knocked \<noteq> [] \<longrightarrow> length (vs_Validators vals') = MaximumValidatorsSize)
    \<and> (\<forall>k\<in>set knocked. \<forall>v\<in>set (vs_Validators vals'). \<not> knockLess k v)
    \<and> (\<forall>a p. voted (Option.bind (vote_map vs a) effective) (powers vals a) = Some p
        \<longleftrightarrow> (\<exists>v\<in>set (vs_Validators vals' @ knocked). val_Address v = a \<and> val_VotingPower v = p))
    \<and> refunds = concat (map (\<lambda>v. refund_for v (powers vals (evv_Address v))) (votes_of vs))
        @ map (\<lambda>k. \<lparr>rva_Address = BytesToAddress (val_Address k), rva_Amount = None, rva_Voteout = True\<rparr>) knocked"
  using updateEpochValidatorSet_cases [OF _ assms(2,3) r] assms(1)
  unfolding addrs_def expected_def by blast

definition demo_votes :: epochValidatorVoteSet where
  "demo_votes = freshVoteSet
    [\<lparr>evv_Address = [1], evv_PubKey = Some [11], evv_Amount = Some 0, evv_Salt = ''s'', evv_VoteHash = [], evv_TxHash = []\<rparr>,
     \<lparr>evv_Address = [9], evv_PubKey = Some [19], evv_Amount = Some 4, evv_Salt = ''s'', evv_VoteHash = [], evv_TxHash = []\<rparr>,
     \<lparr>evv_Address = [3], evv_PubKey = Some [13], evv_Amount = Some 2, evv_Salt = ''s'', evv_VoteHash = [], evv_TxHash = []\<rparr>]"

theorem next_validator_set_witness:
  "case updateEpochValidatorSet knockSort \<lparr>vs_Validators = demo_vals, vs_totalVotingPower = None\<rparr> (Some demo_votes) of
     (vals', refunds) \<Rightarrow> map (\<lambda>v. (val_Address v, val_VotingPower v)) (vs_Validators vals') = [([2], 6), ([3], 2), ([9], 4)]
       \<and> map (\<lambda>r. (rva_Address r, rva_Amount r)) refunds = [([1], Some 5), ([3], Some 5)]
       \<and> length (vs_Validators vals') \<le> MaximumValidatorsSize"
proof -
  let ?vs = "\<lparr>vs_Validators = demo_vals, vs_totalVotingPower = None\<rparr>"
  obtain vals' refunds where r: "updateEpochValidatorSet knockSort ?vs (Some demo_votes) = (vals', refunds)"
    by (cases "updateEpochValidatorSet knockSort ?vs (Some demo_votes)")
  have "voteSet_ok demo_votes" unfolding demo_votes_def by (rule freshVoteSet_ok) simp
  moreover have "distinct (map val_Address (vs_Validators ?vs))" by (simp add: demo_vals_def)
  ultimately have "length (vs_Validators vals') \<le> MaximumValidatorsSize"
    using next_validator_set [OF _ _ knockSort_sorts r] by blast
  moreover have "case updateEpochValidatorSet knockSort ?vs (Some demo_votes) of
     (vals', refunds) \<Rightarrow> map (\<lambda>v. (val_Address v, val_VotingPower v)) (vs_Validators vals') = [([2], 6), ([3], 2), ([9], 4)]
       \<and> map (\<lambda>r. (rva_Address r, rva_Amount r)) refunds = [([1], Some 5), ([3], Some 5)]"
    by code_simp
  ultimately show ?thesis using r by simp
qed

text \<open>
  \<open>MinimumValidatorsSize\<close> does not keep the set from becoming empty: when the only validator
  votes for 0, the next epoch has no validator.
\<close>

theorem next_validator_set_empty:
  "vs_Validators (fst (updateEpochValidatorSet knockSort
     \<lparr>vs_Validators = [NewValidator [1] [11] 5], vs_totalVotingPower = None\<rparr>
     (Some (freshVoteSet [\<lparr>evv_Address = [1], evv_PubKey = Some [11], evv_Amount = Some 0, evv_Salt = ''s'',
        evv_VoteHash = [], evv_TxHash = []\<rparr>])))) = []"
  by code_simp

end
