(* ===== verification/State_Effects.thy ===== *)
theory State_Effects
  imports State_Theorems
begin

text \<open>
  What the methods of \<open>StateDB\<close> do, as laws about the two things the other components read:
  \<open>data_at\<close>, the account data of an address (of a new account if there is none), and \<open>apb_at\<close>,
  the delegation of a user to an address. Each law is an update of one of these functions, so that
  sequences of calls are simplified by rewriting.
\<close>

named_theorems effects

definition acct_at :: "stateDB \<Rightarrow> address \<Rightarrow> stateObject" where
  "acct_at s a = (case StateDB_getStateObject s a of Some ob \<Rightarrow> ob | None \<Rightarrow> newObject a zeroAccount)"

definition data_at :: "stateDB \<Rightarrow> address \<Rightarrow> account" where
  "data_at s a = so_data (acct_at s a)"

definition apb_at :: "stateDB \<Rightarrow> address \<Rightarrow> address \<Rightarrow> accountProxiedBalance" where
  "apb_at s a u = apbOrNew u (acct_at s a)"

section \<open>Getters\<close>

lemma getters_at [effects]:
  "StateDB_GetBalance s a = acc_Balance (data_at s a)"
  "StateDB_GetDepositBalance s a = acc_DepositBalance (data_at s a)"
  "StateDB_GetChainBalance s a = acc_ChainBalance (data_at s a)"
  "StateDB_GetDelegateBalance s a = acc_DelegateBalance (data_at s a)"
  "StateDB_GetTotalProxiedBalance s a = acc_ProxiedBalance (data_at s a)"
  "StateDB_GetTotalDepositProxiedBalance s a = acc_DepositProxiedBalance (data_at s a)"
  "StateDB_GetTotalPendingRefundBalance s a = acc_PendingRefundBalance (data_at s a)"
  "StateDB_GetTotalRewardBalance s a = acc_RewardBalance (data_at s a)"
  "StateDB_GetTotalAvailableRewardBalance s a = acc_AvailableRewardBalance (data_at s a)"
  "StateDB_GetNonce s a = acc_Nonce (data_at s a)"
  "StateDB_IsCandidate s a = acc_Candidate (data_at s a)"
  "StateDB_GetPubkey s a = acc_Pubkey (data_at s a)"
  "StateDB_GetCommission s a = acc_Commission (data_at s a)"
  by (simp_all add: StateDB_GetBalance_def StateDB_GetDepositBalance_def StateDB_GetChainBalance_def
      StateDB_GetDelegateBalance_def StateDB_GetTotalProxiedBalance_def
      StateDB_GetTotalDepositProxiedBalance_def StateDB_GetTotalPendingRefundBalance_def
      StateDB_GetTotalRewardBalance_def StateDB_GetTotalAvailableRewardBalance_def StateDB_GetNonce_def
      StateDB_IsCandidate_def StateDB_GetPubkey_def StateDB_GetCommission_def
      getField_def data_at_def acct_at_def newObject_def zeroAccount_def split: option.splits)

lemma user_getters_at [effects]:
  "StateDB_GetProxiedBalanceByUser s a u = apb_ProxiedBalance (apb_at s a u)"
  "StateDB_GetDepositProxiedBalanceByUser s a u = apb_DepositProxiedBalance (apb_at s a u)"
  "StateDB_GetPendingRefundBalanceByUser s a u = apb_PendingRefundBalance (apb_at s a u)"
  by (simp_all add: StateDB_GetProxiedBalanceByUser_def StateDB_GetDepositProxiedBalanceByUser_def
      StateDB_GetPendingRefundBalanceByUser_def getField_def apb_at_def acct_at_def apbOrNew_def
      NewAccountProxiedBalance_def stateObject_GetAccountProxiedBalance_def proxiedTrie_def newObject_def
      zeroAccount_def split: option.splits)

section \<open>Methods of an object\<close>

text \<open>
  \<open>acts f g e\<close>: the method \<open>f\<close> of an object applies \<open>g\<close> to its data and \<open>e\<close> to its delegations,
  and touches no other object.
\<close>

definition entries :: "stateObject \<Rightarrow> address \<Rightarrow> accountProxiedBalance" where
  "entries ob u = apbOrNew u ob"

definition acts :: "(objst \<Rightarrow> objst) \<Rightarrow> (account \<Rightarrow> account)
    \<Rightarrow> ((address \<Rightarrow> accountProxiedBalance) \<Rightarrow> address \<Rightarrow> accountProxiedBalance) \<Rightarrow> bool" where
  "acts f g e \<longleftrightarrow> (\<forall>s ob. case f (s, ob) of (s', ob') \<Rightarrow>
     sdb_stateObjects s' = sdb_stateObjects s \<and> sdb_trie s' = sdb_trie s
     \<and> so_address ob' = so_address ob \<and> so_deleted ob' = so_deleted ob
     \<and> so_data ob' = g (so_data ob) \<and> entries ob' = e (entries ob))"

lemma actsD:
  assumes "acts f g e"
  shows "sdb_stateObjects (fst (f p)) = sdb_stateObjects (fst p)" "sdb_trie (fst (f p)) = sdb_trie (fst p)"
    "so_address (snd (f p)) = so_address (snd p)" "so_deleted (snd (f p)) = so_deleted (snd p)"
    "so_data (snd (f p)) = g (so_data (snd p))" "entries (snd (f p)) = e (entries (snd p))"
proof -
  obtain s ob where p: "p = (s, ob)" by (cases p)
  have "case f (s, ob) of (s', ob') \<Rightarrow>
     sdb_stateObjects s' = sdb_stateObjects s \<and> sdb_trie s' = sdb_trie s
     \<and> so_address ob' = so_address ob \<and> so_deleted ob' = so_deleted ob
     \<and> so_data ob' = g (so_data ob) \<and> entries ob' = e (entries ob)"
    using assms unfolding acts_def by simp
  then show "sdb_stateObjects (fst (f p)) = sdb_stateObjects (fst p)" "sdb_trie (fst (f p)) = sdb_trie (fst p)"
    "so_address (snd (f p)) = so_address (snd p)" "so_deleted (snd (f p)) = so_deleted (snd p)"
    "so_data (snd (f p)) = g (so_data (snd p))" "entries (snd (f p)) = e (entries (snd p))"
    by (simp_all add: p split_beta)
qed

lemma acts_comp:
  assumes "acts f g e" "acts f' g' e'"
  shows "acts (\<lambda>p. f' (f p)) (\<lambda>d. g' (g d)) (\<lambda>m. e' (e m))"
  using actsD [OF assms(1)] actsD [OF assms(2)] by (auto simp: acts_def split_beta)

lemma acts_id: "acts (\<lambda>p. p) (\<lambda>d. d) (\<lambda>m. m)"
  by (simp add: acts_def)

lemma entries_simps [simp]:
  "entries (ob\<lparr>so_onDirty := b\<rparr>) = entries ob" "entries (ob\<lparr>so_touched := b\<rparr>) = entries ob"
  "entries (ob\<lparr>so_dirtyReward := rw\<rparr>) = entries ob"
  by (rule ext, simp add: entries_def apbOrNew_def stateObject_GetAccountProxiedBalance_def proxiedTrie_def
      cong: option.case_cong)+

lemma entries_data: "acc_ProxiedRoot (f (so_data ob)) = acc_ProxiedRoot (so_data ob) \<Longrightarrow> entries (updData f ob) = entries ob"
  by (rule ext) (simp add: entries_def apbOrNew_def stateObject_GetAccountProxiedBalance_def proxiedTrie_def
      updData_def cong: option.case_cong)

lemma fireDirty_entries [simp]: "entries (snd (fireDirty (s, ob))) = entries ob"
  "sdb_stateObjects (fst (fireDirty (s, ob))) = sdb_stateObjects s"
  by (simp_all add: fireDirty.simps)

lemma setter_acts:
  assumes "\<And>s ob. f (s, ob) = fireDirty (journalAppend (j s ob) s, updData g ob)"
    "\<And>d. acc_ProxiedRoot (g d) = acc_ProxiedRoot d"
  shows "acts f g (\<lambda>m. m)"
proof -
  have "entries (updData g ob) = entries ob" for ob by (rule entries_data) (rule assms(2))
  then show ?thesis by (simp add: acts_def split_beta assms(1))
qed

lemma touch_acts: "acts stateObject_touch (\<lambda>d. d) (\<lambda>m. m)"
  by (simp add: acts_def touch_conv split_beta)

lemma set_acts:
  "acts (stateObject_SetBalance x0) (acc_Balance_update (\<lambda>_. x0)) (\<lambda>m. m)"
  "acts (stateObject_SetDepositBalance x1) (acc_DepositBalance_update (\<lambda>_. x1)) (\<lambda>m. m)"
  "acts (stateObject_SetChainBalance x2) (acc_ChainBalance_update (\<lambda>_. x2)) (\<lambda>m. m)"
  "acts (stateObject_SetDelegateBalance x3) (acc_DelegateBalance_update (\<lambda>_. x3)) (\<lambda>m. m)"
  "acts (stateObject_SetProxiedBalance x4) (acc_ProxiedBalance_update (\<lambda>_. x4)) (\<lambda>m. m)"
  "acts (stateObject_SetDepositProxiedBalance x5) (acc_DepositProxiedBalance_update (\<lambda>_. x5)) (\<lambda>m. m)"
  "acts (stateObject_SetPendingRefundBalance x6) (acc_PendingRefundBalance_update (\<lambda>_. x6)) (\<lambda>m. m)"
  "acts (stateObject_SetRewardBalance x7) (acc_RewardBalance_update (\<lambda>_. x7)) (\<lambda>m. m)"
  "acts (stateObject_SetAvailableRewardBalance x8) (acc_AvailableRewardBalance_update (\<lambda>_. x8)) (\<lambda>m. m)"
  "acts (stateObject_SetNonce x9) (acc_Nonce_update (\<lambda>_. x9)) (\<lambda>m. m)"
  "acts (stateObject_SetCandidate x10) (acc_Candidate_update (\<lambda>_. x10)) (\<lambda>m. m)"
  "acts (stateObject_SetPubkey x11) (acc_Pubkey_update (\<lambda>_. x11)) (\<lambda>m. m)"
  "acts (stateObject_SetCommission x12) (acc_Commission_update (\<lambda>_. x12)) (\<lambda>m. m)"
  "acts (stateObject_SetBanned x13) (acc_IsBanned_update (\<lambda>_. x13)) (\<lambda>m. m)"
  "acts (stateObject_SetBlockTime x14) (acc_BlockTime_update (\<lambda>_. x14)) (\<lambda>m. m)"
  "acts (stateObject_SetBannedTime x15) (acc_BannedTime_update (\<lambda>_. x15)) (\<lambda>m. m)"
  by (rule setter_acts; simp add: object_set_simps)+

lemma update_same:
  "acc_Balance_update (\<lambda>b. b) d = d"
  "acc_DepositBalance_update (\<lambda>b. b) d = d"
  "acc_ChainBalance_update (\<lambda>b. b) d = d"
  "acc_DelegateBalance_update (\<lambda>b. b) d = d"
  "acc_ProxiedBalance_update (\<lambda>b. b) d = d"
  "acc_DepositProxiedBalance_update (\<lambda>b. b) d = d"
  "acc_PendingRefundBalance_update (\<lambda>b. b) d = d"
  "acc_RewardBalance_update (\<lambda>b. b) d = d"
  "acc_AvailableRewardBalance_update (\<lambda>b. b) d = d"
  by (cases d; simp)+

lemmas method_at = touch_acts [THEN actsD(1)] touch_acts [THEN actsD(2)] touch_acts [THEN actsD(3)]
  touch_acts [THEN actsD(4)] touch_acts [THEN actsD(5)] touch_acts [THEN actsD(6)]
  set_acts [THEN actsD(1)] set_acts [THEN actsD(2)] set_acts [THEN actsD(3)]
  set_acts [THEN actsD(4)] set_acts [THEN actsD(5)] set_acts [THEN actsD(6)]

lemma add_acts:
  "acts (stateObject_AddBalance y0) (acc_Balance_update (\<lambda>b. b + y0)) (\<lambda>m. m)"
  "acts (stateObject_SubBalance z0) (acc_Balance_update (\<lambda>b. b - z0)) (\<lambda>m. m)"
  "acts (stateObject_AddDepositBalance y1) (acc_DepositBalance_update (\<lambda>b. b + y1)) (\<lambda>m. m)"
  "acts (stateObject_SubDepositBalance z1) (acc_DepositBalance_update (\<lambda>b. b - z1)) (\<lambda>m. m)"
  "acts (stateObject_AddChainBalance y2) (acc_ChainBalance_update (\<lambda>b. b + y2)) (\<lambda>m. m)"
  "acts (stateObject_SubChainBalance z2) (acc_ChainBalance_update (\<lambda>b. b - z2)) (\<lambda>m. m)"
  "acts (stateObject_AddDelegateBalance y3) (acc_DelegateBalance_update (\<lambda>b. b + y3)) (\<lambda>m. m)"
  "acts (stateObject_SubDelegateBalance z3) (acc_DelegateBalance_update (\<lambda>b. b - z3)) (\<lambda>m. m)"
  "acts (stateObject_AddProxiedBalance y4) (acc_ProxiedBalance_update (\<lambda>b. b + y4)) (\<lambda>m. m)"
  "acts (stateObject_SubProxiedBalance z4) (acc_ProxiedBalance_update (\<lambda>b. b - z4)) (\<lambda>m. m)"
  "acts (stateObject_AddDepositProxiedBalance y5) (acc_DepositProxiedBalance_update (\<lambda>b. b + y5)) (\<lambda>m. m)"
  "acts (stateObject_SubDepositProxiedBalance z5) (acc_DepositProxiedBalance_update (\<lambda>b. b - z5)) (\<lambda>m. m)"
  "acts (stateObject_AddPendingRefundBalance y6) (acc_PendingRefundBalance_update (\<lambda>b. b + y6)) (\<lambda>m. m)"
  "acts (stateObject_SubPendingRefundBalance z6) (acc_PendingRefundBalance_update (\<lambda>b. b - z6)) (\<lambda>m. m)"
  "acts (stateObject_AddRewardBalance y7) (acc_RewardBalance_update (\<lambda>b. b + y7)) (\<lambda>m. m)"
  "acts (stateObject_SubRewardBalance z7) (acc_RewardBalance_update (\<lambda>b. b - z7)) (\<lambda>m. m)"
  "acts (stateObject_AddAvailableRewardBalance y8) (acc_AvailableRewardBalance_update (\<lambda>b. b + y8)) (\<lambda>m. m)"
  "acts (stateObject_SubAvailableRewardBalance z8) (acc_AvailableRewardBalance_update (\<lambda>b. b - z8)) (\<lambda>m. m)"
  by (simp_all add: acts_def split_beta method_at update_same cong: if_cong)

definition apb_upd :: "address \<Rightarrow> accountProxiedBalance \<Rightarrow> (address \<Rightarrow> accountProxiedBalance) \<Rightarrow> address \<Rightarrow> accountProxiedBalance" where
  "apb_upd u v m = m(u := v)"

lemma SetAccountProxied_acts:
  "acts (stateObject_SetAccountProxiedBalance u (Some v)) (\<lambda>d. d) (apb_upd u v)"
proof -
  have "entries (ob\<lparr>so_dirtyProxied := AList.update u (Some v) (so_dirtyProxied ob)\<rparr>) = apb_upd u v (entries ob)" for ob
    by (rule ext) (simp add: entries_def apb_upd_def apbOrNew_def stateObject_GetAccountProxiedBalance_def
        proxiedTrie_def update_conv' cong: option.case_cong)
  then show ?thesis by (simp add: acts_def split_beta)
qed

lemma SetDelegateReward_acts: "acts (stateObject_SetDelegateRewardBalance u v) (\<lambda>d. d) (\<lambda>m. m)"
  by (simp add: acts_def split_beta)

section \<open>Methods of the database\<close>

lemma acct_GetOrNew:
  assumes "sdb_ok s"
  shows "so_data (snd (StateDB_GetOrNewStateObject a s)) = data_at s a"
    "entries (snd (StateDB_GetOrNewStateObject a s)) = apb_at s a"
    "so_address (snd (StateDB_GetOrNewStateObject a s)) = a"
    "\<not> so_deleted (snd (StateDB_GetOrNewStateObject a s))"
    "b \<noteq> a \<Longrightarrow> StateDB_getStateObject (fst (StateDB_GetOrNewStateObject a s)) b = StateDB_getStateObject s b"
proof -
  let ?p = "StateDB_GetOrNewStateObject a s"
  have "so_data (snd ?p) = data_at s a \<and> entries (snd ?p) = apb_at s a \<and> so_address (snd ?p) = a
    \<and> \<not> so_deleted (snd ?p)
    \<and> (b \<noteq> a \<longrightarrow> StateDB_getStateObject (fst ?p) b = StateDB_getStateObject s b)"
  proof (cases "StateDB_getStateObject s a")
    case (Some ob)
    have "so_address ob = a" "\<not> so_deleted ob" using getStateObject_ok [OF assms Some] by auto
    then show ?thesis using Some
      by (simp add: StateDB_GetOrNewStateObject_def data_at_def acct_at_def entries_def apb_at_def fun_eq_iff)
  next
    case None
    obtain s1 newobj where c: "StateDB_createObject a s
        = ((StateDB_setStateObject newobj s1, newobj), StateDB_getStateObject s a)"
      "so_address newobj = a" "newobj = (newObject a zeroAccount)\<lparr>so_onDirty := False\<rparr>"
      "\<not> so_deleted newobj" "sdb_stateObjects s1 = sdb_stateObjects s" "sdb_trie s1 = sdb_trie s"
      by (rule createObject_unfold)
    have "entries newobj = apb_at s a" unfolding c(3)
      using None by (intro ext) (simp add: apb_at_def acct_at_def entries_def)
    moreover have "StateDB_getStateObject (StateDB_setStateObject newobj s1) b = StateDB_getStateObject s b" if "b \<noteq> a"
      using that c(2,5,6) by (simp add: StateDB_getStateObject_def StateDB_setStateObject_def update_conv'
          cong: option.case_cong)
    ultimately show ?thesis using None c
      by (simp add: StateDB_GetOrNewStateObject_def data_at_def acct_at_def)
  qed
  then show "so_data (snd ?p) = data_at s a" "entries (snd ?p) = apb_at s a" "so_address (snd ?p) = a"
    "\<not> so_deleted (snd ?p)"
    "b \<noteq> a \<Longrightarrow> StateDB_getStateObject (fst ?p) b = StateDB_getStateObject s b" by simp_all
qed

lemma op_at:
  assumes ok: "sdb_ok s" and f: "acts f g e"
  shows "data_at (writeBack (f (StateDB_GetOrNewStateObject a s))) = (data_at s)(a := g (data_at s a))"
    "apb_at (writeBack (f (StateDB_GetOrNewStateObject a s))) = (apb_at s)(a := e (apb_at s a))"
proof -
  let ?p = "StateDB_GetOrNewStateObject a s"
  obtain s' ob' where fp: "f ?p = (s', ob')" by (cases "f ?p")
  have ob': "so_address ob' = a" "\<not> so_deleted ob'" "so_data ob' = g (data_at s a)" "entries ob' = e (apb_at s a)"
    using actsD [OF f, of ?p] acct_GetOrNew [OF ok, of a] fp by auto
  have s': "StateDB_getStateObject s' b = StateDB_getStateObject s b" if "b \<noteq> a" for b
    using getStateObject_cong [OF actsD(1,2) [OF f, of ?p]] acct_GetOrNew(5) [OF ok that] fp by simp
  have other: "acct_at (writeBack (s', ob')) b = acct_at s b" if "b \<noteq> a" for b
    using s' [OF that] that ob' by (simp add: acct_at_def)
  have here: "acct_at (writeBack (s', ob')) a = ob'" using ob' by (simp add: acct_at_def)
  show "data_at (writeBack (f ?p)) = (data_at s)(a := g (data_at s a))"
    unfolding fp using ob' here other by (intro ext) (simp add: data_at_def)
  show "apb_at (writeBack (f ?p)) = (apb_at s)(a := e (apb_at s a))"
  proof (rule ext)
    fix b
    have "apb_at (writeBack (f ?p)) b = entries (acct_at (writeBack (s', ob')) b)"
      by (rule ext) (simp add: fp apb_at_def entries_def)
    then show "apb_at (writeBack (f ?p)) b = ((apb_at s)(a := e (apb_at s a))) b"
      using ob' here other by (cases "b = a") (auto simp: apb_at_def entries_def)
  qed
qed

lemma balance_at [effects]:
  assumes "sdb_ok s"
  shows
    "data_at (StateDB_AddBalance a x s) = (data_at s)(a := acc_Balance_update (\<lambda>b. b + x) (data_at s a))"
    "apb_at (StateDB_AddBalance a x s) = apb_at s"
    "data_at (StateDB_SubBalance a x s) = (data_at s)(a := acc_Balance_update (\<lambda>b. b - x) (data_at s a))"
    "apb_at (StateDB_SubBalance a x s) = apb_at s"
    "data_at (StateDB_AddDepositBalance a x s) = (data_at s)(a := acc_DepositBalance_update (\<lambda>b. b + x) (data_at s a))"
    "apb_at (StateDB_AddDepositBalance a x s) = apb_at s"
    "data_at (StateDB_SubDepositBalance a x s) = (data_at s)(a := acc_DepositBalance_update (\<lambda>b. b - x) (data_at s a))"
    "apb_at (StateDB_SubDepositBalance a x s) = apb_at s"
    "data_at (StateDB_AddChainBalance a x s) = (data_at s)(a := acc_ChainBalance_update (\<lambda>b. b + x) (data_at s a))"
    "apb_at (StateDB_AddChainBalance a x s) = apb_at s"
    "data_at (StateDB_SubChainBalance a x s) = (data_at s)(a := acc_ChainBalance_update (\<lambda>b. b - x) (data_at s a))"
    "apb_at (StateDB_SubChainBalance a x s) = apb_at s"
    "data_at (StateDB_AddDelegateBalance a x s) = (data_at s)(a := acc_DelegateBalance_update (\<lambda>b. b + x) (data_at s a))"
    "apb_at (StateDB_AddDelegateBalance a x s) = apb_at s"
    "data_at (StateDB_SubDelegateBalance a x s) = (data_at s)(a := acc_DelegateBalance_update (\<lambda>b. b - x) (data_at s a))"
    "apb_at (StateDB_SubDelegateBalance a x s) = apb_at s"
    "data_at (StateDB_AddRewardBalance a x s) = (data_at s)(a := acc_RewardBalance_update (\<lambda>b. b + x) (data_at s a))"
    "apb_at (StateDB_AddRewardBalance a x s) = apb_at s"
    "data_at (StateDB_SubRewardBalance a x s) = (data_at s)(a := acc_RewardBalance_update (\<lambda>b. b - x) (data_at s a))"
    "apb_at (StateDB_SubRewardBalance a x s) = apb_at s"
  using add_acts [THEN op_at(1) [OF assms]] add_acts [THEN op_at(2) [OF assms]]
  by (simp_all add: StateDB_AddBalance_def StateDB_SubBalance_def StateDB_AddDepositBalance_def StateDB_SubDepositBalance_def StateDB_AddChainBalance_def StateDB_SubChainBalance_def StateDB_AddDelegateBalance_def StateDB_SubDelegateBalance_def StateDB_AddRewardBalance_def StateDB_SubRewardBalance_def)

lemma set_at [effects]:
  assumes "sdb_ok s"
  shows
    "data_at (StateDB_SetBalance a x s) = (data_at s)(a := acc_Balance_update (\<lambda>_. x) (data_at s a))"
    "apb_at (StateDB_SetBalance a x s) = apb_at s"
    "data_at (StateDB_SetDepositBalance a x s) = (data_at s)(a := acc_DepositBalance_update (\<lambda>_. x) (data_at s a))"
    "apb_at (StateDB_SetDepositBalance a x s) = apb_at s"
    "data_at (StateDB_SetChainBalance a x s) = (data_at s)(a := acc_ChainBalance_update (\<lambda>_. x) (data_at s a))"
    "apb_at (StateDB_SetChainBalance a x s) = apb_at s"
    "data_at (StateDB_SetNonce a n s) = (data_at s)(a := acc_Nonce_update (\<lambda>_. n) (data_at s a))"
    "apb_at (StateDB_SetNonce a n s) = apb_at s"
    "data_at (StateDB_SetCommission a c s) = (data_at s)(a := acc_Commission_update (\<lambda>_. c) (data_at s a))"
    "apb_at (StateDB_SetCommission a c s) = apb_at s"
    "data_at (StateDB_SetBanned a b s) = (data_at s)(a := acc_IsBanned_update (\<lambda>_. b) (data_at s a))"
    "apb_at (StateDB_SetBanned a b s) = apb_at s"
    "data_at (StateDB_SetBannedTime a x s) = (data_at s)(a := acc_BannedTime_update (\<lambda>_. x) (data_at s a))"
    "apb_at (StateDB_SetBannedTime a x s) = apb_at s"
    "data_at (StateDB_SetMinedBlocks a x s) = (data_at s)(a := acc_BlockTime_update (\<lambda>_. x) (data_at s a))"
    "apb_at (StateDB_SetMinedBlocks a x s) = apb_at s"
    "data_at (StateDB_ClearCommission a s) = (data_at s)(a := acc_Commission_update (\<lambda>_. 0) (data_at s a))"
    "apb_at (StateDB_ClearCommission a s) = apb_at s"
  using set_acts [THEN op_at(1) [OF assms]] set_acts [THEN op_at(2) [OF assms]]
  by (simp_all add: StateDB_SetBalance_def StateDB_SetDepositBalance_def StateDB_SetChainBalance_def StateDB_SetNonce_def StateDB_SetCommission_def StateDB_SetBanned_def StateDB_SetBannedTime_def StateDB_SetMinedBlocks_def StateDB_ClearCommission_def)

lemma byUser_at:
  assumes ok: "sdb_ok s" and f: "acts f g (\<lambda>m. m)"
  shows "data_at (writeBack (f (stateObject_SetAccountProxiedBalance u (Some v) (StateDB_GetOrNewStateObject a s))))
      = (data_at s)(a := g (data_at s a))"
    "apb_at (writeBack (f (stateObject_SetAccountProxiedBalance u (Some v) (StateDB_GetOrNewStateObject a s))))
      = (apb_at s)(a := (apb_at s a)(u := v))"
  using op_at [OF ok acts_comp [OF SetAccountProxied_acts f], of u v a] by (simp_all add: apb_upd_def)

lemma apbOrNew_GetOrNew: "sdb_ok s \<Longrightarrow> apbOrNew u (snd (StateDB_GetOrNewStateObject a s)) = apb_at s a u"
  using acct_GetOrNew(2) [of s a] by (simp add: fun_eq_iff entries_def)

lemma proxied_at [effects]:
  assumes "sdb_ok s"
  shows
    "data_at (StateDB_AddProxiedBalanceByUser a u x s) = (data_at s)(a := acc_ProxiedBalance_update (\<lambda>b. b + x) (data_at s a))"
    "apb_at (StateDB_AddProxiedBalanceByUser a u x s) = (apb_at s)(a := (apb_at s a)(u := (apb_at s a u)\<lparr>apb_ProxiedBalance := apb_ProxiedBalance (apb_at s a u) + x\<rparr>))"
    "data_at (StateDB_SubProxiedBalanceByUser a u x s) = (data_at s)(a := acc_ProxiedBalance_update (\<lambda>b. b - x) (data_at s a))"
    "apb_at (StateDB_SubProxiedBalanceByUser a u x s) = (apb_at s)(a := (apb_at s a)(u := (apb_at s a u)\<lparr>apb_ProxiedBalance := apb_ProxiedBalance (apb_at s a u) - x\<rparr>))"
    "data_at (StateDB_AddDepositProxiedBalanceByUser a u x s) = (data_at s)(a := acc_DepositProxiedBalance_update (\<lambda>b. b + x) (data_at s a))"
    "apb_at (StateDB_AddDepositProxiedBalanceByUser a u x s) = (apb_at s)(a := (apb_at s a)(u := (apb_at s a u)\<lparr>apb_DepositProxiedBalance := apb_DepositProxiedBalance (apb_at s a u) + x\<rparr>))"
    "data_at (StateDB_SubDepositProxiedBalanceByUser a u x s) = (data_at s)(a := acc_DepositProxiedBalance_update (\<lambda>b. b - x) (data_at s a))"
    "apb_at (StateDB_SubDepositProxiedBalanceByUser a u x s) = (apb_at s)(a := (apb_at s a)(u := (apb_at s a u)\<lparr>apb_DepositProxiedBalance := apb_DepositProxiedBalance (apb_at s a u) - x\<rparr>))"
    "data_at (StateDB_AddPendingRefundBalanceByUser a u x s) = (data_at s)(a := acc_PendingRefundBalance_update (\<lambda>b. b + x) (data_at s a))"
    "apb_at (StateDB_AddPendingRefundBalanceByUser a u x s) = (apb_at s)(a := (apb_at s a)(u := (apb_at s a u)\<lparr>apb_PendingRefundBalance := apb_PendingRefundBalance (apb_at s a u) + x\<rparr>))"
    "data_at (StateDB_SubPendingRefundBalanceByUser a u x s) = (data_at s)(a := acc_PendingRefundBalance_update (\<lambda>b. b - x) (data_at s a))"
    "apb_at (StateDB_SubPendingRefundBalanceByUser a u x s) = (apb_at s)(a := (apb_at s a)(u := (apb_at s a u)\<lparr>apb_PendingRefundBalance := apb_PendingRefundBalance (apb_at s a u) - x\<rparr>))"
  using add_acts(9,10,11,12,13,14) [THEN byUser_at(1) [OF assms]] add_acts(9,10,11,12,13,14) [THEN byUser_at(2) [OF assms]]
  by (simp_all add: StateDB_AddProxiedBalanceByUser_def StateDB_SubProxiedBalanceByUser_def StateDB_AddDepositProxiedBalanceByUser_def StateDB_SubDepositProxiedBalanceByUser_def StateDB_AddPendingRefundBalanceByUser_def StateDB_SubPendingRefundBalanceByUser_def
      apbOrNew_GetOrNew [OF assms] split_beta Let_def del: stateObject_SetAccountProxiedBalance.simps)

section \<open>Sequences of calls\<close>

lemma undoes_ok: "undoes s s' \<Longrightarrow> sdb_ok s \<Longrightarrow> sdb_ok s'"
  by (simp add: undoes_def sdb.extends_def)

lemmas calls_ok [effects] = field_undoes [THEN undoes_ok] proxied_undoes [THEN undoes_ok]
  sets_undo [THEN undoes_ok] plain_undo [THEN undoes_ok] candidate_undoes [THEN undoes_ok]

lemma same_objects:
  assumes "sdb_stateObjects s' = sdb_stateObjects s" "tr_accounts (sdb_trie s') = tr_accounts (sdb_trie s)"
  shows "data_at s' = data_at s" "apb_at s' = apb_at s"
proof -
  have "acct_at s' = acct_at s"
    using assms by (intro ext) (simp add: acct_at_def StateDB_getStateObject_def cong: option.case_cong)
  then show "data_at s' = data_at s" "apb_at s' = apb_at s" by (auto simp: data_at_def apb_at_def fun_eq_iff)
qed

lemma same_data [effects]:
  "data_at (StateDB_ClearDelegateRefundSet s) = data_at s" "apb_at (StateDB_ClearDelegateRefundSet s) = apb_at s"
  "data_at (fst (StateDB_GetDelegateAddressRefundSet s)) = data_at s"
  "apb_at (fst (StateDB_GetDelegateAddressRefundSet s)) = apb_at s"
  by (rule same_objects; simp add: StateDB_ClearDelegateRefundSet_def StateDB_GetDelegateAddressRefundSet_def
      Let_def split: option.split)+

end
