(* ===== verification/Epoch_Funds.thy ===== *)
theory Epoch_Funds
  imports Epoch_Validators State_Effects State_Reachable
begin

text \<open>
  What the change of epoch does to the accounts. Refunds, locking and releasing of delegations
  and the refunds of validators move amounts between the parts of an account and create nothing.
\<close>

definition funds :: "stateDB \<Rightarrow> address \<Rightarrow> int" where
  "funds s a = StateDB_GetBalance s a + StateDB_GetDepositBalance s a + StateDB_GetDelegateBalance s a"

text \<open>What a user has delegated to an account and not asked back.\<close>

definition stake :: "stateDB \<Rightarrow> address \<Rightarrow> address \<Rightarrow> int" where
  "stake s a u = StateDB_GetProxiedBalanceByUser s a u + StateDB_GetDepositProxiedBalanceByUser s a u
    - StateDB_GetPendingRefundBalanceByUser s a u"

definition settled :: "(bytes \<Rightarrow> bytes) \<Rightarrow> stateDB \<Rightarrow> stateDB \<Rightarrow> bool" where
  "settled keccak s0 s \<longleftrightarrow> sdb_reachable keccak s \<and> funds s = funds s0 \<and> stake s = stake s0"

lemma reachable_ok: "sdb_reachable keccak s \<Longrightarrow> sdb_ok s"
  using sdb_reachable_inv [of keccak s] by (simp add: sdb_inv_def)

lemma steps_reachable:
  assumes "sdb_reachable keccak s"
  shows "sdb_reachable keccak (StateDB_AddBalance a x s)" "sdb_reachable keccak (StateDB_SubDepositBalance a x s)"
    "sdb_reachable keccak (StateDB_SubDelegateBalance a x s)"
    "sdb_reachable keccak (StateDB_AddProxiedBalanceByUser a u x s)"
    "sdb_reachable keccak (StateDB_SubProxiedBalanceByUser a u x s)"
    "sdb_reachable keccak (StateDB_AddDepositProxiedBalanceByUser a u x s)"
    "sdb_reachable keccak (StateDB_SubDepositProxiedBalanceByUser a u x s)"
    "sdb_reachable keccak (StateDB_SubPendingRefundBalanceByUser a u x s)"
    "sdb_reachable keccak (StateDB_ClearCommission a s)" "sdb_reachable keccak (StateDB_ClearDelegateRefundSet s)"
    "sdb_reachable keccak (fst (StateDB_GetDelegateAddressRefundSet s))"
  by (rule sdb_reachable.Step [OF assms], rule sdb_step.intros)+

lemma settled_calls:
  assumes "settled keccak s0 s"
  shows "settled keccak s0 (StateDB_AddBalance k x (StateDB_SubDelegateBalance k x
      (StateDB_SubPendingRefundBalanceByUser a k x (StateDB_SubDepositProxiedBalanceByUser a k x s))))"
    "settled keccak s0 (StateDB_AddDepositProxiedBalanceByUser a k x (StateDB_SubProxiedBalanceByUser a k x s))"
    "settled keccak s0 (StateDB_AddProxiedBalanceByUser a k x (StateDB_SubDepositProxiedBalanceByUser a k x s))"
    "settled keccak s0 (StateDB_AddBalance a x (StateDB_SubDepositBalance a x s))"
    "settled keccak s0 (StateDB_ClearCommission a s)" "settled keccak s0 (StateDB_ClearDelegateRefundSet s)"
    "settled keccak s0 (fst (StateDB_GetDelegateAddressRefundSet s))"
proof -
  have r: "sdb_reachable keccak s" and ok: "sdb_ok s" and f: "funds s0 = funds s" "stake s0 = stake s"
    using assms reachable_ok by (auto simp: settled_def)
  show "settled keccak s0 (StateDB_AddBalance k x (StateDB_SubDelegateBalance k x
      (StateDB_SubPendingRefundBalanceByUser a k x (StateDB_SubDepositProxiedBalanceByUser a k x s))))"
    "settled keccak s0 (StateDB_AddDepositProxiedBalanceByUser a k x (StateDB_SubProxiedBalanceByUser a k x s))"
    "settled keccak s0 (StateDB_AddProxiedBalanceByUser a k x (StateDB_SubDepositProxiedBalanceByUser a k x s))"
    "settled keccak s0 (StateDB_AddBalance a x (StateDB_SubDepositBalance a x s))"
    "settled keccak s0 (StateDB_ClearCommission a s)" "settled keccak s0 (StateDB_ClearDelegateRefundSet s)"
    "settled keccak s0 (fst (StateDB_GetDelegateAddressRefundSet s))"
    using ok by (simp_all add: settled_def f steps_reachable r)
      (auto simp: fun_eq_iff funds_def stake_def effects)
qed

lemma ForEachProxied_invariant:
  assumes "StateDB_ForEachProxied a cb s = Ret s'" "P s" "\<And>k x y z t. P t \<Longrightarrow> P (cb k x y z t)"
  shows "P s'"
proof (cases "StateDB_getStateObject s a")
  case (Some so)
  show ?thesis
    using assms(1) unfolding StateDB_ForEachProxied_def Some option.case
    by (rule foldGo_invariant [where P = P, OF _ assms(2)]) (auto intro: assms(3) split: option.splits)
qed (use assms in \<open>simp add: StateDB_ForEachProxied_def\<close>)

lemma refundDelegate_settled:
  assumes "settled keccak s0 s" "refundDelegate a s = Ret s'"
  shows "settled keccak s0 s'"
proof -
  let ?cb = "\<lambda>key proxiedBalance depositProxiedBalance pendingRefundBalance s.
        if 0 < pendingRefundBalance then
          StateDB_AddBalance key pendingRefundBalance
            (StateDB_SubDelegateBalance key pendingRefundBalance
              (StateDB_SubPendingRefundBalanceByUser a key pendingRefundBalance
                (StateDB_SubDepositProxiedBalanceByUser a key pendingRefundBalance s)))
        else s"
  obtain s1 where s1: "StateDB_ForEachProxied a ?cb s = Ret s1"
    "s' = (if \<not> StateDB_IsCandidate s1 a then StateDB_ClearCommission a s1 else s1)"
    using assms(2) unfolding refundDelegate_def bindGo_Ret_iff by auto
  have "settled keccak s0 s1"
    by (rule ForEachProxied_invariant [where P = "settled keccak s0", OF s1(1) assms(1)]) (simp add: settled_calls(1))
  then show ?thesis using s1(2) settled_calls(5) by simp
qed

lemma lockDelegations_settled:
  assumes "settled keccak s0 s" "lockDelegations a s = Ret s'"
  shows "settled keccak s0 s'"
proof (cases "StateDB_IsCandidate s a \<and> 0 < StateDB_GetTotalProxiedBalance s a")
  case True
  let ?cb = "\<lambda>key proxiedBalance depositProxiedBalance pendingRefundBalance s.
        if 0 < proxiedBalance then
          StateDB_AddDepositProxiedBalanceByUser a key proxiedBalance
            (StateDB_SubProxiedBalanceByUser a key proxiedBalance s)
        else s"
  have "StateDB_ForEachProxied a ?cb s = Ret s'" using assms(2) True unfolding lockDelegations_def by simp
  then show ?thesis
    by (rule ForEachProxied_invariant [where P = "settled keccak s0", OF _ assms(1)]) (simp add: settled_calls(2))
next
  case False
  then have "lockDelegations a s = Ret s" unfolding lockDelegations_def by (rule if_not_P)
  then show ?thesis using assms by simp
qed

lemma payRefund_settled:
  assumes "settled keccak s0 s" "payRefund r s = Ret s'"
  shows "settled keccak s0 s'"
proof (cases "rva_Voteout r")
  case False
  then show ?thesis using assms settled_calls(4) by (auto simp: payRefund_def split: option.splits)
next
  case True
  let ?cb = "\<lambda>key proxiedBalance depositProxiedBalance pendingRefundBalance s.
             if 0 < depositProxiedBalance then
               StateDB_AddProxiedBalanceByUser (rva_Address r) key depositProxiedBalance
                 (StateDB_SubDepositProxiedBalanceByUser (rva_Address r) key depositProxiedBalance s)
             else s"
  obtain s1 where s1: "(if StateDB_IsCandidate s (rva_Address r)
      then StateDB_ForEachProxied (rva_Address r) ?cb s else Ret s) = Ret s1"
    "s' = StateDB_AddBalance (rva_Address r) (StateDB_GetDepositBalance s1 (rva_Address r))
      (StateDB_SubDepositBalance (rva_Address r) (StateDB_GetDepositBalance s1 (rva_Address r)) s1)"
    using assms(2) True unfolding payRefund_def Let_def by (auto simp: bindGo_Ret_iff)
  have "settled keccak s0 s1"
  proof (cases "StateDB_IsCandidate s (rva_Address r)")
    case True
    then have "StateDB_ForEachProxied (rva_Address r) ?cb s = Ret s1" using s1(1) by simp
    then show ?thesis
      by (rule ForEachProxied_invariant [where P = "settled keccak s0", OF _ assms(1)]) (simp add: settled_calls(3))
  qed (use s1 assms in simp)
  then show ?thesis unfolding s1(2) by (rule settled_calls(4))
qed

lemma ShouldEnterNewEpoch_cases:
  assumes "ShouldEnterNewEpoch w srt db height epoch s = Ret (enter, vals, err, epoch', s')"
    and h: "height = ep_EndBlock epoch" "ep_nextEpoch (GetNextEpoch w db epoch) = Some nx"
  obtains s1 s3 newVals refunds where
    "foldGo refundDelegate (snd (StateDB_GetDelegateAddressRefundSet s)) (fst (StateDB_GetDelegateAddressRefundSet s)) = Ret s1"
    "foldGo (\<lambda>v. lockDelegations (BytesToAddress (val_Address v))) (vs_Validators newVals)
       (StateDB_ClearDelegateRefundSet s1) = Ret s3"
    "foldGo payRefund refunds s3 = Ret s'" "vals = Some newVals"
proof -
  define upd where "upd s1 = updateEpochValidatorSet srt
    (refreshPowers (\<lambda>vAddr. StateDB_GetTotalProxiedBalance (StateDB_ClearDelegateRefundSet s1) vAddr
       + StateDB_GetTotalDepositProxiedBalance (StateDB_ClearDelegateRefundSet s1) vAddr
       + StateDB_GetDepositBalance (StateDB_ClearDelegateRefundSet s1) vAddr) 0 (ep_Validators (GetNextEpoch w db epoch)))
    (Some (case EpochValidatorVoteSet_Copy (ep_validatorVoteSet nx) of None \<Rightarrow> NewEpochValidatorVoteSet | Some vs \<Rightarrow> vs))"
    for s1
  have "ShouldEnterNewEpoch w srt db height epoch s =
    bindGo (foldGo refundDelegate (snd (StateDB_GetDelegateAddressRefundSet s)) (fst (StateDB_GetDelegateAddressRefundSet s))) (\<lambda>s1.
    bindGo (foldGo (\<lambda>v. lockDelegations (BytesToAddress (val_Address v))) (vs_Validators (fst (upd s1)))
       (StateDB_ClearDelegateRefundSet s1)) (\<lambda>s3.
    bindGo (foldGo payRefund (snd (upd s1)) s3) (\<lambda>s4. Ret (True, Some (fst (upd s1)), None, GetNextEpoch w db epoch, s4))))"
    unfolding ShouldEnterNewEpoch_def using h by (simp add: upd_def Let_def split_beta)
  then have "bindGo (foldGo refundDelegate (snd (StateDB_GetDelegateAddressRefundSet s)) (fst (StateDB_GetDelegateAddressRefundSet s))) (\<lambda>s1.
    bindGo (foldGo (\<lambda>v. lockDelegations (BytesToAddress (val_Address v))) (vs_Validators (fst (upd s1)))
       (StateDB_ClearDelegateRefundSet s1)) (\<lambda>s3.
    bindGo (foldGo payRefund (snd (upd s1)) s3) (\<lambda>s4. Ret (True, Some (fst (upd s1)), None, GetNextEpoch w db epoch, s4))))
    = Ret (enter, vals, err, epoch', s')" using assms(1) by simp
  then obtain s1 s3 where
    "foldGo refundDelegate (snd (StateDB_GetDelegateAddressRefundSet s)) (fst (StateDB_GetDelegateAddressRefundSet s)) = Ret s1"
    "foldGo (\<lambda>v. lockDelegations (BytesToAddress (val_Address v))) (vs_Validators (fst (upd s1)))
       (StateDB_ClearDelegateRefundSet s1) = Ret s3"
    "foldGo payRefund (snd (upd s1)) s3 = Ret s'" "vals = Some (fst (upd s1))"
    by (auto simp: bindGo_Ret_iff)
  then show thesis by (rule that)
qed

text \<open>
  C32: the change of epoch conserves the funds of every account, that is its balance, its deposit
  and what it has delegated, and the stake every user has in every account. It is a sequence of
  ordinary calls of the database, so that the sums of delegations stay right too.
\<close>

theorem epoch_change_conserves_funds:
  assumes "sdb_reachable keccak s"
    "ShouldEnterNewEpoch w srt db height epoch s = Ret (enter, vals, err, epoch', s')"
  shows "sdb_reachable keccak s'
    \<and> (\<forall>a. StateDB_GetBalance s' a + StateDB_GetDepositBalance s' a + StateDB_GetDelegateBalance s' a
        = StateDB_GetBalance s a + StateDB_GetDepositBalance s a + StateDB_GetDelegateBalance s a)
    \<and> (\<forall>a u. stake s' a u = stake s a u)"
proof -
  have s: "settled keccak s s" using assms(1) by (simp add: settled_def)
  have "settled keccak s s'"
  proof (cases "height = ep_EndBlock epoch \<and> ep_nextEpoch (GetNextEpoch w db epoch) \<noteq> None")
    case False
    then show ?thesis using assms(2) s
      by (auto simp: ShouldEnterNewEpoch_def Let_def split: if_splits option.splits)
  next
    case True
    then obtain nx where h: "height = ep_EndBlock epoch" "ep_nextEpoch (GetNextEpoch w db epoch) = Some nx" by blast
    obtain s1 s3 refunds and newVals :: validatorSet where f:
      "foldGo refundDelegate (snd (StateDB_GetDelegateAddressRefundSet s)) (fst (StateDB_GetDelegateAddressRefundSet s)) = Ret s1"
      "foldGo (\<lambda>v. lockDelegations (BytesToAddress (val_Address v))) (vs_Validators newVals)
         (StateDB_ClearDelegateRefundSet s1) = Ret s3"
      "foldGo payRefund refunds s3 = Ret s'"
      by (rule ShouldEnterNewEpoch_cases [OF assms(2) h]) blast
    have "settled keccak s s1"
      by (rule foldGo_invariant [where P = "settled keccak s", OF f(1) settled_calls(7) [OF s]]) (rule refundDelegate_settled)
    then have "settled keccak s s3"
      using foldGo_invariant [where P = "settled keccak s", OF f(2) settled_calls(6)] lockDelegations_settled by metis
    then show ?thesis
      using foldGo_invariant [where P = "settled keccak s", OF f(3)] payRefund_settled by metis
  qed
  then show ?thesis by (simp add: settled_def funds_def fun_eq_iff)
qed

section \<open>A change of epoch\<close>

text \<open>
  One candidate with a deposit of 10, to whom another account has delegated 90; the candidate
  is the only validator and votes to leave.
\<close>

definition demo_val :: address where "demo_val = BytesToAddress [1]"
definition demo_user :: address where "demo_user = BytesToAddress [2]"

definition empty_trie :: accountTrie where
  "empty_trie = \<lparr>tr_accounts = Map.empty, tr_refundSet = None, tr_rewardSet = None, tr_candidateSet = None,
    tr_bannedSet = None, tr_rewardPerBlock = None\<rparr>"

definition demo_staked :: stateDB where
  "demo_staked = StateDB_AddDepositProxiedBalanceByUser demo_val demo_user 90
    (StateDB_AddDelegateBalance demo_user 90 (StateDB_ApplyForCandidate demo_val ''pk'' 5
      (StateDB_AddDepositBalance demo_val 10 (StateDB_New Map.empty empty_trie))))"

definition demo_fields :: "u64 \<Rightarrow> epochFields" where
  "demo_fields n = \<lparr>ef_Number = n, ef_RewardPerBlock = 1, ef_StartBlock = 10 * n, ef_EndBlock = 10 * n + 9,
    ef_StartTime = 0, ef_EndTime = 0, ef_BlockGenerated = 0, ef_Status = EPOCH_SAVED,
    ef_Validators = \<lparr>vs_Validators = [NewValidator demo_val [11] 100], vs_totalVotingPower = None\<rparr>\<rparr>"

definition demo_epoch :: epoch where
  "demo_epoch = Epoch (demo_fields 0) None None None (Some (Epoch (demo_fields 1)
    (Some (freshVoteSet [\<lparr>evv_Address = demo_val, evv_PubKey = Some [11], evv_Amount = Some 0, evv_Salt = ''s'',
       evv_VoteHash = [], evv_TxHash = []\<rparr>])) None None None))"

lemma demo_staked_reachable: "sdb_reachable keccak demo_staked"
proof -
  have "trie_ok empty_trie" by (simp add: trie_ok_def empty_trie_def)
  then have "sdb_reachable keccak (StateDB_New Map.empty empty_trie)" by (rule sdb_reachable.New)
  from sdb_reachable.Step [OF sdb_reachable.Step [OF sdb_reachable.Step [OF sdb_reachable.Step
      [OF this sdb_step.AddDepositBalance] sdb_step.ApplyForCandidate] sdb_step.AddDelegateBalance]
      sdb_step.AddDepositProxiedBalanceByUser]
  show ?thesis unfolding demo_staked_def .
qed

lemma demo_entered:
  "case ShouldEnterNewEpoch demo_wire knockSort Map.empty 9 demo_epoch demo_staked of
     Panic e \<Rightarrow> False
   | Ret (enter, vals, err, epoch', s') \<Rightarrow> enter \<and> StateDB_GetBalance s' demo_val = 100
       \<and> StateDB_GetDepositBalance s' demo_val = - 90
       \<and> StateDB_GetDepositProxiedBalanceByUser s' demo_val demo_user = 90"
  by code_simp

lemma demo_entered_cases:
  obtains vals err epoch' s' where
    "ShouldEnterNewEpoch demo_wire knockSort Map.empty 9 demo_epoch demo_staked = Ret (True, vals, err, epoch', s')"
    "StateDB_GetBalance s' demo_val = 100" "StateDB_GetDepositBalance s' demo_val = - 90"
    "StateDB_GetDepositProxiedBalanceByUser s' demo_val demo_user = 90"
  using demo_entered that by (auto split: go.splits prod.splits)

theorem epoch_change_conserves_funds_witness:
  "\<exists>vals err epoch' s'. ShouldEnterNewEpoch demo_wire knockSort Map.empty 9 demo_epoch demo_staked
      = Ret (True, vals, err, epoch', s')
    \<and> StateDB_GetBalance s' demo_val + StateDB_GetDepositBalance s' demo_val + StateDB_GetDelegateBalance s' demo_val
      = StateDB_GetBalance demo_staked demo_val + StateDB_GetDepositBalance demo_staked demo_val
        + StateDB_GetDelegateBalance demo_staked demo_val"
proof (rule demo_entered_cases)
  fix vals err epoch' s'
  assume s': "ShouldEnterNewEpoch demo_wire knockSort Map.empty 9 demo_epoch demo_staked = Ret (True, vals, err, epoch', s')"
  show ?thesis using epoch_change_conserves_funds [OF demo_staked_reachable s', of "\<lambda>_. []"] s' by blast
qed

text \<open>
  A validator that leaves is paid its whole voting power, which includes what others have
  delegated to it: with a deposit of 10 and a delegation of 90 it receives 100, its deposit
  becomes negative, and the delegation of the other account is still recorded.
\<close>

theorem refund_exceeds_deposit:
  "StateDB_GetDepositBalance demo_staked demo_val = 10 \<and> StateDB_GetBalance demo_staked demo_val = 0
   \<and> (\<exists>vals err epoch' s'. ShouldEnterNewEpoch demo_wire knockSort Map.empty 9 demo_epoch demo_staked
        = Ret (True, vals, err, epoch', s')
      \<and> StateDB_GetBalance s' demo_val = 100 \<and> StateDB_GetDepositBalance s' demo_val = - 90
      \<and> StateDB_GetDepositProxiedBalanceByUser s' demo_val demo_user = 90)"
proof -
  have "StateDB_GetDepositBalance demo_staked demo_val = 10" "StateDB_GetBalance demo_staked demo_val = 0"
    by code_simp+
  moreover have "\<exists>vals err epoch' s'. ShouldEnterNewEpoch demo_wire knockSort Map.empty 9 demo_epoch demo_staked
        = Ret (True, vals, err, epoch', s')
      \<and> StateDB_GetBalance s' demo_val = 100 \<and> StateDB_GetDepositBalance s' demo_val = - 90
      \<and> StateDB_GetDepositProxiedBalanceByUser s' demo_val demo_user = 90"
    by (rule demo_entered_cases) blast
  ultimately show ?thesis by simp
qed

end
