(* ===== verification/Epoch_Store.thy ===== *)
theory Epoch_Store
  imports Epochs
begin

text \<open>
  The store of epochs and votes: the keys never collide, a node that restarts continues with the
  epoch it saved, the handlers of votes act on a map from accounts to votes, the search for the
  epoch of a block ends, and a proposed epoch is accepted by a node with the same state.
\<close>

section \<open>Keys and fields\<close>

lemma keys_differ [simp]:
  "calcEpochKeyWithHeight m = calcEpochKeyWithHeight n \<longleftrightarrow> m = n"
  "calcEpochValidatorVoteKey m = calcEpochValidatorVoteKey n \<longleftrightarrow> m = n"
  "calcEpochKeyWithHeight m \<noteq> latestEpochKey" "latestEpochKey \<noteq> calcEpochKeyWithHeight m"
  "calcEpochKeyWithHeight m \<noteq> rewardSchemeKey" "rewardSchemeKey \<noteq> calcEpochKeyWithHeight m"
  "calcEpochKeyWithHeight m \<noteq> calcEpochValidatorVoteKey n" "calcEpochValidatorVoteKey n \<noteq> calcEpochKeyWithHeight m"
  "latestEpochKey \<noteq> calcEpochValidatorVoteKey n" "calcEpochValidatorVoteKey n \<noteq> latestEpochKey"
  "rewardSchemeKey \<noteq> calcEpochValidatorVoteKey n" "calcEpochValidatorVoteKey n \<noteq> rewardSchemeKey"
  "latestEpochKey \<noteq> rewardSchemeKey" "rewardSchemeKey \<noteq> latestEpochKey"
  by (simp_all add: calcEpochKeyWithHeight_def calcEpochValidatorVoteKey_def latestEpochKey_def rewardSchemeKey_def)

lemma set_simps [simp]:
  "ep_fields (setFields f e) = f (ep_fields e)" "ep_fields (setVoteSet v e) = ep_fields e"
  "ep_fields (SetRewardScheme rs e) = ep_fields e" "ep_fields (setPrevious p e) = ep_fields e"
  "ep_fields (setNext n e) = ep_fields e"
  "ep_validatorVoteSet (setFields f e) = ep_validatorVoteSet e" "ep_validatorVoteSet (setVoteSet v e) = v"
  "ep_validatorVoteSet (SetRewardScheme rs e) = ep_validatorVoteSet e"
  "ep_validatorVoteSet (setPrevious p e) = ep_validatorVoteSet e" "ep_validatorVoteSet (setNext n e) = ep_validatorVoteSet e"
  "ep_rs (setFields f e) = ep_rs e" "ep_rs (setVoteSet v e) = ep_rs e" "ep_rs (SetRewardScheme rs e) = rs"
  "ep_rs (setPrevious p e) = ep_rs e" "ep_rs (setNext n e) = ep_rs e"
  "ep_previousEpoch (setFields f e) = ep_previousEpoch e" "ep_previousEpoch (setVoteSet v e) = ep_previousEpoch e"
  "ep_previousEpoch (SetRewardScheme rs e) = ep_previousEpoch e" "ep_previousEpoch (setPrevious p e) = p"
  "ep_previousEpoch (setNext n e) = ep_previousEpoch e"
  "ep_nextEpoch (setFields f e) = ep_nextEpoch e" "ep_nextEpoch (setVoteSet v e) = ep_nextEpoch e"
  "ep_nextEpoch (SetRewardScheme rs e) = ep_nextEpoch e" "ep_nextEpoch (setPrevious p e) = ep_nextEpoch e"
  "ep_nextEpoch (setNext n e) = n"
  by (cases e; simp)+

section \<open>Votes for the next epoch\<close>

text \<open>The vote set the next handler will see, and the map it stands for.\<close>

definition nextSet :: "'v wire \<Rightarrow> epoch \<Rightarrow> 'v edb \<Rightarrow> epochValidatorVoteSet option option" where
  "nextSet w ep db = map_option (\<lambda>nx. ep_validatorVoteSet (GetEpochValidatorVoteSet w db nx))
    (ep_nextEpoch (GetNextEpoch w db ep))"

definition nextVotes :: "'v wire \<Rightarrow> epoch \<Rightarrow> 'v edb \<Rightarrow> address \<rightharpoonup> epochValidatorVote" where
  "nextVotes w ep db = (case nextSet w ep db of Some (Some s) \<Rightarrow> vote_map s | _ \<Rightarrow> Map.empty)"

definition next_ok :: "'v wire \<Rightarrow> epoch \<Rightarrow> 'v edb \<Rightarrow> bool" where
  "next_ok w ep db \<longleftrightarrow> nextSet w ep db \<noteq> None \<and> (\<forall>s. nextSet w ep db = Some (Some s) \<longrightarrow> voteSet_ok s)"

lemma withNextVoteSet_ok:
  assumes w: "wire_laws w" and vs: "nextSet w ep db = Some vs" and f: "f vs = Ret s" "voteSet_ok s"
  obtains ep' db' where "withNextVoteSet w f ep db = Ret (ep', db')" "next_ok w ep' db'"
    "nextVotes w ep' db' = vote_map s"
proof -
  obtain nx where nx: "ep_nextEpoch (GetNextEpoch w db ep) = Some nx"
    "vs = ep_validatorVoteSet (GetEpochValidatorVoteSet w db nx)"
    using vs by (auto simp: nextSet_def)
  let ?nx = "GetEpochValidatorVoteSet w db nx"
  let ?nx' = "if Option.is_none (ep_validatorVoteSet ?nx) then ?nx else setVoteSet (Some s) ?nx"
  let ?ep' = "setNext (Some ?nx') (GetNextEpoch w db ep)"
  let ?db' = "SaveEpochVoteSet w (ep_Number ?nx) s db"
  have r: "withNextVoteSet w f ep db = Ret (?ep', ?db')"
    using nx f(1) by (simp add: withNextVoteSet_def Let_def)
  obtain t where t: "LoadEpochVoteSet w ?db' (ep_Number ?nx) = Some t" "voteSet_ok t" "vote_map t = vote_map s"
    using Load_Save [OF w f(2)] by blast
  have "nextSet w ?ep' ?db' = Some (Some (if Option.is_none (ep_validatorVoteSet ?nx) then t else s))"
    using t(1) by (auto simp: nextSet_def GetNextEpoch_def GetEpochValidatorVoteSet_def)
  then show thesis using r t f(2) by (intro that [OF r]) (auto simp: next_ok_def nextVotes_def)
qed

lemma StoreVote_new:
  assumes "voteSet_ok s"
  obtains s2 where "(case newVote v s of (s1, p) \<Rightarrow> StoreVote p s1) = Ret s2" "voteSet_ok s2"
    "vote_map s2 = (vote_map s)(evv_Address v \<mapsto> v)"
proof -
  obtain s1 p where n: "newVote v s = (s1, p)" by fastforce
  obtain s2 where "StoreVote p s1 = Ret s2" "voteSet_ok s2" "vote_map s2 = (vote_map s)(evv_Address v \<mapsto> v)"
    by (rule StoreVote_ok [OF assms n])
  then show thesis using n by (intro that) auto
qed

lemma putVote:
  assumes ok: "voteSet_ok s" and f: "\<And>v. evv_Address (f v) = evv_Address v" and n: "evv_Address n = from"
  obtains s2 where "(case GetVoteByAddress s from of
      Some p \<Rightarrow> Ret (writeVote p f s) | None \<Rightarrow> (case newVote n s of (s1, p) \<Rightarrow> StoreVote p s1)) = Ret s2"
    "voteSet_ok s2"
    "vote_map s2 = (vote_map s)(from \<mapsto> (case vote_map s from of Some v \<Rightarrow> f v | None \<Rightarrow> n))"
proof (cases "GetVoteByAddress s from")
  case None
  then have "vote_map s from = None" by (simp add: vote_map_def GetVoteByAddress_def)
  moreover obtain s2 where "(case newVote n s of (s1, p) \<Rightarrow> StoreVote p s1) = Ret s2" "voteSet_ok s2"
    "vote_map s2 = (vote_map s)(evv_Address n \<mapsto> n)"
    by (rule StoreVote_new [OF ok])
  ultimately show thesis using None n by (intro that [of s2]) simp_all
next
  case (Some p)
  have "vote_map s from = Some (evs_cells s ! p)" using Some by (simp add: vote_map_def GetVoteByAddress_def)
  then show thesis using writeVote_ok [OF ok Some f] Some by (intro that [of "writeVote p f s"]) auto
qed

lemma put_next:
  assumes w: "wire_laws w" and ok: "next_ok w ep db"
    and f: "\<And>v. evv_Address (f v) = evv_Address v" and n: "evv_Address n = from"
  shows "\<exists>ep' db'. withNextVoteSet w (\<lambda>vs. let voteSet = (case vs of None \<Rightarrow> NewEpochValidatorVoteSet | Some s \<Rightarrow> s) in
      case GetVoteByAddress voteSet from of Some p \<Rightarrow> Ret (writeVote p f voteSet)
      | None \<Rightarrow> (case newVote n voteSet of (s1, p) \<Rightarrow> StoreVote p s1)) ep db = Ret (ep', db')
    \<and> next_ok w ep' db'
    \<and> nextVotes w ep' db' = (nextVotes w ep db)(from \<mapsto> (case nextVotes w ep db from of Some v \<Rightarrow> f v | None \<Rightarrow> n))"
proof -
  obtain vs where vs: "nextSet w ep db = Some vs" "\<And>s. vs = Some s \<Longrightarrow> voteSet_ok s"
    using ok by (auto simp: next_ok_def)
  define s where "s = (case vs of None \<Rightarrow> NewEpochValidatorVoteSet | Some s \<Rightarrow> s)"
  have s: "voteSet_ok s" "nextVotes w ep db = vote_map s"
    using vs NewVoteSet_ok by (auto simp: s_def nextVotes_def split: option.splits)
  obtain s2 where s2: "(case GetVoteByAddress s from of
      Some p \<Rightarrow> Ret (writeVote p f s) | None \<Rightarrow> (case newVote n s of (s1, p) \<Rightarrow> StoreVote p s1)) = Ret s2"
    "voteSet_ok s2" "vote_map s2 = (vote_map s)(from \<mapsto> (case vote_map s from of Some v \<Rightarrow> f v | None \<Rightarrow> n))"
    by (rule putVote [OF s(1) f n])
  let ?f = "\<lambda>vs. let voteSet = (case vs of None \<Rightarrow> NewEpochValidatorVoteSet | Some s \<Rightarrow> s) in
      case GetVoteByAddress voteSet from of Some p \<Rightarrow> Ret (writeVote p f voteSet)
      | None \<Rightarrow> (case newVote n voteSet of (s1, p) \<Rightarrow> StoreVote p s1)"
  have "?f vs = Ret s2" using s2(1) unfolding s_def Let_def .
  then show ?thesis unfolding s(2) s2(3) [symmetric]
    by (rule withNextVoteSet_ok [where f = ?f, OF w vs(1) _ s2(2)]) blast
qed

lemma reveal_next:
  assumes w: "wire_laws w" and ok: "next_ok w ep db" and vs: "nextSet w ep db \<noteq> Some None"
  shows "\<exists>ep' db'. RevealVote w from pubkey amount salt txHash ep db = Ret (ep', db') \<and> next_ok w ep' db'
    \<and> nextVotes w ep' db' = (nextVotes w ep db)(from := map_option (\<lambda>v. v\<lparr>evv_PubKey := pubkey,
        evv_Amount := amount, evv_Salt := salt, evv_TxHash := txHash\<rparr>) (nextVotes w ep db from))"
proof -
  let ?g = "\<lambda>v. v\<lparr>evv_PubKey := pubkey, evv_Amount := amount, evv_Salt := salt, evv_TxHash := txHash\<rparr>"
  let ?f = "\<lambda>vs. case vs of None \<Rightarrow> Panic ''nil voteSet''
    | Some voteSet \<Rightarrow> (case GetVoteByAddress voteSet from of
        Some vote \<Rightarrow> Ret (writeVote vote ?g voteSet) | None \<Rightarrow> Ret voteSet)"
  obtain s where s: "nextSet w ep db = Some (Some s)" "voteSet_ok s" "nextVotes w ep db = vote_map s"
    using ok vs by (auto simp: next_ok_def nextVotes_def)
  obtain s2 where s2: "?f (Some s) = Ret s2" "voteSet_ok s2"
    "vote_map s2 = (vote_map s)(from := map_option ?g (vote_map s from))"
  proof (cases "GetVoteByAddress s from")
    case None
    then have "vote_map s from = None" by (simp add: vote_map_def GetVoteByAddress_def)
    then show thesis using None s(2) by (intro that [of s]) (simp_all add: fun_upd_idem)
  next
    case (Some p)
    then show thesis using writeVote_ok [OF s(2) Some, of ?g] by (intro that [of "writeVote p ?g s"]) simp_all
  qed
  show ?thesis unfolding s(3) s2(3) [symmetric] RevealVote_def
    by (rule withNextVoteSet_ok [where f = ?f, OF w s(1) s2(1,2)]) blast
qed

lemma reveal_panics:
  assumes "nextSet w ep db = Some None"
  shows "RevealVote w from pubkey amount salt txHash ep db = Panic ''nil voteSet''"
  using assms by (auto simp: RevealVote_def withNextVoteSet_def nextSet_def Let_def)

text \<open>
  C35: votes for the next epoch. Whether the vote set is in memory, in the store or does not exist
  yet, voting and updating change the vote of the sender and no other, and neither panics; revealing
  changes an existing vote of the sender, and panics exactly when there is no vote set at all.
\<close>

theorem epoch_votes_refine_map:
  assumes "wire_laws w" "next_ok w ep db"
  shows "(\<exists>ep' db'. VoteNextEpoch w from voteHash txHash ep db = Ret (ep', db') \<and> next_ok w ep' db'
      \<and> nextVotes w ep' db' = (nextVotes w ep db)(from \<mapsto> (case nextVotes w ep db from of
          Some v \<Rightarrow> v\<lparr>evv_VoteHash := voteHash, evv_TxHash := txHash\<rparr>
        | None \<Rightarrow> \<lparr>evv_Address = from, evv_PubKey = None, evv_Amount = None, evv_Salt = [],
            evv_VoteHash = voteHash, evv_TxHash = txHash\<rparr>)))
    \<and> (\<exists>ep' db'. UpdateNextEpoch w from pubkey amount salt txHash ep db = Ret (ep', db') \<and> next_ok w ep' db'
      \<and> nextVotes w ep' db' = (nextVotes w ep db)(from \<mapsto> (case nextVotes w ep db from of
          Some v \<Rightarrow> v\<lparr>evv_Amount := amount, evv_TxHash := txHash\<rparr>
        | None \<Rightarrow> \<lparr>evv_Address = from, evv_PubKey = pubkey, evv_Amount = amount, evv_Salt = ''ligochain'',
            evv_VoteHash = zeroHash, evv_TxHash = txHash\<rparr>)))
    \<and> (if nextSet w ep db = Some None
       then RevealVote w from pubkey amount salt txHash ep db = Panic ''nil voteSet''
       else \<exists>ep' db'. RevealVote w from pubkey amount salt txHash ep db = Ret (ep', db') \<and> next_ok w ep' db'
         \<and> nextVotes w ep' db' = (nextVotes w ep db)(from := map_option (\<lambda>v. v\<lparr>evv_PubKey := pubkey,
             evv_Amount := amount, evv_Salt := salt, evv_TxHash := txHash\<rparr>) (nextVotes w ep db from)))"
  using put_next [OF assms, of "\<lambda>v. v\<lparr>evv_VoteHash := voteHash, evv_TxHash := txHash\<rparr>"
      "\<lparr>evv_Address = from, evv_PubKey = None, evv_Amount = None, evv_Salt = [], evv_VoteHash = voteHash, evv_TxHash = txHash\<rparr>"
      "from"]
    put_next [OF assms, of "\<lambda>v. v\<lparr>evv_Amount := amount, evv_TxHash := txHash\<rparr>"
      "\<lparr>evv_Address = from, evv_PubKey = pubkey, evv_Amount = amount, evv_Salt = ''ligochain'',
        evv_VoteHash = zeroHash, evv_TxHash = txHash\<rparr>" "from"]
    reveal_next [OF assms] reveal_panics [of w ep db]
  unfolding VoteNextEpoch_def UpdateNextEpoch_def by simp

definition demo_fields0 :: "u64 \<Rightarrow> u64 \<Rightarrow> u64 \<Rightarrow> epochFields" where
  "demo_fields0 n a b = \<lparr>ef_Number = n, ef_RewardPerBlock = 1, ef_StartBlock = a, ef_EndBlock = b,
    ef_StartTime = 0, ef_EndTime = 0, ef_BlockGenerated = 0, ef_Status = EPOCH_VOTED_NOT_SAVED,
    ef_Validators = \<lparr>vs_Validators = [NewValidator [1] [11] 100], vs_totalVotingPower = None\<rparr>\<rparr>"

definition demo_pair :: epoch where
  "demo_pair = Epoch (demo_fields0 0 0 9) None (Some \<lparr>rs_TotalReward = 1000000, rs_RewardFirstYear = 100000,
      rs_EpochNumberPerYear = 4, rs_TotalYear = 10\<rparr>) None (Some (Epoch (demo_fields0 1 10 19) None None None None))"

lemma demo_pair_ok: "nextSet demo_wire demo_pair Map.empty = Some None" "next_ok demo_wire demo_pair Map.empty"
  by (simp_all add: next_ok_def nextSet_def demo_pair_def GetNextEpoch_def GetEpochValidatorVoteSet_def LoadEpochVoteSet_def)

theorem epoch_votes_refine_map_witness:
  "(\<exists>ep' db'. VoteNextEpoch demo_wire [1] [5] [6] demo_pair Map.empty = Ret (ep', db')
      \<and> map_option evv_VoteHash (nextVotes demo_wire ep' db' [1]) = Some [5])
    \<and> RevealVote demo_wire [1] None None ''salt'' [7] demo_pair Map.empty = Panic ''nil voteSet''"
proof -
  note t = epoch_votes_refine_map [OF demo_wire_laws demo_pair_ok(2), of "[1]" "[5]" "[6]" None None "''salt''"]
  have "nextVotes demo_wire demo_pair Map.empty [1] = None" using demo_pair_ok(1) by (simp add: nextVotes_def)
  then have "\<exists>ep' db'. VoteNextEpoch demo_wire [1] [5] [6] demo_pair Map.empty = Ret (ep', db')
      \<and> map_option evv_VoteHash (nextVotes demo_wire ep' db' [1]) = Some [5]"
    using t by fastforce
  moreover have "RevealVote demo_wire [1] None None ''salt'' [7] demo_pair Map.empty = Panic ''nil voteSet''"
    using epoch_votes_refine_map [OF demo_wire_laws demo_pair_ok(2), of "[1]" "[5]" "[7]" None None "''salt''"]
      demo_pair_ok(1) by simp
  ultimately show ?thesis by blast
qed

section \<open>Restart\<close>

lemma FromBytes_Some:
  "wire_laws w \<Longrightarrow> FromBytes w (Some (EpochBytes w f)) = Some (Epoch (stored w f) None None None None)"
  using wire_lawsD(1,2) [of w f] by (simp add: FromBytes_def)

lemma Save_reads:
  assumes "wire_laws w" "Epoch_Save w e db = (e', db')"
  shows "ep_nextEpoch e = None \<or> (\<exists>nx. ep_nextEpoch e = Some nx \<and> ep_Number nx = ep_Number e + 1)
      \<Longrightarrow> loadOneEpoch w db' (ep_Number e) = Some (Epoch (stored w (ep_fields e)) None None None None)"
    and "db' latestEpochKey = Some (StringBytes w (FormatUint (unat (ep_Number e))))"
    and "LoadRewardScheme w db' = LoadRewardScheme w db"
proof -
  show "loadOneEpoch w db' (ep_Number e) = Some (Epoch (stored w (ep_fields e)) None None None None)"
    if "ep_nextEpoch e = None \<or> (\<exists>nx. ep_nextEpoch e = Some nx \<and> ep_Number nx = ep_Number e + 1)"
    using assms that FromBytes_Some [of w]
    by (auto simp: Epoch_Save_def Let_def loadOneEpoch_def SaveEpochVoteSet_def split: option.splits if_splits)
  show "db' latestEpochKey = Some (StringBytes w (FormatUint (unat (ep_Number e))))"
    "LoadRewardScheme w db' = LoadRewardScheme w db"
    using assms by (auto simp: Epoch_Save_def Let_def LoadRewardScheme_def SaveEpochVoteSet_def
        split: option.splits if_splits)
qed

lemma Save_next:
  assumes "wire_laws w" "Epoch_Save w e db = (e', db')" "ep_nextEpoch e = Some nx" "ep_Number nx = ep_Number e + 1"
    "ef_Status (ep_fields nx) = EPOCH_VOTED_NOT_SAVED"
  shows "loadOneEpoch w db' (ep_Number e + 1)
      = Some (Epoch (stored w ((ep_fields nx)\<lparr>ef_Status := EPOCH_SAVED\<rparr>)) None None None None)"
    "ep_validatorVoteSet nx = Some vs \<Longrightarrow> LoadEpochVoteSet w db' (ep_Number e + 1)
      = LoadEpochVoteSet w (SaveEpochVoteSet w (ep_Number e + 1) vs db) (ep_Number e + 1)"
proof -
  show "loadOneEpoch w db' (ep_Number e + 1)
      = Some (Epoch (stored w ((ep_fields nx)\<lparr>ef_Status := EPOCH_SAVED\<rparr>)) None None None None)"
    using assms FromBytes_Some [of w]
    by (auto simp: Epoch_Save_def Let_def loadOneEpoch_def SaveEpochVoteSet_def split: option.splits)
  show "LoadEpochVoteSet w db' (ep_Number e + 1)
      = LoadEpochVoteSet w (SaveEpochVoteSet w (ep_Number e + 1) vs db) (ep_Number e + 1)"
    if "ep_validatorVoteSet nx = Some vs"
    using assms that by (auto simp: Epoch_Save_def Let_def LoadEpochVoteSet_def SaveEpochVoteSet_def)
qed

text \<open>
  C36: a node that restarts after saving an epoch continues with it: \<open>InitEpoch\<close> ignores the genesis
  document and returns the saved fields and reward scheme, with times as stored, and a next epoch that
  was voted comes back as saved with its votes.
\<close>

theorem saved_epoch_restarts:
  assumes "wire_laws w" "Epoch_Save w e db = (e', db')"
    "ep_nextEpoch e = None \<or> (\<exists>nx. ep_nextEpoch e = Some nx \<and> ep_Number nx = ep_Number e + 1)"
  shows "\<exists>x. InitEpoch w now genDoc db' = Ret (x, db') \<and> ep_fields x = stored w (ep_fields e)
    \<and> ep_rs x = LoadRewardScheme w db
    \<and> (\<forall>nx. ep_nextEpoch e = Some nx \<and> ef_Status (ep_fields nx) = EPOCH_VOTED_NOT_SAVED \<longrightarrow>
        (\<exists>nx'. ep_nextEpoch x = Some nx' \<and> ep_fields nx' = stored w ((ep_fields nx)\<lparr>ef_Status := EPOCH_SAVED\<rparr>)
          \<and> (\<forall>vs. ep_validatorVoteSet nx = Some vs \<and> voteSet_ok vs \<longrightarrow>
              (\<exists>vs'. ep_validatorVoteSet nx' = Some vs' \<and> votes_of vs' = votes_of vs \<and> vote_map vs' = vote_map vs))))"
proof -
  let ?n = "ep_Number e"
  note sv = Save_reads [OF assms(1,2)]
  have n: "of_nat (ParseUint (BytesString w (StringBytes w (FormatUint (unat ?n))))) = ?n"
    using wire_lawsD(7) [OF assms(1)] ParseUint_FormatUint [of "unat ?n"]
      unsigned_less [of ?n, where ?'a = nat] by simp
  obtain x where x: "LoadOneEpoch w db' ?n = Ret x" "ep_fields x = stored w (ep_fields e)"
    "ep_rs x = LoadRewardScheme w db"
    "ep_nextEpoch x = map_option (\<lambda>nx. setVoteSet (LoadEpochVoteSet w db' (?n + 1))
       (SetRewardScheme (LoadRewardScheme w db) nx)) (loadOneEpoch w db' (?n + 1))"
    using sv(1) [OF assms(3)] sv(3) by (simp add: LoadOneEpoch_def Let_def)
  have "InitEpoch w now genDoc db' = Ret (x, db')" using sv(2) x(1) n by (simp add: InitEpoch_def)
  moreover have "\<exists>nx'. ep_nextEpoch x = Some nx' \<and> ep_fields nx' = stored w ((ep_fields nx)\<lparr>ef_Status := EPOCH_SAVED\<rparr>)
          \<and> (\<forall>vs. ep_validatorVoteSet nx = Some vs \<and> voteSet_ok vs \<longrightarrow>
              (\<exists>vs'. ep_validatorVoteSet nx' = Some vs' \<and> votes_of vs' = votes_of vs \<and> vote_map vs' = vote_map vs))"
    if nx: "ep_nextEpoch e = Some nx" "ef_Status (ep_fields nx) = EPOCH_VOTED_NOT_SAVED" for nx
  proof -
    have "ep_Number nx = ?n + 1" using assms(3) nx(1) by auto
    note nxt = Save_next [OF assms(1,2) nx(1) this nx(2)]
    have "\<exists>vs'. LoadEpochVoteSet w db' (?n + 1) = Some vs' \<and> votes_of vs' = votes_of vs \<and> vote_map vs' = vote_map vs"
      if "ep_validatorVoteSet nx = Some vs" "voteSet_ok vs" for vs
      using Load_Save [OF assms(1) that(2), of "?n + 1" db] nxt(2) [OF that(1)] by auto
    then show ?thesis using x(4) nxt(1) by simp
  qed
  ultimately show ?thesis using x(2,3) by blast
qed

definition demo_genesis :: genesisDoc where
  "demo_genesis = \<lparr>gd_RewardScheme = \<lparr>rs_TotalReward = 1000000, rs_RewardFirstYear = 100000,
      rs_EpochNumberPerYear = 4, rs_TotalYear = 10\<rparr>,
    gd_CurrentEpoch = \<lparr>oed_Number = 0, oed_RewardPerBlock = 1, oed_StartBlock = 0, oed_EndBlock = 5, oed_Status = 0,
      oed_Validators = []\<rparr>\<rparr>"

theorem saved_epoch_restarts_witness:
  "\<exists>x db'. InitEpoch demo_wire 77 demo_genesis db' = Ret (x, db') \<and> db' = snd (Epoch_Save demo_wire demo_pair Map.empty)
    \<and> ep_Number x = 0 \<and> ep_EndBlock x = 9 \<and> map_option ep_EndBlock (ep_nextEpoch x) = Some 19"
proof -
  obtain e' db' where r: "Epoch_Save demo_wire demo_pair Map.empty = (e', db')" by fastforce
  have "ep_nextEpoch demo_pair = None \<or> (\<exists>nx. ep_nextEpoch demo_pair = Some nx \<and> ep_Number nx = ep_Number demo_pair + 1)"
    by (simp add: demo_pair_def demo_fields0_def)
  from saved_epoch_restarts [OF demo_wire_laws r this, of 77 demo_genesis] show ?thesis
    using r by (auto simp: demo_pair_def demo_fields0_def stored_def)
qed

section \<open>Searching an epoch\<close>

lemma searchEpoch_returns:
  assumes "loadOneEpoch w db (- 1) = None"
  shows "\<exists>r. searchEpoch w db b number = Some r
    \<and> (case r of Some e \<Rightarrow> ep_StartBlock e \<le> b \<and> b \<le> ep_EndBlock e \<and> (\<exists>m\<le>number. loadOneEpoch w db m = Some e)
       | None \<Rightarrow> \<forall>m\<le>number. (\<forall>k. m \<le> k \<and> k \<le> number \<longrightarrow> loadOneEpoch w db k \<noteq> None)
           \<longrightarrow> (\<forall>e. loadOneEpoch w db m = Some e \<longrightarrow> \<not> (ep_StartBlock e \<le> b \<and> b \<le> ep_EndBlock e)))"
proof (induction "unat number" arbitrary: number rule: less_induct)
  case less
  show ?case
  proof (cases "loadOneEpoch w db number")
    case None
    then show ?thesis by (subst searchEpoch.simps) auto
  next
    case (Some ep)
    show ?thesis
    proof (cases "ep_StartBlock ep \<le> b \<and> b \<le> ep_EndBlock ep")
      case True
      then show ?thesis using Some by (subst searchEpoch.simps) auto
    next
      case False
      then have u: "searchEpoch w db b number = searchEpoch w db b (number - 1)"
        using Some by (subst searchEpoch.simps) auto
      show ?thesis
      proof (cases "number = 0")
        case True
        have "searchEpoch w db b (- 1) = Some None" using assms by (subst searchEpoch.simps) simp
        then show ?thesis using u True Some False by auto
      next
        case nz: False
        then have m1: "unat (number - 1) = unat number - 1" "0 < unat number"
          by (simp_all add: unat_minus_one unat_gt_0)
        then have le: "m \<le> number - 1 \<longleftrightarrow> m \<le> number \<and> m \<noteq> number" for m
          using nz by (auto simp: word_le_nat_alt word_unat_eq_iff)
        have lt: "unat (number - 1) < unat number" using m1 by simp
        obtain r where r: "searchEpoch w db b (number - 1) = Some r"
          "case r of Some e \<Rightarrow> ep_StartBlock e \<le> b \<and> b \<le> ep_EndBlock e
              \<and> (\<exists>m. (m \<le> number \<and> m \<noteq> number) \<and> loadOneEpoch w db m = Some e)
           | None \<Rightarrow> \<forall>m. m \<le> number \<and> m \<noteq> number \<longrightarrow> (\<forall>k. m \<le> k \<and> k \<le> number \<and> k \<noteq> number \<longrightarrow> loadOneEpoch w db k \<noteq> None)
               \<longrightarrow> (\<forall>e. loadOneEpoch w db m = Some e \<longrightarrow> \<not> (ep_StartBlock e \<le> b \<and> b \<le> ep_EndBlock e))"
          using less [OF lt] unfolding le by blast
        show ?thesis
        proof (cases r)
          case None
          then show ?thesis using r Some False unfolding u by (intro exI [of _ None]) (auto dest: spec)
        next
          case (Some e)
          then show ?thesis using r unfolding u by (intro exI [of _ "Some e"]) auto
        qed
      qed
    qed
  qed
qed

text \<open>
  C37: the search for the epoch of a block ends, although its counter is unsigned and the loop
  condition always holds, because no epoch is stored under the number below 0. What it returns
  contains the block, and it returns nothing only if no epoch below the current one, as far down as
  they are stored without a gap, contains the block.
\<close>

theorem GetEpochByBlockNumber_ends:
  assumes "loadOneEpoch w db (- 1) = None"
  shows "\<exists>r. GetEpochByBlockNumber w db b epoch = Some r
    \<and> (case r of
        Some e \<Rightarrow> ep_StartBlock e \<le> b \<and> b \<le> ep_EndBlock e
          \<and> (e = epoch \<or> (\<exists>m. loadOneEpoch w db m = Some e))
      | None \<Rightarrow> \<not> (ep_StartBlock epoch \<le> b \<and> b \<le> ep_EndBlock epoch)
          \<and> (\<forall>m e. m \<le> ep_Number epoch - 1 \<and> (\<forall>k. m \<le> k \<and> k \<le> ep_Number epoch - 1 \<longrightarrow> loadOneEpoch w db k \<noteq> None)
               \<and> loadOneEpoch w db m = Some e \<longrightarrow> \<not> (ep_StartBlock e \<le> b \<and> b \<le> ep_EndBlock e)))"
proof (cases "ep_StartBlock epoch \<le> b \<and> b \<le> ep_EndBlock epoch")
  case True
  then show ?thesis by (simp add: GetEpochByBlockNumber_def)
next
  case False
  obtain r where r: "searchEpoch w db b (ep_Number epoch - 1) = Some r"
    "case r of Some e \<Rightarrow> ep_StartBlock e \<le> b \<and> b \<le> ep_EndBlock e \<and> (\<exists>m\<le>ep_Number epoch - 1. loadOneEpoch w db m = Some e)
       | None \<Rightarrow> \<forall>m\<le>ep_Number epoch - 1. (\<forall>k. m \<le> k \<and> k \<le> ep_Number epoch - 1 \<longrightarrow> loadOneEpoch w db k \<noteq> None)
           \<longrightarrow> (\<forall>e. loadOneEpoch w db m = Some e \<longrightarrow> \<not> (ep_StartBlock e \<le> b \<and> b \<le> ep_EndBlock e))"
    using searchEpoch_returns [OF assms, of b "ep_Number epoch - 1"] by blast
  have "GetEpochByBlockNumber w db b epoch = Some r" using False r(1) by (auto simp: GetEpochByBlockNumber_def)
  then show ?thesis using r(2) False by (cases r) auto
qed

definition demo_edb :: "blob edb" where
  "demo_edb = [calcEpochKeyWithHeight 0 \<mapsto> EpochBlob (demo_fields0 0 0 9), calcEpochKeyWithHeight 1 \<mapsto> EpochBlob (demo_fields0 1 10 19)]"

theorem GetEpochByBlockNumber_ends_witness:
  "map_option (map_option ep_Number) (GetEpochByBlockNumber demo_wire demo_edb 4 (Epoch (demo_fields0 2 20 29) None None None None)) = Some (Some 0)
   \<and> (\<exists>r. GetEpochByBlockNumber demo_wire demo_edb 77 (Epoch (demo_fields0 2 20 29) None None None None) = Some r)"
proof -
  have "loadOneEpoch demo_wire demo_edb (- 1) = None"
    by (simp add: loadOneEpoch_def demo_edb_def FromBytes_def)
  from GetEpochByBlockNumber_ends [OF this] have "\<exists>r. GetEpochByBlockNumber demo_wire demo_edb 77
      (Epoch (demo_fields0 2 20 29) None None None None) = Some r" by blast
  moreover have "map_option (map_option ep_Number) (GetEpochByBlockNumber demo_wire demo_edb 4
      (Epoch (demo_fields0 2 20 29) None None None None)) = Some (Some 0)"
    by (simp add: GetEpochByBlockNumber_def demo_fields0_def searchEpoch.simps loadOneEpoch_def demo_edb_def FromBytes_def demo_wire_def)
  ultimately show ?thesis by blast
qed

section \<open>Proposing and validating\<close>

lemma returns_bindGo [simp]: "returns (bindGo m f) \<longleftrightarrow> (\<exists>x. m = Ret x \<and> returns (f x))"
  by (cases m) auto

lemma sint_zero [simp]: "sint (x :: u64) = 0 \<longleftrightarrow> x = 0"
  by (metis sint_0 signed_word_eqI)

lemma atLeastEmergency_bound: "EMERGENCY_BLOCKS_OF_NEXT_EPOCH \<le> atLeastEmergency blocks" "atLeastEmergency blocks \<noteq> 0"
  by (auto simp: atLeastEmergency_def EMERGENCY_BLOCKS_OF_NEXT_EPOCH_def not_less)

lemma div_returns:
  "(\<exists>x. div64 a b = Ret x \<and> P x) \<longleftrightarrow> b \<noteq> 0 \<and> P (signed_take_bit 63 (a sdiv b))"
  "(\<exists>x. divU u v = Ret x \<and> Q x) \<longleftrightarrow> v \<noteq> 0 \<and> Q (u div v)"
  "(\<exists>x. bigDiv a b = Ret x) \<longleftrightarrow> b \<noteq> 0"
  by (auto simp: div64_def divU_def bigDiv_def)

lemma timePerBlock_returns:
  "(\<exists>x. timePerBlock epoch h t = Ret x \<and> P x) \<Longrightarrow>
    (case ep_previousEpoch epoch of Some prev \<Rightarrow> ep_EndBlock prev \<noteq> ep_StartBlock prev | None \<Rightarrow> h \<noteq> ep_StartBlock epoch)"
  "(case ep_previousEpoch epoch of Some prev \<Rightarrow> ep_EndBlock prev \<noteq> ep_StartBlock prev | None \<Rightarrow> h \<noteq> ep_StartBlock epoch)
    \<Longrightarrow> \<exists>x. timePerBlock epoch h t = Ret x \<and> x \<noteq> 0"
proof -
  show "(\<exists>x. timePerBlock epoch h t = Ret x \<and> P x) \<Longrightarrow>
    (case ep_previousEpoch epoch of Some prev \<Rightarrow> ep_EndBlock prev \<noteq> ep_StartBlock prev | None \<Rightarrow> h \<noteq> ep_StartBlock epoch)"
    by (auto simp: timePerBlock_def div64_def bindGo_Ret_iff split: option.splits if_splits)
  show "(case ep_previousEpoch epoch of Some prev \<Rightarrow> ep_EndBlock prev \<noteq> ep_StartBlock prev | None \<Rightarrow> h \<noteq> ep_StartBlock epoch)
    \<Longrightarrow> \<exists>x. timePerBlock epoch h t = Ret x \<and> x \<noteq> 0"
    by (cases "ep_previousEpoch epoch") (simp_all add: timePerBlock_def div64_def)
qed

lemma Propose_estimate: "returns (ProposeNextEpoch w zone db epoch h t) \<longleftrightarrow> returns (estimateForNextEpoch w zone db epoch h t)"
  by (cases "estimateForNextEpoch w zone db epoch h t") (simp_all add: ProposeNextEpoch_def split_beta)

lemma reward_returns: "n \<noteq> 0 \<Longrightarrow> blocks \<noteq> 0 \<Longrightarrow>
    \<exists>x. calculateRewardPerEpochByYear r y ty n = Ret x \<and> (\<exists>z. bigDiv x blocks = Ret z)"
  by (simp add: calculateRewardPerEpochByYear_def bigDiv_def)

text \<open>
  Proposing the next epoch panics exactly without a reward scheme, without a stored epoch 0,
  with a scheme of no epochs per year, or when the blocks over which the time per block is taken are
  none: the previous epoch, or the current epoch up to the last block, starts and ends at the same
  height.
\<close>

theorem ProposeNextEpoch_returns:
  "returns (ProposeNextEpoch w zone db epoch lastBlockHeight lastBlockTime) \<longleftrightarrow>
    (\<exists>rs zeroEpoch. ep_rs epoch = Some rs \<and> loadOneEpoch w db 0 = Some zeroEpoch \<and> rs_EpochNumberPerYear rs \<noteq> 0)
    \<and> (case ep_previousEpoch epoch of
         Some prev \<Rightarrow> ep_EndBlock prev \<noteq> ep_StartBlock prev
       | None \<Rightarrow> lastBlockHeight \<noteq> ep_StartBlock epoch)"
proof (cases "\<exists>rs zeroEpoch. ep_rs epoch = Some rs \<and> loadOneEpoch w db 0 = Some zeroEpoch \<and> rs_EpochNumberPerYear rs \<noteq> 0")
  case False
  then have "\<not> returns (estimateForNextEpoch w zone db epoch lastBlockHeight lastBlockTime)"
    by (auto simp: estimateForNextEpoch_def divU_def Let_def split: option.splits)
  then show ?thesis using False by (simp add: Propose_estimate)
next
  case True
  then obtain rs z where r: "ep_rs epoch = Some rs" "loadOneEpoch w db 0 = Some z" "rs_EpochNumberPerYear rs \<noteq> 0" by blast
  let ?e = "estimateForNextEpoch w zone db epoch lastBlockHeight lastBlockTime"
  have "returns ?e" if "timePerBlock epoch lastBlockHeight lastBlockTime = Ret x" "x \<noteq> 0" for x
    using that r atLeastEmergency_bound(2)
    by (auto simp: estimateForNextEpoch_def Let_def div64_def divU_def bigDiv_def calculateRewardPerEpochByYear_def
        bindGo_Ret_iff)
  moreover have "\<exists>x. timePerBlock epoch lastBlockHeight lastBlockTime = Ret x \<and> True" if "returns ?e"
    using that r by (auto simp: estimateForNextEpoch_def Let_def divU_def)
  ultimately show ?thesis
    using True timePerBlock_returns(1) [where epoch = epoch and h = lastBlockHeight and t = lastBlockTime and P = "\<lambda>_. True"]
      timePerBlock_returns(2) [where epoch = epoch and h = lastBlockHeight and t = lastBlockTime] by (auto simp: Propose_estimate)
qed

lemma ValidatorSet_Equals_refl:
  assumes "distinct (map val_Address (vs_Validators vs))" "vs_Validators other = vs_Validators vs"
  shows "ValidatorSet_Equals vs other"
proof -
  have "snd (ValidatorSet_GetByAddress vs (val_Address v)) = Some v" if "v \<in> set (vs_Validators vs)" for v
  proof -
    obtain i where "i < length (vs_Validators vs)" "vs_Validators vs ! i = v" using \<open>v \<in> _\<close> by (auto simp: in_set_conv_nth)
    then show ?thesis using find_index_distinct [OF assms(1)]
      by (auto simp: ValidatorSet_GetByAddress_def ValidatorSet_index_def)
  qed
  then show ?thesis using assms(2) by (simp add: ValidatorSet_Equals_def Validator_Equals_def)
qed

lemma estimate_blocks:
  assumes "estimateForNextEpoch w zone db epoch h t = Ret (reward, blocks)"
  shows "\<exists>b. blocks = atLeastEmergency b"
  using assms
  by (auto simp: estimateForNextEpoch_def Let_def bindGo_Ret_iff split: option.splits if_splits)

text \<open>
  C34: the next epoch a node proposes is accepted by \<open>ValidateNextEpoch\<close> on a node with the same
  epoch and store, also after it travelled in a block as bytes. It follows the current epoch without
  a gap and is at least \<open>EMERGENCY_BLOCKS_OF_NEXT_EPOCH\<close> blocks long.
\<close>

theorem proposed_epoch_validates:
  assumes "wire_laws w" "distinct (map val_Address (vs_Validators (ep_Validators epoch)))"
    and p: "ProposeNextEpoch w zone db epoch lastHeight lastTime = Ret next"
  shows "ValidateNextEpoch w zone db epoch (Some next) lastHeight lastTime = Ret None
    \<and> ValidateNextEpoch w zone db epoch (FromBytes w (Some (EpochBytes w (ep_fields next)))) lastHeight lastTime = Ret None
    \<and> ep_Number next = ep_Number epoch + 1 \<and> ep_StartBlock next = ep_EndBlock epoch + 1
    \<and> 21614 \<le> ep_EndBlock next - ep_EndBlock epoch"
proof -
  obtain reward blocks where e: "estimateForNextEpoch w zone db epoch lastHeight lastTime = Ret (reward, blocks)"
    and n: "next = Epoch \<lparr>ef_Number = ep_Number epoch + 1, ef_RewardPerBlock = reward,
        ef_StartBlock = ep_EndBlock epoch + 1, ef_EndBlock = ep_EndBlock epoch + blocks,
        ef_StartTime = zeroTime, ef_EndTime = zeroTime, ef_BlockGenerated = 0,
        ef_Status = EPOCH_PROPOSED_NOT_VOTED, ef_Validators = ep_Validators epoch\<rparr> None None None None"
    using p by (auto simp: ProposeNextEpoch_def bindGo_Ret_iff)
  have "21614 \<le> blocks" using estimate_blocks [OF e] atLeastEmergency_bound(1)
    by (auto simp: EMERGENCY_BLOCKS_OF_NEXT_EPOCH_def)
  moreover have "Epoch_Equals (Some next) (Some x) False"
    if "ep_fields x = ep_fields next \<or> ep_fields x = stored w (ep_fields next)" for x
    using that n ValidatorSet_Equals_refl [OF assms(2)] by (auto simp: Epoch_Equals_def equalEpochs_def stored_def)
  ultimately show ?thesis
    using n p FromBytes_Some [OF assms(1), of "ep_fields next"] by (simp add: ValidateNextEpoch_def)
qed

definition demo_edb0 :: "blob edb" where
  "demo_edb0 = [calcEpochKeyWithHeight 0 \<mapsto> EpochBlob (demo_fields0 0 0 9)]"

theorem proposed_epoch_validates_witness:
  "\<exists>next. ProposeNextEpoch demo_wire 0 demo_edb0 demo_pair 9 900000000000 = Ret next
    \<and> ValidateNextEpoch demo_wire 0 demo_edb0 demo_pair (Some next) 9 900000000000 = Ret None"
proof -
  have "loadOneEpoch demo_wire demo_edb0 0 = Some (Epoch (demo_fields0 0 0 9) None None None None)"
    by (simp add: loadOneEpoch_def FromBytes_def demo_edb0_def demo_wire_def)
  then have "returns (ProposeNextEpoch demo_wire 0 demo_edb0 demo_pair 9 900000000000)"
    unfolding Propose_estimate
    by (simp add: estimateForNextEpoch_def demo_pair_def demo_fields0_def timePerBlock_def Let_def div64_def divU_def
        bigDiv_def calculateRewardPerEpochByYear_def atLeastEmergency_bound(2))
  then obtain nx where p: "ProposeNextEpoch demo_wire 0 demo_edb0 demo_pair 9 900000000000 = Ret nx"
    by (auto simp: returns_iff)
  have "distinct (map val_Address (vs_Validators (ep_Validators demo_pair)))"
    by (simp add: demo_pair_def demo_fields0_def)
  from proposed_epoch_validates [OF demo_wire_laws this p] p show ?thesis by blast
qed

end
