(* ===== verification/Blocks.thy ===== *)
theory Blocks
  imports Part_Set Commits Epochs
begin

text \<open>
  The blocks that the consensus decides on: headers, transactions and blocks of
  \<open>chain/core/types/block.go\<close>, the extra data of \<open>types/tendermint.go\<close>, and the \<open>NCBlock\<close>, \<open>Proposal\<close> and
  \<open>PrivValidator\<close> of \<open>types/block.go\<close>, \<open>proposal.go\<close> and \<open>priv_validator.go\<close>. Serialisation and hashing
  (wire, rlp, merkle, keccak) are the record \<open>codec\<close>, an argument of what calls them; a value of type
  \<open>'v\<close> is a byte string they produce. \<open>NCBlock.Hash\<close> also fills the hash of the seen commit in; nothing
  reads it before \<open>finalizeCommit\<close> overwrites it, so that this cache is left out.
\<close>

section \<open>Headers, transactions and blocks\<close>

record 'v header =
  hd_ParentHash :: hash
  hd_UncleHash :: hash
  hd_Coinbase :: address
  hd_Root :: hash
  hd_TxHash :: hash
  hd_ReceiptHash :: hash
  hd_Bloom :: bytes
  hd_Difficulty :: "int option"
  hd_Number :: "int option"
  hd_GasLimit :: u64
  hd_GasUsed :: u64
  hd_Time :: int
  hd_Extra :: 'v
  hd_MixDigest :: hash
  hd_Nonce :: bytes
  hd_MainChainNumber :: "int option"

record transaction =
  tx_AccountNonce :: u64
  tx_Price :: int
  tx_GasLimit :: u64
  tx_Recipient :: "address option"
  tx_Amount :: int
  tx_Payload :: bytes
  tx_V :: int
  tx_R :: int
  tx_S :: int

record 'v ligoBlock =
  lb_header :: "'v header"
  lb_uncles :: "'v header list"
  lb_transactions :: "transaction list"

text \<open>
  A block has a number: \<open>CopyHeader\<close>, which every constructor calls, and the decoder set it. The
  number is read as \<open>uint64\<close>.
\<close>

definition Block_NumberU64 :: "'v ligoBlock \<Rightarrow> u64" where
  "Block_NumberU64 b = of_int (case hd_Number (lb_header b) of Some n \<Rightarrow> n | None \<Rightarrow> 0)"

definition Block_Time :: "'v ligoBlock \<Rightarrow> u64" where
  "Block_Time b = of_int (hd_Time (lb_header b))"

definition CopyHeader :: "'v header \<Rightarrow> 'v header" where
  "CopyHeader h = h\<lparr>hd_Difficulty := Some (case hd_Difficulty h of Some d \<Rightarrow> d | None \<Rightarrow> 0),
     hd_Number := Some (case hd_Number h of Some n \<Rightarrow> n | None \<Rightarrow> 0)\<rparr>"

definition Block_WithSeal :: "'v header \<Rightarrow> 'v ligoBlock \<Rightarrow> 'v ligoBlock" where
  "Block_WithSeal header b =
     \<lparr>lb_header = header, lb_uncles = lb_uncles b, lb_transactions = lb_transactions b\<rparr>"

definition TendermintDigest :: hash where
  "TendermintDigest = [0x63, 0x74, 0x69, 0x63, 0x61, 0x6c, 0x20, 0x62, 0x79, 0x7a, 0x61, 0x6e, 0x74, 0x69,
     0x6e, 0x65, 0x20, 0x66, 0x61, 0x75, 0x6c, 0x74, 0x20, 0x74, 0x6f, 0x6c, 0x65, 0x72, 0x61, 0x6e,
     0x63, 0x65]"

definition TendermintDefaultDifficulty :: int where "TendermintDefaultDifficulty = 1"

definition TendermintEmptyNonce :: bytes where "TendermintEmptyNonce = replicate 8 0"

definition TendermintNonce :: bytes where
  "TendermintNonce = [0x88, 0xff, 0x88, 0xff, 0x88, 0xff, 0x88, 0xff]"

section \<open>Extra data and proofs\<close>

record ('b, 'v) tendermintExtra =
  te_ChainID :: string
  te_Height :: u64
  te_Time :: int
  te_NeedToSave :: bool
  te_NeedToBroadcast :: bool
  te_EpochNumber :: u64
  te_SeenCommitHash :: bytes
  te_ValidatorsHash :: bytes
  te_SeenCommit :: "'b commit option"
  te_EpochBytes :: "'v option"

text \<open>The fields that the hash of the extra data covers.\<close>

record 'v hashedExtra =
  he_ChainID :: string
  he_Height :: u64
  he_Time :: int
  he_NeedToSave :: bool
  he_NeedToBroadcast :: bool
  he_EpochNumber :: u64
  he_Validators :: bytes
  he_EpochBytes :: "'v option"

record 'v tx3ProofData =
  tpd_Header :: "'v header"
  tpd_TxIndexs :: "nat list"
  tpd_TxProofs :: "'v list"

record ('b, 'v) codec =
  rlpHash :: "'v header \<Rightarrow> hash"
  nilUncleHash :: hash
  MagicExtra :: 'v
  ExtraBytes :: "('b, 'v) tendermintExtra \<Rightarrow> 'v"
  ReadExtra :: "'v \<Rightarrow> ('b, 'v) tendermintExtra option"
  SimpleHashFromMap :: "'v hashedExtra \<Rightarrow> bytes"
  SimpleHashFromBinary :: "'b commit \<Rightarrow> bytes"
  SimpleHashFromHashables :: "validator list \<Rightarrow> bytes"
  EncodeBlock :: "'v ligoBlock \<Rightarrow> bytes"
  DecodeBlock :: "bytes \<Rightarrow> 'v ligoBlock option"
  TmpBlockBytes :: "bytes \<times> ('b, 'v) tendermintExtra option \<times> 'v tx3ProofData list \<Rightarrow> bytes"
  ReadTmpBlock :: "int \<Rightarrow> bytes \<Rightarrow> (bytes \<times> ('b, 'v) tendermintExtra option \<times> 'v tx3ProofData list) option"

definition TendermintFilteredHeader :: "('b, 'v) codec \<Rightarrow> 'v header \<Rightarrow> 'v header" where
  "TendermintFilteredHeader c h = (CopyHeader h)\<lparr>hd_Extra := MagicExtra c\<rparr>"

definition Header_Hash :: "('b, 'v) codec \<Rightarrow> 'v header \<Rightarrow> hash" where
  "Header_Hash c h = (if hd_MixDigest h = TendermintDigest
     then rlpHash c (TendermintFilteredHeader c h) else rlpHash c h)"

definition Block_Hash :: "('b, 'v) codec \<Rightarrow> 'v ligoBlock \<Rightarrow> hash" where
  "Block_Hash c b = Header_Hash c (lb_header b)"

definition ValidatorSet_Hash :: "('b, 'v) codec \<Rightarrow> validatorSet \<Rightarrow> bytes" where
  "ValidatorSet_Hash c valSet =
     (if vs_Validators valSet = [] then [] else SimpleHashFromHashables c (vs_Validators valSet))"

definition TendermintExtra_Hash :: "('b, 'v) codec \<Rightarrow> ('b, 'v) tendermintExtra \<Rightarrow> bytes" where
  "TendermintExtra_Hash c te =
     (if te_ValidatorsHash te = [] then []
      else SimpleHashFromMap c \<lparr>he_ChainID = te_ChainID te, he_Height = te_Height te, he_Time = te_Time te,
        he_NeedToSave = te_NeedToSave te, he_NeedToBroadcast = te_NeedToBroadcast te,
        he_EpochNumber = te_EpochNumber te, he_Validators = te_ValidatorsHash te,
        he_EpochBytes = te_EpochBytes te\<rparr>)"

definition zeroExtra :: "('b, 'v) tendermintExtra" where
  "zeroExtra = \<lparr>te_ChainID = [], te_Height = 0, te_Time = zeroTime, te_NeedToSave = False,
     te_NeedToBroadcast = False, te_EpochNumber = 0, te_SeenCommitHash = [], te_ValidatorsHash = [],
     te_SeenCommit = None, te_EpochBytes = None\<rparr>"

text \<open>\<open>None\<close> is the error of the decoder; no extra bytes are the zero value.\<close>

definition ExtractTendermintExtra ::
    "'v wire \<Rightarrow> ('b, 'v) codec \<Rightarrow> 'v header \<Rightarrow> ('b, 'v) tendermintExtra option" where
  "ExtractTendermintExtra w c h =
     (if isEmptyBytes w (hd_Extra h) then Some zeroExtra else ReadExtra c (hd_Extra h))"

section \<open>Blocks of the consensus\<close>

record ('b, 'v) ncBlock =
  nb_Block :: "'v ligoBlock"
  nb_NTCExtra :: "('b, 'v) tendermintExtra option"
  nb_TX3ProofData :: "'v tx3ProofData list"
  nb_IntermediateResult :: bool

definition MaxBlockSize :: int where "MaxBlockSize = 22020096"

datatype blockErr = WrongChainID | WrongHeight

text \<open>Reading through a nil \<open>NTCExtra\<close>, which a decoded block can have, panics.\<close>

definition NCBlock_ValidateBasic ::
    "('b, 'v) ncBlock \<Rightarrow> ('b, 'v) tendermintExtra \<Rightarrow> blockErr option go" where
  "NCBlock_ValidateBasic b ncExtra =
     (case nb_NTCExtra b of
        None \<Rightarrow> Panic ''nil pointer dereference''
      | Some te \<Rightarrow> Ret (if te_ChainID te \<noteq> te_ChainID ncExtra then Some WrongChainID
          else if te_Height te \<noteq> te_Height ncExtra + 1 then Some WrongHeight else None))"

text \<open>A nil block and a nil hash are \<open>None\<close> and the empty byte string.\<close>

definition NCBlock_Hash :: "('b, 'v) codec \<Rightarrow> ('b, 'v) ncBlock option \<Rightarrow> bytes go" where
  "NCBlock_Hash c b =
     (case b of None \<Rightarrow> Ret []
      | Some b \<Rightarrow> (case nb_NTCExtra b of
          None \<Rightarrow> Panic ''nil pointer dereference''
        | Some te \<Rightarrow> Ret (if Option.is_none (te_SeenCommit te) then [] else TendermintExtra_Hash c te)))"

definition NCBlock_HashesTo :: "('b, 'v) codec \<Rightarrow> ('b, 'v) ncBlock option \<Rightarrow> bytes \<Rightarrow> bool go" where
  "NCBlock_HashesTo c b hash =
     (if hash = [] then Ret False
      else case b of None \<Rightarrow> Ret False
      | Some _ \<Rightarrow> bindGo (NCBlock_Hash c b) (\<lambda>h. Ret (h = hash)))"

definition NCBlock_ToBytes :: "('b, 'v) codec \<Rightarrow> ('b, 'v) ncBlock \<Rightarrow> bytes" where
  "NCBlock_ToBytes c b =
     TmpBlockBytes c (EncodeBlock c (nb_Block b), nb_NTCExtra b, nb_TX3ProofData b)"

definition NCBlock_MakePartSet ::
    "('b, 'z) ext_scheme \<Rightarrow> ('b, 'v) codec \<Rightarrow> nat \<Rightarrow> ('b, 'v) ncBlock \<Rightarrow> 'b partSet go" where
  "NCBlock_MakePartSet ext c partSize b = NewPartSetFromData ext (NCBlock_ToBytes c b) partSize"

text \<open>What a reader still delivers: the rest of the current part and the following parts.\<close>

definition unread :: "partSetReader \<Rightarrow> bytes" where
  "unread psr = psr_rest psr @ concat (map (\<lambda>p. case p of Some p \<Rightarrow> part_Bytes p | None \<Rightarrow> [])
     (drop (psr_i psr + 1) (psr_parts psr)))"

definition NCBlock_FromBytes :: "('b, 'v) codec \<Rightarrow> partSetReader \<Rightarrow> ('b, 'v) ncBlock option" where
  "NCBlock_FromBytes c reader =
     (case ReadTmpBlock c MaxBlockSize (unread reader) of
        None \<Rightarrow> None
      | Some (blockData, ntcExtra, tx3ProofData) \<Rightarrow>
          (case DecodeBlock c blockData of
             None \<Rightarrow> None
           | Some block \<Rightarrow> Some \<lparr>nb_Block = block, nb_NTCExtra = ntcExtra,
               nb_TX3ProofData = tx3ProofData, nb_IntermediateResult = False\<rparr>))"

definition MakeBlock :: "('b, 'z) ext_scheme \<Rightarrow> ('b, 'v) codec \<Rightarrow> int \<Rightarrow> u64 \<Rightarrow> string \<Rightarrow> 'b commit
    \<Rightarrow> 'v ligoBlock \<Rightarrow> bytes \<Rightarrow> u64 \<Rightarrow> 'v option \<Rightarrow> 'v tx3ProofData list \<Rightarrow> nat
    \<Rightarrow> (('b, 'v) ncBlock \<times> 'b partSet) go" where
  "MakeBlock ext c now height chainID commit block valHash epochNumber epochBytes tx3ProofData partSize =
     (let ncBlock = \<lparr>nb_Block = block,
            nb_NTCExtra = Some \<lparr>te_ChainID = chainID, te_Height = height, te_Time = now,
              te_NeedToSave = False, te_NeedToBroadcast = False, te_EpochNumber = epochNumber,
              te_SeenCommitHash = [], te_ValidatorsHash = valHash, te_SeenCommit = Some commit,
              te_EpochBytes = epochBytes\<rparr>,
            nb_TX3ProofData = tx3ProofData, nb_IntermediateResult = False\<rparr>
      in bindGo (NCBlock_MakePartSet ext c partSize ncBlock) (\<lambda>parts. Ret (ncBlock, parts)))"

section \<open>Proposals and the private validator\<close>

text \<open>The fields \<open>NodeID\<close> and \<open>ProposerNetAddr\<close> of a proposal are never set.\<close>

record proposal =
  pr_Height :: u64
  pr_Round :: int
  pr_Hash :: bytes
  pr_BlockPartsHeader :: partSetHeader
  pr_POLRound :: int
  pr_POLBlockID :: blockID
  pr_ProposerPeerKey :: string
  pr_Signature :: bytes

definition NewProposal ::
    "u64 \<Rightarrow> int \<Rightarrow> bytes \<Rightarrow> partSetHeader \<Rightarrow> int \<Rightarrow> blockID \<Rightarrow> string \<Rightarrow> proposal" where
  "NewProposal height round hash blockPartsHeader polRound polBlockID peerKey =
     \<lparr>pr_Height = height, pr_Round = round, pr_Hash = hash, pr_BlockPartsHeader = blockPartsHeader,
      pr_POLRound = polRound, pr_POLBlockID = polBlockID, pr_ProposerPeerKey = peerKey, pr_Signature = []\<rparr>"

text \<open>The hash of the block is not part of what a proposer signs.\<close>

definition CanonicalProposal :: "proposal \<Rightarrow> canonicalProposal" where
  "CanonicalProposal p =
     \<lparr>cp_BlockPartsHeader = CanonicalPartSetHeader (pr_BlockPartsHeader p), cp_Height = pr_Height p,
      cp_POLBlockID = CanonicalBlockID (pr_POLBlockID p), cp_POLRound = pr_POLRound p,
      cp_Round = pr_Round p, cp_Hash = []\<rparr>"

definition Proposal_SignBytes :: "('b, 'z) ext_scheme \<Rightarrow> string \<Rightarrow> proposal \<Rightarrow> bytes" where
  "Proposal_SignBytes ext chainID p = wire_JSON_proposal ext chainID (CanonicalProposal p)"

text \<open>The signer of a private validator is the function of its key.\<close>

record privValidator =
  pv_Address :: address
  pv_Sign :: "bytes \<Rightarrow> bytes"

definition PrivValidator_SignVote ::
    "('b, 'z) ext_scheme \<Rightarrow> privValidator \<Rightarrow> string \<Rightarrow> vote \<Rightarrow> vote" where
  "PrivValidator_SignVote ext pv chainID vote =
     vote\<lparr>vote_Signature := pv_Sign pv (Vote_SignBytes ext chainID vote)\<rparr>"

definition PrivValidator_SignProposal ::
    "('b, 'z) ext_scheme \<Rightarrow> privValidator \<Rightarrow> string \<Rightarrow> proposal \<Rightarrow> proposal" where
  "PrivValidator_SignProposal ext pv chainID proposal =
     proposal\<lparr>pr_Signature := pv_Sign pv (Proposal_SignBytes ext chainID proposal)\<rparr>"

end
