(* ===== verification/Go_Float.thy ===== *)
theory Go_Float
  imports Go_Prelude
begin

text \<open>
  The floating point arithmetic that the sources use: \<open>math.Pow\<close> on \<open>float64\<close> for the timeouts and
  \<open>big.Float\<close> for the division of rewards. A finite value is a mantissa and a binary exponent; an
  operation rounds its exact result to the precision, to nearest with ties to even.
\<close>

type_synonym float = "int \<times> int"

function bitLen :: "int \<Rightarrow> nat" where
  "bitLen n = (if n \<le> 0 then 0 else Suc (bitLen (n div 2)))"
  by pat_completeness auto
termination by (relation "measure nat") auto

declare bitLen.simps [simp del]

definition shiftLeft :: "int \<Rightarrow> int \<Rightarrow> int" where
  "shiftLeft n s = (if 0 \<le> s then n * 2 ^ nat s else n div 2 ^ nat (- s))"

text \<open>The nearest integer to \<open>num / den\<close>, the even one of two.\<close>

definition nearestEven :: "int \<Rightarrow> int \<Rightarrow> int" where
  "nearestEven num den =
     (let q = num div den; r = num mod den
      in if 2 * r < den then q else if den < 2 * r then q + 1 else if even q then q else q + 1)"

text \<open>
  The quotient of two positive numbers with a mantissa of \<open>prec\<close> bits: the numbers are scaled such
  that the integral part of their quotient has \<open>prec\<close> bits, and the quotient is rounded.
\<close>

definition roundQuotient :: "nat \<Rightarrow> int \<Rightarrow> int \<Rightarrow> float" where
  "roundQuotient prec num den =
     (if num = 0 then (0, 0)
      else
        (let s = int prec + int (bitLen den) - int (bitLen num);
             s = (if shiftLeft den (- s) * 2 ^ prec \<le> num \<and> s < 0 \<or>
                     den * 2 ^ prec \<le> shiftLeft num s \<and> 0 \<le> s then s - 1 else s)
         in (if 0 \<le> s then nearestEven (shiftLeft num s) den
             else nearestEven num (shiftLeft den (- s)), - s)))"

definition withSign :: "int \<Rightarrow> float \<Rightarrow> float" where
  "withSign s f = (if s < 0 then (- fst f, snd f) else f)"

definition Float_Mul :: "nat \<Rightarrow> float \<Rightarrow> float \<Rightarrow> float" where
  "Float_Mul prec x y =
     (let m = fst x * fst y; f = roundQuotient prec \<bar>m\<bar> 1
      in withSign m (fst f, snd f + snd x + snd y))"

text \<open>A quotient with a divisor other than 0.\<close>

definition Float_Quo :: "nat \<Rightarrow> float \<Rightarrow> float \<Rightarrow> float" where
  "Float_Quo prec x y =
     (let f = roundQuotient prec \<bar>fst x\<bar> \<bar>fst y\<bar>
      in withSign (fst x * fst y) (fst f, snd f + snd x - snd y))"

text \<open>Conversion to an integer truncates towards 0.\<close>

definition Float_Int :: "float \<Rightarrow> int" where
  "Float_Int x = (if fst x < 0 then - shiftLeft (- fst x) (snd x) else shiftLeft (fst x) (snd x))"

section \<open>Powers\<close>

text \<open>
  \<open>math.Pow\<close> with an integral exponent multiplies by repeated squaring on \<open>float64\<close> values, which
  have 53 bits. The conversion to \<open>int\<close> of a value out of range gives the least \<open>int\<close> on amd64.
\<close>

fun powLoop :: "nat \<Rightarrow> float \<Rightarrow> float \<Rightarrow> float" where
  "powLoop i x1 a1 =
     (if i = 0 then a1
      else powLoop (i div 2) (Float_Mul 53 x1 x1) (if odd i then Float_Mul 53 a1 x1 else a1))"

declare powLoop.simps [simp del]

definition float64ToInt :: "float \<Rightarrow> int" where
  "float64ToInt x = (let n = Float_Int x in if n < 2 ^ 63 \<and> - (2 ^ 63) \<le> n then n else - (2 ^ 63))"

definition pow15 :: "nat \<Rightarrow> int" where
  "pow15 n = float64ToInt (powLoop n (3, - 1) (1, 0))"

end
