(* ===== verification/Consensus_State.thy ===== *)
theory Consensus_State
  imports Blocks Height_Votes Go_Float "HOL-Library.AList"
begin

text \<open>
  The state of \<open>chain/consensus/tendermint/consensus/state.go\<close>: steps, timeouts, messages, the record
  \<open>ConsensusState\<close> with its embedded \<open>RoundState\<close>, and the choice of the proposer. Handlers hold the
  mutex for their whole body and are functions on the record; \<open>Panic\<close> ends the process. Blocks and
  part sets are shared by pointers (\<open>LockedBlock\<close> is a former \<open>ProposalBlock\<close>), so they are kept in a list
  and a pointer is a position. \<open>cs.Epoch\<close> and \<open>cs.state.Epoch\<close> are the same epoch, and \<open>cs_state\<close> is
  \<open>cs.state.NTCExtra\<close>. What a handler sends out is appended to \<open>cs_out\<close>. Fields that are nil only before
  the first \<open>StartNewHeight\<close> have no nil value. \<open>time.Now()\<close> has one value in a handler.
\<close>

section \<open>Steps, timeouts and messages\<close>

definition ROUND_NOT_PROPOSED :: int where "ROUND_NOT_PROPOSED = 0"
definition ROUND_PROPOSED :: int where "ROUND_PROPOSED = 1"

definition RoundStepNewHeight :: u8 where "RoundStepNewHeight = 0x01"
definition RoundStepNewRound :: u8 where "RoundStepNewRound = 0x02"
definition RoundStepWaitForMinerBlock :: u8 where "RoundStepWaitForMinerBlock = 0x03"
definition RoundStepPropose :: u8 where "RoundStepPropose = 0x04"
definition RoundStepPrevote :: u8 where "RoundStepPrevote = 0x05"
definition RoundStepPrevoteWait :: u8 where "RoundStepPrevoteWait = 0x06"
definition RoundStepPrecommit :: u8 where "RoundStepPrecommit = 0x07"
definition RoundStepPrecommitWait :: u8 where "RoundStepPrecommitWait = 0x08"
definition RoundStepCommit :: u8 where "RoundStepCommit = 0x09"

lemmas roundSteps = RoundStepNewHeight_def RoundStepNewRound_def RoundStepWaitForMinerBlock_def
  RoundStepPropose_def RoundStepPrevote_def RoundStepPrevoteWait_def RoundStepPrecommit_def
  RoundStepPrecommitWait_def RoundStepCommit_def

record timeoutParams =
  tp_WaitForMinerBlock0 :: int
  tp_Propose0 :: int
  tp_ProposeDelta :: int
  tp_Prevote0 :: int
  tp_PrevoteDelta :: int
  tp_Precommit0 :: int
  tp_PrecommitDelta :: int
  tp_Commit0 :: int

text \<open>\<open>time.Duration(n) * time.Millisecond\<close> in nanoseconds; the arithmetic of \<open>int64\<close> wraps.\<close>

definition millis :: "int \<Rightarrow> int" where
  "millis n = sint (word_of_int (n * 1000000) :: u64)"

definition TimeoutParams_WaitForMinerBlock :: "timeoutParams \<Rightarrow> int" where
  "TimeoutParams_WaitForMinerBlock tp = millis (tp_WaitForMinerBlock0 tp)"

definition TimeoutParams_Propose :: "timeoutParams \<Rightarrow> int \<Rightarrow> int" where
  "TimeoutParams_Propose tp round =
     millis (tp_Propose0 tp + tp_ProposeDelta tp * (if 5 \<le> round then 4 else round))"

definition TimeoutParams_Prevote :: "timeoutParams \<Rightarrow> int \<Rightarrow> int" where
  "TimeoutParams_Prevote tp round =
     (if round < 5 then millis (tp_Prevote0 tp + tp_PrevoteDelta tp * round)
      else millis (tp_Prevote0 tp + tp_PrevoteDelta tp * pow15 (nat (round - 1))))"

definition TimeoutParams_Precommit :: "timeoutParams \<Rightarrow> int \<Rightarrow> int" where
  "TimeoutParams_Precommit tp round =
     (if round < 5 then millis (tp_Precommit0 tp + tp_PrecommitDelta tp * round)
      else millis (tp_Precommit0 tp + tp_PrecommitDelta tp * pow15 (nat (round - 1))))"

definition TimeoutParams_Commit :: "timeoutParams \<Rightarrow> int \<Rightarrow> int" where
  "TimeoutParams_Commit tp t = t + millis (tp_Commit0 tp)"

record timeoutInfo =
  ti_Duration :: int
  ti_Height :: u64
  ti_Round :: int
  ti_Step :: u8

text \<open>The messages that the routine handles; pointers in a message can be nil.\<close>

datatype 'b consensusMessage =
    ProposalMessage "proposal option"
  | BlockPartMessage u64 int "part option"
  | Maj23SignAggrMessage "'b signAggr option"
  | VoteMessage "vote option"
  | OtherMessage

record 'b msgInfo =
  mi_Msg :: "'b consensusMessage"
  mi_PeerKey :: string

datatype roundEvent = NewRound | NewRoundStep | TimeoutPropose | TimeoutWait | Polka | Lock | Relock
  | Unlock | NewBlock | NewBlockHeader u64

text \<open>What a handler sends to other parts: timers, its own queue, events, the engine, the main chain.\<close>

datatype ('b, 'v) effect =
    ScheduleTimeout timeoutInfo
  | SendInternal "'b msgInfo"
  | FireEvent roundEvent
  | FireVote2Proposer vote string
  | FireSignAggr "'b signAggr"
  | CommitBlock "('b, 'v) ncBlock" bool
  | SaveBlockToMainChain "'v ligoBlock option"
  | BroadcastTX3ProofData "'v ligoBlock option"
  | TryFixBadPreimages

section \<open>The state\<close>

record vrfProposer =
  vp_Height :: u64
  vp_Round :: int
  vp_valIndex :: int
  vp_Proposer :: validator

definition VRFProposer_Validate :: "vrfProposer \<Rightarrow> u64 \<Rightarrow> int \<Rightarrow> bool" where
  "VRFProposer_Validate p height round \<longleftrightarrow> vp_Height p = height \<and> vp_Round p = round"

record ('b, 'v) consensusState =
  cs_Height :: u64
  cs_Round :: int
  cs_Step :: u8
  cs_StartTime :: int
  cs_CommitTime :: int
  cs_Validators :: validatorSet
  cs_Proposal :: "proposal option"
  cs_ProposalBlock :: "nat option"
  cs_ProposalBlockParts :: "nat option"
  cs_ProposerPeerKey :: string
  cs_LockedRound :: int
  cs_LockedBlock :: "nat option"
  cs_LockedBlockParts :: "nat option"
  cs_Votes :: "'b heightVoteSet"
  cs_VoteSignAggr :: "'b heightVoteSignAggr"
  cs_CommitRound :: int
  cs_PrevoteMaj23SignAggr :: "'b signAggr option"
  cs_PrecommitMaj23SignAggr :: "'b signAggr option"
  cs_proposer :: "vrfProposer option"
  cs_isProposer :: bool
  cs_privValidator :: "privValidator option"
  cs_Epoch :: epoch
  cs_state :: "('b, 'v) tendermintExtra"
  cs_vrfValIndex :: int
  cs_pastRoundStates :: "(int \<times> int) list"
  cs_nSteps :: nat
  cs_blockFromMiner :: "'v ligoBlock option"
  cs_blocks :: "('b, 'v) ncBlock list"
  cs_partSets :: "'b partSet list"
  cs_out :: "('b, 'v) effect list"

text \<open>The chain as the consensus reads it; \<open>ValidateBlock\<close> is missing if the reader cannot validate.\<close>

record 'v chainReader =
  cr_CurrentHeader :: "'v header"
  cr_GetHeaderByNumber :: "u64 \<Rightarrow> 'v header option"
  cr_CurrentBlock :: "'v ligoBlock"
  cr_GetBlockByNumber :: "u64 \<Rightarrow> 'v ligoBlock option"
  cr_GetHeader :: "hash \<Rightarrow> u64 \<Rightarrow> 'v header option"
  cr_ValidateBlock :: "('v ligoBlock \<Rightarrow> bool) option"

text \<open>The functions of the chain contract (\<open>ligoabi/abi/abi.go\<close>).\<close>

datatype functionType = CreateSideChain | JoinSideChain | DepositInMainChain | DepositInSideChain
  | WithdrawFromSideChain | WithdrawFromMainChain | SaveDataToMainChain | SetBlockReward
  | VoteNextEpochFn | RevealVoteFn | Delegate | UnDelegate | Register | UnRegister | EditValidator
  | WithdrawReward | UnBanned | SetCommission | UnknownFn

text \<open>
  What a node reads while it handles an event: libraries, the chain, the store of epochs, the
  configuration, the clock, the cross-chain helper and the decoder of contract calls.
\<close>

record ('b, 'v) consEnv =
  ce_ext :: "'b ext"
  ce_nilBits :: 'b
  ce_wire :: "'v wire"
  ce_codec :: "('b, 'v) codec"
  ce_sha256 :: "bytes \<Rightarrow> bytes"
  ce_chain :: "'v chainReader"
  ce_epochDB :: "'v edb"
  ce_zone :: int
  ce_now :: int
  ce_LigoChainId :: string
  ce_NodeID :: string
  ce_timeoutParams :: timeoutParams
  ce_ChainContractMagicAddr :: address
  ce_FunctionTypeFromId :: "bytes \<Rightarrow> functionType option"
  ce_UnpackWithdrawFromMainChain :: "bytes \<Rightarrow> (string \<times> hash) option"
  ce_GetTX3ProofData :: "string \<Rightarrow> hash \<Rightarrow> 'v tx3ProofData option"
  ce_ValidateTX3ProofData :: "'v tx3ProofData \<Rightarrow> bool"
  ce_ValidateTX4 :: "transaction \<Rightarrow> 'v tx3ProofData \<Rightarrow> bool"

definition emit :: "('b, 'v) effect \<Rightarrow> ('b, 'v) consensusState \<Rightarrow> ('b, 'v) consensusState" where
  "emit e cs = cs\<lparr>cs_out := cs_out cs @ [e]\<rparr>"

definition blockAt :: "('b, 'v) consensusState \<Rightarrow> nat option \<Rightarrow> ('b, 'v) ncBlock option" where
  "blockAt cs p = map_option (\<lambda>i. cs_blocks cs ! i) p"

definition partsAt :: "('b, 'v) consensusState \<Rightarrow> nat option \<Rightarrow> 'b partSet option" where
  "partsAt cs p = map_option (\<lambda>i. cs_partSets cs ! i) p"

definition newPartSet :: "'b partSet \<Rightarrow> ('b, 'v) consensusState \<Rightarrow> ('b, 'v) consensusState \<times> nat" where
  "newPartSet ps cs = (cs\<lparr>cs_partSets := cs_partSets cs @ [ps]\<rparr>, length (cs_partSets cs))"

text \<open>\<open>IsMainChain\<close>: the chain is one of the two main chains of \<open>params/config.go\<close>.\<close>

definition isMainChainId :: "string \<Rightarrow> bool" where
  "isMainChainId chainId \<longleftrightarrow> chainId = ''ligochain'' \<or> chainId = ''testnet''"

definition updateRoundStep :: "int \<Rightarrow> u8 \<Rightarrow> ('b, 'v) consensusState \<Rightarrow> ('b, 'v) consensusState" where
  "updateRoundStep round step cs = cs\<lparr>cs_Round := round, cs_Step := step\<rparr>"

definition scheduleTimeout ::
    "int \<Rightarrow> u64 \<Rightarrow> int \<Rightarrow> u8 \<Rightarrow> ('b, 'v) consensusState \<Rightarrow> ('b, 'v) consensusState" where
  "scheduleTimeout duration height round step =
     emit (ScheduleTimeout \<lparr>ti_Duration = duration, ti_Height = height, ti_Round = round, ti_Step = step\<rparr>)"

definition scheduleRound0 ::
    "('b, 'v) consEnv \<Rightarrow> ('b, 'v) consensusState \<Rightarrow> ('b, 'v) consensusState" where
  "scheduleRound0 env cs =
     scheduleTimeout (Time_Sub (cs_StartTime cs) (ce_now env)) (cs_Height cs) 0 RoundStepNewHeight cs"

definition sendInternalMessage ::
    "'b consensusMessage \<Rightarrow> ('b, 'v) consensusState \<Rightarrow> ('b, 'v) consensusState" where
  "sendInternalMessage msg = emit (SendInternal \<lparr>mi_Msg = msg, mi_PeerKey = []\<rparr>)"

definition newStep :: "('b, 'v) consensusState \<Rightarrow> ('b, 'v) consensusState" where
  "newStep cs = emit (FireEvent NewRoundStep) (cs\<lparr>cs_nSteps := cs_nSteps cs + 1\<rparr>)"

section \<open>The proposer\<close>

definition BytesToBig :: "bytes \<Rightarrow> int" where
  "BytesToBig bs = fold (\<lambda>b acc. acc * 256 + uint b) bs 0"

text \<open>The loop that subtracts the powers until the rest is negative.\<close>

fun vrfIndex :: "int \<Rightarrow> int \<Rightarrow> validator list \<Rightarrow> int" where
  "vrfIndex i n [] = -1"
| "vrfIndex i n (v # vs) = (if n - val_VotingPower v < 0 then i else vrfIndex (i + 1) (n - val_VotingPower v) vs)"

text \<open>\<open>big.Int.Mod\<close> is the Euclidean remainder and panics for 0.\<close>

definition proposerByVRF :: "('b, 'v) consEnv \<Rightarrow> hash \<Rightarrow> validator list \<Rightarrow> int go" where
  "proposerByVRF env headerHash validators =
     (let hash = BytesToBig (ce_sha256 env (replicate 8 0 @ headerHash));
          n = sum_list (map val_VotingPower validators)
      in if n = 0 then Panic ''division by zero'' else Ret (vrfIndex 0 (hash mod \<bar>n\<bar>) validators))"

definition proposersByVRF ::
    "('b, 'v) consEnv \<Rightarrow> ('b, 'v) consensusState \<Rightarrow> (int \<times> int) go" where
  "proposersByVRF env cs =
     (let header = cr_CurrentHeader (ce_chain env);
          validators = vs_Validators (cs_Validators cs)
      in bindGo (proposerByVRF env (Header_Hash (ce_codec env) header) validators) (\<lambda>curProposer.
         case hd_Number header of
           None \<Rightarrow> Panic ''nil pointer dereference''
         | Some number \<Rightarrow>
             (let headerHeight = of_int number :: u64 in
              if headerHeight = ep_StartBlock (cs_Epoch cs) then Ret (-1, curProposer)
              else if 0 < headerHeight
              then (case cr_GetHeaderByNumber (ce_chain env) (headerHeight - 1) of
                      None \<Rightarrow> Panic ''nil pointer dereference''
                    | Some lastHeader \<Rightarrow>
                        bindGo (proposerByVRF env (Header_Hash (ce_codec env) lastHeader) validators)
                          (\<lambda>lastProposer. Ret (lastProposer, curProposer)))
              else Ret (-1, -1))))"

text \<open>Whether the commit of the last block lacks the signature of the proposer.\<close>

definition missedCommit :: "('b, 'v) consEnv \<Rightarrow> ('b, 'v) consensusState \<Rightarrow> int \<Rightarrow> bool" where
  "missedCommit env cs curProposer =
     (case te_SeenCommit (cs_state cs) of
        None \<Rightarrow> False
      | Some commit \<Rightarrow> \<not> BA_isNil (ce_ext env) (cm_BitArray commit)
          \<and> \<not> BA_GetIndex (ce_ext env) (cm_BitArray commit) (nat curProposer))"

text \<open>
  \<open>proposerByRound\<close>. The remainder is that of Go, with the sign of the dividend. It also sets
  \<open>vrfValIndex\<close>.
\<close>

definition proposerByRound :: "('b, 'v) consEnv \<Rightarrow> int \<Rightarrow> ('b, 'v) consensusState
    \<Rightarrow> (vrfProposer \<times> ('b, 'v) consensusState) go" where
  "proposerByRound env round cs =
     (let size = int (ValidatorSet_Size (cs_Validators cs)) in
      bindGo
        (if round = 0 then
           (if 0 \<le> cs_vrfValIndex cs then Ret (cs_vrfValIndex cs, cs)
            else bindGo (proposersByVRF env cs) (\<lambda>(lastProposer, curProposer).
              if 0 \<le> lastProposer \<and> curProposer = lastProposer \<and> missedCommit env cs curProposer
              then (if size = 0 then Panic ''integer divide by zero''
                    else Ret ((curProposer + 1) smod size, cs\<lparr>cs_vrfValIndex := (curProposer + 1) smod size\<rparr>))
              else Ret (curProposer, cs\<lparr>cs_vrfValIndex := curProposer\<rparr>)))
         else if cs_vrfValIndex cs < 0 then Panic ''cs.vrfValIndex should not be -1''
         else if size = 0 then Panic ''integer divide by zero''
         else Ret ((cs_vrfValIndex cs + round) smod size, cs)) (\<lambda>(idx, cs).
        if size \<le> idx \<or> idx < 0 then Panic ''The index of proposer out of range''
        else Ret (\<lparr>vp_Height = cs_Height cs, vp_Round = round, vp_valIndex = idx,
                   vp_Proposer = vs_Validators (cs_Validators cs) ! nat idx\<rparr>, cs)))"

definition updateProposer ::
    "('b, 'v) consEnv \<Rightarrow> ('b, 'v) consensusState \<Rightarrow> ('b, 'v) consensusState go" where
  "updateProposer env cs =
     bindGo (proposerByRound env (cs_Round cs) cs) (\<lambda>(proposer, cs).
       case cs_privValidator cs of
         None \<Rightarrow> Panic ''nil pointer dereference''
       | Some pv \<Rightarrow> Ret (cs\<lparr>cs_proposer := Some proposer,
           cs_isProposer := (val_Address (vp_Proposer proposer) = pv_Address pv)\<rparr>))"

definition GetProposer ::
    "('b, 'v) consEnv \<Rightarrow> ('b, 'v) consensusState \<Rightarrow> (validator \<times> ('b, 'v) consensusState) go" where
  "GetProposer env cs =
     bindGo (case cs_proposer cs of
         None \<Rightarrow> updateProposer env cs
       | Some p \<Rightarrow> if cs_Height cs \<noteq> vp_Height p \<or> cs_Round cs \<noteq> vp_Round p then updateProposer env cs
                   else Ret cs) (\<lambda>cs.
       case cs_proposer cs of
         None \<Rightarrow> Panic ''nil pointer dereference''
       | Some p \<Rightarrow> Ret (vp_Proposer p, cs))"

definition IsProposer ::
    "('b, 'v) consEnv \<Rightarrow> ('b, 'v) consensusState \<Rightarrow> (bool \<times> ('b, 'v) consensusState) go" where
  "IsProposer env cs = bindGo (GetProposer env cs) (\<lambda>(_, cs). Ret (cs_isProposer cs, cs))"

section \<open>Signing votes\<close>

definition signVote :: "('b, 'v) consEnv \<Rightarrow> privValidator \<Rightarrow> u8 \<Rightarrow> bytes \<Rightarrow> partSetHeader
    \<Rightarrow> ('b, 'v) consensusState \<Rightarrow> vote" where
  "signVote env pv type hash header cs =
     (let addr = pv_Address pv;
          (valIndex, _) = ValidatorSet_GetByAddress (cs_Validators cs) addr
      in PrivValidator_SignVote (ce_ext env) pv (te_ChainID (cs_state cs))
           \<lparr>vote_ValidatorAddress = addr, vote_ValidatorIndex = of_nat valIndex,
            vote_Height = cs_Height cs, vote_Round = of_int (cs_Round cs), vote_Type = type,
            vote_BlockID = \<lparr>bid_Hash = hash, bid_PartsHeader = header\<rparr>,
            vote_Signature = [], vote_SignBytes = []\<rparr>)"

text \<open>The proposer sends its vote to itself, any other validator to the proposer.\<close>

definition signAddVote :: "('b, 'v) consEnv \<Rightarrow> u8 \<Rightarrow> bytes \<Rightarrow> partSetHeader
    \<Rightarrow> ('b, 'v) consensusState \<Rightarrow> ('b, 'v) consensusState go" where
  "signAddVote env type hash header cs =
     (case cs_privValidator cs of
        None \<Rightarrow> Ret cs
      | Some pv \<Rightarrow>
          if \<not> ValidatorSet_HasAddress (cs_Validators cs) (pv_Address pv) then Ret cs
          else
            (let vote = signVote env pv type hash header cs in
             bindGo (IsProposer env cs) (\<lambda>(isProposer, cs).
               Ret (if \<not> isProposer
                    then (if cs_ProposerPeerKey cs \<noteq> [] then emit (FireVote2Proposer vote (cs_ProposerPeerKey cs)) cs
                          else cs)
                    else sendInternalMessage (VoteMessage (Some vote)) cs))))"

section \<open>Proposing a block\<close>

definition isProposalComplete :: "('b, 'v) consensusState \<Rightarrow> bool" where
  "isProposalComplete cs \<longleftrightarrow> \<not> Option.is_none (cs_Proposal cs) \<and> \<not> Option.is_none (cs_ProposalBlock cs)"

definition IsLigoChainContractAddr :: "('b, 'v) consEnv \<Rightarrow> address option \<Rightarrow> bool" where
  "IsLigoChainContractAddr env addr \<longleftrightarrow> addr = Some (ce_ChainContractMagicAddr env)"

text \<open>
  The function that a transaction calls: none if it is not for the chain contract or the function is
  not known. The slice \<open>data[:4]\<close> panics for shorter data.
\<close>

definition contractFunction :: "('b, 'v) consEnv \<Rightarrow> transaction \<Rightarrow> functionType option go" where
  "contractFunction env tx =
     (if \<not> IsLigoChainContractAddr env (tx_Recipient tx) then Ret None
      else if length (tx_Payload tx) < 4 then Panic ''slice bounds out of range''
      else Ret (ce_FunctionTypeFromId env (take 4 (tx_Payload tx))))"

fun collectTX3ProofData :: "('b, 'v) consEnv \<Rightarrow> transaction list \<Rightarrow> 'v tx3ProofData list go" where
  "collectTX3ProofData env [] = Ret []"
| "collectTX3ProofData env (tx # txs) =
     bindGo (contractFunction env tx) (\<lambda>function.
     bindGo (collectTX3ProofData env txs) (\<lambda>rest.
       Ret (if function = Some WithdrawFromMainChain
            then (case ce_UnpackWithdrawFromMainChain env (drop 4 (tx_Payload tx)) of
                    None \<Rightarrow> rest
                  | Some (chainId, txHash) \<Rightarrow>
                      (case ce_GetTX3ProofData env chainId txHash of
                         None \<Rightarrow> rest | Some proof \<Rightarrow> proof # rest))
            else rest)))"

text \<open>\<open>State.GetValidators\<close> of \<open>state/state.go\<close>; \<open>None\<close> is its error.\<close>

definition State_GetValidators ::
    "('b, 'v) tendermintExtra \<Rightarrow> epoch \<Rightarrow> (validatorSet \<times> validatorSet) option go" where
  "State_GetValidators ncExtra epoch =
     (if te_EpochNumber ncExtra = ep_Number epoch
      then Ret (Some (ep_Validators epoch, ep_Validators epoch))
      else if te_EpochNumber ncExtra = ep_Number epoch - 1
      then (case ep_previousEpoch epoch of
              None \<Rightarrow> Panic ''nil pointer dereference''
            | Some previous \<Rightarrow> Ret (Some (ep_Validators previous, ep_Validators epoch)))
      else Ret None)"

text \<open>The height and the time of the last block as \<open>ProposeNextEpoch\<close> takes them.\<close>

definition lastBlock :: "('b, 'v) consEnv \<Rightarrow> u64 \<times> int" where
  "lastBlock env = (let b = cr_CurrentBlock (ce_chain env) in (Block_NumberU64 b, sint (Block_Time b) * 10 ^ 9))"

text \<open>The epoch that goes into a block: the next one at the end, the current one at the start.\<close>

definition proposedEpochBytes ::
    "('b, 'v) consEnv \<Rightarrow> ('b, 'v) consensusState \<Rightarrow> ('v option \<times> ('b, 'v) consensusState) go" where
  "proposedEpochBytes env cs =
     (if cs_Height cs = ep_EndBlock (cs_Epoch cs) then
        (let epoch = GetNextEpoch (ce_wire env) (ce_epochDB env) (cs_Epoch cs) in
         case ep_nextEpoch epoch of
           None \<Rightarrow> Panic ''missing next epoch at epoch end block''
         | Some nextEp \<Rightarrow> Ret (Some (EpochBytes (ce_wire env) (ep_fields nextEp)), cs\<lparr>cs_Epoch := epoch\<rparr>))
      else if cs_Height cs = ep_StartBlock (cs_Epoch cs) \<or> cs_Height cs = 1
      then Ret (Some (EpochBytes (ce_wire env) (ep_fields (cs_Epoch cs))), cs)
      else if ShouldProposeNextEpoch (cs_Epoch cs) (cs_Height cs)
      then (case lastBlock env of (lastHeight, lastBlockTime) \<Rightarrow>
              bindGo (ProposeNextEpoch (ce_wire env) (ce_zone env) (ce_epochDB env) (cs_Epoch cs) lastHeight
                        lastBlockTime) (\<lambda>nextEp.
                Ret (Some (EpochBytes (ce_wire env) (ep_fields nextEp)), cs)))
      else Ret (None, cs))"

definition createProposalBlock :: "('b, 'v) consEnv \<Rightarrow> ('b, 'v) consensusState
    \<Rightarrow> ((('b, 'v) ncBlock \<times> 'b partSet) option \<times> ('b, 'v) consensusState) go" where
  "createProposalBlock env cs =
     (case cs_blockFromMiner cs of
        None \<Rightarrow> Ret (None, cs)
      | Some ligoBlock \<Rightarrow>
          if cs_Height cs \<noteq> Block_NumberU64 ligoBlock then Ret (None, cs)
          else
            bindGo (proposedEpochBytes env cs) (\<lambda>(epochBytes, cs).
            bindGo (State_GetValidators (cs_state cs) (cs_Epoch cs)) (\<lambda>vals.
            bindGo (collectTX3ProofData env (lb_transactions ligoBlock)) (\<lambda>tx3ProofData.
              case vals of
                None \<Rightarrow> Panic ''nil pointer dereference''
              | Some (_, val) \<Rightarrow>
                  bindGo (MakeBlock (ce_ext env) (ce_codec env) (ce_now env) (cs_Height cs)
                            (te_ChainID (cs_state cs))
                            \<lparr>cm_BlockID = zeroBlockID, cm_Height = 0, cm_Round = 0, cm_SignAggr = [],
                             cm_BitArray = ce_nilBits env\<rparr>
                            ligoBlock (ValidatorSet_Hash (ce_codec env) val) (ep_Number (cs_Epoch cs))
                            epochBytes tx3ProofData 65536) (\<lambda>made.
                    Ret (Some made, cs))))))"

text \<open>The parts of a block, as messages of this height and round.\<close>

definition sendParts :: "'b partSet option \<Rightarrow> ('b, 'v) consensusState \<Rightarrow> ('b, 'v) consensusState go" where
  "sendParts blockParts cs =
     foldGo (\<lambda>i cs. case blockParts of
         None \<Rightarrow> Panic ''nil pointer dereference''
       | Some ps \<Rightarrow> bindGo (PartSet_GetPart ps (int i)) (\<lambda>part.
           Ret (sendInternalMessage (BlockPartMessage (cs_Height cs) (cs_Round cs) part) cs)))
       [0..<nat (PartSet_Total blockParts)] cs"

definition defaultDecideProposal :: "('b, 'v) consEnv \<Rightarrow> u64 \<Rightarrow> int \<Rightarrow> ('b, 'v) consensusState
    \<Rightarrow> ('b, 'v) consensusState go" where
  "defaultDecideProposal env height round cs =
     bindGo (if \<not> Option.is_none (cs_LockedBlock cs)
             then Ret (Some (blockAt cs (cs_LockedBlock cs), partsAt cs (cs_LockedBlockParts cs)), cs)
             else bindGo (createProposalBlock env cs) (\<lambda>(made, cs).
               Ret (map_option (\<lambda>(b, ps). (Some b, Some ps)) made, cs))) (\<lambda>(made, cs).
       case made of
         None \<Rightarrow> Ret cs
       | Some (block, blockParts) \<Rightarrow>
           bindGo (HeightVoteSignAggr_POLInfo (cs_VoteSignAggr cs)) (\<lambda>(polRound, polBlockID).
           bindGo (NCBlock_Hash (ce_codec env) block) (\<lambda>hash.
             if ce_NodeID env = [] then Panic ''Node id is nil''
             else
               (case cs_privValidator cs of
                  None \<Rightarrow> Panic ''nil pointer dereference''
                | Some pv \<Rightarrow>
                    (let proposal = PrivValidator_SignProposal (ce_ext env) pv (te_ChainID (cs_state cs))
                           (NewProposal height round hash (PartSet_Header blockParts) polRound polBlockID
                              (ce_NodeID env))
                     in sendParts blockParts (sendInternalMessage (ProposalMessage (Some proposal)) cs))))))"

end
