(* ===== verification/Consensus_Handlers.thy ===== *)
theory Consensus_Handlers
  imports Consensus_State
begin

text \<open>
  The handlers of \<open>consensus/state.go\<close> and \<open>consensus/tdmstate.go\<close>: entering the steps of a round,
  proposals, block parts, votes and aggregates, timeouts, and the start of a height. A deferred
  function runs after the body of its handler.
\<close>

section \<open>Prevotes\<close>

definition enterPrevoteWait :: "('b, 'v) consEnv \<Rightarrow> u64 \<Rightarrow> int \<Rightarrow> ('b, 'v) consensusState
    \<Rightarrow> ('b, 'v) consensusState" where
  "enterPrevoteWait env height round cs =
     (if cs_Height cs \<noteq> height \<or> round < cs_Round cs
         \<or> (cs_Round cs = round \<and> RoundStepPrevoteWait \<le> cs_Step cs) then cs
      else newStep (updateRoundStep round RoundStepPrevoteWait
             (scheduleTimeout (TimeoutParams_Prevote (ce_timeoutParams env) round) height round
                RoundStepPrevoteWait cs)))"

text \<open>\<open>ValidateTX4\<close>: each withdrawal takes the next proof of the block.\<close>

fun validateTX4Loop :: "('b, 'v) consEnv \<Rightarrow> 'v tx3ProofData list \<Rightarrow> transaction list \<Rightarrow> bool go" where
  "validateTX4Loop env proofs [] = Ret True"
| "validateTX4Loop env proofs (tx # txs) =
     bindGo (contractFunction env tx) (\<lambda>function.
       if function = Some WithdrawFromMainChain
       then (case proofs of
               [] \<Rightarrow> Ret False
             | tx3ProofData # proofs \<Rightarrow>
                 if \<not> ce_ValidateTX3ProofData env tx3ProofData then Ret False
                 else if \<not> ce_ValidateTX4 env tx tx3ProofData then Ret False
                 else validateTX4Loop env proofs txs)
       else validateTX4Loop env proofs txs)"

definition ValidateTX4 :: "('b, 'v) consEnv \<Rightarrow> ('b, 'v) ncBlock \<Rightarrow> bool go" where
  "ValidateTX4 env b = validateTX4Loop env (nb_TX3ProofData b) (lb_transactions (nb_Block b))"

text \<open>
  The tests of a proposed block before it is prevoted, in their order: its extra data, its
  withdrawals, its execution by the chain unless this node proposed it, and the next epoch in it.
  The execution leaves its result in the block.
\<close>

definition executeProposal :: "('b, 'v) consEnv \<Rightarrow> nat \<Rightarrow> ('b, 'v) consensusState
    \<Rightarrow> (bool \<times> ('b, 'v) consensusState) go" where
  "executeProposal env p cs =
     bindGo (IsProposer env cs) (\<lambda>(isProposer, cs).
       if isProposer then Ret (True, cs)
       else (case cr_ValidateBlock (ce_chain env) of
               None \<Rightarrow> Ret (True, cs)
             | Some validate \<Rightarrow>
                 if \<not> validate (nb_Block (cs_blocks cs ! p)) then Ret (False, cs)
                 else Ret (True, cs\<lparr>cs_blocks := (cs_blocks cs)[p :=
                        (cs_blocks cs ! p)\<lparr>nb_IntermediateResult := True\<rparr>]\<rparr>)))"

definition validNextEpoch :: "('b, 'v) consEnv \<Rightarrow> ('b, 'v) ncBlock \<Rightarrow> ('b, 'v) consensusState \<Rightarrow> bool go" where
  "validNextEpoch env b cs =
     (case nb_NTCExtra b of
        None \<Rightarrow> Panic ''nil pointer dereference''
      | Some te \<Rightarrow>
          (case FromBytes (ce_wire env) (te_EpochBytes te) of
             None \<Rightarrow> Ret True
           | Some proposed \<Rightarrow>
               if ep_Number proposed = ep_Number (cs_Epoch cs) + 1
                  \<and> ShouldProposeNextEpoch (cs_Epoch cs) (cs_Height cs)
               then (case lastBlock env of (lastHeight, lastBlockTime) \<Rightarrow>
                       bindGo (ValidateNextEpoch (ce_wire env) (ce_zone env) (ce_epochDB env) (cs_Epoch cs)
                                 (Some proposed) lastHeight lastBlockTime) (\<lambda>err. Ret (Option.is_none err)))
               else Ret True))"

definition acceptProposal :: "('b, 'v) consEnv \<Rightarrow> nat \<Rightarrow> ('b, 'v) consensusState
    \<Rightarrow> (bool \<times> ('b, 'v) consensusState) go" where
  "acceptProposal env p cs =
     bindGo (NCBlock_ValidateBasic (cs_blocks cs ! p) (cs_state cs)) (\<lambda>err.
       if err \<noteq> None then Ret (False, cs)
       else bindGo (ValidateTX4 env (cs_blocks cs ! p)) (\<lambda>valid.
         if \<not> valid then Ret (False, cs)
         else bindGo (executeProposal env p cs) (\<lambda>(valid, cs).
           if \<not> valid then Ret (False, cs)
           else bindGo (validNextEpoch env (cs_blocks cs ! p) cs) (\<lambda>valid. Ret (valid, cs)))))"

definition defaultDoPrevote :: "('b, 'v) consEnv \<Rightarrow> ('b, 'v) consensusState \<Rightarrow> ('b, 'v) consensusState go" where
  "defaultDoPrevote env cs =
     (case cs_LockedBlock cs of
        Some _ \<Rightarrow>
          bindGo (NCBlock_Hash (ce_codec env) (blockAt cs (cs_LockedBlock cs))) (\<lambda>hash.
            signAddVote env VoteTypePrevote hash (PartSet_Header (partsAt cs (cs_LockedBlockParts cs))) cs)
      | None \<Rightarrow>
          (case cs_ProposalBlock cs of
             None \<Rightarrow> signAddVote env VoteTypePrevote [] zeroPartSetHeader cs
           | Some p \<Rightarrow>
               bindGo (acceptProposal env p cs) (\<lambda>(valid, cs).
                 if \<not> valid then signAddVote env VoteTypePrevote [] zeroPartSetHeader cs
                 else bindGo (NCBlock_Hash (ce_codec env) (blockAt cs (Some p))) (\<lambda>hash.
                   signAddVote env VoteTypePrevote hash
                     (PartSet_Header (partsAt cs (cs_ProposalBlockParts cs))) cs))))"

definition enterPrevote :: "('b, 'v) consEnv \<Rightarrow> u64 \<Rightarrow> int \<Rightarrow> ('b, 'v) consensusState
    \<Rightarrow> ('b, 'v) consensusState go" where
  "enterPrevote env height round cs =
     (if cs_Height cs \<noteq> height \<or> round < cs_Round cs
         \<or> (cs_Round cs = round \<and> RoundStepPrevoteWait < cs_Step cs) then Ret cs
      else
        bindGo (if isProposalComplete cs then defaultDoPrevote env cs else Ret cs) (\<lambda>cs.
          Ret (enterPrevoteWait env height round
                 (if cs_Step cs = RoundStepPropose then newStep (updateRoundStep round RoundStepPrevote cs)
                  else cs))))"

section \<open>Rounds and proposals\<close>

text \<open>
  Blocks of a side chain that carry an epoch or a withdrawal are reported to the main chain by the
  next proposer.
\<close>

definition reportLastBlock :: "('b, 'v) consEnv \<Rightarrow> bool \<Rightarrow> ('v ligoBlock option \<Rightarrow> ('b, 'v) effect)
    \<Rightarrow> (('b, 'v) tendermintExtra \<Rightarrow> ('b, 'v) tendermintExtra) \<Rightarrow> ('b, 'v) consensusState
    \<Rightarrow> ('b, 'v) consensusState go" where
  "reportLastBlock env needed report done cs =
     (if needed \<and> \<not> isMainChainId (te_ChainID (cs_state cs)) \<and> \<not> Option.is_none (cs_privValidator cs)
      then bindGo (IsProposer env cs) (\<lambda>(isProposer, cs).
        Ret (if isProposer
             then emit (report (cr_GetBlockByNumber (ce_chain env) (te_Height (cs_state cs)))) cs
                    \<lparr>cs_state := done (cs_state cs)\<rparr>
             else cs))
      else Ret cs)"

definition enterPropose :: "('b, 'v) consEnv \<Rightarrow> u64 \<Rightarrow> int \<Rightarrow> ('b, 'v) consensusState
    \<Rightarrow> ('b, 'v) consensusState go" where
  "enterPropose env height round cs =
     (if cs_Height cs \<noteq> height \<or> round < cs_Round cs
         \<or> (cs_Round cs = round \<and> RoundStepPropose \<le> cs_Step cs) then Ret cs
      else
        bindGo (reportLastBlock env (te_NeedToSave (cs_state cs)) SaveBlockToMainChain
                  (te_NeedToSave_update (\<lambda>_. False)) cs) (\<lambda>cs.
        bindGo (reportLastBlock env (te_NeedToBroadcast (cs_state cs)) BroadcastTX3ProofData
                  (te_NeedToBroadcast_update (\<lambda>_. False)) cs) (\<lambda>cs.
        let cs = scheduleTimeout (TimeoutParams_Propose (ce_timeoutParams env) round) height round
                   RoundStepPropose cs in
        bindGo (if Option.is_none (cs_privValidator cs) then Ret cs
                else bindGo (IsProposer env cs) (\<lambda>(isProposer, cs).
                  if \<not> isProposer then Ret cs else defaultDecideProposal env height round cs)) (\<lambda>cs.
        let cs = newStep (updateRoundStep round RoundStepPropose cs) in
        if isProposalComplete cs then enterPrevote env height (cs_Round cs) cs else Ret cs))))"

text \<open>A proposer without a block for this height waits for the miner.\<close>

definition proposeOrWait :: "('b, 'v) consEnv \<Rightarrow> u64 \<Rightarrow> int \<Rightarrow> ('b, 'v) consensusState
    \<Rightarrow> ('b, 'v) consensusState go" where
  "proposeOrWait env height round cs =
     bindGo (IsProposer env cs) (\<lambda>(isProposer, cs).
       if isProposer \<and> (case cs_blockFromMiner cs of None \<Rightarrow> True
            | Some b \<Rightarrow> cs_Height cs \<noteq> Block_NumberU64 b)
       then Ret (scheduleTimeout (TimeoutParams_WaitForMinerBlock (ce_timeoutParams env)) height round
                   RoundStepWaitForMinerBlock cs)
       else enterPropose env height round cs)"

definition clearProposal :: "('b, 'v) consensusState \<Rightarrow> ('b, 'v) consensusState" where
  "clearProposal cs = cs\<lparr>cs_Proposal := None, cs_ProposalBlock := None, cs_ProposalBlockParts := None,
     cs_ProposerPeerKey := [], cs_PrevoteMaj23SignAggr := None, cs_PrecommitMaj23SignAggr := None\<rparr>"

definition enterNewRound :: "('b, 'v) consEnv \<Rightarrow> u64 \<Rightarrow> int \<Rightarrow> ('b, 'v) consensusState
    \<Rightarrow> ('b, 'v) consensusState go" where
  "enterNewRound env height round cs =
     (if cs_Height cs \<noteq> height \<or> round < cs_Round cs
         \<or> (cs_Round cs = round \<and> cs_Step cs \<noteq> RoundStepNewHeight) then Ret cs
      else
        (let cs = updateRoundStep round RoundStepNewRound cs;
             cs = (if round = 0 then cs else clearProposal cs)
         in bindGo (HeightVoteSignAggr_SetRound (cs_VoteSignAggr cs) (round + 1)) (\<lambda>voteSignAggr.
            bindGo (HeightVoteSet_SetRound (ce_ext env) (cs_Votes cs) (round + 1)) (\<lambda>votes.
              proposeOrWait env height round (emit (FireEvent NewRound)
                (cs\<lparr>cs_VoteSignAggr := voteSignAggr, cs_Votes := votes,
                    cs_pastRoundStates := AList.update round ROUND_NOT_PROPOSED (cs_pastRoundStates cs)\<rparr>))))))"

definition enterLowerRound :: "('b, 'v) consEnv \<Rightarrow> u64 \<Rightarrow> int \<Rightarrow> ('b, 'v) consensusState
    \<Rightarrow> ('b, 'v) consensusState go" where
  "enterLowerRound env height round cs =
     (let cs = cs\<lparr>cs_pastRoundStates :=
                 fold (\<lambda>r m. AList.delete r m) (rev [round + 1 .. cs_Round cs]) (cs_pastRoundStates cs)\<rparr>;
          cs = clearProposal (updateRoundStep round RoundStepNewRound cs)
      in bindGo (HeightVoteSignAggr_ResetTop2Round (cs_VoteSignAggr cs) (round + 1)) (\<lambda>voteSignAggr.
         bindGo (HeightVoteSet_ResetTop2Round (ce_ext env) (cs_Votes cs) (round + 1)) (\<lambda>votes.
           proposeOrWait env height round (emit (FireEvent NewRound)
             (cs\<lparr>cs_VoteSignAggr := voteSignAggr, cs_Votes := votes\<rparr>)))))"

datatype proposalErr = ErrInvalidProposalSignature | ErrInvalidProposalPOLRound

definition proposalStatus :: "('b, 'v) consensusState \<Rightarrow> int \<Rightarrow> int" where
  "proposalStatus cs round = (case map_of (cs_pastRoundStates cs) round of Some s \<Rightarrow> s | None \<Rightarrow> 0)"

text \<open>The end of \<open>defaultSetProposal\<close>.\<close>

definition storeProposal ::
    "('b, 'v) consEnv \<Rightarrow> proposal \<Rightarrow> ('b, 'v) consensusState \<Rightarrow> ('b, 'v) consensusState" where
  "storeProposal env proposal cs =
     (case newPartSet (NewPartSetFromHeader (ce_ext env) (pr_BlockPartsHeader proposal)) cs of
        (cs, ptr) \<Rightarrow> cs\<lparr>cs_Proposal := Some proposal, cs_ProposalBlockParts := Some ptr,
          cs_ProposerPeerKey := pr_ProposerPeerKey proposal,
          cs_pastRoundStates := AList.update (cs_Round cs) ROUND_PROPOSED (cs_pastRoundStates cs)\<rparr>)"

definition defaultSetProposal :: "('b, 'v) consEnv \<Rightarrow> proposal option \<Rightarrow> ('b, 'v) consensusState
    \<Rightarrow> (proposalErr option \<times> ('b, 'v) consensusState) go" where
  "defaultSetProposal env msg cs =
     (if \<not> Option.is_none (cs_Proposal cs) then Ret (None, cs)
      else case msg of None \<Rightarrow> Panic ''nil pointer dereference''
      | Some proposal \<Rightarrow>
          if pr_Height proposal \<noteq> cs_Height cs \<or> cs_Round cs < pr_Round proposal then Ret (None, cs)
          else if RoundStepCommit \<le> cs_Step cs then Ret (None, cs)
          else if pr_POLRound proposal \<noteq> -1
                  \<and> (pr_POLRound proposal < 0 \<or> pr_Round proposal \<le> pr_POLRound proposal)
          then Ret (Some ErrInvalidProposalPOLRound, cs)
          else
            (let signed = (\<lambda>val. VerifyBytes (ce_ext env) (val_PubKey val)
                   (Proposal_SignBytes (ce_ext env) (ce_LigoChainId env) proposal) (pr_Signature proposal))
             in if pr_Round proposal = cs_Round cs then
                  bindGo (GetProposer env cs) (\<lambda>(val, cs).
                    if \<not> signed val then Ret (Some ErrInvalidProposalSignature, cs)
                    else Ret (None, storeProposal env proposal cs))
                else
                  bindGo (proposerByRound env (pr_Round proposal) cs) (\<lambda>(proposer, cs).
                    if \<not> signed (vp_Proposer proposer) then Ret (Some ErrInvalidProposalSignature, cs)
                    else if int (length (cs_pastRoundStates cs)) - 1 < pr_Round proposal then Ret (None, cs)
                    else if proposalStatus cs (pr_Round proposal) \<noteq> ROUND_NOT_PROPOSED then Ret (None, cs)
                    else bindGo (enterLowerRound env (cs_Height cs) (pr_Round proposal) cs) (\<lambda>cs.
                      Ret (None, storeProposal env proposal cs)))))"

section \<open>Precommits\<close>

definition enterPrecommitWait :: "('b, 'v) consEnv \<Rightarrow> u64 \<Rightarrow> int \<Rightarrow> ('b, 'v) consensusState
    \<Rightarrow> ('b, 'v) consensusState" where
  "enterPrecommitWait env height round cs =
     (if cs_Height cs \<noteq> height \<or> round < cs_Round cs
         \<or> (cs_Round cs = round \<and> RoundStepPrecommitWait \<le> cs_Step cs) then cs
      else newStep (updateRoundStep round RoundStepPrecommitWait
             (scheduleTimeout (TimeoutParams_Precommit (ce_timeoutParams env) round) height round
                RoundStepPrecommitWait cs)))"

definition unlock :: "('b, 'v) consensusState \<Rightarrow> ('b, 'v) consensusState" where
  "unlock cs = cs\<lparr>cs_LockedRound := -1, cs_LockedBlock := None, cs_LockedBlockParts := None\<rparr>"

text \<open>The proposal is replaced by an empty part set of the block that the others voted for.\<close>

definition expectBlock ::
    "('b, 'v) consEnv \<Rightarrow> blockID \<Rightarrow> ('b, 'v) consensusState \<Rightarrow> ('b, 'v) consensusState" where
  "expectBlock env blockID cs =
     (if PartSet_HasHeader (partsAt cs (cs_ProposalBlockParts cs)) (bid_PartsHeader blockID) then cs
      else case newPartSet (NewPartSetFromHeader (ce_ext env) (bid_PartsHeader blockID)) cs of
        (cs, ptr) \<Rightarrow> cs\<lparr>cs_ProposalBlock := None, cs_ProposalBlockParts := Some ptr\<rparr>)"

definition precommitNil :: "('b, 'v) consEnv \<Rightarrow> ('b, 'v) consensusState \<Rightarrow> ('b, 'v) consensusState go" where
  "precommitNil env cs = signAddVote env VoteTypePrecommit [] zeroPartSetHeader cs"

text \<open>The body of \<open>enterPrecommit\<close> for a block that +2/3 prevoted.\<close>

definition precommitBlock :: "('b, 'v) consEnv \<Rightarrow> int \<Rightarrow> blockID \<Rightarrow> ('b, 'v) consensusState
    \<Rightarrow> ('b, 'v) consensusState go" where
  "precommitBlock env round blockID cs =
     bindGo (NCBlock_HashesTo (ce_codec env) (blockAt cs (cs_LockedBlock cs)) (bid_Hash blockID)) (\<lambda>locked.
       if locked
       then signAddVote env VoteTypePrecommit (bid_Hash blockID) (bid_PartsHeader blockID)
              (emit (FireEvent Relock) (cs\<lparr>cs_LockedRound := round\<rparr>))
       else bindGo (NCBlock_HashesTo (ce_codec env) (blockAt cs (cs_ProposalBlock cs)) (bid_Hash blockID))
         (\<lambda>proposed.
           if proposed then
             (case blockAt cs (cs_ProposalBlock cs) of
                None \<Rightarrow> Panic ''nil pointer dereference''
              | Some b \<Rightarrow> bindGo (NCBlock_ValidateBasic b (cs_state cs)) (\<lambda>err.
                  if err \<noteq> None then Panic ''enterPrecommit: +2/3 prevoted for an invalid block''
                  else signAddVote env VoteTypePrecommit (bid_Hash blockID) (bid_PartsHeader blockID)
                    (emit (FireEvent Lock) (cs\<lparr>cs_LockedRound := round,
                       cs_LockedBlock := cs_ProposalBlock cs,
                       cs_LockedBlockParts := cs_ProposalBlockParts cs\<rparr>))))
           else precommitNil env (emit (FireEvent Unlock) (expectBlock env blockID (unlock cs)))))"

definition enterPrecommit :: "('b, 'v) consEnv \<Rightarrow> u64 \<Rightarrow> int \<Rightarrow> ('b, 'v) consensusState
    \<Rightarrow> ('b, 'v) consensusState go" where
  "enterPrecommit env height round cs =
     (if cs_Height cs \<noteq> height \<or> round < cs_Round cs
         \<or> (cs_Round cs = round \<and> RoundStepPrecommit \<le> cs_Step cs) then Ret cs
      else
        bindGo (HeightVoteSignAggr_Prevotes (cs_VoteSignAggr cs) round) (\<lambda>prevotes.
        bindGo (case SignAggr_TwoThirdsMajority prevotes of (blockID, ok) \<Rightarrow>
            if \<not> ok then precommitNil env (emit TryFixBadPreimages cs)
            else
              (let cs = emit (FireEvent Polka) cs in
               bindGo (HeightVoteSignAggr_POLInfo (cs_VoteSignAggr cs)) (\<lambda>(polRound, _).
                 if polRound < round then Panic ''This POLRound should be round''
                 else if bid_Hash blockID = []
                 then precommitNil env (if Option.is_none (cs_LockedBlock cs) then cs
                                        else emit (FireEvent Unlock) (unlock cs))
                 else precommitBlock env round blockID cs))) (\<lambda>cs.
          Ret (enterPrecommitWait env height round
                 (newStep (updateRoundStep round RoundStepPrecommit cs))))))"

section \<open>Committing a block\<close>

fun withdraws :: "('b, 'v) consEnv \<Rightarrow> transaction list \<Rightarrow> bool go" where
  "withdraws env [] = Ret False"
| "withdraws env (tx # txs) =
     bindGo (contractFunction env tx) (\<lambda>function.
       if function = Some WithdrawFromSideChain then Ret True else withdraws env txs)"

text \<open>The extra data of a block when it is committed.\<close>

definition sealExtra :: "('b, 'v) consEnv \<Rightarrow> 'b signAggr \<Rightarrow> ('b, 'v) ncBlock \<Rightarrow> ('b, 'v) tendermintExtra
    \<Rightarrow> ('b, 'v) tendermintExtra go" where
  "sealExtra env precommits block te =
     (let seenCommit = SignAggr_MakeCommit (ce_ext env) precommits;
          te = te\<lparr>te_SeenCommit := Some seenCommit,
                  te_SeenCommitHash := SimpleHashFromBinary (ce_codec env) seenCommit\<rparr>
      in if isMainChainId (te_ChainID te) then Ret te
         else bindGo (withdraws env (lb_transactions (nb_Block block))) (\<lambda>withdrawal.
           Ret (te\<lparr>te_NeedToSave := (te_NeedToSave te \<or> (case te_EpochBytes te of None \<Rightarrow> False
                      | Some b \<Rightarrow> \<not> isEmptyBytes (ce_wire env) b)),
                   te_NeedToBroadcast := (te_NeedToBroadcast te \<or> withdrawal)\<rparr>)))"

definition commitBlock :: "('b, 'v) consEnv \<Rightarrow> 'b signAggr \<Rightarrow> nat \<Rightarrow> ('b, 'v) consensusState
    \<Rightarrow> ('b, 'v) consensusState go" where
  "commitBlock env precommits p cs =
     (let block = cs_blocks cs ! p in
      case nb_NTCExtra block of
        None \<Rightarrow> Panic ''nil pointer dereference''
      | Some te \<Rightarrow>
          if te_Height (cs_state cs) < te_Height te then
            bindGo (sealExtra env precommits block te) (\<lambda>te.
              let block = block\<lparr>nb_NTCExtra := Some te\<rparr> in
              bindGo (IsProposer env (emit (FireEvent (NewBlockHeader (te_Height te))) (emit (FireEvent NewBlock)
                        (cs\<lparr>cs_blocks := (cs_blocks cs)[p := block]\<rparr>)))) (\<lambda>(isProposer, cs).
                Ret (emit (CommitBlock block isProposer) cs)))
          else Ret cs)"

definition finalizeCommit :: "('b, 'v) consEnv \<Rightarrow> u64 \<Rightarrow> ('b, 'v) consensusState
    \<Rightarrow> ('b, 'v) consensusState go" where
  "finalizeCommit env height cs =
     (if cs_Height cs \<noteq> height \<or> cs_Step cs \<noteq> RoundStepCommit then Ret cs
      else
        bindGo (HeightVoteSignAggr_Precommits (cs_VoteSignAggr cs) (cs_CommitRound cs)) (\<lambda>precommits.
        case SignAggr_TwoThirdsMajority precommits of (blockID, ok) \<Rightarrow>
          if \<not> ok then Panic ''Cannot finalizeCommit, commit does not have two thirds majority''
          else if \<not> PartSet_HasHeader (partsAt cs (cs_ProposalBlockParts cs)) (bid_PartsHeader blockID)
          then Panic ''Expected ProposalBlockParts header to be commit header''
          else bindGo (NCBlock_HashesTo (ce_codec env) (blockAt cs (cs_ProposalBlock cs)) (bid_Hash blockID))
            (\<lambda>hashes.
              if \<not> hashes then Panic ''Cannot finalizeCommit, ProposalBlock does not hash to commit hash''
              else (case (cs_ProposalBlock cs, precommits) of
                  (Some p, Some sa) \<Rightarrow>
                    bindGo (NCBlock_ValidateBasic (cs_blocks cs ! p) (cs_state cs)) (\<lambda>err.
                      if err \<noteq> None then Panic ''+2/3 committed an invalid block''
                      else commitBlock env sa p cs)
                | _ \<Rightarrow> Panic ''nil pointer dereference''))))"

definition tryFinalizeCommit :: "('b, 'v) consEnv \<Rightarrow> u64 \<Rightarrow> ('b, 'v) consensusState
    \<Rightarrow> ('b, 'v) consensusState go" where
  "tryFinalizeCommit env height cs =
     (if cs_Height cs \<noteq> height then Panic ''tryFinalizeCommit() cs.Height''
      else
        bindGo (HeightVoteSignAggr_Precommits (cs_VoteSignAggr cs) (cs_CommitRound cs)) (\<lambda>precommits.
        case SignAggr_TwoThirdsMajority precommits of (blockID, ok) \<Rightarrow>
          if \<not> ok \<or> bid_Hash blockID = [] then Ret cs
          else bindGo (NCBlock_HashesTo (ce_codec env) (blockAt cs (cs_ProposalBlock cs)) (bid_Hash blockID))
            (\<lambda>hashes. if \<not> hashes then Ret cs else finalizeCommit env height cs)))"

definition enterCommit :: "('b, 'v) consEnv \<Rightarrow> u64 \<Rightarrow> int \<Rightarrow> ('b, 'v) consensusState
    \<Rightarrow> ('b, 'v) consensusState go" where
  "enterCommit env height commitRound cs =
     (if cs_Height cs \<noteq> height \<or> RoundStepCommit \<le> cs_Step cs then Ret cs
      else
        bindGo (HeightVoteSignAggr_Precommits (cs_VoteSignAggr cs) commitRound) (\<lambda>precommits.
        case SignAggr_TwoThirdsMajority precommits of (blockID, ok) \<Rightarrow>
          if \<not> ok then Panic ''RunActionCommit() expects +2/3 precommits''
          else bindGo (NCBlock_HashesTo (ce_codec env) (blockAt cs (cs_LockedBlock cs)) (bid_Hash blockID))
            (\<lambda>locked.
            let cs = (if locked then cs\<lparr>cs_ProposalBlock := cs_LockedBlock cs,
                                        cs_ProposalBlockParts := cs_LockedBlockParts cs\<rparr> else cs)
            in bindGo (NCBlock_HashesTo (ce_codec env) (blockAt cs (cs_ProposalBlock cs)) (bid_Hash blockID))
              (\<lambda>proposed.
                let cs = (if proposed then cs else expectBlock env blockID cs) in
                tryFinalizeCommit env height
                  (newStep ((updateRoundStep (cs_Round cs) RoundStepCommit cs)
                     \<lparr>cs_CommitRound := commitRound, cs_CommitTime := ce_now env\<rparr>))))))"

section \<open>Block parts\<close>

text \<open>A complete proposal is decoded; a block that cannot be decoded is nil.\<close>

definition decodeProposal ::
    "('b, 'v) consEnv \<Rightarrow> partSetReader \<Rightarrow> ('b, 'v) consensusState \<Rightarrow> ('b, 'v) consensusState" where
  "decodeProposal env reader cs =
     (case NCBlock_FromBytes (ce_codec env) reader of
        None \<Rightarrow> cs\<lparr>cs_ProposalBlock := None\<rparr>
      | Some b \<Rightarrow> cs\<lparr>cs_blocks := cs_blocks cs @ [b], cs_ProposalBlock := Some (length (cs_blocks cs))\<rparr>)"

text \<open>The error results only go to the log.\<close>

definition addProposalBlockPart :: "('b, 'v) consEnv \<Rightarrow> u64 \<Rightarrow> int \<Rightarrow> part option \<Rightarrow> bool
    \<Rightarrow> ('b, 'v) consensusState \<Rightarrow> ('b, 'v) consensusState go" where
  "addProposalBlockPart env height round part verify cs =
     (if cs_Height cs \<noteq> height \<or> cs_Round cs \<noteq> round then Ret cs
      else case cs_ProposalBlockParts cs of
        None \<Rightarrow> Ret cs
      | Some i \<Rightarrow>
          (case part of None \<Rightarrow> Panic ''nil pointer dereference''
           | Some part \<Rightarrow>
              bindGo (PartSet_AddPart (ce_ext env) (cs_partSets cs ! i) part verify) (\<lambda>(ps, added, err).
                let cs = cs\<lparr>cs_partSets := (cs_partSets cs)[i := ps]\<rparr> in
                if err \<noteq> None \<or> \<not> added \<or> \<not> PartSet_IsComplete ps then Ret cs
                else bindGo (PartSet_GetReader ps) (\<lambda>reader.
                  let cs = decodeProposal env reader cs in
                  if RoundStepPropose \<le> cs_Step cs \<and> cs_Step cs \<le> RoundStepPrevoteWait \<and> isProposalComplete cs
                  then enterPrevote env height (cs_Round cs) cs
                  else if cs_Step cs = RoundStepCommit then tryFinalizeCommit env height cs
                  else Ret cs))))"

section \<open>Aggregates\<close>

datatype aggrErr = InvalidSignature | InvalidTally tallyErr | NoAggregateKey | InvalidAggregate

definition blsVerifySignAggr :: "('b, 'v) consEnv \<Rightarrow> validatorSet \<Rightarrow> 'b signAggr \<Rightarrow> bool \<times> aggrErr option" where
  "blsVerifySignAggr env validators signAggr =
     (case SignAggr_SignAggr (Some signAggr) of
        None \<Rightarrow> (False, Some InvalidSignature)
      | Some signature \<Rightarrow>
          (case ValidatorSet_TalliedVotingPower (ce_ext env) validators (sa_BitArray signAggr) of
             (_, _, _, Some err) \<Rightarrow> (False, Some (InvalidTally err))
           | (_, votesSum, totalVotes, None) \<Rightarrow>
               (let quorum = Loose23MajorThreshold totalVotes (sa_Round signAggr);
                    maj23 = (quorum \<le> votesSum)
                in case ValidatorSet_AggrPubKey (ce_ext env) validators (sa_BitArray signAggr) of
                     None \<Rightarrow> (False, Some NoAggregateKey)
                   | Some aggrPubKey \<Rightarrow>
                       if \<not> VerifyBytes (ce_ext env) aggrPubKey
                              (Vote_SignBytes (ce_ext env) (sa_ChainID signAggr)
                                 (aggregatedVote (sa_BlockID signAggr) (sa_Height signAggr) (sa_Round signAggr)
                                    (sa_Type signAggr))) signature
                       then (False, Some InvalidAggregate)
                       else (maj23, None))))"

datatype signAggrErr = ErrInvalidSignatureAggr | ErrDuplicateSignatureAggr | ErrSignAggrNil

text \<open>A lock from an earlier round is released by prevotes for another block.\<close>

definition releaseLock :: "('b, 'v) consEnv \<Rightarrow> 'b signAggr \<Rightarrow> ('b, 'v) consensusState
    \<Rightarrow> ('b, 'v) consensusState go" where
  "releaseLock env signAggr cs =
     (if \<not> Option.is_none (cs_LockedBlock cs) \<and> cs_LockedRound cs < sa_Round signAggr then
        bindGo (NCBlock_HashesTo (ce_codec env) (blockAt cs (cs_LockedBlock cs)) (bid_Hash (sa_Maj23 signAggr)))
          (\<lambda>same. Ret (if same then cs else emit (FireEvent Unlock) (unlock cs)))
      else Ret cs)"

definition setMaj23SignAggr :: "('b, 'v) consEnv \<Rightarrow> 'b signAggr \<Rightarrow> ('b, 'v) consensusState
    \<Rightarrow> (signAggrErr option \<times> bool \<times> ('b, 'v) consensusState) go" where
  "setMaj23SignAggr env signAggr cs =
     (if sa_Height signAggr \<noteq> cs_Height cs then Ret (None, False, cs)
      else if blsVerifySignAggr env (cs_Validators cs) signAggr \<noteq> (True, None)
      then Ret (Some ErrInvalidSignatureAggr, False, cs)
      else if sa_Type signAggr \<noteq> VoteTypePrevote \<and> sa_Type signAggr \<noteq> VoteTypePrecommit
      then Ret (Some ErrInvalidSignatureAggr, False, cs)
      else
        bindGo (HeightVoteSignAggr_AddSignAggr (cs_VoteSignAggr cs) signAggr) (\<lambda>(voteSignAggr, _).
        let cs = cs\<lparr>cs_VoteSignAggr := voteSignAggr\<rparr> in
        if sa_Round signAggr \<noteq> cs_Round cs then Ret (None, False, cs)
        else if sa_Type signAggr = VoteTypePrevote then
          (if \<not> Option.is_none (cs_PrevoteMaj23SignAggr cs)
           then Ret (Some ErrDuplicateSignatureAggr, False, cs)
           else bindGo (releaseLock env signAggr (cs\<lparr>cs_PrevoteMaj23SignAggr := Some signAggr\<rparr>)) (\<lambda>cs.
             if isProposalComplete cs
             then bindGo (enterPrecommit env (cs_Height cs) (cs_Round cs) cs) (\<lambda>cs. Ret (None, True, cs))
             else Ret (None, False, cs)))
        else
          (if \<not> Option.is_none (cs_PrecommitMaj23SignAggr cs)
           then Ret (Some ErrDuplicateSignatureAggr, False, cs)
           else
             (let cs = cs\<lparr>cs_PrecommitMaj23SignAggr := Some signAggr\<rparr> in
              if isProposalComplete cs
              then bindGo (enterCommit env (cs_Height cs) (cs_Round cs) cs) (\<lambda>cs. Ret (None, True, cs))
              else Ret (None, False, cs)))))"

definition handleSignAggr :: "('b, 'v) consEnv \<Rightarrow> 'b signAggr option \<Rightarrow> ('b, 'v) consensusState
    \<Rightarrow> (signAggrErr option \<times> ('b, 'v) consensusState) go" where
  "handleSignAggr env msg cs =
     (case msg of
        None \<Rightarrow> Ret (Some ErrSignAggrNil, cs)
      | Some signAggr \<Rightarrow>
          if sa_Height signAggr = cs_Height cs
          then bindGo (setMaj23SignAggr env signAggr cs) (\<lambda>(err, _, cs). Ret (err, cs))
          else Ret (None, cs))"

section \<open>Votes\<close>

text \<open>The loop over the votes: the signers, their signatures and the last signed bytes.\<close>

definition collectVote :: "('b, 'v) consEnv \<Rightarrow> blockID \<Rightarrow> vote option \<Rightarrow> 'b \<times> bytes list \<times> bytes
    \<Rightarrow> 'b \<times> bytes list \<times> bytes" where
  "collectVote env maj23 vote acc =
     (case (vote, acc) of (Some v, (bits, sigs, ss)) \<Rightarrow>
          if BlockID_Equals maj23 (vote_BlockID v)
          then (BA_SetIndex (ce_ext env) bits (unat (vote_ValidatorIndex v)) True, sigs @ [vote_Signature v],
                vote_SignBytes v)
          else acc
      | _ \<Rightarrow> acc)"

definition sendMaj23SignAggr :: "('b, 'v) consEnv \<Rightarrow> u8 \<Rightarrow> ('b, 'v) consensusState
    \<Rightarrow> ('b, 'v) consensusState go" where
  "sendMaj23SignAggr env voteType cs =
     (if voteType \<noteq> VoteTypePrevote \<and> voteType \<noteq> VoteTypePrecommit then Ret cs
      else bindGo (HeightVoteSet_getVoteSet (cs_Votes cs) (cs_Round cs) voteType) (\<lambda>voteSet.
        case voteSet of
          None \<Rightarrow> Panic ''nil pointer dereference''
        | Some vs \<Rightarrow>
            (case VoteSet_TwoThirdsMajority voteSet of (maj23, ok) \<Rightarrow>
               if \<not> ok then Ret cs
               else
                 (let numValidators = ValidatorSet_Size (cs_Validators cs);
                      (signBitArray, sigs, ss) = fold (collectVote env maj23) (vset_votes vs)
                        (BA_New (ce_ext env) numValidators, [], [])
                  in case BLSSignatureAggregate (ce_ext env) sigs of
                       None \<Rightarrow> Ret cs
                     | Some signature \<Rightarrow>
                         if BlockID_IsZero maj23 then Ret cs
                         else
                           (let signAggr = (MakeSignAggr (cs_Height cs) (cs_Round cs) voteType (int numValidators)
                                  maj23 (hvs_chainID (cs_Votes cs)) signBitArray (Some signature))
                                  \<lparr>sa_SignBytes := ss\<rparr>
                            in Ret (sendInternalMessage (Maj23SignAggrMessage (Some signAggr))
                                 (emit (FireSignAggr signAggr) cs)))))))"

definition addVote :: "('b, 'v) consEnv \<Rightarrow> vote option \<Rightarrow> string \<Rightarrow> ('b, 'v) consensusState
    \<Rightarrow> (voteErr option \<times> ('b, 'v) consensusState) go" where
  "addVote env msg peerKey cs =
     bindGo (IsProposer env cs) (\<lambda>(isProposer, cs).
       if \<not> isProposer then Ret (None, cs)
       else case msg of None \<Rightarrow> Panic ''nil pointer dereference''
       | Some vote \<Rightarrow>
           if vote_Height vote \<noteq> cs_Height cs \<or> sint (vote_Round vote) \<noteq> cs_Round cs then Ret (None, cs)
           else
             (let type = (if vote_Type vote = VoteTypePrevote then VoteTypePrevote else VoteTypePrecommit) in
              bindGo (HeightVoteSet_getVoteSet (cs_Votes cs) (cs_Round cs) type) (\<lambda>earlier.
                if VoteSet_HasTwoThirdsMajority earlier then Ret (None, cs)
                else bindGo (HeightVoteSet_AddVote (ce_ext env) (cs_Votes cs) vote peerKey)
                  (\<lambda>(votes, added, err).
                    let cs = cs\<lparr>cs_Votes := votes\<rparr> in
                    if added \<and> (vote_Type vote = VoteTypePrevote \<or> vote_Type vote = VoteTypePrecommit)
                    then bindGo (HeightVoteSet_getVoteSet votes (cs_Round cs) (vote_Type vote)) (\<lambda>after.
                      if VoteSet_HasTwoThirdsMajority after
                      then bindGo (sendMaj23SignAggr env (vote_Type vote) cs) (\<lambda>cs. Ret (err, cs))
                      else Ret (err, cs))
                    else Ret (err, cs)))))"

datatype addVoteErr = VoteConflict vote vote | ErrAddingVote

definition tryAddVote :: "('b, 'v) consEnv \<Rightarrow> vote option \<Rightarrow> string \<Rightarrow> ('b, 'v) consensusState
    \<Rightarrow> (addVoteErr option \<times> ('b, 'v) consensusState) go" where
  "tryAddVote env vote peerKey cs =
     bindGo (addVote env vote peerKey cs) (\<lambda>(err, cs).
       Ret (map_option (\<lambda>e. case e of ErrVoteConflictingVotes a b \<Rightarrow> VoteConflict a b | _ \<Rightarrow> ErrAddingVote) err,
            cs))"

section \<open>Messages and timeouts\<close>

definition handleMsg :: "('b, 'v) consEnv \<Rightarrow> 'b msgInfo \<Rightarrow> ('b, 'v) consensusState
    \<Rightarrow> ('b, 'v) consensusState go" where
  "handleMsg env mi cs =
     (case mi_Msg mi of
        ProposalMessage proposal \<Rightarrow> bindGo (defaultSetProposal env proposal cs) (\<lambda>(_, cs). Ret cs)
      | BlockPartMessage height round part \<Rightarrow>
          addProposalBlockPart env height round part (mi_PeerKey mi \<noteq> []) cs
      | Maj23SignAggrMessage signAggr \<Rightarrow> bindGo (handleSignAggr env signAggr cs) (\<lambda>(_, cs). Ret cs)
      | VoteMessage vote \<Rightarrow> bindGo (tryAddVote env vote (mi_PeerKey mi) cs) (\<lambda>(_, cs). Ret cs)
      | OtherMessage \<Rightarrow> Ret cs)"

definition handleTimeout :: "('b, 'v) consEnv \<Rightarrow> timeoutInfo \<Rightarrow> ('b, 'v) consensusState
    \<Rightarrow> ('b, 'v) consensusState go" where
  "handleTimeout env ti cs =
     (if ti_Height ti \<noteq> cs_Height cs \<or> ti_Round ti < cs_Round cs
         \<or> (ti_Round ti = cs_Round cs \<and> ti_Step ti < cs_Step cs) then Ret cs
      else if ti_Step ti = RoundStepNewHeight then enterNewRound env (ti_Height ti) 0 cs
      else if ti_Step ti = RoundStepWaitForMinerBlock
      then enterPropose env (ti_Height ti) (ti_Round ti) (emit (FireEvent TimeoutPropose) cs)
      else if ti_Step ti = RoundStepPropose
      then enterPrevote env (ti_Height ti) (ti_Round ti) (emit (FireEvent TimeoutPropose) cs)
      else if ti_Step ti = RoundStepPrevoteWait
      then enterPrecommit env (ti_Height ti) (ti_Round ti) (emit (FireEvent TimeoutWait) cs)
      else if ti_Step ti = RoundStepPrecommitWait
      then enterNewRound env (ti_Height ti) (ti_Round ti + 1) (emit (FireEvent TimeoutWait) cs)
      else Panic ''Invalid timeout step'')"

section \<open>The start of a height\<close>

definition LoadTendermintExtra ::
    "('b, 'v) consEnv \<Rightarrow> u64 \<Rightarrow> ('b, 'v) tendermintExtra option go" where
  "LoadTendermintExtra env height =
     (case cr_GetBlockByNumber (ce_chain env) height of
        None \<Rightarrow> Ret None
      | Some block \<Rightarrow>
          (case cr_GetHeader (ce_chain env) (Block_Hash (ce_codec env) block) (Block_NumberU64 block) of
             None \<Rightarrow> Panic ''nil pointer dereference''
           | Some header \<Rightarrow>
               Ret (map_option (\<lambda>te. te\<lparr>te_Height := Block_NumberU64 block\<rparr>)
                 (ExtractTendermintExtra (ce_wire env) (ce_codec env) header))))"

definition LoadLastTendermintExtra :: "('b, 'v) consEnv \<Rightarrow> ('b, 'v) tendermintExtra option go" where
  "LoadLastTendermintExtra env =
     (let curHeight = Block_NumberU64 (cr_CurrentBlock (ce_chain env)) in
      if curHeight = 0 then Ret None else LoadTendermintExtra env curHeight)"

definition LoadBlock :: "('b, 'v) consEnv \<Rightarrow> u64 \<Rightarrow> ('b, 'v) ncBlock option" where
  "LoadBlock env height =
     (case cr_GetBlockByNumber (ce_chain env) height of
        None \<Rightarrow> None
      | Some block \<Rightarrow>
          (case cr_GetHeader (ce_chain env) (Block_Hash (ce_codec env) block) (Block_NumberU64 block) of
             None \<Rightarrow> None
           | Some header \<Rightarrow>
               (case ExtractTendermintExtra (ce_wire env) (ce_codec env) header of
                  None \<Rightarrow> None
                | Some te \<Rightarrow> Some \<lparr>nb_Block = block, nb_NTCExtra = Some te, nb_TX3ProofData = [],
                    nb_IntermediateResult = False\<rparr>)))"

definition MakeGenesisState :: "('b, 'v) consEnv \<Rightarrow> ('b, 'v) tendermintExtra" where
  "MakeGenesisState env = zeroExtra\<lparr>te_ChainID := ce_LigoChainId env, te_Time := ce_now env\<rparr>"

text \<open>\<open>cmn.Exit\<close> ends the process. Loading the last extra data a second time gives the same data.\<close>

definition InitState :: "('b, 'v) consEnv \<Rightarrow> epoch \<Rightarrow> ('b, 'v) tendermintExtra go" where
  "InitState env epoch =
     bindGo (LoadLastTendermintExtra env) (\<lambda>last.
       case last of
         Some te \<Rightarrow> Ret te
       | None \<Rightarrow> if te_EpochNumber (MakeGenesisState env) \<noteq> ep_Number epoch
                 then Panic ''InitStateAndEpoch(), initial state error'' else Ret (MakeGenesisState env))"

text \<open>\<open>Initialize\<close>; what \<open>UpdateToState\<close> sets afterwards is left as it is.\<close>

definition Initialize :: "('b, 'v) consensusState \<Rightarrow> ('b, 'v) consensusState" where
  "Initialize cs = cs\<lparr>cs_proposer := None, cs_isProposer := False, cs_ProposerPeerKey := [],
     cs_Proposal := None, cs_ProposalBlock := None, cs_ProposalBlockParts := None,
     cs_LockedRound := -1, cs_LockedBlock := None, cs_LockedBlockParts := None,
     cs_PrevoteMaj23SignAggr := None, cs_PrecommitMaj23SignAggr := None, cs_CommitRound := -1\<rparr>"

text \<open>A block of the miner for an earlier height is dropped.\<close>

definition dropMinerBlock :: "u64 \<Rightarrow> ('b, 'v) consensusState \<Rightarrow> ('b, 'v) consensusState" where
  "dropMinerBlock height cs =
     (case cs_blockFromMiner cs of
        Some b \<Rightarrow> if height \<le> Block_NumberU64 b then cs else cs\<lparr>cs_blockFromMiner := None\<rparr>
      | None \<Rightarrow> cs)"

definition UpdateToState :: "('b, 'v) consEnv \<Rightarrow> ('b, 'v) tendermintExtra \<Rightarrow> ('b, 'v) consensusState
    \<Rightarrow> ('b, 'v) consensusState go" where
  "UpdateToState env state cs =
     (let height = te_Height state + 1;
          cs = dropMinerBlock height ((Initialize cs)\<lparr>cs_Height := height\<rparr>);
          cs = updateRoundStep 0 RoundStepNewHeight cs;
          cs = cs\<lparr>cs_StartTime := TimeoutParams_Commit (ce_timeoutParams env)
                    (if isMainChainId (te_ChainID state) \<or> cs_CommitTime cs = zeroTime then ce_now env
                     else cs_CommitTime cs)\<rparr>
      in bindGo (State_GetValidators state (cs_Epoch cs)) (\<lambda>vals.
         case vals of
           None \<Rightarrow> Panic ''nil pointer dereference''
         | Some (_, validators) \<Rightarrow>
             bindGo (NewHeightVoteSet (ce_ext env) (ce_LigoChainId env) height validators) (\<lambda>votes.
             bindGo (NewHeightVoteSignAggr (ce_LigoChainId env) height validators) (\<lambda>voteSignAggr.
               Ret (newStep (cs\<lparr>cs_Validators := validators, cs_Votes := votes,
                 cs_VoteSignAggr := voteSignAggr, cs_vrfValIndex := -1, cs_pastRoundStates := [],
                 cs_state := state\<rparr>))))))"

definition StartNewHeight :: "('b, 'v) consEnv \<Rightarrow> ('b, 'v) consensusState \<Rightarrow> ('b, 'v) consensusState go" where
  "StartNewHeight env cs =
     bindGo (InitState env (cs_Epoch cs)) (\<lambda>state.
     bindGo (UpdateToState env state cs) (\<lambda>cs.
       Ret (scheduleRound0 env (newStep cs))))"

text \<open>The listeners of \<open>consensus/reactor.go\<close> for blocks of the miner and for inserted blocks.\<close>

definition onRequest :: "('b, 'v) consEnv \<Rightarrow> 'v ligoBlock \<Rightarrow> ('b, 'v) consensusState
    \<Rightarrow> ('b, 'v) consensusState go" where
  "onRequest env block cs =
     (if cs_Height cs \<le> Block_NumberU64 block then
        bindGo (if cs_Height cs + 1 \<le> Block_NumberU64 block then StartNewHeight env cs else Ret cs) (\<lambda>cs.
          Ret (cs\<lparr>cs_blockFromMiner := Some block\<rparr>))
      else Ret cs)"

definition onFinalCommitted :: "('b, 'v) consEnv \<Rightarrow> u64 \<Rightarrow> ('b, 'v) consensusState
    \<Rightarrow> ('b, 'v) consensusState go" where
  "onFinalCommitted env blockNumber cs =
     (if blockNumber = cs_Height cs then StartNewHeight env cs else Ret cs)"

text \<open>\<open>SetEpoch\<close> of \<open>engine.go\<close>.\<close>

definition Backend_SetEpoch :: "epoch \<Rightarrow> ('b, 'v) consensusState \<Rightarrow> ('b, 'v) consensusState" where
  "Backend_SetEpoch ep cs = cs\<lparr>cs_Epoch := ep\<rparr>"

end
