(* ===== verification/Consensus_Frame.thy ===== *)
theory Consensus_Frame
  imports Consensus_Handlers Height_Votes_Theorems
begin

text \<open>
  What the handlers of the consensus leave unchanged. \<open>core\<close> forgets what has no influence on votes
  and commits: the proposer that was looked up, the counter of steps, the effects and the results of
  executed blocks. The effects are read as the votes that were cast and the blocks that were
  committed.
\<close>

section \<open>Effects\<close>

fun castVote :: "('b, 'v) effect \<Rightarrow> vote option" where
  "castVote (FireVote2Proposer v _) = Some v"
| "castVote (SendInternal m) = (case mi_Msg m of VoteMessage v \<Rightarrow> v | _ \<Rightarrow> None)"
| "castVote _ = None"

fun committed :: "('b, 'v) effect \<Rightarrow> ('b, 'v) ncBlock option" where
  "committed (CommitBlock b _) = Some b"
| "committed _ = None"

text \<open>The effects that a handler added.\<close>

definition added :: "('b, 'v) consensusState \<Rightarrow> ('b, 'v) consensusState \<Rightarrow> ('b, 'v) effect list" where
  "added cs cs' = drop (length (cs_out cs)) (cs_out cs')"

definition appends :: "('b, 'v) consensusState \<Rightarrow> ('b, 'v) consensusState \<Rightarrow> bool" where
  "appends cs cs' \<longleftrightarrow> cs_out cs' = cs_out cs @ added cs cs'"

definition votesIn :: "('b, 'v) consensusState \<Rightarrow> ('b, 'v) consensusState \<Rightarrow> vote set" where
  "votesIn cs cs' = {v. Some v \<in> castVote ` set (added cs cs')}"

definition commitsIn :: "('b, 'v) consensusState \<Rightarrow> ('b, 'v) consensusState \<Rightarrow> ('b, 'v) ncBlock set" where
  "commitsIn cs cs' = {b. Some b \<in> committed ` set (added cs cs')}"

lemma appendsI: "cs_out cs' = cs_out cs @ new \<Longrightarrow> appends cs cs'"
  by (simp add: appends_def added_def)

lemma added_eq: "cs_out cs' = cs_out cs @ new \<Longrightarrow> added cs cs' = new"
  by (simp add: added_def)

lemma appends_refl [simp]: "appends cs cs"
  by (simp add: appends_def added_def)

lemma appendsE: "appends a b \<Longrightarrow> \<exists>new. cs_out b = cs_out a @ new"
  unfolding appends_def by blast

lemma added_trans: "appends a b \<Longrightarrow> appends b c \<Longrightarrow> added a c = added a b @ added b c"
  by (auto dest!: appendsE simp: added_def)

lemma appends_trans: "appends a b \<Longrightarrow> appends b c \<Longrightarrow> appends a c"
  by (auto dest!: appendsE intro: appendsI)

lemma votesIn_trans: "appends a b \<Longrightarrow> appends b c \<Longrightarrow> votesIn a c = votesIn a b \<union> votesIn b c"
  unfolding votesIn_def using added_trans [of a b c] by auto

lemma commitsIn_trans: "appends a b \<Longrightarrow> appends b c \<Longrightarrow> commitsIn a c = commitsIn a b \<union> commitsIn b c"
  unfolding commitsIn_def using added_trans [of a b c] by auto

text \<open>A step that neither casts a vote nor commits.\<close>

definition silent :: "('b, 'v) consensusState \<Rightarrow> ('b, 'v) consensusState \<Rightarrow> bool" where
  "silent cs cs' \<longleftrightarrow> appends cs cs' \<and> votesIn cs cs' = {} \<and> commitsIn cs cs' = {}"

lemma silent_refl [simp]: "silent cs cs"
  by (simp add: silent_def votesIn_def commitsIn_def added_def)

lemma silent_trans: "silent a b \<Longrightarrow> silent b c \<Longrightarrow> silent a c"
  unfolding silent_def using votesIn_trans [of a b c] commitsIn_trans [of a b c] appends_trans [of a b c]
  by simp

lemma silent_same_out: "cs_out cs' = cs_out cs \<Longrightarrow> silent cs cs'"
  by (simp add: silent_def votesIn_def commitsIn_def added_def appends_def)

lemma silent_emit:
  "cs_out cs' = cs_out cs \<Longrightarrow> castVote e = None \<Longrightarrow> committed e = None \<Longrightarrow> silent cs (emit e cs')"
  by (auto simp: silent_def votesIn_def commitsIn_def added_def appends_def emit_def)

section \<open>The core of a state\<close>

definition unexecuted :: "('b, 'v) ncBlock \<Rightarrow> ('b, 'v) ncBlock" where
  "unexecuted b = b\<lparr>nb_IntermediateResult := False\<rparr>"

definition core :: "('b, 'v) consensusState \<Rightarrow> ('b, 'v) consensusState" where
  "core cs = cs\<lparr>cs_out := [], cs_proposer := None, cs_isProposer := False, cs_vrfValIndex := 0,
     cs_nSteps := 0, cs_blocks := map unexecuted (cs_blocks cs)\<rparr>"

lemma coreD:
  assumes "core cs' = core cs"
  shows "cs_Height cs' = cs_Height cs" "cs_Round cs' = cs_Round cs" "cs_Step cs' = cs_Step cs"
    "cs_Validators cs' = cs_Validators cs" "cs_Proposal cs' = cs_Proposal cs"
    "cs_ProposalBlock cs' = cs_ProposalBlock cs" "cs_ProposalBlockParts cs' = cs_ProposalBlockParts cs"
    "cs_ProposerPeerKey cs' = cs_ProposerPeerKey cs"
    "cs_LockedRound cs' = cs_LockedRound cs" "cs_LockedBlock cs' = cs_LockedBlock cs"
    "cs_LockedBlockParts cs' = cs_LockedBlockParts cs" "cs_Votes cs' = cs_Votes cs"
    "cs_VoteSignAggr cs' = cs_VoteSignAggr cs" "cs_CommitRound cs' = cs_CommitRound cs"
    "cs_PrevoteMaj23SignAggr cs' = cs_PrevoteMaj23SignAggr cs"
    "cs_PrecommitMaj23SignAggr cs' = cs_PrecommitMaj23SignAggr cs"
    "cs_privValidator cs' = cs_privValidator cs" "cs_state cs' = cs_state cs"
    "cs_pastRoundStates cs' = cs_pastRoundStates cs" "cs_partSets cs' = cs_partSets cs"
    "length (cs_blocks cs') = length (cs_blocks cs)"
    "map unexecuted (cs_blocks cs') = map unexecuted (cs_blocks cs)"
    "cs_Epoch cs' = cs_Epoch cs" "cs_blockFromMiner cs' = cs_blockFromMiner cs"
    "cs_StartTime cs' = cs_StartTime cs" "cs_CommitTime cs' = cs_CommitTime cs"
  using arg_cong [OF assms, of cs_Height]
    arg_cong [OF assms, of cs_Round]
    arg_cong [OF assms, of cs_Step]
    arg_cong [OF assms, of cs_Validators]
    arg_cong [OF assms, of cs_Proposal]
    arg_cong [OF assms, of cs_ProposalBlock]
    arg_cong [OF assms, of cs_ProposalBlockParts]
    arg_cong [OF assms, of cs_ProposerPeerKey]
    arg_cong [OF assms, of cs_LockedRound]
    arg_cong [OF assms, of cs_LockedBlock]
    arg_cong [OF assms, of cs_LockedBlockParts]
    arg_cong [OF assms, of cs_Votes]
    arg_cong [OF assms, of cs_VoteSignAggr]
    arg_cong [OF assms, of cs_CommitRound]
    arg_cong [OF assms, of cs_PrevoteMaj23SignAggr]
    arg_cong [OF assms, of cs_PrecommitMaj23SignAggr]
    arg_cong [OF assms, of cs_privValidator]
    arg_cong [OF assms, of cs_state]
    arg_cong [OF assms, of cs_pastRoundStates]
    arg_cong [OF assms, of cs_partSets]
    arg_cong [OF assms, of cs_Epoch]
    arg_cong [OF assms, of cs_blockFromMiner]
    arg_cong [OF assms, of cs_StartTime]
    arg_cong [OF assms, of cs_CommitTime]
    arg_cong [OF assms, of cs_blocks]
    map_eq_imp_length_eq [of unexecuted "cs_blocks cs'" unexecuted "cs_blocks cs"]
  by (simp_all add: core_def)

text \<open>The body also forgets the position in the height, the reported flags and the next epoch.\<close>

definition body :: "('b, 'v) consensusState \<Rightarrow> ('b, 'v) consensusState" where
  "body cs = core (cs\<lparr>cs_Round := 0, cs_Step := 0,
     cs_state := (cs_state cs)\<lparr>te_NeedToSave := False, te_NeedToBroadcast := False\<rparr>,
     cs_Epoch := Epoch (ep_fields (cs_Epoch cs)) None None None None\<rparr>)"

lemma core_body: "core cs' = core cs \<Longrightarrow> body cs' = body cs"
proof -
  assume c: "core cs' = core cs"
  have "body x = (core x)\<lparr>cs_Round := 0, cs_Step := 0,
     cs_state := (cs_state (core x))\<lparr>te_NeedToSave := False, te_NeedToBroadcast := False\<rparr>,
     cs_Epoch := Epoch (ep_fields (cs_Epoch (core x))) None None None None\<rparr>" for x :: "('a, 'b) consensusState"
    by (simp add: body_def core_def)
  with c show ?thesis by simp
qed

lemma bodyD:
  assumes "body cs' = body cs"
  shows "cs_Height cs' = cs_Height cs"
    "cs_Validators cs' = cs_Validators cs" "cs_Proposal cs' = cs_Proposal cs"
    "cs_ProposalBlock cs' = cs_ProposalBlock cs" "cs_ProposalBlockParts cs' = cs_ProposalBlockParts cs"
    "cs_LockedRound cs' = cs_LockedRound cs" "cs_LockedBlock cs' = cs_LockedBlock cs"
    "cs_LockedBlockParts cs' = cs_LockedBlockParts cs" "cs_Votes cs' = cs_Votes cs"
    "cs_VoteSignAggr cs' = cs_VoteSignAggr cs" "cs_CommitRound cs' = cs_CommitRound cs"
    "cs_PrevoteMaj23SignAggr cs' = cs_PrevoteMaj23SignAggr cs"
    "cs_PrecommitMaj23SignAggr cs' = cs_PrecommitMaj23SignAggr cs"
    "cs_privValidator cs' = cs_privValidator cs"
    "te_Height (cs_state cs') = te_Height (cs_state cs)" "te_ChainID (cs_state cs') = te_ChainID (cs_state cs)"
    "cs_pastRoundStates cs' = cs_pastRoundStates cs" "cs_partSets cs' = cs_partSets cs"
    "length (cs_blocks cs') = length (cs_blocks cs)"
    "map unexecuted (cs_blocks cs') = map unexecuted (cs_blocks cs)"
    "ep_fields (cs_Epoch cs') = ep_fields (cs_Epoch cs)"
proof -
  note c = coreD [OF assms [unfolded body_def]]
  show "te_Height (cs_state cs') = te_Height (cs_state cs)" "te_ChainID (cs_state cs') = te_ChainID (cs_state cs)"
    using arg_cong [OF c(18), of te_Height] arg_cong [OF c(18), of te_ChainID] by simp_all
qed (insert coreD [OF assms [unfolded body_def]], simp_all)

section \<open>The proposer and votes\<close>

lemma proposerByRound_frame:
  assumes "proposerByRound env round cs = Ret (p, cs')"
  shows "core cs' = core cs \<and> cs_out cs' = cs_out cs"
  using assms
  by (auto simp: proposerByRound_def Let_def bindGo_Ret_iff core_def split: if_splits prod.splits)

lemma GetProposer_frame:
  assumes "GetProposer env cs = Ret (v, cs')"
  shows "core cs' = core cs \<and> cs_out cs' = cs_out cs"
proof -
  have u: "core x' = core x \<and> cs_out x' = cs_out x" if "updateProposer env x = Ret x'" for x x'
    using that proposerByRound_frame [of env "cs_Round x" x]
    by (auto simp: updateProposer_def bindGo_Ret_iff core_def split: option.splits prod.splits)
  show ?thesis using assms u [of cs]
    by (auto simp: GetProposer_def bindGo_Ret_iff split: option.splits if_splits)
qed

lemma IsProposer_frame:
  assumes "IsProposer env cs = Ret (b, cs')"
  shows "core cs' = core cs" "cs_out cs' = cs_out cs"
  using assms GetProposer_frame [of env cs]
  by (auto simp: IsProposer_def bindGo_Ret_iff split: prod.splits)

text \<open>The votes of a step are for one block, of one type and at the position of the state.\<close>

definition votesFor :: "('b, 'v) consensusState \<Rightarrow> ('b, 'v) consensusState \<Rightarrow> u8 \<Rightarrow> bytes \<Rightarrow> partSetHeader \<Rightarrow> bool" where
  "votesFor cs cs' type hash header \<longleftrightarrow> appends cs cs' \<and> commitsIn cs cs' = {} \<and>
     (\<forall>v\<in>votesIn cs cs'. vote_Type v = type \<and> vote_Height v = cs_Height cs \<and>
        vote_Round v = of_int (cs_Round cs) \<and> vote_BlockID v = \<lparr>bid_Hash = hash, bid_PartsHeader = header\<rparr>)"

lemma signVote_fields [simp]:
  "vote_Type (signVote env pv type hash header cs) = type"
  "vote_Height (signVote env pv type hash header cs) = cs_Height cs"
  "vote_Round (signVote env pv type hash header cs) = of_int (cs_Round cs)"
  "vote_BlockID (signVote env pv type hash header cs) = \<lparr>bid_Hash = hash, bid_PartsHeader = header\<rparr>"
  by (simp_all add: signVote_def PrivValidator_SignVote_def Let_def split: prod.splits)

lemma emit_out [simp]: "cs_out (emit e cs) = cs_out cs @ [e]"
  by (simp add: emit_def)

lemma core_emit [simp]: "core (emit e cs) = core cs"
  by (simp add: core_def emit_def)

lemma signAddVote_cases:
  assumes "signAddVote env type hash header cs = Ret cs'"
  obtains "cs' = cs"
  | b where "IsProposer env cs = Ret (b, cs')"
  | b x pv e where "IsProposer env cs = Ret (b, x)" "cs' = emit e x" "committed e = None"
      "castVote e = Some (signVote env pv type hash header cs)"
  using assms
  by (fastforce simp: signAddVote_def bindGo_Ret_iff sendInternalMessage_def Let_def
      split: option.splits if_splits prod.splits)

lemma signAddVote_frame:
  assumes "signAddVote env type hash header cs = Ret cs'"
  shows "core cs' = core cs" "votesFor cs cs' type hash header"
proof -
  have "core cs' = core cs \<and> votesFor cs cs' type hash header"
    using assms
  proof (cases rule: signAddVote_cases)
    case 1
    then show ?thesis by (simp add: votesFor_def commitsIn_def votesIn_def added_def)
  next
    case (2 b)
    then show ?thesis using IsProposer_frame [OF 2]
      by (simp add: votesFor_def appends_def commitsIn_def votesIn_def added_def)
  next
    case (3 b x pv e)
    then show ?thesis using IsProposer_frame [OF 3(1)]
      by (auto simp: votesFor_def appends_def commitsIn_def votesIn_def added_def)
  qed
  then show "core cs' = core cs" "votesFor cs cs' type hash header" by auto
qed

text \<open>Quiet: the position stays, nothing is voted or committed, and the body stays.\<close>

definition quiet :: "('b, 'v) consensusState \<Rightarrow> ('b, 'v) consensusState \<Rightarrow> bool" where
  "quiet cs cs' \<longleftrightarrow> body cs' = body cs \<and> silent cs cs' \<and> cs_Round cs' = cs_Round cs \<and> cs_Step cs' = cs_Step cs"

lemma quiet_refl [simp]: "quiet cs cs"
  by (simp add: quiet_def)

lemma quiet_trans: "quiet a b \<Longrightarrow> quiet b c \<Longrightarrow> quiet a c"
  unfolding quiet_def using silent_trans [of a b c] by simp

lemma quiet_core: "core cs' = core cs \<Longrightarrow> cs_out cs' = cs_out cs \<Longrightarrow> quiet cs cs'"
  unfolding quiet_def using core_body [of cs' cs] coreD(2,3) [of cs' cs] silent_same_out [of cs' cs] by simp

lemma quiet_emit: "castVote e = None \<Longrightarrow> committed e = None \<Longrightarrow> quiet cs (emit e cs)"
  unfolding quiet_def using core_body [OF core_emit, of e cs] coreD(2,3) [OF core_emit, of e cs]
    silent_emit [of cs cs e] by simp

lemma body_emit [simp]: "body (emit e cs) = body cs"
  by (rule core_body) simp

lemma IsProposer_quiet: "IsProposer env cs = Ret (b, cs') \<Longrightarrow> quiet cs cs'"
  using IsProposer_frame [of env cs b cs'] quiet_core [of cs' cs] by simp

lemma reportLastBlock_quiet:
  assumes "reportLastBlock env needed report done cs = Ret cs'"
    "\<And>b. castVote (report b) = None" "\<And>b. committed (report b) = None"
    "\<And>x. (done x)\<lparr>te_NeedToSave := False, te_NeedToBroadcast := False\<rparr>
        = x\<lparr>te_NeedToSave := False, te_NeedToBroadcast := False\<rparr>"
  shows "quiet cs cs'"
proof -
  have e: "quiet x (emit (report b) x\<lparr>cs_state := done (cs_state x)\<rparr>)" for b x
  proof -
    have "body (emit (report b) x\<lparr>cs_state := done (cs_state x)\<rparr>) = body x"
      by (simp add: body_def core_def emit_def assms(4))
    moreover have "silent x (emit (report b) x\<lparr>cs_state := done (cs_state x)\<rparr>)"
      using assms(2,3) by (auto simp: silent_def votesIn_def commitsIn_def added_def appends_def emit_def)
    ultimately show ?thesis by (simp add: quiet_def emit_def)
  qed
  show ?thesis
  proof (cases "needed \<and> \<not> isMainChainId (te_ChainID (cs_state cs)) \<and> \<not> Option.is_none (cs_privValidator cs)")
    case True
    with assms(1) obtain b x where p: "IsProposer env cs = Ret (b, x)"
      and c: "cs' = (if b then emit (report (cr_GetBlockByNumber (ce_chain env) (te_Height (cs_state x)))) x
                    \<lparr>cs_state := done (cs_state x)\<rparr> else x)"
      by (auto simp: reportLastBlock_def bindGo_Ret_iff split: prod.splits)
    show ?thesis using quiet_trans [OF IsProposer_quiet [OF p] e] IsProposer_quiet [OF p] c
      by (cases b) simp_all
  qed (use assms(1) in \<open>auto simp: reportLastBlock_def\<close>)
qed

lemma foldGo_quiet:
  assumes "foldGo f xs cs = Ret cs'" "\<And>x a b. f x a = Ret b \<Longrightarrow> quiet a b"
  shows "quiet cs cs'"
  using assms(1)
proof (induction xs arbitrary: cs)
  case (Cons x xs)
  then obtain y where y: "f x cs = Ret y" "foldGo f xs y = Ret cs'" by (auto simp: bindGo_Ret_iff)
  show ?case using quiet_trans [OF assms(2) [OF y(1)] Cons.IH [OF y(2)]] .
qed simp

lemma sendParts_quiet: "sendParts parts cs = Ret cs' \<Longrightarrow> quiet cs cs'"
  unfolding sendParts_def
  by (erule foldGo_quiet) (auto simp: bindGo_Ret_iff sendInternalMessage_def quiet_emit split: option.splits)

lemma GetNextEpoch_fields: "ep_fields (GetNextEpoch w db e) = ep_fields e"
  by (cases e) (auto simp: GetNextEpoch_def Let_def split: option.splits)

lemma epoch_quiet:
  assumes "ep_fields e = ep_fields (cs_Epoch cs)"
  shows "quiet cs (cs\<lparr>cs_Epoch := e\<rparr>)"
  using assms silent_same_out [of "cs\<lparr>cs_Epoch := e\<rparr>" cs] by (simp add: quiet_def body_def core_def)

lemma proposedEpochBytes_quiet: "proposedEpochBytes env cs = Ret (b, cs') \<Longrightarrow> quiet cs cs'"
  by (auto simp: proposedEpochBytes_def Let_def bindGo_Ret_iff epoch_quiet GetNextEpoch_fields
      split: if_splits option.splits prod.splits)

lemma createProposalBlock_quiet: "createProposalBlock env cs = Ret (b, cs') \<Longrightarrow> quiet cs cs'"
  using proposedEpochBytes_quiet [of env cs]
  by (auto simp: createProposalBlock_def bindGo_Ret_iff split: if_splits option.splits prod.splits)

lemma defaultDecideProposal_quiet:
  assumes "defaultDecideProposal env height round cs = Ret cs'"
  shows "quiet cs cs'"
proof -
  obtain made x where m: "(if \<not> Option.is_none (cs_LockedBlock cs)
             then Ret (Some (blockAt cs (cs_LockedBlock cs), partsAt cs (cs_LockedBlockParts cs)), cs)
             else bindGo (createProposalBlock env cs) (\<lambda>(made, cs).
               Ret (map_option (\<lambda>(b, ps). (Some b, Some ps)) made, cs))) = Ret (made, x)"
    and r: "x = cs' \<or> (\<exists>ps msg. sendParts ps (sendInternalMessage msg x) = Ret cs' \<and> castVote (SendInternal \<lparr>mi_Msg = msg, mi_PeerKey = []\<rparr> :: ('a, 'b) effect) = None)"
    using assms by (fastforce simp: defaultDecideProposal_def bindGo_Ret_iff Let_def
        split: option.splits prod.splits if_splits)
  have x: "quiet cs x" using m createProposalBlock_quiet [of env cs]
    by (auto simp: bindGo_Ret_iff split: if_splits prod.splits)
  from r show ?thesis
  proof (elim disjE exE conjE)
    fix ps msg
    assume s: "sendParts ps (sendInternalMessage msg x) = Ret cs'"
      and n: "castVote (SendInternal \<lparr>mi_Msg = msg, mi_PeerKey = []\<rparr> :: ('a, 'b) effect) = None"
    have "quiet x (sendInternalMessage msg x)" using n unfolding sendInternalMessage_def
      by (intro quiet_emit) simp_all
    from quiet_trans [OF quiet_trans [OF x this] sendParts_quiet [OF s]] show ?thesis .
  qed (use x in simp)
qed

section \<open>Proposing and prevoting\<close>

text \<open>The position in a height only moves forward.\<close>

definition later :: "('b, 'v) consensusState \<Rightarrow> ('b, 'v) consensusState \<Rightarrow> bool" where
  "later cs cs' \<longleftrightarrow> cs_Round cs < cs_Round cs' \<or> (cs_Round cs = cs_Round cs' \<and> cs_Step cs \<le> cs_Step cs')"

lemma later_refl [simp]: "later cs cs"
  by (simp add: later_def)

lemma later_trans: "later a b \<Longrightarrow> later b c \<Longrightarrow> later a c"
  by (auto simp: later_def)

definition validStep :: "('b, 'v) consensusState \<Rightarrow> bool" where
  "validStep cs \<longleftrightarrow> RoundStepNewHeight \<le> cs_Step cs \<and> cs_Step cs \<le> RoundStepCommit"

text \<open>A prevote for the locked block, or any prevote if no block is locked.\<close>

definition prevoteOk :: "('b, 'v) codec \<Rightarrow> ('b, 'v) consensusState \<Rightarrow> vote \<Rightarrow> bool" where
  "prevoteOk c cs v \<longleftrightarrow> vote_Type v = VoteTypePrevote \<and> vote_Height v = cs_Height cs \<and>
     (\<forall>p. cs_LockedBlock cs = Some p \<longrightarrow>
        NCBlock_Hash c (Some (cs_blocks cs ! p)) = Ret (bid_Hash (vote_BlockID v)) \<and>
        bid_PartsHeader (vote_BlockID v) = PartSet_Header (partsAt cs (cs_LockedBlockParts cs)))"

definition phase :: "('b, 'v) codec \<Rightarrow> ('b, 'v) consensusState \<Rightarrow> ('b, 'v) consensusState \<Rightarrow> bool" where
  "phase c cs cs' \<longleftrightarrow> body cs' = body cs \<and> appends cs cs' \<and> commitsIn cs cs' = {} \<and> later cs cs' \<and>
     (validStep cs \<longrightarrow> validStep cs') \<and>
     (cs_Step cs' = RoundStepNewHeight \<longrightarrow> cs_Step cs = RoundStepNewHeight \<and> cs_Round cs' = cs_Round cs) \<and>
     (\<forall>v\<in>votesIn cs cs'. prevoteOk c cs v)"

lemma nth_beyond: "length xs \<le> n \<Longrightarrow> xs ! n = [] ! (n - length xs)"
  by (induction xs arbitrary: n) (auto simp: nth_Cons' not_less_eq_eq)

lemma map_eq_nth:
  assumes "map f xs = map f ys" "\<And>x y. f x = f y \<Longrightarrow> g x = g y"
  shows "g (xs ! i) = g (ys ! i)"
proof (cases "i < length xs")
  case True
  have "f (xs ! i) = f (ys ! i)"
    using True arg_cong [OF assms(1), of "\<lambda>l. l ! i"] map_eq_imp_length_eq [OF assms(1)] by simp
  then show ?thesis by (rule assms(2))
next
  case False
  then show ?thesis using nth_beyond [of xs i] nth_beyond [of ys i] map_eq_imp_length_eq [OF assms(1)] by simp
qed

lemma unexecuted_extra: "unexecuted a = unexecuted b \<Longrightarrow> nb_NTCExtra a = nb_NTCExtra b"
  unfolding unexecuted_def by (metis ncBlock.select_convs(2) ncBlock.surjective ncBlock.update_convs(4))

lemma block_hash:
  assumes "map unexecuted (cs_blocks cs') = map unexecuted (cs_blocks cs)"
  shows "NCBlock_Hash c (Some (cs_blocks cs' ! p)) = NCBlock_Hash c (Some (cs_blocks cs ! p))"
  using map_eq_nth [where g = nb_NTCExtra and i = p, OF assms unexecuted_extra] by (simp add: NCBlock_Hash_def)

lemma prevoteOk_body: "body cs' = body cs \<Longrightarrow> prevoteOk c cs' v = prevoteOk c cs v"
  using bodyD [of cs' cs] block_hash [of cs' cs c] by (simp add: prevoteOk_def partsAt_def)

lemma phase_refl [simp]: "phase c cs cs"
  using silent_refl [of cs, unfolded silent_def] by (simp add: phase_def)

lemma phase_trans: "phase c x y \<Longrightarrow> phase c y z \<Longrightarrow> phase c x z"
  unfolding phase_def
  using appends_trans [of x y z] votesIn_trans [of x y z] commitsIn_trans [of x y z] later_trans [of x y z]
    prevoteOk_body [of y x c]
  by auto

lemma quiet_phase: "quiet cs cs' \<Longrightarrow> phase c cs cs'"
  by (auto simp: quiet_def phase_def silent_def later_def validStep_def)

text \<open>Moving to a later step.\<close>

lemma move_phase:
  assumes "cs_Round cs < round \<or> (cs_Round cs = round \<and> cs_Step cs \<le> step)"
    "RoundStepNewHeight < step" "step \<le> RoundStepCommit"
  shows "phase c cs (updateRoundStep round step cs)"
  using assms silent_same_out [of "updateRoundStep round step cs" cs]
  by (auto simp: phase_def silent_def later_def validStep_def updateRoundStep_def body_def core_def)

lemma newStep_quiet: "quiet cs (newStep cs)"
proof -
  have "quiet cs (cs\<lparr>cs_nSteps := cs_nSteps cs + 1\<rparr>)" by (rule quiet_core) (simp_all add: core_def)
  then show ?thesis unfolding newStep_def
    using quiet_trans [OF _ quiet_emit [of "FireEvent NewRoundStep"]] by simp
qed

lemma schedule_quiet: "quiet cs (scheduleTimeout d h r s cs)"
  unfolding scheduleTimeout_def by (rule quiet_emit) simp_all

lemma enterPrevoteWait_phase: "phase c cs (enterPrevoteWait env height round cs)"
proof (cases "cs_Height cs \<noteq> height \<or> round < cs_Round cs
         \<or> (cs_Round cs = round \<and> RoundStepPrevoteWait \<le> cs_Step cs)")
  case False
  let ?s = "scheduleTimeout (TimeoutParams_Prevote (ce_timeoutParams env) round) height round
                RoundStepPrevoteWait cs"
  have s: "quiet cs ?s" by (rule schedule_quiet)
  then have "phase c ?s (updateRoundStep round RoundStepPrevoteWait ?s)"
    using False by (intro move_phase) (auto simp: quiet_def roundSteps)
  from phase_trans [OF phase_trans [OF quiet_phase [OF s] this] quiet_phase [OF newStep_quiet]]
  show ?thesis using False by (simp add: enterPrevoteWait_def)
qed (auto simp: enterPrevoteWait_def)

lemma signAddVote_phase:
  assumes "signAddVote env VoteTypePrevote hash header cs = Ret cs'"
    "\<And>p. cs_LockedBlock cs = Some p \<Longrightarrow> NCBlock_Hash c (Some (cs_blocks cs ! p)) = Ret hash \<and>
        header = PartSet_Header (partsAt cs (cs_LockedBlockParts cs))"
  shows "phase c cs cs'"
  using signAddVote_frame [OF assms(1)] core_body [of cs' cs] coreD(2,3) [of cs' cs] assms(2)
  by (auto simp: phase_def votesFor_def prevoteOk_def later_def validStep_def)

lemma executeProposal_quiet:
  assumes "executeProposal env p cs = Ret (b, cs')"
  shows "quiet cs cs'"
proof -
  have u: "quiet x (x\<lparr>cs_blocks := (cs_blocks x)[p := (cs_blocks x ! p)\<lparr>nb_IntermediateResult := True\<rparr>]\<rparr>)"
    for x :: "('a, 'b) consensusState"
  proof (rule quiet_core)
    have "unexecuted ((cs_blocks x ! p)\<lparr>nb_IntermediateResult := True\<rparr>) = unexecuted (cs_blocks x ! p)"
      by (simp add: unexecuted_def)
    then have "map unexecuted ((cs_blocks x)[p := (cs_blocks x ! p)\<lparr>nb_IntermediateResult := True\<rparr>])
        = map unexecuted (cs_blocks x)"
      by (metis list_update_id map_update)
    then show "core (x\<lparr>cs_blocks := (cs_blocks x)[p := (cs_blocks x ! p)\<lparr>nb_IntermediateResult := True\<rparr>]\<rparr>) = core x"
      by (simp add: core_def)
  qed simp
  obtain i x where p: "IsProposer env cs = Ret (i, x)"
    and r: "cs' = x \<or> cs' = x\<lparr>cs_blocks := (cs_blocks x)[p := (cs_blocks x ! p)\<lparr>nb_IntermediateResult := True\<rparr>]\<rparr>"
    using assms by (auto simp: executeProposal_def bindGo_Ret_iff split: if_splits option.splits prod.splits)
  from r show ?thesis using quiet_trans [OF IsProposer_quiet [OF p] u] IsProposer_quiet [OF p] by auto
qed

lemma acceptProposal_quiet: "acceptProposal env p cs = Ret (b, cs') \<Longrightarrow> quiet cs cs'"
  using executeProposal_quiet [of env p cs]
  by (auto simp: acceptProposal_def bindGo_Ret_iff split: if_splits prod.splits)

lemma defaultDoPrevote_cases:
  assumes "defaultDoPrevote env cs = Ret cs'"
  obtains x hash header where "quiet cs x" "signAddVote env VoteTypePrevote hash header x = Ret cs'"
    "\<And>p. cs_LockedBlock x = Some p \<Longrightarrow> NCBlock_Hash (ce_codec env) (Some (cs_blocks x ! p)) = Ret hash \<and>
        header = PartSet_Header (partsAt x (cs_LockedBlockParts x))"
proof (cases "cs_LockedBlock cs")
  case (Some l)
  with assms show ?thesis
    by (auto simp: defaultDoPrevote_def bindGo_Ret_iff blockAt_def intro!: that [OF quiet_refl])
next
  case l: None
  show ?thesis
  proof (cases "cs_ProposalBlock cs")
    case None
    then show ?thesis using assms l by (auto simp: defaultDoPrevote_def intro!: that [OF quiet_refl])
  next
    case (Some p)
    with assms l obtain b x hash header where x: "acceptProposal env p cs = Ret (b, x)"
      and s: "signAddVote env VoteTypePrevote hash header x = Ret cs'"
      by (auto simp: defaultDoPrevote_def bindGo_Ret_iff split: if_splits prod.splits)
    have q: "quiet cs x" using acceptProposal_quiet [OF x] .
    then have "cs_LockedBlock x = None" using l bodyD(7) [of x cs] by (simp add: quiet_def)
    then show ?thesis using that [OF q s] by simp
  qed
qed

lemma defaultDoPrevote_phase:
  assumes "defaultDoPrevote env cs = Ret cs'"
  shows "phase (ce_codec env) cs cs'" "cs_Round cs' = cs_Round cs" "cs_Step cs' = cs_Step cs"
proof -
  from assms obtain x hash header where x: "quiet cs x"
    and s: "signAddVote env VoteTypePrevote hash header x = Ret cs'"
    and l: "\<And>p. cs_LockedBlock x = Some p \<Longrightarrow> NCBlock_Hash (ce_codec env) (Some (cs_blocks x ! p)) = Ret hash \<and>
        header = PartSet_Header (partsAt x (cs_LockedBlockParts x))"
    by (rule defaultDoPrevote_cases) blast
  show "phase (ce_codec env) cs cs'"
    using phase_trans [OF quiet_phase [OF x] signAddVote_phase [OF s l]] .
  show "cs_Round cs' = cs_Round cs" "cs_Step cs' = cs_Step cs"
    using x coreD(2,3) [OF signAddVote_frame(1) [OF s]] by (simp_all add: quiet_def)
qed

lemma enterPrevote_phase:
  assumes "enterPrevote env height round cs = Ret cs'"
  shows "phase (ce_codec env) cs cs'"
proof (cases "cs_Height cs \<noteq> height \<or> round < cs_Round cs
         \<or> (cs_Round cs = round \<and> RoundStepPrevoteWait < cs_Step cs)")
  case False
  let ?m = "\<lambda>x. if cs_Step x = RoundStepPropose then newStep (updateRoundStep round RoundStepPrevote x) else x"
  from False assms obtain x where
    x: "(if isProposalComplete cs then defaultDoPrevote env cs else Ret cs) = Ret x"
    and c: "cs' = enterPrevoteWait env height round (?m x)"
    by (auto simp: enterPrevote_def bindGo_Ret_iff)
  have p: "phase (ce_codec env) cs x \<and> cs_Round x = cs_Round cs \<and> cs_Step x = cs_Step cs"
    using x defaultDoPrevote_phase [of env cs x]
    by (auto split: if_splits)
  have "phase (ce_codec env) x (?m x)"
  proof (cases "cs_Step x = RoundStepPropose")
    case True
    then have "phase (ce_codec env) x (updateRoundStep round RoundStepPrevote x)"
      using p False by (intro move_phase) (auto simp: roundSteps)
    with phase_trans [OF this quiet_phase [OF newStep_quiet]] True show ?thesis by simp
  qed simp
  from phase_trans [OF phase_trans [OF conjunct1 [OF p] this] enterPrevoteWait_phase] c show ?thesis by simp
qed (use assms in \<open>auto simp: enterPrevote_def\<close>)

lemma enterPropose_phase:
  assumes "enterPropose env height round cs = Ret cs'"
  shows "phase (ce_codec env) cs cs'"
proof (cases "cs_Height cs \<noteq> height \<or> round < cs_Round cs
         \<or> (cs_Round cs = round \<and> RoundStepPropose \<le> cs_Step cs)")
  case False
  let ?s = "scheduleTimeout (TimeoutParams_Propose (ce_timeoutParams env) round) height round RoundStepPropose"
  let ?m = "\<lambda>z. newStep (updateRoundStep round RoundStepPropose z)"
  from False assms obtain a b z where
    a: "reportLastBlock env (te_NeedToSave (cs_state cs)) SaveBlockToMainChain
                  (te_NeedToSave_update (\<lambda>_. False)) cs = Ret a"
    and b: "reportLastBlock env (te_NeedToBroadcast (cs_state a)) BroadcastTX3ProofData
                  (te_NeedToBroadcast_update (\<lambda>_. False)) a = Ret b"
    and z: "(if Option.is_none (cs_privValidator (?s b)) then Ret (?s b)
                else bindGo (IsProposer env (?s b)) (\<lambda>(isProposer, cs).
                  if \<not> isProposer then Ret cs else defaultDecideProposal env height round cs)) = Ret z"
    and c: "(if isProposalComplete (?m z) then enterPrevote env height (cs_Round (?m z)) (?m z) else Ret (?m z)) = Ret cs'"
    unfolding enterPropose_def Let_def bindGo_Ret_iff if_not_P [OF False] by blast
  have "quiet cs a" by (rule reportLastBlock_quiet [OF a]) simp_all
  moreover have "quiet a b" by (rule reportLastBlock_quiet [OF b]) simp_all
  moreover have "quiet (?s b) z"
    using z quiet_trans [OF IsProposer_quiet [of env "?s b"] defaultDecideProposal_quiet [of env height round]]
      IsProposer_quiet [of env "?s b"]
    by (auto simp: bindGo_Ret_iff split: if_splits prod.splits)
  ultimately have q: "quiet cs z"
    using quiet_trans [OF quiet_trans [OF quiet_trans [of cs a b] schedule_quiet [of b]]] by simp
  then have "phase (ce_codec env) z (updateRoundStep round RoundStepPropose z)"
    using False by (intro move_phase) (auto simp: roundSteps quiet_def)
  from phase_trans [OF phase_trans [OF quiet_phase [OF q] this] quiet_phase [OF newStep_quiet]]
  have m: "phase (ce_codec env) cs (?m z)" .
  show ?thesis
    using c phase_trans [OF m enterPrevote_phase [of env height "cs_Round (?m z)" "?m z" cs']] m
    by (auto split: if_splits)
qed (use assms in \<open>auto simp: enterPropose_def\<close>)

lemma proposeOrWait_phase:
  assumes "proposeOrWait env height round cs = Ret cs'"
  shows "phase (ce_codec env) cs cs'"
proof -
  obtain b x where x: "IsProposer env cs = Ret (b, x)"
    and c: "cs' = scheduleTimeout (TimeoutParams_WaitForMinerBlock (ce_timeoutParams env)) height round
                   RoundStepWaitForMinerBlock x \<or> enterPropose env height round x = Ret cs'"
    using assms by (auto simp: proposeOrWait_def bindGo_Ret_iff split: prod.splits if_splits)
  have q: "quiet cs x" by (rule IsProposer_quiet [OF x])
  from c show ?thesis
    using quiet_phase [OF quiet_trans [OF q schedule_quiet]]
      phase_trans [OF quiet_phase [OF q] enterPropose_phase [of env height round x cs']] by auto
qed

end
