(* ===== verification/Consensus_Invariant.thy ===== *)
theory Consensus_Invariant
  imports Consensus_Frame
begin

text \<open>
  Well-formed consensus states: the two vote stores belong to the height and its validators, every
  stored aggregate was verified, pointers lead to existing blocks and part sets, a lock has a block,
  and the stores are never more than one round ahead. Every handler preserves this, and what it
  votes for and commits is described by its outcome.
\<close>

section \<open>Verified aggregates\<close>

definition aggrVerified :: "('b, 'z) ext_scheme \<Rightarrow> validatorSet \<Rightarrow> 'b signAggr \<Rightarrow> bool" where
  "aggrVerified ext vals sa \<longleftrightarrow>
     \<not> BA_isNil ext (sa_BitArray sa) \<and> BA_Size ext (sa_BitArray sa) = ValidatorSet_Size vals \<and>
     (\<exists>key sig. sa_SignatureAggr sa = Some sig \<and>
        ValidatorSet_AggrPubKey ext vals (sa_BitArray sa) = Some key \<and>
        VerifyBytes ext key (Vote_SignBytes ext (sa_ChainID sa)
          (aggregatedVote (sa_BlockID sa) (sa_Height sa) (sa_Round sa) (sa_Type sa))) sig) \<and>
     Loose23MajorThreshold (totalPower (vs_Validators vals)) (sa_Round sa)
       \<le> powerOf (vs_Validators vals) (bitsOf ext (sa_BitArray sa))"

lemma blsVerify_iff:
  "blsVerifySignAggr env vals sa = (True, None) \<longleftrightarrow> aggrVerified (ce_ext env) vals sa"
proof (cases "\<not> BA_isNil (ce_ext env) (sa_BitArray sa) \<and>
    BA_Size (ce_ext env) (sa_BitArray sa) = ValidatorSet_Size vals")
  case True
  then show ?thesis
    using TalliedVotingPower_ok [of "ce_ext env" "sa_BitArray sa" vals]
    by (auto simp: blsVerifySignAggr_def SignAggr_SignAggr_def aggrVerified_def Let_def split: option.splits)
next
  case False
  then have "\<exists>p v t e. ValidatorSet_TalliedVotingPower (ce_ext env) vals (sa_BitArray sa) = (p, v, t, Some e)"
    by (auto simp: ValidatorSet_TalliedVotingPower_def)
  then show ?thesis using False
    by (auto simp: blsVerifySignAggr_def aggrVerified_def split: option.splits)
qed

definition aggrFor :: "('b, 'z) ext_scheme \<Rightarrow> validatorSet \<Rightarrow> u64 \<Rightarrow> u8 \<Rightarrow> 'b signAggr \<Rightarrow> bool" where
  "aggrFor ext vals height type sa \<longleftrightarrow>
     aggrVerified ext vals sa \<and> sa_Type sa = type \<and> sa_Height sa = height"

section \<open>The aggregates of a height\<close>

definition aggrsOk :: "('b, 'z) ext_scheme \<Rightarrow> 'b heightVoteSignAggr \<Rightarrow> bool" where
  "aggrsOk ext hsa \<longleftrightarrow> (\<forall>r rsa. hsa_roundVoteSignAggrs hsa r = Some rsa \<longrightarrow>
     (\<forall>sa. rsa_Prevotes rsa = Some sa \<longrightarrow>
        aggrFor ext (hsa_valSet hsa) (hsa_height hsa) VoteTypePrevote sa \<and> sa_Round sa = r) \<and>
     (\<forall>sa. rsa_Precommits rsa = Some sa \<longrightarrow>
        aggrFor ext (hsa_valSet hsa) (hsa_height hsa) VoteTypePrecommit sa \<and> sa_Round sa = r))"

definition sameAggrs :: "'b heightVoteSignAggr \<Rightarrow> 'b heightVoteSignAggr \<Rightarrow> bool" where
  "sameAggrs a b \<longleftrightarrow> hsa_height b = hsa_height a \<and> hsa_valSet b = hsa_valSet a"

lemma getSignAggr_ok:
  assumes "aggrsOk ext hsa" "HeightVoteSignAggr_getSignAggr hsa r type = Ret (Some sa)"
  shows "aggrFor ext (hsa_valSet hsa) (hsa_height hsa) type sa \<and> sa_Round sa = r"
  using assms by (auto simp: aggrsOk_def HeightVoteSignAggr_getSignAggr_def split: option.splits if_splits)

lemma HSA_addRound_ok:
  assumes "aggrsOk ext hsa" "HeightVoteSignAggr_addRound hsa r = Ret hsa'"
  shows "aggrsOk ext hsa' \<and> sameAggrs hsa hsa'"
  using assms by (auto simp: HeightVoteSignAggr_addRound_def aggrsOk_def sameAggrs_def split: if_splits)

lemma HSA_addRounds_ok:
  assumes "aggrsOk ext hsa" "HeightVoteSignAggr_addRounds hsa rs = Ret hsa'"
  shows "aggrsOk ext hsa' \<and> sameAggrs hsa hsa'"
  using assms
proof (induction rs arbitrary: hsa)
  case (Cons r rs)
  show ?case
  proof (cases "hsa_roundVoteSignAggrs hsa r")
    case None
    with Cons.prems(2) obtain x where x: "HeightVoteSignAggr_addRound hsa r = Ret x"
      "HeightVoteSignAggr_addRounds x rs = Ret hsa'" by (auto simp: bindGo_Ret_iff)
    from HSA_addRound_ok [OF Cons.prems(1) x(1)] Cons.IH [OF _ x(2)] show ?thesis
      by (auto simp: sameAggrs_def)
  qed (use Cons in auto)
qed (simp add: sameAggrs_def)

lemma aggrsOk_round [simp]: "aggrsOk ext (hsa\<lparr>hsa_round := r\<rparr>) = aggrsOk ext hsa"
  by (simp add: aggrsOk_def)

lemma HSA_SetRound_ok:
  assumes "aggrsOk ext hsa" "HeightVoteSignAggr_SetRound hsa r = Ret hsa'"
  shows "aggrsOk ext hsa'" "sameAggrs hsa hsa'" "hsa_round hsa' = r"
  using assms HSA_addRounds_ok [of ext hsa "[hsa_round hsa + 1 .. r]"]
  by (auto simp: HeightVoteSignAggr_SetRound_def bindGo_Ret_iff sameAggrs_def split: if_splits)

lemma HSA_ResetTop2Round_ok:
  assumes "aggrsOk ext hsa" "HeightVoteSignAggr_ResetTop2Round hsa r = Ret hsa'"
  shows "aggrsOk ext hsa'" "sameAggrs hsa hsa'" "hsa_round hsa' = r" "1 \<le> r"
proof -
  let ?d = "hsa\<lparr>hsa_roundVoteSignAggrs := deleteRounds [r - 1 .. hsa_round hsa] (hsa_roundVoteSignAggrs hsa)\<rparr>"
  from assms(2) obtain x y where x: "HeightVoteSignAggr_addRound ?d (r - 1) = Ret x"
    and y: "HeightVoteSignAggr_addRound x r = Ret y" and h: "hsa' = y\<lparr>hsa_round := r\<rparr>" and r: "1 \<le> r"
    by (auto simp: HeightVoteSignAggr_ResetTop2Round_def Let_def bindGo_Ret_iff split: if_splits)
  have "aggrsOk ext ?d" using assms(1) by (auto simp: aggrsOk_def deleteRounds_apply split: if_splits)
  from HSA_addRound_ok [OF this x] HSA_addRound_ok [OF _ y, of ext] h r
  show "aggrsOk ext hsa'" "sameAggrs hsa hsa'" "hsa_round hsa' = r" "1 \<le> r"
    by (auto simp: sameAggrs_def)
qed

lemma HSA_AddSignAggr_ok:
  assumes "aggrsOk ext hsa" "HeightVoteSignAggr_AddSignAggr hsa sa = Ret (hsa', fresh)"
    "aggrFor ext (hsa_valSet hsa) (hsa_height hsa) (sa_Type sa) sa"
  shows "aggrsOk ext hsa'" "sameAggrs hsa hsa'" "hsa_round hsa' = hsa_round hsa"
  using assms
  by (auto simp: HeightVoteSignAggr_AddSignAggr_def aggrsOk_def sameAggrs_def bindGo_Ret_iff
      split: if_splits option.splits)

lemma NewHeightVoteSignAggr_ok:
  assumes "NewHeightVoteSignAggr chainID height vals = Ret hsa"
  shows "aggrsOk ext hsa" "hsa_height hsa = height" "hsa_valSet hsa = vals" "hsa_round hsa = 0"
  using assms
  by (auto simp: NewHeightVoteSignAggr_def HeightVoteSignAggr_Reset_def HeightVoteSignAggr_addRound_def
      aggrsOk_def split: if_splits)

section \<open>Well-formed states\<close>

definition storesOk :: "('b, 'z) ext_scheme \<Rightarrow> ('b, 'v) consensusState \<Rightarrow> bool" where
  "storesOk ext cs \<longleftrightarrow>
     powers_nonneg (ep_Validators (cs_Epoch cs)) \<and>
     hvs_inv ext (cs_Votes cs) \<and> hvs_height (cs_Votes cs) = cs_Height cs \<and>
     hvs_valSet (cs_Votes cs) = cs_Validators cs \<and>
     aggrsOk ext (cs_VoteSignAggr cs) \<and> hsa_height (cs_VoteSignAggr cs) = cs_Height cs \<and>
     hsa_valSet (cs_VoteSignAggr cs) = cs_Validators cs \<and>
     hsa_round (cs_VoteSignAggr cs) = hvs_round (cs_Votes cs) \<and> 0 \<le> hvs_round (cs_Votes cs) \<and>
     (\<forall>sa. cs_PrevoteMaj23SignAggr cs = Some sa \<longrightarrow>
        aggrFor ext (cs_Validators cs) (cs_Height cs) VoteTypePrevote sa) \<and>
     (\<forall>sa. cs_PrecommitMaj23SignAggr cs = Some sa \<longrightarrow>
        aggrFor ext (cs_Validators cs) (cs_Height cs) VoteTypePrecommit sa)"

definition pointersOk :: "('b, 'v) consensusState \<Rightarrow> bool" where
  "pointersOk cs \<longleftrightarrow>
     (\<forall>p. cs_ProposalBlock cs = Some p \<longrightarrow> p < length (cs_blocks cs) \<and> cs_ProposalBlockParts cs \<noteq> None) \<and>
     (\<forall>p. cs_LockedBlock cs = Some p \<longrightarrow> p < length (cs_blocks cs)) \<and>
     (\<forall>i. cs_ProposalBlockParts cs = Some i \<longrightarrow> i < length (cs_partSets cs)) \<and>
     (\<forall>i. cs_LockedBlockParts cs = Some i \<longrightarrow> i < length (cs_partSets cs)) \<and>
     (cs_LockedBlockParts cs = None \<longleftrightarrow> cs_LockedBlock cs = None) \<and>
     (cs_LockedRound cs = -1 \<longleftrightarrow> cs_LockedBlock cs = None) \<and> -1 \<le> cs_LockedRound cs"

definition positionOk :: "('b, 'v) consensusState \<Rightarrow> bool" where
  "positionOk cs \<longleftrightarrow> validStep cs \<and> 0 \<le> cs_Round cs \<and> hvs_round (cs_Votes cs) \<le> cs_Round cs + 1 \<and>
     (cs_Step cs = RoundStepNewHeight \<longrightarrow> cs_Round cs = 0 \<and> hvs_round (cs_Votes cs) = 0)"

definition wfState :: "('b, 'z) ext_scheme \<Rightarrow> ('b, 'v) consensusState \<Rightarrow> bool" where
  "wfState ext cs \<longleftrightarrow> cs_Height cs = te_Height (cs_state cs) + 1 \<and> storesOk ext cs \<and> pointersOk cs \<and> positionOk cs"

lemma wfD:
  assumes "wfState ext cs"
  shows "cs_Height cs = te_Height (cs_state cs) + 1" "storesOk ext cs" "pointersOk cs" "positionOk cs"
  using assms by (simp_all add: wfState_def)

lemma wf_body:
  assumes w: "wfState ext cs" and e: "body cs' = body cs" and q: "later cs cs'" "validStep cs \<longrightarrow> validStep cs'"
    "cs_Step cs' = RoundStepNewHeight \<longrightarrow> cs_Step cs = RoundStepNewHeight \<and> cs_Round cs' = cs_Round cs"
  shows "wfState ext cs'"
proof -
  note b = bodyD [OF e]
  have "storesOk ext cs'" using wfD(2) [OF w] unfolding storesOk_def b .
  moreover have "pointersOk cs'" using wfD(3) [OF w] unfolding pointersOk_def b .
  moreover have "positionOk cs'"
  proof -
    have "cs_Round cs \<le> cs_Round cs'" using q(1) unfolding later_def by linarith
    with wfD(4) [OF w] q(2,3) show ?thesis unfolding positionOk_def b(9) by linarith
  qed
  ultimately show ?thesis using wfD(1) [OF w] b(1,15) by (simp add: wfState_def)
qed

lemma wf_phase: "phase c cs cs' \<Longrightarrow> wfState ext cs \<Longrightarrow> wfState ext cs'"
  unfolding phase_def by (elim conjE) (rule wf_body)

lemma wf_core:
  assumes "core cs' = core cs" "wfState ext cs"
  shows "wfState ext cs'"
  by (rule wf_body [OF assms(2) core_body [OF assms(1)]])
     (use coreD(2,3) [OF assms(1)] in \<open>simp_all add: later_def validStep_def\<close>)

lemma wf_quiet: "quiet cs cs' \<Longrightarrow> wfState ext cs \<Longrightarrow> wfState ext cs'"
  using quiet_phase wf_phase by blast

section \<open>Outcomes\<close>

text \<open>The state is locked on a block on the strength of the prevotes of the locked round.\<close>

definition lockedOn ::
    "('b, 'z) ext_scheme \<Rightarrow> ('b, 'v) codec \<Rightarrow> ('b, 'v) consensusState \<Rightarrow> blockID \<Rightarrow> bool" where
  "lockedOn ext c cs blockID \<longleftrightarrow>
     (\<exists>p sa. cs_LockedBlock cs = Some p \<and>
        NCBlock_Hash c (Some (cs_blocks cs ! p)) = Ret (bid_Hash blockID) \<and>
        HeightVoteSignAggr_Prevotes (cs_VoteSignAggr cs) (cs_LockedRound cs) = Ret (Some sa) \<and>
        sa_Maj23 sa = blockID \<and> aggrFor ext (cs_Validators cs) (cs_Height cs) VoteTypePrevote sa)"

text \<open>A precommit for a block is cast with a lock on it.\<close>

definition precommitOk ::
    "('b, 'z) ext_scheme \<Rightarrow> ('b, 'v) codec \<Rightarrow> ('b, 'v) consensusState \<Rightarrow> vote \<Rightarrow> bool" where
  "precommitOk ext c cs v \<longleftrightarrow> vote_Type v = VoteTypePrecommit \<and> vote_Height v = cs_Height cs \<and>
     (bid_Hash (vote_BlockID v) \<noteq> [] \<longrightarrow> lockedOn ext c cs (vote_BlockID v))"

lemma lockedOn_body: "body cs' = body cs \<Longrightarrow> lockedOn ext c cs' blockID = lockedOn ext c cs blockID"
  using bodyD [of cs' cs] block_hash [of cs' cs c] by (simp add: lockedOn_def)

text \<open>A committed block: a valid block of the height that the precommits are for, with these precommits.\<close>

definition commitOk ::
    "('b, 'z) ext_scheme \<Rightarrow> ('b, 'v) codec \<Rightarrow> ('b, 'v) consensusState \<Rightarrow> ('b, 'v) ncBlock \<Rightarrow> bool" where
  "commitOk ext c cs b \<longleftrightarrow>
     (\<exists>sa b0 te te'. aggrFor ext (cs_Validators cs) (cs_Height cs) VoteTypePrecommit sa \<and>
        nb_Block b = nb_Block b0 \<and> nb_NTCExtra b0 = Some te \<and> nb_NTCExtra b = Some te' \<and>
        te_ChainID te = te_ChainID (cs_state cs) \<and> te_Height te = cs_Height cs \<and>
        NCBlock_Hash c (Some b0) = Ret (bid_Hash (sa_Maj23 sa)) \<and> bid_Hash (sa_Maj23 sa) \<noteq> [] \<and>
        te_Height te' = te_Height te \<and> te_SeenCommit te' = Some (SignAggr_MakeCommit ext sa) \<and>
        te_ChainID te' = te_ChainID te \<and> te_ValidatorsHash te' = te_ValidatorsHash te \<and>
        te_SeenCommitHash te' = SimpleHashFromBinary c (SignAggr_MakeCommit ext sa))"

definition outcome ::
    "('b, 'z) ext_scheme \<Rightarrow> ('b, 'v) codec \<Rightarrow> ('b, 'v) consensusState \<Rightarrow> ('b, 'v) consensusState \<Rightarrow> bool" where
  "outcome ext c cs cs' \<longleftrightarrow> appends cs cs' \<and> cs_Height cs' = cs_Height cs \<and>
     cs_Validators cs' = cs_Validators cs \<and>
     (\<forall>v\<in>votesIn cs cs'. prevoteOk c cs v \<or> precommitOk ext c cs' v) \<and>
     (\<forall>b\<in>commitsIn cs cs'. commitOk ext c cs b)"

definition preserves :: "('b, 'z) ext_scheme \<Rightarrow> ('b, 'v) codec \<Rightarrow> ('b, 'v) consensusState
    \<Rightarrow> ('b, 'v) consensusState \<Rightarrow> bool" where
  "preserves ext c cs cs' \<longleftrightarrow> (wfState ext cs \<longrightarrow> wfState ext cs' \<and> outcome ext c cs cs')"

lemma phase_preserves: "phase c cs cs' \<Longrightarrow> preserves ext c cs cs'"
  using wf_phase [of c cs cs' ext] bodyD(1,2) [of cs' cs] unfolding preserves_def outcome_def phase_def
  by blast

text \<open>The lock as prevotes see it.\<close>

definition sameLock :: "('b, 'v) consensusState \<Rightarrow> ('b, 'v) consensusState \<Rightarrow> bool" where
  "sameLock cs cs' \<longleftrightarrow> cs_Height cs' = cs_Height cs \<and> cs_LockedBlock cs' = cs_LockedBlock cs \<and>
     (\<forall>p. cs_LockedBlock cs = Some p \<longrightarrow>
        nb_NTCExtra (cs_blocks cs' ! p) = nb_NTCExtra (cs_blocks cs ! p) \<and>
        PartSet_Header (partsAt cs' (cs_LockedBlockParts cs')) = PartSet_Header (partsAt cs (cs_LockedBlockParts cs)))"

lemma prevoteOk_sameLock: "sameLock cs cs' \<Longrightarrow> prevoteOk c cs' v = prevoteOk c cs v"
  by (cases "cs_LockedBlock cs") (auto simp: sameLock_def prevoteOk_def NCBlock_Hash_def)

text \<open>
  A change of the state that sends nothing and does not touch the lock can be put before a handler.
\<close>

lemma preserves_after:
  assumes "wfState ext cs \<Longrightarrow> wfState ext x \<and> sameLock cs x \<and> silent cs x \<and> cs_Validators x = cs_Validators cs \<and>
      te_Height (cs_state x) = te_Height (cs_state cs) \<and> te_ChainID (cs_state x) = te_ChainID (cs_state cs)"
    and "preserves ext c x cs'"
  shows "preserves ext c cs cs'"
  unfolding preserves_def
proof
  assume w: "wfState ext cs"
  from assms(1) [OF w] have x: "wfState ext x" "sameLock cs x" "appends cs x" "votesIn cs x = {}" "commitsIn cs x = {}"
    "cs_Validators x = cs_Validators cs" "cs_Height x = cs_Height cs"
    "te_ChainID (cs_state x) = te_ChainID (cs_state cs)"
    by (auto simp: silent_def sameLock_def)
  from assms(2) x(1) have o: "wfState ext cs'" "outcome ext c x cs'" by (auto simp: preserves_def)
  then have a: "appends x cs'" by (simp add: outcome_def)
  have "commitOk ext c x = commitOk ext c cs" using x by (intro HOL.ext) (simp add: commitOk_def)
  then show "wfState ext cs' \<and> outcome ext c cs cs'"
    using o x appends_trans [OF x(3) a] votesIn_trans [OF x(3) a] commitsIn_trans [OF x(3) a]
      prevoteOk_sameLock [OF x(2)]
    by (simp add: outcome_def)
qed

section \<open>New rounds\<close>

lemma HVS_SetRound_ok:
  assumes "bitArray_laws ext" "hvs_inv ext hvs" "HeightVoteSet_SetRound ext hvs r = Ret hvs'"
  shows "hvs_inv ext hvs'" "same_height hvs hvs'" "hvs_round hvs' = r"
proof -
  have "hvs_round hvs = 0 \<or> hvs_round hvs < r"
    using hvs.setRound_iff [of ext hvs r] assms by (auto simp: returns_iff)
  from HVS_SetRound [OF assms(1,2) this] assms(3)
  show "hvs_inv ext hvs'" "same_height hvs hvs'" "hvs_round hvs' = r" by auto
qed

lemma HVS_ResetTop2Round_ok:
  assumes "bitArray_laws ext" "hvs_inv ext hvs" "HeightVoteSet_ResetTop2Round ext hvs r = Ret hvs'"
  shows "hvs_inv ext hvs'" "same_height hvs hvs'" "hvs_round hvs' = r"
proof -
  have "1 \<le> r" "r \<le> hvs_round hvs"
    using hvs.resetTop2_panic [of r hvs ext] assms(3) by (cases "r < 1 \<or> hvs_round hvs < r"; simp)+
  from HVS_ResetTop2Round [OF assms(1,2) this] assms(3)
  show "hvs_inv ext hvs'" "same_height hvs hvs'" "hvs_round hvs' = r" by auto
qed

text \<open>The state at the beginning of a round, with the stores moved to it.\<close>

definition atRound :: "int \<Rightarrow> 'b heightVoteSignAggr \<Rightarrow> 'b heightVoteSet \<Rightarrow> bool \<Rightarrow> (int \<times> int) list
    \<Rightarrow> ('b, 'v) consensusState \<Rightarrow> ('b, 'v) consensusState" where
  "atRound round aggrs votes clear past cs =
     emit (FireEvent NewRound)
       ((if clear then clearProposal (updateRoundStep round RoundStepNewRound cs)
         else updateRoundStep round RoundStepNewRound cs)
        \<lparr>cs_VoteSignAggr := aggrs, cs_Votes := votes, cs_pastRoundStates := past\<rparr>)"

lemma atRound_wf:
  assumes w: "wfState ext cs" and r: "0 \<le> round"
    and a: "aggrsOk ext aggrs" "sameAggrs (cs_VoteSignAggr cs) aggrs" "hsa_round aggrs = round + 1"
    and v: "hvs_inv ext votes" "same_height (cs_Votes cs) votes" "hvs_round votes = round + 1"
  shows "wfState ext (atRound round aggrs votes clear past cs)"
proof -
  have "storesOk ext (atRound round aggrs votes clear past cs)"
    using wfD(2) [OF w] a v r
    by (cases clear)
       (simp_all add: storesOk_def atRound_def emit_def clearProposal_def updateRoundStep_def sameAggrs_def
          same_height_def)
  moreover have "pointersOk (atRound round aggrs votes clear past cs)"
    using wfD(3) [OF w]
    by (cases clear) (simp_all add: pointersOk_def atRound_def emit_def clearProposal_def updateRoundStep_def)
  moreover have "positionOk (atRound round aggrs votes clear past cs)"
    using r v
    by (cases clear) (simp_all add: positionOk_def atRound_def emit_def clearProposal_def updateRoundStep_def
        validStep_def roundSteps)
  ultimately show ?thesis using wfD(1) [OF w]
    by (cases clear) (simp_all add: wfState_def atRound_def emit_def clearProposal_def updateRoundStep_def)
qed

lemma atRound_frame:
  "silent cs (atRound round aggrs votes clear past cs)" "sameLock cs (atRound round aggrs votes clear past cs)"
  "cs_Validators (atRound round aggrs votes clear past cs) = cs_Validators cs"
  "cs_state (atRound round aggrs votes clear past cs) = cs_state cs"
  by (auto simp: atRound_def sameLock_def emit_def clearProposal_def updateRoundStep_def partsAt_def
      silent_def votesIn_def commitsIn_def added_def appends_def)

lemma atRound_preserves:
  assumes "wfState ext cs \<Longrightarrow> wfState ext (atRound round aggrs votes clear past cs)"
    "proposeOrWait env height round' (atRound round aggrs votes clear past cs) = Ret cs'"
  shows "preserves ext (ce_codec env) cs cs'"
  by (rule preserves_after [OF _ phase_preserves [OF proposeOrWait_phase [OF assms(2)]]])
     (simp add: assms(1) atRound_frame)

lemma enterNewRound_cases:
  assumes "enterNewRound env height round cs = Ret cs'"
  obtains "cs' = cs"
  | aggrs votes where "cs_Height cs = height" "cs_Round cs \<le> round"
      "cs_Round cs = round \<Longrightarrow> cs_Step cs = RoundStepNewHeight"
      "HeightVoteSignAggr_SetRound (cs_VoteSignAggr cs) (round + 1) = Ret aggrs"
      "HeightVoteSet_SetRound (ce_ext env) (cs_Votes cs) (round + 1) = Ret votes"
      "proposeOrWait env height round (atRound round aggrs votes (round \<noteq> 0)
         (AList.update round ROUND_NOT_PROPOSED (cs_pastRoundStates cs)) cs) = Ret cs'"
proof (cases "cs_Height cs \<noteq> height \<or> round < cs_Round cs
         \<or> (cs_Round cs = round \<and> cs_Step cs \<noteq> RoundStepNewHeight)")
  case True
  then show ?thesis using that(1) assms by (auto simp: enterNewRound_def)
next
  case False
  let ?x = "if round = 0 then updateRoundStep round RoundStepNewRound cs
            else clearProposal (updateRoundStep round RoundStepNewRound cs)"
  have x: "cs_VoteSignAggr ?x = cs_VoteSignAggr cs" "cs_Votes ?x = cs_Votes cs"
    "cs_pastRoundStates ?x = cs_pastRoundStates cs"
    by (simp_all add: clearProposal_def updateRoundStep_def)
  from assms [unfolded enterNewRound_def if_not_P [OF False] Let_def bindGo_Ret_iff x]
  obtain aggrs votes where
    1: "HeightVoteSignAggr_SetRound (cs_VoteSignAggr cs) (round + 1) = Ret aggrs"
    and 2: "HeightVoteSet_SetRound (ce_ext env) (cs_Votes cs) (round + 1) = Ret votes"
    and 3: "proposeOrWait env height round (emit (FireEvent NewRound)
       (?x\<lparr>cs_VoteSignAggr := aggrs, cs_Votes := votes,
         cs_pastRoundStates := AList.update round ROUND_NOT_PROPOSED (cs_pastRoundStates cs)\<rparr>)) = Ret cs'"
    by blast
  have 4: "?x = (if round \<noteq> 0 then clearProposal (updateRoundStep round RoundStepNewRound cs)
    else updateRoundStep round RoundStepNewRound cs)" by simp
  show ?thesis
    by (rule that(2) [OF _ _ _ 1 2 3 [unfolded 4, folded atRound_def]]) (use False in auto)
qed

lemma enterNewRound_preserves:
  assumes laws: "bitArray_laws (ce_ext env)" and r: "enterNewRound env height round cs = Ret cs'"
  shows "preserves (ce_ext env) (ce_codec env) cs cs'"
  using r
proof (cases rule: enterNewRound_cases)
  case 1
  then show ?thesis by (simp add: phase_preserves)
next
  case (2 aggrs votes)
  show ?thesis
  proof (rule atRound_preserves [OF _ 2(6)])
    assume w: "wfState (ce_ext env) cs"
    have s: "aggrsOk (ce_ext env) (cs_VoteSignAggr cs)" "hvs_inv (ce_ext env) (cs_Votes cs)"
      using wfD(2) [OF w] by (simp_all add: storesOk_def)
    have "0 \<le> round" using wfD(4) [OF w] 2(2) by (simp add: positionOk_def)
    then show "wfState (ce_ext env) (atRound round aggrs votes (round \<noteq> 0)
         (AList.update round ROUND_NOT_PROPOSED (cs_pastRoundStates cs)) cs)"
      using atRound_wf [OF w] HSA_SetRound_ok [OF s(1) 2(4)] HVS_SetRound_ok [OF laws s(2) 2(5)] by blast
  qed
qed

text \<open>A change that sends nothing after a handler.\<close>

lemma preserves_then:
  assumes p: "preserves ext c cs x" and o: "cs_out cs' = cs_out x"
    and w: "wfState ext x \<Longrightarrow> wfState ext cs'" and s: "cs_Height cs' = cs_Height x" "cs_Validators cs' = cs_Validators x"
    and v: "\<And>v. precommitOk ext c cs' v = precommitOk ext c x v"
  shows "preserves ext c cs cs'"
proof -
  have "added cs cs' = added cs x" "appends cs cs' = appends cs x" using o by (simp_all add: added_def appends_def)
  then have "votesIn cs cs' = votesIn cs x" "commitsIn cs cs' = commitsIn cs x" "appends cs cs' = appends cs x"
    by (simp_all add: votesIn_def commitsIn_def)
  then show ?thesis using p w s v by (simp add: preserves_def outcome_def)
qed

lemma preserves_refl [simp]: "preserves ext c cs cs"
  by (rule phase_preserves) simp

lemma enterLowerRound_cases:
  assumes "enterLowerRound env height round cs = Ret cs'"
  obtains aggrs votes past where
      "HeightVoteSignAggr_ResetTop2Round (cs_VoteSignAggr cs) (round + 1) = Ret aggrs"
      "HeightVoteSet_ResetTop2Round (ce_ext env) (cs_Votes cs) (round + 1) = Ret votes"
      "proposeOrWait env height round (atRound round aggrs votes True past cs) = Ret cs'"
proof -
  let ?past = "fold (\<lambda>r m. AList.delete r m) (rev [round + 1 .. cs_Round cs]) (cs_pastRoundStates cs)"
  let ?x = "clearProposal (updateRoundStep round RoundStepNewRound (cs\<lparr>cs_pastRoundStates := ?past\<rparr>))"
  have x: "cs_VoteSignAggr ?x = cs_VoteSignAggr cs" "cs_Votes ?x = cs_Votes cs"
    by (simp_all add: clearProposal_def updateRoundStep_def)
  have e: "emit (FireEvent NewRound) (?x\<lparr>cs_VoteSignAggr := aggrs, cs_Votes := votes\<rparr>)
     = atRound round aggrs votes True ?past cs" for aggrs votes
    by (cases cs) (simp add: atRound_def clearProposal_def updateRoundStep_def)
  show ?thesis using that assms unfolding enterLowerRound_def Let_def bindGo_Ret_iff x e by blast
qed

lemma enterLowerRound_preserves:
  assumes laws: "bitArray_laws (ce_ext env)" and r: "enterLowerRound env height round cs = Ret cs'"
  shows "preserves (ce_ext env) (ce_codec env) cs cs'"
proof -
  from r obtain aggrs votes past where
    1: "HeightVoteSignAggr_ResetTop2Round (cs_VoteSignAggr cs) (round + 1) = Ret aggrs"
    and 2: "HeightVoteSet_ResetTop2Round (ce_ext env) (cs_Votes cs) (round + 1) = Ret votes"
    and 3: "proposeOrWait env height round (atRound round aggrs votes True past cs) = Ret cs'"
    by (rule enterLowerRound_cases)
  show ?thesis
  proof (rule atRound_preserves [OF _ 3])
    assume w: "wfState (ce_ext env) cs"
    have s: "aggrsOk (ce_ext env) (cs_VoteSignAggr cs)" "hvs_inv (ce_ext env) (cs_Votes cs)"
      using wfD(2) [OF w] by (simp_all add: storesOk_def)
    have "0 \<le> round" using HSA_ResetTop2Round_ok(4) [OF s(1) 1] by simp
    then show "wfState (ce_ext env) (atRound round aggrs votes True past cs)"
      using atRound_wf [OF w] HSA_ResetTop2Round_ok(1-3) [OF s(1) 1] HVS_ResetTop2Round_ok [OF laws s(2) 2] by blast
  qed
qed

lemma storeProposal_wf: "wfState ext cs \<Longrightarrow> wfState ext (storeProposal env p cs)"
proof -
  assume w: "wfState ext cs"
  have "storesOk ext (storeProposal env p cs)" using wfD(2) [OF w]
    by (simp add: storesOk_def storeProposal_def newPartSet_def)
  moreover have "pointersOk (storeProposal env p cs)" using wfD(3) [OF w]
    by (simp add: pointersOk_def storeProposal_def newPartSet_def less_Suc_eq)
  moreover have "positionOk (storeProposal env p cs)" using wfD(4) [OF w]
    by (simp add: positionOk_def storeProposal_def newPartSet_def validStep_def)
  ultimately show ?thesis using wfD(1) [OF w] by (simp add: wfState_def storeProposal_def newPartSet_def)
qed

lemma storeProposal_then:
  assumes "preserves ext c cs x"
  shows "preserves ext c cs (storeProposal env p x)"
  by (rule preserves_then [OF assms _ storeProposal_wf])
     (simp_all add: storeProposal_def newPartSet_def precommitOk_def lockedOn_def)

lemma quiet_preserves: "quiet cs cs' \<Longrightarrow> preserves ext c cs cs'"
  by (intro phase_preserves quiet_phase)

lemma quiet_before:
  assumes "quiet cs x" "preserves ext c x cs'"
  shows "preserves ext c cs cs'"
proof (rule preserves_after [OF _ assms(2)])
  assume "wfState ext cs"
  from assms(1) have b: "body x = body cs" "silent cs x" by (auto simp: quiet_def)
  note d = bodyD [OF b(1)]
  have "nb_NTCExtra (cs_blocks x ! p) = nb_NTCExtra (cs_blocks cs ! p)" for p
    using map_eq_nth [where g = nb_NTCExtra and i = p, OF d(20) unexecuted_extra] .
  then have "sameLock cs x" using d by (simp add: sameLock_def partsAt_def)
  with \<open>wfState ext cs\<close> show "wfState ext x \<and> sameLock cs x \<and> silent cs x \<and> cs_Validators x = cs_Validators cs \<and>
      te_Height (cs_state x) = te_Height (cs_state cs) \<and> te_ChainID (cs_state x) = te_ChainID (cs_state cs)"
    using wf_quiet [OF assms(1)] b d by simp
qed

lemma defaultSetProposal_cases:
  assumes "defaultSetProposal env msg cs = Ret (err, cs')"
  obtains "cs' = cs"
  | v where "GetProposer env cs = Ret (v, cs')"
  | v x p where "GetProposer env cs = Ret (v, x)" "cs' = storeProposal env p x"
  | v r where "proposerByRound env r cs = Ret (v, cs')"
  | v x y p where "proposerByRound env (pr_Round p) cs = Ret (v, x)" "cs_Proposal cs = None"
      "pr_Height p = cs_Height cs" "pr_Round p < cs_Round cs"
      "enterLowerRound env (cs_Height x) (pr_Round p) x = Ret y" "cs' = storeProposal env p y"
      "VerifyBytes (ce_ext env) (val_PubKey (vp_Proposer v))
         (Proposal_SignBytes (ce_ext env) (ce_LigoChainId env) p) (pr_Signature p)"
      "proposalStatus x (pr_Round p) = ROUND_NOT_PROPOSED" "msg = Some p"
  using assms
  by (auto simp: defaultSetProposal_def Let_def bindGo_Ret_iff is_none_simps Option.is_none_def
      split: option.splits if_splits prod.splits)

lemma defaultSetProposal_preserves:
  assumes laws: "bitArray_laws (ce_ext env)" and r: "defaultSetProposal env msg cs = Ret (err, cs')"
  shows "preserves (ce_ext env) (ce_codec env) cs cs'"
proof -
  have g: "quiet cs x" if "GetProposer env cs = Ret (v, x)" for v x
    using GetProposer_frame [OF that] by (intro quiet_core) auto
  have b: "quiet cs x" if "proposerByRound env r cs = Ret (v, x)" for r v x
    using proposerByRound_frame [OF that] by (intro quiet_core) auto
  from r show ?thesis
  proof (cases rule: defaultSetProposal_cases)
    case (5 v x y p)
    from storeProposal_then [OF quiet_before [OF b [OF 5(1)] enterLowerRound_preserves [OF laws 5(5)]]]
    show ?thesis unfolding 5(6) .
  next
    case (3 v x p)
    show ?thesis unfolding 3(2) by (rule storeProposal_then [OF quiet_preserves [OF g [OF 3(1)]]])
  qed (auto dest: g b intro: quiet_preserves)
qed

section \<open>Precommits\<close>

text \<open>A step whose votes are precommits.\<close>

definition precommits :: "('b, 'z) ext_scheme \<Rightarrow> ('b, 'v) codec \<Rightarrow> ('b, 'v) consensusState
    \<Rightarrow> ('b, 'v) consensusState \<Rightarrow> bool" where
  "precommits ext c cs cs' \<longleftrightarrow> (wfState ext cs \<longrightarrow> wfState ext cs' \<and> outcome ext c cs cs' \<and>
     (\<forall>v\<in>votesIn cs cs'. vote_Type v = VoteTypePrecommit))"

lemma precommits_preserves: "precommits ext c cs cs' \<Longrightarrow> preserves ext c cs cs'"
  by (simp add: precommits_def preserves_def)

lemma precommits_refl [simp]: "precommits ext c cs cs"
  using preserves_refl [of ext c cs, unfolded preserves_def] silent_refl [of cs, unfolded silent_def]
  by (simp add: precommits_def)

lemma precommits_before:
  assumes "wfState ext cs \<Longrightarrow> wfState ext x \<and> silent cs x \<and> cs_Height x = cs_Height cs \<and>
      cs_Validators x = cs_Validators cs \<and> te_ChainID (cs_state x) = te_ChainID (cs_state cs)"
    and "precommits ext c x cs'"
  shows "precommits ext c cs cs'"
  unfolding precommits_def
proof
  assume w: "wfState ext cs"
  from assms(1) [OF w] have x: "wfState ext x" "appends cs x" "votesIn cs x = {}" "commitsIn cs x = {}"
    "cs_Validators x = cs_Validators cs" "cs_Height x = cs_Height cs"
    "te_ChainID (cs_state x) = te_ChainID (cs_state cs)"
    by (auto simp: silent_def)
  from assms(2) x(1) have o: "wfState ext cs'" "outcome ext c x cs'"
    and t: "\<forall>v\<in>votesIn x cs'. vote_Type v = VoteTypePrecommit" by (auto simp: precommits_def)
  then have a: "appends x cs'" by (simp add: outcome_def)
  have "commitOk ext c x = commitOk ext c cs" using x by (intro HOL.ext) (simp add: commitOk_def)
  moreover have "\<not> prevoteOk c x v" if "v \<in> votesIn x cs'" for v using t that by (auto simp: prevoteOk_def)
  ultimately show "wfState ext cs' \<and> outcome ext c cs cs' \<and> (\<forall>v\<in>votesIn cs cs'. vote_Type v = VoteTypePrecommit)"
    using o x t appends_trans [OF x(2) a] votesIn_trans [OF x(2) a] commitsIn_trans [OF x(2) a]
    by (auto simp: outcome_def)
qed

lemma precommits_moves:
  assumes p: "precommits ext c cs x" and m: "phase c x cs'" "silent x cs'"
  shows "precommits ext c cs cs'"
  unfolding precommits_def
proof
  assume w: "wfState ext cs"
  from p w have x: "wfState ext x" "outcome ext c cs x" and t: "\<forall>v\<in>votesIn cs x. vote_Type v = VoteTypePrecommit"
    by (auto simp: precommits_def)
  have b: "body cs' = body x" using m(1) by (simp add: phase_def)
  have k: "precommitOk ext c cs' v = precommitOk ext c x v" for v
    using bodyD(1) [OF b] lockedOn_body [OF b, of ext c] by (simp add: precommitOk_def)
  have a: "appends cs x" "appends x cs'" "votesIn x cs' = {}" "commitsIn x cs' = {}"
    using x(2) m(2) by (auto simp: outcome_def silent_def)
  have "outcome ext c cs cs'"
    using x(2) a appends_trans [OF a(1,2)] votesIn_trans [OF a(1,2)] commitsIn_trans [OF a(1,2)] k
      bodyD(1,2) [OF b]
    by (simp add: outcome_def)
  then show "wfState ext cs' \<and> outcome ext c cs cs' \<and> (\<forall>v\<in>votesIn cs cs'. vote_Type v = VoteTypePrecommit)"
    using wf_phase [OF m(1) x(1)] votesIn_trans [OF a(1,2)] a(3) t by simp
qed

lemma precommit_cast:
  assumes s: "signAddVote env VoteTypePrecommit hash header y = Ret x"
    and y: "wfState ext cs \<Longrightarrow> wfState ext y \<and> silent cs y \<and> cs_Height y = cs_Height cs \<and>
      cs_Validators y = cs_Validators cs \<and>
      (hash \<noteq> [] \<longrightarrow> lockedOn ext c y \<lparr>bid_Hash = hash, bid_PartsHeader = header\<rparr>)"
  shows "precommits ext c cs x"
  unfolding precommits_def
proof
  assume "wfState ext cs"
  from y [OF this] have y: "wfState ext y" "appends cs y" "votesIn cs y = {}" "commitsIn cs y = {}"
    "cs_Height y = cs_Height cs" "cs_Validators y = cs_Validators cs"
    "hash \<noteq> [] \<longrightarrow> lockedOn ext c y \<lparr>bid_Hash = hash, bid_PartsHeader = header\<rparr>"
    by (auto simp: silent_def)
  note f = signAddVote_frame [OF s]
  have b: "body x = body y" by (rule core_body [OF f(1)])
  have k: "appends y x" "commitsIn y x = {}" "\<forall>v\<in>votesIn y x. precommitOk ext c x v"
    using f(2) y(7) lockedOn_body [OF b, of ext c] bodyD(1) [OF b]
    by (auto simp: votesFor_def precommitOk_def)
  have "outcome ext c cs x"
    using k y appends_trans [OF y(2) k(1)] votesIn_trans [OF y(2) k(1)] commitsIn_trans [OF y(2) k(1)]
      bodyD(1,2) [OF b]
    by (simp add: outcome_def)
  moreover have "\<forall>v\<in>votesIn cs x. vote_Type v = VoteTypePrecommit"
    using k(3) y(3) votesIn_trans [OF y(2) k(1)] by (simp add: precommitOk_def)
  ultimately show "wfState ext x \<and> outcome ext c cs x \<and> (\<forall>v\<in>votesIn cs x. vote_Type v = VoteTypePrecommit)"
    using wf_core [OF f(1) y(1)] by simp
qed

lemma HashesTo_True:
  assumes "NCBlock_HashesTo c b hash = Ret True"
  obtains x where "b = Some x" "NCBlock_Hash c (Some x) = Ret hash" "hash \<noteq> []"
  using assms by (auto simp: NCBlock_HashesTo_def bindGo_Ret_iff split: if_splits option.splits)

lemma wf_emit [simp]: "wfState ext (emit e cs) = wfState ext cs"
  using wf_core [of "emit e cs" cs ext] wf_core [of cs "emit e cs" ext] by auto

lemma unlock_wf: "wfState ext cs \<Longrightarrow> wfState ext (unlock cs)"
proof -
  assume w: "wfState ext cs"
  have "storesOk ext (unlock cs)" using wfD(2) [OF w] by (simp add: storesOk_def unlock_def)
  moreover have "pointersOk (unlock cs)" using wfD(3) [OF w] by (simp add: pointersOk_def unlock_def)
  moreover have "positionOk (unlock cs)" using wfD(4) [OF w]
    by (simp add: positionOk_def unlock_def validStep_def)
  ultimately show ?thesis using wfD(1) [OF w] by (simp add: wfState_def unlock_def)
qed

lemma expectBlock_wf: "wfState ext cs \<Longrightarrow> wfState ext (expectBlock env blockID cs)"
proof -
  assume w: "wfState ext cs"
  let ?x = "cs\<lparr>cs_partSets := cs_partSets cs @ [NewPartSetFromHeader (ce_ext env) (bid_PartsHeader blockID)],
      cs_ProposalBlock := None, cs_ProposalBlockParts := Some (length (cs_partSets cs))\<rparr>"
  have "storesOk ext ?x" using wfD(2) [OF w] by (simp add: storesOk_def)
  moreover have "pointersOk ?x" using wfD(3) [OF w] by (simp add: pointersOk_def less_Suc_eq)
  moreover have "positionOk ?x" using wfD(4) [OF w] by (simp add: positionOk_def validStep_def)
  ultimately have "wfState ext ?x" using wfD(1) [OF w] by (simp add: wfState_def)
  then show ?thesis using w by (simp add: expectBlock_def newPartSet_def)
qed

lemma expectBlock_fields [simp]:
  "cs_Height (expectBlock env blockID cs) = cs_Height cs"
  "cs_Validators (expectBlock env blockID cs) = cs_Validators cs"
  "cs_out (expectBlock env blockID cs) = cs_out cs"
  "cs_Round (expectBlock env blockID cs) = cs_Round cs" "cs_Step (expectBlock env blockID cs) = cs_Step cs"
  "cs_state (expectBlock env blockID cs) = cs_state cs"
  "cs_LockedBlock (expectBlock env blockID cs) = cs_LockedBlock cs"
  "cs_LockedBlockParts (expectBlock env blockID cs) = cs_LockedBlockParts cs"
  "cs_blocks (expectBlock env blockID cs) = cs_blocks cs"
  "cs_VoteSignAggr (expectBlock env blockID cs) = cs_VoteSignAggr cs"
  by (simp_all add: expectBlock_def newPartSet_def)

lemma unlock_fields [simp]:
  "cs_Height (unlock cs) = cs_Height cs" "cs_Validators (unlock cs) = cs_Validators cs"
  "cs_out (unlock cs) = cs_out cs" "cs_state (unlock cs) = cs_state cs"
  "cs_Round (unlock cs) = cs_Round cs" "cs_Step (unlock cs) = cs_Step cs"
  by (simp_all add: unlock_def)

lemma emit_fields [simp]:
  "cs_Height (emit e cs) = cs_Height cs" "cs_Validators (emit e cs) = cs_Validators cs"
  "cs_Round (emit e cs) = cs_Round cs" "cs_Step (emit e cs) = cs_Step cs"
  "cs_state (emit e cs) = cs_state cs" "cs_VoteSignAggr (emit e cs) = cs_VoteSignAggr cs"
  "cs_LockedBlock (emit e cs) = cs_LockedBlock cs" "cs_LockedRound (emit e cs) = cs_LockedRound cs"
  "cs_LockedBlockParts (emit e cs) = cs_LockedBlockParts cs" "cs_blocks (emit e cs) = cs_blocks cs"
  "cs_partSets (emit e cs) = cs_partSets cs"
  by (simp_all add: emit_def)

lemma lockedOn_emit [simp]: "lockedOn ext c (emit e cs) b = lockedOn ext c cs b"
  by (simp add: lockedOn_def)

text \<open>The states with the lock of \<open>precommitBlock\<close>.\<close>

lemma relock_wf:
  assumes w: "wfState ext cs" and r: "0 \<le> round" and p: "cs_LockedBlock cs = Some p"
  shows "wfState ext (cs\<lparr>cs_LockedRound := round\<rparr>)"
proof -
  have "storesOk ext (cs\<lparr>cs_LockedRound := round\<rparr>)" using wfD(2) [OF w] by (simp add: storesOk_def)
  moreover have "pointersOk (cs\<lparr>cs_LockedRound := round\<rparr>)" using wfD(3) [OF w] r p by (simp add: pointersOk_def)
  moreover have "positionOk (cs\<lparr>cs_LockedRound := round\<rparr>)" using wfD(4) [OF w]
    by (simp add: positionOk_def validStep_def)
  ultimately show ?thesis using wfD(1) [OF w] by (simp add: wfState_def)
qed

lemma lock_wf:
  assumes w: "wfState ext cs" and r: "0 \<le> round" and p: "cs_ProposalBlock cs = Some p"
  shows "wfState ext (cs\<lparr>cs_LockedRound := round, cs_LockedBlock := cs_ProposalBlock cs,
                       cs_LockedBlockParts := cs_ProposalBlockParts cs\<rparr>)"
proof -
  let ?x = "cs\<lparr>cs_LockedRound := round, cs_LockedBlock := cs_ProposalBlock cs,
                       cs_LockedBlockParts := cs_ProposalBlockParts cs\<rparr>"
  have "storesOk ext ?x" using wfD(2) [OF w] by (simp add: storesOk_def)
  moreover have "pointersOk ?x" using wfD(3) [OF w] r p by (auto simp: pointersOk_def)
  moreover have "positionOk ?x" using wfD(4) [OF w] by (simp add: positionOk_def validStep_def)
  ultimately show ?thesis using wfD(1) [OF w] by (simp add: wfState_def)
qed

lemma silent2:
  assumes "silent a b" "cs_out c = cs_out b" "castVote e = None" "committed e = None"
  shows "silent a (emit e c)"
  using silent_trans [OF assms(1) silent_emit [OF assms(2-4)]] .

lemma precommitNil_precommits:
  assumes "precommitNil env y = Ret x"
    "wfState ext cs \<Longrightarrow> wfState ext y" "silent cs y" "cs_Height y = cs_Height cs" "cs_Validators y = cs_Validators cs"
  shows "precommits ext c cs x"
  using assms precommit_cast [of env "[]" zeroPartSetHeader y x ext cs c] by (simp add: precommitNil_def)

lemma precommit_locked:
  assumes s: "signAddVote env VoteTypePrecommit (bid_Hash blockID) (bid_PartsHeader blockID)
      (emit (FireEvent e) y) = Ret x"
    and sa: "HeightVoteSignAggr_Prevotes (cs_VoteSignAggr cs) (cs_LockedRound y) = Ret (Some sa)" "sa_Maj23 sa = blockID"
    and l: "cs_LockedBlock y = Some p" "NCBlock_Hash c (Some (cs_blocks cs ! p)) = Ret (bid_Hash blockID)"
    and y: "wfState ext cs \<Longrightarrow> wfState ext y" "cs_out y = cs_out cs" "cs_Height y = cs_Height cs"
      "cs_Validators y = cs_Validators cs" "cs_VoteSignAggr y = cs_VoteSignAggr cs" "cs_blocks y = cs_blocks cs"
  shows "precommits ext c cs x"
proof (rule precommit_cast [OF s], intro conjI impI)
  assume w: "wfState ext cs"
  have "aggrFor ext (cs_Validators cs) (cs_Height cs) VoteTypePrevote sa"
    using getSignAggr_ok [OF _ sa(1) [unfolded HeightVoteSignAggr_Prevotes_def], of ext] wfD(2) [OF w]
    by (simp add: storesOk_def)
  then have "lockedOn ext c y blockID" using sa l y by (auto simp: lockedOn_def)
  then show "lockedOn ext c (emit (FireEvent e) y) \<lparr>bid_Hash = bid_Hash blockID, bid_PartsHeader = bid_PartsHeader blockID\<rparr>"
    by (cases blockID) simp
  show "silent cs (emit (FireEvent e) y)" by (rule silent_emit) (simp_all add: y)
qed (simp_all add: y)

lemma precommitBlock_precommits:
  assumes r: "precommitBlock env round blockID cs = Ret x" and rd: "wfState ext cs \<Longrightarrow> 0 \<le> round"
    and sa: "HeightVoteSignAggr_Prevotes (cs_VoteSignAggr cs) round = Ret (Some sa)" "sa_Maj23 sa = blockID"
  shows "precommits ext (ce_codec env) cs x"
proof -
  let ?h = "\<lambda>b. NCBlock_HashesTo (ce_codec env) (blockAt cs b) (bid_Hash blockID)"
  have hash: "\<exists>p. b = Some p \<and> NCBlock_Hash (ce_codec env) (Some (cs_blocks cs ! p)) = Ret (bid_Hash blockID)"
    if "?h b = Ret True" for b
    using that by (auto elim!: HashesTo_True simp: blockAt_def)
  let ?l = "cs\<lparr>cs_LockedRound := round\<rparr>"
  let ?n = "cs\<lparr>cs_LockedRound := round, cs_LockedBlock := cs_ProposalBlock cs,
                cs_LockedBlockParts := cs_ProposalBlockParts cs\<rparr>"
  consider
      "?h (cs_LockedBlock cs) = Ret True" "signAddVote env VoteTypePrecommit (bid_Hash blockID)
         (bid_PartsHeader blockID) (emit (FireEvent Relock) ?l) = Ret x"
    | "?h (cs_ProposalBlock cs) = Ret True" "signAddVote env VoteTypePrecommit (bid_Hash blockID)
         (bid_PartsHeader blockID) (emit (FireEvent Lock) ?n) = Ret x"
    | "precommitNil env (emit (FireEvent Unlock) (expectBlock env blockID (unlock cs))) = Ret x"
    using r by (auto simp: precommitBlock_def bindGo_Ret_iff split: if_splits option.splits)
  then show ?thesis
  proof cases
    case 1
    from hash [OF 1(1)] obtain p where p: "cs_LockedBlock cs = Some p"
      "NCBlock_Hash (ce_codec env) (Some (cs_blocks cs ! p)) = Ret (bid_Hash blockID)" by blast
    show ?thesis
      by (rule precommit_locked [OF 1(2) _ sa(2) _ p(2)]) (use relock_wf [OF _ rd p(1)] sa p in simp_all)
  next
    case 2
    from hash [OF 2(1)] obtain p where p: "cs_ProposalBlock cs = Some p"
      "NCBlock_Hash (ce_codec env) (Some (cs_blocks cs ! p)) = Ret (bid_Hash blockID)" by blast
    show ?thesis
      by (rule precommit_locked [OF 2(2) _ sa(2) _ p(2)]) (use lock_wf [OF _ rd p(1)] sa p in simp_all)
  next
    case 3
    show ?thesis
      by (rule precommitNil_precommits [OF 3]) (auto intro: expectBlock_wf unlock_wf silent_emit)
  qed
qed

text \<open>Moving to a later step says nothing.\<close>

definition moves :: "('b, 'v) codec \<Rightarrow> ('b, 'v) consensusState \<Rightarrow> ('b, 'v) consensusState \<Rightarrow> bool" where
  "moves c cs cs' \<longleftrightarrow> phase c cs cs' \<and> silent cs cs'"

lemma moves_trans: "moves c x y \<Longrightarrow> moves c y z \<Longrightarrow> moves c x z"
  unfolding moves_def using phase_trans [of c x y z] silent_trans [of x y z] by simp

lemma quiet_moves: "quiet cs cs' \<Longrightarrow> moves c cs cs'"
  using quiet_phase [of cs cs' c] by (simp add: moves_def quiet_def)

lemma move_moves:
  assumes "cs_Round cs < round \<or> (cs_Round cs = round \<and> cs_Step cs \<le> step)"
    "RoundStepNewHeight < step" "step \<le> RoundStepCommit"
  shows "moves c cs (newStep (updateRoundStep round step cs))"
proof -
  have "moves c cs (updateRoundStep round step cs)"
    using move_phase [OF assms] silent_same_out [of "updateRoundStep round step cs" cs]
    by (simp add: moves_def updateRoundStep_def)
  from moves_trans [OF this quiet_moves [OF newStep_quiet]] show ?thesis .
qed

lemma enterPrecommitWait_moves: "moves c cs (enterPrecommitWait env height round cs)"
proof (cases "cs_Height cs \<noteq> height \<or> round < cs_Round cs
         \<or> (cs_Round cs = round \<and> RoundStepPrecommitWait \<le> cs_Step cs)")
  case False
  let ?s = "scheduleTimeout (TimeoutParams_Precommit (ce_timeoutParams env) round) height round
                RoundStepPrecommitWait cs"
  have s: "quiet cs ?s" by (rule schedule_quiet)
  then have "moves c ?s (newStep (updateRoundStep round RoundStepPrecommitWait ?s))"
    using False by (intro move_moves) (auto simp: quiet_def roundSteps)
  from moves_trans [OF quiet_moves [OF s] this] show ?thesis
    unfolding enterPrecommitWait_def if_not_P [OF False] .
qed (auto simp: enterPrecommitWait_def moves_def)

lemma signAddVote_position:
  "signAddVote env type hash header cs = Ret cs' \<Longrightarrow>
     cs_Height cs' = cs_Height cs \<and> cs_Round cs' = cs_Round cs \<and> cs_Step cs' = cs_Step cs"
  using coreD(1-3) [OF signAddVote_frame(1)] by blast

lemma precommitBlock_position:
  "precommitBlock env round blockID cs = Ret x \<Longrightarrow>
     cs_Height x = cs_Height cs \<and> cs_Round x = cs_Round cs \<and> cs_Step x = cs_Step cs"
  by (auto simp: precommitBlock_def precommitNil_def bindGo_Ret_iff dest!: signAddVote_position
      split: if_splits option.splits)

lemma enterPrecommit_body:
  assumes r: "(case SignAggr_TwoThirdsMajority prevotes of (blockID, ok) \<Rightarrow>
            if \<not> ok then precommitNil env (emit TryFixBadPreimages cs)
            else
              (let cs = emit (FireEvent Polka) cs in
               bindGo (HeightVoteSignAggr_POLInfo (cs_VoteSignAggr cs)) (\<lambda>(polRound, _).
                 if polRound < round then Panic ''This POLRound should be round''
                 else if bid_Hash blockID = []
                 then precommitNil env (if Option.is_none (cs_LockedBlock cs) then cs
                                        else emit (FireEvent Unlock) (unlock cs))
                 else precommitBlock env round blockID cs))) = Ret x"
    and p: "HeightVoteSignAggr_Prevotes (cs_VoteSignAggr cs) round = Ret prevotes"
    and rd: "wfState ext cs \<Longrightarrow> 0 \<le> round"
  shows "precommits ext (ce_codec env) cs x" "cs_Height x = cs_Height cs" "cs_Round x = cs_Round cs"
    "cs_Step x = cs_Step cs"
proof -
  let ?p = "emit (FireEvent Polka) cs"
  consider "precommitNil env (emit TryFixBadPreimages cs) = Ret x"
    | "precommitNil env ?p = Ret x"
    | "precommitNil env (emit (FireEvent Unlock) (unlock ?p)) = Ret x"
    | sa where "prevotes = Some sa" "precommitBlock env round (sa_Maj23 sa) ?p = Ret x"
    using r by (auto simp: Let_def bindGo_Ret_iff SignAggr_TwoThirdsMajority_def split: if_splits option.splits prod.splits)
  then have "precommits ext (ce_codec env) cs x \<and> cs_Height x = cs_Height cs \<and> cs_Round x = cs_Round cs \<and>
    cs_Step x = cs_Step cs"
  proof cases
    case 1
    show ?thesis
      using precommitNil_precommits [OF 1, of ext cs "ce_codec env"] silent_emit [of cs cs TryFixBadPreimages]
        signAddVote_position [OF 1 [unfolded precommitNil_def]] by simp
  next
    case 2
    show ?thesis
      using precommitNil_precommits [OF 2, of ext cs "ce_codec env"] silent_emit [of cs cs "FireEvent Polka"]
        signAddVote_position [OF 2 [unfolded precommitNil_def]] by simp
  next
    case 3
    have "silent cs (emit (FireEvent Unlock) (unlock ?p))"
      by (rule silent2 [OF silent_emit [of cs cs "FireEvent Polka"]]) simp_all
    then show ?thesis
      using precommitNil_precommits [OF 3, of ext cs "ce_codec env"] unlock_wf [of ext ?p]
        signAddVote_position [OF 3 [unfolded precommitNil_def]] by simp
  next
    case (4 sa)
    have "precommits ext (ce_codec env) ?p x"
      by (rule precommitBlock_precommits [OF 4(2)]) (use rd p 4 in auto)
    then have "precommits ext (ce_codec env) cs x" 
      by (rule precommits_before [rotated]) (use silent_emit [of cs cs "FireEvent Polka"] in simp)
    then show ?thesis using precommitBlock_position [OF 4(2)] by simp
  qed  then show "precommits ext (ce_codec env) cs x" "cs_Height x = cs_Height cs" "cs_Round x = cs_Round cs"
    "cs_Step x = cs_Step cs" by simp_all
qed

lemma enterPrecommit_start:
  assumes r: "enterPrecommit env height round cs = Ret cs'"
    and g: "\<not> (cs_Height cs \<noteq> height \<or> round < cs_Round cs
         \<or> (cs_Round cs = round \<and> RoundStepPrecommit \<le> cs_Step cs))"
  obtains x where "precommits ext (ce_codec env) cs x" "cs_Height x = cs_Height cs" "cs_Round x = cs_Round cs"
    "cs_Step x = cs_Step cs" "moves (ce_codec env) x cs'"
proof -
  from r [unfolded enterPrecommit_def if_not_P [OF g] bindGo_Ret_iff] obtain prevotes x where
    p: "HeightVoteSignAggr_Prevotes (cs_VoteSignAggr cs) round = Ret prevotes"
    and x: "(case SignAggr_TwoThirdsMajority prevotes of (blockID, ok) \<Rightarrow>
            if \<not> ok then precommitNil env (emit TryFixBadPreimages cs)
            else
              (let cs = emit (FireEvent Polka) cs in
               bindGo (HeightVoteSignAggr_POLInfo (cs_VoteSignAggr cs)) (\<lambda>(polRound, _).
                 if polRound < round then Panic ''This POLRound should be round''
                 else if bid_Hash blockID = []
                 then precommitNil env (if Option.is_none (cs_LockedBlock cs) then cs
                                        else emit (FireEvent Unlock) (unlock cs))
                 else precommitBlock env round blockID cs))) = Ret x"
    and c: "cs' = enterPrecommitWait env height round (newStep (updateRoundStep round RoundStepPrecommit x))"
    by auto
  have rd: "wfState ext cs \<Longrightarrow> 0 \<le> round" using g by (auto dest!: wfD(4) simp: positionOk_def)
  note b = enterPrecommit_body [where ext = ext, OF x p rd]
  have "moves (ce_codec env) x (newStep (updateRoundStep round RoundStepPrecommit x))"
    using b(3,4) g by (intro move_moves) (auto simp: roundSteps)
  from moves_trans [OF this enterPrecommitWait_moves [of _ _ env height round]] c
  have "moves (ce_codec env) x cs'" by simp
  with b show ?thesis by (rule that)
qed

lemma enterPrecommit_precommits:
  assumes r: "enterPrecommit env height round cs = Ret cs'"
  shows "precommits ext (ce_codec env) cs cs'"
proof (cases "cs_Height cs \<noteq> height \<or> round < cs_Round cs
         \<or> (cs_Round cs = round \<and> RoundStepPrecommit \<le> cs_Step cs)")
  case False
  from r False obtain x where "precommits ext (ce_codec env) cs x" "moves (ce_codec env) x cs'"
    by (rule enterPrecommit_start)
  then show ?thesis using precommits_moves [of ext "ce_codec env" cs x cs'] by (simp add: moves_def)
qed (use r in \<open>auto simp: enterPrecommit_def\<close>)

section \<open>Commits\<close>

lemma sealExtra_fields:
  assumes "sealExtra env sa block te = Ret te'"
  shows "te_SeenCommit te' = Some (SignAggr_MakeCommit (ce_ext env) sa)" "te_Height te' = te_Height te"
    "te_ChainID te' = te_ChainID te" "te_ValidatorsHash te' = te_ValidatorsHash te"
    "te_SeenCommitHash te' = SimpleHashFromBinary (ce_codec env) (SignAggr_MakeCommit (ce_ext env) sa)"
  using assms by (auto simp: sealExtra_def Let_def bindGo_Ret_iff split: if_splits)

lemma blocks_wf:
  assumes w: "wfState ext cs" and l: "length (cs_blocks cs) \<le> length bs"
  shows "wfState ext (cs\<lparr>cs_blocks := bs\<rparr>)"
proof -
  have "storesOk ext (cs\<lparr>cs_blocks := bs\<rparr>)" using wfD(2) [OF w] by (simp add: storesOk_def)
  moreover have "pointersOk (cs\<lparr>cs_blocks := bs\<rparr>)" using wfD(3) [OF w] l
    by (auto simp: pointersOk_def intro: less_le_trans)
  moreover have "positionOk (cs\<lparr>cs_blocks := bs\<rparr>)" using wfD(4) [OF w]
    by (simp add: positionOk_def validStep_def)
  ultimately show ?thesis using wfD(1) [OF w] by (simp add: wfState_def)
qed

lemma commitBlock_cases:
  assumes "commitBlock env sa p cs = Ret cs'"
  obtains "cs' = cs"
  | te te' b x where "nb_NTCExtra (cs_blocks cs ! p) = Some te"
      "sealExtra env sa (cs_blocks cs ! p) te = Ret te'"
      "IsProposer env (emit (FireEvent (NewBlockHeader (te_Height te'))) (emit (FireEvent NewBlock)
         (cs\<lparr>cs_blocks := (cs_blocks cs)[p := (cs_blocks cs ! p)\<lparr>nb_NTCExtra := Some te'\<rparr>]\<rparr>))) = Ret (b, x)"
      "cs' = emit (CommitBlock ((cs_blocks cs ! p)\<lparr>nb_NTCExtra := Some te'\<rparr>) b) x"
  using assms
  by (fastforce simp: commitBlock_def Let_def bindGo_Ret_iff split: option.splits if_splits prod.splits)

lemma commitBlock_preserves:
  assumes r: "commitBlock env sa p cs = Ret cs'"
    and h: "NCBlock_Hash (ce_codec env) (Some (cs_blocks cs ! p)) = Ret (bid_Hash (sa_Maj23 sa))" "bid_Hash (sa_Maj23 sa) \<noteq> []"
    and v: "NCBlock_ValidateBasic (cs_blocks cs ! p) (cs_state cs) = Ret None"
    and a: "wfState (ce_ext env) cs \<Longrightarrow> aggrFor (ce_ext env) (cs_Validators cs) (cs_Height cs) VoteTypePrecommit sa"
  shows "preserves (ce_ext env) (ce_codec env) cs cs'"
  using r
proof (cases rule: commitBlock_cases)
  case (2 te te' b x)
  let ?ext = "ce_ext env"
  let ?y = "cs\<lparr>cs_blocks := (cs_blocks cs)[p := (cs_blocks cs ! p)\<lparr>nb_NTCExtra := Some te'\<rparr>]\<rparr>"
  note f = IsProposer_frame [OF 2(3)]
  note d = coreD(1,4) [OF f(1)]
  show ?thesis unfolding preserves_def
  proof
    assume w: "wfState ?ext cs"
    have out: "cs_out cs' = cs_out cs @ [FireEvent NewBlock, FireEvent (NewBlockHeader (te_Height te')),
        CommitBlock ((cs_blocks cs ! p)\<lparr>nb_NTCExtra := Some te'\<rparr>) b]" using f(2) by (simp add: 2(4))
    have "te_ChainID te = te_ChainID (cs_state cs)" "te_Height te = cs_Height cs"
      using v 2(1) wfD(1) [OF w] by (auto simp: NCBlock_ValidateBasic_def split: if_splits)
    then have "commitOk ?ext (ce_codec env) cs ((cs_blocks cs ! p)\<lparr>nb_NTCExtra := Some te'\<rparr>)"
      using h a [OF w] 2(1) sealExtra_fields [OF 2(2)] unfolding commitOk_def
      by (intro exI [of _ sa] exI [of _ "cs_blocks cs ! p"] exI [of _ te] exI [of _ te']) simp
    moreover have "cs_Height cs' = cs_Height cs" "cs_Validators cs' = cs_Validators cs" using d by (simp_all add: 2(4))
    ultimately have "outcome ?ext (ce_codec env) cs cs'"
      using appendsI [OF out] by (simp add: outcome_def votesIn_def commitsIn_def added_eq [OF out])
    moreover have "wfState ?ext cs'" using wf_core [OF f(1), of ?ext]
        blocks_wf [OF w, of "(cs_blocks cs)[p := (cs_blocks cs ! p)\<lparr>nb_NTCExtra := Some te'\<rparr>]"] by (simp add: 2(4))
    ultimately show "wfState ?ext cs' \<and> outcome ?ext (ce_codec env) cs cs'" by simp
  qed
qed simp

lemma finalizeCommit_cases:
  assumes "finalizeCommit env height cs = Ret cs'"
  obtains "cs' = cs"
  | sa p where "HeightVoteSignAggr_Precommits (cs_VoteSignAggr cs) (cs_CommitRound cs) = Ret (Some sa)"
      "NCBlock_HashesTo (ce_codec env) (blockAt cs (cs_ProposalBlock cs)) (bid_Hash (sa_Maj23 sa)) = Ret True"
      "cs_ProposalBlock cs = Some p" "NCBlock_ValidateBasic (cs_blocks cs ! p) (cs_state cs) = Ret None"
      "commitBlock env sa p cs = Ret cs'"
proof (cases "cs_Height cs \<noteq> height \<or> cs_Step cs \<noteq> RoundStepCommit")
  case False
  then show ?thesis using assms that(2)
    by (auto simp: finalizeCommit_def bindGo_Ret_iff SignAggr_TwoThirdsMajority_def
        split: if_splits option.splits prod.splits)
qed (use assms that(1) in \<open>auto simp: finalizeCommit_def\<close>)

lemma finalizeCommit_preserves:
  assumes "finalizeCommit env height cs = Ret cs'"
  shows "preserves (ce_ext env) (ce_codec env) cs cs'"
  using assms
proof (cases rule: finalizeCommit_cases)
  case (2 sa p)
  have h: "NCBlock_Hash (ce_codec env) (Some (cs_blocks cs ! p)) = Ret (bid_Hash (sa_Maj23 sa))"
    "bid_Hash (sa_Maj23 sa) \<noteq> []"
    using 2(2,3) by (auto elim!: HashesTo_True simp: blockAt_def)
  show ?thesis
  proof (rule commitBlock_preserves [OF 2(5) h 2(4)])
    assume w: "wfState (ce_ext env) cs"
    show "aggrFor (ce_ext env) (cs_Validators cs) (cs_Height cs) VoteTypePrecommit sa"
      using getSignAggr_ok [OF _ 2(1) [unfolded HeightVoteSignAggr_Precommits_def], of "ce_ext env"] wfD(2) [OF w]
      by (simp add: storesOk_def)
  qed
qed simp

lemma tryFinalizeCommit_cases:
  assumes r: "tryFinalizeCommit env height cs = Ret cs'"
  shows "cs' = cs \<or> finalizeCommit env height cs = Ret cs'"
proof -
  from r obtain precommits where
    "HeightVoteSignAggr_Precommits (cs_VoteSignAggr cs) (cs_CommitRound cs) = Ret precommits"
    by (auto simp: tryFinalizeCommit_def bindGo_Ret_iff split: if_splits)
  with r show ?thesis
    by (cases "SignAggr_TwoThirdsMajority precommits")
       (auto simp: tryFinalizeCommit_def bindGo_Ret_iff split: if_splits)
qed

lemma tryFinalizeCommit_preserves:
  "tryFinalizeCommit env height cs = Ret cs' \<Longrightarrow> preserves (ce_ext env) (ce_codec env) cs cs'"
  using tryFinalizeCommit_cases [of env height cs cs'] finalizeCommit_preserves [of env height cs cs'] by auto

definition proposeLocked :: "('b, 'v) consensusState \<Rightarrow> ('b, 'v) consensusState" where
  "proposeLocked cs = cs\<lparr>cs_ProposalBlock := cs_LockedBlock cs, cs_ProposalBlockParts := cs_LockedBlockParts cs\<rparr>"

lemma proposeLocked_wf: "wfState ext cs \<Longrightarrow> wfState ext (proposeLocked cs)"
proof -
  assume w: "wfState ext cs"
  have "storesOk ext (proposeLocked cs)" using wfD(2) [OF w] by (simp add: storesOk_def proposeLocked_def)
  moreover have "pointersOk (proposeLocked cs)" using wfD(3) [OF w]
    by (auto simp: pointersOk_def proposeLocked_def)
  moreover have "positionOk (proposeLocked cs)" using wfD(4) [OF w]
    by (simp add: positionOk_def validStep_def proposeLocked_def)
  ultimately show ?thesis using wfD(1) [OF w] by (simp add: wfState_def proposeLocked_def)
qed

definition atCommit :: "int \<Rightarrow> int \<Rightarrow> ('b, 'v) consensusState \<Rightarrow> ('b, 'v) consensusState" where
  "atCommit commitRound time cs = newStep ((updateRoundStep (cs_Round cs) RoundStepCommit cs)
     \<lparr>cs_CommitRound := commitRound, cs_CommitTime := time\<rparr>)"

lemma atCommit_wf: "wfState ext cs \<Longrightarrow> wfState ext (atCommit commitRound time cs)"
proof -
  assume w: "wfState ext cs"
  let ?x = "(updateRoundStep (cs_Round cs) RoundStepCommit cs)\<lparr>cs_CommitRound := commitRound, cs_CommitTime := time\<rparr>"
  have "storesOk ext ?x" using wfD(2) [OF w] by (simp add: storesOk_def updateRoundStep_def)
  moreover have "pointersOk ?x" using wfD(3) [OF w] by (simp add: pointersOk_def updateRoundStep_def)
  moreover have "positionOk ?x" using wfD(4) [OF w]
    by (simp add: positionOk_def validStep_def updateRoundStep_def roundSteps)
  ultimately have "wfState ext ?x" using wfD(1) [OF w] by (simp add: wfState_def updateRoundStep_def)
  then show ?thesis unfolding atCommit_def by (rule wf_quiet [OF newStep_quiet])
qed

lemma newStep_fields [simp]:
  "cs_Height (newStep cs) = cs_Height cs" "cs_Validators (newStep cs) = cs_Validators cs"
  "cs_state (newStep cs) = cs_state cs" "cs_LockedBlock (newStep cs) = cs_LockedBlock cs"
  "cs_LockedBlockParts (newStep cs) = cs_LockedBlockParts cs" "cs_blocks (newStep cs) = cs_blocks cs"
  "cs_partSets (newStep cs) = cs_partSets cs" "cs_Round (newStep cs) = cs_Round cs"
  "cs_Step (newStep cs) = cs_Step cs" "cs_out (newStep cs) = cs_out cs @ [FireEvent NewRoundStep]"
  by (simp_all add: newStep_def)

lemma atCommit_frame:
  "sameLock cs (atCommit commitRound time cs)" "silent cs (atCommit commitRound time cs)"
  "cs_Validators (atCommit commitRound time cs) = cs_Validators cs"
  "cs_state (atCommit commitRound time cs) = cs_state cs"
  "cs_Round (atCommit commitRound time cs) = cs_Round cs" "cs_Step (atCommit commitRound time cs) = RoundStepCommit"
  by (auto simp: atCommit_def updateRoundStep_def sameLock_def partsAt_def silent_def votesIn_def commitsIn_def
      added_def appends_def)

lemma nth_append_header:
  assumes "pointersOk cs" "cs_LockedBlock cs = Some p"
  shows "PartSet_Header (map_option ((!) (cs_partSets cs @ new)) (cs_LockedBlockParts cs))
    = PartSet_Header (map_option ((!) (cs_partSets cs)) (cs_LockedBlockParts cs))"
  using assms by (cases "cs_LockedBlockParts cs") (auto simp: pointersOk_def nth_append)

lemma expectBlock_sameLock:
  assumes "pointersOk cs"
  shows "sameLock cs (expectBlock env blockID cs)"
proof -
  have "cs_partSets (expectBlock env blockID cs) = cs_partSets cs \<or>
    (\<exists>ps. cs_partSets (expectBlock env blockID cs) = cs_partSets cs @ [ps])"
    by (simp add: expectBlock_def newPartSet_def)
  then show ?thesis using nth_append_header [OF assms]
    by (auto simp: sameLock_def partsAt_def)
qed

lemma enterCommit_cases:
  assumes "enterCommit env height commitRound cs = Ret cs'"
  obtains "cs' = cs"
  | sa x y where "cs_Step cs < RoundStepCommit"
      "HeightVoteSignAggr_Precommits (cs_VoteSignAggr cs) commitRound = Ret (Some sa)"
      "x = cs \<or> x = proposeLocked cs" "y = x \<or> y = expectBlock env (sa_Maj23 sa) x"
      "tryFinalizeCommit env height (atCommit commitRound (ce_now env) y) = Ret cs'"
proof (cases "cs_Height cs \<noteq> height \<or> RoundStepCommit \<le> cs_Step cs")
  case False
  with assms obtain sa locked where
    sa: "HeightVoteSignAggr_Precommits (cs_VoteSignAggr cs) commitRound = Ret (Some sa)"
    and l: "NCBlock_HashesTo (ce_codec env) (blockAt cs (cs_LockedBlock cs)) (bid_Hash (sa_Maj23 sa)) = Ret locked"
    and m: "SignAggr_TwoThirdsMajority (Some sa) = (sa_Maj23 sa, True)"
    by (auto simp: enterCommit_def bindGo_Ret_iff SignAggr_TwoThirdsMajority_def
        split: if_splits option.splits prod.splits)
  let ?x = "if locked then proposeLocked cs else cs"
  from assms [unfolded enterCommit_def if_not_P [OF False] sa bindGo.simps m prod.case l Let_def bindGo_Ret_iff,
      folded proposeLocked_def atCommit_def] obtain proposed where
    t: "tryFinalizeCommit env height (atCommit commitRound (ce_now env)
       (if proposed then ?x else expectBlock env (sa_Maj23 sa) ?x)) = Ret cs'"
    by (simp only: not_True_eq_False if_False bindGo_Ret_iff) blast
  show ?thesis by (rule that(2) [of sa ?x, OF _ sa _ _ t]) (use False in auto)
qed (use assms that(1) in \<open>auto simp: enterCommit_def\<close>)

lemma enterCommit_preserves:
  assumes "enterCommit env height commitRound cs = Ret cs'"
  shows "preserves (ce_ext env) (ce_codec env) cs cs'"
  using assms
proof (cases rule: enterCommit_cases)
  case (2 sa x y)
  let ?z = "atCommit commitRound (ce_now env) y"
  show ?thesis
  proof (rule preserves_after [OF _ tryFinalizeCommit_preserves [OF 2(5)]])
    assume w: "wfState (ce_ext env) cs"
    have x: "wfState (ce_ext env) x" using 2(3) w proposeLocked_wf [OF w] by auto
    have xf: "sameLock cs x" "cs_out x = cs_out cs" "cs_Validators x = cs_Validators cs" "cs_state x = cs_state cs"
      using 2(3) by (auto simp: proposeLocked_def sameLock_def partsAt_def)
    have y: "wfState (ce_ext env) y" using 2(4) x expectBlock_wf [OF x] by auto
    have yf: "sameLock x y" "cs_out y = cs_out x" "cs_Validators y = cs_Validators x" "cs_state y = cs_state x"
      using 2(4) expectBlock_sameLock [OF wfD(3) [OF x]] by (auto simp: sameLock_def)
    have "sameLock cs ?z" using xf(1) yf(1) atCommit_frame(1) [of y commitRound "ce_now env"]
      by (auto simp: sameLock_def)
    moreover have "silent cs ?z" using silent_trans [OF silent_same_out [of y cs] atCommit_frame(2)] xf yf by simp
    ultimately show "wfState (ce_ext env) ?z \<and> sameLock cs ?z \<and> silent cs ?z \<and> cs_Validators ?z = cs_Validators cs \<and>
      te_Height (cs_state ?z) = te_Height (cs_state cs) \<and> te_ChainID (cs_state ?z) = te_ChainID (cs_state cs)"
      using atCommit_wf [OF y] atCommit_frame(3,4) [of commitRound "ce_now env" y] xf yf by simp
  qed
qed simp

end
