(* ===== verification/Consensus_Steps.thy ===== *)
theory Consensus_Steps
  imports Consensus_Invariant
begin

text \<open>
  The events of a node: messages, timeouts, blocks of the miner, committed blocks and changes of the
  epoch. Block parts, aggregates and votes keep a state well formed; then the relation of all events
  and the reachable states.
\<close>

section \<open>Block parts\<close>

lemma AddPart_header:
  assumes "PartSet_AddPart ext ps part verify = Ret (ps', ok, err)"
  shows "PartSet_Header (Some ps') = PartSet_Header (Some ps)"
  using assms by (auto simp: PartSet_AddPart_def PartSet_Header_def split: if_splits)

lemma parts_wf:
  assumes w: "wfState ext cs" and l: "length ps = length (cs_partSets cs)"
  shows "wfState ext (cs\<lparr>cs_partSets := ps\<rparr>)"
proof -
  have "storesOk ext (cs\<lparr>cs_partSets := ps\<rparr>)" using wfD(2) [OF w] by (simp add: storesOk_def)
  moreover have "pointersOk (cs\<lparr>cs_partSets := ps\<rparr>)" using wfD(3) [OF w] l by (simp add: pointersOk_def)
  moreover have "positionOk (cs\<lparr>cs_partSets := ps\<rparr>)" using wfD(4) [OF w]
    by (simp add: positionOk_def validStep_def)
  ultimately show ?thesis using wfD(1) [OF w] by (simp add: wfState_def)
qed

lemma decodeProposal_wf:
  assumes w: "wfState ext cs" and p: "cs_ProposalBlockParts cs \<noteq> None"
  shows "wfState ext (decodeProposal env reader cs)"
proof -
  have "storesOk ext (decodeProposal env reader cs)" using wfD(2) [OF w]
    by (auto simp: storesOk_def decodeProposal_def split: option.splits)
  moreover have "pointersOk (decodeProposal env reader cs)" using wfD(3) [OF w] p
    by (cases "NCBlock_FromBytes (ce_codec env) reader")
       (auto simp: pointersOk_def decodeProposal_def less_Suc_eq)
  moreover have "positionOk (decodeProposal env reader cs)" using wfD(4) [OF w]
    by (auto simp: positionOk_def validStep_def decodeProposal_def split: option.splits)
  ultimately show ?thesis using wfD(1) [OF w]
    by (auto simp: wfState_def decodeProposal_def split: option.splits)
qed

lemma decodeProposal_fields [simp]:
  "cs_out (decodeProposal env reader cs) = cs_out cs"
  "cs_Height (decodeProposal env reader cs) = cs_Height cs"
  "cs_Validators (decodeProposal env reader cs) = cs_Validators cs"
  "cs_state (decodeProposal env reader cs) = cs_state cs"
  "cs_Round (decodeProposal env reader cs) = cs_Round cs" "cs_Step (decodeProposal env reader cs) = cs_Step cs"
  by (auto simp: decodeProposal_def split: option.splits)

lemma decodeProposal_sameLock: "pointersOk cs \<Longrightarrow> sameLock cs (decodeProposal env reader cs)"
  by (auto simp: sameLock_def decodeProposal_def partsAt_def pointersOk_def nth_append split: option.splits)

lemma parts_sameLock:
  assumes "PartSet_Header (Some ps) = PartSet_Header (Some (cs_partSets cs ! i))"
  shows "sameLock cs (cs\<lparr>cs_partSets := (cs_partSets cs)[i := ps]\<rparr>)"
proof -
  have "PartSet_Header (Some ((cs_partSets cs)[i := ps] ! j)) = PartSet_Header (Some (cs_partSets cs ! j))" for j
    using assms by (cases "i < length (cs_partSets cs)"; cases "i = j") (simp_all add: list_update_beyond)
  then show ?thesis
    by (cases "cs_LockedBlockParts cs") (simp_all add: sameLock_def partsAt_def)
qed

lemma addProposalBlockPart_cases:
  assumes "addProposalBlockPart env height round part verify cs = Ret cs'"
  obtains "cs' = cs"
  | i p ps y ok err where "cs_ProposalBlockParts cs = Some i"
      "PartSet_AddPart (ce_ext env) (cs_partSets cs ! i) p verify = Ret (ps, ok, err)"
      "y = cs\<lparr>cs_partSets := (cs_partSets cs)[i := ps]\<rparr>" "cs' = y"
  | i p ps y ok err reader z where "cs_ProposalBlockParts cs = Some i"
      "PartSet_AddPart (ce_ext env) (cs_partSets cs ! i) p verify = Ret (ps, ok, err)"
      "y = cs\<lparr>cs_partSets := (cs_partSets cs)[i := ps]\<rparr>" "z = decodeProposal env reader y"
      "enterPrevote env height (cs_Round z) z = Ret cs' \<or> tryFinalizeCommit env height z = Ret cs' \<or> cs' = z"
proof (cases "cs_Height cs \<noteq> height \<or> cs_Round cs \<noteq> round \<or> cs_ProposalBlockParts cs = None")
  case True
  then show ?thesis using assms that(1) by (auto simp: addProposalBlockPart_def split: if_splits)
next
  case False
  then obtain i where i: "cs_ProposalBlockParts cs = Some i" by auto
  with False assms obtain p ps ok err where
    a: "PartSet_AddPart (ce_ext env) (cs_partSets cs ! i) p verify = Ret (ps, ok, err)" "part = Some p"
    by (auto simp: addProposalBlockPart_def bindGo_Ret_iff split: option.splits if_splits)
  let ?y = "cs\<lparr>cs_partSets := (cs_partSets cs)[i := ps]\<rparr>"
  show ?thesis
  proof (cases "err \<noteq> None \<or> \<not> ok \<or> \<not> PartSet_IsComplete ps")
    case True
    then show ?thesis using that(2) [OF i a(1) refl] assms False i a by (auto simp: addProposalBlockPart_def)
  next
    case c: False
    from assms False i a c obtain reader where
      "enterPrevote env height (cs_Round (decodeProposal env reader ?y)) (decodeProposal env reader ?y) = Ret cs' \<or>
       tryFinalizeCommit env height (decodeProposal env reader ?y) = Ret cs' \<or> cs' = decodeProposal env reader ?y"
      by (auto simp: addProposalBlockPart_def Let_def bindGo_Ret_iff split: if_splits)
    then show ?thesis by (rule that(3) [OF i a(1) refl refl])
  qed
qed

lemma addProposalBlockPart_preserves:
  assumes "addProposalBlockPart env height round part verify cs = Ret cs'"
  shows "preserves (ce_ext env) (ce_codec env) cs cs'"
proof -
  have y: "wfState ext x \<and> sameLock cs x \<and> silent cs x \<and> cs_Validators x = cs_Validators cs \<and> cs_state x = cs_state cs"
    if "wfState ext cs" "PartSet_AddPart (ce_ext env) (cs_partSets cs ! i) p verify = Ret (ps, ok, err)"
      "x = cs\<lparr>cs_partSets := (cs_partSets cs)[i := ps]\<rparr>" for ext i p ps ok err x
    using that(1,3) parts_wf [OF that(1), of "(cs_partSets cs)[i := ps]"] parts_sameLock [OF AddPart_header [OF that(2)]]
      silent_same_out [of x cs] by simp
  from assms show ?thesis
  proof (cases rule: addProposalBlockPart_cases)
    case (2 i p ps x ok err)
    then show ?thesis using y [OF _ 2(2,3)] by (intro preserves_after [OF _ preserves_refl]) simp
  next
    case (3 i p ps x ok err reader z)
    have z: "preserves (ce_ext env) (ce_codec env) z cs'"
      using 3(5) phase_preserves [OF enterPrevote_phase, of env height "cs_Round z" z cs']
        tryFinalizeCommit_preserves [of env height z cs'] by auto
    show ?thesis
    proof (rule preserves_after [OF _ z])
      assume w: "wfState (ce_ext env) cs"
      note yy = y [OF w 3(2,3)]
      have "cs_ProposalBlockParts x \<noteq> None" using 3(1,3) by simp
      then have "wfState (ce_ext env) z" using decodeProposal_wf yy 3(4) by blast
      moreover have "sameLock cs z" using yy decodeProposal_sameLock [of x env reader] wfD(3) [of "ce_ext env" x] 3(4)
        by (auto simp: sameLock_def)
      moreover have "silent cs z" using yy silent_trans [of cs x z] silent_same_out [of z x] 3(4) by simp
      ultimately show "wfState (ce_ext env) z \<and> sameLock cs z \<and> silent cs z \<and> cs_Validators z = cs_Validators cs \<and>
        te_Height (cs_state z) = te_Height (cs_state cs) \<and> te_ChainID (cs_state z) = te_ChainID (cs_state cs)"
        using yy 3(4) by simp
    qed
  qed simp
qed

section \<open>Aggregates\<close>

lemma aggrs_wf:
  assumes w: "wfState ext cs" and a: "aggrsOk ext aggrs" "sameAggrs (cs_VoteSignAggr cs) aggrs"
    "hsa_round aggrs = hsa_round (cs_VoteSignAggr cs)"
  shows "wfState ext (cs\<lparr>cs_VoteSignAggr := aggrs\<rparr>)"
proof -
  have "storesOk ext (cs\<lparr>cs_VoteSignAggr := aggrs\<rparr>)" using wfD(2) [OF w] a
    by (simp add: storesOk_def sameAggrs_def)
  moreover have "pointersOk (cs\<lparr>cs_VoteSignAggr := aggrs\<rparr>)" using wfD(3) [OF w] by (simp add: pointersOk_def)
  moreover have "positionOk (cs\<lparr>cs_VoteSignAggr := aggrs\<rparr>)" using wfD(4) [OF w]
    by (simp add: positionOk_def validStep_def)
  ultimately show ?thesis using wfD(1) [OF w] by (simp add: wfState_def)
qed

lemma maj23_wf:
  assumes w: "wfState ext cs"
  shows "aggrFor ext (cs_Validators cs) (cs_Height cs) VoteTypePrevote sa \<Longrightarrow>
      wfState ext (cs\<lparr>cs_PrevoteMaj23SignAggr := Some sa\<rparr>)"
    and "aggrFor ext (cs_Validators cs) (cs_Height cs) VoteTypePrecommit sa \<Longrightarrow>
      wfState ext (cs\<lparr>cs_PrecommitMaj23SignAggr := Some sa\<rparr>)"
  using wfD [OF w] by (simp_all add: wfState_def storesOk_def pointersOk_def positionOk_def validStep_def)

lemma releaseLock_cases:
  assumes "releaseLock env sa cs = Ret cs'"
  shows "cs' = cs \<or> cs' = emit (FireEvent Unlock) (unlock cs)"
  using assms by (auto simp: releaseLock_def bindGo_Ret_iff split: if_splits)

lemma setMaj23SignAggr_cases:
  assumes "setMaj23SignAggr env sa cs = Ret (err, b, cs')"
  obtains "cs' = cs"
  | aggrs fresh x where "aggrFor (ce_ext env) (cs_Validators cs) (cs_Height cs) (sa_Type sa) sa"
      "HeightVoteSignAggr_AddSignAggr (cs_VoteSignAggr cs) sa = Ret (aggrs, fresh)"
      "x = cs\<lparr>cs_VoteSignAggr := aggrs\<rparr>" "cs' = x"
  | aggrs fresh x y z where "aggrFor (ce_ext env) (cs_Validators cs) (cs_Height cs) VoteTypePrevote sa"
      "HeightVoteSignAggr_AddSignAggr (cs_VoteSignAggr cs) sa = Ret (aggrs, fresh)"
      "x = cs\<lparr>cs_VoteSignAggr := aggrs\<rparr>" "y = x\<lparr>cs_PrevoteMaj23SignAggr := Some sa\<rparr>"
      "z = y \<or> z = emit (FireEvent Unlock) (unlock y)"
      "cs' = z \<or> enterPrecommit env (cs_Height z) (cs_Round z) z = Ret cs'"
  | aggrs fresh x y where "aggrFor (ce_ext env) (cs_Validators cs) (cs_Height cs) VoteTypePrecommit sa"
      "HeightVoteSignAggr_AddSignAggr (cs_VoteSignAggr cs) sa = Ret (aggrs, fresh)"
      "x = cs\<lparr>cs_VoteSignAggr := aggrs\<rparr>" "y = x\<lparr>cs_PrecommitMaj23SignAggr := Some sa\<rparr>"
      "cs' = y \<or> enterCommit env (cs_Height y) (cs_Round y) y = Ret cs'"
proof (cases "sa_Height sa \<noteq> cs_Height cs \<or> blsVerifySignAggr env (cs_Validators cs) sa \<noteq> (True, None) \<or>
    (sa_Type sa \<noteq> VoteTypePrevote \<and> sa_Type sa \<noteq> VoteTypePrecommit)")
  case True
  then show ?thesis using assms that(1) by (auto simp: setMaj23SignAggr_def split: if_splits)
next
  case False
  then have v: "aggrFor (ce_ext env) (cs_Validators cs) (cs_Height cs) (sa_Type sa) sa"
    and t: "sa_Type sa = VoteTypePrevote \<or> sa_Type sa = VoteTypePrecommit"
    by (auto simp: aggrFor_def blsVerify_iff)
  from assms False obtain aggrs fresh where
    a: "HeightVoteSignAggr_AddSignAggr (cs_VoteSignAggr cs) sa = Ret (aggrs, fresh)"
    by (auto simp: setMaj23SignAggr_def bindGo_Ret_iff split: if_splits prod.splits)
  let ?x = "cs\<lparr>cs_VoteSignAggr := aggrs\<rparr>"
  let ?p = "?x\<lparr>cs_PrevoteMaj23SignAggr := Some sa\<rparr>" and ?c = "?x\<lparr>cs_PrecommitMaj23SignAggr := Some sa\<rparr>"
  show ?thesis
  proof (cases "sa_Type sa = VoteTypePrevote")
    case True
    consider "cs' = ?x" | z where "releaseLock env sa ?p = Ret z"
        "cs' = z \<or> enterPrecommit env (cs_Height z) (cs_Round z) z = Ret cs'"
      using assms False a True by (auto simp: setMaj23SignAggr_def Let_def bindGo_Ret_iff split: if_splits)
    then show ?thesis
    proof cases
      case 1
      show ?thesis by (rule that(2) [OF v a refl 1])
    next
      case (2 z)
      show ?thesis by (rule that(3) [OF v [unfolded True] a refl refl releaseLock_cases [OF 2(1)] 2(2)])
    qed
  next
    case prevote: False
    with t have "sa_Type sa = VoteTypePrecommit" by simp
    note v' = v [unfolded this]
    have "cs' = ?x \<or> cs' = ?c \<or> enterCommit env (cs_Height ?c) (cs_Round ?c) ?c = Ret cs'"
      using assms False a prevote unfolding setMaj23SignAggr_def Let_def bindGo_Ret_iff
      by (simp split: if_splits add: bindGo_Ret_iff)
    then consider "cs' = ?x" | "cs' = ?c \<or> enterCommit env (cs_Height ?c) (cs_Round ?c) ?c = Ret cs'" by blast
    then show ?thesis
    proof cases
      case 1
      show ?thesis by (rule that(2) [OF v a refl 1])
    next
      case 2
      show ?thesis by (rule that(4) [OF v' a refl refl 2])
    qed
  qed
qed

lemma setMaj23SignAggr_preserves:
  assumes "setMaj23SignAggr env sa cs = Ret (err, b, cs')"
  shows "preserves (ce_ext env) (ce_codec env) cs cs'"
proof -
  let ?ext = "ce_ext env"
  have x: "wfState ?ext (cs\<lparr>cs_VoteSignAggr := aggrs\<rparr>)"
    if "wfState ?ext cs" "aggrFor ?ext (cs_Validators cs) (cs_Height cs) (sa_Type sa) sa"
      "HeightVoteSignAggr_AddSignAggr (cs_VoteSignAggr cs) sa = Ret (aggrs, fresh)" for aggrs fresh
    by (rule aggrs_wf [OF that(1)])
       (use HSA_AddSignAggr_ok [OF _ that(3), of ?ext] wfD(2) [OF that(1)] that(2) in \<open>auto simp: storesOk_def\<close>)
  from assms show ?thesis
  proof (cases rule: setMaj23SignAggr_cases)
    case (2 aggrs fresh y)
    show ?thesis
      by (rule preserves_after [OF _ preserves_refl])
         (use x 2 silent_same_out [of y cs] in \<open>auto simp: sameLock_def partsAt_def\<close>)
  next
    case (3 aggrs fresh y z w)
    have t: "sa_Type sa = VoteTypePrevote" using 3(1) by (simp add: aggrFor_def)
    have p: "precommits ?ext (ce_codec env) w cs'" using 3(6) enterPrecommit_precommits by auto
    have "precommits ?ext (ce_codec env) cs cs'"
    proof (rule precommits_before [OF _ p])
      assume ok: "wfState ?ext cs"
      have z: "wfState ?ext z" using maj23_wf(1) [of ?ext y sa] x [OF ok _ 3(2)] 3 t by simp
      have s: "silent cs z" "cs_out z = cs_out cs" using silent_same_out [of z cs] 3 by simp_all
      show "wfState ?ext w \<and> silent cs w \<and> cs_Height w = cs_Height cs \<and>
        cs_Validators w = cs_Validators cs \<and> te_ChainID (cs_state w) = te_ChainID (cs_state cs)"
        using 3(3-5) z s unlock_wf [OF z] silent_emit [of "unlock z" cs "FireEvent Unlock"] by auto
    qed
    then show ?thesis by (rule precommits_preserves)
  next
    case (4 aggrs fresh y z)
    have t: "sa_Type sa = VoteTypePrecommit" using 4(1) by (simp add: aggrFor_def)
    have p: "preserves ?ext (ce_codec env) z cs'" using 4(5) enterCommit_preserves by auto
    show ?thesis
    proof (rule preserves_after [OF _ p])
      assume ok: "wfState ?ext cs"
      have "wfState ?ext z" using maj23_wf(2) [of ?ext y sa] x [OF ok _ 4(2)] 4 t by simp
      then show "wfState ?ext z \<and> sameLock cs z \<and> silent cs z \<and> cs_Validators z = cs_Validators cs \<and>
        te_Height (cs_state z) = te_Height (cs_state cs) \<and> te_ChainID (cs_state z) = te_ChainID (cs_state cs)"
        using 4(3,4) silent_same_out [of z cs] by (simp add: sameLock_def partsAt_def)
    qed
  qed simp
qed

section \<open>Votes\<close>

lemma votes_wf:
  assumes w: "wfState ext cs" and v: "hvs_inv ext votes" "same_height (cs_Votes cs) votes"
    "hvs_round votes = hvs_round (cs_Votes cs)"
  shows "wfState ext (cs\<lparr>cs_Votes := votes\<rparr>)"
  using wfD [OF w] v by (simp add: wfState_def storesOk_def pointersOk_def positionOk_def validStep_def same_height_def)

lemma sendMaj23SignAggr_quiet:
  assumes "sendMaj23SignAggr env voteType cs = Ret cs'"
  shows "quiet cs cs'"
proof -
  have "cs' = cs \<or> (\<exists>sa. cs' = sendInternalMessage (Maj23SignAggrMessage (Some sa)) (emit (FireSignAggr sa) cs))"
  proof (cases "voteType \<noteq> VoteTypePrevote \<and> voteType \<noteq> VoteTypePrecommit")
    case False
    with assms obtain vs where v: "HeightVoteSet_getVoteSet (cs_Votes cs) (cs_Round cs) voteType = Ret (Some vs)"
      unfolding sendMaj23SignAggr_def if_not_P [OF False] bindGo_Ret_iff by (auto split: option.splits)
    obtain maj23 ok where m: "VoteSet_TwoThirdsMajority (Some vs) = (maj23, ok)" by fastforce
    obtain bits sigs ss where f: "fold (collectVote env maj23) (vset_votes vs)
        (BA_New (ce_ext env) (ValidatorSet_Size (cs_Validators cs)), [], []) = (bits, sigs, ss)"
      using prod_cases3 by blast
    show ?thesis
      using assms unfolding sendMaj23SignAggr_def if_not_P [OF False] v bindGo.simps option.case m prod.case Let_def f
      by (auto split: if_splits option.splits)
  qed (use assms in \<open>simp add: sendMaj23SignAggr_def\<close>)
  moreover have "quiet cs (sendInternalMessage (Maj23SignAggrMessage (Some sa)) (emit (FireSignAggr sa) cs))" for sa
    unfolding sendInternalMessage_def by (rule quiet_trans [OF quiet_emit quiet_emit]) simp_all
  ultimately show ?thesis by auto
qed

lemma addVote_cases:
  assumes "addVote env msg peer cs = Ret (err, cs')"
  obtains b where "IsProposer env cs = Ret (b, cs')"
  | b x v votes ok err' y where "IsProposer env cs = Ret (b, x)"
      "HeightVoteSet_AddVote (ce_ext env) (cs_Votes x) v peer = Ret (votes, ok, err')"
      "y = x\<lparr>cs_Votes := votes\<rparr>" "cs' = y \<or> (\<exists>type. sendMaj23SignAggr env type y = Ret cs')"
proof -
  from assms obtain b x where x: "IsProposer env cs = Ret (b, x)" by (auto simp: addVote_def bindGo_Ret_iff)
  show ?thesis
  proof (cases "cs' = x")
    case True
    then show ?thesis using that(1) x by simp
  next
    case False
    with assms x obtain v before where v: "b" "msg = Some v"
      "\<not> (vote_Height v \<noteq> cs_Height x \<or> sint (vote_Round v) \<noteq> cs_Round x)"
      "HeightVoteSet_getVoteSet (cs_Votes x) (cs_Round x)
         (if vote_Type v = VoteTypePrevote then VoteTypePrevote else VoteTypePrecommit) = Ret before"
      "\<not> VoteSet_HasTwoThirdsMajority before"
      by (auto simp: addVote_def bindGo_Ret_iff Let_def split: if_splits option.splits)
    from assms [unfolded addVote_def x v(2) bindGo.simps prod.case option.case Let_def if_not_P [OF v(3)] v(4)
        if_not_P [OF v(5)]] v(1)
    obtain votes ok err' where a: "HeightVoteSet_AddVote (ce_ext env) (cs_Votes x) v peer = Ret (votes, ok, err')"
      and c: "cs' = x\<lparr>cs_Votes := votes\<rparr> \<or> (\<exists>type. sendMaj23SignAggr env type (x\<lparr>cs_Votes := votes\<rparr>) = Ret cs')"
      by (auto simp: bindGo_Ret_iff split: if_splits prod.splits)
    show ?thesis by (rule that(2) [OF x a refl c])
  qed
qed

lemma addVote_preserves:
  assumes laws: "bitArray_laws (ce_ext env)" and r: "addVote env msg peer cs = Ret (err, cs')"
  shows "preserves (ce_ext env) (ce_codec env) cs cs'"
  using r
proof (cases rule: addVote_cases)
  case (1 b)
  show ?thesis by (rule quiet_preserves [OF IsProposer_quiet [OF 1]])
next
  case (2 b x v votes ok err' y)
  have y: "preserves (ce_ext env) (ce_codec env) y cs'"
    using 2(4) quiet_preserves [OF sendMaj23SignAggr_quiet] by auto
  have "preserves (ce_ext env) (ce_codec env) x cs'"
  proof (rule preserves_after [OF _ y])
    assume w: "wfState (ce_ext env) x"
    have "hvs_inv (ce_ext env) (cs_Votes x)" using wfD(2) [OF w] by (simp add: storesOk_def)
    from votes_wf [OF w] HVS_AddVote_inv [OF laws this 2(2)] have "wfState (ce_ext env) y" by (simp add: 2(3))
    then show "wfState (ce_ext env) y \<and> sameLock x y \<and> silent x y \<and> cs_Validators y = cs_Validators x \<and>
        te_Height (cs_state y) = te_Height (cs_state x) \<and> te_ChainID (cs_state y) = te_ChainID (cs_state x)"
      using silent_same_out [of y x] by (simp add: 2(3) sameLock_def partsAt_def)
  qed
  then show ?thesis by (rule quiet_before [OF IsProposer_quiet [OF 2(1)]])
qed

section \<open>Messages and timeouts\<close>

lemma handleMsg_preserves:
  assumes laws: "bitArray_laws (ce_ext env)" and r: "handleMsg env mi cs = Ret cs'"
  shows "preserves (ce_ext env) (ce_codec env) cs cs'"
proof (cases "mi_Msg mi")
  case (ProposalMessage p)
  with r obtain err where "defaultSetProposal env p cs = Ret (err, cs')"
    by (auto simp: handleMsg_def bindGo_Ret_iff)
  then show ?thesis by (rule defaultSetProposal_preserves [OF laws])
next
  case (BlockPartMessage h rd p)
  with r show ?thesis by (auto simp: handleMsg_def intro: addProposalBlockPart_preserves)
next
  case (Maj23SignAggrMessage sa)
  with r have "cs' = cs \<or> (\<exists>a err b. setMaj23SignAggr env a cs = Ret (err, b, cs'))"
    by (auto simp: handleMsg_def handleSignAggr_def bindGo_Ret_iff split: option.splits if_splits)
  then show ?thesis using setMaj23SignAggr_preserves by auto
next
  case (VoteMessage v)
  with r obtain err where "addVote env v (mi_PeerKey mi) cs = Ret (err, cs')"
    by (auto simp: handleMsg_def tryAddVote_def bindGo_Ret_iff)
  then show ?thesis by (rule addVote_preserves [OF laws])
next
  case OtherMessage
  with r show ?thesis by (simp add: handleMsg_def)
qed

lemma handleTimeout_cases:
  assumes "handleTimeout env ti cs = Ret cs'"
  obtains "cs' = cs" | "enterNewRound env (ti_Height ti) 0 cs = Ret cs'"
  | "enterPropose env (ti_Height ti) (ti_Round ti) (emit (FireEvent TimeoutPropose) cs) = Ret cs'"
  | "enterPrevote env (ti_Height ti) (ti_Round ti) (emit (FireEvent TimeoutPropose) cs) = Ret cs'"
  | "enterPrecommit env (ti_Height ti) (ti_Round ti) (emit (FireEvent TimeoutWait) cs) = Ret cs'"
  | "enterNewRound env (ti_Height ti) (ti_Round ti + 1) (emit (FireEvent TimeoutWait) cs) = Ret cs'"
proof (cases "ti_Height ti \<noteq> cs_Height cs \<or> ti_Round ti < cs_Round cs
         \<or> (ti_Round ti = cs_Round cs \<and> ti_Step ti < cs_Step cs)")
  case True
  from assms [unfolded handleTimeout_def if_P [OF True]] show ?thesis using that(1) by simp
next
  case False
  note r = assms [unfolded handleTimeout_def if_not_P [OF False]]
  consider "ti_Step ti = RoundStepNewHeight" | "ti_Step ti = RoundStepWaitForMinerBlock" | "ti_Step ti = RoundStepPropose"
    | "ti_Step ti = RoundStepPrevoteWait" | "ti_Step ti = RoundStepPrecommitWait"
    using r by (auto split: if_splits)
  then show ?thesis
  proof cases
    case 1
    with r have "enterNewRound env (ti_Height ti) 0 cs = Ret cs'" by simp
    then show ?thesis by (rule that(2))
  next
    case 2
    with r have "enterPropose env (ti_Height ti) (ti_Round ti) (emit (FireEvent TimeoutPropose) cs) = Ret cs'"
      by (simp add: roundSteps)
    then show ?thesis by (rule that(3))
  next
    case 3
    with r have "enterPrevote env (ti_Height ti) (ti_Round ti) (emit (FireEvent TimeoutPropose) cs) = Ret cs'"
      by (simp add: roundSteps)
    then show ?thesis by (rule that(4))
  next
    case 4
    with r have "enterPrecommit env (ti_Height ti) (ti_Round ti) (emit (FireEvent TimeoutWait) cs) = Ret cs'"
      by (simp add: roundSteps)
    then show ?thesis by (rule that(5))
  next
    case 5
    with r have "enterNewRound env (ti_Height ti) (ti_Round ti + 1) (emit (FireEvent TimeoutWait) cs) = Ret cs'"
      by (simp add: roundSteps)
    then show ?thesis by (rule that(6))
  qed
qed

lemma handleTimeout_preserves:
  assumes laws: "bitArray_laws (ce_ext env)" and r: "handleTimeout env ti cs = Ret cs'"
  shows "preserves (ce_ext env) (ce_codec env) cs cs'"
proof -
  have e: "preserves (ce_ext env) (ce_codec env) cs cs'"
    if "preserves (ce_ext env) (ce_codec env) (emit (FireEvent ev) cs) cs'" for ev
    by (rule quiet_before [OF quiet_emit that]) simp_all
  from r show ?thesis
  proof (cases rule: handleTimeout_cases)
    case 2
    then show ?thesis by (rule enterNewRound_preserves [OF laws])
  next
    case 3
    then show ?thesis by (rule e [OF phase_preserves [OF enterPropose_phase]])
  next
    case 4
    then show ?thesis by (rule e [OF phase_preserves [OF enterPrevote_phase]])
  next
    case 5
    then show ?thesis by (rule e [OF precommits_preserves [OF enterPrecommit_precommits]])
  next
    case 6
    then show ?thesis by (rule e [OF enterNewRound_preserves [OF laws]])
  qed simp
qed

section \<open>The start of a height\<close>

lemma NewHeightVoteSet_height:
  "NewHeightVoteSet ext chainID height vals = Ret hvs \<Longrightarrow> height \<noteq> 0"
  by (auto simp: NewHeightVoteSet_def HeightVoteSet_Reset_def HeightVoteSet_addRound_def NewVoteSet_def
      bindGo_Ret_iff split: if_splits)

lemma dropMinerBlock_fields [simp]:
  "cs_Epoch (dropMinerBlock h cs) = cs_Epoch cs" "cs_Height (dropMinerBlock h cs) = cs_Height cs"
  "cs_ProposalBlock (dropMinerBlock h cs) = cs_ProposalBlock cs"
  "cs_ProposalBlockParts (dropMinerBlock h cs) = cs_ProposalBlockParts cs"
  "cs_LockedBlock (dropMinerBlock h cs) = cs_LockedBlock cs"
  "cs_LockedBlockParts (dropMinerBlock h cs) = cs_LockedBlockParts cs"
  "cs_LockedRound (dropMinerBlock h cs) = cs_LockedRound cs"
  "cs_PrevoteMaj23SignAggr (dropMinerBlock h cs) = cs_PrevoteMaj23SignAggr cs"
  "cs_PrecommitMaj23SignAggr (dropMinerBlock h cs) = cs_PrecommitMaj23SignAggr cs"
  "cs_out (dropMinerBlock h cs) = cs_out cs"
  by (auto simp: dropMinerBlock_def split: option.splits)

text \<open>The state that \<open>UpdateToState\<close> leaves.\<close>

lemma UpdateToState_cases:
  assumes "UpdateToState env state cs = Ret cs'"
  obtains votes aggrs start where
    "NewHeightVoteSet (ce_ext env) (ce_LigoChainId env) (te_Height state + 1) (ep_Validators (cs_Epoch cs)) = Ret votes"
    "NewHeightVoteSignAggr (ce_LigoChainId env) (te_Height state + 1) (ep_Validators (cs_Epoch cs)) = Ret aggrs"
    "cs' = newStep ((updateRoundStep 0 RoundStepNewHeight
        (dropMinerBlock (te_Height state + 1) ((Initialize cs)\<lparr>cs_Height := te_Height state + 1\<rparr>)))
        \<lparr>cs_StartTime := start, cs_Validators := ep_Validators (cs_Epoch cs), cs_Votes := votes,
         cs_VoteSignAggr := aggrs, cs_vrfValIndex := -1, cs_pastRoundStates := [], cs_state := state\<rparr>)"
proof -
  let ?x = "updateRoundStep 0 RoundStepNewHeight
        (dropMinerBlock (te_Height state + 1) ((Initialize cs)\<lparr>cs_Height := te_Height state + 1\<rparr>))"
  have e: "cs_Epoch ?x = cs_Epoch cs" by (simp add: updateRoundStep_def Initialize_def)
  from assms [unfolded UpdateToState_def Let_def bindGo_Ret_iff] obtain vals where
    v: "State_GetValidators state (cs_Epoch cs) = Ret vals"
    and r: "(case vals of
           None \<Rightarrow> Panic ''nil pointer dereference''
         | Some (_, validators) \<Rightarrow>
             bindGo (NewHeightVoteSet (ce_ext env) (ce_LigoChainId env) (te_Height state + 1) validators) (\<lambda>votes.
             bindGo (NewHeightVoteSignAggr (ce_LigoChainId env) (te_Height state + 1) validators) (\<lambda>voteSignAggr.
               Ret (newStep (?x\<lparr>cs_StartTime := TimeoutParams_Commit (ce_timeoutParams env)
                    (if isMainChainId (te_ChainID state) \<or> cs_CommitTime ?x = zeroTime then ce_now env
                     else cs_CommitTime ?x), cs_Validators := validators, cs_Votes := votes,
                 cs_VoteSignAggr := voteSignAggr, cs_vrfValIndex := -1, cs_pastRoundStates := [],
                 cs_state := state\<rparr>))))) = Ret cs'"
    by (auto simp: e)
  from v r obtain p where vals: "vals = Some (p, ep_Validators (cs_Epoch cs))"
    by (auto simp: State_GetValidators_def split: if_splits option.splits)
  show ?thesis using r unfolding vals by (auto simp: bindGo_Ret_iff intro!: that)
qed

lemma UpdateToState_wf:
  assumes laws: "bitArray_laws (ce_ext env)" and nn: "powers_nonneg (ep_Validators (cs_Epoch cs))"
    and r: "UpdateToState env state cs = Ret cs'"
  shows "wfState (ce_ext env) cs'" "cs_Epoch cs' = cs_Epoch cs" "appends cs cs'" "votesIn cs cs' = {}"
    "commitsIn cs cs' = {}"
proof -
  from r obtain votes aggrs start where
    v: "NewHeightVoteSet (ce_ext env) (ce_LigoChainId env) (te_Height state + 1) (ep_Validators (cs_Epoch cs)) = Ret votes"
    and a: "NewHeightVoteSignAggr (ce_LigoChainId env) (te_Height state + 1) (ep_Validators (cs_Epoch cs)) = Ret aggrs"
    and c: "cs' = newStep ((updateRoundStep 0 RoundStepNewHeight
        (dropMinerBlock (te_Height state + 1) ((Initialize cs)\<lparr>cs_Height := te_Height state + 1\<rparr>)))
        \<lparr>cs_StartTime := start, cs_Validators := ep_Validators (cs_Epoch cs), cs_Votes := votes,
         cs_VoteSignAggr := aggrs, cs_vrfValIndex := -1, cs_pastRoundStates := [], cs_state := state\<rparr>)"
    (is "_ = newStep ?x")
    by (rule UpdateToState_cases)
  have vv: "hvs_inv (ce_ext env) votes" "hvs_height votes = te_Height state + 1"
    "hvs_valSet votes = ep_Validators (cs_Epoch cs)" "hvs_round votes = 0"
    using NewHeightVoteSet_inv [OF laws nn NewHeightVoteSet_height [OF v], of "ce_LigoChainId env"] v by auto
  have "storesOk (ce_ext env) ?x" using vv NewHeightVoteSignAggr_ok(1) [OF a, of "ce_ext env"]
      NewHeightVoteSignAggr_ok(2-4) [OF a] nn
    by (simp add: storesOk_def updateRoundStep_def Initialize_def)
  moreover have "pointersOk ?x" by (simp add: pointersOk_def updateRoundStep_def Initialize_def)
  moreover have "positionOk ?x" using vv
    by (simp add: positionOk_def validStep_def updateRoundStep_def Initialize_def roundSteps)
  ultimately have "wfState (ce_ext env) ?x" by (simp add: wfState_def updateRoundStep_def Initialize_def)
  then show "wfState (ce_ext env) cs'" unfolding c by (rule wf_quiet [OF newStep_quiet])
  show "cs_Epoch cs' = cs_Epoch cs" by (simp add: c newStep_def emit_def updateRoundStep_def Initialize_def)
  have "cs_out cs' = cs_out cs @ [FireEvent NewRoundStep]" by (simp add: c updateRoundStep_def Initialize_def)
  then show "appends cs cs'" "votesIn cs cs' = {}" "commitsIn cs cs' = {}"
    by (auto simp: appends_def votesIn_def commitsIn_def added_def)
qed

lemma StartNewHeight_wf:
  assumes laws: "bitArray_laws (ce_ext env)" and nn: "powers_nonneg (ep_Validators (cs_Epoch cs))"
    and r: "StartNewHeight env cs = Ret cs'"
  shows "wfState (ce_ext env) cs'" "appends cs cs'" "votesIn cs cs' = {}" "commitsIn cs cs' = {}"
proof -
  from r obtain state x where u: "UpdateToState env state cs = Ret x" and c: "cs' = scheduleRound0 env (newStep x)"
    by (auto simp: StartNewHeight_def bindGo_Ret_iff)
  note x = UpdateToState_wf [OF laws nn u]
  have q: "quiet x cs'" unfolding c scheduleRound0_def by (rule quiet_trans [OF newStep_quiet schedule_quiet])
  then have s: "appends x cs'" "votesIn x cs' = {}" "commitsIn x cs' = {}" by (simp_all add: quiet_def silent_def)
  show "wfState (ce_ext env) cs'" by (rule wf_quiet [OF q x(1)])
  show "appends cs cs'" "votesIn cs cs' = {}" "commitsIn cs cs' = {}"
    using x(3-5) s appends_trans [OF x(3) s(1)] votesIn_trans [OF x(3) s(1)] commitsIn_trans [OF x(3) s(1)] by auto
qed

section \<open>The events of a node\<close>

text \<open>Each event happens in an environment of its own; the libraries and the encoding are fixed.\<close>

inductive consensus_step :: "'b ext \<Rightarrow> ('b, 'v) codec \<Rightarrow> ('b, 'v) consensusState \<Rightarrow> ('b, 'v) consensusState \<Rightarrow> bool"
  for ext c where
  message: "ce_ext env = ext \<Longrightarrow> ce_codec env = c \<Longrightarrow> handleMsg env mi cs = Ret cs' \<Longrightarrow> consensus_step ext c cs cs'"
| timeout: "ce_ext env = ext \<Longrightarrow> ce_codec env = c \<Longrightarrow> handleTimeout env ti cs = Ret cs' \<Longrightarrow> consensus_step ext c cs cs'"
| request: "ce_ext env = ext \<Longrightarrow> ce_codec env = c \<Longrightarrow> onRequest env block cs = Ret cs' \<Longrightarrow> consensus_step ext c cs cs'"
| inserted: "ce_ext env = ext \<Longrightarrow> ce_codec env = c \<Longrightarrow> onFinalCommitted env n cs = Ret cs' \<Longrightarrow> consensus_step ext c cs cs'"
| epoch: "powers_nonneg (ep_Validators e) \<Longrightarrow> consensus_step ext c cs (Backend_SetEpoch e cs)"

inductive consensus_reachable :: "'b ext \<Rightarrow> ('b, 'v) codec \<Rightarrow> ('b, 'v) consensusState \<Rightarrow> bool" for ext c where
  start: "ce_ext env = ext \<Longrightarrow> ce_codec env = c \<Longrightarrow> powers_nonneg (ep_Validators (cs_Epoch cs0)) \<Longrightarrow>
    StartNewHeight env cs0 = Ret cs \<Longrightarrow> consensus_reachable ext c cs"
| step: "consensus_reachable ext c cs \<Longrightarrow> consensus_step ext c cs cs' \<Longrightarrow> consensus_reachable ext c cs'"

lemma miner_wf:
  assumes w: "wfState ext cs"
  shows "wfState ext (cs\<lparr>cs_blockFromMiner := b\<rparr>)"
  using wfD [OF w] by (simp add: wfState_def storesOk_def pointersOk_def positionOk_def validStep_def)

lemma SetEpoch_wf:
  assumes w: "wfState ext cs" and e: "powers_nonneg (ep_Validators e)"
  shows "wfState ext (Backend_SetEpoch e cs)"
  using wfD [OF w] e
  by (simp add: Backend_SetEpoch_def wfState_def storesOk_def pointersOk_def positionOk_def validStep_def)

lemma onRequest_cases:
  assumes "onRequest env block cs = Ret cs'"
  obtains "cs' = cs" | "cs' = cs\<lparr>cs_blockFromMiner := Some block\<rparr>"
    | x where "StartNewHeight env cs = Ret x" "cs' = x\<lparr>cs_blockFromMiner := Some block\<rparr>"
proof (cases "cs_Height cs \<le> Block_NumberU64 block")
  case True
  note r = assms [unfolded onRequest_def if_P [OF True]]
  show ?thesis
  proof (cases "cs_Height cs + 1 \<le> Block_NumberU64 block")
    case True
    from r [unfolded if_P [OF True] bindGo_Ret_iff] obtain x where
      "StartNewHeight env cs = Ret x" "cs' = x\<lparr>cs_blockFromMiner := Some block\<rparr>" by blast
    then show ?thesis by (rule that(3))
  next
    case False
    from r [unfolded if_not_P [OF False]] have "cs' = cs\<lparr>cs_blockFromMiner := Some block\<rparr>" by simp
    then show ?thesis by (rule that(2))
  qed
next
  case False
  from assms [unfolded onRequest_def if_not_P [OF False]] have "cs' = cs" by simp
  then show ?thesis by (rule that(1))
qed

text \<open>What a step keeps and what it sends, from a well-formed state.\<close>

definition stepOk ::
    "('b, 'z) ext_scheme \<Rightarrow> ('b, 'v) codec \<Rightarrow> ('b, 'v) consensusState \<Rightarrow> ('b, 'v) consensusState \<Rightarrow> bool" where
  "stepOk ext c cs cs' \<longleftrightarrow> wfState ext cs' \<and> appends cs cs' \<and>
     (\<forall>v\<in>votesIn cs cs'. prevoteOk c cs v \<or> precommitOk ext c cs' v) \<and>
     (\<forall>b\<in>commitsIn cs cs'. commitOk ext c cs b)"

lemma preserves_stepOk: "preserves ext c cs cs' \<Longrightarrow> wfState ext cs \<Longrightarrow> stepOk ext c cs cs'"
  by (simp add: preserves_def outcome_def stepOk_def)

lemma newHeight_stepOk:
  assumes laws: "bitArray_laws (ce_ext env)" and w: "wfState (ce_ext env) cs" and r: "StartNewHeight env cs = Ret cs'"
  shows "stepOk (ce_ext env) c cs cs'"
proof -
  have "powers_nonneg (ep_Validators (cs_Epoch cs))" using wfD(2) [OF w] by (simp add: storesOk_def)
  from StartNewHeight_wf [OF laws this r] show ?thesis by (simp add: stepOk_def)
qed

lemma step_stepOk:
  assumes "bitArray_laws ext" "consensus_step ext c cs cs'" "wfState ext cs"
  shows "stepOk ext c cs cs'"
  using assms(2)
proof cases
  case (message env mi)
  then show ?thesis using preserves_stepOk [OF handleMsg_preserves] assms(1,3) by blast
next
  case (timeout env ti)
  then show ?thesis using preserves_stepOk [OF handleTimeout_preserves] assms(1,3) by blast
next
  case (request env block)
  from request(3) show ?thesis
  proof (cases rule: onRequest_cases)
    case 1
    then show ?thesis using preserves_stepOk [OF preserves_refl assms(3)] by simp
  next
    case 2
    then show ?thesis using miner_wf [OF assms(3)] silent_same_out [of cs' cs] by (simp add: stepOk_def silent_def)
  next
    case (3 x)
    have x: "stepOk ext c cs x" using newHeight_stepOk [of env cs x c] request 3(1) assms by simp
    have "added cs cs' = added cs x" by (simp add: added_def 3(2))
    then have "votesIn cs cs' = {}" "commitsIn cs cs' = {}" "appends cs cs'"
      using StartNewHeight_wf(2-4) [OF _ _ 3(1)] request assms(1) wfD(2) [OF assms(3)]
      by (simp_all add: votesIn_def commitsIn_def appends_def 3(2) storesOk_def)
    then show ?thesis using x miner_wf [of ext x] by (simp add: stepOk_def 3(2))
  qed
next
  case (inserted env n)
  then have "cs' = cs \<or> StartNewHeight env cs = Ret cs'" by (auto simp: onFinalCommitted_def split: if_splits)
  then show ?thesis using newHeight_stepOk [of env cs cs' c] inserted assms preserves_stepOk [OF preserves_refl assms(3)]
    by auto
next
  case (epoch e)
  then show ?thesis using SetEpoch_wf [OF assms(3)] silent_same_out [of cs' cs]
    by (simp add: stepOk_def silent_def Backend_SetEpoch_def)
qed

lemma reachable_wf:
  assumes "bitArray_laws ext" "consensus_reachable ext c cs"
  shows "wfState ext cs"
  using assms(2)
proof induction
  case (start env cs0 cs)
  then show ?case using StartNewHeight_wf(1) [of env cs0 cs] assms(1) by simp
next
  case (step cs cs')
  then show ?case using step_stepOk [OF assms(1)] by (auto simp: stepOk_def)
qed

end
