(* ===== verification/Consensus_Theorems.thy ===== *)
theory Consensus_Theorems
  imports Consensus_Steps
begin

text \<open>
  The properties of the consensus: reachable states are well formed, what is committed and by whom,
  the lock of a validator, and the order of rounds and steps. The run at the end, of a validator of
  four from the start of a height to the commit of its block, is the input of the witnesses.
\<close>

section \<open>The position in a height\<close>

definition forward :: "('b, 'v) consensusState \<Rightarrow> ('b, 'v) consensusState \<Rightarrow> bool" where
  "forward cs cs' \<longleftrightarrow> cs_Height cs' = cs_Height cs \<and> later cs cs'"

lemma forward_refl [simp]: "forward cs cs"
  by (simp add: forward_def)

lemma forward_trans: "forward x y \<Longrightarrow> forward y z \<Longrightarrow> forward x z"
  using later_trans [of x y z] by (simp add: forward_def)

lemma forward_same:
  "cs_Height cs' = cs_Height cs \<Longrightarrow> cs_Round cs' = cs_Round cs \<Longrightarrow> cs_Step cs' = cs_Step cs \<Longrightarrow> forward cs cs'"
  by (simp add: forward_def later_def)

lemma phase_forward: "phase c cs cs' \<Longrightarrow> forward cs cs'"
  using bodyD(1) [of cs' cs] by (simp add: phase_def forward_def)

lemma quiet_forward: "quiet cs cs' \<Longrightarrow> forward cs cs'"
  using phase_forward [OF quiet_phase] .

lemma core_forward: "core cs' = core cs \<Longrightarrow> forward cs cs'"
  using coreD(1-3) [of cs' cs] by (simp add: forward_same)

lemma enterNewRound_forward:
  assumes "enterNewRound env height round cs = Ret cs'"
  shows "forward cs cs'"
  using assms
proof (cases rule: enterNewRound_cases)
  case (2 aggrs votes)
  let ?x = "atRound round aggrs votes (round \<noteq> 0) (AList.update round ROUND_NOT_PROPOSED (cs_pastRoundStates cs)) cs"
  have x: "cs_Height ?x = cs_Height cs" "cs_Round ?x = round" "cs_Step ?x = RoundStepNewRound"
    by (simp_all add: atRound_def clearProposal_def updateRoundStep_def)
  have "forward cs ?x"
  proof (cases "cs_Round cs = round")
    case True
    from 2(3) [OF True] True x show ?thesis by (simp add: forward_def later_def roundSteps)
  qed (use x 2(2) in \<open>simp add: forward_def later_def\<close>)
  from forward_trans [OF this phase_forward [OF proposeOrWait_phase [OF 2(6)]]] show ?thesis .
qed simp

lemma enterPrecommit_forward:
  assumes r: "enterPrecommit env height round cs = Ret cs'"
  shows "forward cs cs'"
proof (cases "cs_Height cs \<noteq> height \<or> round < cs_Round cs
         \<or> (cs_Round cs = round \<and> RoundStepPrecommit \<le> cs_Step cs)")
  case False
  from r False obtain x where x: "cs_Height x = cs_Height cs" "cs_Round x = cs_Round cs" "cs_Step x = cs_Step cs"
    and "moves (ce_codec env) x cs'"
    by (rule enterPrecommit_start)
  then have "forward x cs'" using phase_forward by (auto simp: moves_def)
  with forward_same [OF x] show ?thesis by (rule forward_trans)
qed (use r in \<open>auto simp: enterPrecommit_def\<close>)

lemma tryFinalizeCommit_forward:
  assumes r: "tryFinalizeCommit env height cs = Ret cs'"
  shows "forward cs cs'"
proof -
  have "cs' = cs \<or> finalizeCommit env height cs = Ret cs'" by (rule tryFinalizeCommit_cases [OF r])
  moreover have "forward cs cs'" if "commitBlock env sa p cs = Ret cs'" for sa p
    using that
  proof (cases rule: commitBlock_cases)
    case (2 te te' b x)
    show ?thesis using coreD(1-3) [OF IsProposer_frame(1) [OF 2(3)]] by (intro forward_same) (simp_all add: 2(4))
  qed simp
  moreover have "cs' = cs \<or> (\<exists>sa p. commitBlock env sa p cs = Ret cs')" if "finalizeCommit env height cs = Ret cs'"
    using that by (cases rule: finalizeCommit_cases) auto
  ultimately show ?thesis by auto
qed

lemma enterCommit_forward:
  assumes "enterCommit env height commitRound cs = Ret cs'"
  shows "forward cs cs'"
  using assms
proof (cases rule: enterCommit_cases)
  case (2 sa x y)
  have "cs_Height y = cs_Height cs" "cs_Round y = cs_Round cs" "cs_Step y = cs_Step cs"
    using 2(3,4) by (auto simp: proposeLocked_def)
  then have "forward cs (atCommit commitRound (ce_now env) y)"
    using 2(1) atCommit_frame(1) [of y commitRound "ce_now env"] atCommit_frame(5,6) [of commitRound "ce_now env" y]
    by (simp add: forward_def later_def sameLock_def)
  from forward_trans [OF this tryFinalizeCommit_forward [OF 2(5)]] show ?thesis .
qed simp

lemma addProposalBlockPart_forward:
  assumes "addProposalBlockPart env height round part verify cs = Ret cs'"
  shows "forward cs cs'"
  using assms
proof (cases rule: addProposalBlockPart_cases)
  case (2 i p ps y ok err)
  then show ?thesis by (intro forward_same) simp_all
next
  case (3 i p ps y ok err reader z)
  have "forward cs z" using 3(3,4) by (intro forward_same) simp_all
  moreover have "forward z cs'"
    using 3(5) phase_forward [OF enterPrevote_phase] tryFinalizeCommit_forward by auto
  ultimately show ?thesis by (rule forward_trans)
qed simp

lemma setMaj23SignAggr_forward:
  assumes "setMaj23SignAggr env sa cs = Ret (err, b, cs')"
  shows "forward cs cs'"
  using assms
proof (cases rule: setMaj23SignAggr_cases)
  case (2 aggrs fresh x)
  then show ?thesis by (intro forward_same) simp_all
next
  case (3 aggrs fresh x y z)
  have "forward cs z" using 3(3-5) by (intro forward_same) auto
  moreover have "forward z cs'" using 3(6) enterPrecommit_forward by auto
  ultimately show ?thesis by (rule forward_trans)
next
  case (4 aggrs fresh x y)
  have "forward cs y" using 4(3,4) by (intro forward_same) simp_all
  moreover have "forward y cs'" using 4(5) enterCommit_forward by auto
  ultimately show ?thesis by (rule forward_trans)
qed simp

lemma addVote_forward:
  assumes "addVote env msg peer cs = Ret (err, cs')"
  shows "forward cs cs'"
  using assms
proof (cases rule: addVote_cases)
  case (1 b)
  then show ?thesis by (rule quiet_forward [OF IsProposer_quiet])
next
  case (2 b x v votes ok err' y)
  have "forward x y" using 2(3) by (intro forward_same) simp_all
  moreover have "forward y cs'" using 2(4) quiet_forward [OF sendMaj23SignAggr_quiet] by auto
  ultimately show ?thesis using forward_trans [OF quiet_forward [OF IsProposer_quiet [OF 2(1)]]] forward_trans by blast
qed

text \<open>
  The only way back: a proposal for a round that had none, signed by the proposer of that round,
  while the node has no proposal.
\<close>

definition loweredBy :: "('b, 'v) consEnv \<Rightarrow> proposal \<Rightarrow> ('b, 'v) consensusState \<Rightarrow> ('b, 'v) consensusState \<Rightarrow> bool" where
  "loweredBy env p cs cs' \<longleftrightarrow> cs_Proposal cs = None \<and> cs_Proposal cs' = Some p \<and> cs_Height cs' = cs_Height cs \<and>
     pr_Height p = cs_Height cs \<and> pr_Round p < cs_Round cs \<and>
     proposalStatus cs (pr_Round p) = ROUND_NOT_PROPOSED \<and>
     (\<exists>q x. proposerByRound env (pr_Round p) cs = Ret (q, x) \<and>
        VerifyBytes (ce_ext env) (val_PubKey (vp_Proposer q))
          (Proposal_SignBytes (ce_ext env) (ce_LigoChainId env) p) (pr_Signature p))"

lemma enterLowerRound_height:
  assumes "enterLowerRound env height round cs = Ret cs'"
  shows "cs_Height cs' = cs_Height cs"
proof -
  from assms obtain aggrs votes past where
    "proposeOrWait env height round (atRound round aggrs votes True past cs) = Ret cs'"
    by (rule enterLowerRound_cases)
  from phase_forward [OF proposeOrWait_phase [OF this]] show ?thesis
    by (simp add: forward_def atRound_def clearProposal_def updateRoundStep_def)
qed

lemma storeProposal_fields [simp]:
  "cs_Height (storeProposal env p cs) = cs_Height cs" "cs_Round (storeProposal env p cs) = cs_Round cs"
  "cs_Step (storeProposal env p cs) = cs_Step cs" "cs_Proposal (storeProposal env p cs) = Some p"
  by (simp_all add: storeProposal_def newPartSet_def)

lemma defaultSetProposal_forward:
  assumes "defaultSetProposal env msg cs = Ret (err, cs')"
  shows "forward cs cs' \<or> (\<exists>p. msg = Some p \<and> loweredBy env p cs cs')"
  using assms
proof (cases rule: defaultSetProposal_cases)
  case (2 v)
  then show ?thesis using core_forward GetProposer_frame by blast
next
  case (3 v x p)
  have "forward cs x" using core_forward GetProposer_frame [OF 3(1)] by blast
  moreover have "forward x cs'" by (rule forward_same) (simp_all add: 3(2))
  ultimately show ?thesis using forward_trans by blast
next
  case (4 v r)
  then show ?thesis using core_forward proposerByRound_frame by blast
next
  case (5 v x y p)
  note c = coreD(1,19) [OF conjunct1 [OF proposerByRound_frame [OF 5(1)]]]
  have "loweredBy env p cs cs'"
    using 5 c enterLowerRound_height [OF 5(5)] by (auto simp: loweredBy_def proposalStatus_def)
  then show ?thesis using 5(9) by blast
qed simp

lemma handleTimeout_forward:
  assumes r: "handleTimeout env ti cs = Ret cs'"
  shows "forward cs cs'"
proof -
  have e: "forward cs (emit (FireEvent ev) cs)" for ev by (rule forward_same) simp_all
  from r show ?thesis
  proof (cases rule: handleTimeout_cases)
    case 1
    then show ?thesis by simp
  next
    case 2
    then show ?thesis by (rule enterNewRound_forward)
  next
    case 3
    then show ?thesis using forward_trans [OF e phase_forward [OF enterPropose_phase]] by blast
  next
    case 4
    then show ?thesis using forward_trans [OF e phase_forward [OF enterPrevote_phase]] by blast
  next
    case 5
    then show ?thesis using forward_trans [OF e enterPrecommit_forward] by blast
  next
    case 6
    then show ?thesis using forward_trans [OF e enterNewRound_forward] by blast
  qed
qed

section \<open>A run\<close>

text \<open>A chain at its genesis, four validators, and the node of the second of them.\<close>

definition demo_header :: "int \<Rightarrow> blob header" where
  "demo_header n = \<lparr>hd_ParentHash = [], hd_UncleHash = [], hd_Coinbase = [], hd_Root = [], hd_TxHash = [],
     hd_ReceiptHash = [], hd_Bloom = [], hd_Difficulty = None, hd_Number = Some n, hd_GasLimit = 0,
     hd_GasUsed = 0, hd_Time = 0, hd_Extra = StringBlob [], hd_MixDigest = [], hd_Nonce = [],
     hd_MainChainNumber = None\<rparr>"

definition demo_block :: "int \<Rightarrow> blob ligoBlock" where
  "demo_block n = \<lparr>lb_header = demo_header n, lb_uncles = [], lb_transactions = []\<rparr>"

definition demo_extra :: "(bool list option, blob) tendermintExtra" where
  "demo_extra = zeroExtra\<lparr>te_ChainID := ''ligochain'', te_Height := 1, te_ValidatorsHash := [8],
     te_SeenCommit := Some \<lparr>cm_BlockID = zeroBlockID, cm_Height = 0, cm_Round = 0, cm_SignAggr = [],
       cm_BitArray = None\<rparr>\<rparr>"

definition demo_parts :: "bool list option partSet" where
  "demo_parts = (case NewPartSetFromData demo_ext [5] 8 of Ret ps \<Rightarrow> ps)"

definition demo_decision :: blockID where
  "demo_decision = \<lparr>bid_Hash = [1], bid_PartsHeader = PartSet_Header (Some demo_parts)\<rparr>"

definition demo_aggr :: "u8 \<Rightarrow> bool list option signAggr" where
  "demo_aggr type = MakeSignAggr 1 0 type 4 demo_decision ''ligochain'' (Some [True, True, True, False])
     (Some ([11, 12, 13] @ Vote_SignBytes demo_ext ''ligochain'' (aggregatedVote demo_decision 1 0 type)))"

text \<open>What the node seals the block with; this is also what reading back the extra data gives.\<close>

definition demo_sealed :: "(bool list option, blob) tendermintExtra" where
  "demo_sealed = demo_extra\<lparr>te_SeenCommit := Some (SignAggr_MakeCommit demo_ext (demo_aggr VoteTypePrecommit)),
     te_SeenCommitHash := [6]\<rparr>"

definition demo_codec :: "(bool list option, blob) codec" where
  "demo_codec = \<lparr>rlpHash = (\<lambda>h. [3]), nilUncleHash = [], MagicExtra = StringBlob [],
     ExtraBytes = (\<lambda>_. StringBlob []), ReadExtra = (\<lambda>_. Some demo_sealed), SimpleHashFromMap = (\<lambda>h. [ucast (he_Height h)]),
     SimpleHashFromBinary = (\<lambda>_. [6]), SimpleHashFromHashables = (\<lambda>_. [8]), EncodeBlock = (\<lambda>_. [4]),
     DecodeBlock = (\<lambda>_. Some (demo_block 1)), TmpBlockBytes = (\<lambda>_. [5]),
     ReadTmpBlock = (\<lambda>_ _. Some ([4], Some demo_extra, []))\<rparr>"

definition demo_env :: "(bool list option, blob) consEnv" where
  "demo_env = \<lparr>ce_ext = demo_ext, ce_nilBits = None, ce_wire = demo_wire, ce_codec = demo_codec,
     ce_sha256 = (\<lambda>b. b),
     ce_chain = \<lparr>cr_CurrentHeader = demo_header 0, cr_GetHeaderByNumber = (\<lambda>_. None),
       cr_CurrentBlock = demo_block 0, cr_GetBlockByNumber = (\<lambda>_. None), cr_GetHeader = (\<lambda>_ _. None),
       cr_ValidateBlock = None\<rparr>,
     ce_epochDB = Map.empty, ce_zone = 0, ce_now = 1000, ce_LigoChainId = ''ligochain'', ce_NodeID = ''node'',
     ce_timeoutParams = \<lparr>tp_WaitForMinerBlock0 = 1, tp_Propose0 = 1, tp_ProposeDelta = 1, tp_Prevote0 = 1,
       tp_PrevoteDelta = 1, tp_Precommit0 = 1, tp_PrecommitDelta = 1, tp_Commit0 = 1\<rparr>,
     ce_ChainContractMagicAddr = [99], ce_FunctionTypeFromId = (\<lambda>_. None),
     ce_UnpackWithdrawFromMainChain = (\<lambda>_. None), ce_GetTX3ProofData = (\<lambda>_ _. None),
     ce_ValidateTX3ProofData = (\<lambda>_. True), ce_ValidateTX4 = (\<lambda>_ _. True)\<rparr>"

definition demo_firstEpoch :: epoch where
  "demo_firstEpoch = Epoch \<lparr>ef_Number = 0, ef_RewardPerBlock = 1, ef_StartBlock = 0, ef_EndBlock = 9,
    ef_StartTime = 0, ef_EndTime = 0, ef_BlockGenerated = 0, ef_Status = EPOCH_SAVED,
    ef_Validators = demo_validators\<rparr> None None None None"

definition demo_node :: "(bool list option, blob) consensusState" where
  "demo_node = \<lparr>cs_Height = 0, cs_Round = 0, cs_Step = 0, cs_StartTime = 0, cs_CommitTime = 0,
     cs_Validators = \<lparr>vs_Validators = [], vs_totalVotingPower = None\<rparr>, cs_Proposal = None,
     cs_ProposalBlock = None, cs_ProposalBlockParts = None, cs_ProposerPeerKey = [], cs_LockedRound = 0,
     cs_LockedBlock = None, cs_LockedBlockParts = None,
     cs_Votes = \<lparr>hvs_chainID = [], hvs_height = 0,
        hvs_valSet = \<lparr>vs_Validators = [], vs_totalVotingPower = None\<rparr>, hvs_round = 0,
        hvs_roundVoteSets = Map.empty, hvs_peerCatchupRounds = Map.empty\<rparr>,
     cs_VoteSignAggr = \<lparr>hsa_chainID = [], hsa_height = 0,
        hsa_valSet = \<lparr>vs_Validators = [], vs_totalVotingPower = None\<rparr>, hsa_round = 0,
        hsa_roundVoteSignAggrs = Map.empty\<rparr>,
     cs_CommitRound = 0, cs_PrevoteMaj23SignAggr = None, cs_PrecommitMaj23SignAggr = None, cs_proposer = None,
     cs_isProposer = False, cs_privValidator = Some \<lparr>pv_Address = [2], pv_Sign = (\<lambda>m. 50 # m)\<rparr>,
     cs_Epoch = demo_firstEpoch, cs_state = zeroExtra, cs_vrfValIndex = -1, cs_pastRoundStates = [], cs_nSteps = 0,
     cs_blockFromMiner = None, cs_blocks = [], cs_partSets = [], cs_out = []\<rparr>"

definition demo_proposal :: proposal where
  "demo_proposal = (NewProposal 1 0 [1] (PartSet_Header (Some demo_parts)) (-1) zeroBlockID ''peer'')
     \<lparr>pr_Signature := 11 # Proposal_SignBytes demo_ext ''ligochain''
        (NewProposal 1 0 [1] (PartSet_Header (Some demo_parts)) (-1) zeroBlockID ''peer'')\<rparr>"

text \<open>The proposal, the block and the prevotes or the precommits of three validators arrive.\<close>

definition retOf :: "'a go \<Rightarrow> 'a" where
  "retOf g = (case g of Ret x \<Rightarrow> x)"

definition demo_msg :: "bool list option consensusMessage \<Rightarrow> bool list option msgInfo" where
  "demo_msg m = \<lparr>mi_Msg = m, mi_PeerKey = ''peer''\<rparr>"

definition demo_started :: "(bool list option, blob) consensusState" where
  "demo_started = retOf (StartNewHeight demo_env demo_node)"

definition demo_proposed :: "(bool list option, blob) consensusState" where
  "demo_proposed = retOf (handleMsg demo_env (demo_msg (ProposalMessage (Some demo_proposal))) demo_started)"

definition demo_received :: "(bool list option, blob) consensusState" where
  "demo_received = retOf (handleMsg demo_env (demo_msg (BlockPartMessage 1 0 (ps_parts demo_parts ! 0))) demo_proposed)"

definition demo_majority :: "u8 \<Rightarrow> (bool list option, blob) consensusState" where
  "demo_majority type = retOf (handleMsg demo_env (demo_msg (Maj23SignAggrMessage (Some (demo_aggr type)))) demo_received)"

lemma retOf: "returns g \<Longrightarrow> g = Ret (retOf g)"
  by (cases g) (simp_all add: retOf_def)

lemma demo_started: "StartNewHeight demo_env demo_node = Ret demo_started"
  unfolding demo_started_def by (rule retOf) code_simp

lemma demo_proposed:
  "handleMsg demo_env (demo_msg (ProposalMessage (Some demo_proposal))) demo_started = Ret demo_proposed"
  unfolding demo_proposed_def by (rule retOf) code_simp

lemma demo_received:
  "handleMsg demo_env (demo_msg (BlockPartMessage 1 0 (ps_parts demo_parts ! 0))) demo_proposed = Ret demo_received"
  unfolding demo_received_def by (rule retOf) code_simp

lemma demo_prevotes:
  "handleMsg demo_env (demo_msg (Maj23SignAggrMessage (Some (demo_aggr VoteTypePrevote)))) demo_received
     = Ret (demo_majority VoteTypePrevote)"
  unfolding demo_majority_def by (rule retOf) code_simp

lemma demo_precommits:
  "handleMsg demo_env (demo_msg (Maj23SignAggrMessage (Some (demo_aggr VoteTypePrecommit)))) demo_received
     = Ret (demo_majority VoteTypePrecommit)"
  unfolding demo_majority_def by (rule retOf) code_simp

lemma demo_env_fields [simp]: "ce_ext demo_env = demo_ext" "ce_codec demo_env = demo_codec"
  by (simp_all add: demo_env_def)

lemma demo_node_reachable: "consensus_reachable demo_ext demo_codec demo_received"
proof -
  have "powers_nonneg (ep_Validators (cs_Epoch demo_node))" by code_simp
  then have "consensus_reachable demo_ext demo_codec demo_started"
    using consensus_reachable.start [OF _ _ _ demo_started] by simp
  then have "consensus_reachable demo_ext demo_codec demo_proposed"
    by (rule consensus_reachable.step) (use consensus_step.message [OF _ _ demo_proposed] in simp)
  then show ?thesis
    by (rule consensus_reachable.step) (use consensus_step.message [OF _ _ demo_received] in simp)
qed

lemma demo_steps:
  "consensus_step demo_ext demo_codec demo_received (demo_majority VoteTypePrevote)"
  "consensus_step demo_ext demo_codec demo_received (demo_majority VoteTypePrecommit)"
  using consensus_step.message [OF _ _ demo_prevotes] consensus_step.message [OF _ _ demo_precommits] by simp_all

section \<open>Properties\<close>

lemma SetRound_returns:
  assumes laws: "bitArray_laws ext" and w: "wfState ext cs"
    and r: "cs_Round cs < round \<or> (round = cs_Round cs \<and> cs_Step cs = RoundStepNewHeight)"
  shows "returns (HeightVoteSignAggr_SetRound (cs_VoteSignAggr cs) (round + 1))"
    "returns (HeightVoteSet_SetRound ext (cs_Votes cs) (round + 1))"
proof -
  have s: "hvs_inv ext (cs_Votes cs)" "hsa_round (cs_VoteSignAggr cs) = hvs_round (cs_Votes cs)"
    using wfD(2) [OF w] by (simp_all add: storesOk_def)
  have "hvs_round (cs_Votes cs) = 0 \<or> hvs_round (cs_Votes cs) < round + 1"
    using wfD(4) [OF w] r unfolding positionOk_def by linarith
  then show "returns (HeightVoteSignAggr_SetRound (cs_VoteSignAggr cs) (round + 1))"
    "returns (HeightVoteSet_SetRound ext (cs_Votes cs) (round + 1))"
    using hsa.setRound_iff [of "cs_VoteSignAggr cs" "round + 1"] hvs.setRound_iff [of ext "cs_Votes cs" "round + 1"]
      s laws by simp_all
qed

text \<open>
  C4: every state that a node can reach through messages, timeouts, blocks of the miner, inserted
  blocks and changes of the epoch is well formed: the height follows the last block, both vote stores
  belong to the height and its validators, every stored aggregate has a verified signature of enough
  voting power for its round and type, pointers lead to existing blocks and part sets, a lock has a
  block, the parts and a round, and the stores are at most one round ahead. In such a state the check
  of \<open>SetRound\<close> never panics when a later round is entered.
\<close>

theorem reachable_wellformed:
  assumes "bitArray_laws ext" "consensus_reachable ext c cs"
  shows "wfState ext cs \<and>
    (\<forall>round. cs_Round cs < round \<or> (round = cs_Round cs \<and> cs_Step cs = RoundStepNewHeight) \<longrightarrow>
       returns (HeightVoteSignAggr_SetRound (cs_VoteSignAggr cs) (round + 1)) \<and>
       returns (HeightVoteSet_SetRound ext (cs_Votes cs) (round + 1)))"
  using reachable_wf [OF assms] SetRound_returns [OF assms(1) reachable_wf [OF assms]] by blast

theorem reachable_wellformed_witness:
  "wfState demo_ext demo_received \<and> cs_ProposalBlock demo_received = Some 0 \<and>
     returns (HeightVoteSet_SetRound demo_ext (cs_Votes demo_received) 4)"
proof -
  have "cs_Round demo_received = 0" "cs_ProposalBlock demo_received = Some 0" by code_simp+
  then show ?thesis
    using reachable_wellformed [OF demo_ext_laws demo_node_reachable, THEN conjunct2, rule_format, of 3]
      reachable_wellformed [OF demo_ext_laws demo_node_reachable, THEN conjunct1] by simp
qed

lemma aggr_VerifyCommit:
  assumes "bitArray_laws ext" "aggrFor ext vals height VoteTypePrecommit sa" "sa_Maj23 sa = sa_BlockID sa"
  shows "ValidatorSet_VerifyCommit ext vals (sa_ChainID sa) height (Some (SignAggr_MakeCommit ext sa)) = Ret None"
  using assms BA_Copy_id [OF assms(1)]
  unfolding VerifyCommit_accepts_iff commit_quorum_def
  by (auto simp: aggrFor_def aggrVerified_def SignAggr_MakeCommit_def SignAggr_SignAggr_def)

lemma step_commit:
  assumes "bitArray_laws ext" "consensus_reachable ext c cs" "consensus_step ext c cs cs'"
    "CommitBlock b p \<in> set (added cs cs')"
  shows "commitOk ext c cs b"
proof -
  have "b \<in> commitsIn cs cs'" using assms(4) unfolding commitsIn_def by force
  then show ?thesis using step_stepOk [OF assms(1,3) reachable_wf [OF assms(1,2)]] by (simp add: stepOk_def)
qed

text \<open>
  C1: a block that a node commits has the height of the node, and its commit is made from a precommit
  aggregate of that height whose signature verifies and whose signers hold the required voting power
  of the validators of the height; before it was sealed, the block hashed to the block that the aggregate
  names as its majority. When the aggregate names the block it was signed for, \<open>VerifyCommit\<close> accepts the
  commit.
\<close>

theorem committed_block_has_quorum:
  assumes "bitArray_laws ext" "consensus_reachable ext c cs" "consensus_step ext c cs cs'"
    "CommitBlock b p \<in> set (added cs cs')"
  shows "\<exists>sa b0 te. nb_NTCExtra b = Some te \<and> te_Height te = cs_Height cs \<and>
     te_SeenCommit te = Some (SignAggr_MakeCommit ext sa) \<and>
     nb_Block b = nb_Block b0 \<and> NCBlock_Hash c (Some b0) = Ret (bid_Hash (sa_Maj23 sa)) \<and>
     aggrFor ext (cs_Validators cs) (cs_Height cs) VoteTypePrecommit sa \<and>
     (sa_Maj23 sa = sa_BlockID sa \<longrightarrow>
        ValidatorSet_VerifyCommit ext (cs_Validators cs) (sa_ChainID sa) (cs_Height cs) (te_SeenCommit te) = Ret None)"
proof -
  from step_commit [OF assms] obtain sa b0 te' where
    sa: "aggrFor ext (cs_Validators cs) (cs_Height cs) VoteTypePrecommit sa"
    and b: "nb_Block b = nb_Block b0" "nb_NTCExtra b = Some te'" "te_Height te' = cs_Height cs"
      "NCBlock_Hash c (Some b0) = Ret (bid_Hash (sa_Maj23 sa))"
      "te_SeenCommit te' = Some (SignAggr_MakeCommit ext sa)"
    unfolding commitOk_def by (elim exE conjE) simp
  then show ?thesis using aggr_VerifyCommit [OF assms(1) sa] by (intro exI [of _ sa] exI [of _ b0] exI [of _ te']) simp
qed

lemma demo_commit_effect:
  "\<exists>b p. CommitBlock b p \<in> set (added demo_received (demo_majority VoteTypePrecommit))"
proof -
  have "list_ex (\<lambda>e. case e of CommitBlock b p \<Rightarrow> True | _ \<Rightarrow> False)
      (added demo_received (demo_majority VoteTypePrecommit))"
    by code_simp
  then obtain e where "e \<in> set (added demo_received (demo_majority VoteTypePrecommit))"
    "case e of CommitBlock b p \<Rightarrow> True | _ \<Rightarrow> False" by (auto simp: list_ex_iff)
  then show ?thesis by (cases rule: effect.exhaust [of e]) auto
qed

theorem committed_block_has_quorum_witness:
  "\<exists>b p te. CommitBlock b p \<in> set (added demo_received (demo_majority VoteTypePrecommit)) \<and>
     nb_NTCExtra b = Some te \<and> te_Height te = 1"
proof -
  from demo_commit_effect obtain b p where
    b: "CommitBlock b p \<in> set (added demo_received (demo_majority VoteTypePrecommit))" by blast
  have "cs_Height demo_received = 1" by code_simp
  with committed_block_has_quorum [OF demo_ext_laws demo_node_reachable demo_steps(2) b] b show ?thesis by auto
qed

text \<open>
  C2: when two nodes with the same validators commit blocks, at any heights and rounds, some validator
  with positive voting power signed the precommits of both.
\<close>

theorem committed_blocks_share_signers:
  assumes laws: "bitArray_laws ext"
    and 1: "consensus_reachable ext c cs1" "consensus_step ext c cs1 cs1'" "CommitBlock b1 p1 \<in> set (added cs1 cs1')"
    and 2: "consensus_reachable ext c cs2" "consensus_step ext c cs2 cs2'" "CommitBlock b2 p2 \<in> set (added cs2 cs2')"
    and vals: "cs_Validators cs2 = cs_Validators cs1"
  shows "\<exists>te1 te2 commit1 commit2. nb_NTCExtra b1 = Some te1 \<and> te_SeenCommit te1 = Some commit1 \<and>
     nb_NTCExtra b2 = Some te2 \<and> te_SeenCommit te2 = Some commit2 \<and>
     0 < powerOf (vs_Validators (cs_Validators cs1))
       (bitsOf ext (cm_BitArray commit1) \<inter> bitsOf ext (cm_BitArray commit2))"
proof -
  from step_commit [OF laws 1] obtain sa1 te1 where
    a: "aggrFor ext (cs_Validators cs1) (cs_Height cs1) VoteTypePrecommit sa1" "nb_NTCExtra b1 = Some te1"
      "te_SeenCommit te1 = Some (SignAggr_MakeCommit ext sa1)"
    unfolding commitOk_def by blast
  from step_commit [OF laws 2] obtain sa2 te2 where
    b: "aggrFor ext (cs_Validators cs1) (cs_Height cs2) VoteTypePrecommit sa2" "nb_NTCExtra b2 = Some te2"
      "te_SeenCommit te2 = Some (SignAggr_MakeCommit ext sa2)"
    unfolding commitOk_def vals by blast
  have nn: "powers_nonneg (cs_Validators cs1)"
    using wfD(2) [OF reachable_wf [OF laws 1(1)]] by (auto simp: storesOk_def hvs_inv_def)
  have "0 < powerOf (vs_Validators (cs_Validators cs1))
      (bitsOf ext (sa_BitArray sa1) \<inter> bitsOf ext (sa_BitArray sa2))"
    by (rule quorums_overlap(1) [OF nn])
       (use a(1) b(1) in \<open>auto simp: aggrFor_def aggrVerified_def bitsOf_def ValidatorSet_Size_def\<close>)
  then show ?thesis using a b BA_Copy_id [OF laws] by (simp add: SignAggr_MakeCommit_def)
qed

theorem committed_blocks_share_signers_witness:
  "\<exists>b p te commit. CommitBlock b p \<in> set (added demo_received (demo_majority VoteTypePrecommit)) \<and>
     nb_NTCExtra b = Some te \<and> te_SeenCommit te = Some commit \<and>
     0 < powerOf (vs_Validators (cs_Validators demo_received)) (bitsOf demo_ext (cm_BitArray commit))"
proof -
  from demo_commit_effect obtain b p where
    b: "CommitBlock b p \<in> set (added demo_received (demo_majority VoteTypePrecommit))" by blast
  show ?thesis
    using committed_blocks_share_signers [OF demo_ext_laws demo_node_reachable demo_steps(2) b demo_node_reachable demo_steps(2) b refl]
      b by auto
qed

text \<open>
  C3: a validator that is locked on a block prevotes only for this block, with the header of its parts;
  and it precommits a block only when it is then locked on this block, in a round whose stored prevotes
  are a verified aggregate for exactly this block.
\<close>

theorem votes_follow_lock:
  assumes "bitArray_laws ext" "consensus_reachable ext c cs" "consensus_step ext c cs cs'"
    "v \<in> votesIn cs cs'"
  shows "(vote_Type v = VoteTypePrevote \<and> vote_Height v = cs_Height cs \<and>
      (\<forall>p. cs_LockedBlock cs = Some p \<longrightarrow>
         NCBlock_Hash c (Some (cs_blocks cs ! p)) = Ret (bid_Hash (vote_BlockID v)) \<and>
         bid_PartsHeader (vote_BlockID v) = PartSet_Header (partsAt cs (cs_LockedBlockParts cs)))) \<or>
    (vote_Type v = VoteTypePrecommit \<and> vote_Height v = cs_Height cs' \<and>
      (bid_Hash (vote_BlockID v) \<noteq> [] \<longrightarrow>
         (\<exists>p sa. cs_LockedBlock cs' = Some p \<and>
            NCBlock_Hash c (Some (cs_blocks cs' ! p)) = Ret (bid_Hash (vote_BlockID v)) \<and>
            HeightVoteSignAggr_Prevotes (cs_VoteSignAggr cs') (cs_LockedRound cs') = Ret (Some sa) \<and>
            sa_Maj23 sa = vote_BlockID v \<and>
            aggrFor ext (cs_Validators cs') (cs_Height cs') VoteTypePrevote sa)))"
  using step_stepOk [OF assms(1,3) reachable_wf [OF assms(1,2)]] assms(4)
  unfolding stepOk_def prevoteOk_def precommitOk_def lockedOn_def by blast

theorem votes_follow_lock_witness:
  "\<exists>v. v \<in> votesIn demo_received (demo_majority VoteTypePrevote) \<and> vote_BlockID v = demo_decision \<and>
     cs_LockedRound (demo_majority VoteTypePrevote) = 0 \<and>
     (\<exists>p. cs_LockedBlock (demo_majority VoteTypePrevote) = Some p \<and>
        NCBlock_Hash demo_codec (Some (cs_blocks (demo_majority VoteTypePrevote) ! p)) = Ret (bid_Hash demo_decision))"
proof -
  have l: "list_ex (\<lambda>e. case castVote e of Some v \<Rightarrow> vote_BlockID v = demo_decision \<and> vote_Type v = VoteTypePrecommit | None \<Rightarrow> False)
      (added demo_received (demo_majority VoteTypePrevote))" "cs_LockedRound (demo_majority VoteTypePrevote) = 0"
    "bid_Hash demo_decision \<noteq> []"
    by code_simp+
  then obtain v where v: "v \<in> votesIn demo_received (demo_majority VoteTypePrevote)"
    "vote_BlockID v = demo_decision" "vote_Type v = VoteTypePrecommit"
    unfolding votesIn_def list_ex_iff by (force split: option.splits)
  from votes_follow_lock [OF demo_ext_laws demo_node_reachable demo_steps(1) v(1)] v l(2,3) show ?thesis by auto
qed

text \<open>
  C5: a message or a timeout never changes the height and moves the round and the step of a node only
  forward, lexicographically, with one exception: while the node has no proposal, a proposal for an
  earlier round that had none, signed by the proposer of that round, takes the node back.
\<close>

theorem position_moves_forward:
  assumes "handleMsg env mi cs = Ret cs' \<or> handleTimeout env ti cs = Ret cs'"
  shows "cs_Height cs' = cs_Height cs \<and>
    (cs_Round cs < cs_Round cs' \<or> (cs_Round cs = cs_Round cs' \<and> cs_Step cs \<le> cs_Step cs') \<or>
     (\<exists>p. mi_Msg mi = ProposalMessage (Some p) \<and> loweredBy env p cs cs'))"
proof -
  have "forward cs cs' \<or> (\<exists>p. mi_Msg mi = ProposalMessage (Some p) \<and> loweredBy env p cs cs')"
    if r: "handleMsg env mi cs = Ret cs'"
  proof (cases "mi_Msg mi")
    case (ProposalMessage p)
    with r obtain err where "defaultSetProposal env p cs = Ret (err, cs')"
      by (auto simp: handleMsg_def bindGo_Ret_iff)
    from defaultSetProposal_forward [OF this] ProposalMessage show ?thesis by auto
  next
    case (BlockPartMessage h rd p)
    with r show ?thesis using addProposalBlockPart_forward by (auto simp: handleMsg_def)
  next
    case (Maj23SignAggrMessage sa)
    with r have "cs' = cs \<or> (\<exists>a err b. setMaj23SignAggr env a cs = Ret (err, b, cs'))"
      by (auto simp: handleMsg_def handleSignAggr_def bindGo_Ret_iff split: option.splits if_splits)
    then show ?thesis using setMaj23SignAggr_forward by auto
  next
    case (VoteMessage v)
    with r obtain err where "addVote env v (mi_PeerKey mi) cs = Ret (err, cs')"
      by (auto simp: handleMsg_def tryAddVote_def bindGo_Ret_iff)
    then show ?thesis using addVote_forward by blast
  qed (use r in \<open>simp add: handleMsg_def\<close>)
  then show ?thesis using assms handleTimeout_forward [of env ti cs cs']
    unfolding forward_def later_def loweredBy_def by blast
qed

theorem position_moves_forward_witness:
  "cs_Height (demo_majority VoteTypePrecommit) = 1 \<and> cs_Step demo_received = RoundStepNewHeight \<and>
     cs_Step (demo_majority VoteTypePrecommit) = RoundStepCommit"
proof -
  have "cs_Height demo_received = 1" "cs_Step demo_received = RoundStepNewHeight"
    "cs_Step (demo_majority VoteTypePrecommit) = RoundStepCommit" by code_simp+
  with position_moves_forward [OF disjI1 [OF demo_precommits]] show ?thesis by simp
qed

end
