(* ===== verification/Proposer_Theorems.thy ===== *)
theory Proposer_Theorems
  imports Consensus_Theorems
begin

text \<open>
  The choice of the proposer: the hash of the last header picks a validator in proportion to the voting
  powers, and later rounds go through the validators in turn.
\<close>

section \<open>The subtraction loop\<close>

definition prefixPower :: "validator list \<Rightarrow> nat \<Rightarrow> int" where
  "prefixPower vals k = sum_list (map val_VotingPower (take k vals))"

lemma prefixPower_Suc: "k < length vals \<Longrightarrow> prefixPower vals (Suc k) = prefixPower vals k + val_VotingPower (vals ! k)"
  by (simp add: prefixPower_def take_Suc_conv_app_nth)

lemma prefixPower_0 [simp]: "prefixPower vals 0 = 0"
  by (simp add: prefixPower_def)

lemma prefixPower_Cons [simp]: "prefixPower (v # vals) (Suc k) = val_VotingPower v + prefixPower vals k"
  by (simp add: prefixPower_def)

lemma prefixPower_nonneg:
  assumes "\<forall>v\<in>set vals. 0 \<le> val_VotingPower v"
  shows "0 \<le> prefixPower vals k"
  unfolding prefixPower_def by (rule sum_list_nonneg) (use assms set_take_subset [of k vals] in auto)

lemma prefixPower_length: "prefixPower vals (length vals) = sum_list (map val_VotingPower vals)"
  by (simp add: prefixPower_def)

text \<open>The index is that of the interval of prefix sums that the number lies in.\<close>

lemma vrfIndex_lower: "0 \<le> i \<Longrightarrow> vrfIndex i n vals = -1 \<or> i \<le> vrfIndex i n vals"
proof (induction vals arbitrary: i n)
  case (Cons v vals)
  from Cons.IH [of "i + 1" "n - val_VotingPower v"] Cons.prems show ?case by auto
qed simp

lemma vrfIndex_iff:
  assumes "\<forall>v\<in>set vals. 0 \<le> val_VotingPower v" "0 \<le> n" "0 \<le> i" "k < length vals"
  shows "vrfIndex i n vals = i + int k \<longleftrightarrow> prefixPower vals k \<le> n \<and> n < prefixPower vals (Suc k)"
  using assms
proof (induction vals arbitrary: i n k)
  case (Cons v vals)
  have nn: "\<forall>v\<in>set vals. 0 \<le> val_VotingPower v" using Cons.prems(1) by simp
  note p = prefixPower_nonneg [OF nn]
  show ?case
  proof (cases k)
    case 0
    have "vrfIndex (i + 1) m vals \<noteq> i" for m
      using vrfIndex_lower [of "i + 1" m vals] Cons.prems(3) by linarith
    then show ?thesis using 0 Cons.prems(2) by simp
  next
    case (Suc j)
    show ?thesis
    proof (cases "n < val_VotingPower v")
      case True
      then show ?thesis using Suc p [of j] by simp
    next
      case False
      have "vrfIndex (i + 1) (n - val_VotingPower v) vals = i + 1 + int j \<longleftrightarrow>
          prefixPower vals j \<le> n - val_VotingPower v \<and> n - val_VotingPower v < prefixPower vals (Suc j)"
        by (rule Cons.IH [OF nn]) (use False Cons.prems Suc in auto)
      then show ?thesis using False Suc by (simp add: algebra_simps)
    qed
  qed
qed simp

lemma prefix_covers:
  assumes "0 \<le> n" "n < prefixPower vals m" "m \<le> length vals"
  shows "\<exists>k<m. prefixPower vals k \<le> n \<and> n < prefixPower vals (Suc k)"
  using assms
proof (induction m)
  case (Suc m)
  then show ?case by (cases "n < prefixPower vals m") (auto simp: less_Suc_eq)
qed simp

section \<open>Properties\<close>

text \<open>
  C39: when no voting power is negative and their sum is positive, the choice by the hash of a header
  returns the index of a validator with positive voting power, and of the possible remainders exactly as
  many lead to a validator as it has voting power.
\<close>

theorem vrf_proposer_by_power:
  assumes nn: "\<forall>v\<in>set vals. 0 \<le> val_VotingPower v" and pos: "0 < sum_list (map val_VotingPower vals)"
  shows "(\<exists>k<length vals. proposerByVRF env headerHash vals = Ret (int k) \<and> 0 < val_VotingPower (vals ! k)) \<and>
    (\<forall>k<length vals. card {n. 0 \<le> n \<and> n < sum_list (map val_VotingPower vals) \<and> vrfIndex 0 n vals = int k}
       = nat (val_VotingPower (vals ! k)))"
proof -
  let ?total = "sum_list (map val_VotingPower vals)"
  let ?n = "BytesToBig (ce_sha256 env (replicate 8 0 @ headerHash)) mod ?total"
  have n: "0 \<le> ?n" "?n < prefixPower vals (length vals)" using pos by (simp_all add: prefixPower_length)
  from prefix_covers [OF n] obtain k where k: "k < length vals" "prefixPower vals k \<le> ?n" "?n < prefixPower vals (Suc k)"
    by auto
  then have "proposerByVRF env headerHash vals = Ret (int k)"
    using vrfIndex_iff [OF nn n(1) _ k(1), of 0] pos by (simp add: proposerByVRF_def Let_def)
  moreover have "0 < val_VotingPower (vals ! k)" using k prefixPower_Suc [OF k(1)] by linarith
  moreover have "card {n. 0 \<le> n \<and> n < ?total \<and> vrfIndex 0 n vals = int j} = nat (val_VotingPower (vals ! j))"
    if j: "j < length vals" for j
  proof -
    have "prefixPower vals (Suc j) \<le> ?total"
      using sum_list_nonneg [of "map val_VotingPower (drop (Suc j) vals)"] nn in_set_dropD [of _ "Suc j" vals]
        sum_list_append [of "map val_VotingPower (take (Suc j) vals)" "map val_VotingPower (drop (Suc j) vals)"]
      by (auto simp: prefixPower_def map_append [symmetric])
    then have "{n. 0 \<le> n \<and> n < ?total \<and> vrfIndex 0 n vals = int j} = {prefixPower vals j ..< prefixPower vals (Suc j)}"
      using vrfIndex_iff [OF nn _ _ j, of _ 0] prefixPower_nonneg [OF nn, of j] by auto
    then show ?thesis using prefixPower_Suc [OF j] by simp
  qed
  ultimately show ?thesis using k(1) by blast
qed

theorem vrf_proposer_by_power_witness:
  "card {n. 0 \<le> n \<and> n < sum_list (map val_VotingPower (vs_Validators demo_validators)) \<and>
      vrfIndex 0 n (vs_Validators demo_validators) = 2} = 10"
proof -
  have "\<forall>v\<in>set (vs_Validators demo_validators). 0 \<le> val_VotingPower v"
    "0 < sum_list (map val_VotingPower (vs_Validators demo_validators))"
    "2 < length (vs_Validators demo_validators)" "val_VotingPower (vs_Validators demo_validators ! 2) = 10"
    by code_simp+
  with vrf_proposer_by_power [of "vs_Validators demo_validators" demo_env "[]"] show ?thesis by force
qed

text \<open>
  C40: once the first proposer of a height is chosen, each validator is the proposer of exactly one of any
  as many consecutive rounds as there are validators, and looking the proposer up does not change the
  state.
\<close>

theorem proposers_take_turns:
  assumes vrf: "0 \<le> cs_vrfValIndex cs" "cs_vrfValIndex cs < int (ValidatorSet_Size (cs_Validators cs))"
    and r: "0 \<le> r" and k: "k < ValidatorSet_Size (cs_Validators cs)"
  shows "\<exists>!round. r \<le> round \<and> round < r + int (ValidatorSet_Size (cs_Validators cs)) \<and>
    (\<exists>p. proposerByRound env round cs = Ret (p, cs) \<and> vp_valIndex p = int k \<and> vp_Round p = round \<and>
       vp_Proposer p = vs_Validators (cs_Validators cs) ! k)"
proof -
  let ?size = "int (ValidatorSet_Size (cs_Validators cs))"
  have look: "proposerByRound env round cs = Ret (\<lparr>vp_Height = cs_Height cs, vp_Round = round,
      vp_valIndex = (cs_vrfValIndex cs + round) mod ?size,
      vp_Proposer = vs_Validators (cs_Validators cs) ! nat ((cs_vrfValIndex cs + round) mod ?size)\<rparr>, cs)"
    if "0 \<le> round" for round
  proof -
    have "(cs_vrfValIndex cs + round) smod ?size = (cs_vrfValIndex cs + round) mod ?size"
      using vrf that by (cases "cs_vrfValIndex cs + round = 0") (simp_all add: smod_int_alt_def sgn_if)
    moreover have "\<not> ?size \<le> (cs_vrfValIndex cs + round) mod ?size" "\<not> (cs_vrfValIndex cs + round) mod ?size < 0"
      "?size \<noteq> 0" using vrf pos_mod_bound [of ?size "cs_vrfValIndex cs + round"] pos_mod_sign [of ?size "cs_vrfValIndex cs + round"]
      by linarith+
    ultimately show ?thesis using vrf that by (cases "round = 0") (simp_all add: proposerByRound_def Let_def)
  qed
  let ?round = "r + (int k - cs_vrfValIndex cs - r) mod ?size"
  have s: "0 < ?size" using k by simp
  have m: "(cs_vrfValIndex cs + ?round) mod ?size = int k"
  proof -
    have "(cs_vrfValIndex cs + ?round) mod ?size
        = (cs_vrfValIndex cs + r + (int k - cs_vrfValIndex cs - r) mod ?size) mod ?size"
      by (simp only: add.assoc)
    also have "\<dots> = (cs_vrfValIndex cs + r + (int k - cs_vrfValIndex cs - r)) mod ?size"
      by (rule mod_add_right_eq)
    also have "\<dots> = int k" using k by simp
    finally show ?thesis .
  qed
  have b: "r \<le> ?round" "?round < r + ?size" using s by simp_all
  show ?thesis
  proof (rule ex1I [of _ ?round])
    show "r \<le> ?round \<and> ?round < r + ?size \<and> (\<exists>p. proposerByRound env ?round cs = Ret (p, cs) \<and> vp_valIndex p = int k \<and>
        vp_Round p = ?round \<and> vp_Proposer p = vs_Validators (cs_Validators cs) ! k)"
      using b look [of ?round] r m by simp
  next
    fix round
    assume a: "r \<le> round \<and> round < r + ?size \<and> (\<exists>p. proposerByRound env round cs = Ret (p, cs) \<and> vp_valIndex p = int k \<and>
        vp_Round p = round \<and> vp_Proposer p = vs_Validators (cs_Validators cs) ! k)"
    then have "(cs_vrfValIndex cs + round) mod ?size = int k" using look [of round] r by auto
    then have "(cs_vrfValIndex cs + round) mod ?size = (cs_vrfValIndex cs + ?round) mod ?size" using m by simp
    then have d: "?size dvd round - ?round" by (simp add: mod_eq_dvd_iff algebra_simps)
    have "\<bar>round - ?round\<bar> < ?size" using a b by linarith
    then show "round = ?round" using d zdvd_imp_le [of ?size "\<bar>round - ?round\<bar>"] by fastforce
  qed
qed

theorem proposers_take_turns_witness:
  "\<exists>!round. 5 \<le> round \<and> round < 9 \<and>
    (\<exists>p. proposerByRound demo_env round demo_proposed = Ret (p, demo_proposed) \<and> vp_valIndex p = 3 \<and> vp_Round p = round \<and>
       vp_Proposer p = vs_Validators (cs_Validators demo_proposed) ! 3)"
proof -
  have "cs_vrfValIndex demo_proposed = 0" "ValidatorSet_Size (cs_Validators demo_proposed) = 4" by code_simp+
  with proposers_take_turns [of demo_proposed 5 3 demo_env] show ?thesis by simp
qed

end
