(* ===== verification/Staking.thy ===== *)
theory Staking
  imports Consensus_State
begin

text \<open>
  Staking: the functions of the chain contract (\<open>ligoabi/abi/abi.go\<close>) and the callbacks that validate
  and apply them (\<open>internal/ligoapi/api.go\<close>), with the operations that a block leaves pending
  (\<open>chain/core/types/pending_ops.go\<close>). A callback gets the state database and the pending operations and
  returns them with an error or none; what it had changed before an error stays changed, as in the
  code, whose caller then gives the whole block or the transaction up.

  The decoder of the arguments, the recovery of the sender, the hash of a transaction and the library
  of the validator keys are fields of \<open>stakingEnv\<close>, with the epoch and the height of the chain that the
  callbacks read. \<open>GetEpochValidatorVoteSet\<close> keeps the votes it has loaded in the epoch; the model
  loads them again. A search for an epoch that does not end has no result, here a panic.
\<close>

section \<open>Functions of the contract\<close>

definition IsCrossChainType :: "functionType \<Rightarrow> bool" where
  "IsCrossChainType t \<longleftrightarrow> t \<in> {CreateSideChain, JoinSideChain, DepositInMainChain, DepositInSideChain,
     WithdrawFromSideChain, WithdrawFromMainChain, SaveDataToMainChain, SetBlockReward}"

definition AllowInMainChain :: "functionType \<Rightarrow> bool" where
  "AllowInMainChain t \<longleftrightarrow> t \<notin> {DepositInSideChain, WithdrawFromSideChain, SetBlockReward, UnknownFn}"

definition AllowInSideChain :: "functionType \<Rightarrow> bool" where
  "AllowInSideChain t \<longleftrightarrow> t \<notin> {CreateSideChain, JoinSideChain, DepositInMainChain, WithdrawFromMainChain,
     SaveDataToMainChain, UnknownFn}"

fun RequiredGas :: "functionType \<Rightarrow> u64" where
  "RequiredGas CreateSideChain = 200000"
| "RequiredGas JoinSideChain = 100000"
| "RequiredGas DepositInMainChain = 200000"
| "RequiredGas DepositInSideChain = 0"
| "RequiredGas WithdrawFromSideChain = 200000"
| "RequiredGas WithdrawFromMainChain = 0"
| "RequiredGas SaveDataToMainChain = 0"
| "RequiredGas UnknownFn = 0"
| "RequiredGas _ = 100000"

definition ChainContractMagicAddr :: address where
  "ChainContractMagicAddr = BytesToAddress (map of_char ''LigoAIMiningSmartContractAddress'')"

record delegateArgs =
  da_Candidate :: address

record unDelegateArgs =
  ua_Candidate :: address
  ua_Amount :: int

record registerArgs =
  ra_Pubkey :: bytes
  ra_Signature :: bytes
  ra_Commission :: u8

record editValidatorArgs =
  ea_Moniker :: string
  ea_Website :: string
  ea_Identity :: string
  ea_Details :: string

record withdrawRewardArgs =
  wa_DelegateAddress :: address

record setCommissionArgs =
  ca_Commission :: u8

section \<open>Pending operations\<close>

datatype pendingOp =
    CreateSideChainOp address string "16 word" int int int
  | JoinSideChainOp address bytes string int
  | LaunchSideChainsOp "string list" "bytes option" "string list"
  | SaveDataToMainChainOp bytes
  | VoteNextEpochOp address hash hash
  | RevealVoteOp address bytes int string hash
  | UpdateNextEpochOp address bytes int string hash
  | SwitchEpochOp string validatorSet

fun PendingOp_Conflict :: "pendingOp \<Rightarrow> pendingOp \<Rightarrow> bool" where
  "PendingOp_Conflict (CreateSideChainOp _ chainId _ _ _ _) (CreateSideChainOp _ chainId1 _ _ _ _) = (chainId = chainId1)"
| "PendingOp_Conflict (JoinSideChainOp from _ chainId _) (JoinSideChainOp from1 _ chainId1 _) =
     (chainId = chainId1 \<and> from = from1)"
| "PendingOp_Conflict (LaunchSideChainsOp _ _ _) (LaunchSideChainsOp _ _ _) = True"
| "PendingOp_Conflict (SwitchEpochOp _ _) (SwitchEpochOp _ _) = True"
| "PendingOp_Conflict _ _ = False"

definition PendingOps_Append :: "pendingOp list \<Rightarrow> pendingOp \<Rightarrow> pendingOp list \<times> bool" where
  "PendingOps_Append ops op1 =
     (if list_ex (\<lambda>op. PendingOp_Conflict op op1) ops then (ops, False) else (ops @ [op1], True))"

section \<open>The environment of a callback\<close>

record 'v stakingEnv =
  sk_wire :: "'v wire"
  sk_epochDB :: "'v edb"
  sk_Epoch :: "epoch option"
  sk_CurrentBlock :: u64
  sk_Sender :: "transaction \<Rightarrow> address option"
  sk_txHash :: "transaction \<Rightarrow> hash"
  sk_UnpackDelegate :: "bytes \<Rightarrow> delegateArgs option"
  sk_UnpackUnDelegate :: "bytes \<Rightarrow> unDelegateArgs option"
  sk_UnpackRegister :: "bytes \<Rightarrow> registerArgs option"
  sk_UnpackEditValidator :: "bytes \<Rightarrow> editValidatorArgs option"
  sk_UnpackWithdrawReward :: "bytes \<Rightarrow> withdrawRewardArgs option"
  sk_UnpackSetCommission :: "bytes \<Rightarrow> setCommissionArgs option"
  sk_CheckConsensusPubKey :: "address \<Rightarrow> bytes \<Rightarrow> bytes \<Rightarrow> bool"
  sk_KeyString :: "bytes \<Rightarrow> string"

datatype stakeErr = ErrUnpack | ErrNoReward | ErrMaxCandidate | ErrAlreadyCandidate
  | ErrMinimumRegisterAmount | ErrConsensusPubKey | ErrCommission | ErrCannotCandidate | ErrNotCandidate
  | ErrBannedUnRegister | ErrCannotUnRegister | ErrNilEpoch | ErrDelegateAmount
  | ErrExceedDelegationAddressLimit | ErrCannotDelegate | ErrCancelSelfDelegate | ErrCannotUnBond
  | ErrInsufficientProxiedBalance | ErrNotValidator | ErrArgsTooLong | ErrNotBanned | ErrStillBanned
  | ErrBlockHeight | ErrNegativePower | ErrPubKeyFormat | ErrOpsConflict

definition minimumRegisterAmount :: int where "minimumRegisterAmount = 77000000000000000000000"
definition maxCandidateNumber :: int where "maxCandidateNumber = 1000"
definition maxDelegationAddresses :: int where "maxDelegationAddresses = 1000"
definition maxEditValidatorLength :: int where "maxEditValidatorLength = 1000"
definition updateValidatorThreshold :: int where "updateValidatorThreshold = 1000"

definition derivedAddressFromTx :: "'v stakingEnv \<Rightarrow> transaction \<Rightarrow> address" where
  "derivedAddressFromTx env tx = (case sk_Sender env tx of Some from \<Rightarrow> from | None \<Rightarrow> BytesToAddress [])"

text \<open>\<open>data[4:]\<close>, the arguments of a call.\<close>

definition callArgs :: "transaction \<Rightarrow> bytes go" where
  "callArgs tx = (if length (tx_Payload tx) < 4 then Panic ''slice bounds out of range'' else Ret (drop 4 (tx_Payload tx)))"

text \<open>\<open>copy(blsPK[:], pubkey)\<close> into an array of 128 zero bytes.\<close>

definition copyBLSPubKey :: "bytes \<Rightarrow> bytes" where
  "copyBLSPubKey b = take 128 b @ replicate (128 - length b) 0"

definition hexVal :: "char \<Rightarrow> nat option" where
  "hexVal c = (let v = of_char c :: nat in
     if 48 \<le> v \<and> v \<le> 57 then Some (v - 48) else if 97 \<le> v \<and> v \<le> 102 then Some (v - 87)
     else if 65 \<le> v \<and> v \<le> 70 then Some (v - 55) else None)"

text \<open>\<open>hex.DecodeString\<close> returns what it has decoded before an error.\<close>

fun Hex2Bytes :: "string \<Rightarrow> bytes" where
  "Hex2Bytes (c # d # s) = (case (hexVal c, hexVal d) of
     (Some x, Some y) \<Rightarrow> of_nat (16 * x + y) # Hex2Bytes s | _ \<Rightarrow> [])"
| "Hex2Bytes _ = []"

definition FromHex :: "string \<Rightarrow> bytes" where
  "FromHex s =
     (let s = (if take 2 s = ''0x'' \<or> take 2 s = ''0X'' then drop 2 s else s)
      in Hex2Bytes (if odd (length s) then CHR ''0'' # s else s))"

text \<open>The epoch of the current block; there is none if the engine is not Tendermint.\<close>

definition epochOfChain :: "'v stakingEnv \<Rightarrow> epoch option go" where
  "epochOfChain env =
     (case sk_Epoch env of
        None \<Rightarrow> Ret None
      | Some ep \<Rightarrow>
          (case GetEpochByBlockNumber (sk_wire env) (sk_epochDB env) (sk_CurrentBlock env) ep of
             None \<Rightarrow> Panic ''no result''
           | Some found \<Rightarrow> Ret found))"

definition getEpoch :: "'v stakingEnv \<Rightarrow> (stakeErr + epoch) go" where
  "getEpoch env = bindGo (epochOfChain env) (\<lambda>ep. Ret (case ep of None \<Rightarrow> Inl ErrNilEpoch | Some e \<Rightarrow> Inr e))"

text \<open>A validator that stays for further epochs; without an epoch its validators are dereferenced.\<close>

definition isSupernode :: "'v stakingEnv \<Rightarrow> address \<Rightarrow> bool go" where
  "isSupernode env a =
     bindGo (epochOfChain env) (\<lambda>ep. case ep of
         None \<Rightarrow> Panic ''nil pointer dereference''
       | Some e \<Rightarrow> Ret (case snd (ValidatorSet_GetByAddress (ep_Validators e) a) of
           None \<Rightarrow> False | Some supernode \<Rightarrow> 0 < val_RemainingEpoch supernode))"

definition updateValidation :: "'v stakingEnv \<Rightarrow> stakeErr option go" where
  "updateValidation env =
     bindGo (getEpoch env) (\<lambda>r. case r of
         Inl e \<Rightarrow> Ret (Some e)
       | Inr ep \<Rightarrow>
           (let currHeight = sk_CurrentBlock env in
            Ret (if currHeight = 1 \<or> currHeight = ep_StartBlock ep \<or> currHeight = ep_StartBlock ep + 1
                    \<or> currHeight = ep_EndBlock ep
                 then Some ErrBlockHeight else None)))"

section \<open>Iteration with captured variables\<close>

text \<open>\<open>ForEachProxied\<close> for a callback that also changes variables of its caller.\<close>

definition forEachProxied :: "address \<Rightarrow> (address \<Rightarrow> int \<Rightarrow> int \<Rightarrow> int \<Rightarrow> stateDB \<times> 'x \<Rightarrow> stateDB \<times> 'x)
    \<Rightarrow> stateDB \<times> 'x \<Rightarrow> (stateDB \<times> 'x) go" where
  "forEachProxied addr cb p = (case StateDB_getStateObject (fst p) addr of
      None \<Rightarrow> Ret p
    | Some so \<Rightarrow> foldGo (\<lambda>(key, apb) p'.
        (case getField (\<lambda>ob. map_of (so_dirtyProxied ob) key) None (fst p') addr of
           Some None \<Rightarrow> Panic ''nil accountProxiedBalance''
         | Some (Some v) \<Rightarrow> Ret (cb key (apb_ProxiedBalance v) (apb_DepositProxiedBalance v)
             (apb_PendingRefundBalance v) p')
         | None \<Rightarrow> Ret (cb key (apb_ProxiedBalance apb) (apb_DepositProxiedBalance apb)
             (apb_PendingRefundBalance apb) p'))) (proxiedTrie so) p)"

type_synonym applied = "(stakeErr option \<times> stateDB \<times> pendingOp list) go"

section \<open>Voting power of the next epoch\<close>

text \<open>Whether some vote is for less; the amount of a vote that is not revealed yet is nil.\<close>

fun someVoteBelow :: "int \<Rightarrow> epochValidatorVote list \<Rightarrow> bool go" where
  "someVoteBelow x [] = Ret False"
| "someVoteBelow x (v # vs) = (case evv_Amount v of
     None \<Rightarrow> Panic ''nil pointer dereference''
   | Some amount \<Rightarrow> if amount < x then Ret True else someVoteBelow x vs)"

definition updateNextEpochValidatorVoteSet ::
    "'v stakingEnv \<Rightarrow> transaction \<Rightarrow> address \<Rightarrow> stateDB \<Rightarrow> pendingOp list \<Rightarrow> applied" where
  "updateNextEpochValidatorVoteSet env tx candidate s ops =
     bindGo (getEpoch env) (\<lambda>r. case r of
       Inl e \<Rightarrow> Ret (Some e, s, ops)
     | Inr ep \<Rightarrow>
         (let netProxied = StateDB_GetTotalProxiedBalance s candidate
                + StateDB_GetTotalDepositProxiedBalance s candidate
                - StateDB_GetTotalPendingRefundBalance s candidate
          in if netProxied < 0 then Ret (Some ErrNegativePower, s, ops)
             else
               bindGo (case ep_validatorVoteSet (GetEpochValidatorVoteSet (sk_wire env) (sk_epochDB env) ep) of
                   None \<Rightarrow> Ret True
                 | Some voteSet \<Rightarrow>
                     if updateValidatorThreshold \<le> int (length (evs_Votes voteSet))
                     then someVoteBelow netProxied (votes_of voteSet) else Ret True) (\<lambda>update.
               if \<not> (update \<and> StateDB_IsCandidate s candidate) then Ret (None, s, ops)
               else
                 bindGo (StateDB_ForEachProxied candidate
                   (\<lambda>key proxiedBalance depositProxiedBalance pendingRefundBalance s.
                      StateDB_AddDepositProxiedBalanceByUser candidate key proxiedBalance
                        (StateDB_SubProxiedBalanceByUser candidate key proxiedBalance s)) s) (\<lambda>s.
                   let pubkey = StateDB_GetPubkey s candidate; pubkeyBytes = FromHex pubkey in
                   if pubkey = [] \<or> length pubkeyBytes \<noteq> 128 then Ret (Some ErrPubKeyFormat, s, ops)
                   else
                     (case PendingOps_Append ops (UpdateNextEpochOp candidate (copyBLSPubKey pubkeyBytes) netProxied
                             ''ligochain'' (sk_txHash env tx)) of
                        (ops, ok) \<Rightarrow> Ret (if ok then None else Some ErrOpsConflict, s, ops))))))"

section \<open>Rewards\<close>

definition withDrawRewardValidation ::
    "'v stakingEnv \<Rightarrow> address \<Rightarrow> transaction \<Rightarrow> stateDB \<Rightarrow> (stakeErr + withdrawRewardArgs) go" where
  "withDrawRewardValidation env from tx s =
     bindGo (callArgs tx) (\<lambda>data. case sk_UnpackWithdrawReward env data of
         None \<Rightarrow> Ret (Inl ErrUnpack)
       | Some args \<Rightarrow>
           Ret (if StateDB_GetRewardBalanceByDelegateAddress s from (wa_DelegateAddress args) < 1
                then Inl ErrNoReward else Inr args))"

definition withdrawRewardApplyCb ::
    "'v stakingEnv \<Rightarrow> transaction \<Rightarrow> stateDB \<Rightarrow> pendingOp list \<Rightarrow> applied" where
  "withdrawRewardApplyCb env tx s ops =
     (let from = derivedAddressFromTx env tx in
      bindGo (withDrawRewardValidation env from tx s) (\<lambda>r. case r of
          Inl e \<Rightarrow> Ret (Some e, s, ops)
        | Inr args \<Rightarrow>
            (let reward = StateDB_GetRewardBalanceByDelegateAddress s from (wa_DelegateAddress args) in
             bindGo (StateDB_SubRewardBalanceByDelegateAddress from (wa_DelegateAddress args) reward s) (\<lambda>s.
               Ret (None, StateDB_AddBalance from reward s, ops)))))"

section \<open>Candidates\<close>

definition registerValidation :: "'v stakingEnv \<Rightarrow> address \<Rightarrow> transaction \<Rightarrow> stateDB
    \<Rightarrow> ((stakeErr + registerArgs) \<times> stateDB) go" where
  "registerValidation env from tx s =
     (case StateDB_GetCandidateSet s of (s, candidateSet) \<Rightarrow>
        if maxCandidateNumber < int (length candidateSet) then Ret (Inl ErrMaxCandidate, s)
        else if \<not> StateDB_IsCleanAddress s from then Ret (Inl ErrAlreadyCandidate, s)
        else if tx_Amount tx < minimumRegisterAmount then Ret (Inl ErrMinimumRegisterAmount, s)
        else
          bindGo (callArgs tx) (\<lambda>data. case sk_UnpackRegister env data of
              None \<Rightarrow> Ret (Inl ErrUnpack, s)
            | Some args \<Rightarrow>
                if \<not> sk_CheckConsensusPubKey env from (ra_Pubkey args) (ra_Signature args)
                then Ret (Inl ErrConsensusPubKey, s)
                else if 100 < ra_Commission args then Ret (Inl ErrCommission, s)
                else bindGo (isSupernode env from) (\<lambda>supernode.
                  Ret (if supernode then Inl ErrCannotCandidate else Inr args, s))))"

definition registerApplyCb ::
    "'v stakingEnv \<Rightarrow> transaction \<Rightarrow> stateDB \<Rightarrow> pendingOp list \<Rightarrow> applied" where
  "registerApplyCb env tx s ops =
     (let from = derivedAddressFromTx env tx in
      bindGo (registerValidation env from tx s) (\<lambda>(r, s). case r of
          Inl e \<Rightarrow> Ret (Some e, s, ops)
        | Inr args \<Rightarrow>
            bindGo (updateValidation env) (\<lambda>verror. case verror of
                Some e \<Rightarrow> Ret (Some e, s, ops)
              | None \<Rightarrow>
                  (let amount = tx_Amount tx;
                       s = StateDB_SubBalance from amount s;
                       s = StateDB_AddDelegateBalance from amount s;
                       s = StateDB_AddProxiedBalanceByUser from from amount s;
                       s = StateDB_ApplyForCandidate from (sk_KeyString env (copyBLSPubKey (ra_Pubkey args)))
                             (ra_Commission args) s;
                       s = StateDB_MarkAddressCandidate from s
                   in updateNextEpochValidatorVoteSet env tx from s ops))))"

definition unRegisterValidation ::
    "'v stakingEnv \<Rightarrow> address \<Rightarrow> stateDB \<Rightarrow> (stakeErr option \<times> stateDB) go" where
  "unRegisterValidation env from s =
     (if \<not> StateDB_IsCandidate s from then Ret (Some ErrNotCandidate, s)
      else
        (case StateDB_GetBanned from s of (s, banned) \<Rightarrow>
           if banned then Ret (Some ErrBannedUnRegister, s)
           else bindGo (isSupernode env from) (\<lambda>supernode.
             if supernode then Ret (Some ErrCannotUnRegister, s)
             else bindGo (getEpoch env) (\<lambda>r. Ret (case r of Inl e \<Rightarrow> Some e | Inr _ \<Rightarrow> None, s)))))"

definition unRegisterApplyCb ::
    "'v stakingEnv \<Rightarrow> transaction \<Rightarrow> stateDB \<Rightarrow> pendingOp list \<Rightarrow> applied" where
  "unRegisterApplyCb env tx s ops =
     (let from = derivedAddressFromTx env tx in
      bindGo (unRegisterValidation env from s) (\<lambda>(verror, s). case verror of
          Some e \<Rightarrow> Ret (Some e, s, ops)
        | None \<Rightarrow>
            bindGo (forEachProxied from
              (\<lambda>key proxiedBalance depositProxiedBalance pendingRefundBalance (s, allRefund).
                 let s = StateDB_SubProxiedBalanceByUser from key proxiedBalance s;
                     s = StateDB_SubDelegateBalance key proxiedBalance s;
                     s = StateDB_AddBalance key proxiedBalance s
                 in if 0 < depositProxiedBalance
                    then (StateDB_MarkDelegateAddressRefund from
                            (StateDB_AddPendingRefundBalanceByUser from key depositProxiedBalance s), False)
                    else (s, allRefund)) (s, True)) (\<lambda>(s, allRefund).
            let s = StateDB_CancelCandidate from allRefund s;
                s = fst (StateDB_GetCandidateSet s);
                s = StateDB_ClearCandidateSetByAddress from s;
                s = fst (StateDB_GetCandidateSet s)
            in Ret (None, s, ops))))"

section \<open>Delegation\<close>

definition delegateValidation ::
    "'v stakingEnv \<Rightarrow> address \<Rightarrow> transaction \<Rightarrow> stateDB \<Rightarrow> (stakeErr + delegateArgs) go" where
  "delegateValidation env from tx s =
     (if tx_Amount tx < 0 then Ret (Inl ErrDelegateAmount)
      else
        bindGo (callArgs tx) (\<lambda>data. case sk_UnpackDelegate env data of
            None \<Rightarrow> Ret (Inl ErrUnpack)
          | Some args \<Rightarrow>
              if \<not> StateDB_IsCandidate s (da_Candidate args) then Ret (Inl ErrNotCandidate)
              else
                (let depositBalance = StateDB_GetDepositProxiedBalanceByUser s (da_Candidate args) from in
                 if depositBalance = 0
                    \<and> maxDelegationAddresses \<le> StateDB_GetProxiedAddressNumber s (da_Candidate args)
                 then Ret (Inl ErrExceedDelegationAddressLimit)
                 else bindGo (isSupernode env (da_Candidate args)) (\<lambda>supernode.
                   Ret (if supernode \<and> depositBalance = 0 then Inl ErrCannotDelegate else Inr args)))))"

definition delegateApplyCb ::
    "'v stakingEnv \<Rightarrow> transaction \<Rightarrow> stateDB \<Rightarrow> pendingOp list \<Rightarrow> applied" where
  "delegateApplyCb env tx s ops =
     (let from = derivedAddressFromTx env tx in
      bindGo (delegateValidation env from tx s) (\<lambda>r. case r of
          Inl e \<Rightarrow> Ret (Some e, s, ops)
        | Inr args \<Rightarrow>
            bindGo (updateValidation env) (\<lambda>verror. case verror of
                Some e \<Rightarrow> Ret (Some e, s, ops)
              | None \<Rightarrow>
                  (let amount = tx_Amount tx;
                       s = StateDB_SubBalance from amount s;
                       s = StateDB_AddDelegateBalance from amount s;
                       s = StateDB_AddProxiedBalanceByUser (da_Candidate args) from amount s
                   in case StateDB_GetBanned from s of (s, banned) \<Rightarrow>
                        if \<not> banned then updateNextEpochValidatorVoteSet env tx (da_Candidate args) s ops
                        else Ret (None, s, ops)))))"

definition unDelegateValidation ::
    "'v stakingEnv \<Rightarrow> address \<Rightarrow> transaction \<Rightarrow> stateDB \<Rightarrow> (stakeErr + unDelegateArgs) go" where
  "unDelegateValidation env from tx s =
     bindGo (callArgs tx) (\<lambda>data. case sk_UnpackUnDelegate env data of
         None \<Rightarrow> Ret (Inl ErrUnpack)
       | Some args \<Rightarrow>
           if from = ua_Candidate args then Ret (Inl ErrCancelSelfDelegate)
           else bindGo (isSupernode env (ua_Candidate args)) (\<lambda>supernode.
             if supernode then Ret (Inl ErrCannotUnBond)
             else
               (let netDeposit = StateDB_GetDepositProxiedBalanceByUser s (ua_Candidate args) from
                      - StateDB_GetPendingRefundBalanceByUser s (ua_Candidate args) from;
                    availableRefundBalance =
                      StateDB_GetProxiedBalanceByUser s (ua_Candidate args) from + netDeposit
                in if availableRefundBalance < ua_Amount args then Ret (Inl ErrInsufficientProxiedBalance)
                   else bindGo (getEpoch env) (\<lambda>r. Ret (case r of Inl e \<Rightarrow> Inl e | Inr _ \<Rightarrow> Inr args)))))"

definition unDelegateApplyCb ::
    "'v stakingEnv \<Rightarrow> transaction \<Rightarrow> stateDB \<Rightarrow> pendingOp list \<Rightarrow> applied" where
  "unDelegateApplyCb env tx s ops =
     (let from = derivedAddressFromTx env tx in
      bindGo (unDelegateValidation env from tx s) (\<lambda>r. case r of
          Inl e \<Rightarrow> Ret (Some e, s, ops)
        | Inr args \<Rightarrow>
            bindGo (updateValidation env) (\<lambda>verror. case verror of
                Some e \<Rightarrow> Ret (Some e, s, ops)
              | None \<Rightarrow>
                  (let proxiedBalance = StateDB_GetProxiedBalanceByUser s (ua_Candidate args) from;
                       (immediatelyRefund, s) =
                         (if ua_Amount args \<le> proxiedBalance then (ua_Amount args, s)
                          else (proxiedBalance,
                                StateDB_MarkDelegateAddressRefund (ua_Candidate args)
                                  (StateDB_AddPendingRefundBalanceByUser (ua_Candidate args) from
                                     (ua_Amount args - proxiedBalance) s)));
                       s = StateDB_SubProxiedBalanceByUser (ua_Candidate args) from immediatelyRefund s;
                       s = StateDB_SubDelegateBalance from immediatelyRefund s;
                       s = StateDB_AddBalance from immediatelyRefund s
                   in Ret (None, s, ops)))))"

section \<open>Commission, description and bans\<close>

definition setCommissionValidation ::
    "'v stakingEnv \<Rightarrow> address \<Rightarrow> transaction \<Rightarrow> stateDB \<Rightarrow> (stakeErr + setCommissionArgs) go" where
  "setCommissionValidation env from tx s =
     (if \<not> StateDB_IsCandidate s from then Ret (Inl ErrNotCandidate)
      else
        bindGo (callArgs tx) (\<lambda>data. Ret (case sk_UnpackSetCommission env data of
            None \<Rightarrow> Inl ErrUnpack
          | Some args \<Rightarrow> if 100 < ca_Commission args then Inl ErrCommission else Inr args)))"

definition setCommisstionApplyCb ::
    "'v stakingEnv \<Rightarrow> transaction \<Rightarrow> stateDB \<Rightarrow> pendingOp list \<Rightarrow> applied" where
  "setCommisstionApplyCb env tx s ops =
     (let from = derivedAddressFromTx env tx in
      bindGo (setCommissionValidation env from tx s) (\<lambda>r. case r of
          Inl e \<Rightarrow> Ret (Some e, s, ops)
        | Inr args \<Rightarrow> Ret (None, StateDB_SetCommission from (ca_Commission args) s, ops)))"

definition editValidatorValidateCb ::
    "'v stakingEnv \<Rightarrow> transaction \<Rightarrow> stateDB \<Rightarrow> (stakeErr option \<times> stateDB) go" where
  "editValidatorValidateCb env tx s =
     (if \<not> StateDB_IsCandidate s (derivedAddressFromTx env tx) then Ret (Some ErrNotValidator, s)
      else
        bindGo (callArgs tx) (\<lambda>data. Ret (case sk_UnpackEditValidator env data of
            None \<Rightarrow> (Some ErrUnpack, s)
          | Some args \<Rightarrow>
              if maxEditValidatorLength < int (length (ea_Details args))
                 \<or> maxEditValidatorLength < int (length (ea_Identity args))
                 \<or> maxEditValidatorLength < int (length (ea_Moniker args))
                 \<or> maxEditValidatorLength < int (length (ea_Website args))
              then (Some ErrArgsTooLong, s) else (None, s))))"

definition unBannedValidation ::
    "'v stakingEnv \<Rightarrow> address \<Rightarrow> stateDB \<Rightarrow> (stakeErr option \<times> stateDB) go" where
  "unBannedValidation env from s =
     (if \<not> StateDB_IsCandidate s from then Ret (Some ErrNotCandidate, s)
      else
        bindGo (updateValidation env) (\<lambda>verror. case verror of
            Some e \<Rightarrow> Ret (Some e, s)
          | None \<Rightarrow>
              (case StateDB_GetBanned from s of (s, banned) \<Rightarrow>
                 if \<not> banned then Ret (Some ErrNotBanned, s)
                 else
                   (case StateDB_GetBannedTime from s of (s, bannedEpoch) \<Rightarrow>
                      Ret (if 0 < bannedEpoch then Some ErrStillBanned else None, s)))))"

definition unBannedApplyCb ::
    "'v stakingEnv \<Rightarrow> transaction \<Rightarrow> stateDB \<Rightarrow> pendingOp list \<Rightarrow> applied" where
  "unBannedApplyCb env tx s ops =
     (let from = derivedAddressFromTx env tx in
      bindGo (unBannedValidation env from s) (\<lambda>(verror, s). case verror of
          Some e \<Rightarrow> Ret (Some e, s, ops)
        | None \<Rightarrow> Ret (None, StateDB_ClearBannedSetByAddress from (StateDB_SetBanned from False s), ops)))"

section \<open>The registered callbacks\<close>

definition errorOf :: "stakeErr + 'a \<Rightarrow> stakeErr option" where
  "errorOf r = (case r of Inl e \<Rightarrow> Some e | Inr _ \<Rightarrow> None)"

definition withdrawRewardValidateCb :: "'v stakingEnv \<Rightarrow> transaction \<Rightarrow> stateDB \<Rightarrow> (stakeErr option \<times> stateDB) go" where
  "withdrawRewardValidateCb env tx s =
     bindGo (withDrawRewardValidation env (derivedAddressFromTx env tx) tx s) (\<lambda>r. Ret (errorOf r, s))"

definition registerValidateCb :: "'v stakingEnv \<Rightarrow> transaction \<Rightarrow> stateDB \<Rightarrow> (stakeErr option \<times> stateDB) go" where
  "registerValidateCb env tx s =
     bindGo (registerValidation env (derivedAddressFromTx env tx) tx s) (\<lambda>(r, s). Ret (errorOf r, s))"

definition unRegisterValidateCb :: "'v stakingEnv \<Rightarrow> transaction \<Rightarrow> stateDB \<Rightarrow> (stakeErr option \<times> stateDB) go" where
  "unRegisterValidateCb env tx s = unRegisterValidation env (derivedAddressFromTx env tx) s"

definition delegateValidateCb :: "'v stakingEnv \<Rightarrow> transaction \<Rightarrow> stateDB \<Rightarrow> (stakeErr option \<times> stateDB) go" where
  "delegateValidateCb env tx s =
     bindGo (delegateValidation env (derivedAddressFromTx env tx) tx s) (\<lambda>r. Ret (errorOf r, s))"

definition unDelegateValidateCb :: "'v stakingEnv \<Rightarrow> transaction \<Rightarrow> stateDB \<Rightarrow> (stakeErr option \<times> stateDB) go" where
  "unDelegateValidateCb env tx s =
     bindGo (unDelegateValidation env (derivedAddressFromTx env tx) tx s) (\<lambda>r. Ret (errorOf r, s))"

definition setCommisstionValidateCb :: "'v stakingEnv \<Rightarrow> transaction \<Rightarrow> stateDB \<Rightarrow> (stakeErr option \<times> stateDB) go" where
  "setCommisstionValidateCb env tx s =
     bindGo (setCommissionValidation env (derivedAddressFromTx env tx) tx s) (\<lambda>r. Ret (errorOf r, s))"

definition unBannedValidateCb :: "'v stakingEnv \<Rightarrow> transaction \<Rightarrow> stateDB \<Rightarrow> (stakeErr option \<times> stateDB) go" where
  "unBannedValidateCb env tx s = unBannedValidation env (derivedAddressFromTx env tx) s"

text \<open>What \<open>init\<close> registers; no other file registers a callback.\<close>

definition GetValidateCb :: "functionType
    \<Rightarrow> ('v stakingEnv \<Rightarrow> transaction \<Rightarrow> stateDB \<Rightarrow> (stakeErr option \<times> stateDB) go) option" where
  "GetValidateCb function = map_of
     [(WithdrawReward, withdrawRewardValidateCb), (Delegate, delegateValidateCb),
      (UnDelegate, unDelegateValidateCb), (Register, registerValidateCb), (UnRegister, unRegisterValidateCb),
      (SetCommission, setCommisstionValidateCb), (EditValidator, editValidatorValidateCb),
      (UnBanned, unBannedValidateCb)] function"

definition GetApplyCb :: "functionType
    \<Rightarrow> ('v stakingEnv \<Rightarrow> transaction \<Rightarrow> stateDB \<Rightarrow> pendingOp list \<Rightarrow> applied) option" where
  "GetApplyCb function = map_of
     [(WithdrawReward, withdrawRewardApplyCb), (Delegate, delegateApplyCb), (UnDelegate, unDelegateApplyCb),
      (Register, registerApplyCb), (UnRegister, unRegisterApplyCb), (SetCommission, setCommisstionApplyCb),
      (UnBanned, unBannedApplyCb)] function"

end
