(* ===== verification/Account_Effects.thy ===== *)
theory Account_Effects
  imports Epoch_Funds
begin

text \<open>
  More laws of the kind of \<open>State_Effects\<close>: candidates, bans, the sets of addresses, and rewards, where
  \<open>rew_at\<close> is the reward of an account from a delegate.
\<close>

lemma candidate_acts:
  "acts (\<lambda>p. stateObject_SetPubkey pk (stateObject_SetCommission m (stateObject_SetCandidate True p)))
     (\<lambda>d. acc_Pubkey_update (\<lambda>_. pk) (acc_Commission_update (\<lambda>_. m) (acc_Candidate_update (\<lambda>_. True) d))) (\<lambda>e. e)"
  "acts (\<lambda>p. stateObject_SetPubkey [] (stateObject_SetCandidate False p))
     (\<lambda>d. acc_Pubkey_update (\<lambda>_. []) (acc_Candidate_update (\<lambda>_. False) d)) (\<lambda>e. e)"
  "acts (\<lambda>p. stateObject_SetCommission 0 (stateObject_SetPubkey [] (stateObject_SetCandidate False p)))
     (\<lambda>d. acc_Commission_update (\<lambda>_. 0) (acc_Pubkey_update (\<lambda>_. []) (acc_Candidate_update (\<lambda>_. False) d))) (\<lambda>e. e)"
  using acts_comp [OF acts_comp [OF set_acts(11) set_acts(13)] set_acts(12)]
    acts_comp [OF set_acts(11) set_acts(12)]
    acts_comp [OF acts_comp [OF set_acts(11) set_acts(12)] set_acts(13)] by blast+

lemma candidate_at [effects]:
  assumes "sdb_ok s"
  shows "data_at (StateDB_ApplyForCandidate a pk m s) = (data_at s)(a := acc_Pubkey_update (\<lambda>_. pk)
      (acc_Commission_update (\<lambda>_. m) (acc_Candidate_update (\<lambda>_. True) (data_at s a))))"
    "apb_at (StateDB_ApplyForCandidate a pk m s) = apb_at s"
    "data_at (StateDB_CancelCandidate a r s) = (data_at s)(a := (if r then acc_Commission_update (\<lambda>_. 0) else (\<lambda>d. d))
      (acc_Pubkey_update (\<lambda>_. []) (acc_Candidate_update (\<lambda>_. False) (data_at s a))))"
    "apb_at (StateDB_CancelCandidate a r s) = apb_at s"
  using op_at [OF assms candidate_acts(1), of pk m a] op_at [OF assms candidate_acts(2), of a]
    op_at [OF assms candidate_acts(3), of a]
  by (simp_all add: StateDB_ApplyForCandidate_def StateDB_CancelCandidate_def Let_def)

lemma banned_at [effects]:
  assumes "sdb_ok s"
  shows "data_at (fst (StateDB_GetBanned a s)) = data_at s" "apb_at (fst (StateDB_GetBanned a s)) = apb_at s"
    "data_at (fst (StateDB_GetBannedTime a s)) = data_at s" "apb_at (fst (StateDB_GetBannedTime a s)) = apb_at s"
    "snd (StateDB_GetBanned a s) = acc_IsBanned (data_at s a)"
    "snd (StateDB_GetBannedTime a s) = acc_BannedTime (data_at s a)"
  using op_at [OF assms acts_id, of a] acct_GetOrNew(1) [OF assms, of a]
  by (simp_all add: StateDB_GetBanned_def StateDB_GetBannedTime_def Let_def)

lemma sets_at [effects]:
  "data_at (fst (StateDB_GetCandidateSet s)) = data_at s" "apb_at (fst (StateDB_GetCandidateSet s)) = apb_at s"
  "data_at (StateDB_MarkAddressCandidate a s) = data_at s" "apb_at (StateDB_MarkAddressCandidate a s) = apb_at s"
  "data_at (StateDB_ClearCandidateSetByAddress a s) = data_at s"
  "apb_at (StateDB_ClearCandidateSetByAddress a s) = apb_at s"
  "data_at (StateDB_MarkDelegateAddressRefund a s) = data_at s"
  "apb_at (StateDB_MarkDelegateAddressRefund a s) = apb_at s"
  "data_at (StateDB_ClearBannedSetByAddress a s) = data_at s"
  "apb_at (StateDB_ClearBannedSetByAddress a s) = apb_at s"
  "data_at (fst (StateDB_GetSideChainRewardPerBlock s)) = data_at s"
  "apb_at (fst (StateDB_GetSideChainRewardPerBlock s)) = apb_at s"
  by (rule same_objects; simp add: StateDB_GetCandidateSet_def StateDB_MarkAddressCandidate_def
      StateDB_ClearCandidateSetByAddress_def StateDB_MarkDelegateAddressRefund_def
      StateDB_GetDelegateAddressRefundSet_def StateDB_ClearBannedSetByAddress_def
      StateDB_GetSideChainRewardPerBlock_def Let_def split: option.split)+

section \<open>Rewards\<close>

definition rewardOf :: "stateObject \<Rightarrow> address \<Rightarrow> int" where
  "rewardOf ob d = (case stateObject_GetDelegateRewardBalance d ob of None \<Rightarrow> 0 | Some b \<Rightarrow> b)"

definition rew_at :: "stateDB \<Rightarrow> address \<Rightarrow> address \<Rightarrow> int" where
  "rew_at s a = rewardOf (acct_at s a)"

lemma rew_getter [effects]: "StateDB_GetRewardBalanceByDelegateAddress s a d = rew_at s a d"
  by (simp add: StateDB_GetRewardBalanceByDelegateAddress_def getField_def rew_at_def acct_at_def rewardOf_def
      stateObject_GetDelegateRewardBalance_def newObject_def zeroAccount_def split: option.splits)

lemma acct_GetOrNew_reward:
  assumes "sdb_ok s"
  shows "stateObject_GetDelegateRewardBalance d (snd (StateDB_GetOrNewStateObject a s))
    = stateObject_GetDelegateRewardBalance d (acct_at s a)"
proof (cases "StateDB_getStateObject s a")
  case (Some ob)
  have "\<not> so_deleted ob" using getStateObject_ok [OF assms Some] by auto
  then show ?thesis using Some by (simp add: StateDB_GetOrNewStateObject_def acct_at_def)
next
  case None
  obtain s1 newobj where c: "StateDB_createObject a s
      = ((StateDB_setStateObject newobj s1, newobj), StateDB_getStateObject s a)"
    "so_address newobj = a" "newobj = (newObject a zeroAccount)\<lparr>so_onDirty := False\<rparr>"
    "\<not> so_deleted newobj" "sdb_stateObjects s1 = sdb_stateObjects s" "sdb_trie s1 = sdb_trie s"
    by (rule createObject_unfold)
  show ?thesis using None c(1,3)
    by (simp add: StateDB_GetOrNewStateObject_def acct_at_def stateObject_GetDelegateRewardBalance_def cong: option.case_cong)
qed

text \<open>What a method of an object does to the rewards.\<close>

definition rewards_by :: "(objst \<Rightarrow> objst) \<Rightarrow> ((address \<Rightarrow> int) \<Rightarrow> address \<Rightarrow> int) \<Rightarrow> bool" where
  "rewards_by f e \<longleftrightarrow> (\<forall>s ob. rewardOf (snd (f (s, ob))) = e (rewardOf ob))"

lemma rewards_byD: "rewards_by f e \<Longrightarrow> rewardOf (snd (f p)) = e (rewardOf (snd p))"
  by (cases p) (simp add: rewards_by_def)

lemma op_rew_at:
  assumes ok: "sdb_ok s" and f: "acts f g e" and r: "rewards_by f h"
  shows "rew_at (writeBack (f (StateDB_GetOrNewStateObject a s))) = (rew_at s)(a := h (rew_at s a))"
proof -
  let ?p = "StateDB_GetOrNewStateObject a s"
  obtain s' ob' where fp: "f ?p = (s', ob')" by (cases "f ?p")
  have ob': "so_address ob' = a" "\<not> so_deleted ob'"
    using actsD [OF f, of ?p] acct_GetOrNew [OF ok, of a] fp by auto
  have rw: "rewardOf ob' = h (rew_at s a)"
  proof -
    have "rewardOf (snd ?p) = rew_at s a"
      by (rule ext) (simp add: rewardOf_def rew_at_def acct_GetOrNew_reward [OF ok])
    then show ?thesis using rewards_byD [OF r, of ?p] fp by simp
  qed
  have s': "StateDB_getStateObject s' b = StateDB_getStateObject s b" if "b \<noteq> a" for b
    using getStateObject_cong [OF actsD(1,2) [OF f, of ?p]] acct_GetOrNew(5) [OF ok that] fp by simp
  have "acct_at (writeBack (s', ob')) b = acct_at s b" if "b \<noteq> a" for b
    using s' [OF that] that ob' by (simp add: acct_at_def)
  moreover have "acct_at (writeBack (s', ob')) a = ob'" using ob' by (simp add: acct_at_def)
  ultimately show ?thesis unfolding fp using rw by (intro ext) (simp add: rew_at_def)
qed

lemma rewards_by_comp: "rewards_by f e \<Longrightarrow> rewards_by f' e' \<Longrightarrow> rewards_by (\<lambda>p. f' (f p)) (\<lambda>m. e' (e m))"
  unfolding rewards_by_def [of "\<lambda>p. f' (f p)"] by (simp add: rewards_byD)

lemma rewardOf_simps [simp]:
  "rewardOf (ob\<lparr>so_onDirty := b\<rparr>) = rewardOf ob" "rewardOf (ob\<lparr>so_touched := b\<rparr>) = rewardOf ob"
  "rewardOf (snd (fireDirty (s, ob))) = rewardOf ob"
  by (rule ext, simp add: rewardOf_def stateObject_GetDelegateRewardBalance_def fireDirty.simps cong: option.case_cong)+

lemma rewardOf_data: "acc_RewardRoot (f (so_data ob)) = acc_RewardRoot (so_data ob) \<Longrightarrow> rewardOf (updData f ob) = rewardOf ob"
  by (rule ext) (simp add: rewardOf_def stateObject_GetDelegateRewardBalance_def updData_def cong: option.case_cong)

lemma rewards_by_set:
  "rewards_by stateObject_touch (\<lambda>m. m)" "rewards_by (stateObject_SetBalance x) (\<lambda>m. m)"
  "rewards_by (stateObject_SetRewardBalance y) (\<lambda>m. m)"
  by (simp_all add: rewards_by_def touch_conv object_set_simps rewardOf_data del: stateObject_touch.simps)

lemmas rewards_kept = rewards_by_set [THEN rewards_byD]

lemma rewards_by_add:
  "rewards_by (stateObject_AddBalance x0) (\<lambda>m. m)" "rewards_by (stateObject_SubBalance x1) (\<lambda>m. m)"
  "rewards_by (stateObject_AddRewardBalance x2) (\<lambda>m. m)" "rewards_by (stateObject_SubRewardBalance x3) (\<lambda>m. m)"
  by (simp_all add: rewards_by_def rewards_kept touch_conv rewardOf_data del: stateObject_touch.simps)

lemma rewards_by_entry: "rewards_by (stateObject_SetDelegateRewardBalance d (Some v)) (\<lambda>m. m(d := v))"
proof -
  have "rewardOf (ob\<lparr>so_dirtyReward := AList.update d (Some v) (so_dirtyReward ob)\<rparr>) = (rewardOf ob)(d := v)" for ob
    by (rule ext) (simp add: rewardOf_def stateObject_GetDelegateRewardBalance_def update_conv' cong: option.case_cong)
  then show ?thesis by (simp add: rewards_by_def)
qed

lemma balance_rew_at [effects]:
  assumes "sdb_ok s"
  shows "rew_at (StateDB_AddBalance a x s) = rew_at s" "rew_at (StateDB_SubBalance a x s) = rew_at s"
  using op_rew_at [OF assms add_acts(1) rewards_by_add(1), of x a] op_rew_at [OF assms add_acts(2) rewards_by_add(2), of x a]
  by (simp_all add: StateDB_AddBalance_def StateDB_SubBalance_def)

lemma addReward_at [effects]:
  assumes "sdb_ok s"
  shows "data_at (StateDB_AddRewardBalanceByDelegateAddress a d x s)
      = (data_at s)(a := acc_RewardBalance_update (\<lambda>b. b + x) (data_at s a))"
    "apb_at (StateDB_AddRewardBalanceByDelegateAddress a d x s) = apb_at s"
    "rew_at (StateDB_AddRewardBalanceByDelegateAddress a d x s) = (rew_at s)(a := (rew_at s a)(d := rew_at s a d + x))"
proof -
  let ?v = "rew_at s a d + x"
  have conv: "StateDB_AddRewardBalanceByDelegateAddress a d x s = writeBack (stateObject_AddRewardBalance x
      (stateObject_SetDelegateRewardBalance d (Some ?v) (StateDB_GetOrNewStateObject a s)))"
    using acct_GetOrNew_reward [OF assms, of d a]
    by (simp add: StateDB_AddRewardBalanceByDelegateAddress_def split_beta rew_at_def rewardOf_def
        split: option.splits del: stateObject_SetDelegateRewardBalance.simps)
  note acts = acts_comp [OF SetDelegateReward_acts [of d "Some ?v"] add_acts(15) [of x]]
  show "data_at (StateDB_AddRewardBalanceByDelegateAddress a d x s)
      = (data_at s)(a := acc_RewardBalance_update (\<lambda>b. b + x) (data_at s a))"
    "apb_at (StateDB_AddRewardBalanceByDelegateAddress a d x s) = apb_at s"
    "rew_at (StateDB_AddRewardBalanceByDelegateAddress a d x s) = (rew_at s)(a := (rew_at s a)(d := ?v))"
    unfolding conv using op_at [OF assms acts, of a]
      op_rew_at [OF assms acts rewards_by_comp [OF rewards_by_entry rewards_by_add(3)], of a] by simp_all
qed

lemma subReward_at:
  assumes "sdb_ok s" "StateDB_SubRewardBalanceByDelegateAddress a d x s = Ret s'"
  shows "data_at s' = (data_at s)(a := acc_RewardBalance_update (\<lambda>b. b - x) (data_at s a))"
    "apb_at s' = apb_at s"
    "rew_at s' = (rew_at s)(a := (rew_at s a)(d := rew_at s a d - x))"
proof -
  let ?v = "rew_at s a d - x"
  have conv: "s' = writeBack (stateObject_SubRewardBalance x
      (stateObject_SetDelegateRewardBalance d (Some ?v) (StateDB_GetOrNewStateObject a s)))"
    using assms(2) acct_GetOrNew_reward [OF assms(1), of d a]
    by (simp add: StateDB_SubRewardBalanceByDelegateAddress_def split_beta rew_at_def rewardOf_def
        split: option.splits del: stateObject_SetDelegateRewardBalance.simps)
  note acts = acts_comp [OF SetDelegateReward_acts [of d "Some ?v"] add_acts(16) [of x]]
  show "data_at s' = (data_at s)(a := acc_RewardBalance_update (\<lambda>b. b - x) (data_at s a))"
    "apb_at s' = apb_at s" "rew_at s' = (rew_at s)(a := (rew_at s a)(d := ?v))"
    unfolding conv using op_at [OF assms(1) acts, of a]
      op_rew_at [OF assms(1) acts rewards_by_comp [OF rewards_by_entry rewards_by_add(4)], of a] by simp_all
qed

lemma same_rewards: "sdb_stateObjects s' = sdb_stateObjects s \<Longrightarrow> tr_accounts (sdb_trie s') = tr_accounts (sdb_trie s)
    \<Longrightarrow> rew_at s' = rew_at s"
  by (intro ext) (simp add: rew_at_def acct_at_def StateDB_getStateObject_def cong: option.case_cong)

lemma sideReward_rew_at [effects]: "rew_at (fst (StateDB_GetSideChainRewardPerBlock s)) = rew_at s"
  by (rule same_rewards) (simp_all add: StateDB_GetSideChainRewardPerBlock_def split: option.split)

end
