(* ===== verification/Staking_Theorems.thy ===== *)
theory Staking_Theorems
  imports Staking Account_Effects
begin

text \<open>
  What the callbacks of the chain contract do to the accounts: they move amounts between the parts of
  an account, and an account has as much delegated as the candidates record for it.
\<close>

definition wealth :: "stateDB \<Rightarrow> address \<Rightarrow> int" where
  "wealth s a = StateDB_GetBalance s a + StateDB_GetDepositBalance s a + StateDB_GetDelegateBalance s a
    + StateDB_GetTotalRewardBalance s a"

text \<open>What a candidate records for a user: delegated, or locked for the epoch.\<close>

definition recorded :: "stateDB \<Rightarrow> address \<Rightarrow> address \<Rightarrow> int" where
  "recorded s c u = StateDB_GetProxiedBalanceByUser s c u + StateDB_GetDepositProxiedBalanceByUser s c u"

definition commissionsOk :: "stateDB \<Rightarrow> bool" where
  "commissionsOk s \<longleftrightarrow> (\<forall>a. StateDB_GetCommission s a \<le> 100)"

definition staked :: "(bytes \<Rightarrow> bytes) \<Rightarrow> address \<Rightarrow> stateDB \<Rightarrow> stateDB \<Rightarrow> bool" where
  "staked keccak c s0 s \<longleftrightarrow> sdb_reachable keccak s \<and> wealth s = wealth s0
     \<and> (\<forall>b. b \<noteq> c \<longrightarrow> recorded s b = recorded s0 b)
     \<and> (\<forall>u. StateDB_GetDelegateBalance s u - StateDB_GetDelegateBalance s0 u = recorded s c u - recorded s0 c u)
     \<and> (commissionsOk s0 \<longrightarrow> commissionsOk s) \<and> StateDB_GetNonce s = StateDB_GetNonce s0"

lemma staked_refl: "sdb_reachable keccak s \<Longrightarrow> staked keccak c s s"
  by (simp add: staked_def)

lemma calls_reachable:
  assumes "sdb_reachable keccak s"
  shows "sdb_reachable keccak (StateDB_SubBalance a x s)" "sdb_reachable keccak (StateDB_AddDelegateBalance a x s)"
    "sdb_reachable keccak (StateDB_AddPendingRefundBalanceByUser a u x s)"
    "sdb_reachable keccak (StateDB_ApplyForCandidate a pk m s)" "sdb_reachable keccak (StateDB_CancelCandidate a r s)"
    "sdb_reachable keccak (StateDB_SetCommission a m s)" "sdb_reachable keccak (StateDB_SetBanned a b s)"
    "sdb_reachable keccak (fst (StateDB_GetBanned a s))" "sdb_reachable keccak (fst (StateDB_GetBannedTime a s))"
    "sdb_reachable keccak (fst (StateDB_GetCandidateSet s))" "sdb_reachable keccak (StateDB_MarkAddressCandidate a s)"
    "sdb_reachable keccak (StateDB_ClearCandidateSetByAddress a s)"
    "sdb_reachable keccak (StateDB_ClearBannedSetByAddress a s)"
    "sdb_reachable keccak (StateDB_MarkDelegateAddressRefund a s)"
    "sdb_reachable keccak (StateDB_AddRewardBalanceByDelegateAddress a u x s)"
    "StateDB_SubRewardBalanceByDelegateAddress a u x s = Ret s' \<Longrightarrow> sdb_reachable keccak s'"
    "sdb_reachable keccak (StateDB_SetNonce a n s)"
  by (rule sdb_reachable.Step [OF assms], rule sdb_step.intros; assumption?)+

section \<open>Sequences of calls\<close>

lemma staked_by_data:
  assumes "staked keccak c s0 s" "sdb_reachable keccak s'" "data_at s' = data_at s" "apb_at s' = apb_at s"
  shows "staked keccak c s0 s'"
  using assms by (simp add: staked_def fun_eq_iff wealth_def recorded_def commissionsOk_def effects)

lemma staked_calls:
  assumes "staked keccak c s0 s"
  shows "staked keccak c s0 (StateDB_AddProxiedBalanceByUser c u x (StateDB_AddDelegateBalance u x (StateDB_SubBalance u x s)))"
    "staked keccak c s0 (StateDB_AddDepositProxiedBalanceByUser c u x (StateDB_SubProxiedBalanceByUser c u x s))"
    "staked keccak c s0 (StateDB_AddBalance u x (StateDB_SubDelegateBalance u x (StateDB_SubProxiedBalanceByUser c u x s)))"
    "staked keccak c s0 (StateDB_AddPendingRefundBalanceByUser c u x s)"
    "staked keccak c s0 (StateDB_CancelCandidate a r s)"
    "staked keccak c s0 (StateDB_SetBanned a b s)"
    "m \<le> 100 \<Longrightarrow> staked keccak c s0 (StateDB_ApplyForCandidate a pk m s)"
    "m \<le> 100 \<Longrightarrow> staked keccak c s0 (StateDB_SetCommission a m s)"
proof -
  have r: "sdb_reachable keccak s" and ok: "sdb_ok s" and f: "wealth s0 = wealth s"
    "\<And>b. b \<noteq> c \<Longrightarrow> recorded s0 b = recorded s b"
    "commissionsOk s0 \<Longrightarrow> commissionsOk s" "StateDB_GetNonce s0 = StateDB_GetNonce s"
    using assms reachable_ok [of keccak s] by (simp_all add: staked_def)
  have d: "recorded s0 c u = recorded s c u - StateDB_GetDelegateBalance s u + StateDB_GetDelegateBalance s0 u" for u
  proof -
    have "StateDB_GetDelegateBalance s u - StateDB_GetDelegateBalance s0 u = recorded s c u - recorded s0 c u"
      using assms by (simp add: staked_def)
    then show ?thesis by linarith
  qed
  show "staked keccak c s0 (StateDB_AddProxiedBalanceByUser c u x (StateDB_AddDelegateBalance u x (StateDB_SubBalance u x s)))"
    "staked keccak c s0 (StateDB_AddDepositProxiedBalanceByUser c u x (StateDB_SubProxiedBalanceByUser c u x s))"
    "staked keccak c s0 (StateDB_AddBalance u x (StateDB_SubDelegateBalance u x (StateDB_SubProxiedBalanceByUser c u x s)))"
    "staked keccak c s0 (StateDB_AddPendingRefundBalanceByUser c u x s)"
    "staked keccak c s0 (StateDB_CancelCandidate a r' s)"
    "staked keccak c s0 (StateDB_SetBanned a b s)"
    "m \<le> 100 \<Longrightarrow> staked keccak c s0 (StateDB_ApplyForCandidate a pk m s)"
    "m \<le> 100 \<Longrightarrow> staked keccak c s0 (StateDB_SetCommission a m s)" for r'
    using ok f(3) by (simp_all add: staked_def f(1,2,4) d steps_reachable calls_reachable r)
      (auto simp: fun_eq_iff wealth_def recorded_def commissionsOk_def effects)
qed

lemma staked_same:
  assumes "staked keccak c s0 s"
  shows "staked keccak c s0 (fst (StateDB_GetBanned a s))" "staked keccak c s0 (fst (StateDB_GetBannedTime a s))"
    "staked keccak c s0 (fst (StateDB_GetCandidateSet s))" "staked keccak c s0 (StateDB_MarkAddressCandidate a s)"
    "staked keccak c s0 (StateDB_ClearCandidateSetByAddress a s)"
    "staked keccak c s0 (StateDB_ClearBannedSetByAddress a s)"
    "staked keccak c s0 (StateDB_MarkDelegateAddressRefund a s)"
proof -
  have r: "sdb_reachable keccak s" using assms by (simp add: staked_def)
  note ok = reachable_ok [OF r]
  show "staked keccak c s0 (fst (StateDB_GetBanned a s))" "staked keccak c s0 (fst (StateDB_GetBannedTime a s))"
    "staked keccak c s0 (fst (StateDB_GetCandidateSet s))" "staked keccak c s0 (StateDB_MarkAddressCandidate a s)"
    "staked keccak c s0 (StateDB_ClearCandidateSetByAddress a s)"
    "staked keccak c s0 (StateDB_ClearBannedSetByAddress a s)"
    "staked keccak c s0 (StateDB_MarkDelegateAddressRefund a s)"
    by (rule staked_by_data [OF assms]; simp add: calls_reachable [OF r] effects ok)+
qed

lemma staked_withdraw:
  assumes "staked keccak c s0 s" "StateDB_SubRewardBalanceByDelegateAddress a d x s = Ret s1"
  shows "staked keccak c s0 (StateDB_AddBalance a x s1)"
proof -
  have r: "sdb_reachable keccak s" using assms by (simp add: staked_def)
  have r1: "sdb_reachable keccak s1" using calls_reachable(16) [OF r assms(2)] .
  note s1 = subReward_at [OF reachable_ok [OF r] assms(2)]
  show ?thesis
    using assms(1) reachable_ok [OF r1] steps_reachable(1) [OF r1] s1
    by (simp add: staked_def fun_eq_iff wealth_def recorded_def commissionsOk_def effects add.assoc)
qed

lemma forEachProxied_invariant:
  assumes "forEachProxied a cb p = Ret p'" "P p" "\<And>k x y z q. P q \<Longrightarrow> P (cb k x y z q)"
  shows "P p'"
proof (cases "StateDB_getStateObject (fst p) a")
  case (Some so)
  show ?thesis
    using assms(1) unfolding forEachProxied_def Some option.case
    by (rule foldGo_invariant [where P = P, OF _ assms(2)])
      (simp only: split_beta, simp only: go.inject split: option.split_asm, (blast intro: assms(3))+)
qed (use assms in \<open>simp add: forEachProxied_def\<close>)

text \<open>Iterating without captured variables is the iteration of the database.\<close>

lemma forEachProxied_plain:
  "forEachProxied a (\<lambda>k x y z (s, u). (cb k x y z s, u)) (s, v) =
     bindGo (StateDB_ForEachProxied a cb s) (\<lambda>s'. Ret (s', v))"
proof -
  have "foldGo (\<lambda>(key, apb) p'.
        (case getField (\<lambda>ob. map_of (so_dirtyProxied ob) key) None (fst p') a of
           Some None \<Rightarrow> Panic ''nil accountProxiedBalance''
         | Some (Some w) \<Rightarrow> Ret ((\<lambda>(s, u). (cb key (apb_ProxiedBalance w) (apb_DepositProxiedBalance w)
             (apb_PendingRefundBalance w) s, u)) p')
         | None \<Rightarrow> Ret ((\<lambda>(s, u). (cb key (apb_ProxiedBalance apb) (apb_DepositProxiedBalance apb)
             (apb_PendingRefundBalance apb) s, u)) p'))) xs (t, v)
    = bindGo (foldGo (\<lambda>(key, apb) s'.
        (case getField (\<lambda>ob. map_of (so_dirtyProxied ob) key) None s' a of
           Some None \<Rightarrow> Panic ''nil accountProxiedBalance''
         | Some (Some w) \<Rightarrow> Ret (cb key (apb_ProxiedBalance w) (apb_DepositProxiedBalance w)
             (apb_PendingRefundBalance w) s')
         | None \<Rightarrow> Ret (cb key (apb_ProxiedBalance apb) (apb_DepositProxiedBalance apb)
             (apb_PendingRefundBalance apb) s'))) xs t) (\<lambda>s'. Ret (s', v))" for xs t
    by (induction xs arbitrary: t) (auto split: option.splits)
  then show ?thesis
    by (cases "StateDB_getStateObject s a")
      (simp_all only: forEachProxied_def StateDB_ForEachProxied_def option.case fst_conv bindGo.simps)
qed

section \<open>The callbacks\<close>

text \<open>How a run with an error result or an option continues.\<close>

lemma bindGo_sum:
  "bindGo m (\<lambda>r. case r of Inl e \<Rightarrow> f e | Inr x \<Rightarrow> g x) = Ret y \<longleftrightarrow>
     (\<exists>e. m = Ret (Inl e) \<and> f e = Ret y) \<or> (\<exists>x. m = Ret (Inr x) \<and> g x = Ret y)"
  by (cases m) (auto split: sum.splits)

lemma bindGo_option:
  "bindGo m (\<lambda>r. case r of None \<Rightarrow> f | Some x \<Rightarrow> g x) = Ret y \<longleftrightarrow>
     (m = Ret None \<and> f = Ret y) \<or> (\<exists>x. m = Ret (Some x) \<and> g x = Ret y)"
  by (cases m) (auto split: option.splits)

lemma bindGo_pair: "bindGo m (\<lambda>(a, b). f a b) = Ret y \<longleftrightarrow> (\<exists>a b. m = Ret (a, b) \<and> f a b = Ret y)"
  by (cases m) auto

lemma updateVotes_cases:
  assumes "updateNextEpochValidatorVoteSet env tx c s ops = Ret (err, s', ops')"
  shows "s' = s \<or> StateDB_ForEachProxied c (\<lambda>key proxiedBalance depositProxiedBalance pendingRefundBalance s.
    StateDB_AddDepositProxiedBalanceByUser c key proxiedBalance (StateDB_SubProxiedBalanceByUser c key proxiedBalance s)) s
      = Ret s'"
proof -
  have end_: "s1 = s'" if "(if b then Ret (Some ErrPubKeyFormat, s1, ops)
      else case PendingOps_Append ops op of (ops, ok) \<Rightarrow> Ret (if ok then None else Some ErrOpsConflict, s1, ops))
        = Ret (err, s', ops')" for b s1 op
    using that by (simp split: if_splits prod.splits)
  obtain r where r: "getEpoch env = Ret r"
    using assms unfolding updateNextEpochValidatorVoteSet_def bindGo_Ret_iff by blast
  note run = assms [unfolded updateNextEpochValidatorVoteSet_def Let_def r bindGo.simps]
  show ?thesis
  proof (cases r)
    case (Inr ep)
    note run = run [unfolded Inr sum.case]
    show ?thesis
    proof (cases "StateDB_GetTotalProxiedBalance s c + StateDB_GetTotalDepositProxiedBalance s c
        - StateDB_GetTotalPendingRefundBalance s c < 0")
      case False
      note run = run [unfolded if_not_P [OF False]]
      then obtain update where "(if \<not> (update \<and> StateDB_IsCandidate s c) then Ret (None, s, ops)
          else bindGo (StateDB_ForEachProxied c (\<lambda>key proxiedBalance depositProxiedBalance pendingRefundBalance s.
            StateDB_AddDepositProxiedBalanceByUser c key proxiedBalance (StateDB_SubProxiedBalanceByUser c key proxiedBalance s)) s)
          (\<lambda>s1. if StateDB_GetPubkey s1 c = [] \<or> length (FromHex (StateDB_GetPubkey s1 c)) \<noteq> 128
             then Ret (Some ErrPubKeyFormat, s1, ops)
             else case PendingOps_Append ops (UpdateNextEpochOp c (copyBLSPubKey (FromHex (StateDB_GetPubkey s1 c)))
               (StateDB_GetTotalProxiedBalance s c + StateDB_GetTotalDepositProxiedBalance s c
                 - StateDB_GetTotalPendingRefundBalance s c) ''ligochain'' (sk_txHash env tx)) of
               (ops, ok) \<Rightarrow> Ret (if ok then None else Some ErrOpsConflict, s1, ops))) = Ret (err, s', ops')"
        unfolding bindGo_Ret_iff [of _ _ "(err, s', ops')"] by blast
      then show ?thesis
        by (cases "\<not> (update \<and> StateDB_IsCandidate s c)") (simp, simp only: if_False bindGo_Ret_iff, use end_ in blast)
    qed (use run in simp)
  qed (use run in simp)
qed

lemma updateVotes_staked:
  assumes "staked keccak c s0 s" "updateNextEpochValidatorVoteSet env tx c s ops = Ret (err, s', ops')"
  shows "staked keccak c s0 s'"
  using updateVotes_cases [OF assms(2)]
proof
  assume "StateDB_ForEachProxied c (\<lambda>key proxiedBalance depositProxiedBalance pendingRefundBalance s.
    StateDB_AddDepositProxiedBalanceByUser c key proxiedBalance (StateDB_SubProxiedBalanceByUser c key proxiedBalance s)) s
      = Ret s'"
  then show ?thesis
    by (rule ForEachProxied_invariant [where P = "staked keccak c s0", OF _ assms(1)]) (rule staked_calls(2))
qed (use assms in simp)

lemma withdrawReward_staked:
  assumes "sdb_reachable keccak s" "withdrawRewardApplyCb env tx s ops = Ret (err, s', ops')"
  shows "staked keccak c s s'"
  using assms(2) staked_withdraw [OF staked_refl [OF assms(1)]] staked_refl [OF assms(1)]
  unfolding withdrawRewardApplyCb_def Let_def bindGo_sum unfolding bindGo_Ret_iff by auto

lemma setCommission_bound: "setCommissionValidation env from tx s = Ret (Inr args) \<Longrightarrow> ca_Commission args \<le> 100"
  by (simp add: setCommissionValidation_def bindGo_Ret_iff not_less split: if_splits)
    (auto simp: not_less split: option.splits if_splits)

lemma setCommission_staked:
  assumes "sdb_reachable keccak s" "setCommisstionApplyCb env tx s ops = Ret (err, s', ops')"
  shows "staked keccak c s s'"
  using assms(2) staked_calls(8) [OF staked_refl [OF assms(1)] setCommission_bound] staked_refl [OF assms(1)]
  unfolding setCommisstionApplyCb_def Let_def bindGo_sum by auto

lemma unBannedValidation_staked:
  assumes "staked keccak c s0 s" "unBannedValidation env a s = Ret (err, s')"
  shows "staked keccak c s0 s'"
  using assms(2) assms(1) staked_same(1) [OF assms(1), of a] staked_same(2) [OF staked_same(1) [OF assms(1), of a], of a]
  by (auto simp: unBannedValidation_def bindGo_Ret_iff split: if_splits option.splits prod.splits)

lemma unBanned_staked:
  assumes "sdb_reachable keccak s" "unBannedApplyCb env tx s ops = Ret (err, s', ops')"
  shows "staked keccak c s s'"
proof -
  obtain verror s1 where 1: "unBannedValidation env (derivedAddressFromTx env tx) s = Ret (verror, s1)"
    "s' = s1 \<or> s' = StateDB_ClearBannedSetByAddress (derivedAddressFromTx env tx)
       (StateDB_SetBanned (derivedAddressFromTx env tx) False s1)"
    using assms(2) by (auto simp: unBannedApplyCb_def Let_def bindGo_Ret_iff split: option.splits)
  have "staked keccak c s s1" by (rule unBannedValidation_staked [OF staked_refl [OF assms(1)] 1(1)])
  with 1(2) show ?thesis using staked_same(6) staked_calls(6) by blast
qed

lemma unDelegate_cases:
  assumes "unDelegateApplyCb env tx s ops = Ret (err, s', ops')"
  obtains "s' = s"
  | c x s1 where "s' = StateDB_AddBalance (derivedAddressFromTx env tx) x (StateDB_SubDelegateBalance
        (derivedAddressFromTx env tx) x (StateDB_SubProxiedBalanceByUser c (derivedAddressFromTx env tx) x s1))"
      "s1 = s \<or> (\<exists>y. s1 = StateDB_MarkDelegateAddressRefund c
         (StateDB_AddPendingRefundBalanceByUser c (derivedAddressFromTx env tx) y s))"
proof -
  obtain r where r: "unDelegateValidation env (derivedAddressFromTx env tx) tx s = Ret r"
    using assms unfolding unDelegateApplyCb_def Let_def bindGo_Ret_iff by blast
  note run = assms [unfolded unDelegateApplyCb_def Let_def r bindGo.simps]
  show thesis
  proof (cases r)
    case (Inr args)
    obtain verror where v: "updateValidation env = Ret verror"
      using run unfolding Inr sum.case bindGo_Ret_iff by blast
    note run = run [unfolded Inr sum.case v bindGo.simps]
    show thesis
    proof (cases verror)
      case None
      note run = run [unfolded None option.case]
      show thesis
      proof (cases "ua_Amount args \<le> StateDB_GetProxiedBalanceByUser s (ua_Candidate args) (derivedAddressFromTx env tx)")
        case True
        show thesis using run unfolding if_P [OF True] prod.case by (intro that(2)) auto
      next
        case False
        show thesis using run unfolding if_not_P [OF False] prod.case by (intro that(2)) auto
      qed
    qed (use run that(1) in simp)
  qed (use run that(1) in simp)
qed

lemma unDelegate_staked:
  assumes "sdb_reachable keccak s" "unDelegateApplyCb env tx s ops = Ret (err, s', ops')"
  shows "\<exists>c. staked keccak c s s'"
  using assms(2)
proof (cases rule: unDelegate_cases)
  case (2 c x s1)
  have "staked keccak c s s1"
    using 2(2) staked_refl [OF assms(1)] staked_same(7) [OF staked_calls(4) [OF staked_refl [OF assms(1)]]] by blast
  then show ?thesis unfolding 2(1) using staked_calls(3) by blast
qed (use assms staked_refl in blast)

lemma delegate_cases:
  assumes "delegateApplyCb env tx s ops = Ret (err, s', ops')"
  obtains "s' = s"
  | c s1 where "s1 = fst (StateDB_GetBanned (derivedAddressFromTx env tx)
        (StateDB_AddProxiedBalanceByUser c (derivedAddressFromTx env tx) (tx_Amount tx)
          (StateDB_AddDelegateBalance (derivedAddressFromTx env tx) (tx_Amount tx)
            (StateDB_SubBalance (derivedAddressFromTx env tx) (tx_Amount tx) s))))"
      "s' = s1 \<or> updateNextEpochValidatorVoteSet env tx c s1 ops = Ret (err, s', ops')"
proof -
  obtain r where r: "delegateValidation env (derivedAddressFromTx env tx) tx s = Ret r"
    using assms unfolding delegateApplyCb_def Let_def bindGo_Ret_iff by blast
  note run = assms [unfolded delegateApplyCb_def Let_def r bindGo.simps]
  show thesis
  proof (cases r)
    case (Inr args)
    obtain verror where v: "updateValidation env = Ret verror"
      using run unfolding Inr sum.case bindGo_Ret_iff by blast
    show thesis
    proof (cases verror)
      case None
      show thesis using run unfolding Inr sum.case v bindGo.simps None option.case
        by (intro that(2) [of _ "da_Candidate args", OF refl]) (simp split: prod.splits if_splits)
    qed (use run that(1) in \<open>simp add: Inr v\<close>)
  qed (use run that(1) in simp)
qed

lemma delegate_staked:
  assumes "sdb_reachable keccak s" "delegateApplyCb env tx s ops = Ret (err, s', ops')"
  shows "\<exists>c. staked keccak c s s'"
  using assms(2)
proof (cases rule: delegate_cases)
  case (2 c s1)
  have "staked keccak c s s1"
    unfolding 2(1) by (rule staked_same(1) [OF staked_calls(1) [OF staked_refl [OF assms(1)]]])
  then show ?thesis using 2(2) updateVotes_staked by blast
qed (use assms staked_refl in blast)

lemma registerValidation_cases:
  assumes "registerValidation env from tx s = Ret (r, s1)"
  shows "s1 = fst (StateDB_GetCandidateSet s) \<and> (\<forall>args. r = Inr args \<longrightarrow> ra_Commission args \<le> 100)"
proof -
  obtain t cs where t: "StateDB_GetCandidateSet s = (t, cs)" by (cases "StateDB_GetCandidateSet s")
  have "(if maxCandidateNumber < int (length cs) then Ret (Inl ErrMaxCandidate, t)
        else if \<not> StateDB_IsCleanAddress t from then Ret (Inl ErrAlreadyCandidate, t)
        else if tx_Amount tx < minimumRegisterAmount then Ret (Inl ErrMinimumRegisterAmount, t)
        else
          bindGo (callArgs tx) (\<lambda>data. case sk_UnpackRegister env data of
              None \<Rightarrow> Ret (Inl ErrUnpack, t)
            | Some args \<Rightarrow>
                if \<not> sk_CheckConsensusPubKey env from (ra_Pubkey args) (ra_Signature args)
                then Ret (Inl ErrConsensusPubKey, t)
                else if 100 < ra_Commission args then Ret (Inl ErrCommission, t)
                else bindGo (isSupernode env from) (\<lambda>supernode.
                  Ret (if supernode then Inl ErrCannotCandidate else Inr args, t)))) = Ret (r, s1)"
    using assms unfolding registerValidation_def t by simp
  then show ?thesis unfolding t fst_conv
    by (simp only: bindGo_Ret_iff split: if_splits) (auto simp: not_less split: option.split_asm if_split_asm simp: bindGo_Ret_iff)
qed

lemma register_cases:
  assumes "registerApplyCb env tx s ops = Ret (err, s', ops')"
  obtains "s' = fst (StateDB_GetCandidateSet s)"
  | pk m where "m \<le> 100" "updateNextEpochValidatorVoteSet env tx (derivedAddressFromTx env tx)
      (StateDB_MarkAddressCandidate (derivedAddressFromTx env tx) (StateDB_ApplyForCandidate (derivedAddressFromTx env tx) pk m
        (StateDB_AddProxiedBalanceByUser (derivedAddressFromTx env tx) (derivedAddressFromTx env tx) (tx_Amount tx)
          (StateDB_AddDelegateBalance (derivedAddressFromTx env tx) (tx_Amount tx)
            (StateDB_SubBalance (derivedAddressFromTx env tx) (tx_Amount tx) (fst (StateDB_GetCandidateSet s)))))))
      ops = Ret (err, s', ops')"
proof -
  obtain r s1 where r: "registerValidation env (derivedAddressFromTx env tx) tx s = Ret (r, s1)"
    using assms unfolding registerApplyCb_def Let_def bindGo_Ret_iff by (metis surj_pair)
  have s1: "s1 = fst (StateDB_GetCandidateSet s)" "\<And>args. r = Inr args \<Longrightarrow> ra_Commission args \<le> 100"
    using registerValidation_cases [OF r] by auto
  note run = assms [unfolded registerApplyCb_def Let_def r bindGo.simps prod.case s1(1)]
  show thesis
  proof (cases r)
    case (Inr args)
    obtain verror where v: "updateValidation env = Ret verror"
      using run unfolding Inr sum.case bindGo_Ret_iff by blast
    show thesis
    proof (cases verror)
      case None
      show thesis using run unfolding Inr sum.case v bindGo.simps None option.case
        by (rule that(2) [OF s1(2) [OF Inr]])
    qed (use run that(1) in \<open>simp add: Inr v\<close>)
  qed (use run that(1) in simp)
qed

lemma register_staked:
  assumes "sdb_reachable keccak s" "registerApplyCb env tx s ops = Ret (err, s', ops')"
  shows "\<exists>c. staked keccak c s s'"
proof -
  have st: "staked keccak c s (fst (StateDB_GetCandidateSet s))" for c
    by (rule staked_same(3) [OF staked_refl [OF assms(1)]])
  show ?thesis using assms(2)
  proof (cases rule: register_cases)
    case (2 pk m)
    show ?thesis
      using updateVotes_staked [OF staked_same(4) [OF staked_calls(7) [OF staked_calls(1) [OF st] 2(1)]] 2(2)] by blast
  qed (use st in blast)
qed

lemma unRegisterValidation_staked:
  assumes "staked keccak c s0 s" "unRegisterValidation env a s = Ret (err, s1)"
  shows "staked keccak c s0 s1"
proof -
  obtain t b where t: "StateDB_GetBanned a s = (t, b)" by (cases "StateDB_GetBanned a s")
  have "staked keccak c s0 t" using staked_same(1) [OF assms(1), of a] t by simp
  then show ?thesis using assms
    by (auto simp: unRegisterValidation_def t bindGo_Ret_iff split: if_splits)
qed

lemma unRegister_staked:
  assumes "sdb_reachable keccak s" "unRegisterApplyCb env tx s ops = Ret (err, s', ops')"
  shows "staked keccak (derivedAddressFromTx env tx) s s'"
proof -
  let ?c = "derivedAddressFromTx env tx"
  obtain verror s1 where v: "unRegisterValidation env ?c s = Ret (verror, s1)"
    using assms(2) unfolding unRegisterApplyCb_def Let_def bindGo_pair by blast
  note run = assms(2) [unfolded unRegisterApplyCb_def Let_def v bindGo.simps prod.case]
  have s1: "staked keccak ?c s s1" by (rule unRegisterValidation_staked [OF staked_refl [OF assms(1)] v])
  show ?thesis
  proof (cases verror)
    case None
    note run = run [unfolded None option.case bindGo_pair]
    let ?cb = "\<lambda>key proxiedBalance depositProxiedBalance pendingRefundBalance (s, allRefund).
      if 0 < depositProxiedBalance
      then (StateDB_MarkDelegateAddressRefund ?c (StateDB_AddPendingRefundBalanceByUser ?c key depositProxiedBalance
              (StateDB_AddBalance key proxiedBalance (StateDB_SubDelegateBalance key proxiedBalance
                (StateDB_SubProxiedBalanceByUser ?c key proxiedBalance s)))), False)
      else (StateDB_AddBalance key proxiedBalance (StateDB_SubDelegateBalance key proxiedBalance
              (StateDB_SubProxiedBalanceByUser ?c key proxiedBalance s)), allRefund)"
    from run obtain s2 r where loop: "forEachProxied ?c ?cb (s1, True) = Ret (s2, r)"
      and s': "s' = fst (StateDB_GetCandidateSet (StateDB_ClearCandidateSetByAddress ?c
         (fst (StateDB_GetCandidateSet (StateDB_CancelCandidate ?c r s2)))))" by auto
    have "staked keccak ?c s (fst (s2, r))"
      using loop s1
      by (rule forEachProxied_invariant [where P = "\<lambda>p. staked keccak ?c s (fst p)" and p = "(s1, True)", simplified fst_conv])
        (auto simp: staked_calls staked_same split: prod.splits)
    then show ?thesis unfolding s' by (simp add: staked_calls staked_same)
  qed (use run s1 in simp)
qed

lemma callback_staked:
  assumes "sdb_reachable keccak s" "GetApplyCb fn = Some cb" "cb env tx s ops = Ret (err, s', ops')"
  shows "\<exists>c. staked keccak c s s'"
  using assms(2,3)
  by (cases fn)
    (auto simp: GetApplyCb_def dest: withdrawReward_staked [OF assms(1)] setCommission_staked [OF assms(1)]
      unBanned_staked [OF assms(1)] unDelegate_staked [OF assms(1)] delegate_staked [OF assms(1)]
      register_staked [OF assms(1)] unRegister_staked [OF assms(1)])

text \<open>
  C6: a callback of the chain contract, whether it succeeds or ends with an error, only moves amounts
  between the parts of an account (balance, deposit, delegated amount and reward). It changes what one
  candidate records, and what an account has delegated changes by what the candidate records for it.
  A commission never exceeds 100 percent.
\<close>

theorem staking_conserves_wealth:
  assumes "sdb_reachable keccak s" "GetApplyCb fn = Some cb" "cb env tx s ops = Ret (err, s', ops')"
  shows "sdb_reachable keccak s' \<and> (\<forall>a. wealth s' a = wealth s a) \<and>
    (\<exists>c. (\<forall>b u. b \<noteq> c \<longrightarrow> recorded s' b u = recorded s b u) \<and>
       (\<forall>u. StateDB_GetDelegateBalance s' u - StateDB_GetDelegateBalance s u = recorded s' c u - recorded s c u)) \<and>
    ((\<forall>a. StateDB_GetCommission s a \<le> 100) \<longrightarrow> (\<forall>a. StateDB_GetCommission s' a \<le> 100))"
  using callback_staked [OF assms] by (auto simp: staked_def fun_eq_iff commissionsOk_def)

lemma unDelegateValidation_ok:
  assumes "unDelegateValidation env from tx s = Ret (Inr args)"
  shows "sk_UnpackUnDelegate env (drop 4 (tx_Payload tx)) = Some args" "from \<noteq> ua_Candidate args"
    "ua_Amount args \<le> stake s (ua_Candidate args) from"
proof -
  obtain d where d: "callArgs tx = Ret d" using assms unfolding unDelegateValidation_def bindGo_Ret_iff by blast
  have d': "d = drop 4 (tx_Payload tx)" using d by (simp add: callArgs_def split: if_splits)
  note run = assms [unfolded unDelegateValidation_def d bindGo.simps]
  obtain a where a: "sk_UnpackUnDelegate env d = Some a" using run by (cases "sk_UnpackUnDelegate env d") auto
  note run = run [unfolded a option.case]
  have ne: "from \<noteq> ua_Candidate a" using run by (auto split: if_splits)
  note run = run [unfolded if_not_P [OF ne]]
  obtain b where b: "isSupernode env (ua_Candidate a) = Ret b" using run unfolding bindGo_Ret_iff by blast
  note run = run [unfolded b bindGo.simps]
  have "\<not> b" using run by (cases b) auto
  note run = run [unfolded if_not_P [OF this] Let_def]
  have le: "ua_Amount a \<le> stake s (ua_Candidate a) from" using run by (auto simp: stake_def split: if_splits)
  have "bindGo (getEpoch env) (\<lambda>r. Ret (case r of Inl e \<Rightarrow> Inl e | Inr _ \<Rightarrow> Inr a)) = Ret (Inr args)"
    using run by (simp split: if_splits)
  then obtain x :: "stakeErr + epoch" where "(case x of Inl e \<Rightarrow> Inl e | Inr _ \<Rightarrow> Inr a) = Inr args"
    unfolding bindGo_Ret_iff by blast
  then have "a = args" by (cases x) auto
  then show "sk_UnpackUnDelegate env (drop 4 (tx_Payload tx)) = Some args" "from \<noteq> ua_Candidate args"
    "ua_Amount args \<le> stake s (ua_Candidate args) from" using a d' ne le by auto
qed

lemma unDelegate_run:
  assumes "unDelegateApplyCb env tx s ops = Ret (None, s', ops')"
  obtains args where "unDelegateValidation env (derivedAddressFromTx env tx) tx s = Ret (Inr args)" "ops' = ops"
    "s' = (let from = derivedAddressFromTx env tx; c = ua_Candidate args; proxied = StateDB_GetProxiedBalanceByUser s c from;
        x = min (ua_Amount args) proxied;
        s1 = (if ua_Amount args \<le> proxied then s else StateDB_MarkDelegateAddressRefund c
                (StateDB_AddPendingRefundBalanceByUser c from (ua_Amount args - proxied) s))
      in StateDB_AddBalance from x (StateDB_SubDelegateBalance from x (StateDB_SubProxiedBalanceByUser c from x s1)))"
proof -
  obtain r where r: "unDelegateValidation env (derivedAddressFromTx env tx) tx s = Ret r"
    using assms unfolding unDelegateApplyCb_def Let_def bindGo_Ret_iff by blast
  note run = assms [unfolded unDelegateApplyCb_def Let_def r bindGo.simps]
  obtain args where a: "r = Inr args" using run by (cases r) auto
  obtain verror where v: "updateValidation env = Ret verror"
    using run unfolding a sum.case bindGo_Ret_iff by blast
  note run = run [unfolded a sum.case v bindGo.simps]
  have "verror = None" using run by (cases verror) auto
  note run = run [unfolded this option.case]
  show thesis
  proof (cases "ua_Amount args \<le> StateDB_GetProxiedBalanceByUser s (ua_Candidate args) (derivedAddressFromTx env tx)")
    case True
    show thesis using run unfolding if_P [OF True] prod.case
      by (intro that [OF r [unfolded a]]) (simp_all add: Let_def True min_def)
  next
    case False
    show thesis using run unfolding if_not_P [OF False] prod.case
      by (intro that [OF r [unfolded a]]) (simp_all add: Let_def False min_def)
  qed
qed


section \<open>A candidate and a delegator\<close>

text \<open>
  The account \<open>demo_val\<close> is a candidate to whom \<open>demo_user\<close> has delegated 90, locked for the epoch; a call
  of the contract comes from the account \<open>from\<close> and has the given argument.
\<close>

definition demo_pubkey :: string where "demo_pubkey = replicate 256 CHR ''1''"

definition demo_candidate :: "string \<Rightarrow> stateDB" where
  "demo_candidate pubkey = StateDB_AddBalance demo_user 1000 (StateDB_AddDepositProxiedBalanceByUser demo_val demo_user 90
    (StateDB_AddDelegateBalance demo_user 90 (StateDB_ApplyForCandidate demo_val pubkey 5
      (StateDB_New Map.empty empty_trie))))"

definition demo_pool :: stateDB where
  "demo_pool = demo_candidate demo_pubkey"

definition demo_senv :: "address \<Rightarrow> address \<Rightarrow> int \<Rightarrow> blob stakingEnv" where
  "demo_senv from arg amount = \<lparr>sk_wire = demo_wire, sk_epochDB = Map.empty, sk_Epoch = Some demo_epoch, sk_CurrentBlock = 5,
     sk_Sender = (\<lambda>tx. Some from), sk_txHash = (\<lambda>tx. zeroHash),
     sk_UnpackDelegate = (\<lambda>b. Some \<lparr>da_Candidate = arg\<rparr>),
     sk_UnpackUnDelegate = (\<lambda>b. Some \<lparr>ua_Candidate = arg, ua_Amount = amount\<rparr>),
     sk_UnpackRegister = (\<lambda>b. None), sk_UnpackEditValidator = (\<lambda>b. None),
     sk_UnpackWithdrawReward = (\<lambda>b. Some \<lparr>wa_DelegateAddress = arg\<rparr>), sk_UnpackSetCommission = (\<lambda>b. None),
     sk_CheckConsensusPubKey = (\<lambda>a b c. True), sk_KeyString = (\<lambda>b. demo_pubkey)\<rparr>"

definition demo_call :: "int \<Rightarrow> transaction" where
  "demo_call amount = \<lparr>tx_AccountNonce = 0, tx_Price = 1, tx_GasLimit = 100000, tx_Recipient = Some ChainContractMagicAddr,
     tx_Amount = amount, tx_Payload = [1, 2, 3, 4], tx_V = 0, tx_R = 0, tx_S = 0\<rparr>"

lemma demo_pool_reachable: "sdb_reachable keccak demo_pool"
proof -
  have "trie_ok empty_trie" by (simp add: trie_ok_def empty_trie_def)
  then have "sdb_reachable keccak (StateDB_New Map.empty empty_trie)" by (rule sdb_reachable.New)
  from sdb_reachable.Step [OF sdb_reachable.Step [OF sdb_reachable.Step [OF sdb_reachable.Step
      [OF this sdb_step.ApplyForCandidate] sdb_step.AddDelegateBalance] sdb_step.AddDepositProxiedBalanceByUser]
      sdb_step.AddBalance]
  show ?thesis unfolding demo_pool_def demo_candidate_def .
qed

lemma demo_delegated:
  "case delegateApplyCb (demo_senv demo_user demo_val 0) (demo_call 100) demo_pool [] of
     Panic e \<Rightarrow> False
   | Ret (err, s', ops) \<Rightarrow> err = None \<and> StateDB_GetBalance s' demo_user = 900
       \<and> StateDB_GetDelegateBalance s' demo_user = 190 \<and> recorded s' demo_val demo_user = 190"
  by code_simp

theorem staking_conserves_wealth_witness:
  "\<exists>cb s' ops. GetApplyCb Delegate = Some cb
     \<and> cb (demo_senv demo_user demo_val 0) (demo_call 100) demo_pool [] = Ret (None, s', ops)
     \<and> StateDB_GetBalance s' demo_user = 900 \<and> wealth s' demo_user = wealth demo_pool demo_user"
proof -
  obtain s' ops where s': "delegateApplyCb (demo_senv demo_user demo_val 0) (demo_call 100) demo_pool [] = Ret (None, s', ops)"
    "StateDB_GetBalance s' demo_user = 900"
    using demo_delegated by (auto split: go.splits prod.splits)
  have cb: "GetApplyCb Delegate = Some delegateApplyCb" by (simp add: GetApplyCb_def)
  show ?thesis
    using staking_conserves_wealth [OF demo_pool_reachable [of "\<lambda>_. []"] cb s'(1)] cb s' by blast
qed

lemma demo_undelegated:
  "case unDelegateApplyCb (demo_senv demo_user demo_val 40) (demo_call 0) demo_pool [] of
     Panic e \<Rightarrow> False
   | Ret (err, s', ops) \<Rightarrow> err = None \<and> StateDB_GetPendingRefundBalanceByUser s' demo_val demo_user = 40"
  by code_simp


text \<open>
  A delegator asks 40 of the 90 back, which are kept for the end of the epoch, and then the candidate
  unregisters: the whole locked amount is added to the refunds, although 40 of it is pending already. At the
  end of the epoch the delegator is paid 130 for the 90 it had delegated.
\<close>

definition demo_overRefund :: "stateDB go" where
  "demo_overRefund =
     bindGo (StateDB_Finalise True (demo_candidate ''k'')) (\<lambda>s.
     bindGo (unDelegateApplyCb (demo_senv demo_user demo_val 40) (demo_call 0) s []) (\<lambda>(err, s, ops).
     bindGo (unRegisterApplyCb (demo_senv demo_val demo_val 0) (demo_call 0) s []) (\<lambda>(err, s, ops).
       refundDelegate demo_val s)))"

lemma unregister_refunds_twice:
  "StateDB_GetBalance (demo_candidate ''k'') demo_user = 1000
   \<and> StateDB_GetDelegateBalance (demo_candidate ''k'') demo_user = 90 \<and>
   (case demo_overRefund of Panic e \<Rightarrow> False
    | Ret s \<Rightarrow> StateDB_GetBalance s demo_user = 1130 \<and> StateDB_GetDelegateBalance s demo_user = - 40)"
  by code_simp

end
