(* ===== verification/Float_Laws.thy ===== *)
theory Float_Laws
  imports Go_Float
begin

text \<open>
  Bounds of the rounded arithmetic of \<open>Go_Float\<close>: a share of an amount that is computed with a rounded
  quotient and a rounded product is never more than the amount.
\<close>

lemma bitLen_bounds: "0 < n \<Longrightarrow> 0 < bitLen n \<and> 2 ^ (bitLen n - 1) \<le> n \<and> n < 2 ^ bitLen n"
proof (induction n rule: bitLen.induct)
  case (1 n)
  show ?case
  proof (cases "n = 1")
    case True
    then show ?thesis by (simp add: bitLen.simps [of 1] bitLen.simps [of 0])
  next
    case False
    then have "0 < n div 2" using 1(2) by linarith
    then have ih: "0 < bitLen (n div 2)" "2 ^ (bitLen (n div 2) - 1) \<le> n div 2" "n div 2 < 2 ^ bitLen (n div 2)"
      using 1 by auto
    have l: "bitLen n = Suc (bitLen (n div 2))" using 1(2) by (subst bitLen.simps) simp
    have "(2 :: int) ^ bitLen (n div 2) = 2 * 2 ^ (bitLen (n div 2) - 1)"
      using ih(1) by (cases "bitLen (n div 2)") auto
    then show ?thesis unfolding l using ih(2,3) by simp linarith
  qed
qed

lemma bitLen_le: "0 \<le> n \<Longrightarrow> n < 2 ^ k \<Longrightarrow> bitLen n \<le> k"
proof (cases "n = 0")
  case False
  assume "0 \<le> n" "n < 2 ^ k"
  then have "(2 :: int) ^ (bitLen n - 1) < 2 ^ k" using bitLen_bounds [of n] False by linarith
  then have "bitLen n - 1 < k" by (simp add: power_strict_increasing_iff)
  then show ?thesis by linarith
qed (simp add: bitLen.simps)

lemma bitLen_mono: "0 \<le> m \<Longrightarrow> m \<le> n \<Longrightarrow> bitLen m \<le> bitLen n"
proof (cases "n = 0")
  case False
  assume "0 \<le> m" "m \<le> n"
  then show ?thesis using bitLen_bounds [of n] False by (intro bitLen_le) linarith+
qed simp

lemma nearestEven_bounds:
  assumes "0 < den" "0 \<le> num" "num \<le> k * den"
  shows "0 \<le> nearestEven num den" "nearestEven num den \<le> k"
proof -
  have q: "0 \<le> num div den" using assms by (simp add: pos_imp_zdiv_nonneg_iff)
  then show "0 \<le> nearestEven num den" by (auto simp: nearestEven_def Let_def)
  have "num div den \<le> k" using assms(1,3) zdiv_mono1 [of num "k * den" den] by simp
  moreover have "num mod den = 0" if "num div den = k"
  proof -
    have "num = k * den + num mod den" using that by (metis div_mult_mod_eq)
    moreover have "0 \<le> num mod den" using assms(1) by simp
    ultimately show ?thesis using assms(3) by linarith
  qed
  ultimately show "nearestEven num den \<le> k"
    using assms(1) by (cases "num div den = k") (auto simp: nearestEven_def Let_def)
qed

lemma quotient_le_1:
  assumes "0 \<le> num" "num \<le> den" "0 < den" "0 < prec"
  shows "\<exists>m s. roundQuotient prec num den = (m, - int s) \<and> 0 \<le> m \<and> m \<le> 2 ^ s"
proof (cases "num = 0")
  case True
  then show ?thesis by (intro exI [of _ 0]) (simp add: roundQuotient_def)
next
  case False
  define s0 where "s0 = int prec + int (bitLen den) - int (bitLen num)"
  define s where "s = (if shiftLeft den (- s0) * 2 ^ prec \<le> num \<and> s0 < 0 \<or>
    den * 2 ^ prec \<le> shiftLeft num s0 \<and> 0 \<le> s0 then s0 - 1 else s0)"
  have "1 \<le> s0" using bitLen_mono [OF assms(1,2)] assms(4) by (simp add: s0_def)
  then have s: "0 \<le> s" by (simp add: s_def)
  have r: "roundQuotient prec num den = (nearestEven (num * 2 ^ nat s) den, - s)"
    unfolding roundQuotient_def Let_def s0_def [symmetric] s_def [symmetric]
    using False s by (simp add: shiftLeft_def)
  have "num * 2 ^ nat s \<le> 2 ^ nat s * den" using assms(2) by (simp add: mult.commute)
  with assms(2) show ?thesis unfolding r
    using nearestEven_bounds [OF assms(3), of "num * 2 ^ nat s" "2 ^ nat s"] assms(1) s
    by (intro exI [of _ "nearestEven (num * 2 ^ nat s) den"] exI [of _ "nat s"]) simp
qed

lemma roundQuotient_1:
  assumes "0 < n" "bitLen n \<le> prec + k"
  shows "(\<exists>t. roundQuotient prec n 1 = (n * 2 ^ t, - int t)) \<or>
    (\<exists>t. t \<le> k \<and> roundQuotient prec n 1 = (nearestEven n (2 ^ t), int t))"
proof -
  define s0 where "s0 = int prec + int (bitLen 1) - int (bitLen n)"
  define s where "s = (if shiftLeft 1 (- s0) * 2 ^ prec \<le> n \<and> s0 < 0 \<or>
    1 * 2 ^ prec \<le> shiftLeft n s0 \<and> 0 \<le> s0 then s0 - 1 else s0)"
  have "bitLen 1 = 1" by (simp add: bitLen.simps [of 1] bitLen.simps [of 0])
  then have ge: "- int k \<le> s" using assms(2) by (simp add: s_def s0_def)
  have r: "roundQuotient prec n 1 = (if 0 \<le> s then nearestEven (shiftLeft n s) 1 else nearestEven n (shiftLeft 1 (- s)), - s)"
    unfolding roundQuotient_def Let_def s0_def [symmetric] s_def [symmetric] using assms(1) by simp
  have one: "nearestEven x 1 = x" for x by (simp add: nearestEven_def Let_def)
  show ?thesis
  proof (cases "0 \<le> s")
    case True
    then show ?thesis unfolding r by (intro disjI1 exI [of _ "nat s"]) (simp add: one shiftLeft_def)
  next
    case False
    then show ?thesis unfolding r using ge
      by (intro disjI2 exI [of _ "nat (- s)"]) (simp add: shiftLeft_def nat_le_iff)
  qed
qed

lemma Float_Int_div: "0 \<le> f \<Longrightarrow> Float_Int (f, - int k) = f div 2 ^ k"
  by (cases "k = 0") (simp_all add: Float_Int_def shiftLeft_def)

lemma product_le:
  assumes "0 \<le> c" "0 \<le> m" "m \<le> 2 ^ s" "bitLen c \<le> prec"
  shows "0 \<le> Float_Int (Float_Mul prec (c, 0) (m, - int s))" "Float_Int (Float_Mul prec (c, 0) (m, - int s)) \<le> c"
proof -
  let ?p = "c * m"
  have p: "0 \<le> ?p" "?p \<le> c * 2 ^ s" using assms by (simp_all add: mult_left_mono)
  have "0 \<le> Float_Int (Float_Mul prec (c, 0) (m, - int s)) \<and> Float_Int (Float_Mul prec (c, 0) (m, - int s)) \<le> c"
  proof (cases "?p = 0")
    case True
    then show ?thesis using assms(1)
      by (simp add: Float_Mul_def roundQuotient_def withSign_def Float_Int_def shiftLeft_def Let_def)
  next
    case False
    then have pos: "0 < ?p" "0 < c" using p assms(1) by (auto simp: less_le)
    have "c * 2 ^ s < 2 ^ bitLen c * 2 ^ s" using bitLen_bounds [OF pos(2)] by simp
    then have "?p < 2 ^ (bitLen c + s)" using p(2) by (simp only: power_add)
    then have "bitLen ?p \<le> bitLen c + s" by (rule bitLen_le [OF p(1)])
    then have "bitLen ?p \<le> prec + s" using assms(4) by linarith
    from roundQuotient_1 [OF pos(1) this] show ?thesis
    proof
      assume "\<exists>t. roundQuotient prec ?p 1 = (?p * 2 ^ t, - int t)"
      then obtain t where t: "roundQuotient prec ?p 1 = (?p * 2 ^ t, - int t)" by blast
      have "Float_Mul prec (c, 0) (m, - int s) = (?p * 2 ^ t, - int (t + s))"
        using pos(1) by (simp add: Float_Mul_def t withSign_def Let_def)
      then have "Float_Int (Float_Mul prec (c, 0) (m, - int s)) = (?p * 2 ^ t) div 2 ^ (t + s)"
        using p(1) by (simp only: Float_Int_div [OF mult_nonneg_nonneg] zero_le_power zero_le_numeral)
      also have "\<dots> = ?p div 2 ^ s" by (simp add: power_add mult.commute)
      finally show ?thesis using p zdiv_mono1 [OF p(2), of "2 ^ s"] by (simp add: pos_imp_zdiv_nonneg_iff)
    next
      assume "\<exists>t. t \<le> s \<and> roundQuotient prec ?p 1 = (nearestEven ?p (2 ^ t), int t)"
      then obtain t where t: "t \<le> s" "roundQuotient prec ?p 1 = (nearestEven ?p (2 ^ t), int t)" by blast
      let ?f = "nearestEven ?p (2 ^ t)"
      have "c * 2 ^ s = (c * 2 ^ (s - t)) * 2 ^ t" using t(1) by (simp add: mult.assoc flip: power_add)
      then have "?p \<le> (c * 2 ^ (s - t)) * 2 ^ t" using p(2) by linarith
      from nearestEven_bounds [OF _ p(1) this] have f: "0 \<le> ?f" "?f \<le> c * 2 ^ (s - t)" by simp_all
      have "Float_Mul prec (c, 0) (m, - int s) = (?f, - int (s - t))"
        using pos(1) t(1) by (simp add: Float_Mul_def t(2) withSign_def Let_def of_nat_diff)
      then have "Float_Int (Float_Mul prec (c, 0) (m, - int s)) = ?f div 2 ^ (s - t)"
        using f(1) by (simp only: Float_Int_div)
      then show ?thesis using f zdiv_mono1 [OF f(2), of "2 ^ (s - t)"] by (simp add: pos_imp_zdiv_nonneg_iff)
    qed
  qed
  then show "0 \<le> Float_Int (Float_Mul prec (c, 0) (m, - int s))"
    "Float_Int (Float_Mul prec (c, 0) (m, - int s)) \<le> c" by blast+
qed

text \<open>The share \<open>part / whole\<close> of an amount, with a precision that holds the amount exactly.\<close>

lemma share_le:
  assumes "0 \<le> part" "part \<le> whole" "0 < whole" "0 \<le> amount" "bitLen amount \<le> prec" "0 < prec'"
  shows "0 \<le> Float_Int (Float_Mul prec (amount, 0) (Float_Quo prec' (part, 0) (whole, 0)))"
    "Float_Int (Float_Mul prec (amount, 0) (Float_Quo prec' (part, 0) (whole, 0))) \<le> amount"
proof -
  obtain m s where r: "roundQuotient prec' part whole = (m, - int s)" "0 \<le> m" "m \<le> 2 ^ s"
    using quotient_le_1 [OF assms(1-3,6)] by blast
  have "Float_Quo prec' (part, 0) (whole, 0) = (m, - int s)"
    using assms(1,3) r(1) by (simp add: Float_Quo_def withSign_def Let_def mult_less_0_iff)
  then show "0 \<le> Float_Int (Float_Mul prec (amount, 0) (Float_Quo prec' (part, 0) (whole, 0)))"
    "Float_Int (Float_Mul prec (amount, 0) (Float_Quo prec' (part, 0) (whole, 0))) \<le> amount"
    using product_le [OF assms(4) r(2,3) assms(5)] by simp_all
qed

end
