(* ===== verification/Rewards.thy ===== *)
theory Rewards
  imports Staking_Theorems Float_Laws
begin

text \<open>
  The rewards of a block, \<open>accumulateRewards\<close> of \<open>chain/consensus/tendermint/engine.go\<close>: the reward of the
  block and the fees go to the proposer and its delegators, in proportion to what they have locked. The
  share of the proposer is computed with \<open>big.Float\<close> (\<open>Go_Float\<close>). The theorem is that nothing is lost and
  nothing is created by the rounding.
\<close>

section \<open>Definitions\<close>

definition sideChainRewardAddress :: address where
  "sideChainRewardAddress = BytesToAddress (map of_char ''LigooND9QsiAFbMan5tqVg899qAv2EsQ'')"

text \<open>The precision that \<open>SetInt\<close> gives to a new \<open>big.Float\<close>.\<close>

definition floatPrec :: "int \<Rightarrow> nat" where
  "floatPrec n = max (bitLen \<bar>n\<bar>) 64"

text \<open>
  The reward of the proposer from its own deposit. A quotient by zero is infinite; its product with zero
  panics, and \<open>Int\<close> of an infinite value leaves the result as it was.
\<close>

definition selfShare :: "int \<Rightarrow> int \<Rightarrow> int \<Rightarrow> int go" where
  "selfShare selfDeposit totalDeposit coinbaseReward =
     (if totalDeposit = 0
      then (if selfDeposit = 0 \<or> coinbaseReward = 0 then Panic ''ErrNaN'' else Ret 0)
      else
        (let prec = max (floatPrec selfDeposit) (floatPrec totalDeposit);
             selfPercent = Float_Quo prec (selfDeposit, 0) (totalDeposit, 0)
         in Ret (Float_Int (Float_Mul (max (floatPrec coinbaseReward) prec) (coinbaseReward, 0) selfPercent))))"

text \<open>What the block pays out, taken from the account of the rewards on a side chain.\<close>

definition coinbaseRewardOf :: "string \<Rightarrow> epoch option \<Rightarrow> int \<Rightarrow> stateDB \<Rightarrow> (int \<times> stateDB) go" where
  "coinbaseRewardOf chainId ep totalGasFee s =
     (if isMainChainId chainId then
        (case ep of
           None \<Rightarrow> Panic ''nil pointer dereference''
         | Some e \<Rightarrow>
             Ret (if 0 < ef_RewardPerBlock (ep_fields e) then ef_RewardPerBlock (ep_fields e) + totalGasFee else totalGasFee, s))
      else
        (case StateDB_GetSideChainRewardPerBlock s of (s, rewardPerBlock) \<Rightarrow>
           if 0 < rewardPerBlock then
             (let rewardPerBlock = min rewardPerBlock (StateDB_GetBalance s sideChainRewardAddress)
              in Ret (rewardPerBlock + totalGasFee, StateDB_SubBalance sideChainRewardAddress rewardPerBlock s))
           else Ret (totalGasFee, s)))"

text \<open>The shares of the proposer and of its delegators; there is none for delegators if nothing is locked.\<close>

definition splitReward :: "address \<Rightarrow> int \<Rightarrow> stateDB \<Rightarrow> (int \<times> int option) go" where
  "splitReward coinbase coinbaseReward s =
     (let selfDeposit = StateDB_GetDepositBalance s coinbase;
          totalProxiedDeposit = StateDB_GetTotalDepositProxiedBalance s coinbase
      in if totalProxiedDeposit = 0 then Ret (coinbaseReward, None)
         else
           bindGo (selfShare selfDeposit (selfDeposit + totalProxiedDeposit) coinbaseReward) (\<lambda>selfReward.
             let delegateReward = coinbaseReward - selfReward;
                 commission = StateDB_GetCommission s coinbase
             in if 0 < commission then
                  (let commissionReward = (delegateReward * uint commission) sdiv 100
                   in Ret (selfReward + commissionReward, Some (delegateReward - commissionReward)))
                else Ret (selfReward, Some delegateReward)))"

definition payDelegators :: "address \<Rightarrow> int \<Rightarrow> int \<Rightarrow> stateDB \<Rightarrow> stateDB go" where
  "payDelegators coinbase delegateReward totalProxiedDeposit s =
     bindGo (forEachProxied coinbase
       (\<lambda>key proxiedBalance depositProxiedBalance pendingRefundBalance (s, totalIndividualReward).
          if 0 < depositProxiedBalance then
            (let individualReward = (depositProxiedBalance * delegateReward) sdiv totalProxiedDeposit
             in (StateDB_AddRewardBalanceByDelegateAddress key coinbase individualReward s,
                 totalIndividualReward + individualReward))
          else (s, totalIndividualReward)) (s, 0)) (\<lambda>(s, totalIndividualReward).
       if totalIndividualReward < delegateReward
       then Ret (StateDB_AddRewardBalanceByDelegateAddress coinbase coinbase (delegateReward - totalIndividualReward) s)
       else if delegateReward < totalIndividualReward
       then StateDB_SubRewardBalanceByDelegateAddress coinbase coinbase (totalIndividualReward - delegateReward) s
       else Ret s)"

definition accumulateRewards :: "string \<Rightarrow> address \<Rightarrow> epoch option \<Rightarrow> int \<Rightarrow> stateDB \<Rightarrow> stateDB go" where
  "accumulateRewards chainId coinbase ep totalGasFee s =
     bindGo (coinbaseRewardOf chainId ep totalGasFee s) (\<lambda>(coinbaseReward, s).
     bindGo (splitReward coinbase coinbaseReward s) (\<lambda>(selfReward, delegateReward).
       let totalProxiedDeposit = StateDB_GetTotalDepositProxiedBalance s coinbase;
           s = StateDB_AddRewardBalanceByDelegateAddress coinbase coinbase selfReward s
       in case delegateReward of
            None \<Rightarrow> Ret s
          | Some r \<Rightarrow> if 0 < r then payDelegators coinbase r totalProxiedDeposit s else Ret s))"

section \<open>Sums of changes\<close>

text \<open>Two functions differ at finitely many points, by \<open>x\<close> in sum.\<close>

definition changes :: "('a \<Rightarrow> int) \<Rightarrow> ('a \<Rightarrow> int) \<Rightarrow> int \<Rightarrow> bool" where
  "changes f g x \<longleftrightarrow> (\<exists>A. finite A \<and> (\<forall>a. a \<notin> A \<longrightarrow> g a = f a) \<and> (\<Sum>a\<in>A. g a - f a) = x)"

lemma changes_refl: "changes f f 0"
  by (auto simp: changes_def intro!: exI [of _ "{}"])

lemma changes_over:
  assumes "finite A" "\<forall>a. a \<notin> A \<longrightarrow> g a = f a" "(\<Sum>a\<in>A. g a - f a) = x" "finite B" "A \<subseteq> B"
  shows "(\<Sum>a\<in>B. g a - f a) = (x :: int)"
proof -
  have "(\<Sum>a\<in>A. g a - f a) = (\<Sum>a\<in>B. g a - f a)"
    by (rule sum.mono_neutral_left [OF assms(4,5)]) (use assms(2) in auto)
  then show ?thesis using assms(3) by simp
qed

lemma changes_trans:
  assumes "changes f g x" "changes g h y"
  shows "changes f h (x + y)"
proof -
  obtain A B where A: "finite A" "\<forall>a. a \<notin> A \<longrightarrow> g a = f a" "(\<Sum>a\<in>A. g a - f a) = x"
    and B: "finite B" "\<forall>a. a \<notin> B \<longrightarrow> h a = g a" "(\<Sum>a\<in>B. h a - g a) = y"
    using assms by (auto simp: changes_def)
  have "(\<Sum>a\<in>A \<union> B. h a - f a) = (\<Sum>a\<in>A \<union> B. g a - f a) + (\<Sum>a\<in>A \<union> B. h a - g a)"
    by (simp add: sum.distrib [symmetric])
  also have "\<dots> = x + y" using changes_over [OF A, of "A \<union> B"] changes_over [OF B, of "A \<union> B"] A B by simp
  finally show ?thesis using A B by (auto simp: changes_def intro!: exI [of _ "A \<union> B"])
qed

lemma changes_upd: "(\<And>b. b \<noteq> a \<Longrightarrow> g b = f b) \<Longrightarrow> g a = f a + x \<Longrightarrow> changes f g x"
  by (auto simp: changes_def intro!: exI [of _ "{a}"])

section \<open>Payments\<close>

definition paid :: "(bytes \<Rightarrow> bytes) \<Rightarrow> address \<Rightarrow> stateDB \<Rightarrow> stateDB \<Rightarrow> int \<Rightarrow> bool" where
  "paid keccak c s s' x \<longleftrightarrow> sdb_reachable keccak s' \<and>
     changes (StateDB_GetTotalRewardBalance s) (StateDB_GetTotalRewardBalance s') x \<and>
     changes (\<lambda>a. rew_at s a c) (\<lambda>a. rew_at s' a c) x \<and>
     (\<forall>a d. d \<noteq> c \<longrightarrow> rew_at s' a d = rew_at s a d) \<and>
     StateDB_GetBalance s' = StateDB_GetBalance s \<and> StateDB_GetDepositBalance s' = StateDB_GetDepositBalance s \<and>
     StateDB_GetDelegateBalance s' = StateDB_GetDelegateBalance s"

lemma paid_refl: "sdb_reachable keccak s \<Longrightarrow> paid keccak c s s 0"
  by (simp add: paid_def changes_refl)

lemma paid_trans:
  assumes "paid keccak c s s1 x" "paid keccak c s1 s2 y"
  shows "paid keccak c s s2 (x + y)"
  using assms changes_trans [of "StateDB_GetTotalRewardBalance s" "StateDB_GetTotalRewardBalance s1" x
      "StateDB_GetTotalRewardBalance s2" y]
    changes_trans [of "\<lambda>a. rew_at s a c" "\<lambda>a. rew_at s1 a c" x "\<lambda>a. rew_at s2 a c" y]
  by (simp add: paid_def)

lemma paid_by:
  assumes "sdb_reachable keccak s'" "data_at s' = (data_at s)(k := acc_RewardBalance_update (\<lambda>b. b + x) (data_at s k))"
    "rew_at s' = (rew_at s)(k := (rew_at s k)(c := rew_at s k c + x))"
  shows "paid keccak c s s' x"
  unfolding paid_def
proof (intro conjI)
  show "changes (StateDB_GetTotalRewardBalance s) (StateDB_GetTotalRewardBalance s') x"
    by (rule changes_upd [of k]) (simp_all add: effects assms(2))
  show "changes (\<lambda>a. rew_at s a c) (\<lambda>a. rew_at s' a c) x"
    by (rule changes_upd [of k]) (simp_all add: assms(3))
qed (simp_all add: assms fun_eq_iff effects)

lemma paid_add:
  assumes "sdb_reachable keccak s"
  shows "paid keccak c s (StateDB_AddRewardBalanceByDelegateAddress k c x s) x"
  using addReward_at [OF reachable_ok [OF assms]] calls_reachable(15) [OF assms] by (intro paid_by) simp_all

lemma paid_sub:
  assumes "sdb_reachable keccak s" "StateDB_SubRewardBalanceByDelegateAddress k c x s = Ret s'"
  shows "paid keccak c s s' (- x)"
  using subReward_at [OF reachable_ok [OF assms(1)] assms(2)] calls_reachable(16) [OF assms] by (intro paid_by [of _ _ _ k]) simp_all

lemma payDelegators_paid:
  assumes "sdb_reachable keccak s" "payDelegators c r tot s = Ret s'"
  shows "paid keccak c s s' r"
proof -
  let ?cb = "\<lambda>key proxiedBalance depositProxiedBalance pendingRefundBalance (s, t).
    if 0 < depositProxiedBalance then
      (StateDB_AddRewardBalanceByDelegateAddress key c ((depositProxiedBalance * r) sdiv tot) s,
       t + (depositProxiedBalance * r) sdiv tot)
    else (s, t)"
  obtain s1 t where loop: "forEachProxied c ?cb (s, 0) = Ret (s1, t)"
    and last: "(if t < r then Ret (StateDB_AddRewardBalanceByDelegateAddress c c (r - t) s1)
       else if r < t then StateDB_SubRewardBalanceByDelegateAddress c c (t - r) s1 else Ret s1) = Ret s'"
    using assms(2) unfolding payDelegators_def Let_def bindGo_pair by blast
  have "paid keccak c s (fst (s1, t)) (snd (s1, t))"
  proof (rule forEachProxied_invariant [where P = "\<lambda>p. paid keccak c s (fst p) (snd p)", OF loop])
    show "paid keccak c s (fst (s, 0)) (snd (s, 0))" using paid_refl [OF assms(1)] by simp
  next
    fix k x y z and q :: "stateDB \<times> int"
    assume q: "paid keccak c s (fst q) (snd q)"
    then have "sdb_reachable keccak (fst q)" by (simp add: paid_def)
    then show "paid keccak c s (fst (?cb k x y z q)) (snd (?cb k x y z q))"
      using paid_trans [OF q paid_add] q by (simp add: split_beta)
  qed
  then have s1: "paid keccak c s s1 t" by simp
  then have r1: "sdb_reachable keccak s1" by (simp add: paid_def)
  consider "t < r" | "r < t" | "t = r" by linarith
  then show ?thesis
  proof cases
    case 1
    then show ?thesis using last paid_trans [OF s1 paid_add [OF r1, of c c "r - t"]] by simp
  next
    case 2
    then have "StateDB_SubRewardBalanceByDelegateAddress c c (t - r) s1 = Ret s'" using last by simp
    from paid_trans [OF s1 paid_sub [OF r1 this]] show ?thesis by simp
  next
    case 3
    then show ?thesis using last s1 by simp
  qed
qed

section \<open>Distribution\<close>

lemma selfShare_bounds:
  assumes "selfShare d tot r = Ret x" "0 \<le> d" "d \<le> tot" "0 \<le> r"
  shows "0 \<le> x" "x \<le> r"
proof -
  have "0 \<le> x \<and> x \<le> r"
  proof (cases "tot = 0")
    case False
    let ?p' = "max (floatPrec d) (floatPrec tot)"
    have "bitLen r \<le> floatPrec r" "0 < ?p'" using assms(4) by (simp_all add: floatPrec_def)
    then have "bitLen r \<le> max (floatPrec r) ?p'" "0 < ?p'" by simp_all
    from share_le [OF assms(2,3) _ assms(4) this] show ?thesis
      using assms False by (simp add: selfShare_def Let_def)
  qed (use assms in \<open>auto simp: selfShare_def split: if_splits\<close>)
  then show "0 \<le> x" "x \<le> r" by blast+
qed

lemma sdiv_100: "0 \<le> x \<Longrightarrow> x sdiv 100 = x div (100 :: int)"
  by (cases "x = 0") (simp_all add: signed_divide_int_def)

lemma commission_part:
  assumes "0 \<le> d" "(m :: u8) \<le> 100"
  shows "0 \<le> (d * uint m) sdiv 100" "(d * uint m) sdiv 100 \<le> d"
proof -
  have m: "0 \<le> uint m" "uint m \<le> 100" using assms(2) by (simp_all add: word_le_def)
  have "(d * uint m) sdiv 100 = (d * uint m) div 100"
    by (rule sdiv_100 [OF mult_nonneg_nonneg [OF assms(1) m(1)]])
  moreover have "(d * uint m) div 100 \<le> (d * 100) div 100" using assms(1) m by (intro zdiv_mono1 mult_left_mono) auto
  ultimately show "0 \<le> (d * uint m) sdiv 100" "(d * uint m) sdiv 100 \<le> d"
    using assms(1) m by (simp_all add: pos_imp_zdiv_nonneg_iff)
qed

lemma splitReward_sum:
  assumes "splitReward c r s = Ret (x, y)" "0 \<le> r" "0 \<le> StateDB_GetDepositBalance s c"
    "0 \<le> StateDB_GetTotalDepositProxiedBalance s c" "StateDB_GetCommission s c \<le> 100"
  shows "x + (case y of None \<Rightarrow> 0 | Some d \<Rightarrow> d) = r" "\<forall>d. y = Some d \<longrightarrow> 0 \<le> d"
proof -
  have "x + (case y of None \<Rightarrow> 0 | Some d \<Rightarrow> d) = r \<and> (\<forall>d. y = Some d \<longrightarrow> 0 \<le> d)"
  proof (cases "StateDB_GetTotalDepositProxiedBalance s c = 0")
    case False
    then obtain z where z: "selfShare (StateDB_GetDepositBalance s c)
        (StateDB_GetDepositBalance s c + StateDB_GetTotalDepositProxiedBalance s c) r = Ret z"
      using assms(1) by (auto simp: splitReward_def Let_def bindGo_Ret_iff)
    have "z \<le> r" using selfShare_bounds [OF z assms(3) _ assms(2)] assms(4) by simp
    then show ?thesis
      using assms(1) False commission_part [of "r - z", OF _ assms(5)]
      by (auto simp: splitReward_def Let_def z split: if_splits)
  qed (use assms in \<open>simp add: splitReward_def\<close>)
  then show "x + (case y of None \<Rightarrow> 0 | Some d \<Rightarrow> d) = r" "\<forall>d. y = Some d \<longrightarrow> 0 \<le> d" by blast+
qed

lemma coinbaseReward_cases:
  assumes "coinbaseRewardOf chainId ep fee s = Ret (r, s1)" "sdb_reachable keccak s" "0 \<le> fee"
    "0 \<le> StateDB_GetBalance s sideChainRewardAddress"
  defines "minted \<equiv> (case ep of None \<Rightarrow> 0 | Some e \<Rightarrow> max 0 (ef_RewardPerBlock (ep_fields e)))"
    and "taken \<equiv> max 0 (min (snd (StateDB_GetSideChainRewardPerBlock s)) (StateDB_GetBalance s sideChainRewardAddress))"
  shows "r = fee + (if isMainChainId chainId then minted else taken)" "sdb_reachable keccak s1"
    "rew_at s1 = rew_at s" "data_at s1 = (if isMainChainId chainId then data_at s else
       (data_at s)(sideChainRewardAddress := acc_Balance_update (\<lambda>b. b - taken) (data_at s sideChainRewardAddress)))"
proof -
  have ok: "sdb_ok s" by (rule reachable_ok [OF assms(2)])
  obtain t w where t: "StateDB_GetSideChainRewardPerBlock s = (t, w)" by (cases "StateDB_GetSideChainRewardPerBlock s")
  have td: "data_at t = data_at s" "rew_at t = rew_at s" using sets_at(11) [of s] sideReward_rew_at [of s] t by simp_all
  have tr: "sdb_reachable keccak t"
    using sdb_reachable.Step [OF assms(2) sdb_step.GetSideChainRewardPerBlock] t by simp
  have bt: "StateDB_GetBalance t = StateDB_GetBalance s" using td by (simp add: effects fun_eq_iff)
  have "r = fee + (if isMainChainId chainId then minted else taken) \<and> sdb_reachable keccak s1 \<and> rew_at s1 = rew_at s \<and>
    data_at s1 = (if isMainChainId chainId then data_at s else
       (data_at s)(sideChainRewardAddress := acc_Balance_update (\<lambda>b. b - taken) (data_at s sideChainRewardAddress)))"
  proof (cases "isMainChainId chainId")
    case True
    then show ?thesis using assms(1,2)
      by (auto simp: coinbaseRewardOf_def minted_def split: option.splits if_splits)
  next
    case False
    note run = assms(1) [unfolded coinbaseRewardOf_def if_not_P [OF False] t prod.case Let_def]
    show ?thesis
    proof (cases "0 < w")
      case True
      with run have "r = min w (StateDB_GetBalance s sideChainRewardAddress) + fee"
        "s1 = StateDB_SubBalance sideChainRewardAddress (min w (StateDB_GetBalance s sideChainRewardAddress)) t"
        by (simp_all add: bt)
      moreover have "taken = min w (StateDB_GetBalance s sideChainRewardAddress)"
        using True assms(4) by (simp add: taken_def t)
      ultimately show ?thesis using False td calls_reachable(1) [OF tr] reachable_ok [OF tr] by (simp add: effects)
    next
      case z: False
      then have "taken = 0" by (simp add: taken_def t)
      moreover have "(data_at s)(a := acc_Balance_update (\<lambda>b. b) (data_at s a)) = data_at s" for a
        by (cases "data_at s a") (simp add: fun_eq_iff)
      ultimately show ?thesis using run z False td tr by simp
    qed
  qed
  then show "r = fee + (if isMainChainId chainId then minted else taken)" "sdb_reachable keccak s1" "rew_at s1 = rew_at s"
    "data_at s1 = (if isMainChainId chainId then data_at s else
       (data_at s)(sideChainRewardAddress := acc_Balance_update (\<lambda>b. b - taken) (data_at s sideChainRewardAddress)))"
    by blast+
qed

lemma accumulate_paid:
  assumes "sdb_reachable keccak s" "splitReward c r s = Ret (x, y)" "0 \<le> r" "0 \<le> StateDB_GetDepositBalance s c"
    "0 \<le> StateDB_GetTotalDepositProxiedBalance s c" "StateDB_GetCommission s c \<le> 100"
    "(case y of None \<Rightarrow> Ret (StateDB_AddRewardBalanceByDelegateAddress c c x s)
      | Some d \<Rightarrow> if 0 < d then payDelegators c d tot (StateDB_AddRewardBalanceByDelegateAddress c c x s)
          else Ret (StateDB_AddRewardBalanceByDelegateAddress c c x s)) = Ret s'"
  shows "paid keccak c s s' r"
proof -
  let ?s = "StateDB_AddRewardBalanceByDelegateAddress c c x s"
  note sum = splitReward_sum [OF assms(2-6)]
  have own: "paid keccak c s ?s x" by (rule paid_add [OF assms(1)])
  consider "s' = ?s" "x = r" | d where "y = Some d" "payDelegators c d tot ?s = Ret s'"
  proof (cases y)
    case None
    then show ?thesis using assms(7) sum(1) by (intro that(1)) simp_all
  next
    case (Some d)
    show ?thesis
    proof (cases "0 < d")
      case True
      then show ?thesis using assms(7) Some by (intro that(2)) simp_all
    next
      case False
      then have "d = 0" using sum(2) Some by simp
      then show ?thesis using assms(7) sum(1) Some by (intro that(1)) simp_all
    qed
  qed
  then show ?thesis
  proof cases
    case 2
    have "paid keccak c ?s s' d" using own by (intro payDelegators_paid [OF _ 2(2)]) (simp add: paid_def)
    from paid_trans [OF own this] show ?thesis using sum(1) 2(1) by simp
  qed (use own in simp)
qed


lemma demo_rewards:
  "case StateDB_Finalise True demo_staked of Panic e \<Rightarrow> False
   | Ret s \<Rightarrow> StateDB_GetDepositBalance s demo_val = 10 \<and> StateDB_GetTotalDepositProxiedBalance s demo_val = 90
       \<and> StateDB_GetCommission s demo_val = 5 \<and> StateDB_GetBalance s sideChainRewardAddress = 0
       \<and> (case accumulateRewards ''ligochain'' demo_val (Some demo_epoch) 1006 s of Panic e \<Rightarrow> False
          | Ret s' \<Rightarrow> StateDB_GetRewardBalanceByDelegateAddress s' demo_val demo_val = 145
              \<and> StateDB_GetRewardBalanceByDelegateAddress s' demo_user demo_val = 862)"
  by code_simp


end
