(* ===== verification/Side_Chains.thy ===== *)
theory Side_Chains
  imports Rewards
begin

text \<open>
  The registry of side chains that the main chain keeps: \<open>chain/core/chains_info.go\<close>, with the functions of
  \<open>CrossChainHelper\<close> (\<open>chain/ligochain/cross_chain.go\<close>) that create, join and launch a side chain and that
  verify what a side chain sends to the main chain. The store is a map from keys to encoded values as for
  epochs; wire-go, rlp and the proofs of the trie are parameters.
\<close>

section \<open>Data\<close>

record joinedValidator =
  jv_PubKey :: bytes
  jv_Address :: address
  jv_DepositAmount :: int

record coreChainInfo =
  cci_Owner :: address
  cci_ChainId :: string
  cci_MinValidators :: "16 word"
  cci_MinDepositAmount :: int
  cci_StartBlock :: int
  cci_EndBlock :: int
  cci_JoinedValidators :: "joinedValidator list"
  cci_EpochNumber :: u64
  cci_DepositInMainChain :: "int option"
  cci_DepositInSideChain :: "int option"
  cci_WithdrawFromSideChain :: "int option"
  cci_WithdrawFromMainChain :: "int option"

record chainInfo =
  ci_core :: coreChainInfo
  ci_Epoch :: "epoch option"

record pendingIdxData =
  pi_ChainID :: string
  pi_Start :: int
  pi_End :: int

text \<open>
  The encodings of wire-go. \<open>ReadBinaryPtr\<close> reports an error (\<open>None\<close>); the error of \<open>ReadBinaryBytes\<close> is
  ignored and what it leaves in the variable is used.
\<close>

record 'v chainWire =
  cw_wire :: "'v wire"
  CoreBytes :: "coreChainInfo \<Rightarrow> 'v"
  ReadCorePtr :: "'v \<Rightarrow> coreChainInfo option"
  ReadCore :: "'v \<Rightarrow> coreChainInfo"
  IdxBytes :: "pendingIdxData list \<Rightarrow> 'v"
  ReadIdx :: "'v \<Rightarrow> pendingIdxData list"

definition OFFICIAL_MINIMUM_VALIDATORS :: "16 word" where "OFFICIAL_MINIMUM_VALIDATORS = 1"

definition OFFICIAL_MINIMUM_DEPOSIT :: int where "OFFICIAL_MINIMUM_DEPOSIT = 77000000000000000000000"

definition specialSep :: char where "specialSep = CHR '';''"

definition allChainKey :: string where "allChainKey = ''AllChainID''"

definition pendingChainIndexKey :: string where "pendingChainIndexKey = ''PENDING_CHAIN_IDX''"

definition calcCoreChainInfoKey :: "string \<Rightarrow> string" where
  "calcCoreChainInfoKey chainId = ''CHAIN:'' @ chainId"

definition calcEpochKey :: "u64 \<Rightarrow> string \<Rightarrow> string" where
  "calcEpochKey number chainId = ''CHAIN'' @ ''-'' @ FormatUint (unat number) @ ''-'' @ chainId"

definition calcETHGenesisKey :: "string \<Rightarrow> string" where
  "calcETHGenesisKey chainId = ''ETH_GENESIS:'' @ chainId"

definition calcNTCGenesisKey :: "string \<Rightarrow> string" where
  "calcNTCGenesisKey chainId = ''NTC_GENESIS:'' @ chainId"

definition calcPendingChainInfoKey :: "string \<Rightarrow> string" where
  "calcPendingChainInfoKey chainId = ''PENDING_CHAIN:'' @ chainId"

text \<open>\<open>strings.Split\<close> and \<open>strings.Join\<close> with a separator of one character.\<close>

fun Split :: "char \<Rightarrow> string \<Rightarrow> string list" where
  "Split sep [] = [[]]"
| "Split sep (c # s) = (if c = sep then [] # Split sep s
     else (case Split sep s of [] \<Rightarrow> [[c]] | t # ts \<Rightarrow> (c # t) # ts))"

fun Join :: "char \<Rightarrow> string list \<Rightarrow> string" where
  "Join sep [] = []"
| "Join sep [s] = s"
| "Join sep (s # t # ts) = s @ sep # Join sep (t # ts)"

section \<open>Registered chains\<close>

text \<open>Corrupted data ends the process.\<close>

definition loadCoreChainInfo :: "'v chainWire \<Rightarrow> 'v edb \<Rightarrow> string \<Rightarrow> coreChainInfo option go" where
  "loadCoreChainInfo w db chainId = (case db (calcCoreChainInfoKey chainId) of
     None \<Rightarrow> Ret None
   | Some buf \<Rightarrow> if isEmptyBytes (cw_wire w) buf then Ret None
       else (case ReadCorePtr w buf of None \<Rightarrow> Panic ''os.Exit(1)'' | Some cci \<Rightarrow> Ret (Some cci)))"

definition saveCoreChainInfo :: "'v chainWire \<Rightarrow> coreChainInfo \<Rightarrow> 'v edb \<Rightarrow> 'v edb" where
  "saveCoreChainInfo w cci db = db(calcCoreChainInfoKey (cci_ChainId cci) \<mapsto> CoreBytes w cci)"

definition TotalDeposit :: "coreChainInfo \<Rightarrow> int" where
  "TotalDeposit cci = fold (\<lambda>v sum. sum + jv_DepositAmount v) (cci_JoinedValidators cci) 0"

definition loadEpoch :: "'v chainWire \<Rightarrow> 'v edb \<Rightarrow> u64 \<Rightarrow> string \<Rightarrow> epoch option" where
  "loadEpoch w db number chainId = FromBytes (cw_wire w) (db (calcEpochKey number chainId))"

definition saveEpoch :: "'v chainWire \<Rightarrow> epoch \<Rightarrow> string \<Rightarrow> 'v edb \<Rightarrow> 'v edb" where
  "saveEpoch w epoch chainId db = db(calcEpochKey (ep_Number epoch) chainId \<mapsto> EpochBytes (cw_wire w) (ep_fields epoch))"

definition GetChainInfo :: "'v chainWire \<Rightarrow> 'v edb \<Rightarrow> string \<Rightarrow> chainInfo option go" where
  "GetChainInfo w db chainId = bindGo (loadCoreChainInfo w db chainId) (\<lambda>r. case r of
     None \<Rightarrow> Ret None
   | Some cci \<Rightarrow> Ret (Some \<lparr>ci_core = cci, ci_Epoch = loadEpoch w db (cci_EpochNumber cci) chainId\<rparr>))"

definition saveId :: "'v chainWire \<Rightarrow> string \<Rightarrow> 'v edb \<Rightarrow> 'v edb" where
  "saveId w chainId db =
     (let buf = db allChainKey in
      if (case buf of None \<Rightarrow> True | Some b \<Rightarrow> isEmptyBytes (cw_wire w) b)
      then db(allChainKey \<mapsto> StringBytes (cw_wire w) chainId)
      else
        (let strIdArr = Split specialSep (BytesString (cw_wire w) (the buf)) in
         if list_ex (\<lambda>id. id = chainId) strIdArr then db
         else db(allChainKey \<mapsto> StringBytes (cw_wire w) (Join specialSep (strIdArr @ [chainId])))))"

definition SaveChainInfo :: "'v chainWire \<Rightarrow> chainInfo \<Rightarrow> 'v edb \<Rightarrow> 'v edb" where
  "SaveChainInfo w ci db =
     (let db = saveCoreChainInfo w (ci_core ci) db;
          db = (case ci_Epoch ci of None \<Rightarrow> db | Some e \<Rightarrow> saveEpoch w e (cci_ChainId (ci_core ci)) db)
      in saveId w (cci_ChainId (ci_core ci)) db)"

definition SaveFutureEpoch :: "'v chainWire \<Rightarrow> epoch option \<Rightarrow> string \<Rightarrow> 'v edb \<Rightarrow> 'v edb" where
  "SaveFutureEpoch w futureEpoch chainId db =
     (case futureEpoch of None \<Rightarrow> db | Some e \<Rightarrow> saveEpoch w e chainId db)"

text \<open>The search backwards from the epoch before number \<open>n\<close>.\<close>

fun earlierEpoch :: "'v chainWire \<Rightarrow> 'v edb \<Rightarrow> string \<Rightarrow> u64 \<Rightarrow> nat \<Rightarrow> epoch option" where
  "earlierEpoch w db chainId blockNumber 0 = None"
| "earlierEpoch w db chainId blockNumber (Suc n) = (case loadEpoch w db (of_nat n) chainId of
     None \<Rightarrow> None
   | Some ep \<Rightarrow> if ep_StartBlock ep \<le> blockNumber \<and> blockNumber \<le> ep_EndBlock ep then Some ep
       else earlierEpoch w db chainId blockNumber n)"

definition ChainInfo_GetEpochByBlockNumber :: "'v chainWire \<Rightarrow> 'v edb \<Rightarrow> u64 \<Rightarrow> chainInfo \<Rightarrow> epoch option" where
  "ChainInfo_GetEpochByBlockNumber w db blockNumber ci = (case ci_Epoch ci of
     None \<Rightarrow> None
   | Some epoch \<Rightarrow>
       if ep_StartBlock epoch \<le> blockNumber \<and> blockNumber \<le> ep_EndBlock epoch then Some epoch
       else if ep_EndBlock epoch < blockNumber then loadEpoch w db (ep_Number epoch + 1) (cci_ChainId (ci_core ci))
       else earlierEpoch w db (cci_ChainId (ci_core ci)) blockNumber (unat (ep_Number epoch)))"

definition GetSideChainIds :: "'v chainWire \<Rightarrow> 'v edb \<Rightarrow> string list" where
  "GetSideChainIds w db = (case db allChainKey of
     None \<Rightarrow> []
   | Some buf \<Rightarrow> if isEmptyBytes (cw_wire w) buf then [] else Split specialSep (BytesString (cw_wire w) buf))"

definition CheckSideChainRunning :: "'v chainWire \<Rightarrow> 'v edb \<Rightarrow> string \<Rightarrow> bool" where
  "CheckSideChainRunning w db chainId = list_ex (\<lambda>id. id = chainId) (GetSideChainIds w db)"

definition SaveChainGenesis :: "string \<Rightarrow> 'v \<Rightarrow> 'v \<Rightarrow> 'v edb \<Rightarrow> 'v edb" where
  "SaveChainGenesis chainId ethGenesis ntcGenesis db =
     db(calcETHGenesisKey chainId \<mapsto> ethGenesis, calcNTCGenesisKey chainId \<mapsto> ntcGenesis)"

definition LoadChainGenesis :: "'v edb \<Rightarrow> string \<Rightarrow> 'v option \<times> 'v option" where
  "LoadChainGenesis db chainId = (db (calcETHGenesisKey chainId), db (calcNTCGenesisKey chainId))"

section \<open>Pending chains\<close>

definition GetPendingSideChainData :: "'v chainWire \<Rightarrow> 'v edb \<Rightarrow> string \<Rightarrow> coreChainInfo option" where
  "GetPendingSideChainData w db chainId = map_option (ReadCore w) (db (calcPendingChainInfoKey chainId))"

definition pendingIdx :: "'v chainWire \<Rightarrow> 'v edb \<Rightarrow> pendingIdxData list" where
  "pendingIdx w db = (case db pendingChainIndexKey of None \<Rightarrow> [] | Some b \<Rightarrow> ReadIdx w b)"

definition storePendingSideChainData :: "'v chainWire \<Rightarrow> coreChainInfo \<Rightarrow> bool \<Rightarrow> 'v edb \<Rightarrow> 'v edb" where
  "storePendingSideChainData w cci create db =
     (let db = db(calcPendingChainInfoKey (cci_ChainId cci) \<mapsto> CoreBytes w cci) in
      if \<not> create then db
      else
        (let idx = pendingIdx w db in
         if list_ex (\<lambda>v. pi_ChainID v = cci_ChainId cci) idx then db
         else db(pendingChainIndexKey \<mapsto> IdxBytes w (idx @ [\<lparr>pi_ChainID = cci_ChainId cci,
                   pi_Start = cci_StartBlock cci, pi_End = cci_EndBlock cci\<rparr>]))))"

definition CreatePendingSideChainData :: "'v chainWire \<Rightarrow> coreChainInfo \<Rightarrow> 'v edb \<Rightarrow> 'v edb" where
  "CreatePendingSideChainData w cci db = storePendingSideChainData w cci True db"

definition UpdatePendingSideChainData :: "'v chainWire \<Rightarrow> coreChainInfo \<Rightarrow> 'v edb \<Rightarrow> 'v edb" where
  "UpdatePendingSideChainData w cci db = storePendingSideChainData w cci False db"

definition DeletePendingSideChainData :: "string \<Rightarrow> 'v edb \<Rightarrow> 'v edb" where
  "DeletePendingSideChainData chainId db = db(calcPendingChainInfoKey chainId := None)"

section \<open>Launch\<close>

record launch =
  la_ready :: "string list"
  la_pending :: "pendingIdxData list"
  la_removed :: "string list"
  la_state :: stateDB

text \<open>
  One entry of the index. A chain whose time is over is given up: the deposits of its validators and the
  cost of its owner are paid back. A chain with enough validators and deposits is launched.
\<close>

definition launchEntry :: "'v chainWire \<Rightarrow> 'v edb \<Rightarrow> int \<Rightarrow> pendingIdxData \<Rightarrow> launch \<Rightarrow> launch go" where
  "launchEntry w db height v la =
     (if height < pi_Start v then Ret (la\<lparr>la_pending := la_pending la @ [v]\<rparr>)
      else
        (case GetPendingSideChainData w db (pi_ChainID v) of
           None \<Rightarrow> Panic ''nil pointer dereference''
         | Some cci \<Rightarrow>
             if pi_End v < height then
               (let s = fold (\<lambda>jv s. StateDB_AddBalance (jv_Address jv) (jv_DepositAmount jv)
                              (StateDB_SubSideChainDepositBalance (jv_Address jv) (pi_ChainID v) (jv_DepositAmount jv) s))
                          (cci_JoinedValidators cci) (la_state la);
                    s = StateDB_AddBalance (cci_Owner cci) OFFICIAL_MINIMUM_DEPOSIT s;
                    s = StateDB_SubChainBalance (cci_Owner cci) OFFICIAL_MINIMUM_DEPOSIT s
                in Ret (la\<lparr>la_removed := la_removed la @ [pi_ChainID v], la_state := s\<rparr>))
             else if unat (cci_MinValidators cci) \<le> length (cci_JoinedValidators cci)
                     \<and> cci_MinDepositAmount cci \<le> TotalDeposit cci
             then
               (let s = fold (\<lambda>jv s. StateDB_AddChainBalance (cci_Owner cci) (jv_DepositAmount jv)
                              (StateDB_SubSideChainDepositBalance (jv_Address jv) (pi_ChainID v) (jv_DepositAmount jv) s))
                          (cci_JoinedValidators cci) (la_state la)
                in Ret (la\<lparr>la_ready := la_ready la @ [pi_ChainID v], la_state := s\<rparr>))
             else Ret (la\<lparr>la_pending := la_pending la @ [v]\<rparr>)))"

definition GetSideChainForLaunch :: "'v chainWire \<Rightarrow> 'v edb \<Rightarrow> int \<Rightarrow> stateDB
    \<Rightarrow> (string list \<times> 'v option \<times> string list \<times> stateDB) go" where
  "GetSideChainForLaunch w db height s =
     (let idx = pendingIdx w db in
      bindGo (foldGo (launchEntry w db height) idx \<lparr>la_ready = [], la_pending = [], la_removed = [], la_state = s\<rparr>)
        (\<lambda>la. Ret (la_ready la, if length (la_pending la) \<noteq> length idx then Some (IdxBytes w (la_pending la)) else None,
               la_removed la, la_state la)))"

definition ProcessPostPendingData :: "'v option \<Rightarrow> string list \<Rightarrow> 'v edb \<Rightarrow> 'v edb" where
  "ProcessPostPendingData newPendingIdxBytes deleteSideChainIds db =
     (let db = fold (\<lambda>id db. db(calcPendingChainInfoKey id := None)) deleteSideChainIds db in
      case newPendingIdxBytes of None \<Rightarrow> db | Some b \<Rightarrow> db(pendingChainIndexKey \<mapsto> b))"

section \<open>Creating and joining a chain\<close>

datatype sideErr = EmptyOrSeparator | BadName | NameTooLong | ReservedName | AlreadyExists | AlreadyApplied
  | TooFewValidators | MinDepositTooLow | WrongStartupCost | StartAfterEnd | EndPassed | AlreadyStarted
  | NotExist | AlreadyJoined | DepositNotPositive | InvalidConsensusPubKey | DecodeError | InvalidSideChainId
  | InvalidNonce | InvalidMixDigest | InvalidUncleHash | InvalidDifficulty | ChainInfoNotFound
  | EpochNotFound | InconsistentValidatorSet | InvalidCommittedSeals | CommitRejected commitErr
  | InvalidProof | InvalidSender | WrongTo | WrongFunction | InconsistentParams

text \<open>\<open>^[a-z]+[a-z0-9_]*$\<close>\<close>

definition lowerCase :: "char \<Rightarrow> bool" where
  "lowerCase c = (let v = of_char c :: nat in 97 \<le> v \<and> v \<le> 122)"

definition idPattern :: "string \<Rightarrow> bool" where
  "idPattern s = (case s of [] \<Rightarrow> False | c # t \<Rightarrow> lowerCase c
     \<and> list_all (\<lambda>d. lowerCase d \<or> digitVal d \<noteq> None \<or> d = CHR ''_'') t)"

definition CanCreateSideChain :: "'v chainWire \<Rightarrow> 'v edb \<Rightarrow> int \<Rightarrow> string \<Rightarrow> 16 word \<Rightarrow> int \<Rightarrow> int \<Rightarrow> int \<Rightarrow> int
    \<Rightarrow> sideErr option go" where
  "CanCreateSideChain w db currentBlock chainId minValidators minDepositAmount startupCost startBlock endBlock =
     (if chainId = [] \<or> specialSep \<in> set chainId then Ret (Some EmptyOrSeparator)
      else if \<not> idPattern chainId then Ret (Some BadName)
      else if 30 < length chainId then Ret (Some NameTooLong)
      else if isMainChainId chainId then Ret (Some ReservedName)
      else bindGo (GetChainInfo w db chainId) (\<lambda>ci.
        Ret (if ci \<noteq> None then Some AlreadyExists
             else if GetPendingSideChainData w db chainId \<noteq> None then Some AlreadyApplied
             else if minValidators < OFFICIAL_MINIMUM_VALIDATORS then Some TooFewValidators
             else if minDepositAmount < OFFICIAL_MINIMUM_DEPOSIT then Some MinDepositTooLow
             else if startupCost \<noteq> OFFICIAL_MINIMUM_DEPOSIT then Some WrongStartupCost
             else if endBlock \<le> startBlock then Some StartAfterEnd
             else if endBlock \<le> currentBlock then Some EndPassed
             else None)))"

definition CreateSideChain :: "'v chainWire \<Rightarrow> address \<Rightarrow> string \<Rightarrow> 16 word \<Rightarrow> int \<Rightarrow> int \<Rightarrow> int \<Rightarrow> 'v edb \<Rightarrow> 'v edb" where
  "CreateSideChain w from chainId minValidators minDepositAmount startBlock endBlock db =
     CreatePendingSideChainData w \<lparr>cci_Owner = from, cci_ChainId = chainId, cci_MinValidators = minValidators,
       cci_MinDepositAmount = minDepositAmount, cci_StartBlock = startBlock, cci_EndBlock = endBlock,
       cci_JoinedValidators = [], cci_EpochNumber = 0, cci_DepositInMainChain = None, cci_DepositInSideChain = None,
       cci_WithdrawFromSideChain = None, cci_WithdrawFromMainChain = None\<rparr> db"

definition ValidateJoinSideChain :: "'v chainWire \<Rightarrow> 'v edb \<Rightarrow> (address \<Rightarrow> bytes \<Rightarrow> bytes \<Rightarrow> bool) \<Rightarrow> address \<Rightarrow> bytes
    \<Rightarrow> string \<Rightarrow> int option \<Rightarrow> bytes \<Rightarrow> sideErr option go" where
  "ValidateJoinSideChain w db CheckConsensusPubKey from consensusPubkey chainId depositAmount signature =
     (if isMainChainId chainId then Ret (Some ReservedName)
      else if \<not> CheckConsensusPubKey from consensusPubkey signature then Ret (Some InvalidConsensusPubKey)
      else (case GetPendingSideChainData w db chainId of
          None \<Rightarrow> bindGo (GetChainInfo w db chainId) (\<lambda>ci. Ret (Some (if ci \<noteq> None then AlreadyStarted else NotExist)))
        | Some ci \<Rightarrow>
            Ret (if list_ex (\<lambda>joined. from = jv_Address joined) (cci_JoinedValidators ci) then Some AlreadyJoined
                 else if \<not> (case depositAmount of None \<Rightarrow> False | Some d \<Rightarrow> 0 < d) then Some DepositNotPositive
                 else None)))"

definition JoinSideChain :: "'v chainWire \<Rightarrow> address \<Rightarrow> bytes \<Rightarrow> string \<Rightarrow> int \<Rightarrow> 'v edb \<Rightarrow> sideErr option \<times> 'v edb" where
  "JoinSideChain w from pubkey chainId depositAmount db =
     (case GetPendingSideChainData w db chainId of
        None \<Rightarrow> (Some NotExist, db)
      | Some ci \<Rightarrow>
          if list_ex (\<lambda>joined. from = jv_Address joined) (cci_JoinedValidators ci) then (None, db)
          else (None, UpdatePendingSideChainData w (ci\<lparr>cci_JoinedValidators := cci_JoinedValidators ci
                  @ [\<lparr>jv_PubKey = pubkey, jv_Address = from, jv_DepositAmount = depositAmount\<rparr>]\<rparr>) db))"

section \<open>What a side chain sends to the main chain\<close>

record ('b, 'v) crossEnv =
  xe_ext :: "'b ext"
  xe_codec :: "('b, 'v) codec"
  xe_chainWire :: "'v chainWire"
  xe_DecodeProofData :: "bytes \<Rightarrow> 'v header option"
  xe_VerifyProof :: "hash \<Rightarrow> nat \<Rightarrow> 'v \<Rightarrow> bytes option"
  xe_DecodeTransaction :: "bytes \<Rightarrow> transaction option"
  xe_Sender :: "transaction \<Rightarrow> address option"
  xe_FunctionTypeFromId :: "bytes \<Rightarrow> functionType option"
  xe_UnpackWithdrawFromMainChain :: "bytes \<Rightarrow> (string \<times> int \<times> hash) option"
  xe_UnpackWithdrawFromSideChain :: "bytes \<Rightarrow> string option"

text \<open>The fields that every header of the engine has.\<close>

definition sideHeaderErr :: "('b, 'v) crossEnv \<Rightarrow> 'v header \<Rightarrow> sideErr option" where
  "sideHeaderErr env header =
     (if hd_Nonce header \<noteq> TendermintEmptyNonce \<and> hd_Nonce header \<noteq> TendermintNonce then Some InvalidNonce
      else if hd_MixDigest header \<noteq> TendermintDigest then Some InvalidMixDigest
      else if hd_UncleHash header \<noteq> nilUncleHash (xe_codec env) then Some InvalidUncleHash
      else if hd_Difficulty header \<noteq> Some TendermintDefaultDifficulty then Some InvalidDifficulty
      else None)"

text \<open>Whether the header carries the first epoch of its chain.\<close>

definition carriesEpoch0 :: "('b, 'v) crossEnv \<Rightarrow> ('b, 'v) tendermintExtra \<Rightarrow> bool" where
  "carriesEpoch0 env te = (case FromBytes (cw_wire (xe_chainWire env)) (te_EpochBytes te) of
     None \<Rightarrow> False | Some ep \<Rightarrow> ep_Number ep = 0)"

text \<open>The commit of the header, against the validators that the registry has for its height.\<close>

definition sideCommitErr :: "('b, 'v) crossEnv \<Rightarrow> 'v edb \<Rightarrow> ('b, 'v) tendermintExtra \<Rightarrow> sideErr option go" where
  "sideCommitErr env db te =
     bindGo (GetChainInfo (xe_chainWire env) db (te_ChainID te)) (\<lambda>ci. case ci of
       None \<Rightarrow> Ret (Some ChainInfoNotFound)
     | Some ci \<Rightarrow>
         (case ChainInfo_GetEpochByBlockNumber (xe_chainWire env) db (te_Height te) ci of
            None \<Rightarrow> Ret (Some EpochNotFound)
          | Some epoch \<Rightarrow>
              if ValidatorSet_Hash (xe_codec env) (ep_Validators epoch) \<noteq> te_ValidatorsHash te
              then Ret (Some InconsistentValidatorSet)
              else (case te_SeenCommit te of
                  None \<Rightarrow> Panic ''nil pointer dereference''
                | Some seenCommit \<Rightarrow>
                    if te_SeenCommitHash te \<noteq> SimpleHashFromBinary (xe_codec env) seenCommit
                    then Ret (Some InvalidCommittedSeals)
                    else bindGo (ValidatorSet_VerifyCommit (xe_ext env) (ep_Validators epoch) (te_ChainID te)
                           (te_Height te) (Some seenCommit)) (\<lambda>err. Ret (map_option CommitRejected err)))))"

definition VerifySideChainProofData :: "('b, 'v) crossEnv \<Rightarrow> 'v edb \<Rightarrow> bytes \<Rightarrow> sideErr option go" where
  "VerifySideChainProofData env db bs =
     (case xe_DecodeProofData env bs of
        None \<Rightarrow> Ret (Some DecodeError)
      | Some header \<Rightarrow>
          (case ExtractTendermintExtra (cw_wire (xe_chainWire env)) (xe_codec env) header of
             None \<Rightarrow> Ret (Some DecodeError)
           | Some te \<Rightarrow>
               if te_ChainID te = [] \<or> isMainChainId (te_ChainID te) then Ret (Some InvalidSideChainId)
               else (case sideHeaderErr env header of
                   Some e \<Rightarrow> Ret (Some e)
                 | None \<Rightarrow>
                     if carriesEpoch0 env te then Ret None
                     else if te_ChainID te = ''side_0'' then Ret None
                     else sideCommitErr env db te)))"

definition ValidateTX3ProofData :: "('b, 'v) crossEnv \<Rightarrow> 'v edb \<Rightarrow> 'v tx3ProofData \<Rightarrow> sideErr option go" where
  "ValidateTX3ProofData env db proofData =
     (let header = tpd_Header proofData in
      case ExtractTendermintExtra (cw_wire (xe_chainWire env)) (xe_codec env) header of
        None \<Rightarrow> Ret (Some DecodeError)
      | Some te \<Rightarrow>
          if te_ChainID te = [] \<or> isMainChainId (te_ChainID te) then Ret (Some InvalidSideChainId)
          else (case sideHeaderErr env header of
              Some e \<Rightarrow> Ret (Some e)
            | None \<Rightarrow>
                if carriesEpoch0 env te then Ret None
                else bindGo (sideCommitErr env db te) (\<lambda>err. case err of
                    Some e \<Rightarrow> Ret (Some e)
                  | None \<Rightarrow>
                      foldGo (\<lambda>i err. case err of Some e \<Rightarrow> Ret (Some e)
                        | None \<Rightarrow>
                            if length (tpd_TxProofs proofData) \<le> i then Panic ''index out of range''
                            else Ret (if xe_VerifyProof env (hd_TxHash header) (tpd_TxIndexs proofData ! i)
                                          (tpd_TxProofs proofData ! i) = None then Some InvalidProof else None))
                        [0..<length (tpd_TxIndexs proofData)] None)))"

definition ValidateTX4WithInMemTX3ProofData :: "('b, 'v) crossEnv \<Rightarrow> transaction \<Rightarrow> 'v tx3ProofData \<Rightarrow> sideErr option go" where
  "ValidateTX4WithInMemTX3ProofData env tx4 proofData =
     (case xe_Sender env tx4 of
        None \<Rightarrow> Ret (Some InvalidSender)
      | Some from \<Rightarrow>
          if tx_Recipient tx4 \<noteq> Some ChainContractMagicAddr then Ret (Some WrongTo)
          else if length (tx_Payload tx4) < 4 then Panic ''slice bounds out of range''
          else (case xe_FunctionTypeFromId env (take 4 (tx_Payload tx4)) of
              None \<Rightarrow> Ret (Some DecodeError)
            | Some fn \<Rightarrow>
                if fn \<noteq> WithdrawFromMainChain then Ret (Some WrongFunction)
                else (case xe_UnpackWithdrawFromMainChain env (drop 4 (tx_Payload tx4)) of
                    None \<Rightarrow> Ret (Some DecodeError)
                  | Some (chainId, amount, txHash) \<Rightarrow>
                      (case (tpd_TxIndexs proofData, tpd_TxProofs proofData) of
                         (i # is, pf # pfs) \<Rightarrow>
                           (case xe_VerifyProof env (hd_TxHash (tpd_Header proofData)) i pf of
                              None \<Rightarrow> Ret (Some InvalidProof)
                            | Some val \<Rightarrow>
                                (case xe_DecodeTransaction env val of
                                   None \<Rightarrow> Ret (Some DecodeError)
                                 | Some tx3 \<Rightarrow>
                                     (case xe_Sender env tx3 of
                                        None \<Rightarrow> Ret (Some InvalidSender)
                                      | Some tx3From \<Rightarrow>
                                          if length (tx_Payload tx3) < 4 then Panic ''slice bounds out of range''
                                          else (case xe_UnpackWithdrawFromSideChain env (drop 4 (tx_Payload tx3)) of
                                              None \<Rightarrow> Ret (Some DecodeError)
                                            | Some tx3ChainId \<Rightarrow>
                                                Ret (if from \<noteq> tx3From \<or> chainId \<noteq> tx3ChainId \<or> amount \<noteq> tx_Amount tx3
                                                     then Some InconsistentParams else None)))))
                       | _ \<Rightarrow> Panic ''index out of range''))))"

text \<open>
  Saving the epoch of a header waits for the registration of the chain; \<open>dbs i\<close> is the store at the \<open>i\<close>-th
  reading. The result is \<open>None\<close> if it is never registered.
\<close>

partial_function (option) waitChainInfo ::
    "'v chainWire \<Rightarrow> (nat \<Rightarrow> 'v edb) \<Rightarrow> string \<Rightarrow> nat \<Rightarrow> (nat \<times> chainInfo) go option" where
  "waitChainInfo w dbs chainId i = (case GetChainInfo w (dbs i) chainId of
     Panic e \<Rightarrow> Some (Panic e)
   | Ret (Some ci) \<Rightarrow> Some (Ret (i, ci))
   | Ret None \<Rightarrow> waitChainInfo w dbs chainId (Suc i))"

definition saveSideEpoch :: "'v chainWire \<Rightarrow> epoch \<Rightarrow> ('b, 'v) tendermintExtra \<Rightarrow> chainInfo \<Rightarrow> 'v edb \<Rightarrow> 'v edb" where
  "saveSideEpoch w ep te ci db =
     (let futureEpoch = cci_EpochNumber (ci_core ci) < ep_Number ep \<and> te_Height te < ep_StartBlock ep in
      if futureEpoch then SaveFutureEpoch w (Some ep) (te_ChainID te) db
      else if ep_Number ep = 0 \<or> cci_EpochNumber (ci_core ci) \<le> ep_Number ep
      then SaveChainInfo w \<lparr>ci_core = (ci_core ci)\<lparr>cci_EpochNumber := ep_Number ep\<rparr>, ci_Epoch = Some ep\<rparr> db
      else db)"

definition SaveSideChainProofDataToMainChain ::
    "('b, 'v) crossEnv \<Rightarrow> (nat \<Rightarrow> 'v edb) \<Rightarrow> bytes \<Rightarrow> (sideErr option \<times> 'v edb) go option" where
  "SaveSideChainProofDataToMainChain env dbs bs =
     (case xe_DecodeProofData env bs of
        None \<Rightarrow> Some (Ret (Some DecodeError, dbs 0))
      | Some header \<Rightarrow>
          (case ExtractTendermintExtra (cw_wire (xe_chainWire env)) (xe_codec env) header of
             None \<Rightarrow> Some (Ret (Some DecodeError, dbs 0))
           | Some te \<Rightarrow>
               if te_ChainID te = [] \<or> isMainChainId (te_ChainID te)
               then Some (Ret (Some InvalidSideChainId, dbs 0))
               else (case FromBytes (cw_wire (xe_chainWire env)) (te_EpochBytes te) of
                   None \<Rightarrow> Some (Ret (None, dbs 0))
                 | Some ep \<Rightarrow>
                     map_option (\<lambda>r. bindGo r (\<lambda>(i, ci). Ret (None, saveSideEpoch (xe_chainWire env) ep te ci (dbs i))))
                       (waitChainInfo (xe_chainWire env) dbs (te_ChainID te) 0))))"

end
