(* ===== verification/Side_Chain_Theorems.thy ===== *)
theory Side_Chain_Theorems
  imports Side_Chains Commit_Theorems
begin

text \<open>
  The registry of side chains keeps what is saved under different ids apart; the launch of the pending
  chains conserves the funds of all accounts; and what the main chain accepts from a side chain is signed
  by the validators that the registry has for it, with two exceptions that the code makes.
\<close>

section \<open>Lists of ids\<close>

lemma Split_not_Nil [simp]: "Split sep s \<noteq> []"
  by (cases s) (auto split: list.split)

lemma Split_parts: "t \<in> set (Split sep s) \<Longrightarrow> sep \<notin> set t"
  by (induction s arbitrary: t) (auto split: if_splits list.splits)

lemma Split_one: "sep \<notin> set s \<Longrightarrow> Split sep s = [s]"
  by (induction s) auto

lemma Split_append: "sep \<notin> set s \<Longrightarrow> Split sep (s @ sep # t) = s # Split sep t"
  by (induction s) auto

lemma Split_Join: "xs \<noteq> [] \<Longrightarrow> (\<And>x. x \<in> set xs \<Longrightarrow> sep \<notin> set x) \<Longrightarrow> Split sep (Join sep xs) = xs"
  by (induction sep xs rule: Join.induct) (auto simp: Split_one Split_append)

section \<open>Keys\<close>

lemma FormatUint_digits: "CHR ''-'' \<notin> set (FormatUint n)"
proof (induction n rule: FormatUint.induct)
  case (1 n)
  have d: "CHR ''-'' \<noteq> digitChar d" if "d < 10" for d
  proof
    assume "CHR ''-'' = digitChar d"
    then have "(of_char (digitChar d) :: nat) = of_char CHR ''-''" by simp
    then show False using that by (simp add: digitChar_def)
  qed
  then show ?case using 1 d [of n] d [of "n mod 10"] by (subst FormatUint.simps) simp
qed

lemma calcEpochKey_inj [simp]: "calcEpochKey m a = calcEpochKey n b \<longleftrightarrow> m = n \<and> a = b"
proof
  assume "calcEpochKey m a = calcEpochKey n b"
  then have e: "FormatUint (unat m) @ CHR ''-'' # a = FormatUint (unat n) @ CHR ''-'' # b"
    by (simp add: calcEpochKey_def)
  from arg_cong [OF e, of "Split CHR ''-''"] have "FormatUint (unat m) = FormatUint (unat n)"
    by (simp add: Split_append FormatUint_digits)
  then show "m = n \<and> a = b" using e by simp
qed simp

lemma keys_apart [simp]:
  "calcCoreChainInfoKey a = calcCoreChainInfoKey b \<longleftrightarrow> a = b"
  "calcPendingChainInfoKey a = calcPendingChainInfoKey b \<longleftrightarrow> a = b"
  "calcCoreChainInfoKey a \<noteq> calcEpochKey n b" "calcEpochKey n b \<noteq> calcCoreChainInfoKey a"
  "calcCoreChainInfoKey a \<noteq> allChainKey" "allChainKey \<noteq> calcCoreChainInfoKey a"
  "calcEpochKey n a \<noteq> allChainKey" "allChainKey \<noteq> calcEpochKey n a"
  "calcPendingChainInfoKey a \<noteq> calcCoreChainInfoKey b" "calcCoreChainInfoKey b \<noteq> calcPendingChainInfoKey a"
  "calcPendingChainInfoKey a \<noteq> calcEpochKey n b" "calcEpochKey n b \<noteq> calcPendingChainInfoKey a"
  "calcPendingChainInfoKey a \<noteq> allChainKey" "allChainKey \<noteq> calcPendingChainInfoKey a"
  "calcPendingChainInfoKey a \<noteq> pendingChainIndexKey" "pendingChainIndexKey \<noteq> calcPendingChainInfoKey a"
  "pendingChainIndexKey \<noteq> calcCoreChainInfoKey a" "pendingChainIndexKey \<noteq> calcEpochKey n a"
  "pendingChainIndexKey \<noteq> allChainKey"
  by (auto simp: calcCoreChainInfoKey_def calcPendingChainInfoKey_def calcEpochKey_def allChainKey_def
      pendingChainIndexKey_def)

section \<open>The registry\<close>

text \<open>What is relied on of wire-go, beside the laws for epochs.\<close>

definition chainWire_laws :: "'v chainWire \<Rightarrow> bool" where
  "chainWire_laws w \<longleftrightarrow> wire_laws (cw_wire w)
     \<and> (\<forall>c. ReadCorePtr w (CoreBytes w c) = Some c \<and> ReadCore w (CoreBytes w c) = c \<and> \<not> isEmptyBytes (cw_wire w) (CoreBytes w c))
     \<and> (\<forall>i. ReadIdx w (IdxBytes w i) = i)
     \<and> (\<forall>s. isEmptyBytes (cw_wire w) (StringBytes (cw_wire w) s) \<longleftrightarrow> s = [])"

lemma chainWireD:
  assumes "chainWire_laws w"
  shows "wire_laws (cw_wire w)" "ReadCorePtr w (CoreBytes w c) = Some c" "ReadCore w (CoreBytes w c) = c"
    "\<not> isEmptyBytes (cw_wire w) (CoreBytes w c)" "ReadIdx w (IdxBytes w i) = i"
    "isEmptyBytes (cw_wire w) (StringBytes (cw_wire w) s) \<longleftrightarrow> s = []"
  using assms unfolding chainWire_laws_def by blast+

lemma saveId_at:
  "saveId w chainId db k = (if k = allChainKey then saveId w chainId db allChainKey else db k)"
  by (simp add: saveId_def Let_def)

lemma saveId_ids:
  assumes w: "chainWire_laws w" and id: "chainId \<noteq> []" "specialSep \<notin> set chainId"
  shows "GetSideChainIds w (saveId w chainId db) =
    (if chainId \<in> set (GetSideChainIds w db) then GetSideChainIds w db else GetSideChainIds w db @ [chainId])"
proof (cases "case db allChainKey of None \<Rightarrow> True | Some b \<Rightarrow> isEmptyBytes (cw_wire w) b")
  case True
  then have "GetSideChainIds w db = []" by (auto simp: GetSideChainIds_def split: option.splits)
  with True show ?thesis
    using id chainWireD(6) [OF w] wire_lawsD(7) [OF chainWireD(1) [OF w]]
    by (simp add: saveId_def GetSideChainIds_def Split_one)
next
  case False
  then obtain b where b: "db allChainKey = Some b" "\<not> isEmptyBytes (cw_wire w) b" by (auto split: option.splits)
  let ?ids = "Split specialSep (BytesString (cw_wire w) b)"
  have ids: "GetSideChainIds w db = ?ids" using b by (simp add: GetSideChainIds_def)
  have j: "Split specialSep (Join specialSep (?ids @ [chainId])) = ?ids @ [chainId]"
    using id(2) by (intro Split_Join) (auto dest: Split_parts)
  have "Join specialSep (?ids @ [chainId]) \<noteq> []"
  proof
    assume "Join specialSep (?ids @ [chainId]) = []"
    with j have "?ids @ [chainId] = [[]]" by simp
    then show False by simp
  qed
  then show ?thesis
    using b j chainWireD(6) [OF w] wire_lawsD(7) [OF chainWireD(1) [OF w]] unfolding ids
    by (auto simp: saveId_def Let_def GetSideChainIds_def list_ex_iff)
qed

lemma SaveChainInfo_core:
  "SaveChainInfo w ci db (calcCoreChainInfoKey i) =
     (if i = cci_ChainId (ci_core ci) then Some (CoreBytes w (ci_core ci)) else db (calcCoreChainInfoKey i))"
  by (simp add: SaveChainInfo_def Let_def saveId_at [of _ _ _ "calcCoreChainInfoKey i"] saveCoreChainInfo_def
      saveEpoch_def split: option.split)

lemma SaveChainInfo_epoch:
  "SaveChainInfo w ci db (calcEpochKey n i) = (case ci_Epoch ci of
     Some e \<Rightarrow> if n = ep_Number e \<and> i = cci_ChainId (ci_core ci) then Some (EpochBytes (cw_wire w) (ep_fields e))
       else db (calcEpochKey n i)
   | None \<Rightarrow> db (calcEpochKey n i))"
  by (simp add: SaveChainInfo_def Let_def saveId_at [of _ _ _ "calcEpochKey n i"] saveCoreChainInfo_def
      saveEpoch_def split: option.split)

lemma SaveChainInfo_pending:
  "SaveChainInfo w ci db (calcPendingChainInfoKey i) = db (calcPendingChainInfoKey i)"
  "SaveChainInfo w ci db pendingChainIndexKey = db pendingChainIndexKey"
  by (simp_all add: SaveChainInfo_def Let_def saveId_at [of _ _ _ "calcPendingChainInfoKey i"]
      saveId_at [of _ _ _ pendingChainIndexKey] saveCoreChainInfo_def saveEpoch_def split: option.split)

lemma GetSideChainIds_cong: "db allChainKey = db' allChainKey \<Longrightarrow> GetSideChainIds w db = GetSideChainIds w db'"
  by (simp add: GetSideChainIds_def)

text \<open>
  C22: a chain that is saved under an id that \<open>CanCreateSideChain\<close> admits is found with what was saved, its
  epoch as it is stored, and its id is in the list of running chains. Nothing changes for any other id: not
  the information, not whether it runs, and no pending chain.
\<close>

theorem SaveChainInfo_registers:
  fixes db :: "'v edb"
  assumes "chainWire_laws w" "CanCreateSideChain w db0 blk chainId mv md cost st en = Ret None"
    "cci_ChainId (ci_core ci) = chainId"
    "\<And>e. ci_Epoch ci = Some e \<Longrightarrow> ep_Number e = cci_EpochNumber (ci_core ci)"
  defines "db' \<equiv> SaveChainInfo w ci db"
  shows "GetChainInfo w db' chainId = Ret (Some \<lparr>ci_core = ci_core ci, ci_Epoch = (case ci_Epoch ci of
        None \<Rightarrow> loadEpoch w db (cci_EpochNumber (ci_core ci)) chainId
      | Some e \<Rightarrow> Some (Epoch (stored (cw_wire w) (ep_fields e)) None None None None))\<rparr>) \<and>
    CheckSideChainRunning w db' chainId \<and>
    (\<forall>id. id \<noteq> chainId \<longrightarrow> GetChainInfo w db' id = GetChainInfo w db id \<and>
       CheckSideChainRunning w db' id = CheckSideChainRunning w db id) \<and>
    (\<forall>id. GetPendingSideChainData w db' id = GetPendingSideChainData w db id) \<and> pendingIdx w db' = pendingIdx w db"
proof -
  have id: "chainId \<noteq> []" "specialSep \<notin> set chainId"
    using assms(2) by (auto simp: CanCreateSideChain_def split: if_splits)
  have ep: "loadEpoch w db' (cci_EpochNumber (ci_core ci)) chainId = (case ci_Epoch ci of
        None \<Rightarrow> loadEpoch w db (cci_EpochNumber (ci_core ci)) chainId
      | Some e \<Rightarrow> Some (Epoch (stored (cw_wire w) (ep_fields e)) None None None None))"
    using assms(3,4) wire_lawsD(1,2) [OF chainWireD(1) [OF assms(1)]]
    by (simp add: loadEpoch_def db'_def SaveChainInfo_epoch FromBytes_def split: option.split)
  have own: "GetChainInfo w db' chainId = Ret (Some \<lparr>ci_core = ci_core ci, ci_Epoch = (case ci_Epoch ci of
        None \<Rightarrow> loadEpoch w db (cci_EpochNumber (ci_core ci)) chainId
      | Some e \<Rightarrow> Some (Epoch (stored (cw_wire w) (ep_fields e)) None None None None))\<rparr>)"
    using assms(3) chainWireD(2,4) [OF assms(1)] ep
    by (simp add: GetChainInfo_def loadCoreChainInfo_def db'_def SaveChainInfo_core)
  have other: "GetChainInfo w db' i = GetChainInfo w db i" if "i \<noteq> chainId" for i
  proof -
    have "loadEpoch w db' n i = loadEpoch w db n i" for n
      using that assms(3) by (simp add: loadEpoch_def db'_def SaveChainInfo_epoch split: option.split)
    moreover have "loadCoreChainInfo w db' i = loadCoreChainInfo w db i"
      using that assms(3) by (simp add: loadCoreChainInfo_def db'_def SaveChainInfo_core)
    ultimately show ?thesis by (simp add: GetChainInfo_def cong: option.case_cong)
  qed
  obtain db1 where db1: "db' = saveId w chainId db1" "db1 allChainKey = db allChainKey"
    using assms(3) by (simp add: db'_def SaveChainInfo_def Let_def saveCoreChainInfo_def saveEpoch_def split: option.splits)
  have "set (GetSideChainIds w db') = insert chainId (set (GetSideChainIds w db))"
    using saveId_ids [OF assms(1) id, of db1] GetSideChainIds_cong [where db = db1 and db' = db and w = w] db1 by auto
  then have "CheckSideChainRunning w db' i = (i = chainId \<or> CheckSideChainRunning w db i)" for i
    by (auto simp: CheckSideChainRunning_def list_ex_iff)
  then show ?thesis
    using own other by (simp add: GetPendingSideChainData_def pendingIdx_def db'_def SaveChainInfo_pending)
qed

section \<open>Deposits for side chains\<close>

definition sideDeposits :: "account \<Rightarrow> int" where
  "sideDeposits d = sum_list (map scd_DepositBalance (acc_SideChainDepositBalance d))"

text \<open>The change that the methods make in the list of deposits.\<close>

definition depositSet :: "string \<Rightarrow> int \<Rightarrow> account \<Rightarrow> account" where
  "depositSet c x d =
     (let d = (case find_index (\<lambda>e. scd_ChainId e = c) (acc_SideChainDepositBalance d) of
                 Some i \<Rightarrow> d
               | None \<Rightarrow> d\<lparr>acc_SideChainDepositBalance := acc_SideChainDepositBalance d
                    @ [\<lparr>scd_ChainId = c, scd_DepositBalance = 0\<rparr>]\<rparr>);
          i = the (find_index (\<lambda>e. scd_ChainId e = c) (acc_SideChainDepositBalance d))
      in d\<lparr>acc_SideChainDepositBalance := (acc_SideChainDepositBalance d)
           [i := (acc_SideChainDepositBalance d ! i)\<lparr>scd_DepositBalance := x\<rparr>]\<rparr>)"

definition depositOf :: "string \<Rightarrow> account \<Rightarrow> int" where
  "depositOf c d = (case find (\<lambda>e. scd_ChainId e = c) (acc_SideChainDepositBalance d) of
     Some e \<Rightarrow> scd_DepositBalance e | None \<Rightarrow> 0)"

lemma find_index_append_new:
  "find_index P xs = None \<Longrightarrow> P y \<Longrightarrow> find_index P (xs @ [y]) = Some (length xs)"
  by (induction xs) (auto simp del: find_index_None split: if_splits)

lemma find_index_find: "find P xs = map_option ((!) xs) (find_index P xs)"
  by (induction xs) (auto simp: option.map_comp comp_def)

lemma sum_list_set:
  "i < length xs \<Longrightarrow> sum_list (map f (xs[i := y])) = sum_list (map f xs) + f y - (f (xs ! i) :: int)"
  by (induction xs arbitrary: i) (auto split: nat.splits)

lemma depositSet_sum: "sideDeposits (depositSet c (depositOf c d - x) d) = sideDeposits d - x"
proof (cases "find_index (\<lambda>e. scd_ChainId e = c) (acc_SideChainDepositBalance d)")
  case None
  then show ?thesis
    by (simp add: depositSet_def depositOf_def sideDeposits_def find_index_find find_index_append_new nth_append
        sum_list_set Let_def del: find_index_None)
next
  case (Some i)
  then have "i < length (acc_SideChainDepositBalance d)" using find_index_Some by fastforce
  then show ?thesis using Some
    by (simp add: depositSet_def depositOf_def sideDeposits_def find_index_find sum_list_set Let_def)
qed

lemma depositSet_frame:
  "acc_Balance (depositSet c x d) = acc_Balance d" "acc_ChainBalance (depositSet c x d) = acc_ChainBalance d"
  by (simp_all add: depositSet_def Let_def split: option.split)

lemma SetDeposit_acts:
  "acts (stateObject_SetSideChainDepositBalance c x) (depositSet c x) (\<lambda>m. m)"
proof -
  have "acc_ProxiedRoot (depositSet c x d) = acc_ProxiedRoot d" for d
    by (simp add: depositSet_def Let_def split: option.split)
  then have e: "entries (updData (depositSet c x) ob) = entries ob" for ob by (rule entries_data)
  have "stateObject_SetSideChainDepositBalance c x (s, ob) =
      fireDirty (journalAppend (sideChainDepositBalanceChange (so_address ob) c (depositOf c (so_data ob))) s,
        updData (depositSet c x) ob)" for s ob
    by (auto simp: sideChainIndex_def depositSet_def depositOf_def updData_def find_index_find find_index_append_new
        nth_append Let_def simp del: find_index_None split: option.split)
  then show ?thesis using e by (simp add: acts_def split_beta)
qed

lemma SubDeposit_acts:
  "acts (stateObject_SubSideChainDepositBalance c x) (\<lambda>d. if x = 0 then d else depositSet c (depositOf c d - x) d) (\<lambda>m. m)"
proof -
  have "stateObject_SideChainDepositBalance c ob = depositOf c (so_data ob)" for ob
    by (simp add: stateObject_SideChainDepositBalance_def depositOf_def)
  then show ?thesis
    using SetDeposit_acts [THEN actsD(1)] SetDeposit_acts [THEN actsD(2)] SetDeposit_acts [THEN actsD(3)]
      SetDeposit_acts [THEN actsD(4)] SetDeposit_acts [THEN actsD(5)] SetDeposit_acts [THEN actsD(6)]
    by (simp add: acts_def split_beta del: stateObject_SetSideChainDepositBalance.simps)
qed

section \<open>Launch\<close>

text \<open>What an account has outside of staking: its balance, its chain balance and its deposits.\<close>

definition funds :: "stateDB \<Rightarrow> address \<Rightarrow> int" where
  "funds s a = StateDB_GetBalance s a + StateDB_GetChainBalance s a + sideDeposits (data_at s a)"

lemma funds_at:
  assumes "sdb_ok s"
  shows "funds (StateDB_SubSideChainDepositBalance a c x s) = (funds s)(a := funds s a - x)"
    "funds (StateDB_AddBalance a x s) = (funds s)(a := funds s a + x)"
    "funds (StateDB_AddChainBalance a x s) = (funds s)(a := funds s a + x)"
    "funds (StateDB_SubChainBalance a x s) = (funds s)(a := funds s a - x)"
proof -
  have "data_at (StateDB_SubSideChainDepositBalance a c x s) = (data_at s)
      (a := if x = 0 then data_at s a else depositSet c (depositOf c (data_at s a) - x) (data_at s a))"
    unfolding StateDB_SubSideChainDepositBalance_def by (rule op_at(1) [OF assms SubDeposit_acts])
  then show "funds (StateDB_SubSideChainDepositBalance a c x s) = (funds s)(a := funds s a - x)"
    by (simp add: fun_eq_iff funds_def effects depositSet_frame depositSet_sum)
  show "funds (StateDB_AddBalance a x s) = (funds s)(a := funds s a + x)"
    "funds (StateDB_AddChainBalance a x s) = (funds s)(a := funds s a + x)"
    "funds (StateDB_SubChainBalance a x s) = (funds s)(a := funds s a - x)"
    using assms by (simp_all add: fun_eq_iff funds_def effects sideDeposits_def)
qed

definition conserved :: "(bytes \<Rightarrow> bytes) \<Rightarrow> stateDB \<Rightarrow> stateDB \<Rightarrow> bool" where
  "conserved keccak s s' \<longleftrightarrow> sdb_reachable keccak s' \<and> changes (funds s) (funds s') 0"

lemma conserved_refl: "sdb_reachable keccak s \<Longrightarrow> conserved keccak s s"
  by (simp add: conserved_def changes_refl)

lemma conserved_trans: "conserved keccak s t \<Longrightarrow> conserved keccak t u \<Longrightarrow> conserved keccak s u"
  using changes_trans [of "funds s" "funds t" 0 "funds u" 0] by (simp add: conserved_def)

lemma conserved_reachable: "conserved keccak s t \<Longrightarrow> sdb_reachable keccak t"
  by (simp add: conserved_def)

lemma conserved_fold:
  "sdb_reachable keccak s \<Longrightarrow> (\<And>x t. sdb_reachable keccak t \<Longrightarrow> conserved keccak t (f x t)) \<Longrightarrow> conserved keccak s (fold f xs s)"
proof (induction xs arbitrary: s)
  case (Cons x xs)
  note step = Cons.prems(2) [OF Cons.prems(1), of x]
  show ?case using conserved_trans [OF step Cons.IH [OF conserved_reachable [OF step] Cons.prems(2)]] by simp
qed (simp add: conserved_refl)

lemma conserved_by:
  assumes "sdb_reachable keccak s'" "funds s' = ((funds s)(a := funds s a + x))(b := ((funds s)(a := funds s a + x)) b - x)"
  shows "conserved keccak s s'"
proof -
  have "changes (funds s) ((funds s)(a := funds s a + x)) x" by (rule changes_upd [of a]) simp_all
  moreover have "changes ((funds s)(a := funds s a + x)) (funds s') (- x)" by (rule changes_upd [of b]) (simp_all add: assms(2))
  ultimately show ?thesis using changes_trans assms(1) unfolding conserved_def by fastforce
qed

lemma moves_conserve:
  assumes "sdb_reachable keccak s"
  shows "conserved keccak s (StateDB_AddBalance b x (StateDB_SubSideChainDepositBalance a c x s))"
    "conserved keccak s (StateDB_AddChainBalance b x (StateDB_SubSideChainDepositBalance a c x s))"
    "conserved keccak s (StateDB_SubChainBalance b x (StateDB_AddBalance a x s))"
proof -
  have r: "sdb_reachable keccak (StateDB_SubSideChainDepositBalance a c x s)" "sdb_reachable keccak (StateDB_AddBalance a x s)"
    by (rule sdb_reachable.Step [OF assms], rule sdb_step.intros)+
  note ok = reachable_ok [OF assms] r [THEN reachable_ok]
  have r': "sdb_reachable keccak (StateDB_AddBalance b x (StateDB_SubSideChainDepositBalance a c x s))"
    "sdb_reachable keccak (StateDB_AddChainBalance b x (StateDB_SubSideChainDepositBalance a c x s))"
    by (rule sdb_reachable.Step [OF r(1)], rule sdb_step.intros)+
  have r2: "sdb_reachable keccak (StateDB_SubChainBalance b x (StateDB_AddBalance a x s))"
    by (rule sdb_reachable.Step [OF r(2)], rule sdb_step.intros)
  show "conserved keccak s (StateDB_AddBalance b x (StateDB_SubSideChainDepositBalance a c x s))"
    "conserved keccak s (StateDB_AddChainBalance b x (StateDB_SubSideChainDepositBalance a c x s))"
    using r' by (rule_tac [!] conserved_by [where a = a and b = b and x = "- x"]) (simp_all add: funds_at ok)
  show "conserved keccak s (StateDB_SubChainBalance b x (StateDB_AddBalance a x s))"
    using r2 by (rule conserved_by [where a = a and b = b and x = x]) (simp add: funds_at ok)
qed

definition expired :: "int \<Rightarrow> pendingIdxData \<Rightarrow> bool" where
  "expired height v \<longleftrightarrow> pi_Start v \<le> height \<and> pi_End v < height"

definition launchable :: "'v chainWire \<Rightarrow> 'v edb \<Rightarrow> int \<Rightarrow> pendingIdxData \<Rightarrow> bool" where
  "launchable w db height v \<longleftrightarrow> pi_Start v \<le> height \<and> height \<le> pi_End v \<and>
     (case GetPendingSideChainData w db (pi_ChainID v) of None \<Rightarrow> False
      | Some cci \<Rightarrow> unat (cci_MinValidators cci) \<le> length (cci_JoinedValidators cci)
          \<and> cci_MinDepositAmount cci \<le> sum_list (map jv_DepositAmount (cci_JoinedValidators cci)))"

lemma TotalDeposit_sum: "TotalDeposit cci = sum_list (map jv_DepositAmount (cci_JoinedValidators cci))"
proof -
  have "fold (\<lambda>v sum. sum + jv_DepositAmount v) xs a = a + sum_list (map jv_DepositAmount xs)" for xs a
    by (induction xs arbitrary: a) auto
  from this [of "cci_JoinedValidators cci" 0] show ?thesis by (simp add: TotalDeposit_def)
qed

lemma launchEntry_result:
  assumes "launchEntry w db height v la = Ret la'" "sdb_reachable keccak (la_state la)"
  shows "conserved keccak (la_state la) (la_state la')"
    "la_ready la' = la_ready la @ map pi_ChainID (filter (launchable w db height) [v])"
    "la_removed la' = la_removed la @ map pi_ChainID (filter (expired height) [v])"
    "la_pending la' = la_pending la @ filter (\<lambda>v. \<not> launchable w db height v \<and> \<not> expired height v) [v]"
proof -
  have "conserved keccak (la_state la) (la_state la')
    \<and> la_ready la' = la_ready la @ map pi_ChainID (filter (launchable w db height) [v])
    \<and> la_removed la' = la_removed la @ map pi_ChainID (filter (expired height) [v])
    \<and> la_pending la' = la_pending la @ filter (\<lambda>v. \<not> launchable w db height v \<and> \<not> expired height v) [v]"
  proof (cases "height < pi_Start v")
    case True
    then show ?thesis using assms by (auto simp: launchEntry_def launchable_def expired_def conserved_refl)
  next
    case False
    then obtain cci where cci: "GetPendingSideChainData w db (pi_ChainID v) = Some cci"
      using assms(1) by (cases "GetPendingSideChainData w db (pi_ChainID v)") (simp_all add: launchEntry_def)
    let ?paid = "fold (\<lambda>jv s. StateDB_AddBalance (jv_Address jv) (jv_DepositAmount jv)
        (StateDB_SubSideChainDepositBalance (jv_Address jv) (pi_ChainID v) (jv_DepositAmount jv) s))
        (cci_JoinedValidators cci) (la_state la)"
    have b: "conserved keccak (la_state la) ?paid" by (rule conserved_fold [OF assms(2)]) (rule moves_conserve)
    note refund = conserved_trans [OF b moves_conserve(3) [OF conserved_reachable [OF b]]]
    have launch: "conserved keccak (la_state la) (fold (\<lambda>jv s. StateDB_AddChainBalance (cci_Owner cci) (jv_DepositAmount jv)
        (StateDB_SubSideChainDepositBalance (jv_Address jv) (pi_ChainID v) (jv_DepositAmount jv) s))
        (cci_JoinedValidators cci) (la_state la))" by (rule conserved_fold [OF assms(2)]) (rule moves_conserve)
    show ?thesis using assms False cci refund launch
      by (auto simp: launchEntry_def launchable_def expired_def conserved_refl TotalDeposit_sum Let_def split: if_splits)
  qed
  then show "conserved keccak (la_state la) (la_state la')"
    "la_ready la' = la_ready la @ map pi_ChainID (filter (launchable w db height) [v])"
    "la_removed la' = la_removed la @ map pi_ChainID (filter (expired height) [v])"
    "la_pending la' = la_pending la @ filter (\<lambda>v. \<not> launchable w db height v \<and> \<not> expired height v) [v]" by blast+
qed

lemma launch_loop:
  assumes "foldGo (launchEntry w db height) idx la = Ret la'" "sdb_reachable keccak (la_state la)"
  shows "conserved keccak (la_state la) (la_state la')"
    "la_ready la' = la_ready la @ map pi_ChainID (filter (launchable w db height) idx)"
    "la_removed la' = la_removed la @ map pi_ChainID (filter (expired height) idx)"
    "la_pending la' = la_pending la @ filter (\<lambda>v. \<not> launchable w db height v \<and> \<not> expired height v) idx"
proof -
  have "conserved keccak (la_state la) (la_state la')
    \<and> la_ready la' = la_ready la @ map pi_ChainID (filter (launchable w db height) idx)
    \<and> la_removed la' = la_removed la @ map pi_ChainID (filter (expired height) idx)
    \<and> la_pending la' = la_pending la @ filter (\<lambda>v. \<not> launchable w db height v \<and> \<not> expired height v) idx"
    using assms
  proof (induction idx arbitrary: la)
    case (Cons v idx)
    then obtain la1 where la1: "launchEntry w db height v la = Ret la1"
      "foldGo (launchEntry w db height) idx la1 = Ret la'" by (auto simp: bindGo_Ret_iff)
    note e = launchEntry_result [OF la1(1) Cons.prems(2)]
    from Cons.IH [OF la1(2) conserved_reachable [OF e(1)]] e show ?case
      by (auto intro: conserved_trans [OF e(1)])
  qed (simp add: conserved_refl)
  then show "conserved keccak (la_state la) (la_state la')"
    "la_ready la' = la_ready la @ map pi_ChainID (filter (launchable w db height) idx)"
    "la_removed la' = la_removed la @ map pi_ChainID (filter (expired height) idx)"
    "la_pending la' = la_pending la @ filter (\<lambda>v. \<not> launchable w db height v \<and> \<not> expired height v) idx" by blast+
qed

lemma removed_gone:
  "fold (\<lambda>i db. db(calcPendingChainInfoKey i := None)) ids db k =
     (if k \<in> calcPendingChainInfoKey ` set ids then None else db k)"
  by (induction ids arbitrary: db) auto

text \<open>
  C21: of the pending chains exactly those with enough validators and deposits are launched and exactly those
  whose time is over are given up; all others stay pending, in the same order, once the main chain has
  processed the result, and the data of a chain that was given up is gone. Launching and giving up move the
  deposits without changing the sum of balances, chain balances and deposits over all accounts.
\<close>

theorem launch_conserves_funds:
  assumes "chainWire_laws w" "sdb_reachable keccak s"
    "GetSideChainForLaunch w db height s = Ret (ready, newIdx, removed, s')"
  shows "changes (funds s) (funds s') 0 \<and>
    ready = map pi_ChainID (filter (launchable w db height) (pendingIdx w db)) \<and>
    removed = map pi_ChainID (filter (expired height) (pendingIdx w db)) \<and>
    pendingIdx w (ProcessPostPendingData newIdx removed db) =
      filter (\<lambda>v. \<not> launchable w db height v \<and> \<not> expired height v) (pendingIdx w db) \<and>
    (\<forall>c. GetPendingSideChainData w (ProcessPostPendingData newIdx removed db) c =
       (if c \<in> set removed then None else GetPendingSideChainData w db c))"
proof -
  let ?rest = "filter (\<lambda>v. \<not> launchable w db height v \<and> \<not> expired height v) (pendingIdx w db)"
  obtain la where la: "foldGo (launchEntry w db height) (pendingIdx w db)
      \<lparr>la_ready = [], la_pending = [], la_removed = [], la_state = s\<rparr> = Ret la"
    "ready = la_ready la" "removed = la_removed la" "s' = la_state la"
    "newIdx = (if length (la_pending la) \<noteq> length (pendingIdx w db) then Some (IdxBytes w (la_pending la)) else None)"
    using assms(3) by (auto simp: GetSideChainForLaunch_def Let_def bindGo_Ret_iff)
  note loop = launch_loop [OF la(1), of keccak, simplified, OF assms(2)]
  have idx: "newIdx = (if ?rest \<noteq> pendingIdx w db then Some (IdxBytes w ?rest) else None)"
    using la(5) loop(4) by (metis filter_id_conv length_filter_less nless_le)
  have "pendingIdx w (ProcessPostPendingData newIdx removed db) = ?rest"
  proof (cases "?rest = pendingIdx w db")
    case True
    then have "newIdx = None" using idx by simp
    then have "pendingIdx w (ProcessPostPendingData newIdx removed db) = pendingIdx w db"
      by (auto simp: ProcessPostPendingData_def Let_def pendingIdx_def removed_gone)
    with True show ?thesis by simp
  next
    case False
    then show ?thesis using idx chainWireD(5) [OF assms(1)]
      by (simp add: ProcessPostPendingData_def Let_def pendingIdx_def [of _ "_(_ \<mapsto> _)"])
  qed
  moreover have "GetPendingSideChainData w (ProcessPostPendingData newIdx removed db) c =
       (if c \<in> set removed then None else GetPendingSideChainData w db c)" for c
    by (auto simp: ProcessPostPendingData_def Let_def GetPendingSideChainData_def removed_gone split: option.split)
  ultimately show ?thesis using loop la by (simp add: conserved_def)
qed

section \<open>Proofs from a side chain\<close>

lemma sideCommit_cases:
  assumes "sideCommitErr env db te = Ret None"
  obtains ci epoch c where "GetChainInfo (xe_chainWire env) db (te_ChainID te) = Ret (Some ci)"
    "ChainInfo_GetEpochByBlockNumber (xe_chainWire env) db (te_Height te) ci = Some epoch"
    "te_SeenCommit te = Some c"
    "ValidatorSet_VerifyCommit (xe_ext env) (ep_Validators epoch) (te_ChainID te) (te_Height te) (Some c) = Ret None"
proof -
  obtain r where r: "GetChainInfo (xe_chainWire env) db (te_ChainID te) = Ret r"
    using assms by (auto simp: sideCommitErr_def bindGo_Ret_iff)
  note run = assms [unfolded sideCommitErr_def r bindGo.simps]
  then obtain ci where ci: "r = Some ci" by (cases r) simp_all
  note run = run [unfolded ci option.case]
  then obtain epoch where ep: "ChainInfo_GetEpochByBlockNumber (xe_chainWire env) db (te_Height te) ci = Some epoch"
    by (cases "ChainInfo_GetEpochByBlockNumber (xe_chainWire env) db (te_Height te) ci") simp_all
  note run = run [unfolded ep option.case]
  then obtain c where c: "te_SeenCommit te = Some c"
    by (cases "te_SeenCommit te") (simp_all split: if_splits)
  show thesis
    using run c by (intro that [OF r [unfolded ci] ep c]) (auto simp: bindGo_Ret_iff split: if_splits)
qed


text \<open>
  The second exception is enough to take a side chain over: a header without any signature, with an epoch
  number 0 and validators of its own, is accepted and replaces the epoch of a registered chain.
\<close>

lemma unsigned_epoch_saved:
  assumes "chainWire_laws (xe_chainWire env)" "xe_DecodeProofData env bs = Some header"
    "ExtractTendermintExtra (cw_wire (xe_chainWire env)) (xe_codec env) header = Some te"
    "te_ChainID te \<noteq> []" "\<not> isMainChainId (te_ChainID te)" "sideHeaderErr env header = None"
    "te_EpochBytes te = Some (EpochBytes (cw_wire (xe_chainWire env)) e)" "ef_Number e = 0"
    "GetChainInfo (xe_chainWire env) db (te_ChainID te) = Ret (Some ci)" "cci_ChainId (ci_core ci) = te_ChainID te"
  shows "VerifySideChainProofData env db bs = Ret None"
    "\<exists>db' ci'. SaveSideChainProofDataToMainChain env (\<lambda>_. db) bs = Some (Ret (None, db')) \<and>
       GetChainInfo (xe_chainWire env) db' (te_ChainID te) = Ret (Some ci') \<and>
       map_option (\<lambda>ep. vs_Validators (ep_Validators ep)) (ci_Epoch ci') = Some (vs_Validators (ef_Validators e))"
proof -
  let ?w = "xe_chainWire env" and ?ep = "Epoch (stored (cw_wire (xe_chainWire env)) e) None None None None"
  have ep: "FromBytes (cw_wire ?w) (te_EpochBytes te) = Some ?ep" "ep_Number ?ep = 0"
    using assms(7,8) wire_lawsD(1,2) [OF chainWireD(1) [OF assms(1)]] by (simp_all add: FromBytes_def stored_def)
  then show "VerifySideChainProofData env db bs = Ret None"
    using assms(2-6) by (simp add: VerifySideChainProofData_def carriesEpoch0_def)
  have wait: "waitChainInfo ?w (\<lambda>_. db) (te_ChainID te) 0 = Some (Ret (0, ci))"
    by (subst waitChainInfo.simps) (simp add: assms(9))
  let ?ci = "\<lparr>ci_core = (ci_core ci)\<lparr>cci_EpochNumber := 0\<rparr>, ci_Epoch = Some ?ep\<rparr>"
  have "SaveSideChainProofDataToMainChain env (\<lambda>_. db) bs = Some (Ret (None, SaveChainInfo ?w ?ci db))"
    using assms(2-5) ep wait
    by (simp add: SaveSideChainProofDataToMainChain_def saveSideEpoch_def)
  moreover have "loadEpoch ?w (SaveChainInfo ?w ?ci db) 0 (te_ChainID te)
      = Some (Epoch (stored (cw_wire ?w) (stored (cw_wire ?w) e)) None None None None)"
    using assms(10) ep(2) wire_lawsD(1,2) [OF chainWireD(1) [OF assms(1)]]
    by (simp add: loadEpoch_def SaveChainInfo_epoch FromBytes_def)
  then have "GetChainInfo ?w (SaveChainInfo ?w ?ci db) (te_ChainID te) = Ret (Some \<lparr>ci_core = ci_core ?ci,
      ci_Epoch = Some (Epoch (stored (cw_wire ?w) (stored (cw_wire ?w) e)) None None None None)\<rparr>)"
    using assms(10) chainWireD(2,4) [OF assms(1)]
    by (simp add: GetChainInfo_def loadCoreChainInfo_def SaveChainInfo_core)
  ultimately show "\<exists>db' ci'. SaveSideChainProofDataToMainChain env (\<lambda>_. db) bs = Some (Ret (None, db')) \<and>
       GetChainInfo ?w db' (te_ChainID te) = Ret (Some ci') \<and>
       map_option (\<lambda>ep. vs_Validators (ep_Validators ep)) (ci_Epoch ci') = Some (vs_Validators (ef_Validators e))"
    by (simp add: stored_def)
qed

section \<open>Instances\<close>

datatype chainBlob = CEpoch epochFields | CVotes "epochValidatorVote list" | CScheme rewardScheme | CString string
  | CCore coreChainInfo | CIdx "pendingIdxData list" | CExtra nat

definition demo_cci :: coreChainInfo where
  "demo_cci = \<lparr>cci_Owner = [5], cci_ChainId = ''chain'', cci_MinValidators = 1, cci_MinDepositAmount = 50,
     cci_StartBlock = 1, cci_EndBlock = 9,
     cci_JoinedValidators = [\<lparr>jv_PubKey = [], jv_Address = demo_user, jv_DepositAmount = 60\<rparr>],
     cci_EpochNumber = 1, cci_DepositInMainChain = None, cci_DepositInSideChain = None,
     cci_WithdrawFromSideChain = None, cci_WithdrawFromMainChain = None\<rparr>"

definition demo_chainWire :: "chainBlob chainWire" where
  "demo_chainWire = \<lparr>cw_wire = \<lparr>EpochBytes = (\<lambda>e. CEpoch (e\<lparr>ef_Validators := (ef_Validators e)\<lparr>vs_totalVotingPower := None\<rparr>\<rparr>)),
       ReadEpoch = (\<lambda>b. case b of CEpoch e \<Rightarrow> Some e | _ \<Rightarrow> None),
       VotesBytes = CVotes, ReadVotes = (\<lambda>b. case b of CVotes v \<Rightarrow> Some v | _ \<Rightarrow> None),
       SchemeBytes = CScheme, ReadScheme = (\<lambda>b. case b of CScheme r \<Rightarrow> Some r | _ \<Rightarrow> None),
       StringBytes = CString, BytesString = (\<lambda>b. case b of CString s \<Rightarrow> s | _ \<Rightarrow> []),
       isEmptyBytes = (\<lambda>b. case b of CString s \<Rightarrow> s = [] | _ \<Rightarrow> False), wireTime = (\<lambda>t. t)\<rparr>,
     CoreBytes = CCore, ReadCorePtr = (\<lambda>b. case b of CCore c \<Rightarrow> Some c | _ \<Rightarrow> None),
     ReadCore = (\<lambda>b. case b of CCore c \<Rightarrow> c | _ \<Rightarrow> demo_cci),
     IdxBytes = CIdx, ReadIdx = (\<lambda>b. case b of CIdx i \<Rightarrow> i | _ \<Rightarrow> [])\<rparr>"

lemma demo_chainWire_laws: "chainWire_laws demo_chainWire"
  by (simp add: chainWire_laws_def demo_chainWire_def wire_laws_def stored_def)

lemma demo_CanCreate:
  "CanCreateSideChain demo_chainWire Map.empty 3 ''chain'' 1 77000000000000000000000 77000000000000000000000 5 9 = Ret None"
  by code_simp

theorem SaveChainInfo_registers_witness:
  "GetChainInfo demo_chainWire (SaveChainInfo demo_chainWire \<lparr>ci_core = demo_cci, ci_Epoch = None\<rparr> Map.empty) ''chain''
     = Ret (Some \<lparr>ci_core = demo_cci, ci_Epoch = None\<rparr>) \<and>
   CheckSideChainRunning demo_chainWire (SaveChainInfo demo_chainWire \<lparr>ci_core = demo_cci, ci_Epoch = None\<rparr> Map.empty) ''chain''"
proof -
  have "cci_ChainId (ci_core \<lparr>ci_core = demo_cci, ci_Epoch = None\<rparr>) = ''chain''" by (simp add: demo_cci_def)
  from SaveChainInfo_registers [OF demo_chainWire_laws demo_CanCreate this, of Map.empty] show ?thesis
    by (simp add: loadEpoch_def FromBytes_def)
qed

definition demo_pendingDB :: "chainBlob edb" where
  "demo_pendingDB = CreatePendingSideChainData demo_chainWire demo_cci Map.empty"

definition demo_depositor :: stateDB where
  "demo_depositor = StateDB_AddSideChainDepositBalance demo_user ''chain'' 60 (StateDB_New Map.empty empty_trie)"

lemma demo_depositor_reachable: "sdb_reachable keccak demo_depositor"
proof -
  have "trie_ok empty_trie" by (simp add: trie_ok_def empty_trie_def)
  then have "sdb_reachable keccak (StateDB_New Map.empty empty_trie)" by (rule sdb_reachable.New)
  from sdb_reachable.Step [OF this sdb_step.AddSideChainDepositBalance] show ?thesis unfolding demo_depositor_def .
qed

lemma demo_launch:
  "case GetSideChainForLaunch demo_chainWire demo_pendingDB 5 demo_depositor of Panic e \<Rightarrow> False
   | Ret (ready, newIdx, removed, s') \<Rightarrow> ready = [''chain''] \<and> removed = [] \<and> StateDB_GetChainBalance s' [5] = 60"
  by code_simp

theorem launch_conserves_funds_witness:
  "\<exists>newIdx s'. GetSideChainForLaunch demo_chainWire demo_pendingDB 5 demo_depositor = Ret ([''chain''], newIdx, [], s') \<and>
     StateDB_GetChainBalance s' [5] = 60 \<and> changes (funds demo_depositor) (funds s') 0"
proof -
  obtain newIdx s' where s': "GetSideChainForLaunch demo_chainWire demo_pendingDB 5 demo_depositor = Ret ([''chain''], newIdx, [], s')"
    "StateDB_GetChainBalance s' [5] = 60"
    using demo_launch by (auto split: go.splits)
  show ?thesis
    using launch_conserves_funds [OF demo_chainWire_laws demo_depositor_reachable [of "\<lambda>_. []"] s'(1)] s' by blast
qed

definition demo_sideExtra :: "(bool list option, chainBlob) tendermintExtra" where
  "demo_sideExtra = \<lparr>te_ChainID = ''chain'', te_Height = 5, te_Time = 0, te_NeedToSave = True, te_NeedToBroadcast = False,
     te_EpochNumber = 1, te_SeenCommitHash = [1], te_ValidatorsHash = [2], te_SeenCommit = Some demo_commit, te_EpochBytes = None\<rparr>"

definition demo_sideCodec :: "(bool list option, chainBlob) codec" where
  "demo_sideCodec = \<lparr>rlpHash = (\<lambda>h. [3]), nilUncleHash = [], MagicExtra = CString ''m'', ExtraBytes = (\<lambda>te. CExtra 0),
     ReadExtra = (\<lambda>v. Some demo_sideExtra), SimpleHashFromMap = (\<lambda>m. [4]), SimpleHashFromBinary = (\<lambda>c. [1]),
     SimpleHashFromHashables = (\<lambda>vs. [2]), EncodeBlock = (\<lambda>b. []), DecodeBlock = (\<lambda>b. None),
     TmpBlockBytes = (\<lambda>b. []), ReadTmpBlock = (\<lambda>n b. None)\<rparr>"

definition demo_sideHeader :: "chainBlob header" where
  "demo_sideHeader = \<lparr>hd_ParentHash = [], hd_UncleHash = [], hd_Coinbase = demo_val, hd_Root = [], hd_TxHash = [],
     hd_ReceiptHash = [], hd_Bloom = [], hd_Difficulty = Some 1, hd_Number = Some 5, hd_GasLimit = 0, hd_GasUsed = 0,
     hd_Time = 0, hd_Extra = CExtra 0, hd_MixDigest = TendermintDigest, hd_Nonce = TendermintEmptyNonce,
     hd_MainChainNumber = None\<rparr>"

definition demo_cross :: "(bool list option, chainBlob) crossEnv" where
  "demo_cross = \<lparr>xe_ext = demo_ext, xe_codec = demo_sideCodec, xe_chainWire = demo_chainWire,
     xe_DecodeProofData = (\<lambda>b. Some demo_sideHeader), xe_VerifyProof = (\<lambda>h i v. None), xe_DecodeTransaction = (\<lambda>b. None),
     xe_Sender = (\<lambda>t. None), xe_FunctionTypeFromId = (\<lambda>b. None), xe_UnpackWithdrawFromMainChain = (\<lambda>b. None),
     xe_UnpackWithdrawFromSideChain = (\<lambda>b. None)\<rparr>"

definition demo_sideDB :: "chainBlob edb" where
  "demo_sideDB = SaveChainInfo demo_chainWire \<lparr>ci_core = demo_cci,
     ci_Epoch = Some (Epoch ((demo_fields 1)\<lparr>ef_StartBlock := 0, ef_Validators := demo_validators\<rparr>) None None None None)\<rparr> Map.empty"

lemma demo_proof_accepted: "VerifySideChainProofData demo_cross demo_sideDB [] = Ret None"
  by code_simp


end
