(* ===== verification/Engine.thy ===== *)
theory Engine
  imports Side_Chain_Theorems
begin

text \<open>
  The consensus engine as the chain uses it, \<open>chain/consensus/tendermint/engine.go\<close>: verification of headers,
  preparation and finalisation of blocks, and what becomes of a block that the consensus has committed. The
  clock, the readings of variables that other goroutines change while a header waits, hashes and encodings
  are parameters.
\<close>

section \<open>Configuration of a chain\<close>

record chainConfig =
  cfg_LigoChainId :: string
  cfg_HomesteadBlock :: "int option"
  cfg_EIP158Block :: "int option"
  cfg_ByzantiumBlock :: "int option"

definition isForked :: "int option \<Rightarrow> int option \<Rightarrow> bool" where
  "isForked s head = (case (s, head) of (Some x, Some h) \<Rightarrow> x \<le> h | _ \<Rightarrow> False)"

definition IsHomestead :: "chainConfig \<Rightarrow> int option \<Rightarrow> bool" where
  "IsHomestead c num = isForked (cfg_HomesteadBlock c) num"

definition IsEIP158 :: "chainConfig \<Rightarrow> int option \<Rightarrow> bool" where
  "IsEIP158 c num = isForked (cfg_EIP158Block c) num"

definition IsByzantium :: "chainConfig \<Rightarrow> int option \<Rightarrow> bool" where
  "IsByzantium c num = isForked (cfg_ByzantiumBlock c) num"

definition IsMainChain :: "chainConfig \<Rightarrow> bool" where
  "IsMainChain c = isMainChainId (cfg_LigoChainId c)"

section \<open>Receipts and blocks\<close>

record receipt =
  rc_PostState :: bytes
  rc_Status :: u64
  rc_CumulativeGasUsed :: u64
  rc_Bloom :: bytes
  rc_Logs :: "log list"
  rc_TxHash :: hash
  rc_ContractAddress :: address
  rc_GasUsed :: u64
  rc_BlockHash :: hash
  rc_BlockNumber :: "int option"
  rc_TransactionIndex :: int

text \<open>
  \<open>en_Epoch i\<close> is the epoch of the consensus at the \<open>i\<close>-th reading while a header is verified, and
  \<open>en_MainChainHeight i\<close> the height of the main chain.
\<close>

record ('b, 'v) engineEnv =
  en_cons :: "('b, 'v) consEnv"
  en_config :: chainConfig
  en_chainWire :: "'v chainWire"
  en_chainInfoDB :: "'v edb"
  en_now :: int
  en_Epoch :: "nat \<Rightarrow> epoch"
  en_MainChainHeight :: "nat \<Rightarrow> int"
  en_sort :: "validator list \<Rightarrow> validator list"
  en_rootHash :: "accountTrie \<Rightarrow> hash"
  en_DeriveShaTx :: "transaction list \<Rightarrow> hash"
  en_DeriveShaReceipts :: "receipt list \<Rightarrow> hash"
  en_CreateBloom :: "receipt list \<Rightarrow> bytes"
  en_EmptyRootHash :: hash
  en_CalcUncleHash :: "'v header list \<Rightarrow> hash"
  en_nilExtra :: 'v
  en_bytesOf :: "'v \<Rightarrow> bytes"

definition NewBlock :: "('b, 'v) engineEnv \<Rightarrow> 'v header \<Rightarrow> transaction list \<Rightarrow> 'v header list \<Rightarrow> receipt list
    \<Rightarrow> 'v ligoBlock" where
  "NewBlock env header txs uncles receipts =
     (let h = CopyHeader header;
          h = h\<lparr>hd_TxHash := (if txs = [] then en_EmptyRootHash env else en_DeriveShaTx env txs)\<rparr>;
          h = (if receipts = [] then h\<lparr>hd_ReceiptHash := en_EmptyRootHash env\<rparr>
               else h\<lparr>hd_ReceiptHash := en_DeriveShaReceipts env receipts, hd_Bloom := en_CreateBloom env receipts\<rparr>);
          h = h\<lparr>hd_UncleHash := (if uncles = [] then nilUncleHash (ce_codec (en_cons env))
                                 else en_CalcUncleHash env uncles)\<rparr>
      in \<lparr>lb_header = h, lb_uncles = map CopyHeader uncles, lb_transactions = txs\<rparr>)"

definition StateDB_IntermediateRoot :: "(accountTrie \<Rightarrow> hash) \<Rightarrow> bool \<Rightarrow> stateDB \<Rightarrow> (hash \<times> stateDB) go" where
  "StateDB_IntermediateRoot rootHash deleteEmptyObjects s =
     bindGo (StateDB_Finalise deleteEmptyObjects s) (\<lambda>s. Ret (rootHash (sdb_trie s), s))"

section \<open>Verification of headers\<close>

datatype engineErr = errUnknownBlock | errInvalidDifficulty | errInvalidExtraDataFormat | errInvalidMixDigest
  | errInvalidNonce | errInvalidUncleHash | errInconsistentValidatorSet | errInvalidCommittedSeals
  | errInvalidSignature | errInvalidMainChainNumber | errMainChainNotCatchup | ErrUnknownAncestor

definition Author :: "'v header \<Rightarrow> address" where
  "Author header = hd_Coinbase header"

text \<open>The fields with fixed values.\<close>

definition headerFieldErr :: "('b, 'v) engineEnv \<Rightarrow> 'v header \<Rightarrow> engineErr option" where
  "headerFieldErr env header =
     (if hd_Nonce header \<noteq> TendermintEmptyNonce \<and> hd_Nonce header \<noteq> TendermintNonce then Some errInvalidNonce
      else if hd_MixDigest header \<noteq> TendermintDigest then Some errInvalidMixDigest
      else if hd_UncleHash header \<noteq> nilUncleHash (ce_codec (en_cons env)) then Some errInvalidUncleHash
      else if hd_Difficulty header \<noteq> Some TendermintDefaultDifficulty then Some errInvalidDifficulty
      else None)"

text \<open>The result is \<open>None\<close> where a search for an epoch or a waiting loop does not end.\<close>

definition verifyCommittedSeals :: "('b, 'v) engineEnv \<Rightarrow> epoch \<Rightarrow> 'v header \<Rightarrow> engineErr option go option" where
  "verifyCommittedSeals env ep header =
     (let c = ce_codec (en_cons env) in
      case ExtractTendermintExtra (ce_wire (en_cons env)) c header of
        None \<Rightarrow> Some (Ret (Some errInvalidExtraDataFormat))
      | Some ncExtra \<Rightarrow>
          (case hd_Number header of
             None \<Rightarrow> Some (Panic ''nil pointer dereference'')
           | Some number \<Rightarrow>
               (case GetEpochByBlockNumber (ce_wire (en_cons env)) (ce_epochDB (en_cons env)) (of_int number) ep of
                  None \<Rightarrow> None
                | Some None \<Rightarrow> Some (Ret (Some errInconsistentValidatorSet))
                | Some (Some epoch) \<Rightarrow>
                    if ValidatorSet_Hash c (ep_Validators epoch) \<noteq> te_ValidatorsHash ncExtra
                    then Some (Ret (Some errInconsistentValidatorSet))
                    else (case te_SeenCommit ncExtra of
                        None \<Rightarrow> Some (Panic ''nil pointer dereference'')
                      | Some seenCommit \<Rightarrow>
                          if te_SeenCommitHash ncExtra \<noteq> SimpleHashFromBinary c seenCommit
                          then Some (Ret (Some errInvalidCommittedSeals))
                          else Some (bindGo (ValidatorSet_VerifyCommit (ce_ext (en_cons env)) (ep_Validators epoch)
                                 (te_ChainID ncExtra) (te_Height ncExtra) (Some seenCommit))
                               (\<lambda>err. Ret (if err \<noteq> None then Some errInvalidSignature else None)))))))"

definition verifyCascadingFields :: "('b, 'v) engineEnv \<Rightarrow> epoch \<Rightarrow> 'v header \<Rightarrow> 'v header list
    \<Rightarrow> engineErr option go option" where
  "verifyCascadingFields env ep header parents =
     (case hd_Number header of
        None \<Rightarrow> Some (Panic ''nil pointer dereference'')
      | Some n \<Rightarrow>
          (let number = of_int n :: u64 in
           if number = 0 then Some (Ret None)
           else
             (case (if parents \<noteq> [] then Some (last parents)
                    else cr_GetHeader (ce_chain (en_cons env)) (hd_ParentHash header) (number - 1)) of
                None \<Rightarrow> Some (Ret (Some ErrUnknownAncestor))
              | Some parent \<Rightarrow>
                  (case hd_Number parent of
                     None \<Rightarrow> Some (Panic ''nil pointer dereference'')
                   | Some pn \<Rightarrow>
                       if of_int pn \<noteq> number - 1 \<or> Header_Hash (ce_codec (en_cons env)) parent \<noteq> hd_ParentHash header
                       then Some (Ret (Some ErrUnknownAncestor))
                       else verifyCommittedSeals env ep header))))"

text \<open>A header of a later epoch waits until the consensus has entered that epoch.\<close>

partial_function (option) waitEpoch :: "(nat \<Rightarrow> epoch) \<Rightarrow> u64 \<Rightarrow> nat \<Rightarrow> nat option" where
  "waitEpoch eps number i = (if number \<le> ep_EndBlock (eps i) then Some i else waitEpoch eps number (Suc i))"

text \<open>The main chain is read up to eleven times.\<close>

function mainChainReached :: "(nat \<Rightarrow> int) \<Rightarrow> int \<Rightarrow> nat \<Rightarrow> bool" where
  "mainChainReached heights number tried = (if number \<le> heights tried then True
     else if 10 \<le> tried then False else mainChainReached heights number (tried + 1))"
  by auto
termination by (relation "measure (\<lambda>(heights, number, tried). 10 - tried)") auto

declare mainChainReached.simps [simp del]

definition verifyHeader :: "('b, 'v) engineEnv \<Rightarrow> 'v header \<Rightarrow> 'v header list \<Rightarrow> engineErr option go option" where
  "verifyHeader env header parents =
     (case hd_Number header of
        None \<Rightarrow> Some (Ret (Some errUnknownBlock))
      | Some n \<Rightarrow>
          if ExtractTendermintExtra (ce_wire (en_cons env)) (ce_codec (en_cons env)) header = None
          then Some (Ret (Some errInvalidExtraDataFormat))
          else (case headerFieldErr env header of
              Some e \<Rightarrow> Some (Ret (Some e))
            | None \<Rightarrow>
                (case waitEpoch (en_Epoch env) (of_int n) 0 of
                   None \<Rightarrow> None
                 | Some i \<Rightarrow>
                     map_option (\<lambda>r. bindGo r (\<lambda>fieldError. case fieldError of
                         Some e \<Rightarrow> Ret (Some e)
                       | None \<Rightarrow>
                           if IsMainChain (en_config env) then Ret None
                           else (case hd_MainChainNumber header of
                               None \<Rightarrow> Ret (Some errInvalidMainChainNumber)
                             | Some m \<Rightarrow> Ret (if mainChainReached (en_MainChainHeight env) m 0 then None
                                               else Some errMainChainNotCatchup))))
                       (verifyCascadingFields env (en_Epoch env i) header parents))))"

definition VerifyHeader :: "('b, 'v) engineEnv \<Rightarrow> 'v header \<Rightarrow> bool \<Rightarrow> engineErr option go option" where
  "VerifyHeader env header sealed = verifyHeader env header []"

text \<open>What \<open>VerifyHeaders\<close> sends to its channel of results, in order.\<close>

definition VerifyHeaders :: "('b, 'v) engineEnv \<Rightarrow> 'v header list \<Rightarrow> engineErr option go option list" where
  "VerifyHeaders env headers = map (\<lambda>i. verifyHeader env (headers ! i) (take i headers)) [0..<length headers]"

definition VerifyHeaderBeforeConsensus :: "('b, 'v) engineEnv \<Rightarrow> 'v header \<Rightarrow> bool \<Rightarrow> engineErr option" where
  "VerifyHeaderBeforeConsensus env header sealed =
     (if hd_Number header = None then Some errUnknownBlock else headerFieldErr env header)"

definition VerifyUncles :: "'v ligoBlock \<Rightarrow> engineErr option" where
  "VerifyUncles block = (if 0 < length (lb_uncles block) then Some errInvalidUncleHash else None)"

definition VerifySeal :: "'v header \<Rightarrow> engineErr option go" where
  "VerifySeal header = (case (hd_Number header, hd_Difficulty header) of
     (Some n, d) \<Rightarrow>
       if (of_int n :: u64) = 0 then Ret (Some errUnknownBlock)
       else (case d of None \<Rightarrow> Panic ''nil pointer dereference''
         | Some x \<Rightarrow> Ret (if x \<noteq> TendermintDefaultDifficulty then Some errInvalidDifficulty else None))
   | (None, d) \<Rightarrow> Panic ''nil pointer dereference'')"

section \<open>Preparing, finalising and sealing blocks\<close>

definition prepareExtra :: "('b, 'v) engineEnv \<Rightarrow> 'v header \<Rightarrow> 'v header \<times> 'v" where
  "prepareExtra env header = (header\<lparr>hd_Extra := MagicExtra (ce_codec (en_cons env))\<rparr>, en_nilExtra env)"

text \<open>\<open>prepareExtra\<close> returns nil, which overwrites the extra data that it has set.\<close>

definition Engine_Prepare :: "('b, 'v) engineEnv \<Rightarrow> 'v header \<Rightarrow> (engineErr option \<times> 'v header) go" where
  "Engine_Prepare env header =
     (let header = header\<lparr>hd_Nonce := TendermintEmptyNonce, hd_MixDigest := TendermintDigest\<rparr> in
      case hd_Number header of
        None \<Rightarrow> Panic ''nil pointer dereference''
      | Some n \<Rightarrow>
          (case cr_GetHeader (ce_chain (en_cons env)) (hd_ParentHash header) (of_int n - 1) of
             None \<Rightarrow> Ret (Some ErrUnknownAncestor, header)
           | Some parent \<Rightarrow>
               (let header = header\<lparr>hd_Difficulty := Some TendermintDefaultDifficulty\<rparr>;
                    (header, extra) = prepareExtra env header;
                    header = header\<lparr>hd_Extra := extra\<rparr>;
                    header = header\<lparr>hd_Time := en_now env\<rparr>
                in Ret (None, if IsMainChain (en_config env) then header
                          else header\<lparr>hd_MainChainNumber := Some (en_MainChainHeight env 0)\<rparr>))))"

definition Engine_Finalize :: "('b, 'v) engineEnv \<Rightarrow> 'v header \<Rightarrow> transaction list \<Rightarrow> int \<Rightarrow> receipt list
    \<Rightarrow> stateDB \<Rightarrow> pendingOp list \<Rightarrow> ('v ligoBlock \<times> stateDB \<times> pendingOp list) go" where
  "Engine_Finalize env header txs totalGasFee receipts s ops =
     (case hd_Number header of
        None \<Rightarrow> Panic ''nil pointer dereference''
      | Some n \<Rightarrow>
          bindGo (if IsMainChain (en_config env)
              then bindGo (GetSideChainForLaunch (en_chainWire env) (en_chainInfoDB env) n s)
                (\<lambda>(readyId, updateBytes, removedId, s).
                  Ret (s, if readyId \<noteq> [] \<or> updateBytes \<noteq> None \<or> removedId \<noteq> []
                    then fst (PendingOps_Append ops (LaunchSideChainsOp readyId (map_option (en_bytesOf env) updateBytes) removedId))
                    else ops))
              else Ret (s, ops)) (\<lambda>(s, ops).
          case GetEpochByBlockNumber (ce_wire (en_cons env)) (ce_epochDB (en_cons env)) (of_int n) (en_Epoch env 0) of
            None \<Rightarrow> Panic ''no result''
          | Some epoch \<Rightarrow>
              bindGo (accumulateRewards (cfg_LigoChainId (en_config env)) (hd_Coinbase header) epoch totalGasFee s) (\<lambda>s.
              case epoch of
                None \<Rightarrow> Panic ''nil pointer dereference''
              | Some ep \<Rightarrow>
                  bindGo (ShouldEnterNewEpoch (ce_wire (en_cons env)) (en_sort env) (ce_epochDB (en_cons env)) (of_int n) ep s)
                    (\<lambda>(ok, newValidators, err, ep, s).
                  let ops = (case (ok, newValidators) of
                        (True, Some vs) \<Rightarrow> fst (PendingOps_Append ops (SwitchEpochOp (cfg_LigoChainId (en_config env)) vs))
                      | _ \<Rightarrow> ops)
                  in bindGo (StateDB_IntermediateRoot (en_rootHash env) (IsEIP158 (en_config env) (hd_Number header)) s) (\<lambda>(root, s).
                     Ret (NewBlock env (header\<lparr>hd_Root := root, hd_UncleHash := nilUncleHash (ce_codec (en_cons env))\<rparr>)
                            txs [] receipts, s, ops))))))"

definition writeSeal :: "('b, 'v) engineEnv \<Rightarrow> 'v header \<Rightarrow> 'v header" where
  "writeSeal env h = h\<lparr>hd_Extra := MagicExtra (ce_codec (en_cons env))\<rparr>"

definition updateBlock :: "('b, 'v) engineEnv \<Rightarrow> 'v ligoBlock \<Rightarrow> 'v ligoBlock" where
  "updateBlock env block = Block_WithSeal (writeSeal env (CopyHeader (lb_header block))) block"

definition writeCommittedSeals :: "('b, 'v) engineEnv \<Rightarrow> ('b, 'v) tendermintExtra \<Rightarrow> 'v header \<Rightarrow> 'v header" where
  "writeCommittedSeals env ncExtra h = h\<lparr>hd_Extra := ExtraBytes (ce_codec (en_cons env)) ncExtra\<rparr>"

text \<open>Where a committed block is sent.\<close>

datatype 'v commitTarget = CommitCh "'v ligoBlock" | VCommitCh "'v ligoBlock" | Fetcher "'v ligoBlock" | Dropped

definition Engine_Commit :: "('b, 'v) engineEnv \<Rightarrow> hash \<Rightarrow> bool \<Rightarrow> ('b, 'v) ncBlock \<Rightarrow> bool \<Rightarrow> 'v commitTarget go" where
  "Engine_Commit env proposedBlockHash hasBroadcaster proposal isProposer =
     (case nb_NTCExtra proposal of
        None \<Rightarrow> Panic ''nil pointer dereference''
      | Some ncExtra \<Rightarrow>
          (let block = nb_Block proposal;
               h = writeCommittedSeals env ncExtra (CopyHeader (lb_header block));
               block = Block_WithSeal h block
           in Ret (if isProposer \<and> proposedBlockHash = Block_Hash (ce_codec (en_cons env)) block then CommitCh block
                   else if nb_IntermediateResult proposal then VCommitCh block
                   else if hasBroadcaster then Fetcher block else Dropped)))"

definition CalcDifficulty :: int where
  "CalcDifficulty = TendermintDefaultDifficulty"

definition Engine_GetEpoch :: "('b, 'v) consensusState \<Rightarrow> epoch" where
  "Engine_GetEpoch cs = cs_Epoch cs"

definition PrivateValidator :: "privValidator option \<Rightarrow> address" where
  "PrivateValidator pv = (case pv of Some p \<Rightarrow> pv_Address p | None \<Rightarrow> BytesToAddress [])"

end
