(* ===== verification/Engine_Theorems.thy ===== *)
theory Engine_Theorems
  imports Engine Consensus_Theorems
begin

text \<open>
  What the verification of headers guarantees, and that the seal that the consensus writes into a block it
  has committed passes this verification at other nodes.
\<close>

section \<open>Waiting\<close>

lemma waitEpoch_reached: "waitEpoch eps n i = Some j \<Longrightarrow> n \<le> ep_EndBlock (eps j)"
  by (rule waitEpoch.raw_induct [where P = "\<lambda>eps n i j. n \<le> ep_EndBlock (eps j)"]) (auto split: if_splits)

lemma waitEpoch_ends:
  assumes "n \<le> ep_EndBlock (eps (i + k))"
  shows "\<exists>j \<le> i + k. waitEpoch eps n i = Some j"
  using assms
proof (induction k arbitrary: i)
  case 0
  then show ?case by (subst waitEpoch.simps) auto
next
  case (Suc k)
  then show ?case using Suc.IH [of "Suc i"] by (subst waitEpoch.simps) auto
qed

lemma mainChainReached_iff: "mainChainReached heights m t \<longleftrightarrow> (\<exists>k. t \<le> k \<and> k \<le> max t 10 \<and> m \<le> heights k)"
proof (induction heights m t rule: mainChainReached.induct)
  case (1 heights m t)
  show ?case
  proof (cases "m \<le> heights t \<or> 10 \<le> t")
    case True
    then show ?thesis by (subst mainChainReached.simps) (auto simp: max_def)
  next
    case False
    have "(\<exists>k. t \<le> k \<and> k \<le> 10 \<and> m \<le> heights k) \<longleftrightarrow> (\<exists>k. t + 1 \<le> k \<and> k \<le> 10 \<and> m \<le> heights k)"
      using False by (metis Suc_eq_plus1 Suc_leD not_less_eq_eq le_antisym)
    then show ?thesis using 1 False by (subst mainChainReached.simps) (simp add: max_def)
  qed
qed

section \<open>Headers\<close>

text \<open>The seal of a header: a commit of the validators of its epoch.\<close>

definition sealedBy :: "('b, 'v) engineEnv \<Rightarrow> validatorSet \<Rightarrow> ('b, 'v) tendermintExtra \<Rightarrow> 'b commit \<Rightarrow> bool" where
  "sealedBy env vals te c \<longleftrightarrow> te_SeenCommit te = Some c \<and> cm_Height c = te_Height te \<and>
     ValidatorSet_Hash (ce_codec (en_cons env)) vals = te_ValidatorsHash te \<and>
     (\<exists>pk. ValidatorSet_AggrPubKey (ce_ext (en_cons env)) vals (cm_BitArray c) = Some pk \<and>
        VerifyBytes (ce_ext (en_cons env)) pk (Vote_SignBytes (ce_ext (en_cons env)) (te_ChainID te)
          (aggregatedVote (cm_BlockID c) (te_Height te) (cm_Round c) VoteTypePrecommit)) (cm_SignAggr c)) \<and>
     Loose23MajorThreshold (totalPower (vs_Validators vals)) (cm_Round c)
       \<le> powerOf (vs_Validators vals) (bitsOf (ce_ext (en_cons env)) (cm_BitArray c))"

lemma committedSeals_cases:
  assumes "verifyCommittedSeals env ep h = Some (Ret None)" "hd_Number h = Some n"
  obtains te epoch c where "ExtractTendermintExtra (ce_wire (en_cons env)) (ce_codec (en_cons env)) h = Some te"
    "GetEpochByBlockNumber (ce_wire (en_cons env)) (ce_epochDB (en_cons env)) (of_int n) ep = Some (Some epoch)"
    "sealedBy env (ep_Validators epoch) te c"
proof -
  let ?w = "ce_wire (en_cons env)" and ?c = "ce_codec (en_cons env)"
  note run = assms(1) [unfolded verifyCommittedSeals_def Let_def assms(2) option.case]
  obtain te where te: "ExtractTendermintExtra ?w ?c h = Some te"
    using run by (cases "ExtractTendermintExtra ?w ?c h") simp_all
  note run = run [unfolded te option.case]
  obtain epoch where ep: "GetEpochByBlockNumber ?w (ce_epochDB (en_cons env)) (of_int n) ep = Some (Some epoch)"
    using run by (auto split: option.splits)
  note run = run [unfolded ep option.case]
  obtain c where c: "te_SeenCommit te = Some c" using run by (auto split: option.splits if_splits)
  have "ValidatorSet_Hash ?c (ep_Validators epoch) = te_ValidatorsHash te"
    "ValidatorSet_VerifyCommit (ce_ext (en_cons env)) (ep_Validators epoch) (te_ChainID te) (te_Height te) (Some c) = Ret None"
    using run c by (auto simp: bindGo_Ret_iff split: if_splits)
  then have "sealedBy env (ep_Validators epoch) te c"
    unfolding sealedBy_def VerifyCommit_accepts_iff commit_quorum_def using c by blast
  from that [OF te ep this] show thesis .
qed

lemma cascading_cases:
  assumes "verifyCascadingFields env ep h parents = Some (Ret None)" "hd_Number h = Some n" "(of_int n :: u64) \<noteq> 0"
  obtains parent pn where "(if parents \<noteq> [] then Some (last parents)
      else cr_GetHeader (ce_chain (en_cons env)) (hd_ParentHash h) (of_int n - 1)) = Some parent"
    "hd_Number parent = Some pn" "(of_int pn :: u64) = of_int n - 1"
    "Header_Hash (ce_codec (en_cons env)) parent = hd_ParentHash h" "verifyCommittedSeals env ep h = Some (Ret None)"
proof -
  let ?p = "if parents \<noteq> [] then Some (last parents)
      else cr_GetHeader (ce_chain (en_cons env)) (hd_ParentHash h) (of_int n - 1)"
  note run = assms(1) [unfolded verifyCascadingFields_def Let_def assms(2) option.case if_not_P [OF assms(3)]]
  obtain parent where p: "?p = Some parent" using run by (cases ?p) simp_all
  note run = run [unfolded p option.case]
  obtain pn where pn: "hd_Number parent = Some pn" using run by (cases "hd_Number parent") simp_all
  show thesis using run pn by (intro that [OF p pn]) (auto split: if_splits)
qed

lemma verifyHeader_cases:
  assumes "verifyHeader env h parents = Some (Ret None)"
  obtains n i where "hd_Number h = Some n" "headerFieldErr env h = None"
    "of_int n \<le> ep_EndBlock (en_Epoch env i)"
    "verifyCascadingFields env (en_Epoch env i) h parents = Some (Ret None)"
    "IsMainChain (en_config env) \<or> (\<exists>m. hd_MainChainNumber h = Some m \<and> mainChainReached (en_MainChainHeight env) m 0)"
proof -
  obtain n where n: "hd_Number h = Some n" using assms by (cases "hd_Number h") (simp_all add: verifyHeader_def)
  note run = assms [unfolded verifyHeader_def n option.case]
  have f: "headerFieldErr env h = None" using run by (auto split: if_splits option.splits)
  have x: "ExtractTendermintExtra (ce_wire (en_cons env)) (ce_codec (en_cons env)) h \<noteq> None"
    using run by (auto split: if_splits)
  note run = run [unfolded f option.case if_not_P [OF x]]
  obtain i where i: "waitEpoch (en_Epoch env) (of_int n) 0 = Some i"
    using run by (cases "waitEpoch (en_Epoch env) (of_int n) 0") simp_all
  note run = run [unfolded i option.case]
  obtain r where r: "verifyCascadingFields env (en_Epoch env i) h parents = Some (Ret r)"
    using run by (auto simp: bindGo_Ret_iff)
  note run = run [unfolded r option.map option.inject bindGo.simps]
  have "r = None" using run by (cases r) simp_all
  with run r show thesis
    by (intro that [OF n f waitEpoch_reached [OF i]]) (auto split: if_splits option.splits)
qed


text \<open>
  The commit is not compared with the header: a header with another content (state, transactions, receipts,
  proposer, gas) is accepted with the same seal.
\<close>

lemma header_content_unbound:
  "verifyHeader env (h\<lparr>hd_Root := r, hd_TxHash := t, hd_ReceiptHash := rr, hd_Bloom := bl, hd_Coinbase := cb,
     hd_GasLimit := gl, hd_GasUsed := gu\<rparr>) parents = verifyHeader env h parents"
proof -
  let ?h = "h\<lparr>hd_Root := r, hd_TxHash := t, hd_ReceiptHash := rr, hd_Bloom := bl, hd_Coinbase := cb,
     hd_GasLimit := gl, hd_GasUsed := gu\<rparr>"
  have x: "ExtractTendermintExtra (ce_wire (en_cons env)) (ce_codec (en_cons env)) ?h
      = ExtractTendermintExtra (ce_wire (en_cons env)) (ce_codec (en_cons env)) h"
    by (simp add: ExtractTendermintExtra_def)
  have f: "headerFieldErr env ?h = headerFieldErr env h" by (simp add: headerFieldErr_def)
  have n: "hd_Number ?h = hd_Number h" "hd_ParentHash ?h = hd_ParentHash h" "hd_MainChainNumber ?h = hd_MainChainNumber h"
    by simp_all
  have s: "verifyCommittedSeals env ep ?h = verifyCommittedSeals env ep h" for ep
    unfolding verifyCommittedSeals_def Let_def x n by (rule refl)
  have c: "verifyCascadingFields env ep ?h parents = verifyCascadingFields env ep h parents" for ep
    unfolding verifyCascadingFields_def s n by (rule refl)
  show ?thesis unfolding verifyHeader_def x f n c by (rule refl)
qed

section \<open>Committed blocks\<close>

definition targetBlock :: "'v commitTarget \<Rightarrow> 'v ligoBlock option" where
  "targetBlock t = (case t of CommitCh b \<Rightarrow> Some b | VCommitCh b \<Rightarrow> Some b | Fetcher b \<Rightarrow> Some b | Dropped \<Rightarrow> None)"

lemma Commit_block:
  assumes "Engine_Commit env ph bc b p = Ret t" "targetBlock t = Some blk"
  obtains te where "nb_NTCExtra b = Some te"
    "blk = Block_WithSeal (writeCommittedSeals env te (CopyHeader (lb_header (nb_Block b)))) (nb_Block b)"
  using assms by (cases "nb_NTCExtra b") (auto simp: Engine_Commit_def Let_def targetBlock_def split: if_splits)

lemma CopyHeader_idem: "CopyHeader (CopyHeader h) = CopyHeader h"
  by (simp add: CopyHeader_def)

text \<open>The seal is not part of the hash of a block.\<close>

lemma seal_keeps_hash:
  assumes "hd_MixDigest h = TendermintDigest"
  shows "Header_Hash c ((CopyHeader h)\<lparr>hd_Extra := x\<rparr>) = Header_Hash c h"
  using assms by (simp add: Header_Hash_def TendermintFilteredHeader_def CopyHeader_def)


section \<open>Instances\<close>

definition demo_config :: chainConfig where
  "demo_config = \<lparr>cfg_LigoChainId = ''ligochain'', cfg_HomesteadBlock = Some 0, cfg_EIP158Block = Some 0, cfg_ByzantiumBlock = Some 0\<rparr>"

definition demo_engineOf :: "(bool list option, 'v) consEnv \<Rightarrow> 'v chainWire \<Rightarrow> 'v \<Rightarrow> epoch \<Rightarrow> (bool list option, 'v) engineEnv" where
  "demo_engineOf cons w nilExtra ep = \<lparr>en_cons = cons, en_config = demo_config, en_chainWire = w, en_chainInfoDB = Map.empty,
     en_now = 0, en_Epoch = (\<lambda>_. ep), en_MainChainHeight = (\<lambda>_. 0), en_sort = (\<lambda>vs. vs), en_rootHash = (\<lambda>t. []),
     en_DeriveShaTx = (\<lambda>t. []), en_DeriveShaReceipts = (\<lambda>r. []), en_CreateBloom = (\<lambda>r. []), en_EmptyRootHash = [],
     en_CalcUncleHash = (\<lambda>h. []), en_nilExtra = nilExtra, en_bytesOf = (\<lambda>v. [])\<rparr>"

text \<open>A header of block 5 with its parent, sealed by three of four validators.\<close>

definition demo_parent :: "chainBlob header" where
  "demo_parent = demo_sideHeader\<lparr>hd_Number := Some 4\<rparr>"

definition demo_child :: "chainBlob header" where
  "demo_child = demo_sideHeader\<lparr>hd_ParentHash := [3]\<rparr>"

definition demo_cons :: "(bool list option, chainBlob) consEnv" where
  "demo_cons = \<lparr>ce_ext = demo_ext, ce_nilBits = None, ce_wire = cw_wire demo_chainWire, ce_codec = demo_sideCodec,
     ce_sha256 = (\<lambda>b. b),
     ce_chain = \<lparr>cr_CurrentHeader = demo_parent, cr_GetHeaderByNumber = (\<lambda>_. None),
       cr_CurrentBlock = \<lparr>lb_header = demo_parent, lb_uncles = [], lb_transactions = []\<rparr>, cr_GetBlockByNumber = (\<lambda>_. None),
       cr_GetHeader = (\<lambda>h n. if n = 4 then Some demo_parent else None), cr_ValidateBlock = None\<rparr>,
     ce_epochDB = Map.empty, ce_zone = 0, ce_now = 0, ce_LigoChainId = ''ligochain'', ce_NodeID = ''node'',
     ce_timeoutParams = ce_timeoutParams demo_env, ce_ChainContractMagicAddr = [], ce_FunctionTypeFromId = (\<lambda>_. None),
     ce_UnpackWithdrawFromMainChain = (\<lambda>_. None), ce_GetTX3ProofData = (\<lambda>_ _. None),
     ce_ValidateTX3ProofData = (\<lambda>_. True), ce_ValidateTX4 = (\<lambda>_ _. True)\<rparr>"

definition demo_engine :: "(bool list option, chainBlob) engineEnv" where
  "demo_engine = demo_engineOf demo_cons demo_chainWire (CString []) demo_firstEpoch"

lemma demo_header_accepted: "verifyHeader demo_engine demo_child [] = Some (Ret None)"
proof -
  have w: "waitEpoch (en_Epoch demo_engine) 5 0 = Some 0"
    by (subst waitEpoch.simps) (simp add: demo_engine_def demo_engineOf_def demo_firstEpoch_def)
  have "headerFieldErr demo_engine demo_child = None" by code_simp
  moreover have "ExtractTendermintExtra (ce_wire (en_cons demo_engine)) (ce_codec (en_cons demo_engine)) demo_child \<noteq> None"
    by code_simp
  moreover have "verifyCascadingFields demo_engine (en_Epoch demo_engine 0) demo_child [] = Some (Ret None)" by code_simp
  moreover have "IsMainChain (en_config demo_engine)" by code_simp
  moreover have "hd_Number demo_child = Some 5" by code_simp
  ultimately show ?thesis using w by (simp add: verifyHeader_def)
qed


definition demo_blobWire :: "blob chainWire" where
  "demo_blobWire = \<lparr>cw_wire = demo_wire, CoreBytes = (\<lambda>_. StringBlob []), ReadCorePtr = (\<lambda>_. None), ReadCore = (\<lambda>_. demo_cci),
     IdxBytes = (\<lambda>_. StringBlob []), ReadIdx = (\<lambda>_. [])\<rparr>"

definition demo_node_engine :: "(bool list option, blob) engineEnv" where
  "demo_node_engine = demo_engineOf demo_env demo_blobWire (StringBlob []) demo_firstEpoch"

text \<open>The block that the node of the example commits is handed on and its seal is accepted.\<close>

lemma demo_committed:
  "list_all (\<lambda>e. case e of CommitBlock b p \<Rightarrow> (case Engine_Commit demo_node_engine [] True b p of
       Ret (Fetcher blk) \<Rightarrow> Block_NumberU64 (nb_Block b) = 1
         \<and> verifyCommittedSeals demo_node_engine demo_firstEpoch (lb_header blk) = Some (Ret None)
     | _ \<Rightarrow> False) | _ \<Rightarrow> True) (added demo_received (demo_majority VoteTypePrecommit))"
  by code_simp


end
