(* ===== verification/Transactions.thy ===== *)
theory Transactions
  imports Engine_Theorems
begin

text \<open>
  The execution of transactions and blocks: \<open>gaspool.go\<close>, \<open>state_transition.go\<close>, \<open>ligo_state_transition.go\<close>,
  \<open>ligo_state_processor.go\<close>, \<open>state_processor.go\<close> and \<open>evm.go\<close> of \<open>chain/core\<close>, with the calls and contract
  creations of \<open>chain/core/vm/evm.go\<close>. The loop of the interpreter over the instructions of a contract, the
  precompiled contracts, hashes and the recovery of the sender of a transaction are parameters.
\<close>

section \<open>Gas pool\<close>

text \<open>The pool is a \<open>uint64\<close>.\<close>

definition GasPool_AddGas :: "u64 \<Rightarrow> u64 \<Rightarrow> u64 go" where
  "GasPool_AddGas amount gp = (if - 1 - amount < gp then Panic ''gas pool pushed above uint64'' else Ret (gp + amount))"

definition GasPool_SubGas :: "u64 \<Rightarrow> u64 \<Rightarrow> u64 option" where
  "GasPool_SubGas amount gp = (if gp < amount then None else Some (gp - amount))"

section \<open>The virtual machine\<close>

datatype vmErr = ErrOutOfGas | ErrCodeStoreOutOfGas | ErrDepth | ErrInsufficientBalance
  | ErrContractAddressCollision | ErrExecutionReverted | ErrMaxCodeSizeExceeded | ErrInterpreter string

record contract =
  ct_CallerAddress :: address
  ct_self :: address
  ct_Code :: "bytes option"
  ct_CodeHash :: hash
  ct_CodeAddr :: "address option"
  ct_Gas :: u64
  ct_value :: int

definition NewContract :: "address \<Rightarrow> address \<Rightarrow> int \<Rightarrow> u64 \<Rightarrow> contract" where
  "NewContract caller object value gas = \<lparr>ct_CallerAddress = caller, ct_self = object, ct_Code = None,
     ct_CodeHash = zeroHash, ct_CodeAddr = None, ct_Gas = gas, ct_value = value\<rparr>"

definition Contract_UseGas :: "u64 \<Rightarrow> contract \<Rightarrow> contract \<times> bool" where
  "Contract_UseGas gas c = (if ct_Gas c < gas then (c, False) else (c\<lparr>ct_Gas := ct_Gas c - gas\<rparr>, True))"

definition Contract_SetCallCode :: "address \<Rightarrow> hash \<Rightarrow> bytes option \<Rightarrow> contract \<Rightarrow> contract" where
  "Contract_SetCallCode addr h code c = c\<lparr>ct_Code := code, ct_CodeHash := h, ct_CodeAddr := Some addr\<rparr>"

text \<open>
  A precompiled contract has a price and a function; the interpreter returns the output, the error, the
  contract with the gas that is left, and the state.
\<close>

type_synonym vmResult = "bytes \<times> vmErr option \<times> contract \<times> stateDB"

record evmContext =
  cx_Origin :: address
  cx_GasPrice :: int
  cx_Coinbase :: address
  cx_GasLimit :: u64
  cx_BlockNumber :: "int option"
  cx_Time :: int
  cx_Difficulty :: "int option"

record vmParams =
  vp_precompiles :: "bool \<Rightarrow> address \<Rightarrow> ((bytes \<Rightarrow> u64) \<times> (bytes \<Rightarrow> bytes \<times> vmErr option)) option"
  vp_interpret :: "evmContext \<Rightarrow> chainConfig \<Rightarrow> int \<Rightarrow> contract \<Rightarrow> bytes \<Rightarrow> bool \<Rightarrow> stateDB \<Rightarrow> vmResult go"
  vp_keccak :: "bytes \<Rightarrow> bytes"
  vp_CreateAddress :: "address \<Rightarrow> u64 \<Rightarrow> address"
  vp_CreateAddress2 :: "address \<Rightarrow> hash \<Rightarrow> bytes \<Rightarrow> address"

record evm =
  ev_Context :: evmContext
  ev_config :: chainConfig
  ev_depth :: int
  ev_NoRecursion :: bool
  ev_params :: vmParams

definition CallCreateDepth :: int where "CallCreateDepth = 1024"
definition CreateDataGas :: u64 where "CreateDataGas = 200"
definition MaxCodeSize :: int where "MaxCodeSize = 24576"

definition CanTransfer :: "stateDB \<Rightarrow> address \<Rightarrow> int \<Rightarrow> bool" where
  "CanTransfer db addr amount \<longleftrightarrow> amount \<le> StateDB_GetBalance db addr"

definition Transfer :: "address \<Rightarrow> address \<Rightarrow> int \<Rightarrow> stateDB \<Rightarrow> stateDB" where
  "Transfer sender recipient amount db = StateDB_AddBalance recipient amount (StateDB_SubBalance sender amount db)"

definition precompile :: "evm \<Rightarrow> address \<Rightarrow> ((bytes \<Rightarrow> u64) \<times> (bytes \<Rightarrow> bytes \<times> vmErr option)) option" where
  "precompile evm addr =
     vp_precompiles (ev_params evm) (IsByzantium (ev_config evm) (cx_BlockNumber (ev_Context evm))) addr"

definition RunPrecompiledContract :: "(bytes \<Rightarrow> u64) \<times> (bytes \<Rightarrow> bytes \<times> vmErr option) \<Rightarrow> bytes \<Rightarrow> contract
    \<Rightarrow> bytes \<times> vmErr option \<times> contract" where
  "RunPrecompiledContract p input c = (case Contract_UseGas (fst p input) c of
     (c, True) \<Rightarrow> (case snd p input of (ret, err) \<Rightarrow> (ret, err, c))
   | (c, False) \<Rightarrow> ([], Some ErrOutOfGas, c))"

text \<open>A contract without code does nothing; otherwise the loop of the interpreter runs.\<close>

definition interpreterRun :: "evm \<Rightarrow> contract \<Rightarrow> bytes \<Rightarrow> bool \<Rightarrow> stateDB \<Rightarrow> vmResult go" where
  "interpreterRun evm c input readOnly s =
     (if ct_Code c = None \<or> ct_Code c = Some [] then Ret ([], None, c, s)
      else vp_interpret (ev_params evm) (ev_Context evm) (ev_config evm) (ev_depth evm + 1) c input readOnly s)"

definition run :: "evm \<Rightarrow> contract \<Rightarrow> bytes \<Rightarrow> bool \<Rightarrow> stateDB \<Rightarrow> vmResult go" where
  "run evm c input readOnly s =
     (case Option.bind (ct_CodeAddr c) (precompile evm) of
        Some p \<Rightarrow> (case RunPrecompiledContract p input c of (ret, err, c) \<Rightarrow> Ret (ret, err, c, s))
      | None \<Rightarrow> interpreterRun evm c input readOnly s)"

text \<open>
  What the four calls do with the result of a run: an error undoes the state to the snapshot and, unless the
  contract itself reverted, uses all gas.
\<close>

definition settleRun :: "int \<Rightarrow> vmResult \<Rightarrow> (bytes \<times> u64 \<times> vmErr option \<times> stateDB) go" where
  "settleRun snapshot r = (case r of (ret, err, contract, s) \<Rightarrow>
     if err = None then Ret (ret, ct_Gas contract, None, s)
     else bindGo (StateDB_RevertToSnapshot snapshot s) (\<lambda>s.
       let contract = (if err \<noteq> Some ErrExecutionReverted then fst (Contract_UseGas (ct_Gas contract) contract)
                       else contract)
       in Ret (ret, ct_Gas contract, err, s)))"

definition EVM_Call :: "evm \<Rightarrow> address \<Rightarrow> address \<Rightarrow> bytes \<Rightarrow> u64 \<Rightarrow> int \<Rightarrow> stateDB
    \<Rightarrow> (bytes \<times> u64 \<times> vmErr option \<times> stateDB) go" where
  "EVM_Call evm caller addr input gas value s =
     (if ev_NoRecursion evm \<and> 0 < ev_depth evm then Ret ([], gas, None, s)
      else if CallCreateDepth < ev_depth evm then Ret ([], gas, Some ErrDepth, s)
      else if \<not> CanTransfer s caller value then Ret ([], gas, Some ErrInsufficientBalance, s)
      else
        (case StateDB_Snapshot s of (s, snapshot) \<Rightarrow>
           if \<not> StateDB_Exist s addr \<and> precompile evm addr = None
              \<and> IsEIP158 (ev_config evm) (cx_BlockNumber (ev_Context evm)) \<and> value = 0
           then Ret ([], gas, None, s)
           else
             (let s = (if StateDB_Exist s addr then s else StateDB_CreateAccount addr s);
                  s = Transfer caller addr value s;
                  contract = Contract_SetCallCode addr (StateDB_GetCodeHash s addr) (StateDB_GetCode s addr)
                    (NewContract caller addr value gas)
              in bindGo (run evm contract input False s) (settleRun snapshot))))"

definition EVM_CallCode :: "evm \<Rightarrow> address \<Rightarrow> address \<Rightarrow> bytes \<Rightarrow> u64 \<Rightarrow> int \<Rightarrow> stateDB
    \<Rightarrow> (bytes \<times> u64 \<times> vmErr option \<times> stateDB) go" where
  "EVM_CallCode evm caller addr input gas value s =
     (if ev_NoRecursion evm \<and> 0 < ev_depth evm then Ret ([], gas, None, s)
      else if CallCreateDepth < ev_depth evm then Ret ([], gas, Some ErrDepth, s)
      else if \<not> CanTransfer s caller value then Ret ([], gas, Some ErrInsufficientBalance, s)
      else (case StateDB_Snapshot s of (s, snapshot) \<Rightarrow>
        bindGo (run evm (Contract_SetCallCode addr (StateDB_GetCodeHash s addr) (StateDB_GetCode s addr)
            (NewContract caller caller value gas)) input False s) (settleRun snapshot)))"

text \<open>A delegated call keeps the caller and the value of the contract that makes it.\<close>

definition EVM_DelegateCall :: "evm \<Rightarrow> contract \<Rightarrow> address \<Rightarrow> bytes \<Rightarrow> u64 \<Rightarrow> stateDB
    \<Rightarrow> (bytes \<times> u64 \<times> vmErr option \<times> stateDB) go" where
  "EVM_DelegateCall evm caller addr input gas s =
     (if ev_NoRecursion evm \<and> 0 < ev_depth evm then Ret ([], gas, None, s)
      else if CallCreateDepth < ev_depth evm then Ret ([], gas, Some ErrDepth, s)
      else (case StateDB_Snapshot s of (s, snapshot) \<Rightarrow>
        bindGo (run evm (Contract_SetCallCode addr (StateDB_GetCodeHash s addr) (StateDB_GetCode s addr)
            (NewContract (ct_CallerAddress caller) (ct_self caller) (ct_value caller) gas)) input False s)
          (settleRun snapshot)))"

definition EVM_StaticCall :: "evm \<Rightarrow> address \<Rightarrow> address \<Rightarrow> bytes \<Rightarrow> u64 \<Rightarrow> stateDB
    \<Rightarrow> (bytes \<times> u64 \<times> vmErr option \<times> stateDB) go" where
  "EVM_StaticCall evm caller addr input gas s =
     (if ev_NoRecursion evm \<and> 0 < ev_depth evm then Ret ([], gas, None, s)
      else if CallCreateDepth < ev_depth evm then Ret ([], gas, Some ErrDepth, s)
      else (case StateDB_Snapshot s of (s, snapshot) \<Rightarrow>
        bindGo (run evm (Contract_SetCallCode addr (StateDB_GetCodeHash s addr) (StateDB_GetCode s addr)
            (NewContract caller addr 0 gas)) input True s) (settleRun snapshot)))"

text \<open>The code of a new contract is paid and stored; a run that failed is undone, before Homestead not for want of gas for the code.\<close>

definition storeCode :: "evm \<Rightarrow> address \<Rightarrow> bool \<Rightarrow> vmResult \<Rightarrow> vmResult" where
  "storeCode evm address maxCodeSizeExceeded r = (case r of (ret, err, contract, s) \<Rightarrow>
     if err = None \<and> \<not> maxCodeSizeExceeded then
       (case Contract_UseGas (of_nat (length ret) * CreateDataGas) contract of
          (contract, True) \<Rightarrow> (ret, None, contract, StateDB_SetCode (vp_keccak (ev_params evm)) address (Some ret) s)
        | (contract, False) \<Rightarrow> (ret, Some ErrCodeStoreOutOfGas, contract, s))
     else (ret, err, contract, s))"

definition settleCreate :: "evm \<Rightarrow> address \<Rightarrow> int \<Rightarrow> vmResult \<Rightarrow> (bytes \<times> address \<times> u64 \<times> vmErr option \<times> stateDB) go" where
  "settleCreate evm address snapshot r =
     (let number = cx_BlockNumber (ev_Context evm);
          maxCodeSizeExceeded = (IsEIP158 (ev_config evm) number \<and> MaxCodeSize < int (length (fst r)))
      in case storeCode evm address maxCodeSizeExceeded r of (ret, err, contract, s) \<Rightarrow>
         bindGo (if maxCodeSizeExceeded \<or> (err \<noteq> None \<and> (IsHomestead (ev_config evm) number \<or> err \<noteq> Some ErrCodeStoreOutOfGas))
           then bindGo (StateDB_RevertToSnapshot snapshot s) (\<lambda>s.
             Ret (if err \<noteq> Some ErrExecutionReverted then fst (Contract_UseGas (ct_Gas contract) contract) else contract, s))
           else Ret (contract, s)) (\<lambda>(contract, s).
         let err = (if maxCodeSizeExceeded \<and> err = None then Some ErrMaxCodeSizeExceeded else err)
         in Ret (ret, address, ct_Gas contract, err, s)))"

definition EVM_create :: "evm \<Rightarrow> address \<Rightarrow> bytes \<Rightarrow> u64 \<Rightarrow> int \<Rightarrow> address \<Rightarrow> stateDB
    \<Rightarrow> (bytes \<times> address \<times> u64 \<times> vmErr option \<times> stateDB) go" where
  "EVM_create evm caller code gas value address s =
     (if CallCreateDepth < ev_depth evm then Ret ([], BytesToAddress [], gas, Some ErrDepth, s)
      else if \<not> CanTransfer s caller value then Ret ([], BytesToAddress [], gas, Some ErrInsufficientBalance, s)
      else
        (let s = StateDB_SetNonce caller (StateDB_GetNonce s caller + 1) s;
             contractHash = StateDB_GetCodeHash s address
         in if StateDB_GetNonce s address \<noteq> 0 \<or> (contractHash \<noteq> zeroHash \<and> contractHash \<noteq> BytesToHash emptyCodeHash)
            then Ret ([], BytesToAddress [], 0, Some ErrContractAddressCollision, s)
            else
              (case StateDB_Snapshot s of (s, snapshot) \<Rightarrow>
                 let s = StateDB_CreateAccount address s;
                     s = (if IsEIP158 (ev_config evm) (cx_BlockNumber (ev_Context evm)) then StateDB_SetNonce address 1 s else s);
                     s = Transfer caller address value s;
                     contract = Contract_SetCallCode address (BytesToHash (vp_keccak (ev_params evm) code)) (Some code)
                       (NewContract caller address value gas)
                 in if ev_NoRecursion evm \<and> 0 < ev_depth evm then Ret ([], address, gas, None, s)
                    else bindGo (run evm contract [] False s) (settleCreate evm address snapshot))))"

definition EVM_Create :: "evm \<Rightarrow> address \<Rightarrow> bytes \<Rightarrow> u64 \<Rightarrow> int \<Rightarrow> stateDB
    \<Rightarrow> (bytes \<times> address \<times> u64 \<times> vmErr option \<times> stateDB) go" where
  "EVM_Create evm caller code gas value s =
     EVM_create evm caller code gas value (vp_CreateAddress (ev_params evm) caller (StateDB_GetNonce s caller)) s"

definition EVM_Create2 :: "evm \<Rightarrow> address \<Rightarrow> bytes \<Rightarrow> u64 \<Rightarrow> int \<Rightarrow> hash \<Rightarrow> stateDB
    \<Rightarrow> (bytes \<times> address \<times> u64 \<times> vmErr option \<times> stateDB) go" where
  "EVM_Create2 evm caller code gas endowment salt s =
     EVM_create evm caller code gas endowment (vp_CreateAddress2 (ev_params evm) caller salt code) s"

section \<open>Messages\<close>

record message =
  msg_to :: "address option"
  msg_from :: address
  msg_nonce :: u64
  msg_amount :: int
  msg_gasLimit :: u64
  msg_gasPrice :: int
  msg_data :: bytes
  msg_checkNonce :: bool

definition AsMessage :: "(transaction \<Rightarrow> address option) \<Rightarrow> transaction \<Rightarrow> message option" where
  "AsMessage Sender tx = map_option (\<lambda>from. \<lparr>msg_to = tx_Recipient tx, msg_from = from, msg_nonce = tx_AccountNonce tx,
     msg_amount = tx_Amount tx, msg_gasLimit = tx_GasLimit tx, msg_gasPrice = tx_Price tx, msg_data = tx_Payload tx,
     msg_checkNonce = True\<rparr>) (Sender tx)"

definition TxGas :: u64 where "TxGas = 21000"
definition TxGasContractCreation :: u64 where "TxGasContractCreation = 53000"
definition TxDataNonZeroGasFrontier :: u64 where "TxDataNonZeroGasFrontier = 68"
definition TxDataZeroGas :: u64 where "TxDataZeroGas = 4"

text \<open>The result is \<open>None\<close> for the error \<open>ErrOutOfGas\<close>.\<close>

definition IntrinsicGas :: "bytes \<Rightarrow> bool \<Rightarrow> bool \<Rightarrow> u64 option" where
  "IntrinsicGas data contractCreation homestead =
     (let gas = (if contractCreation \<and> homestead then TxGasContractCreation else TxGas) in
      if data = [] then Some gas
      else
        (let nz = fold (\<lambda>byt nz. if byt \<noteq> 0 then nz + 1 else nz) data (0 :: u64) in
         if (- 1 - gas) div TxDataNonZeroGasFrontier < nz then None
         else
           (let gas = gas + nz * TxDataNonZeroGasFrontier;
                z = of_nat (length data) - nz
            in if (- 1 - gas) div TxDataZeroGas < z then None else Some (gas + z * TxDataZeroGas))))"

section \<open>State transition\<close>

datatype txErr = ErrNonceTooHigh | ErrNonceTooLow | ErrInsufficientBalanceForGas | ErrGasLimitReached
  | ErrVM vmErr | ErrSender | ErrUnknownFunction | ErrNotAllowedInMainChain | ErrNotAllowedInSideChain
  | ErrInsufficientAmount | ErrCallback stakeErr

record stateTransition =
  st_gp :: u64
  st_msg :: message
  st_gas :: u64
  st_gasPrice :: int
  st_initialGas :: u64
  st_value :: int
  st_data :: bytes
  st_state :: stateDB

definition NewStateTransition :: "message \<Rightarrow> u64 \<Rightarrow> stateDB \<Rightarrow> stateTransition" where
  "NewStateTransition msg gp s = \<lparr>st_gp = gp, st_msg = msg, st_gas = 0, st_gasPrice = msg_gasPrice msg,
     st_initialGas = 0, st_value = msg_amount msg, st_data = msg_data msg, st_state = s\<rparr>"

definition createMissing :: "address \<Rightarrow> stateTransition \<Rightarrow> stateTransition" where
  "createMissing a st =
     (if StateDB_Exist (st_state st) a then st else st\<lparr>st_state := StateDB_CreateAccount a (st_state st)\<rparr>)"

definition st_from :: "stateTransition \<Rightarrow> address \<times> stateTransition" where
  "st_from st = (msg_from (st_msg st), createMissing (msg_from (st_msg st)) st)"

definition st_to :: "stateTransition \<Rightarrow> address \<times> stateTransition" where
  "st_to st = (case msg_to (st_msg st) of None \<Rightarrow> (BytesToAddress [], st) | Some a \<Rightarrow> (a, createMissing a st))"

definition useGas :: "u64 \<Rightarrow> stateTransition \<Rightarrow> vmErr option \<times> stateTransition" where
  "useGas amount st =
     (if st_gas st < amount then (Some ErrOutOfGas, st) else (None, st\<lparr>st_gas := st_gas st - amount\<rparr>))"

definition buyGas :: "stateTransition \<Rightarrow> txErr option \<times> stateTransition" where
  "buyGas st =
     (case st_from st of (sender, st) \<Rightarrow>
        let gas = msg_gasLimit (st_msg st); mgval = uint gas * st_gasPrice st in
        if StateDB_GetBalance (st_state st) sender < mgval then (Some ErrInsufficientBalanceForGas, st)
        else (case GasPool_SubGas gas (st_gp st) of
            None \<Rightarrow> (Some ErrGasLimitReached, st)
          | Some gp \<Rightarrow> (None, st\<lparr>st_gp := gp, st_gas := st_gas st + gas, st_initialGas := gas,
                               st_state := StateDB_SubBalance sender mgval (st_state st)\<rparr>)))"

definition preCheck :: "stateTransition \<Rightarrow> txErr option \<times> stateTransition" where
  "preCheck st =
     (case st_from st of (sender, st) \<Rightarrow>
        let nonce = StateDB_GetNonce (st_state st) sender; msg = st_msg st in
        if msg_checkNonce msg \<and> nonce < msg_nonce msg then (Some ErrNonceTooHigh, st)
        else if msg_checkNonce msg \<and> msg_nonce msg < nonce then (Some ErrNonceTooLow, st)
        else buyGas st)"

definition gasUsed :: "stateTransition \<Rightarrow> u64" where
  "gasUsed st = st_initialGas st - st_gas st"

definition refundGas :: "stateTransition \<Rightarrow> stateTransition go" where
  "refundGas st =
     (let refund = min (gasUsed st div 2) (sdb_refund (st_state st));
          st = st\<lparr>st_gas := st_gas st + refund\<rparr>
      in case st_from st of (sender, st) \<Rightarrow>
           let remaining = uint (st_gas st) * st_gasPrice st;
               st = st\<lparr>st_state := StateDB_AddBalance sender remaining (st_state st)\<rparr>
           in bindGo (GasPool_AddGas (st_gas st) (st_gp st)) (\<lambda>gp. Ret (st\<lparr>st_gp := gp\<rparr>)))"

text \<open>The creation of a contract or the call, with the gas that is left after the intrinsic gas.\<close>

definition execute :: "evm \<Rightarrow> address \<Rightarrow> stateTransition \<Rightarrow> (bytes \<times> vmErr option \<times> stateTransition) go" where
  "execute evm sender st =
     (if msg_to (st_msg st) = None then
        bindGo (EVM_Create evm sender (st_data st) (st_gas st) (st_value st) (st_state st)) (\<lambda>(ret, addr, gas, vmerr, s).
          Ret (ret, vmerr, st\<lparr>st_gas := gas, st_state := s\<rparr>))
      else
        (let st = st\<lparr>st_state := StateDB_SetNonce sender (StateDB_GetNonce (st_state st) sender + 1) (st_state st)\<rparr>
         in case st_to st of (to, st) \<Rightarrow>
              bindGo (EVM_Call evm sender to (st_data st) (st_gas st) (st_value st) (st_state st)) (\<lambda>(ret, gas, vmerr, s).
                Ret (ret, vmerr, st\<lparr>st_gas := gas, st_state := s\<rparr>))))"

text \<open>What \<open>TransitionDb\<close> and \<open>TransitionDbEx\<close> share: everything up to the refund of the gas.\<close>

definition transition :: "evm \<Rightarrow> stateTransition \<Rightarrow> ((txErr + (bytes \<times> bool)) \<times> stateTransition) go" where
  "transition evm st =
     (case preCheck st of
        (Some err, st) \<Rightarrow> Ret (Inl err, st)
      | (None, st) \<Rightarrow>
          (case st_from st of (sender, st) \<Rightarrow>
             (case IntrinsicGas (st_data st) (msg_to (st_msg st) = None)
                 (IsHomestead (ev_config evm) (cx_BlockNumber (ev_Context evm))) of
                None \<Rightarrow> Ret (Inl (ErrVM ErrOutOfGas), st)
              | Some gas \<Rightarrow>
                  (case useGas gas st of
                     (Some err, st) \<Rightarrow> Ret (Inl (ErrVM err), st)
                   | (None, st) \<Rightarrow>
                       bindGo (execute evm sender st) (\<lambda>(ret, vmerr, st).
                         if vmerr = Some ErrInsufficientBalance then Ret (Inl (ErrVM ErrInsufficientBalance), st)
                         else bindGo (refundGas st) (\<lambda>st. Ret (Inr (ret, vmerr \<noteq> None), st)))))))"

definition TransitionDb :: "evm \<Rightarrow> stateTransition \<Rightarrow> ((txErr + (bytes \<times> u64 \<times> bool)) \<times> stateTransition) go" where
  "TransitionDb evm st =
     bindGo (transition evm st) (\<lambda>(r, st). case r of
         Inl err \<Rightarrow> Ret (Inl err, st)
       | Inr (ret, failed) \<Rightarrow>
           let st = st\<lparr>st_state := StateDB_AddBalance (cx_Coinbase (ev_Context evm)) (uint (gasUsed st) * st_gasPrice st) (st_state st)\<rparr>
           in Ret (Inr (ret, gasUsed st, failed), st))"

definition TransitionDbEx :: "evm \<Rightarrow> stateTransition
    \<Rightarrow> ((txErr + (bytes \<times> u64 \<times> int \<times> bool)) \<times> stateTransition) go" where
  "TransitionDbEx evm st =
     bindGo (transition evm st) (\<lambda>(r, st). case r of
         Inl err \<Rightarrow> Ret (Inl err, st)
       | Inr (ret, failed) \<Rightarrow> Ret (Inr (ret, gasUsed st, uint (gasUsed st) * st_gasPrice st, failed), st))"

definition ApplyMessage :: "evm \<Rightarrow> message \<Rightarrow> u64 \<Rightarrow> stateDB \<Rightarrow> ((txErr + (bytes \<times> u64 \<times> bool)) \<times> stateTransition) go" where
  "ApplyMessage evm msg gp s = TransitionDb evm (NewStateTransition msg gp s)"

definition ApplyMessageEx :: "evm \<Rightarrow> message \<Rightarrow> u64 \<Rightarrow> stateDB
    \<Rightarrow> ((txErr + (bytes \<times> u64 \<times> int \<times> bool)) \<times> stateTransition) go" where
  "ApplyMessageEx evm msg gp s = TransitionDbEx evm (NewStateTransition msg gp s)"

section \<open>Transactions\<close>

text \<open>\<open>pe_Sender\<close> recovers the sender with the signer of the chain, for the number of the block.\<close>

record ('b, 'v) procEnv =
  pe_engine :: "('b, 'v) engineEnv"
  pe_staking :: "'v stakingEnv"
  pe_vm :: vmParams
  pe_NoRecursion :: bool
  pe_Sender :: "int option \<Rightarrow> transaction \<Rightarrow> address option"
  pe_FunctionTypeFromId :: "bytes \<Rightarrow> functionType option"
  pe_txHash :: "transaction \<Rightarrow> hash"
  pe_blockHash :: "'v header \<Rightarrow> hash"

text \<open>What the caller of \<open>ApplyTransactionEx\<close> holds by pointers.\<close>

record procState =
  ps_gp :: u64
  ps_state :: stateDB
  ps_ops :: "pendingOp list"
  ps_usedGas :: u64
  ps_totalUsedMoney :: int

definition NewEVMContext :: "message \<Rightarrow> 'v header \<Rightarrow> address option \<Rightarrow> evmContext go" where
  "NewEVMContext msg header author =
     (if hd_Number header = None \<or> hd_Difficulty header = None then Panic ''nil pointer dereference''
      else Ret \<lparr>cx_Origin = msg_from msg, cx_GasPrice = msg_gasPrice msg,
        cx_Coinbase = (case author of None \<Rightarrow> Author header | Some a \<Rightarrow> a), cx_GasLimit = hd_GasLimit header,
        cx_BlockNumber = hd_Number header, cx_Time = hd_Time header, cx_Difficulty = hd_Difficulty header\<rparr>)"

definition NewEVM :: "('b, 'v) procEnv \<Rightarrow> evmContext \<Rightarrow> evm" where
  "NewEVM env ctx = \<lparr>ev_Context = ctx, ev_config = en_config (pe_engine env), ev_depth = 0,
     ev_NoRecursion = pe_NoRecursion env, ev_params = pe_vm env\<rparr>"

definition ReceiptStatusFailed :: u64 where "ReceiptStatusFailed = 0"
definition ReceiptStatusSuccessful :: u64 where "ReceiptStatusSuccessful = 1"

definition NewReceipt :: "bytes \<Rightarrow> bool \<Rightarrow> u64 \<Rightarrow> receipt" where
  "NewReceipt root failed cumulativeGasUsed = \<lparr>rc_PostState = root,
     rc_Status = (if failed then ReceiptStatusFailed else ReceiptStatusSuccessful),
     rc_CumulativeGasUsed = cumulativeGasUsed, rc_Bloom = [], rc_Logs = [], rc_TxHash = zeroHash,
     rc_ContractAddress = BytesToAddress [], rc_GasUsed = 0, rc_BlockHash = zeroHash, rc_BlockNumber = None,
     rc_TransactionIndex = 0\<rparr>"

definition finishReceipt :: "('b, 'v) procEnv \<Rightarrow> 'v header \<Rightarrow> transaction \<Rightarrow> u64 \<Rightarrow> stateDB \<Rightarrow> receipt \<Rightarrow> receipt" where
  "finishReceipt env header tx gas s r =
     (let r = r\<lparr>rc_TxHash := pe_txHash env tx, rc_GasUsed := gas, rc_Logs := StateDB_GetLogs s (pe_txHash env tx)\<rparr>
      in r\<lparr>rc_Bloom := en_CreateBloom (pe_engine env) [r], rc_BlockHash := sdb_bhash s,
           rc_BlockNumber := hd_Number header, rc_TransactionIndex := sdb_txIndex s\<rparr>)"

text \<open>The state after a transaction, with its root only before the Byzantium fork.\<close>

definition settleState :: "('b, 'v) procEnv \<Rightarrow> 'v header \<Rightarrow> bool \<Rightarrow> stateDB \<Rightarrow> (bytes \<times> stateDB) go" where
  "settleState env header deleteEmptyObjects s =
     (if IsByzantium (en_config (pe_engine env)) (hd_Number header)
      then bindGo (StateDB_Finalise True s) (\<lambda>s. Ret ([], s))
      else bindGo (StateDB_IntermediateRoot (en_rootHash (pe_engine env)) deleteEmptyObjects s) (\<lambda>(root, s). Ret (root, s)))"

definition applyEVM :: "('b, 'v) procEnv \<Rightarrow> address option \<Rightarrow> 'v header \<Rightarrow> transaction \<Rightarrow> message \<Rightarrow> procState
    \<Rightarrow> ((txErr + (receipt \<times> u64)) \<times> procState) go" where
  "applyEVM env author header tx msg ps =
     bindGo (NewEVMContext msg header author) (\<lambda>ctx.
      bindGo (ApplyMessageEx (NewEVM env ctx) msg (ps_gp ps) (ps_state ps)) (\<lambda>(r, st).
        let ps = ps\<lparr>ps_gp := st_gp st, ps_state := st_state st\<rparr> in
        case r of
          Inl err \<Rightarrow> Ret (Inl err, ps)
        | Inr (ret, gas, money, failed) \<Rightarrow>
            bindGo (settleState env header False (ps_state ps)) (\<lambda>(root, s).
              let usedGas = ps_usedGas ps + gas;
                  ps = ps\<lparr>ps_state := s, ps_usedGas := usedGas, ps_totalUsedMoney := ps_totalUsedMoney ps + money\<rparr>;
                  r = NewReceipt root failed usedGas;
                  r = (if msg_to msg = None
                       then r\<lparr>rc_ContractAddress := vp_CreateAddress (pe_vm env) (cx_Origin ctx) (tx_AccountNonce tx)\<rparr>
                       else r)
              in Ret (Inr (finishReceipt env header tx gas s r, gas), ps))))"

text \<open>The callback of a function of the contract, if there is one; a callback for another kind of function panics.\<close>

definition applyCallback :: "('b, 'v) procEnv \<Rightarrow> functionType \<Rightarrow> transaction \<Rightarrow> stateDB \<Rightarrow> pendingOp list \<Rightarrow> applied" where
  "applyCallback env function tx s ops =
     (case GetApplyCb function of
        None \<Rightarrow> Ret (None, s, ops)
      | Some fn \<Rightarrow>
          if IsCrossChainType function
          then Panic ''callback func is wrong, this should not happened, please check the code''
          else fn (pe_staking env) tx s ops)"

definition applyContract :: "('b, 'v) procEnv \<Rightarrow> 'v header \<Rightarrow> transaction \<Rightarrow> message \<Rightarrow> procState
    \<Rightarrow> ((txErr + (receipt \<times> u64)) \<times> procState) go" where
  "applyContract env header tx msg ps =
     (if length (tx_Payload tx) < 4 then Panic ''slice bounds out of range''
      else case pe_FunctionTypeFromId env (take 4 (tx_Payload tx)) of
        None \<Rightarrow> Ret (Inl ErrUnknownFunction, ps)
      | Some function \<Rightarrow>
          (let main = IsMainChain (en_config (pe_engine env)); from = msg_from msg; s = ps_state ps;
               nonce = StateDB_GetNonce s from; gasLimit = tx_GasLimit tx; gasValue = uint gasLimit * tx_Price tx
           in if main \<and> \<not> AllowInMainChain function then Ret (Inl ErrNotAllowedInMainChain, ps)
           else if \<not> main \<and> \<not> AllowInSideChain function then Ret (Inl ErrNotAllowedInSideChain, ps)
           else if msg_checkNonce msg \<and> nonce < msg_nonce msg then Ret (Inl ErrNonceTooHigh, ps)
           else if msg_checkNonce msg \<and> msg_nonce msg < nonce then Ret (Inl ErrNonceTooLow, ps)
           else if StateDB_GetBalance s from < gasValue then Ret (Inl ErrInsufficientBalanceForGas, ps)
           else case GasPool_SubGas gasLimit (ps_gp ps) of
               None \<Rightarrow> Ret (Inl ErrGasLimitReached, ps)
             | Some gp \<Rightarrow>
                 (let s = StateDB_SubBalance from gasValue s; ps = ps\<lparr>ps_gp := gp, ps_state := s\<rparr>; gas = RequiredGas function
                  in if gasLimit < gas then Ret (Inl (ErrVM ErrOutOfGas), ps)
                  else if StateDB_GetBalance s from < tx_Amount tx then Ret (Inl ErrInsufficientAmount, ps)
                  else bindGo (applyCallback env function tx s (ps_ops ps)) (\<lambda>(err, s, ops).
                    let ps = ps\<lparr>ps_state := s, ps_ops := ops\<rparr> in
                    case err of
                      Some e \<Rightarrow> Ret (Inl (ErrCallback e), ps)
                    | None \<Rightarrow>
                        (let remainingGas = gasLimit - gas;
                             s = StateDB_AddBalance from (uint remainingGas * tx_Price tx) s
                         in bindGo (GasPool_AddGas remainingGas gp) (\<lambda>gp.
                            bindGo (settleState env header (IsEIP158 (en_config (pe_engine env)) (hd_Number header)) s) (\<lambda>(root, s).
                              let usedGas = ps_usedGas ps + gas;
                                  r = finishReceipt env header tx gas s (NewReceipt root False usedGas);
                                  s = StateDB_SetNonce from (StateDB_GetNonce s from + 1) s
                              in Ret (Inr (r, 0), ps\<lparr>ps_gp := gp, ps_state := s, ps_usedGas := usedGas,
                                   ps_totalUsedMoney := ps_totalUsedMoney ps + uint gas * tx_Price tx\<rparr>))))))))"

definition ApplyTransactionEx :: "('b, 'v) procEnv \<Rightarrow> address option \<Rightarrow> 'v header \<Rightarrow> transaction \<Rightarrow> procState
    \<Rightarrow> ((txErr + (receipt \<times> u64)) \<times> procState) go" where
  "ApplyTransactionEx env author header tx ps =
     (case AsMessage (pe_Sender env (hd_Number header)) tx of
        None \<Rightarrow> Ret (Inl ErrSender, ps)
      | Some msg \<Rightarrow>
          if tx_Recipient tx \<noteq> Some ChainContractMagicAddr then applyEVM env author header tx msg ps
          else applyContract env header tx msg ps)"

section \<open>Blocks\<close>

fun processTxs :: "('b, 'v) procEnv \<Rightarrow> 'v ligoBlock \<Rightarrow> nat \<Rightarrow> transaction list \<Rightarrow> procState
    \<Rightarrow> ((txErr + receipt list) \<times> procState) go" where
  "processTxs env block i [] ps = Ret (Inr [], ps)"
| "processTxs env block i (tx # txs) ps =
     (let ps = ps\<lparr>ps_state := StateDB_Prepare (pe_txHash env tx) (pe_blockHash env (lb_header block)) (int i) (ps_state ps)\<rparr>
      in bindGo (ApplyTransactionEx env None (lb_header block) tx ps) (\<lambda>(r, ps). case r of
          Inl err \<Rightarrow> Ret (Inl err, ps)
        | Inr (receipt, _) \<Rightarrow>
            bindGo (processTxs env block (Suc i) txs ps) (\<lambda>(r, ps).
              Ret (map_sum (\<lambda>e. e) (\<lambda>receipts. receipt # receipts) r, ps))))"

definition Process :: "('b, 'v) procEnv \<Rightarrow> 'v ligoBlock \<Rightarrow> stateDB
    \<Rightarrow> ((txErr + (receipt list \<times> log list \<times> u64 \<times> pendingOp list)) \<times> stateDB) go" where
  "Process env block s =
     bindGo (GasPool_AddGas (hd_GasLimit (lb_header block)) 0) (\<lambda>gp.
     bindGo (processTxs env block 0 (lb_transactions block)
         \<lparr>ps_gp = gp, ps_state = s, ps_ops = [], ps_usedGas = 0, ps_totalUsedMoney = 0\<rparr>) (\<lambda>(r, ps). case r of
         Inl err \<Rightarrow> Ret (Inl err, ps_state ps)
       | Inr receipts \<Rightarrow>
           bindGo (Engine_Finalize (pe_engine env) (lb_header block) (lb_transactions block) (ps_totalUsedMoney ps)
             receipts (ps_state ps) (ps_ops ps)) (\<lambda>(_, s, ops).
           Ret (Inr (receipts, concat (map rc_Logs receipts), ps_usedGas ps, ops), s))))"

end
