(* ===== verification/Transaction_Gas.thy ===== *)
theory Transaction_Gas
  imports Transactions
begin

text \<open>
  Gas: a transaction uses what it takes from the pool of the block and never more than its limit, and a
  block counts the gas and the fees of its transactions exactly.
\<close>

section \<open>The virtual machine returns at most the gas it was given\<close>

text \<open>What is relied on of the interpreter: the gas of a contract does not grow while its instructions run.\<close>

definition interpreterGas :: "vmParams \<Rightarrow> bool" where
  "interpreterGas p \<longleftrightarrow> (\<forall>ctx cfg depth c input readOnly s ret err c' s'.
     vp_interpret p ctx cfg depth c input readOnly s = Ret (ret, err, c', s') \<longrightarrow> ct_Gas c' \<le> ct_Gas c)"

lemma word_sub_le: "(a :: u64) \<le> b \<Longrightarrow> b - a \<le> b"
  by (simp add: word_le_nat_alt unat_sub)

lemma UseGas_gas: "ct_Gas (fst (Contract_UseGas g c)) \<le> ct_Gas c" "Contract_UseGas g c = (c', b) \<Longrightarrow> ct_Gas c' \<le> ct_Gas c"
  by (auto simp: Contract_UseGas_def not_less word_sub_le split: if_splits)

lemma run_gas:
  assumes "interpreterGas (ev_params evm)" "run evm c input readOnly s = Ret (ret, err, c', s')"
  shows "ct_Gas c' \<le> ct_Gas c"
proof (cases "Option.bind (ct_CodeAddr c) (precompile evm)")
  case None
  then show ?thesis using assms unfolding interpreterGas_def
    by (simp add: run_def interpreterRun_def split: if_splits) blast
next
  case (Some p)
  then show ?thesis using assms(2) UseGas_gas(2) [of "fst p input" c]
    by (auto simp: run_def RunPrecompiledContract_def split: prod.splits bool.splits)
qed

lemma settleRun_gas:
  assumes "settleRun snapshot (ret, err, c, s) = Ret (ret', gas, err', s')"
  shows "gas \<le> ct_Gas c"
  using assms UseGas_gas(1) [of "ct_Gas c" c]
  by (auto simp: settleRun_def bindGo_Ret_iff Let_def split: if_splits)

lemma SetCallCode_gas [simp]: "ct_Gas (Contract_SetCallCode a h code (NewContract x y v gas)) = gas"
  by (simp add: Contract_SetCallCode_def NewContract_def)

lemma EVM_Call_gas:
  assumes "interpreterGas (ev_params evm)" "EVM_Call evm caller addr input gas value s = Ret (ret, gas', err, s')"
  shows "gas' \<le> gas"
proof -
  have r: "gas' \<le> ct_Gas c" if "bindGo (run evm c input False t) (settleRun i) = Ret (ret, gas', err, s')" for c t i
    using that run_gas [OF assms(1)] settleRun_gas by (fastforce simp: bindGo_Ret_iff)
  show ?thesis using assms(2) r unfolding EVM_Call_def
    by (auto simp: Let_def split: if_splits prod.splits dest!: r)
qed

lemma settleCreate_gas:
  assumes "settleCreate evm address snapshot (ret, err, c, s) = Ret (ret', addr, gas, err', s')"
  shows "gas \<le> ct_Gas c"
proof -
  let ?big = "IsEIP158 (ev_config evm) (cx_BlockNumber (ev_Context evm)) \<and> MaxCodeSize < int (length ret)"
  obtain ret1 err1 c1 s1 where 1: "storeCode evm address ?big (ret, err, c, s) = (ret1, err1, c1, s1)"
    by (cases "storeCode evm address ?big (ret, err, c, s)") auto
  have "ct_Gas c1 \<le> ct_Gas c"
    using 1 UseGas_gas(2) [of "of_nat (length ret) * CreateDataGas" c]
    by (auto simp: storeCode_def split: if_splits prod.splits bool.splits)
  moreover have "gas \<le> ct_Gas c1"
    using assms 1 UseGas_gas(1) [of "ct_Gas c1" c1]
    by (auto simp: settleCreate_def bindGo_Ret_iff Let_def split: if_splits)
  ultimately show ?thesis by simp
qed

lemma EVM_create_gas:
  assumes "interpreterGas (ev_params evm)" "EVM_create evm caller code gas value address s = Ret (ret, addr, gas', err, s')"
  shows "gas' \<le> gas"
proof -
  have r: "gas' \<le> ct_Gas c" if "bindGo (run evm c [] False t) (settleCreate evm address i) = Ret (ret, addr, gas', err, s')" for c t i
    using that run_gas [OF assms(1)] settleCreate_gas by (fastforce simp: bindGo_Ret_iff)
  show ?thesis using assms(2) unfolding EVM_create_def
    by (auto simp: Let_def split: if_splits prod.splits dest!: r)
qed

section \<open>Messages\<close>

text \<open>What a transition never changes.\<close>

definition fixedPart :: "stateTransition \<Rightarrow> message \<times> int \<times> int \<times> bytes" where
  "fixedPart st = (st_msg st, st_gasPrice st, st_value st, st_data st)"

lemma createMissing_frame [simp]:
  "st_gas (createMissing a st) = st_gas st" "st_gp (createMissing a st) = st_gp st"
  "st_initialGas (createMissing a st) = st_initialGas st" "fixedPart (createMissing a st) = fixedPart st"
  by (simp_all add: createMissing_def fixedPart_def)

lemma createMissing_msg [simp]:
  "st_msg (createMissing a st) = st_msg st" "st_gasPrice (createMissing a st) = st_gasPrice st"
  "st_value (createMissing a st) = st_value st" "st_data (createMissing a st) = st_data st"
  by (simp_all add: createMissing_def)

lemma preCheck_gas:
  assumes "preCheck st = (None, st')" "st_gas st = 0"
  shows "fixedPart st' = fixedPart st" "st_gas st' = msg_gasLimit (st_msg st)" "st_initialGas st' = msg_gasLimit (st_msg st)"
    "uint (st_gp st') + uint (msg_gasLimit (st_msg st)) = uint (st_gp st)"
  using assms
  by (auto simp: preCheck_def buyGas_def st_from_def GasPool_SubGas_def Let_def fixedPart_def not_less
      word_le_def uint_sub_if' split: if_splits option.splits)

lemma execute_gas:
  assumes "interpreterGas (ev_params evm)" "execute evm sender st = Ret (ret, err, st')"
  shows "st_gas st' \<le> st_gas st" "fixedPart st' = fixedPart st" "st_initialGas st' = st_initialGas st" "st_gp st' = st_gp st"
  using assms EVM_create_gas [OF assms(1)] EVM_Call_gas [OF assms(1)]
  by (auto simp: execute_def EVM_Create_def fixedPart_def st_to_def bindGo_Ret_iff Let_def
      split: if_splits option.splits)

lemma refundGas_gas:
  assumes "st_gas st \<le> st_initialGas st" "uint (st_gp st) + uint (st_initialGas st) < 2 ^ 64"
  obtains st' where "refundGas st = Ret st'" "fixedPart st' = fixedPart st" "st_initialGas st' = st_initialGas st"
    "st_gas st' \<le> st_initialGas st'" "uint (st_gp st') = uint (st_gp st) + uint (st_gas st')"
proof -
  let ?refund = "min (gasUsed st div 2) (sdb_refund (st_state st))"
  let ?gas = "st_gas st + ?refund"
  let ?st = "createMissing (msg_from (st_msg st)) (st\<lparr>st_gas := ?gas\<rparr>)"
  have used: "uint (gasUsed st) = uint (st_initialGas st) - uint (st_gas st)"
    using assms(1) by (simp add: gasUsed_def word_le_def uint_sub_if')
  have "uint ?refund \<le> uint (gasUsed st div 2)" by (simp add: word_le_def [symmetric])
  then have r: "uint ?refund \<le> uint (st_initialGas st) - uint (st_gas st)"
    using used uint_ge_0 [of "gasUsed st"] by (simp add: uint_div)
  have bound: "uint (st_initialGas st) < 2 ^ 64" using uint_lt2p [of "st_initialGas st"] by simp
  have gas: "uint ?gas = uint (st_gas st) + uint ?refund" using r bound by (simp add: uint_plus_if')
  have le: "?gas \<le> st_initialGas st" using r gas by (simp add: word_le_def)
  have pool: "\<not> - 1 - ?gas < st_gp st" "uint (st_gp st + ?gas) = uint (st_gp st) + uint ?gas"
  proof -
    have u: "uint ?gas \<le> uint (st_initialGas st)" using le by (simp add: word_le_def)
    have m: "uint (- 1 :: u64) = 2 ^ 64 - 1" by code_simp
    have "uint (- 1 - ?gas) = 2 ^ 64 - 1 - uint ?gas"
      using uint_lt2p [of ?gas] unfolding uint_sub_if' m by simp
    then show "\<not> - 1 - ?gas < st_gp st" using u assms(2) by (simp add: word_less_def)
    show "uint (st_gp st + ?gas) = uint (st_gp st) + uint ?gas" using u assms(2) by (simp add: uint_plus_if')
  qed
  have "refundGas st = Ret (?st\<lparr>st_state := StateDB_AddBalance (msg_from (st_msg st)) (uint ?gas * st_gasPrice st) (st_state ?st),
      st_gp := st_gp st + ?gas\<rparr>)"
    using pool(1) by (simp add: refundGas_def st_from_def Let_def GasPool_AddGas_def)
  then show thesis by (rule that) (use le pool(2) in \<open>simp_all add: fixedPart_def\<close>)
qed

lemma transition_cases:
  assumes run: "transition evm (NewStateTransition msg gp s) = Ret (Inr r, st')"
  obtains st1 g st2 ret err st3 where "preCheck (NewStateTransition msg gp s) = (None, st1)"
    "useGas g (createMissing (msg_from msg) st1) = (None, st2)" "fixedPart st2 = fixedPart (NewStateTransition msg gp s)"
    "execute evm (msg_from msg) st2 = Ret (ret, err, st3)" "err \<noteq> Some ErrInsufficientBalance"
    "refundGas st3 = Ret st'" "r = (ret, err \<noteq> None)"
proof -
  let ?st = "NewStateTransition msg gp s"
  obtain st1 where 1: "preCheck ?st = (None, st1)"
    using run by (cases "preCheck ?st") (auto simp: transition_def split: option.splits)
  have m: "fixedPart st1 = fixedPart ?st" using preCheck_gas(1) [OF 1] by (simp add: NewStateTransition_def)
  then have msg: "st_msg st1 = msg" by (simp add: fixedPart_def NewStateTransition_def)
  note run = run [unfolded transition_def 1 prod.case option.case st_from_def msg]
  obtain g where g: "IntrinsicGas (st_data (createMissing (msg_from msg) st1)) (msg_to (st_msg (createMissing (msg_from msg) st1)) = None)
      (IsHomestead (ev_config evm) (cx_BlockNumber (ev_Context evm))) = Some g"
    using run by (auto split: option.splits)
  note run = run [unfolded g option.case]
  obtain st2 where 2: "useGas g (createMissing (msg_from msg) st1) = (None, st2)"
    using run by (cases "useGas g (createMissing (msg_from msg) st1)") (auto split: option.splits)
  note run = run [unfolded 2 prod.case option.case]
  obtain ret err st3 where 3: "execute evm (msg_from msg) st2 = Ret (ret, err, st3)"
    using run unfolding bindGo_Ret_iff by auto
  have 4: "err \<noteq> Some ErrInsufficientBalance" "refundGas st3 = Ret st'" "r = (ret, err \<noteq> None)"
    using run unfolding 3 bindGo.simps prod.case by (auto simp: bindGo_Ret_iff split: if_splits)
  have "fixedPart st2 = fixedPart st1" using 2 by (auto simp: useGas_def fixedPart_def split: if_splits)
  then show thesis using that [OF 1 2 _ 3 4] m by simp
qed

lemma transition_gas:
  assumes gas: "interpreterGas (ev_params evm)"
    and run: "transition evm (NewStateTransition msg gp s) = Ret (Inr r, st')"
  shows "uint (st_gp st') + uint (gasUsed st') = uint gp" "uint (gasUsed st') = uint (msg_gasLimit msg) - uint (st_gas st')"
    "gasUsed st' \<le> msg_gasLimit msg" "st_gasPrice st' = msg_gasPrice msg"
proof -
  let ?st = "NewStateTransition msg gp s" and ?limit = "msg_gasLimit msg"
  obtain st1 g st2 ret err st3 where 1: "preCheck ?st = (None, st1)"
    and 2: "useGas g (createMissing (msg_from msg) st1) = (None, st2)" "fixedPart st2 = fixedPart ?st"
    and 3: "execute evm (msg_from msg) st2 = Ret (ret, err, st3)" and 4: "refundGas st3 = Ret st'"
    using transition_cases [OF run] by metis
  note p = preCheck_gas [OF 1] and e = execute_gas [OF gas 3]
  have s2: "st_gas st2 \<le> ?limit" "st_initialGas st2 = ?limit" "st_gp st2 = st_gp st1"
    using 2(1) p by (auto simp: useGas_def NewStateTransition_def not_less word_sub_le split: if_splits)
  have pool: "uint (st_gp st1) + uint ?limit = uint gp" using p(4) by (simp add: NewStateTransition_def)
  then have small: "uint (st_gp st3) + uint (st_initialGas st3) < 2 ^ 64"
    using uint_lt2p [of gp] e(3,4) s2 by simp
  obtain st4 where r: "refundGas st3 = Ret st4" "fixedPart st4 = fixedPart st3" "st_initialGas st4 = st_initialGas st3"
    "st_gas st4 \<le> st_initialGas st4" "uint (st_gp st4) = uint (st_gp st3) + uint (st_gas st4)"
    using refundGas_gas [OF _ small] order_trans [OF e(1) s2(1)] e(3) s2(2) by metis
  have st4: "st4 = st'" using 4 r(1) by simp
  have limit: "st_initialGas st' = ?limit" using r(3) e(3) s2(2) st4 by simp
  show used: "uint (gasUsed st') = uint ?limit - uint (st_gas st')"
    using r(4) limit st4 by (simp add: gasUsed_def word_le_def uint_sub_if')
  show "uint (st_gp st') + uint (gasUsed st') = uint gp" using used r(5) e(4) s2(3) pool st4 by simp
  show "gasUsed st' \<le> ?limit" using used uint_ge_0 [of "st_gas st'"] by (simp add: word_le_def)
  show "st_gasPrice st' = msg_gasPrice msg"
    using r(2) e(2) 2(2) st4 by (simp add: fixedPart_def NewStateTransition_def)
qed

section \<open>Transactions\<close>

text \<open>One transaction with its receipt, from the pool and the totals of the block before it to those after it.\<close>

definition accounted :: "procState \<Rightarrow> transaction \<Rightarrow> receipt \<Rightarrow> procState \<Rightarrow> bool" where
  "accounted ps tx r ps' \<longleftrightarrow> uint (ps_gp ps') + uint (rc_GasUsed r) = uint (ps_gp ps) \<and> rc_GasUsed r \<le> tx_GasLimit tx
     \<and> ps_usedGas ps' = ps_usedGas ps + rc_GasUsed r \<and> rc_CumulativeGasUsed r = ps_usedGas ps'
     \<and> ps_totalUsedMoney ps' = ps_totalUsedMoney ps + uint (rc_GasUsed r) * tx_Price tx"

lemma finishReceipt_gas [simp]:
  "rc_GasUsed (finishReceipt env header tx gas s r) = gas"
  "rc_CumulativeGasUsed (finishReceipt env header tx gas s r) = rc_CumulativeGasUsed r"
  "rc_Status (finishReceipt env header tx gas s r) = rc_Status r"
  by (simp_all add: finishReceipt_def Let_def)

lemma NewReceipt_gas [simp]: "rc_CumulativeGasUsed (NewReceipt root failed gas) = gas"
  by (simp add: NewReceipt_def)

lemma AsMessage_fields:
  assumes "AsMessage Sender tx = Some msg"
  shows "Sender tx = Some (msg_from msg)" "msg_gasLimit msg = tx_GasLimit tx" "msg_gasPrice msg = tx_Price tx"
    "msg_nonce msg = tx_AccountNonce tx" "msg_checkNonce msg" "msg_to msg = tx_Recipient tx" "msg_amount msg = tx_Amount tx"
  using assms by (auto simp: AsMessage_def)

lemma applyEVM_gas:
  assumes gas: "interpreterGas (pe_vm env)" and m: "AsMessage Sender tx = Some msg"
    and run: "applyEVM env author header tx msg ps = Ret (Inr (r, g), ps')"
  shows "accounted ps tx r ps'"
proof -
  obtain ctx where ctx: "NewEVMContext msg header author = Ret ctx"
    using run unfolding applyEVM_def bindGo_Ret_iff by blast
  note run = run [unfolded applyEVM_def ctx bindGo.simps]
  obtain x st where x: "ApplyMessageEx (NewEVM env ctx) msg (ps_gp ps) (ps_state ps) = Ret (x, st)"
    using run unfolding bindGo_Ret_iff by auto
  note run = run [unfolded x bindGo.simps prod.case Let_def]
  obtain ret gas1 money failed where i: "x = Inr (ret, gas1, money, failed)" using run by (cases x) auto
  obtain b where t: "transition (NewEVM env ctx) (NewStateTransition msg (ps_gp ps) (ps_state ps)) = Ret (Inr (ret, b), st)"
    "gas1 = gasUsed st" "money = uint (gasUsed st) * st_gasPrice st"
    using x i by (cases "transition (NewEVM env ctx) (NewStateTransition msg (ps_gp ps) (ps_state ps))")
      (auto simp: ApplyMessageEx_def TransitionDbEx_def split: sum.split_asm prod.split_asm)
  have "interpreterGas (ev_params (NewEVM env ctx))" using gas by (simp add: NewEVM_def)
  note g = transition_gas [OF this t(1)]
  show ?thesis
    using run g AsMessage_fields [OF m] unfolding i sum.case prod.case
    by (auto simp: bindGo_Ret_iff accounted_def t(2,3))
qed

text \<open>A successful call of the chain contract, step by step.\<close>

lemma applyContract_cases:
  assumes m: "AsMessage Sender tx = Some msg"
    and run: "applyContract env header tx msg ps = Ret (Inr (r, g), ps')"
  obtains fn t ops root t' where "pe_FunctionTypeFromId env (take 4 (tx_Payload tx)) = Some fn"
    "if IsMainChain (en_config (pe_engine env)) then AllowInMainChain fn else AllowInSideChain fn"
    "StateDB_GetNonce (ps_state ps) (msg_from msg) = tx_AccountNonce tx"
    "uint (tx_GasLimit tx) * tx_Price tx \<le> StateDB_GetBalance (ps_state ps) (msg_from msg)"
    "tx_GasLimit tx \<le> ps_gp ps" "RequiredGas fn \<le> tx_GasLimit tx"
    "applyCallback env fn tx (StateDB_SubBalance (msg_from msg) (uint (tx_GasLimit tx) * tx_Price tx) (ps_state ps)) (ps_ops ps)
       = Ret (None, t, ops)"
    "settleState env header (IsEIP158 (en_config (pe_engine env)) (hd_Number header))
       (StateDB_AddBalance (msg_from msg) (uint (tx_GasLimit tx - RequiredGas fn) * tx_Price tx) t) = Ret (root, t')"
    "r = finishReceipt env header tx (RequiredGas fn) t' (NewReceipt root False (ps_usedGas ps + RequiredGas fn))"
    "GasPool_AddGas (tx_GasLimit tx - RequiredGas fn) (ps_gp ps - tx_GasLimit tx) = Ret (ps_gp ps')"
    "ps_state ps' = StateDB_SetNonce (msg_from msg) (StateDB_GetNonce t' (msg_from msg) + 1) t'"
    "ps_ops ps' = ops" "ps_usedGas ps' = ps_usedGas ps + RequiredGas fn"
    "ps_totalUsedMoney ps' = ps_totalUsedMoney ps + uint (RequiredGas fn) * tx_Price tx"
proof -
  note f = AsMessage_fields [OF m]
  note run = run [unfolded applyContract_def Let_def]
  obtain fn where fn: "\<not> length (tx_Payload tx) < 4" "pe_FunctionTypeFromId env (take 4 (tx_Payload tx)) = Some fn"
    using run by (auto split: if_splits option.splits)
  note run = run [unfolded if_not_P [OF fn(1)] fn(2) option.case]
  obtain gp where gp: "GasPool_SubGas (tx_GasLimit tx) (ps_gp ps) = Some gp"
    using run by (auto split: if_splits option.splits)
  note run = run [unfolded gp option.case]
  obtain err t ops where cb: "applyCallback env fn tx
      (StateDB_SubBalance (msg_from msg) (uint (tx_GasLimit tx) * tx_Price tx) (ps_state ps)) (ps_ops ps) = Ret (err, t, ops)"
    using run by (auto simp: bindGo_Ret_iff split: if_splits)
  have err: "err = None" using run by (cases err) (auto simp: cb split: if_splits)
  obtain gp' where gp': "GasPool_AddGas (tx_GasLimit tx - RequiredGas fn) gp = Ret gp'"
    using run by (cases "GasPool_AddGas (tx_GasLimit tx - RequiredGas fn) gp") (auto simp: cb err split: if_splits)
  obtain root t' where st: "settleState env header (IsEIP158 (en_config (pe_engine env)) (hd_Number header))
      (StateDB_AddBalance (msg_from msg) (uint (tx_GasLimit tx - RequiredGas fn) * tx_Price tx) t) = Ret (root, t')"
    using run by (auto simp: cb err gp' bindGo_Ret_iff split: if_splits)
  have sub: "tx_GasLimit tx \<le> ps_gp ps" "gp = ps_gp ps - tx_GasLimit tx"
    using gp by (auto simp: GasPool_SubGas_def not_less split: if_splits)
  show thesis
    by (rule that [OF fn(2) _ _ _ sub(1) _ cb [unfolded err] st])
      (use run f gp' sub(2) in \<open>auto simp: cb err gp' st not_less not_less_iff_gr_or_eq split: if_splits\<close>)
qed

lemma AddGas_Ret:
  assumes "GasPool_AddGas amount gp = Ret gp'"
  shows "uint gp' = uint gp + uint amount"
proof -
  have m: "uint (- 1 :: u64) = 2 ^ 64 - 1" by code_simp
  have "gp' = gp + amount" "\<not> - 1 - amount < gp" using assms by (auto simp: GasPool_AddGas_def split: if_splits)
  moreover have "uint (- 1 - amount) = 2 ^ 64 - 1 - uint amount"
    using uint_lt2p [of amount] unfolding uint_sub_if' m by simp
  ultimately show ?thesis by (simp add: word_less_def uint_plus_if')
qed

lemma applyContract_gas:
  assumes "AsMessage Sender tx = Some msg" "applyContract env header tx msg ps = Ret (Inr (r, g), ps')"
  shows "accounted ps tx r ps'"
  using assms
proof (cases rule: applyContract_cases)
  case (1 fn t ops root t')
  show ?thesis
    using AddGas_Ret [OF 1(10)] 1(5,6) unfolding accounted_def 1(9,13,14)
    by (simp add: word_le_def uint_sub_if')
qed

lemma ApplyTransactionEx_gas:
  assumes "interpreterGas (pe_vm env)" "ApplyTransactionEx env author header tx ps = Ret (Inr (r, g), ps')"
  shows "accounted ps tx r ps'"
  using assms(2) applyEVM_gas [OF assms(1)] applyContract_gas unfolding ApplyTransactionEx_def
  by (simp split: option.splits if_splits) blast+

section \<open>Blocks\<close>

definition gasOf :: "receipt list \<Rightarrow> int" where
  "gasOf rs = (\<Sum>r\<leftarrow>rs. uint (rc_GasUsed r))"

definition feesOf :: "transaction list \<Rightarrow> receipt list \<Rightarrow> int" where
  "feesOf txs rs = (\<Sum>(tx, r)\<leftarrow>zip txs rs. uint (rc_GasUsed r) * tx_Price tx)"

lemma gasOf_nonneg: "0 \<le> gasOf rs"
  unfolding gasOf_def by (induction rs) simp_all

lemma gasOf_take: "gasOf (take i rs) \<le> gasOf rs"
proof -
  have "gasOf rs = gasOf (take i rs) + gasOf (drop i rs)"
    unfolding gasOf_def by (metis append_take_drop_id map_append sum_list_append)
  then show ?thesis using gasOf_nonneg [of "drop i rs"] by simp
qed

lemma processTxs_gas:
  assumes gas: "interpreterGas (pe_vm env)"
    and "processTxs env block i txs ps = Ret (Inr rs, ps')"
  shows "length rs = length txs \<and> uint (ps_gp ps') + gasOf rs = uint (ps_gp ps)
    \<and> ps_usedGas ps' = ps_usedGas ps + of_int (gasOf rs)
    \<and> ps_totalUsedMoney ps' = ps_totalUsedMoney ps + feesOf txs rs
    \<and> (\<forall>k < length rs. rc_GasUsed (rs ! k) \<le> tx_GasLimit (txs ! k)
         \<and> rc_CumulativeGasUsed (rs ! k) = ps_usedGas ps + of_int (gasOf (take (Suc k) rs)))"
  using assms(2)
proof (induction txs arbitrary: i ps rs)
  case (Cons tx txs)
  let ?ps = "ps\<lparr>ps_state := StateDB_Prepare (pe_txHash env tx) (pe_blockHash env (lb_header block)) (int i) (ps_state ps)\<rparr>"
  obtain x ps1 where x: "ApplyTransactionEx env None (lb_header block) tx ?ps = Ret (x, ps1)"
    using Cons.prems by (auto simp: bindGo_Ret_iff Let_def)
  obtain r g where r: "x = Inr (r, g)" using Cons.prems by (cases x) (auto simp: x)
  obtain rs1 where rs1: "processTxs env block (Suc i) txs ps1 = Ret (Inr rs1, ps')" "rs = r # rs1"
    using Cons.prems by (cases "processTxs env block (Suc i) txs ps1")
      (auto simp: x r map_sum_def split: sum.split_asm)
  have a: "accounted ?ps tx r ps1" using ApplyTransactionEx_gas [OF gas] x r by blast
  have IH: "length rs1 = length txs" "uint (ps_gp ps') + gasOf rs1 = uint (ps_gp ps1)"
    "ps_usedGas ps' = ps_usedGas ps1 + of_int (gasOf rs1)"
    "ps_totalUsedMoney ps' = ps_totalUsedMoney ps1 + feesOf txs rs1"
    "\<And>k. k < length rs1 \<Longrightarrow> rc_GasUsed (rs1 ! k) \<le> tx_GasLimit (txs ! k)
       \<and> rc_CumulativeGasUsed (rs1 ! k) = ps_usedGas ps1 + of_int (gasOf (take (Suc k) rs1))"
    using Cons.IH [OF rs1(1)] by blast+
  have k: "rc_GasUsed (rs ! k) \<le> tx_GasLimit ((tx # txs) ! k)
      \<and> rc_CumulativeGasUsed (rs ! k) = ps_usedGas ps + of_int (gasOf (take (Suc k) rs))" if "k < length rs" for k
  proof (cases k)
    case 0
    then show ?thesis using a by (simp add: rs1(2) accounted_def gasOf_def)
  next
    case (Suc j)
    then have "j < length rs1" using that rs1(2) by simp
    then show ?thesis using a IH(5) [of j] Suc by (simp add: rs1(2) accounted_def gasOf_def add.assoc)
  qed
  show ?case using IH(1-4) a k by (simp add: rs1(2) accounted_def gasOf_def feesOf_def)
qed (simp add: gasOf_def feesOf_def)

text \<open>
  C12: a block that is processed without an error has a receipt for every transaction. The gas the block
  reports is the sum of the gas of its receipts, without wrap-around, and at most the gas limit of its
  header; no transaction uses more than its own limit, and each receipt carries the running total. The sum
  of the fees of the transactions is what the engine distributes when it finalises the block.
\<close>

theorem Process_accounts_gas:
  assumes "interpreterGas (pe_vm env)" "Process env block s = Ret (Inr (receipts, logs, usedGas, ops), s')"
  shows "length receipts = length (lb_transactions block) \<and> uint usedGas = gasOf receipts
    \<and> uint usedGas \<le> uint (hd_GasLimit (lb_header block))
    \<and> (\<forall>k < length receipts. rc_GasUsed (receipts ! k) \<le> tx_GasLimit (lb_transactions block ! k)
         \<and> uint (rc_CumulativeGasUsed (receipts ! k)) = gasOf (take (Suc k) receipts))
    \<and> (\<exists>t ops0 b. Engine_Finalize (pe_engine env) (lb_header block) (lb_transactions block)
         (feesOf (lb_transactions block) receipts) receipts t ops0 = Ret (b, s', ops))"
proof -
  let ?txs = "lb_transactions block" and ?limit = "hd_GasLimit (lb_header block)"
  let ?ps = "\<lparr>ps_gp = ?limit, ps_state = s, ps_ops = [], ps_usedGas = 0, ps_totalUsedMoney = 0\<rparr>"
  have gp: "GasPool_AddGas ?limit 0 = Ret ?limit" by (simp add: GasPool_AddGas_def)
  note run = assms(2) [unfolded Process_def gp bindGo.simps]
  obtain x ps where x: "processTxs env block 0 ?txs ?ps = Ret (x, ps)" using run by (auto simp: bindGo_Ret_iff)
  note run = run [unfolded x bindGo.simps prod.case]
  obtain rs where rs: "x = Inr rs" using run by (cases x) auto
  note run = run [unfolded rs sum.case]
  obtain b t ops1 where fin: "Engine_Finalize (pe_engine env) (lb_header block) ?txs (ps_totalUsedMoney ps) rs
      (ps_state ps) (ps_ops ps) = Ret (b, t, ops1)"
    using run unfolding bindGo_Ret_iff by (metis prod_cases3)
  have eq: "receipts = rs" "usedGas = ps_usedGas ps" and f: "Engine_Finalize (pe_engine env) (lb_header block) ?txs
      (ps_totalUsedMoney ps) rs (ps_state ps) (ps_ops ps) = Ret (b, s', ops)"
    using run fin unfolding fin bindGo.simps prod.case by simp_all
  have p: "length rs = length ?txs" "uint (ps_gp ps) + gasOf rs = uint ?limit" "ps_usedGas ps = of_int (gasOf rs)"
    "ps_totalUsedMoney ps = feesOf ?txs rs"
    "\<And>k. k < length rs \<Longrightarrow> rc_GasUsed (rs ! k) \<le> tx_GasLimit (?txs ! k)
       \<and> rc_CumulativeGasUsed (rs ! k) = of_int (gasOf (take (Suc k) rs))"
    using processTxs_gas [OF assms(1) x [unfolded rs]] by simp_all
  have lim: "gasOf rs \<le> uint ?limit" using p(2) uint_ge_0 [of "ps_gp ps"] by linarith
  have u: "uint (of_int (gasOf (take k rs)) :: u64) = gasOf (take k rs)" for k
  proof -
    have "gasOf (take k rs) < 2 ^ LENGTH(64)" using gasOf_take [of k rs] lim uint_lt2p [of ?limit] by linarith
    then show ?thesis using gasOf_nonneg [of "take k rs"] unfolding uint_word_of_int by (rule mod_pos_pos_trivial [rotated])
  qed
  have used: "uint (ps_usedGas ps) = gasOf rs" using u [of "length rs"] by (simp add: p(3))
  show ?thesis unfolding eq used using p(1,5) lim u f [unfolded p(4)] by (intro conjI) (simp, simp, simp, simp, blast)
qed

section \<open>A block of two transactions\<close>

text \<open>A user sends 5 to an account, and calls a contract whose execution fails after it has already credited itself.\<close>

definition demo_vm :: vmParams where
  "demo_vm = \<lparr>vp_precompiles = (\<lambda>_ _. None),
     vp_interpret = (\<lambda>ctx cfg depth c input readOnly s.
       Ret ([], Some (ErrInterpreter ''stack underflow''), c, StateDB_AddBalance (ct_self c) 1000 s)),
     vp_keccak = (\<lambda>b. replicate 32 7), vp_CreateAddress = (\<lambda>a n. a), vp_CreateAddress2 = (\<lambda>a h b. a)\<rparr>"

definition demo_proc :: "address \<Rightarrow> (bool list option, blob) procEnv" where
  "demo_proc from = \<lparr>pe_engine = demo_engineOf demo_env demo_blobWire (StringBlob []) demo_epoch,
     pe_staking = demo_senv demo_user demo_val 0, pe_vm = demo_vm, pe_NoRecursion = False,
     pe_Sender = (\<lambda>n tx. Some from), pe_FunctionTypeFromId = (\<lambda>b. Some Delegate),
     pe_txHash = (\<lambda>tx. zeroHash), pe_blockHash = (\<lambda>h. [8])\<rparr>"

definition demo_ledger :: stateDB where
  "demo_ledger = StateDB_SetCode (vp_keccak demo_vm) [8] (Some [1]) (StateDB_AddDepositBalance [1] 10
     (StateDB_AddBalance [2] 1000000 (StateDB_New Map.empty empty_trie)))"

definition demo_send :: "u64 \<Rightarrow> address \<Rightarrow> int \<Rightarrow> transaction" where
  "demo_send nonce to amount = \<lparr>tx_AccountNonce = nonce, tx_Price = 2, tx_GasLimit = 30000, tx_Recipient = Some to,
     tx_Amount = amount, tx_Payload = [], tx_V = 0, tx_R = 0, tx_S = 0\<rparr>"

definition demo_txs :: "transaction list" where
  "demo_txs = [demo_send 0 [9] 5, demo_send 1 [8] 7]"

definition demo_body :: "blob ligoBlock" where
  "demo_body = \<lparr>lb_header = (demo_header 5)\<lparr>hd_GasLimit := 200000, hd_Difficulty := Some 1, hd_Coinbase := [1]\<rparr>, lb_uncles = [],
     lb_transactions = demo_txs\<rparr>"

lemma demo_processed:
  "case Process (demo_proc [2]) demo_body demo_ledger of
     Ret (Inr (receipts, logs, usedGas, ops), s') \<Rightarrow> usedGas = 51000 \<and> map rc_GasUsed receipts = [21000, 30000]
       \<and> map rc_Status receipts = [1, 0] \<and> StateDB_GetBalance s' [8] = 0 \<and> StateDB_GetNonce s' [2] = 2
   | _ \<Rightarrow> False"
  by code_simp

theorem Process_accounts_gas_witness:
  "\<exists>receipts logs ops s'. Process (demo_proc [2]) demo_body demo_ledger = Ret (Inr (receipts, logs, 51000, ops), s')
     \<and> map rc_GasUsed receipts = [21000, 30000] \<and> gasOf receipts = 51000 \<and> StateDB_GetBalance s' [8] = 0"
proof -
  have law: "interpreterGas (pe_vm (demo_proc [2]))" by (simp add: interpreterGas_def demo_proc_def demo_vm_def)
  obtain x s' where x: "Process (demo_proc [2]) demo_body demo_ledger = Ret (x, s')"
    using demo_processed by (cases "Process (demo_proc [2]) demo_body demo_ledger") auto
  obtain receipts logs ops where p: "Process (demo_proc [2]) demo_body demo_ledger = Ret (Inr (receipts, logs, 51000, ops), s')"
    "map rc_GasUsed receipts = [21000, 30000]" "StateDB_GetBalance s' [8] = 0"
    using demo_processed x by (cases x) auto
  from Process_accounts_gas [OF law p(1)] have "uint (51000 :: u64) = gasOf receipts" by (rule conjunct1 [OF conjunct2])
  with p show ?thesis by auto
qed

end
