(* ===== verification/Transaction_Theorems.thy ===== *)
theory Transaction_Theorems
  imports Transaction_Gas State_Properties
begin

text \<open>
  What a transaction does to the accounts: a message whose execution fails costs its sender the gas and
  nothing else, and a call of the chain contract changes the wealth of nobody but its sender, by the fee.
\<close>

section \<open>Runs of the virtual machine\<close>

text \<open>
  What is relied on of the interpreter: it changes the state through the methods of \<open>StateDB\<close> only, and
  reverts to no snapshot but those it has made itself.
\<close>

definition interpreterSteps :: "vmParams \<Rightarrow> bool" where
  "interpreterSteps p \<longleftrightarrow> (\<forall>ctx cfg depth c input readOnly s ret err c' s'.
     vp_interpret p ctx cfg depth c input readOnly s = Ret (ret, err, c', s')
       \<longrightarrow> (sdb_step (vp_keccak p) (sdb_nextRevisionId s))\<^sup>*\<^sup>* s s')"

lemma step_mono:
  assumes "sdb_step keccak k s s'" "k' \<le> k"
  shows "sdb_step keccak k' s s'"
  using assms(1)
proof (induction rule: sdb_step.induct)
  case (Revert revid s s')
  then show ?case using assms(2) by (intro sdb_step.Revert) simp_all
qed (rule sdb_step.intros; assumption?)+

lemma steps_mono: "(sdb_step keccak k)\<^sup>*\<^sup>* s s' \<Longrightarrow> k' \<le> k \<Longrightarrow> (sdb_step keccak k')\<^sup>*\<^sup>* s s'"
  by (erule rtranclp_mono [THEN predicate2D, rotated]) (auto intro: step_mono)

lemma reachable_steps: "(sdb_step keccak k)\<^sup>*\<^sup>* s s' \<Longrightarrow> sdb_reachable keccak s \<Longrightarrow> sdb_reachable keccak s'"
  by (induction rule: rtranclp_induct) (auto intro: sdb_reachable.Step)

lemma run_steps:
  assumes "interpreterSteps (ev_params evm)" "run evm c input readOnly s = Ret (ret, err, c', s')"
  shows "(sdb_step (vp_keccak (ev_params evm)) (sdb_nextRevisionId s))\<^sup>*\<^sup>* s s'"
proof (cases "Option.bind (ct_CodeAddr c) (precompile evm)")
  case None
  then show ?thesis using assms unfolding interpreterSteps_def
    by (simp add: run_def interpreterRun_def split: if_splits)
qed (use assms(2) in \<open>auto simp: run_def split: prod.splits\<close>)

lemma steps_next:
  assumes "sdb_reachable keccak s" "(sdb_step keccak (sdb_nextRevisionId s))\<^sup>*\<^sup>* s s'"
  shows "sdb_nextRevisionId s \<le> sdb_nextRevisionId s'"
  using since_run [of keccak s s s'] assms sdb_reachable_inv [OF assms(1)] since_refl
  by (simp add: sdb_inv_def since_def)

lemma Snapshot_next:
  assumes "StateDB_Snapshot s = (s1, ident)"
  shows "sdb_nextRevisionId s1 = ident + 1" "s1 = fst (StateDB_Snapshot s)" "world_of s1 = world_of s"
    "sdb_reachable keccak s \<Longrightarrow> sdb_reachable keccak s1"
proof -
  show 1: "sdb_nextRevisionId s1 = ident + 1" "s1 = fst (StateDB_Snapshot s)"
    using assms by (auto simp: StateDB_Snapshot_def Let_def)
  show "world_of s1 = world_of s" unfolding 1(2) by (rule world_of_cong) (simp_all add: StateDB_Snapshot_def Let_def)
  show "sdb_reachable keccak s \<Longrightarrow> sdb_reachable keccak s1"
    unfolding 1(2) by (rule sdb_reachable.Step [OF _ sdb_step.Snapshot])
qed

text \<open>A run after a snapshot and some calls, and the revert to the snapshot.\<close>

lemma guarded_run:
  assumes law: "interpreterSteps (ev_params evm)" and s: "sdb_reachable (vp_keccak (ev_params evm)) s"
    and snap: "StateDB_Snapshot s = (s1, ident)"
    and pre: "(sdb_step (vp_keccak (ev_params evm)) (ident + 1))\<^sup>*\<^sup>* s1 t"
    and run: "run evm c input readOnly t = Ret (ret, err, c', t')"
  shows "(sdb_step (vp_keccak (ev_params evm)) (ident + 1))\<^sup>*\<^sup>* s1 t'"
proof -
  let ?k = "vp_keccak (ev_params evm)"
  have "sdb_nextRevisionId s1 \<le> sdb_nextRevisionId t"
    using steps_next [OF Snapshot_next(4) [OF snap s]] pre by (simp add: Snapshot_next(1) [OF snap])
  then have "(sdb_step ?k (ident + 1))\<^sup>*\<^sup>* t t'"
    using steps_mono [OF run_steps [OF law run]] by (simp add: Snapshot_next(1) [OF snap])
  with pre show ?thesis by (rule rtranclp_trans)
qed

lemma reverted:
  assumes s: "sdb_reachable keccak s" and snap: "StateDB_Snapshot s = (s1, ident)"
    and steps: "(sdb_step keccak (ident + 1))\<^sup>*\<^sup>* s1 t" and rev: "StateDB_RevertToSnapshot ident t = Ret t'"
  shows "world_of t' = world_of s" "sdb_reachable keccak t'"
proof -
  show "world_of t' = world_of s" using snapshot_revert [OF s snap steps] rev by auto
  have "sdb_reachable keccak t" by (rule reachable_steps [OF steps Snapshot_next(4) [OF snap s]])
  then show "sdb_reachable keccak t'" by (rule sdb_reachable.Step [OF _ sdb_step.Revert [OF order_refl rev]])
qed

lemma transfer_steps: "(sdb_step keccak k)\<^sup>*\<^sup>* s (Transfer x y v s)"
  unfolding Transfer_def
  by (rule rtranclp.rtrancl_into_rtrancl [OF r_into_rtranclp]) (rule sdb_step.intros)+

lemma settleRun_world:
  assumes s: "sdb_reachable keccak s" and snap: "StateDB_Snapshot s = (s1, ident)"
    and steps: "(sdb_step keccak (ident + 1))\<^sup>*\<^sup>* s1 t"
    and settle: "settleRun ident (ret, err, c, t) = Ret (ret', gas, err', s')"
  shows "sdb_reachable keccak s'" "err' \<noteq> None \<Longrightarrow> world_of s' = world_of s"
proof (atomize (full), cases "err = None")
  case True
  then show "sdb_reachable keccak s' \<and> (err' \<noteq> None \<longrightarrow> world_of s' = world_of s)"
    using settle reachable_steps [OF steps Snapshot_next(4) [OF snap s]] by (simp add: settleRun_def)
next
  case False
  then have "StateDB_RevertToSnapshot ident t = Ret s'"
    using settle by (auto simp: settleRun_def bindGo_Ret_iff Let_def)
  then show "sdb_reachable keccak s' \<and> (err' \<noteq> None \<longrightarrow> world_of s' = world_of s)"
    using reverted [OF s snap steps] by blast
qed

lemma EVM_Call_world:
  assumes law: "interpreterSteps (ev_params evm)" and s: "sdb_reachable (vp_keccak (ev_params evm)) s"
    and call: "EVM_Call evm caller addr input gas value s = Ret (ret, gas', err, s')"
  shows "sdb_reachable (vp_keccak (ev_params evm)) s'" "err \<noteq> None \<Longrightarrow> world_of s' = world_of s"
proof (atomize (full))
  let ?k = "vp_keccak (ev_params evm)"
  obtain s1 ident where snap: "StateDB_Snapshot s = (s1, ident)" by (cases "StateDB_Snapshot s")
  let ?t = "Transfer caller addr value (if StateDB_Exist s1 addr then s1 else StateDB_CreateAccount addr s1)"
  have pre: "(sdb_step ?k (ident + 1))\<^sup>*\<^sup>* s1 ?t"
    using rtranclp_trans [OF r_into_rtranclp [of "sdb_step ?k (ident + 1)", OF sdb_step.CreateAccount] transfer_steps]
    by (simp add: transfer_steps)
  have 1: "sdb_reachable ?k s1" by (rule Snapshot_next(4) [OF snap s])
  have 2: "sdb_reachable ?k s' \<and> (err \<noteq> None \<longrightarrow> world_of s' = world_of s)"
    if run: "bindGo (run evm c input False ?t) (settleRun ident) = Ret (ret, gas', err, s')" for c
  proof -
    obtain ret1 err1 c1 t1 where r: "run evm c input False ?t = Ret (ret1, err1, c1, t1)"
      "settleRun ident (ret1, err1, c1, t1) = Ret (ret, gas', err, s')"
      using run unfolding bindGo_Ret_iff by auto
    show ?thesis using settleRun_world [OF s snap guarded_run [OF law s snap pre r(1)] r(2)] by blast
  qed
  show "sdb_reachable ?k s' \<and> (err \<noteq> None \<longrightarrow> world_of s' = world_of s)"
    using call s 1 2 unfolding EVM_Call_def snap prod.case Let_def by (simp split: if_split_asm)
qed

lemma storeCode_steps:
  assumes "storeCode evm address big (ret, err, c, t) = (ret', err', c', t')"
  shows "(sdb_step (vp_keccak (ev_params evm)) k)\<^sup>*\<^sup>* t t'"
  using assms
  by (auto simp: storeCode_def intro: sdb_step.SetCode split: if_splits prod.splits bool.splits)

lemma settleCreate_world:
  assumes s: "sdb_reachable (vp_keccak (ev_params evm)) s" and snap: "StateDB_Snapshot s = (s1, ident)"
    and steps: "(sdb_step (vp_keccak (ev_params evm)) (ident + 1))\<^sup>*\<^sup>* s1 t"
    and home: "IsHomestead (ev_config evm) (cx_BlockNumber (ev_Context evm))"
    and settle: "settleCreate evm address ident (ret, err, c, t) = Ret (ret', addr, gas, err', s')"
  shows "sdb_reachable (vp_keccak (ev_params evm)) s'" "err' \<noteq> None \<Longrightarrow> world_of s' = world_of s"
proof (atomize (full))
  let ?k = "vp_keccak (ev_params evm)"
  let ?big = "IsEIP158 (ev_config evm) (cx_BlockNumber (ev_Context evm)) \<and> MaxCodeSize < int (length ret)"
  obtain ret1 err1 c1 t1 where 1: "storeCode evm address ?big (ret, err, c, t) = (ret1, err1, c1, t1)"
    by (cases "storeCode evm address ?big (ret, err, c, t)") auto
  have steps1: "(sdb_step ?k (ident + 1))\<^sup>*\<^sup>* s1 t1" by (rule rtranclp_trans [OF steps storeCode_steps [OF 1]])
  show "sdb_reachable ?k s' \<and> (err' \<noteq> None \<longrightarrow> world_of s' = world_of s)"
  proof (cases "?big \<or> err1 \<noteq> None")
    case True
    then have "StateDB_RevertToSnapshot ident t1 = Ret s'"
      using settle home 1 by (auto simp: settleCreate_def bindGo_Ret_iff Let_def)
    then show ?thesis using reverted [OF s snap steps1] by blast
  next
    case False
    then show ?thesis
      using settle 1 reachable_steps [OF steps1 Snapshot_next(4) [OF snap s]]
      by (auto simp: settleCreate_def bindGo_Ret_iff Let_def)
  qed
qed

lemma EVM_create_world:
  assumes law: "interpreterSteps (ev_params evm)" and s: "sdb_reachable (vp_keccak (ev_params evm)) s"
    and home: "IsHomestead (ev_config evm) (cx_BlockNumber (ev_Context evm))" and depth: "ev_depth evm = 0"
    and create: "EVM_create evm caller code gas value address s = Ret (ret, addr, gas', err, s')"
    and err: "err \<noteq> Some ErrInsufficientBalance"
  shows "sdb_reachable (vp_keccak (ev_params evm)) s'"
    "err \<noteq> None \<Longrightarrow> world_of s' = world_of (StateDB_SetNonce caller (StateDB_GetNonce s caller + 1) s)"
proof (atomize (full))
  let ?k = "vp_keccak (ev_params evm)" and ?s = "StateDB_SetNonce caller (StateDB_GetNonce s caller + 1) s"
  have s0: "sdb_reachable ?k ?s" by (rule calls_reachable(17) [OF s])
  obtain s1 ident where snap: "StateDB_Snapshot ?s = (s1, ident)" by (cases "StateDB_Snapshot ?s")
  let ?c = "StateDB_CreateAccount address s1"
  let ?n = "if IsEIP158 (ev_config evm) (cx_BlockNumber (ev_Context evm)) then StateDB_SetNonce address 1 ?c else ?c"
  let ?t = "Transfer caller address value ?n"
  have "(sdb_step ?k (ident + 1))\<^sup>*\<^sup>* s1 ?n"
    using r_into_rtranclp [of "sdb_step ?k (ident + 1)", OF sdb_step.CreateAccount [of ?k "ident + 1" s1 address]]
      sdb_step.SetNonce [of ?k "ident + 1" ?c address 1] by auto
  then have pre: "(sdb_step ?k (ident + 1))\<^sup>*\<^sup>* s1 ?t" by (rule rtranclp_trans [OF _ transfer_steps])
  have 2: "sdb_reachable ?k s' \<and> (err \<noteq> None \<longrightarrow> world_of s' = world_of ?s)"
    if run: "bindGo (run evm c [] False ?t) (settleCreate evm address ident) = Ret (ret, addr, gas', err, s')" for c
  proof -
    obtain ret1 err1 c1 t1 where r: "run evm c [] False ?t = Ret (ret1, err1, c1, t1)"
      "settleCreate evm address ident (ret1, err1, c1, t1) = Ret (ret, addr, gas', err, s')"
      using run unfolding bindGo_Ret_iff by auto
    show ?thesis using settleCreate_world [OF s0 snap guarded_run [OF law s0 snap pre r(1)] home r(2)] by blast
  qed
  show "sdb_reachable ?k s' \<and> (err \<noteq> None \<longrightarrow> world_of s' = world_of ?s)"
    using create depth err s0 2 unfolding EVM_create_def snap prod.case Let_def
    by (simp add: CallCreateDepth_def split: if_split_asm)
qed

section \<open>Account data\<close>

lemma world_data:
  assumes "world_of s = world_of s'" "\<And>x. g (x\<lparr>acc_SideChainDepositBalance := []\<rparr>) = g x"
  shows "g (data_at s a) = g (data_at s' a)"
  using getField_data [where g = g and d = "g (so_data (newObject a zeroAccount))" and a = a, OF assms]
  by (simp add: getField_def data_at_def acct_at_def split: option.splits)

lemma CreateAccount_at:
  assumes "sdb_ok s" "\<not> StateDB_Exist s a"
  shows "data_at (StateDB_CreateAccount a s) = data_at s"
proof -
  have none: "StateDB_getStateObject s a = None" using assms(2) by (simp add: StateDB_Exist_def)
  obtain s1 newobj where c: "StateDB_createObject a s = ((StateDB_setStateObject newobj s1, newobj), StateDB_getStateObject s a)"
    by (rule createObject_unfold [where codes = "sdb_codes s"])
  have "StateDB_CreateAccount a s = writeBack (StateDB_GetOrNewStateObject a s)"
    using c none by (simp add: StateDB_CreateAccount_def StateDB_GetOrNewStateObject_def writeBack_def)
  then show ?thesis using op_at(1) [OF assms(1) acts_id, of a] by simp
qed

lemma createMissing_at:
  assumes "sdb_reachable keccak (st_state st)"
  shows "sdb_reachable keccak (st_state (createMissing a st))" "data_at (st_state (createMissing a st)) = data_at (st_state st)"
  using assms sdb_reachable.Step [OF assms sdb_step.CreateAccount, of a] CreateAccount_at [OF reachable_ok [OF assms], of a]
  by (simp_all add: createMissing_def)

section \<open>Failed messages\<close>

text \<open>The parts of an account that a failed execution must not change, apart from fee and nonce.\<close>

definition books :: "account \<Rightarrow> (u64 \<times> int) \<times> int list" where
  "books d = ((acc_Nonce d, acc_Balance d), [acc_DepositBalance d, acc_ChainBalance d, acc_DelegateBalance d, acc_ProxiedBalance d,
     acc_DepositProxiedBalance d, acc_PendingRefundBalance d, acc_RewardBalance d])"

lemma preCheck_state:
  assumes "preCheck st = (None, st')" "sdb_reachable keccak (st_state st)"
  defines "sender \<equiv> msg_from (st_msg st)"
  shows "sdb_reachable keccak (st_state st')"
    "data_at (st_state st') = (data_at (st_state st))(sender := acc_Balance_update
       (\<lambda>b. b - uint (msg_gasLimit (st_msg st)) * st_gasPrice st) (data_at (st_state st) sender))"
proof -
  let ?st = "createMissing sender (createMissing sender st)"
  have c: "sdb_reachable keccak (st_state ?st)" "data_at (st_state ?st) = data_at (st_state st)"
    using createMissing_at [OF createMissing_at(1) [OF assms(2)], of sender sender] createMissing_at(2) [OF assms(2), of sender]
    by simp_all
  have "st_state st' = StateDB_SubBalance sender (uint (msg_gasLimit (st_msg st)) * st_gasPrice st) (st_state ?st)"
    using assms(1) unfolding sender_def
    by (auto simp: preCheck_def buyGas_def st_from_def Let_def split: if_splits option.splits)
  then show "sdb_reachable keccak (st_state st')"
    "data_at (st_state st') = (data_at (st_state st))(sender := acc_Balance_update
       (\<lambda>b. b - uint (msg_gasLimit (st_msg st)) * st_gasPrice st) (data_at (st_state st) sender))"
    using calls_reachable(1) [OF c(1)] c reachable_ok [OF c(1)] by (simp_all add: effects)
qed

lemma refundGas_state:
  assumes "refundGas st = Ret st'" "sdb_reachable keccak (st_state st)"
  defines "sender \<equiv> msg_from (st_msg st)"
  shows "sdb_reachable keccak (st_state st')"
    "data_at (st_state st') = (data_at (st_state st))(sender := acc_Balance_update
       (\<lambda>b. b + uint (st_gas st') * st_gasPrice st) (data_at (st_state st) sender))"
proof -
  have c: "sdb_reachable keccak (st_state (createMissing sender (st\<lparr>st_gas := g\<rparr>)))"
    "data_at (st_state (createMissing sender (st\<lparr>st_gas := g\<rparr>))) = data_at (st_state st)" for g
    using createMissing_at [of keccak "st\<lparr>st_gas := g\<rparr>" sender] assms(2) by simp_all
  obtain g where "st_state st' = StateDB_AddBalance sender (uint (st_gas st') * st_gasPrice st)
      (st_state (createMissing sender (st\<lparr>st_gas := g\<rparr>)))"
    using assms(1) unfolding sender_def
    by (auto simp: refundGas_def st_from_def Let_def bindGo_Ret_iff)
  then show "sdb_reachable keccak (st_state st')"
    "data_at (st_state st') = (data_at (st_state st))(sender := acc_Balance_update
       (\<lambda>b. b + uint (st_gas st') * st_gasPrice st) (data_at (st_state st) sender))"
    using steps_reachable(1) [OF c(1)] c reachable_ok [OF c(1)] by (simp_all add: effects)
qed

lemma execute_failed:
  assumes law: "interpreterSteps (ev_params evm)" and s: "sdb_reachable (vp_keccak (ev_params evm)) (st_state st)"
    and home: "IsHomestead (ev_config evm) (cx_BlockNumber (ev_Context evm))" and depth: "ev_depth evm = 0"
    and run: "execute evm sender st = Ret (ret, err, st')"
    and err: "err \<noteq> None" "err \<noteq> Some ErrInsufficientBalance"
  shows "sdb_reachable (vp_keccak (ev_params evm)) (st_state st')"
    "books (data_at (st_state st') a) = books (((data_at (st_state st))
       (sender := acc_Nonce_update (\<lambda>_. acc_Nonce (data_at (st_state st) sender) + 1) (data_at (st_state st) sender))) a)"
proof -
  let ?k = "vp_keccak (ev_params evm)"
  let ?s = "StateDB_SetNonce sender (StateDB_GetNonce (st_state st) sender + 1) (st_state st)"
  have r: "sdb_reachable ?k ?s" by (rule calls_reachable(17) [OF s])
  have d: "data_at ?s = (data_at (st_state st))(sender := acc_Nonce_update (\<lambda>_. acc_Nonce (data_at (st_state st) sender) + 1) (data_at (st_state st) sender))"
    using reachable_ok [OF s] by (simp add: effects)
  have "\<exists>t. sdb_reachable ?k (st_state st') \<and> world_of (st_state st') = world_of t \<and> data_at t = data_at ?s"
  proof (cases "msg_to (st_msg st)")
    case None
    obtain ret addr gas s' where "EVM_create evm sender (st_data st) (st_gas st) (st_value st)
        (vp_CreateAddress (ev_params evm) sender (StateDB_GetNonce (st_state st) sender)) (st_state st) = Ret (ret, addr, gas, err, s')"
      "st_state st' = s'"
      using run None by (auto simp: execute_def EVM_Create_def bindGo_Ret_iff)
    then show ?thesis using EVM_create_world [OF law s home depth _ err(2)] err(1) by blast
  next
    case (Some to)
    let ?st = "createMissing to (st\<lparr>st_state := ?s\<rparr>)"
    have c: "sdb_reachable ?k (st_state ?st)" "data_at (st_state ?st) = data_at ?s"
      using createMissing_at [of ?k "st\<lparr>st_state := ?s\<rparr>" to] r by simp_all
    obtain gas s' where "EVM_Call evm sender to (st_data st) (st_gas st) (st_value st) (st_state ?st) = Ret (ret, gas, err, s')"
      "st_state st' = s'"
      using run Some by (auto simp: execute_def st_to_def bindGo_Ret_iff Let_def)
    then show ?thesis using EVM_Call_world [OF law c(1)] err(1) c(2) by blast
  qed
  then obtain t where t: "sdb_reachable ?k (st_state st')" "world_of (st_state st') = world_of t" "data_at t = data_at ?s"
    by blast
  show "sdb_reachable ?k (st_state st')" by (rule t(1))
  show "books (data_at (st_state st') a) = books (((data_at (st_state st))
       (sender := acc_Nonce_update (\<lambda>_. acc_Nonce (data_at (st_state st) sender) + 1) (data_at (st_state st) sender))) a)"
    using world_data [OF t(2), where g = books and a = a] t(3) d by (simp add: books_def)
qed

text \<open>
  C11: a message whose execution fails (out of gas, reverted by the contract, or refused) still pays for the
  gas it used, at its price and at most its limit, and its nonce is used up; nothing else of any account
  changes, however far the execution had come: no balance but the sender's, no deposit, no delegation and
  no reward.
\<close>

theorem failed_message_pays_gas:
  assumes "interpreterGas (ev_params evm)" "interpreterSteps (ev_params evm)"
    "sdb_reachable (vp_keccak (ev_params evm)) s"
    "IsHomestead (ev_config evm) (cx_BlockNumber (ev_Context evm))" "ev_depth evm = 0"
    "ApplyMessageEx evm msg gp s = Ret (Inr (ret, gas, money, True), st)"
  shows "money = uint gas * msg_gasPrice msg \<and> gas \<le> msg_gasLimit msg \<and> uint (st_gp st) = uint gp - uint gas
    \<and> (\<forall>a. StateDB_GetBalance (st_state st) a = StateDB_GetBalance s a - (if a = msg_from msg then money else 0)
        \<and> StateDB_GetNonce (st_state st) a = StateDB_GetNonce s a + (if a = msg_from msg then 1 else 0)
        \<and> StateDB_GetDepositBalance (st_state st) a = StateDB_GetDepositBalance s a
        \<and> StateDB_GetDelegateBalance (st_state st) a = StateDB_GetDelegateBalance s a
        \<and> StateDB_GetTotalProxiedBalance (st_state st) a = StateDB_GetTotalProxiedBalance s a
        \<and> StateDB_GetTotalRewardBalance (st_state st) a = StateDB_GetTotalRewardBalance s a)"
proof -
  let ?st = "NewStateTransition msg gp s" and ?k = "vp_keccak (ev_params evm)" and ?from = "msg_from msg"
  have t: "transition evm ?st = Ret (Inr (ret, True), st)" and g: "gas = gasUsed st" "money = uint (gasUsed st) * st_gasPrice st"
    using assms(6) by (cases "transition evm ?st";
        auto simp: ApplyMessageEx_def TransitionDbEx_def split: sum.split_asm prod.split_asm)+
  note gas = transition_gas [OF assms(1) t]
  obtain st1 g' st2 err st3 where 1: "preCheck ?st = (None, st1)" and 2: "useGas g' (createMissing ?from st1) = (None, st2)"
    "fixedPart st2 = fixedPart ?st" and 3: "execute evm ?from st2 = Ret (ret, err, st3)" "err \<noteq> Some ErrInsufficientBalance"
    and 4: "refundGas st3 = Ret st" "err \<noteq> None"
    by (rule transition_cases [OF t]) (rule that; simp)
  have m: "st_msg st3 = msg" "st_gasPrice st3 = msg_gasPrice msg"
    using execute_gas(2) [OF assms(1) 3(1)] 2(2) by (simp_all add: fixedPart_def NewStateTransition_def)
  have p: "sdb_reachable ?k (st_state st1)" "data_at (st_state st1) = (data_at s)(?from := acc_Balance_update
       (\<lambda>b. b - uint (msg_gasLimit msg) * msg_gasPrice msg) (data_at s ?from))"
    using preCheck_state [OF 1, of ?k] assms(3) by (simp_all add: NewStateTransition_def)
  have s2: "sdb_reachable ?k (st_state st2)" "data_at (st_state st2) = data_at (st_state st1)"
    using 2(1) createMissing_at [OF p(1), of ?from] by (auto simp: useGas_def split: if_splits)
  note e = execute_failed [OF assms(2) s2(1) assms(4,5) 3(1) 4(2) 3(2)]
  note r = refundGas_state(2) [OF 4(1) e(1), unfolded m]
  have "books (data_at (st_state st) a) = books (((data_at s)(?from := acc_Nonce_update (\<lambda>n. n + 1)
      (acc_Balance_update (\<lambda>b. b - uint (gasUsed st) * msg_gasPrice msg) (data_at s ?from)))) a)" for a
    using e(2) [of a] unfolding r s2(2) p(2) gas(2) by (auto simp: books_def algebra_simps)
  then show ?thesis unfolding g gas(4) using gas(1,3) by (auto simp: effects books_def)
qed

section \<open>Finalising the state of a transaction\<close>

lemma finaliseObject_books:
  assumes good: "sdb_good t" and f: "finaliseObject True a t = Ret t'"
  shows "books (data_at t' a) = books (data_at t a) \<and> (\<forall>ob. StateDB_getStateObject t' a = Some ob \<longrightarrow> \<not> dead ob)
    \<or> StateDB_getStateObject t' a = None \<and> (\<exists>ob. StateDB_getStateObject t a = Some ob \<and> dead ob)"
proof -
  obtain ob where ob: "map_of (sdb_stateObjects t) a = Some ob"
    using f by (auto simp: finaliseObject_def split: option.splits)
  have o: "so_address ob = a" "obj_ok ob" "so_deleted ob \<Longrightarrow> dead ob"
    using sdb_ok_D(1) [OF _ ob] good by (auto simp: sdb_good_def)
  show ?thesis
  proof (cases "dead ob")
    case True
    then have "t' = StateDB_deleteStateObject ob t" using f ob by (simp add: finaliseObject_def dead_def)
    then have "StateDB_getStateObject t' a = None"
      using o(1) by (simp add: StateDB_getStateObject_def StateDB_deleteStateObject_def StateDB_setStateObject_def Let_def update_conv')
    then show ?thesis using ob True
      by (cases "so_deleted ob") (simp_all add: StateDB_getStateObject_def data_at_def acct_at_def)
  next
    case False
    then obtain ob1 where ob1: "stateObject_updateRoots ob = Ret ob1"
      "t' = StateDB_updateStateObject ob1 (StateDB_setStateObject ob1 t)"
      using f ob by (auto simp: finaliseObject_def dead_def bindGo_Ret_iff)
    note fr = updateRoots_frame [OF ob1(1)]
    have live: "\<not> so_deleted ob" using o(3) False by blast
    have 1: "StateDB_getStateObject t' a = Some ob1" "\<not> dead ob1"
      using ob1(2) fr(1-3,6) o(1) live False
      by (simp_all add: StateDB_getStateObject_def StateDB_updateStateObject_def StateDB_setStateObject_def update_conv' dead_def)
    obtain st tx1 tx3 pr rw where "so_data ob1 = (so_data ob)\<lparr>acc_Root := st, acc_TX1Root := tx1, acc_TX3Root := tx3,
        acc_ProxiedRoot := Some pr, acc_RewardRoot := rw\<rparr>"
      by (rule updateRoots_data [OF ob1(1) o(2)])
    then have "books (so_data ob1) = books (so_data ob)" by (simp add: books_def)
    then show ?thesis using 1 ob live by (simp add: data_at_def acct_at_def StateDB_getStateObject_def [of t])
  qed
qed

lemma finalise_none:
  assumes "foldGo (finaliseObject True) xs t = Ret t'" "sdb_good t" "StateDB_getStateObject t a = None"
  shows "StateDB_getStateObject t' a = None"
  using assms
proof (induction xs arbitrary: t)
  case (Cons b xs)
  obtain t1 where t1: "finaliseObject True b t = Ret t1" "foldGo (finaliseObject True) xs t1 = Ret t'"
    using Cons.prems(1) by (auto simp: bindGo_Ret_iff)
  have "StateDB_getStateObject t1 a = None"
  proof (cases "b = a")
    case True
    obtain ob where ob: "map_of (sdb_stateObjects t) a = Some ob" "so_deleted ob"
      using t1(1) True Cons.prems(3) by (auto simp: finaliseObject_def StateDB_getStateObject_def split: option.splits if_splits)
    then have "dead ob" "so_address ob = a" using sdb_ok_D(1) [OF _ ob(1)] Cons.prems(2) by (auto simp: sdb_good_def)
    then show ?thesis using t1(1) True ob(1)
      by (auto simp: finaliseObject_def dead_def StateDB_getStateObject_def StateDB_deleteStateObject_def
          StateDB_setStateObject_def Let_def update_conv' split: if_splits)
  next
    case False
    then show ?thesis using finaliseObject_other [OF False t1(1) Cons.prems(2)] Cons.prems(3)
      by (simp add: StateDB_getStateObject_def cong: option.case_cong)
  qed
  then show ?case using Cons.IH [OF t1(2) finaliseObject_good [OF Cons.prems(2) t1(1)]] by simp
qed simp

lemma finaliseLoop_books:
  assumes "foldGo (finaliseObject True) xs t = Ret t'" "sdb_good t"
  shows "books (data_at t' a) = books (data_at t a)
    \<or> StateDB_getStateObject t' a = None \<and> (\<exists>ob. StateDB_getStateObject t a = Some ob \<and> dead ob)"
  using assms
proof (induction xs arbitrary: t)
  case (Cons b xs)
  obtain t1 where t1: "finaliseObject True b t = Ret t1" "foldGo (finaliseObject True) xs t1 = Ret t'"
    using Cons.prems(1) by (auto simp: bindGo_Ret_iff)
  note IH = Cons.IH [OF t1(2) finaliseObject_good [OF Cons.prems(2) t1(1)]]
  show ?case
  proof (cases "b = a")
    case True
    show ?thesis
    proof (cases "StateDB_getStateObject t1 a")
      case None
      note none = finalise_none [OF t1(2) finaliseObject_good [OF Cons.prems(2) t1(1)] None]
      then have "data_at t' a = data_at t1 a" using None by (simp add: data_at_def acct_at_def)
      then show ?thesis using none finaliseObject_books [OF Cons.prems(2) t1(1) [unfolded True]] by auto
    next
      case (Some ob)
      then show ?thesis using IH finaliseObject_books [OF Cons.prems(2) t1(1) [unfolded True]] by auto
    qed
  next
    case False
    note o = finaliseObject_other [OF False t1(1) Cons.prems(2)]
    have "StateDB_getStateObject t1 a = StateDB_getStateObject t a" using o
      by (simp add: StateDB_getStateObject_def cong: option.case_cong)
    then show ?thesis using IH by (simp add: data_at_def acct_at_def)
  qed
qed simp

lemma Finalise_books:
  assumes "sdb_reachable keccak t" "StateDB_Finalise True t = Ret t'" "\<not> StateDB_HasSuicided t a"
  shows "books (data_at t' a) = books (data_at t a)
    \<or> StateDB_Empty t a \<and> (\<exists>rw. books (data_at t' a) = books ((data_at t a)\<lparr>acc_RewardBalance := rw\<rparr>))"
proof -
  have good: "sdb_good t" using reachable_all [OF assms(1)] by (simp add: sdb_all_def)
  obtain t1 where t1: "foldGo (finaliseObject True) (sdb_stateObjectsDirty t) t = Ret t1"
    "t' = StateDB_clearJournalAndRefund (commitSets t1)"
    using assms(2) by (auto simp: StateDB_Finalise_def bindGo_Ret_iff)
  have get: "StateDB_getStateObject t' a = StateDB_getStateObject t1 a"
    by (simp add: t1(2) StateDB_getStateObject_def StateDB_clearJournalAndRefund_def commitSets_frame
        cong: option.case_cong)
  then have d: "data_at t' a = data_at t1 a" by (simp add: data_at_def acct_at_def)
  show ?thesis using finaliseLoop_books [OF t1(1) good, of a]
  proof (elim disjE conjE exE)
    fix ob assume none: "StateDB_getStateObject t1 a = None" and ob: "StateDB_getStateObject t a = Some ob" "dead ob"
    have e: "stateObject_empty ob" using assms(3) ob by (simp add: StateDB_HasSuicided_def getField_def dead_def)
    then have "books (data_at t1 a) = books ((data_at t a)\<lparr>acc_RewardBalance := 0\<rparr>)"
      using none ob(1) by (simp add: data_at_def acct_at_def books_def newObject_def zeroAccount_def stateObject_empty_def Let_def)
    then show ?thesis using e ob(1) unfolding d by (intro disjI2 conjI exI) (simp_all add: StateDB_Empty_def)
  qed (simp add: d)
qed

section \<open>Calls of the chain contract\<close>

lemma wealth_balance:
  assumes "sdb_ok s"
  shows "wealth (StateDB_AddBalance b x s) a = wealth s a + (if a = b then x else 0)"
    "wealth (StateDB_SubBalance b x s) a = wealth s a - (if a = b then x else 0)"
  using assms by (simp_all add: wealth_def effects)

lemma applyCallback_staked:
  assumes "sdb_reachable keccak s" "applyCallback env fn tx s ops = Ret (err, s', ops')"
  shows "\<exists>c. staked keccak c s s'"
proof (cases "GetApplyCb fn :: ('b stakingEnv \<Rightarrow> transaction \<Rightarrow> stateDB \<Rightarrow> pendingOp list \<Rightarrow> applied) option")
  case None
  then show ?thesis using assms staked_refl by (auto simp: applyCallback_def)
next
  case (Some cb)
  then show ?thesis using assms callback_staked [OF assms(1) Some] by (auto simp: applyCallback_def split: if_splits)
qed

text \<open>
  C10: a call of the chain contract that is applied comes from an account whose nonce it has, to a function
  that the chain allows, and has a successful receipt. Before the state is finalised the sender is poorer
  by the gas the function requires at the price of the transaction, and nobody else has gained or lost, all
  parts of an account taken together. Finalising keeps this for every account that is not empty, and the
  nonce of the sender, and of nobody else, is one more: the transaction cannot be applied again.
\<close>

theorem contract_call_exact:
  assumes "sdb_reachable keccak (ps_state ps)" "tx_Recipient tx = Some ChainContractMagicAddr"
    "IsByzantium (en_config (pe_engine env)) (hd_Number header)"
    "ApplyTransactionEx env author header tx ps = Ret (Inr (r, g), ps')"
  shows "\<exists>from fn t t'. pe_Sender env (hd_Number header) tx = Some from
    \<and> pe_FunctionTypeFromId env (take 4 (tx_Payload tx)) = Some fn
    \<and> (if IsMainChain (en_config (pe_engine env)) then AllowInMainChain fn else AllowInSideChain fn)
    \<and> StateDB_GetNonce (ps_state ps) from = tx_AccountNonce tx
    \<and> rc_Status r = ReceiptStatusSuccessful \<and> rc_GasUsed r = RequiredGas fn
    \<and> (\<forall>a. wealth t a = wealth (ps_state ps) a - (if a = from then uint (RequiredGas fn) * tx_Price tx else 0))
    \<and> StateDB_Finalise True t = Ret t' \<and> ps_state ps' = StateDB_SetNonce from (StateDB_GetNonce t' from + 1) t'
    \<and> (\<forall>a. \<not> StateDB_HasSuicided t a \<longrightarrow>
         StateDB_GetNonce (ps_state ps') a = StateDB_GetNonce (ps_state ps) a + (if a = from then 1 else 0)
         \<and> (StateDB_Empty t a \<or> wealth (ps_state ps') a = wealth t a))
    \<and> sdb_reachable keccak (ps_state ps')"
proof -
  obtain msg where msg: "AsMessage (pe_Sender env (hd_Number header)) tx = Some msg"
    "applyContract env header tx msg ps = Ret (Inr (r, g), ps')"
    using assms(2,4) by (auto simp: ApplyTransactionEx_def split: option.splits)
  let ?s = "ps_state ps" and ?from = "msg_from msg" and ?p = "tx_Price tx"
  show ?thesis using msg
  proof (cases rule: applyContract_cases)
    case (1 fn t ops root t')
    let ?bought = "StateDB_SubBalance ?from (uint (tx_GasLimit tx) * ?p) ?s"
    let ?t = "StateDB_AddBalance ?from (uint (tx_GasLimit tx - RequiredGas fn) * ?p) t"
    have b: "sdb_reachable keccak ?bought" by (rule calls_reachable(1) [OF assms(1)])
    obtain c where c: "staked keccak c ?bought t" using applyCallback_staked [OF b 1(7)] by blast
    have rt: "sdb_reachable keccak t" "sdb_reachable keccak ?t"
      using c steps_reachable(1) by (auto simp: staked_def)
    have ok: "sdb_ok ?s" "sdb_ok t" using reachable_ok assms(1) rt(1) by blast+
    have w: "wealth ?t a = wealth ?s a - (if a = ?from then uint (RequiredGas fn) * ?p else 0)" for a
    proof -
      have "wealth t a = wealth ?bought a" using c by (simp add: staked_def)
      moreover have "uint (tx_GasLimit tx - RequiredGas fn) = uint (tx_GasLimit tx) - uint (RequiredGas fn)"
        using 1(6) by (simp add: word_le_def uint_sub_if')
      ultimately show ?thesis using ok by (simp add: wealth_balance left_diff_distrib)
    qed
    have n: "StateDB_GetNonce ?t a = StateDB_GetNonce ?s a" for a
    proof -
      have "StateDB_GetNonce t a = StateDB_GetNonce ?bought a" using c by (simp add: staked_def)
      then show ?thesis using ok by (cases "a = ?from") (simp_all add: effects)
    qed
    have f: "StateDB_Finalise True ?t = Ret t'" using 1(8) assms(3) by (simp add: settleState_def bindGo_Ret_iff)
    have rt': "sdb_reachable keccak t'" by (rule sdb_reachable.Finalise [OF rt(2) f])
    have fin: "StateDB_GetNonce (ps_state ps') a = StateDB_GetNonce ?s a + (if a = ?from then 1 else 0)
        \<and> (StateDB_Empty ?t a \<or> wealth (ps_state ps') a = wealth ?t a)" if "\<not> StateDB_HasSuicided ?t a" for a
      using Finalise_books [OF rt(2) f that] n [of a] reachable_ok [OF rt'] unfolding 1(11)
      by (auto simp: books_def wealth_def effects)
    have "sdb_reachable keccak (ps_state ps')" unfolding 1(11) by (rule calls_reachable(17) [OF rt'])
    then show ?thesis using AsMessage_fields(1) [OF msg(1)] 1(1-3,11) w f fin
      by (intro exI [of _ ?from] exI [of _ fn] exI [of _ ?t] exI [of _ t']) (simp add: 1(9) NewReceipt_def)
  qed
qed

section \<open>Examples\<close>

lemma demo_ledger_reachable: "sdb_reachable (vp_keccak demo_vm) demo_ledger"
proof -
  have "trie_ok empty_trie" by (simp add: trie_ok_def empty_trie_def)
  then have "sdb_reachable keccak (StateDB_New Map.empty empty_trie)" for keccak by (rule sdb_reachable.New)
  from sdb_reachable.Step [OF sdb_reachable.Step [OF sdb_reachable.Step [OF this sdb_step.AddBalance]
      sdb_step.AddDepositBalance] sdb_step.SetCode]
  show ?thesis unfolding demo_ledger_def .
qed

definition demo_message :: message where
  "demo_message = \<lparr>msg_to = Some [8], msg_from = [2], msg_nonce = 0, msg_amount = 7, msg_gasLimit = 30000,
     msg_gasPrice = 2, msg_data = [], msg_checkNonce = True\<rparr>"

definition demo_evm :: evm where
  "demo_evm = NewEVM (demo_proc [2]) \<lparr>cx_Origin = [2], cx_GasPrice = 2, cx_Coinbase = [1], cx_GasLimit = 200000,
     cx_BlockNumber = Some 5, cx_Time = 0, cx_Difficulty = Some 1\<rparr>"

lemma demo_failed:
  "case ApplyMessageEx demo_evm demo_message 200000 demo_ledger of
     Ret (Inr (ret, gas, money, failed), st) \<Rightarrow> gas = 30000 \<and> money = 60000 \<and> failed
   | _ \<Rightarrow> False"
  by code_simp

theorem failed_message_pays_gas_witness:
  "\<exists>ret st. ApplyMessageEx demo_evm demo_message 200000 demo_ledger = Ret (Inr (ret, 30000, 60000, True), st)
     \<and> StateDB_GetBalance (st_state st) [2] = StateDB_GetBalance demo_ledger [2] - 60000
     \<and> StateDB_GetBalance (st_state st) [8] = StateDB_GetBalance demo_ledger [8]
     \<and> StateDB_GetNonce (st_state st) [2] = StateDB_GetNonce demo_ledger [2] + 1"
proof -
  obtain x st where x: "ApplyMessageEx demo_evm demo_message 200000 demo_ledger = Ret (x, st)"
    using demo_failed by (cases "ApplyMessageEx demo_evm demo_message 200000 demo_ledger") auto
  obtain ret where r: "ApplyMessageEx demo_evm demo_message 200000 demo_ledger = Ret (Inr (ret, 30000, 60000, True), st)"
    using demo_failed x by (cases x) auto
  have p: "ev_params demo_evm = demo_vm" "ev_depth demo_evm = 0" "msg_from demo_message = [2]"
    by (simp_all add: demo_evm_def NewEVM_def demo_proc_def demo_message_def)
  have law: "interpreterGas (ev_params demo_evm)" "interpreterSteps (ev_params demo_evm)"
    by (auto simp: p interpreterGas_def interpreterSteps_def demo_vm_def intro: sdb_step.AddBalance)
  have home: "IsHomestead (ev_config demo_evm) (cx_BlockNumber (ev_Context demo_evm))" by code_simp
  have ne: "[8] \<noteq> ([2] :: address)" by simp
  have reach: "sdb_reachable (vp_keccak (ev_params demo_evm)) demo_ledger" unfolding p by (rule demo_ledger_reachable)
  show ?thesis using failed_message_pays_gas [OF law reach home p(2) r] r ne unfolding p(3) by auto
qed

text \<open>The user of \<open>demo_pool\<close> delegates 100 more.\<close>

definition demo_block5 :: "blob header" where
  "demo_block5 = (demo_header 5)\<lparr>hd_GasLimit := 200000, hd_Difficulty := Some 1, hd_Coinbase := demo_val\<rparr>"

definition demo_start :: procState where
  "demo_start = \<lparr>ps_gp = 200000, ps_state = StateDB_AddBalance demo_user 1000000 demo_pool, ps_ops = [], ps_usedGas = 0,
     ps_totalUsedMoney = 0\<rparr>"

lemma demo_called:
  "case ApplyTransactionEx (demo_proc demo_user) None demo_block5 (demo_call 100) demo_start of
     Ret (Inr (r, g), ps) \<Rightarrow> StateDB_GetDelegateBalance (ps_state ps) demo_user = 190 \<and> rc_GasUsed r = 100000
   | _ \<Rightarrow> False"
  by code_simp

theorem contract_call_exact_witness:
  "\<exists>r ps t. ApplyTransactionEx (demo_proc demo_user) None demo_block5 (demo_call 100) demo_start = Ret (Inr (r, 0), ps)
     \<and> StateDB_GetDelegateBalance (ps_state ps) demo_user = 190 \<and> rc_Status r = ReceiptStatusSuccessful
     \<and> wealth t demo_user = wealth (ps_state demo_start) demo_user - 100000"
proof -
  let ?run = "ApplyTransactionEx (demo_proc demo_user) None demo_block5 (demo_call 100) demo_start"
  obtain x ps where x: "?run = Ret (x, ps)" using demo_called by (cases ?run) auto
  obtain r g where r: "?run = Ret (Inr (r, g), ps)" "StateDB_GetDelegateBalance (ps_state ps) demo_user = 190"
    "rc_GasUsed r = 100000"
    using demo_called x by (cases x) auto
  have g: "g = 0"
  proof -
    obtain msg where "applyContract (demo_proc demo_user) demo_block5 (demo_call 100) msg demo_start = Ret (Inr (r, g), ps)"
      using r(1) by (auto simp: ApplyTransactionEx_def demo_call_def split: option.splits)
    then show ?thesis
      by (auto simp: applyContract_def bindGo_Ret_iff Let_def split: if_splits option.splits)
  qed
  have reach: "sdb_reachable (\<lambda>_. []) (ps_state demo_start)"
    using sdb_reachable.Step [OF demo_pool_reachable sdb_step.AddBalance] by (simp add: demo_start_def)
  have to: "tx_Recipient (demo_call 100) = Some ChainContractMagicAddr" "tx_Price (demo_call 100) = 1"
    by (simp_all add: demo_call_def)
  have byz: "IsByzantium (en_config (pe_engine (demo_proc demo_user))) (hd_Number demo_block5)" by code_simp
  have sender: "pe_Sender (demo_proc demo_user) n tx = Some demo_user" for n tx by (simp add: demo_proc_def)
  obtain a fn t where t: "pe_Sender (demo_proc demo_user) (hd_Number demo_block5) (demo_call 100) = Some a"
    "rc_Status r = ReceiptStatusSuccessful" "rc_GasUsed r = RequiredGas fn"
    "\<And>b. wealth t b = wealth (ps_state demo_start) b - (if b = a then uint (RequiredGas fn) * tx_Price (demo_call 100) else 0)"
    using contract_call_exact [OF reach to(1) byz r(1)] by blast
  have "a = demo_user" "RequiredGas fn = 100000" using t(1,3) sender r(3) by simp_all
  then have "wealth t demo_user = wealth (ps_state demo_start) demo_user - 100000" using t(4) [of demo_user] to(2) by simp
  with r g t(2) show ?thesis by blast
qed

end
