(* ===== verification/Spec2Isabelle.thy ===== *)
theory Spec2Isabelle
  imports Commit_Theorems Height_Votes_Theorems Part_Set State_Limits Epoch_Funds Epoch_Store
    Proposer_Theorems Transaction_Theorems
begin

text \<open>
  A verification of the ligo-chain node. Paths are relative to \<open>src/\<close>.

  \<^bold>\<open>The program.\<close> A node runs a Tendermint-style consensus with BLS signatures over a chain of
  accounts derived from go-ethereum. Validators vote on blocks; the votes of a round are
  collected and, with enough voting power, aggregated into a commit. Blocks travel in parts. The
  accounts carry, beside balance, nonce, code and storage, the deposits of validators, the
  delegations to candidates and the rewards.

  \<^bold>\<open>Conventions.\<close> \<open>Go_Prelude\<close> has the results of Go code (\<open>Ret\<close>, \<open>Panic\<close>) and shared lemmas.
  Code of other modules (bit arrays, BLS, wire encoding, merkle proofs) is the record \<open>ext\<close> of
  \<open>External\<close>; what is assumed of it is a named hypothesis (\<open>bitArray_laws\<close>, \<open>merkle_complete\<close>),
  which \<open>demo_ext\<close> satisfies. A \<open>uint64\<close> is a 64-bit word, a \<open>big.Int\<close> an integer, a nil pointer
  \<open>None\<close>.

  \<^bold>\<open>Votes\<close> (\<open>chain/consensus/tendermint/types\<close>). \<open>Validators\<close> models \<open>validator_set.go\<close>; \<open>Votes\<close> the
  \<open>VoteSet\<close> of \<open>vote_set.go\<close>, whose invariant and behaviour are in \<open>Vote_Invariant\<close>,
  \<open>Vote_Collector\<close> and \<open>Vote_Theorems\<close>: a majority is reported exactly when a block has enough
  power, decisions share signers. \<open>Commits\<close> and \<open>Commit_Theorems\<close> treat \<open>block.go\<close> (commits),
  \<open>sign_aggr.go\<close> and \<open>VerifyCommit\<close>. \<open>Height_Votes\<close> and \<open>Height_Votes_Theorems\<close> treat
  \<open>consensus/height_vote_set.go\<close> and \<open>height_sign_aggr.go\<close>. \<open>Part_Set\<close> treats \<open>part_set.go\<close>.

  \<^bold>\<open>State\<close> (\<open>chain/core/state\<close>). \<open>State_Objects\<close> models \<open>stateObject\<close>, \<open>State_DB\<close> the \<open>StateDB\<close>
  with its journal and its writing to the trie. \<open>State_View\<close> is the abstract state an observer
  sees, and the interface of an undo log (locale \<open>undo_log\<close>) that the journal implements;
  \<open>State_Revert\<close> shows for every method that its journal entries undo it; \<open>State_Theorems\<close>
  gathers the methods in a step relation. \<open>State_Accounting\<close>, \<open>State_Reachable\<close> and
  \<open>State_Persist\<close> give the sums of delegations, the reachable databases and what \<open>Finalise\<close>
  writes; \<open>State_Properties\<close> and \<open>State_Limits\<close> have the properties.

  \<^bold>\<open>Epochs\<close> (\<open>chain/consensus/tendermint/epoch\<close>). \<open>Epoch_Votes\<close> models the votes for the next epoch
  (\<open>epoch_vote.go\<close>) with their pointers, the reward scheme and the store; \<open>Epochs\<close> the epochs
  themselves (\<open>epoch.go\<close>), the vote handlers of \<open>ligochain/cross_chain.go\<close> and the handlers of
  inserted blocks of \<open>state/execution.go\<close>. \<open>Epoch_Validators\<close> shows what the next validator set is,
  \<open>Epoch_Funds\<close> that the change of epoch conserves the funds (over the laws of \<open>State_Effects\<close>),
  \<open>Epoch_Store\<close> the properties of the store, of the vote handlers and of proposals. The loop of
  \<open>GetEpochByBlockNumber\<close> may not end and is a partial function; it is proved to return.

  \<^bold>\<open>Consensus\<close> (\<open>chain/consensus/tendermint/consensus\<close>). \<open>Blocks\<close> models headers, blocks and their extra
  data, proposals and the signing by a validator; \<open>Go_Float\<close> the part of \<open>math/big\<close> that the timeouts
  need. \<open>Consensus_State\<close> is the \<open>ConsensusState\<close> of \<open>state.go\<close> with the choice of the proposer and the
  making of a proposal, \<open>Consensus_Handlers\<close> every handler of a message or timeout, the steps of a
  round from \<open>enterNewRound\<close> to \<open>finalizeCommit\<close>, and the start of a height (\<open>tdmstate.go\<close>). Blocks and
  part sets are shared by pointer in the code; here they are numbers of entries of the lists \<open>cs_blocks\<close> and
  \<open>cs_partSets\<close>. What a handler sends (timers, events, its own messages, votes for the proposer, committed
  blocks) is appended to \<open>cs_out\<close>. The functions of other modules that the handlers call are the records
  \<open>consEnv\<close>, \<open>chainReader\<close> and \<open>codec\<close>; no law is assumed of them, except those of the bit arrays.

  The proofs about the handlers are layered. \<open>Consensus_Frame\<close> treats the functions that send or sign and
  leave the lock and the stores alone; \<open>Consensus_Invariant\<close> defines the well-formed states and shows for
  each step of a round what it does to the lock, which votes it casts and what it commits;
  \<open>Consensus_Steps\<close> does the same for the handlers of parts, aggregates and votes and gathers them in the
  relation \<open>consensus_step\<close>: a message, a timeout, a block of the miner, an inserted block, or a change of
  the epoch, in any order. \<open>Consensus_Theorems\<close> has the properties: reachable states are well formed,
  committed blocks have a quorum that meets every other, votes follow the lock, and the position
  moves forward. A run of a node with one validator, from the proposal to the commit, is the witness.
  \<open>Proposer_Theorems\<close> shows how often a validator is proposer.

  \<^bold>\<open>Staking and rewards.\<close> \<open>Staking\<close> models the chain contract: the callbacks of \<open>internal/ligoapi/api.go\<close>
  that register, delegate, undelegate, withdraw and unban, with the pending operations they leave
  (\<open>core/types/pending_ops.go\<close>). \<open>State_Effects\<close> and \<open>Account_Effects\<close> give each method of the database as an
  update of the data of one account (collection \<open>effects\<close>); over them \<open>Staking_Theorems\<close> shows that a
  callback creates and loses nothing. \<open>Rewards\<close> models \<open>accumulateRewards\<close> of the engine with the rounding of
  \<open>big.Float\<close> (\<open>Float_Laws\<close>), and shows that fees and reward are distributed without a rest.

  \<^bold>\<open>Side chains\<close> (\<open>core/chains_info.go\<close>, \<open>ligochain/cross_chain.go\<close>). \<open>Side_Chains\<close> models the registry of the main
  chain: creating, joining and launching a side chain, the epochs it reports, and the verification of its
  headers and withdrawals. \<open>Side_Chain_Theorems\<close> shows what saving a chain registers, that a launch
  conserves funds, and what accepted proof data guarantees; the laws of the encoding are the hypothesis
  \<open>chainWire_laws\<close>. Waiting for a chain to be registered is a partial function.

  \<^bold>\<open>Engine\<close> (\<open>consensus/tendermint/engine.go\<close>). \<open>Engine\<close> models the verification of headers and seals,
  \<open>Prepare\<close>, \<open>Finalize\<close> and \<open>Commit\<close>. The epoch and the height of the main chain, which change while a header
  waits, are sequences of readings. \<open>Engine_Theorems\<close> shows what an accepted header has, and that a block
  committed by the consensus is accepted by another node.

  \<^bold>\<open>Transactions\<close> (\<open>core/state_transition.go\<close>, \<open>core/ligo_state_processor.go\<close>, \<open>core/state_processor.go\<close>,
  \<open>core/vm/evm.go\<close>). \<open>Transactions\<close> models the gas pool, calls and creations of the virtual machine, the
  transition of a message, both kinds of transactions, and the processing of a block up to \<open>Finalize\<close>. The
  loop over the instructions of a contract is the parameter \<open>vp_interpret\<close>. \<open>Transaction_Gas\<close> needs of it that
  gas does not grow (\<open>interpreterGas\<close>) and shows that a block accounts for its gas and fees;
  \<open>Transaction_Theorems\<close> needs that the state is changed through the methods of \<open>StateDB\<close>
  (\<open>interpreterSteps\<close>) and shows, over the theorem on reverting, that a failed message only pays its gas, and,
  over the one on staking, what a call of the chain contract does.

  \<^bold>\<open>Not modelled.\<close> Networking, RPC, the key store, the console and metrics are input and output.
  Tries are the lists of what they hold, so that node encoding and storage are left out;
  \<open>StateDB.Copy\<close> depends on shared pointers. Of the consensus, the goroutines that gossip with peers
  (\<open>reactor.go\<close>), the timers and the loop that reads the channels are left out: the step relation takes the
  events in any order, which includes every order they produce. Saving a block to the main chain and
  broadcasting proofs are only recorded as effects. Of the engine, the channels and locks of \<open>Seal\<close>, \<open>Start\<close> and
  \<open>Stop\<close> are left out; of the virtual machine, its instructions and the precompiled contracts. The block chain,
  the transaction pool and the management of chain processes are databases, caches and goroutines around
  the functions modelled here.
\<close>

end
